(* ===== verification/Crab_Prelude.thy ===== *)
theory Crab_Prelude
  imports Main "HOL-Library.Word"
begin

text \<open>
  Shared vocabulary of the development.

  \<^item> the machine integers of the firmware (\<open>u8\<close> \<dots> \<open>u64\<close>, and \<open>usize\<close>, which is 64 bits wide on
    the only target, \<open>x86_64-unknown-none\<close>) as \<open>'n word\<close>, with the checked, saturating and rounding
    operations of Rust's integer types written over \<^const>\<open>unat\<close>;
  \<^item> the status values of the EFI calling convention, the \<open>Result<T, Status>\<close> type as a sum, GUIDs;
  \<^item> iterator idioms of the sources (\<open>position\<close>, \<open>remove\<close>, \<open>push\<close>) on lists, with the laws that
    the documentation of \<open>heapless::Vec\<close> promises collected in the locale \<open>bounded_vec\<close>;
  \<^item> byte-addressed memory with little-endian accesses.

  Arithmetic that is not checked by the source wraps around, as it does in the release profile of
  \<open>Cargo.toml\<close>, which leaves overflow checks off.
\<close>

unbundle bit_operations_syntax

named_theorems crab_defs \<open>definitions that component proofs unfold together\<close>
named_theorems word_nat \<open>equations that move word arithmetic to the naturals\<close>

section \<open>Machine integers\<close>

type_synonym u8 = "8 word"
type_synonym u16 = "16 word"
type_synonym u32 = "32 word"
type_synonym u64 = "64 word"
type_synonym usize = "64 word"

definition checked_add :: "'a::len word \<Rightarrow> 'a word \<Rightarrow> 'a word option" where
  "checked_add a b = (if uint a + uint b < 2 ^ LENGTH('a) then Some (a + b) else None)"

definition checked_mul :: "'a::len word \<Rightarrow> 'a word \<Rightarrow> 'a word option" where
  "checked_mul a b = (if uint a * uint b < 2 ^ LENGTH('a) then Some (a * b) else None)"

definition saturating_sub :: "'a::len word \<Rightarrow> 'a word \<Rightarrow> 'a word" where
  "saturating_sub a b = (if b \<le> a then a - b else 0)"

definition saturating_add :: "'a::len word \<Rightarrow> 'a word \<Rightarrow> 'a word" where
  "saturating_add a b = (case checked_add a b of Some c \<Rightarrow> c | None \<Rightarrow> - 1)"

definition div_ceil :: "'a::len word \<Rightarrow> 'a word \<Rightarrow> 'a word" where
  "div_ceil a b = (if a mod b = 0 then a div b else a div b + 1)"

definition is_multiple_of :: "'a::len word \<Rightarrow> 'a word \<Rightarrow> bool" where
  "is_multiple_of a b \<longleftrightarrow> (if b = 0 then a = 0 else a mod b = 0)"

lemma uint_add_less_iff:
  "uint a + uint b < 2 ^ LENGTH('a) \<longleftrightarrow> unat a + unat b < 2 ^ LENGTH('a)"
  for a b :: "'a::len word"
proof -
  have "uint a + uint b < 2 ^ LENGTH('a) \<longleftrightarrow> int (unat a + unat b) < int (2 ^ LENGTH('a))"
    by simp
  also have "\<dots> \<longleftrightarrow> unat a + unat b < 2 ^ LENGTH('a)"
    by (rule of_nat_less_iff)
  finally show ?thesis .
qed

lemma uint_mul_less_iff:
  "uint a * uint b < 2 ^ LENGTH('a) \<longleftrightarrow> unat a * unat b < 2 ^ LENGTH('a)"
  for a b :: "'a::len word"
proof -
  have "uint a * uint b < 2 ^ LENGTH('a) \<longleftrightarrow> int (unat a * unat b) < int (2 ^ LENGTH('a))"
    by simp
  also have "\<dots> \<longleftrightarrow> unat a * unat b < 2 ^ LENGTH('a)"
    by (rule of_nat_less_iff)
  finally show ?thesis .
qed

lemma checked_add_Some_iff:
  "checked_add a b = Some c \<longleftrightarrow>
     unat a + unat b < 2 ^ LENGTH('a) \<and> unat c = unat a + unat b"
  for a b c :: "'a::len word"
proof -
  have "unat (a + b) = unat a + unat b" if "unat a + unat b < 2 ^ LENGTH('a)"
    using that by (rule unat_add_lem [THEN iffD1])
  then show ?thesis
    by (auto simp: checked_add_def uint_add_less_iff word_unat_eq_iff)
qed

lemma checked_add_None_iff:
  "checked_add a b = None \<longleftrightarrow> 2 ^ LENGTH('a) \<le> unat a + unat b"
  for a b :: "'a::len word"
  by (auto simp: checked_add_def uint_add_less_iff)

lemma checked_mul_Some_iff:
  "checked_mul a b = Some c \<longleftrightarrow>
     unat a * unat b < 2 ^ LENGTH('a) \<and> unat c = unat a * unat b"
  for a b c :: "'a::len word"
proof -
  have "unat (a * b) = unat a * unat b" if "unat a * unat b < 2 ^ LENGTH('a)"
    using that by (rule unat_mult_lem [THEN iffD1])
  then show ?thesis
    by (auto simp: checked_mul_def uint_mul_less_iff word_unat_eq_iff)
qed

lemma checked_mul_None_iff:
  "checked_mul a b = None \<longleftrightarrow> 2 ^ LENGTH('a) \<le> unat a * unat b"
  for a b :: "'a::len word"
  by (auto simp: checked_mul_def uint_mul_less_iff)

lemma checked_add_SomeI: "unat a + unat b < 2 ^ LENGTH('a) \<Longrightarrow> checked_add a b = Some (a + b)"
  for a b :: "'a::len word"
  by (simp only: checked_add_def uint_add_less_iff if_True)

lemma unat_plus_less: "unat a + unat b < 2 ^ LENGTH('a) \<Longrightarrow> unat (a + b) = unat a + unat b"
  for a b :: "'a::len word"
  by (rule unat_add_lem [THEN iffD1])

lemma unat_ucast_widen: "LENGTH('a) \<le> LENGTH('b) \<Longrightarrow> unat (ucast x :: 'b::len word) = unat x"
  for x :: "'a::len word"
proof -
  assume le: "LENGTH('a) \<le> LENGTH('b)"
  have "unat x < 2 ^ LENGTH('a)"
    by (rule unsigned_less)
  also have "(2 :: nat) ^ LENGTH('a) \<le> 2 ^ LENGTH('b)"
    using le by (rule power_increasing) simp
  finally have "unat x < 2 ^ LENGTH('b)" .
  moreover have "unat (ucast x :: 'b word) = unat (of_nat (unat x) :: 'b word)"
    by simp
  ultimately show ?thesis
    by (simp only: unat_of_nat mod_less)
qed

lemma unat_sub_le [word_nat]: "b \<le> a \<Longrightarrow> unat (a - b) = unat a - unat b"
  for a b :: "'a::len word"
  by (simp add: unat_sub)

lemma unat_of_nat_u64: "n < 2 ^ 64 \<Longrightarrow> unat (of_nat n :: u64) = n"
  by (simp only: unat_of_nat) simp

text \<open>Differences of 64-bit counts and addresses, ahead of and behind a reference.\<close>

lemma unat_ahead: "b \<le> a \<Longrightarrow> a < b + 2 ^ 64 \<Longrightarrow> unat (of_nat a - of_nat b :: u64) = a - b"
proof -
  assume a: "b \<le> a" "a < b + 2 ^ 64"
  then have "of_nat a - of_nat b = (of_nat (a - b) :: u64)"
    by simp
  then have "unat (of_nat a - of_nat b :: u64) = unat (of_nat (a - b) :: u64)"
    by (rule arg_cong)
  also have "\<dots> = a - b"
    using a by (intro unat_of_nat_u64) simp
  finally show ?thesis .
qed

lemma unat_behind: "a < b \<Longrightarrow> b < 2 ^ 64 \<Longrightarrow> unat (of_nat a - of_nat b :: u64) = 2 ^ 64 - (b - a)"
  using unat_sub_if' [of "of_nat a :: u64" "of_nat b"] unat_of_nat_u64 [of a] unat_of_nat_u64 [of b] by simp

lemma unat_less_mono [word_nat]: "a < b \<longleftrightarrow> unat a < unat b"
  for a b :: "'a::len word"
  by (rule word_less_nat_alt)

lemma unat_le_mono [word_nat]: "a \<le> b \<longleftrightarrow> unat a \<le> unat b"
  for a b :: "'a::len word"
  by (rule word_le_nat_alt)

lemma unat_div_eq [word_nat]: "unat (a div b) = unat a div unat b"
  for a b :: "'a::len word"
  by (rule unat_div)

lemma unat_mod_eq [word_nat]: "unat (a mod b) = unat a mod unat b"
  for a b :: "'a::len word"
  by (rule unat_mod)

lemma unat_pos_iff [word_nat]: "0 < unat a \<longleftrightarrow> a \<noteq> 0"
  for a :: "'a::len word"
  by (rule unat_gt_0)

lemma unat_bound: "unat a < 2 ^ LENGTH('a)"
  for a :: "'a::len word"
  by (rule unsigned_less)

lemma unat_u64_bound: "unat (a :: u64) < 2 ^ 64"
  using unat_bound [of a] by simp


lemma word_and_not_mask: "x AND NOT (mask n) = x - take_bit n x"
  for x :: "'a::len word"
proof -
  have "(x AND mask n) + (x AND NOT (mask n)) = (x AND mask n) OR (x AND NOT (mask n))"
    by (rule disjunctive_add) (auto simp: bit_simps)
  also have "\<dots> = x"
    by (rule bit_eqI) (auto simp: bit_simps)
  finally show ?thesis
    by (simp add: take_bit_eq_mask algebra_simps)
qed

lemma unat_take_bit: "unat (take_bit n x) = unat x mod 2 ^ n"
  for x :: "'a::len word"
proof -
  have "unat (take_bit n x) = take_bit n (unat x)"
    by (rule unsigned_take_bit_eq)
  also have "\<dots> = unat x mod 2 ^ n"
    by (rule take_bit_eq_mod)
  finally show ?thesis .
qed

lemma unat_and_not_mask: "unat (x AND NOT (mask n)) = unat x - unat x mod 2 ^ n"
  for x :: "'a::len word"
proof -
  have "take_bit n x \<le> x"
    by (simp add: word_le_nat_alt unat_take_bit)
  then show ?thesis
    by (simp add: word_and_not_mask unat_sub unat_take_bit)
qed

section \<open>Status values, results and identifiers\<close>

text \<open>
  The sources compare statuses for equality and pass them on; nothing depends on their numeric
  codes, so the codes the firmware names are distinct constructors.
\<close>

datatype efi_status =
    SUCCESS | INVALID_PARAMETER | UNSUPPORTED | BUFFER_TOO_SMALL | NOT_READY | DEVICE_ERROR
  | OUT_OF_RESOURCES | NOT_FOUND | END_OF_FILE | WRITE_PROTECTED | VOLUME_CORRUPTED | NO_MEDIA
  | MEDIA_CHANGED | ACCESS_DENIED | TIMEOUT | ABORTED | ALREADY_STARTED | BAD_BUFFER_SIZE
  | OTHER_STATUS u64

type_synonym 'a efi_result = "efi_status + 'a"

abbreviation Ok :: "'a \<Rightarrow> 'e + 'a" where
  "Ok \<equiv> Inr"

abbreviation Err :: "'e \<Rightarrow> 'e + 'a" where
  "Err \<equiv> Inl"

text \<open>
  A function that may panic returns an option: \<^const>\<open>None\<close> is the panic (the firmware is built with
  \<open>panic = "abort"\<close>, so nothing is observed after it).
\<close>

type_synonym 'a may_panic = "'a option"

text \<open>
  A GUID is compared field by field; \<open>Guid::from_fields\<close> is its constructor. The node part holds six
  bytes.
\<close>

datatype guid = Guid u32 u16 u16 u8 u8 "u8 list"

section \<open>Searching lists\<close>

text \<open>\<open>Iterator::position\<close>: the index of the first element that satisfies the predicate.\<close>

primrec position :: "('a \<Rightarrow> bool) \<Rightarrow> 'a list \<Rightarrow> nat option" where
  "position P [] = None"
| "position P (x # xs) = (if P x then Some 0 else map_option Suc (position P xs))"

lemma position_None_iff: "position P xs = None \<longleftrightarrow> (\<forall>x \<in> set xs. \<not> P x)"
  by (induction xs) auto

lemma position_SomeD:
  "position P xs = Some i \<Longrightarrow> i < length xs \<and> P (xs ! i) \<and> (\<forall>j < i. \<not> P (xs ! j))"
proof (induction xs arbitrary: i)
  case Nil
  then show ?case by simp
next
  case (Cons x xs)
  show ?case
  proof (cases "P x")
    case True
    with Cons.prems show ?thesis by simp
  next
    case False
    with Cons.prems obtain k where "position P xs = Some k" and "i = Suc k"
      by auto
    with False Cons.IH [of k] show ?thesis
      by (auto simp: less_Suc_eq_0_disj)
  qed
qed

lemma position_SomeI:
  "i < length xs \<Longrightarrow> P (xs ! i) \<Longrightarrow> (\<And>j. j < i \<Longrightarrow> \<not> P (xs ! j)) \<Longrightarrow> position P xs = Some i"
proof (induction xs arbitrary: i)
  case Nil
  then show ?case by simp
next
  case (Cons x xs)
  show ?case
  proof (cases i)
    case 0
    with Cons.prems show ?thesis by simp
  next
    case (Suc k)
    have "\<not> P x"
      using Cons.prems(3) [of 0] Suc by simp
    moreover have "position P xs = Some k"
    proof (rule Cons.IH)
      show "k < length xs" and "P (xs ! k)"
        using Cons.prems(1,2) Suc by simp_all
      show "\<not> P (xs ! j)" if "j < k" for j
        using Cons.prems(3) [of "Suc j"] that Suc by simp
    qed
    ultimately show ?thesis
      using Suc by simp
  qed
qed

lemma position_cong: "(\<And>x. x \<in> set xs \<Longrightarrow> P x = Q x) \<Longrightarrow> position P xs = position Q xs"
  by (induction xs) auto

lemma find_position: "find P xs = map_option (\<lambda>i. xs ! i) (position P xs)"
  by (induction xs) (auto simp: option.map_comp comp_def)

lemma find_SomeD: "find P xs = Some x \<Longrightarrow> x \<in> set xs \<and> P x"
  by (induction xs) (auto split: if_splits)

lemma find_None_iff_all: "find P xs = None \<longleftrightarrow> (\<forall>x \<in> set xs. \<not> P x)"
  by (simp add: find_None_iff) blast

lemma find_unique:
  assumes "x \<in> set xs" and "P x" and "\<And>y. y \<in> set xs \<Longrightarrow> P y \<Longrightarrow> y = x"
  shows "find P xs = Some x"
proof (cases "find P xs")
  case None
  with assms(1,2) show ?thesis by (auto simp: find_None_iff_all)
next
  case (Some y)
  then have "y \<in> set xs" and "P y"
    by (auto dest: find_SomeD)
  with assms(3) Some show ?thesis by simp
qed

section \<open>Fixed-capacity vectors\<close>

text \<open>
  \<open>heapless::Vec<T, N>\<close> keeps at most \<open>N\<close> elements: \<open>push\<close> hands the element back when the vector is
  full, \<open>remove(i)\<close> deletes the element at \<open>i\<close>, moves the later ones down and panics when \<open>i\<close> is out
  of range. The vector is a list; \<open>bounded_vec\<close> states what the sources rely on.
\<close>

definition vec_push :: "nat \<Rightarrow> 'a list \<Rightarrow> 'a \<Rightarrow> 'a list option" where
  "vec_push cap xs x = (if length xs < cap then Some (xs @ [x]) else None)"

definition vec_remove :: "nat \<Rightarrow> 'a list \<Rightarrow> 'a list may_panic" where
  "vec_remove i xs = (if i < length xs then Some (take i xs @ drop (Suc i) xs) else None)"

text \<open>\<open>let _ = v.push(x)\<close>: a full vector is left unchanged.\<close>

definition vec_push_ignore :: "nat \<Rightarrow> 'a list \<Rightarrow> 'a \<Rightarrow> 'a list" where
  "vec_push_ignore cap xs x = (case vec_push cap xs x of Some ys \<Rightarrow> ys | None \<Rightarrow> xs)"

locale bounded_vec =
  fixes cap :: nat
    and push :: "'v \<Rightarrow> 'a \<Rightarrow> 'v option"
    and remove :: "nat \<Rightarrow> 'v \<Rightarrow> 'v option"
    and elems :: "'v \<Rightarrow> 'a list"
  assumes push_room: "length (elems v) < cap \<Longrightarrow> \<exists>w. push v x = Some w \<and> elems w = elems v @ [x]"
    and push_full: "cap \<le> length (elems v) \<Longrightarrow> push v x = None"
    and remove_in: "i < length (elems v) \<Longrightarrow>
      \<exists>w. remove i v = Some w \<and> elems w = take i (elems v) @ drop (Suc i) (elems v)"
    and remove_out: "length (elems v) \<le> i \<Longrightarrow> remove i v = None"
begin

lemma push_bound: "push v x = Some w \<Longrightarrow> length (elems w) \<le> cap"
  using push_room [of v x] push_full [of v x] by (cases "length (elems v) < cap") auto

lemma push_set: "push v x = Some w \<Longrightarrow> set (elems w) = insert x (set (elems v))"
  using push_room [of v x] push_full [of v x] by (cases "length (elems v) < cap") auto

lemma remove_length: "remove i v = Some w \<Longrightarrow> Suc (length (elems w)) = length (elems v)"
  using remove_in [of i v] remove_out [of v i] by (cases "i < length (elems v)") auto

lemma remove_makes_room:
  assumes "remove i v = Some w" and "length (elems v) \<le> cap"
  shows "\<exists>w'. push w x = Some w'"
proof -
  have "length (elems w) < cap"
    using remove_length [OF assms(1)] assms(2) by simp
  then show ?thesis
    using push_room by blast
qed

end

interpretation heapless: bounded_vec cap "vec_push cap" vec_remove "\<lambda>xs. xs"
  by unfold_locales (auto simp: vec_push_def vec_remove_def)

lemma vec_push_Some_iff:
  "vec_push cap xs x = Some ys \<longleftrightarrow> length xs < cap \<and> ys = xs @ [x]"
  by (auto simp: vec_push_def)

lemma vec_push_ignore_room [simp]: "length xs < cap \<Longrightarrow> vec_push_ignore cap xs x = xs @ [x]"
  by (simp add: vec_push_ignore_def vec_push_def)

lemma vec_push_ignore_full [simp]: "cap \<le> length xs \<Longrightarrow> vec_push_ignore cap xs x = xs"
  by (simp add: vec_push_ignore_def vec_push_def)

lemma take_drop_nth_split: "i < length xs \<Longrightarrow> xs = take i xs @ xs ! i # drop (Suc i) xs"
  by (rule id_take_nth_drop)

lemma take_take_append: "take n (take n xs @ ys) = take n (xs @ ys)"
  by (cases "length xs \<le> n") simp_all

section \<open>Bytes and memory\<close>

type_synonym memory = "u64 \<Rightarrow> u8"

fun le_nat :: "u8 list \<Rightarrow> nat" where
  "le_nat [] = 0"
| "le_nat (b # bs) = unat b + 256 * le_nat bs"

fun le_bytes :: "nat \<Rightarrow> nat \<Rightarrow> u8 list" where
  "le_bytes 0 n = []"
| "le_bytes (Suc k) n = of_nat n # le_bytes k (n div 256)"

text \<open>\<open>slice off n xs\<close> is \<open>&xs[off..off + n]\<close> when that range is inside \<open>xs\<close>.\<close>

definition slice :: "nat \<Rightarrow> nat \<Rightarrow> 'a list \<Rightarrow> 'a list" where
  "slice off n xs = take n (drop off xs)"

text \<open>A little-endian field of \<open>n\<close> bytes at an offset.\<close>

definition field :: "u8 list \<Rightarrow> nat \<Rightarrow> nat \<Rightarrow> nat" where
  "field bs off n = le_nat (slice off n bs)"

definition read_bytes :: "memory \<Rightarrow> u64 \<Rightarrow> nat \<Rightarrow> u8 list" where
  "read_bytes m a n = map (\<lambda>i. m (a + of_nat i)) [0..<n]"

definition write_bytes :: "memory \<Rightarrow> u64 \<Rightarrow> u8 list \<Rightarrow> memory" where
  "write_bytes m a bs = (\<lambda>x. if unat (x - a) < length bs then bs ! unat (x - a) else m x)"

lemma length_le_bytes [simp]: "length (le_bytes k n) = k"
  by (induction k n rule: le_bytes.induct) auto

lemma le_nat_bound: "le_nat bs < 256 ^ length bs"
proof (induction bs)
  case Nil
  then show ?case by simp
next
  case (Cons b bs)
  have "unat b < 256"
    using unat_bound [of b] by simp
  with Cons show ?case by simp
qed

lemma le_nat_le_bytes: "le_nat (le_bytes k n) = n mod 256 ^ k"
proof (induction k n rule: le_bytes.induct)
  case (1 n)
  then show ?case by simp
next
  case (2 k n)
  have "unat (of_nat n :: u8) = n mod 256"
    by (simp add: unat_of_nat)
  with 2 show ?case
    by (simp add: mod_mult2_eq)
qed

lemma le_bytes_le_nat: "le_bytes (length bs) (le_nat bs) = bs"
proof (induction bs)
  case Nil
  then show ?case by simp
next
  case (Cons b bs)
  have "unat b < 256"
    using unat_bound [of b] by simp
  then have "(of_nat (unat b + 256 * le_nat bs) :: u8) = b"
    by (simp only: word_unat_eq_iff unat_of_nat) simp
  with \<open>unat b < 256\<close> Cons show ?case
    by (simp del: of_nat_add of_nat_mult)
qed

lemma length_slice: "off + n \<le> length xs \<Longrightarrow> length (slice off n xs) = n"
  by (simp add: slice_def)

lemma slice_slice: "a + n \<le> m \<Longrightarrow> slice a n (slice b m xs) = slice (b + a) n xs"
  by (simp add: slice_def drop_take add.commute min_def)

lemma nth_slice: "i < n \<Longrightarrow> off + n \<le> length xs \<Longrightarrow> slice off n xs ! i = xs ! (off + i)"
  by (simp add: slice_def)

lemma field_append:
  "n = length bs \<Longrightarrow> field (bs @ rest) 0 n = le_nat bs"
  "length bs \<le> off \<Longrightarrow> field (bs @ rest) off n = field rest (off - length bs) n"
  by (simp_all add: field_def slice_def)

lemma field_all: "n = length bs \<Longrightarrow> field bs 0 n = le_nat bs"
  by (simp add: field_def slice_def)

lemma read_bytes_numeral:
  "read_bytes m a 4 = [m a, m (a + 1), m (a + 2), m (a + 3)]"
  "read_bytes m a 8 = [m a, m (a + 1), m (a + 2), m (a + 3), m (a + 4), m (a + 5), m (a + 6), m (a + 7)]"
  by (simp_all add: read_bytes_def upt_rec)

lemma length_read_bytes [simp]: "length (read_bytes m a n) = n"
  by (simp add: read_bytes_def)

lemma write_bytes_outside: "length bs \<le> unat (x - a) \<Longrightarrow> write_bytes m a bs x = m x"
  by (simp add: write_bytes_def)

lemma write_bytes_inside:
  "i < length bs \<Longrightarrow> length bs \<le> 2 ^ 64 \<Longrightarrow> write_bytes m a bs (a + of_nat i) = bs ! i"
  by (simp add: write_bytes_def unat_of_nat)

lemma read_write_same: "length bs \<le> 2 ^ 64 \<Longrightarrow> read_bytes (write_bytes m a bs) a (length bs) = bs"
  by (rule nth_equalityI) (simp_all add: read_bytes_def write_bytes_inside)

lemma read_bytes_cong: "(\<And>i. i < n \<Longrightarrow> m (a + of_nat i) = m' (a + of_nat i)) \<Longrightarrow> read_bytes m a n = read_bytes m' a n"
  by (simp add: read_bytes_def)

text \<open>Little-endian loads and stores at the widths the sources use.\<close>

definition read_u16 :: "memory \<Rightarrow> u64 \<Rightarrow> u16" where
  "read_u16 m a = of_nat (le_nat (read_bytes m a 2))"

definition read_u32 :: "memory \<Rightarrow> u64 \<Rightarrow> u32" where
  "read_u32 m a = of_nat (le_nat (read_bytes m a 4))"

definition read_u64 :: "memory \<Rightarrow> u64 \<Rightarrow> u64" where
  "read_u64 m a = of_nat (le_nat (read_bytes m a 8))"

definition write_u16 :: "memory \<Rightarrow> u64 \<Rightarrow> u16 \<Rightarrow> memory" where
  "write_u16 m a v = write_bytes m a (le_bytes 2 (unat v))"

definition write_u32 :: "memory \<Rightarrow> u64 \<Rightarrow> u32 \<Rightarrow> memory" where
  "write_u32 m a v = write_bytes m a (le_bytes 4 (unat v))"

definition write_u64 :: "memory \<Rightarrow> u64 \<Rightarrow> u64 \<Rightarrow> memory" where
  "write_u64 m a v = write_bytes m a (le_bytes 8 (unat v))"

lemma read_write_u64 [simp]: "read_u64 (write_u64 m a v) a = v"
  using read_write_same [of "le_bytes 8 (unat v)" m a] unat_u64_bound [of v]
  by (simp add: read_u64_def write_u64_def le_nat_le_bytes)

lemma read_write_u32 [simp]: "read_u32 (write_u32 m a v) a = v"
  using read_write_same [of "le_bytes 4 (unat v)" m a] unat_bound [of v]
  by (simp add: read_u32_def write_u32_def le_nat_le_bytes)

lemma read_write_u16 [simp]: "read_u16 (write_u16 m a v) a = v"
  using read_write_same [of "le_bytes 2 (unat v)" m a] unat_bound [of v]
  by (simp add: read_u16_def write_u16_def le_nat_le_bytes)

lemma read_u64_cong:
  "(\<And>i. i < 8 \<Longrightarrow> m (a + of_nat i) = m' (a + of_nat i)) \<Longrightarrow> read_u64 m a = read_u64 m' a"
  unfolding read_u64_def by (subst read_bytes_cong [of 8 m a m']) auto

lemma write_u64_outside: "8 \<le> unat (x - a) \<Longrightarrow> write_u64 m a v x = m x"
  by (simp add: write_u64_def write_bytes_outside)

section \<open>Strings\<close>

text \<open>\<open>core::str::from_utf8\<close> accepts exactly well-formed UTF-8.\<close>

definition utf8_tail :: "u8 \<Rightarrow> bool" where
  "utf8_tail b \<longleftrightarrow> 0x80 \<le> b \<and> b \<le> 0xBF"

fun utf8_ok :: "u8 list \<Rightarrow> bool" where
  "utf8_ok [] \<longleftrightarrow> True"
| "utf8_ok (b # bs) \<longleftrightarrow>
     (if b < 0x80 then utf8_ok bs
      else if 0xC2 \<le> b \<and> b \<le> 0xDF then
        (case bs of c # r \<Rightarrow> utf8_tail c \<and> utf8_ok r | _ \<Rightarrow> False)
      else if 0xE0 \<le> b \<and> b \<le> 0xEF then
        (case bs of
           c # d # r \<Rightarrow>
             utf8_tail c \<and> (b = 0xE0 \<longrightarrow> 0xA0 \<le> c) \<and> (b = 0xED \<longrightarrow> c \<le> 0x9F) \<and> utf8_tail d \<and> utf8_ok r
         | _ \<Rightarrow> False)
      else if 0xF0 \<le> b \<and> b \<le> 0xF4 then
        (case bs of
           c # d # e # r \<Rightarrow>
             utf8_tail c \<and> (b = 0xF0 \<longrightarrow> 0x90 \<le> c) \<and> (b = 0xF4 \<longrightarrow> c \<le> 0x8F) \<and>
             utf8_tail d \<and> utf8_tail e \<and> utf8_ok r
         | _ \<Rightarrow> False)
      else False)"

end
