(* ===== verification/Memory_Map.thy ===== *)
theory Memory_Map
  imports Crab_Prelude
begin

text \<open>
  The memory map of \<open>src/efi/allocator.rs\<close> and the coreboot regions it is built from
  (\<open>src/coreboot/memory.rs\<close>): memory types, descriptors, and the two list routines every allocator
  operation ends with, \<open>sort_entries\<close> and \<open>merge_entries\<close>. The second half states when a list of
  descriptors is a memory map (aligned, non-empty, ascending and disjoint regions) and what address
  it assigns which type.
\<close>

section \<open>Coreboot regions\<close>

datatype cb_memory_type = Ram | Reserved | AcpiReclaimable | AcpiNvs | Unusable | Table

record memory_region =
  region_start :: u64
  region_size :: u64
  region_type :: cb_memory_type

fun is_usable :: "cb_memory_type \<Rightarrow> bool" where
  "is_usable Ram = True"
| "is_usable _ = False"

definition region_end :: "memory_region \<Rightarrow> u64" where
  "region_end r = region_start r + region_size r"

definition region_contains :: "memory_region \<Rightarrow> u64 \<Rightarrow> bool" where
  "region_contains r addr \<longleftrightarrow> addr \<ge> region_start r \<and> addr < region_end r"

definition region_overlaps :: "memory_region \<Rightarrow> memory_region \<Rightarrow> bool" where
  "region_overlaps r other \<longleftrightarrow>
     region_start r < region_end other \<and> region_start other < region_end r"

definition page_count :: "memory_region \<Rightarrow> u64" where
  "page_count r = div_ceil (region_size r) 0x1000"

definition find_usable_ram :: "memory_region list \<Rightarrow> memory_region list" where
  "find_usable_ram regions = filter (\<lambda>r. is_usable (region_type r)) regions"

definition total_usable_ram :: "memory_region list \<Rightarrow> u64" where
  "total_usable_ram regions = sum_list (map region_size (find_usable_ram regions))"

definition highest_usable_address :: "memory_region list \<Rightarrow> u64" where
  "highest_usable_address regions =
     (case map region_end (find_usable_ram regions) of [] \<Rightarrow> 0 | e # es \<Rightarrow> fold max es e)"

fun find_free_region_in :: "memory_region list \<Rightarrow> u64 \<Rightarrow> u64 \<Rightarrow> u64 option" where
  "find_free_region_in [] sz alignment = None"
| "find_free_region_in (r # rs) sz alignment =
     (let aligned_start = (region_start r + alignment - 1) AND NOT (alignment - 1)
      in if aligned_start + sz \<le> region_end r then Some aligned_start
         else find_free_region_in rs sz alignment)"

definition find_free_region :: "memory_region list \<Rightarrow> u64 \<Rightarrow> u64 \<Rightarrow> u64 option" where
  "find_free_region regions sz alignment =
     find_free_region_in (find_usable_ram regions) sz alignment"

section \<open>EFI memory types and attributes\<close>

definition MAX_MEMORY_ENTRIES :: nat where
  "MAX_MEMORY_ENTRIES = 512"

definition PAGE_SIZE :: u64 where
  "PAGE_SIZE = 4096"

definition MAX_IDENTITY_MAPPED_ADDRESS :: u64 where
  "MAX_IDENTITY_MAPPED_ADDRESS = 0x1000000000"

datatype allocate_type = AllocateAnyPages | AllocateMaxAddress | AllocateAddress

datatype memory_type =
    ReservedMemoryType | LoaderCode | LoaderData | BootServicesCode | BootServicesData
  | RuntimeServicesCode | RuntimeServicesData | ConventionalMemory | UnusableMemory
  | AcpiReclaimMemory | AcpiMemoryNvs | MemoryMappedIo | MemoryMappedIoPortSpace | PalCode
  | PersistentMemory

fun as_u32 :: "memory_type \<Rightarrow> u32" where
  "as_u32 ReservedMemoryType = 0"
| "as_u32 LoaderCode = 1"
| "as_u32 LoaderData = 2"
| "as_u32 BootServicesCode = 3"
| "as_u32 BootServicesData = 4"
| "as_u32 RuntimeServicesCode = 5"
| "as_u32 RuntimeServicesData = 6"
| "as_u32 ConventionalMemory = 7"
| "as_u32 UnusableMemory = 8"
| "as_u32 AcpiReclaimMemory = 9"
| "as_u32 AcpiMemoryNvs = 10"
| "as_u32 MemoryMappedIo = 11"
| "as_u32 MemoryMappedIoPortSpace = 12"
| "as_u32 PalCode = 13"
| "as_u32 PersistentMemory = 14"

definition from_u32 :: "u32 \<Rightarrow> memory_type option" where
  "from_u32 value =
     (if value = 0 then Some ReservedMemoryType
      else if value = 1 then Some LoaderCode
      else if value = 2 then Some LoaderData
      else if value = 3 then Some BootServicesCode
      else if value = 4 then Some BootServicesData
      else if value = 5 then Some RuntimeServicesCode
      else if value = 6 then Some RuntimeServicesData
      else if value = 7 then Some ConventionalMemory
      else if value = 8 then Some UnusableMemory
      else if value = 9 then Some AcpiReclaimMemory
      else if value = 10 then Some AcpiMemoryNvs
      else if value = 11 then Some MemoryMappedIo
      else if value = 12 then Some MemoryMappedIoPortSpace
      else if value = 13 then Some PalCode
      else if value = 14 then Some PersistentMemory
      else None)"

fun is_allocatable :: "memory_type \<Rightarrow> bool" where
  "is_allocatable ConventionalMemory = True"
| "is_allocatable _ = False"

definition is_boot_services :: "memory_type \<Rightarrow> bool" where
  "is_boot_services t \<longleftrightarrow> t \<in> {BootServicesCode, BootServicesData, LoaderCode, LoaderData}"

fun cb_to_efi_memory_type :: "cb_memory_type \<Rightarrow> memory_type" where
  "cb_to_efi_memory_type Ram = ConventionalMemory"
| "cb_to_efi_memory_type Reserved = ReservedMemoryType"
| "cb_to_efi_memory_type AcpiReclaimable = AcpiReclaimMemory"
| "cb_to_efi_memory_type AcpiNvs = AcpiMemoryNvs"
| "cb_to_efi_memory_type Unusable = UnusableMemory"
| "cb_to_efi_memory_type Table = BootServicesData"

definition EFI_MEMORY_UC :: u64 where "EFI_MEMORY_UC = 0x1"
definition EFI_MEMORY_WB :: u64 where "EFI_MEMORY_WB = 0x8"
definition EFI_MEMORY_XP :: u64 where "EFI_MEMORY_XP = 0x4000"
definition EFI_MEMORY_RUNTIME :: u64 where "EFI_MEMORY_RUNTIME = 0x8000000000000000"

lemmas attribute_defs = EFI_MEMORY_UC_def EFI_MEMORY_WB_def EFI_MEMORY_XP_def EFI_MEMORY_RUNTIME_def

section \<open>Descriptors\<close>

record memory_descriptor =
  memory_type :: u32
  padding :: u32
  physical_start :: u64
  virtual_start :: u64
  number_of_pages :: u64
  attribute :: u64

definition new_descriptor :: "memory_type \<Rightarrow> u64 \<Rightarrow> u64 \<Rightarrow> u64 \<Rightarrow> memory_descriptor" where
  "new_descriptor t start pages attr =
     \<lparr>memory_type = as_u32 t, padding = 0, physical_start = start, virtual_start = 0,
      number_of_pages = pages, attribute = attr\<rparr>"

definition desc_end :: "memory_descriptor \<Rightarrow> u64" where
  "desc_end d =
     (case checked_mul (number_of_pages d) PAGE_SIZE of
        None \<Rightarrow> - 1
      | Some sz \<Rightarrow> (case checked_add (physical_start d) sz of None \<Rightarrow> - 1 | Some e \<Rightarrow> e))"

definition get_memory_type :: "memory_descriptor \<Rightarrow> memory_type option" where
  "get_memory_type d = from_u32 (memory_type d)"

section \<open>Sorting and merging\<close>

text \<open>
  \<open>sort_unstable_by_key\<close> returns a permutation that ascends in the key. \<^const>\<open>sort_key\<close> is one such
  permutation; the two can differ only in the order of descriptors with equal start addresses, which
  a memory map (below) does not have.
\<close>

definition sort_entries :: "memory_descriptor list \<Rightarrow> memory_descriptor list" where
  "sort_entries es = sort_key physical_start es"

definition mergeable :: "memory_descriptor \<Rightarrow> memory_descriptor \<Rightarrow> bool" where
  "mergeable d e \<longleftrightarrow>
     desc_end d = physical_start e \<and> memory_type d = memory_type e \<and> attribute d = attribute e"

definition merge_into :: "memory_descriptor \<Rightarrow> memory_descriptor \<Rightarrow> memory_descriptor" where
  "merge_into d e = d\<lparr>number_of_pages := number_of_pages d + number_of_pages e\<rparr>"

text \<open>The loop of \<open>merge_entries\<close>, with its index.\<close>

function merge_loop :: "nat \<Rightarrow> memory_descriptor list \<Rightarrow> memory_descriptor list" where
  "merge_loop i es =
     (if i < length es - 1 then
        if mergeable (es ! i) (es ! (i + 1)) then
          merge_loop i (take (i + 1) (es[i := merge_into (es ! i) (es ! (i + 1))]) @ drop (i + 2) es)
        else merge_loop (i + 1) es
      else es)"
  by pat_completeness auto
termination
  by (relation "measure (\<lambda>(i, es). length es - i)") auto

declare merge_loop.simps [simp del]

definition merge_entries :: "memory_descriptor list \<Rightarrow> memory_descriptor list" where
  "merge_entries es = (if length es < 2 then es else merge_loop 0 es)"

section \<open>Merging as structural recursion\<close>

fun merge_spec :: "memory_descriptor list \<Rightarrow> memory_descriptor list" where
  "merge_spec (d # e # es) =
     (if mergeable d e then merge_spec (merge_into d e # es) else d # merge_spec (e # es))"
| "merge_spec es = es"

lemma merge_loop_spec: "i < length es \<Longrightarrow> merge_loop i es = take i es @ merge_spec (drop i es)"
proof (induction i es rule: merge_loop.induct)
  case (1 i es)
  show ?case
  proof (cases "i < length es - 1")
    case False
    with "1.prems" have "Suc i = length es" by simp
    then obtain d where "drop i es = [d]"
      by (metis Cons_nth_drop_Suc drop_all lessI order_refl)
    then show ?thesis
      using False by (simp add: merge_loop.simps [of i es]) (metis append_take_drop_id)
  next
    case True
    then have drops: "drop i es = es ! i # es ! Suc i # drop (Suc (Suc i)) es"
      by (metis Cons_nth_drop_Suc Suc_lessD Suc_eq_plus1 less_diff_conv)
    have drops': "drop (Suc i) es = es ! Suc i # drop (Suc (Suc i)) es"
      using True by (metis Cons_nth_drop_Suc Suc_eq_plus1 less_diff_conv)
    let ?m = "merge_into (es ! i) (es ! (i + 1))"
    let ?es' = "take (i + 1) (es[i := ?m]) @ drop (i + 2) es"
    have es': "take i ?es' = take i es" "drop i ?es' = ?m # drop (i + 2) es"
      using True by (simp_all add: take_Suc_conv_app_nth)
    show ?thesis
    proof (cases "mergeable (es ! i) (es ! (i + 1))")
      case True
      note m = this
      have "merge_loop i es = merge_loop i ?es'"
        using m \<open>i < length es - 1\<close> by (simp add: merge_loop.simps [of i es])
      also have "\<dots> = take i ?es' @ merge_spec (drop i ?es')"
        using m \<open>i < length es - 1\<close> by (intro "1.IH"(1)) auto
      finally show ?thesis
        using m es' drops by simp
    next
      case False
      then have "merge_loop i es = merge_loop (i + 1) es"
        using \<open>i < length es - 1\<close> by (simp add: merge_loop.simps [of i es])
      also have "\<dots> = take (i + 1) es @ merge_spec (drop (i + 1) es)"
        using False \<open>i < length es - 1\<close> by (intro "1.IH"(2)) auto
      finally show ?thesis
        using False drops drops' True by (simp add: take_Suc_conv_app_nth)
    qed
  qed
qed

lemma merge_entries_spec: "merge_entries es = merge_spec es"
proof (cases "length es < 2")
  case True
  then consider "es = []" | d where "es = [d]"
    by (cases es rule: merge_spec.cases) auto
  then show ?thesis
    by cases (simp_all add: merge_entries_def)
next
  case False
  then show ?thesis
    using merge_loop_spec [of 0 es] by (cases es) (simp_all add: merge_entries_def)
qed

fun merged :: "memory_descriptor list \<Rightarrow> bool" where
  "merged (d # e # es) \<longleftrightarrow> \<not> mergeable d e \<and> merged (e # es)"
| "merged es \<longleftrightarrow> True"

lemma merged_merge_spec_id: "merged es \<Longrightarrow> merge_spec es = es"
  by (induction es rule: merged.induct) auto

lemma merge_spec_length: "length (merge_spec es) \<le> length es"
  by (induction es rule: merge_spec.induct) (auto simp: le_SucI)

lemma merge_into_simps [simp]:
  "physical_start (merge_into d e) = physical_start d"
  "memory_type (merge_into d e) = memory_type d"
  "attribute (merge_into d e) = attribute d"
  "number_of_pages (merge_into d e) = number_of_pages d + number_of_pages e"
  by (simp_all add: merge_into_def)

section \<open>Well-formed memory maps\<close>

definition lo :: "memory_descriptor \<Rightarrow> nat" where
  "lo d = unat (physical_start d)"

definition hi :: "memory_descriptor \<Rightarrow> nat" where
  "hi d = lo d + 4096 * unat (number_of_pages d)"

definition wf_desc :: "memory_descriptor \<Rightarrow> bool" where
  "wf_desc d \<longleftrightarrow>
     4096 dvd lo d \<and> 0 < number_of_pages d \<and> hi d < 2 ^ 64 \<and> from_u32 (memory_type d) \<noteq> None"

definition before_desc :: "memory_descriptor \<Rightarrow> memory_descriptor \<Rightarrow> bool" where
  "before_desc d e \<longleftrightarrow> hi d \<le> lo e"

definition memory_map :: "memory_descriptor list \<Rightarrow> bool" where
  "memory_map es \<longleftrightarrow> (\<forall>d \<in> set es. wf_desc d) \<and> sorted_wrt before_desc es"

definition covers :: "memory_descriptor \<Rightarrow> u64 \<Rightarrow> bool" where
  "covers d a \<longleftrightarrow> a \<ge> physical_start d \<and> a < desc_end d"

definition region_at :: "memory_descriptor list \<Rightarrow> u64 \<Rightarrow> (u32 \<times> u64) option" where
  "region_at es a = map_option (\<lambda>d. (memory_type d, attribute d)) (find (\<lambda>d. covers d a) es)"

lemma unat_desc_end: "hi d < 2 ^ 64 \<Longrightarrow> unat (desc_end d) = hi d"
proof -
  assume h: "hi d < 2 ^ 64"
  then have "unat (number_of_pages d) * unat PAGE_SIZE < 2 ^ 64"
    by (simp add: hi_def PAGE_SIZE_def)
  then obtain sz where m: "checked_mul (number_of_pages d) PAGE_SIZE = Some sz"
    by (cases "checked_mul (number_of_pages d) PAGE_SIZE") (auto simp: checked_mul_None_iff)
  then have sz: "unat sz = 4096 * unat (number_of_pages d)"
    by (simp add: checked_mul_Some_iff PAGE_SIZE_def)
  with h obtain e where a: "checked_add (physical_start d) sz = Some e"
    by (cases "checked_add (physical_start d) sz") (auto simp: checked_add_None_iff hi_def lo_def)
  then have "unat e = hi d"
    by (simp add: checked_add_Some_iff hi_def lo_def sz)
  with m a show ?thesis by (simp add: desc_end_def)
qed

lemma wf_desc_hi: "wf_desc d \<Longrightarrow> unat (desc_end d) = hi d"
  by (simp add: wf_desc_def unat_desc_end)

lemma covers_iff: "wf_desc d \<Longrightarrow> covers d a \<longleftrightarrow> lo d \<le> unat a \<and> unat a < hi d"
  by (simp add: covers_def wf_desc_hi word_nat lo_def)

lemma wf_desc_lo_less_hi: "wf_desc d \<Longrightarrow> lo d < hi d"
  by (auto simp: wf_desc_def hi_def word_nat)

lemma before_desc_trans:
  "wf_desc e \<Longrightarrow> before_desc d e \<Longrightarrow> before_desc e f \<Longrightarrow> before_desc d f"
  using wf_desc_lo_less_hi [of e] by (simp add: before_desc_def)

lemma memory_map_Nil [simp]: "memory_map []"
  by (simp add: memory_map_def)

lemma memory_map_Cons:
  "memory_map (d # es) \<longleftrightarrow> wf_desc d \<and> (\<forall>e \<in> set es. before_desc d e) \<and> memory_map es"
  by (auto simp: memory_map_def)

lemma memory_map_Cons2:
  assumes "memory_map (e # es)" and "wf_desc d" and "before_desc d e"
  shows "memory_map (d # e # es)"
  using assms before_desc_trans [of e d] by (auto simp: memory_map_Cons)

lemma memory_map_covers_unique:
  assumes "memory_map es" and "d \<in> set es" and "e \<in> set es" and "covers d a" and "covers e a"
  shows "d = e"
  using assms
proof (induction es)
  case Nil
  then show ?case by simp
next
  case (Cons x es)
  have apart: False if "y \<in> set es" and "covers x a" and "covers y a" for y
  proof -
    have "wf_desc x" "wf_desc y" "before_desc x y"
      using Cons.prems(1) that(1) by (auto simp: memory_map_def)
    with that(2,3) show False
      by (simp add: covers_iff before_desc_def)
  qed
  show ?case
    using Cons apart by (auto simp: memory_map_Cons)
qed

lemma region_at_SomeI:
  assumes "memory_map es" and "d \<in> set es" and "covers d a"
  shows "region_at es a = Some (memory_type d, attribute d)"
proof -
  have "find (\<lambda>d. covers d a) es = Some d"
    using assms memory_map_covers_unique [OF assms(1)] by (intro find_unique) auto
  then show ?thesis by (simp add: region_at_def)
qed

lemma region_at_None_iff: "region_at es a = None \<longleftrightarrow> (\<forall>d \<in> set es. \<not> covers d a)"
  by (auto simp: region_at_def find_None_iff_all)

lemma region_at_SomeD:
  "region_at es a = Some r \<Longrightarrow> \<exists>d \<in> set es. covers d a \<and> r = (memory_type d, attribute d)"
  by (auto simp: region_at_def dest: find_SomeD)


lemma region_at_cong:
  assumes "memory_map es" and "memory_map fs"
    and "\<And>d. d \<in> set es \<Longrightarrow> covers d a \<Longrightarrow>
      \<exists>e \<in> set fs. covers e a \<and> memory_type e = memory_type d \<and> attribute e = attribute d"
    and "\<And>e. e \<in> set fs \<Longrightarrow> covers e a \<Longrightarrow> \<exists>d \<in> set es. covers d a"
  shows "region_at fs a = region_at es a"
proof (cases "region_at es a")
  case None
  then have "region_at fs a = None"
    using assms(4) by (auto simp: region_at_None_iff)
  with None show ?thesis by simp
next
  case (Some r)
  then obtain d where "d \<in> set es" "covers d a" "r = (memory_type d, attribute d)"
    by (auto dest: region_at_SomeD)
  then show ?thesis
    using assms(2,3) Some by (metis region_at_SomeI)
qed

subsection \<open>Merging keeps the map\<close>

lemma mergeable_iff:
  "wf_desc d \<Longrightarrow> mergeable d e \<longleftrightarrow>
     hi d = lo e \<and> memory_type d = memory_type e \<and> attribute d = attribute e"
  using wf_desc_hi [of d] by (auto simp: mergeable_def lo_def word_unat_eq_iff)

lemma merge_into_bounds:
  assumes "wf_desc d" and "wf_desc e" and "mergeable d e"
  shows "lo (merge_into d e) = lo d" "hi (merge_into d e) = hi e" "wf_desc (merge_into d e)"
proof -
  have j: "hi d = lo e"
    using assms by (simp add: mergeable_iff)
  have "unat (number_of_pages d) + unat (number_of_pages e) < 2 ^ 64"
    using j assms(2) by (simp add: wf_desc_def hi_def)
  then have pages: "unat (number_of_pages d + number_of_pages e) =
      unat (number_of_pages d) + unat (number_of_pages e)"
    using unat_add_lem [of "number_of_pages d" "number_of_pages e"] by simp
  show lo: "lo (merge_into d e) = lo d"
    by (simp add: lo_def)
  show hi: "hi (merge_into d e) = hi e"
    using j by (simp add: hi_def lo pages)
  show "wf_desc (merge_into d e)"
    using assms(1,2) lo hi pages by (auto simp: wf_desc_def word_nat)
qed

lemma merge_into_covers:
  assumes "wf_desc d" and "wf_desc e" and "mergeable d e"
  shows "covers (merge_into d e) a \<longleftrightarrow> covers d a \<or> covers e a"
proof -
  have "hi d = lo e"
    using assms by (simp add: mergeable_iff)
  then show ?thesis
    using assms merge_into_bounds [OF assms] wf_desc_lo_less_hi [of d] wf_desc_lo_less_hi [of e]
    by (auto simp: covers_iff)
qed

lemma memory_map_merge_step:
  assumes "memory_map (d # e # es)" and "mergeable d e"
  shows "memory_map (merge_into d e # es)"
  using assms merge_into_bounds [of d e] by (auto simp: memory_map_Cons before_desc_def)

lemma region_at_merge_step:
  assumes "memory_map (d # e # es)" and "mergeable d e"
  shows "region_at (merge_into d e # es) a = region_at (d # e # es) a"
proof -
  have wf: "wf_desc d" "wf_desc e"
    using assms(1) by (simp_all add: memory_map_Cons)
  have same: "memory_type d = memory_type e" "attribute d = attribute e"
    using assms(2) by (simp_all add: mergeable_def)
  show ?thesis
    using merge_into_covers [OF wf assms(2)] same by (auto simp: region_at_def)
qed

lemma merge_spec_lo: "e \<in> set (merge_spec es) \<Longrightarrow> \<exists>d \<in> set es. lo d = lo e"
proof (induction es rule: merge_spec.induct)
  case (1 d e' es)
  then show ?case
    by (cases "mergeable d e'") (auto simp: lo_def)
qed auto

lemma merge_spec_memory_map: "memory_map es \<Longrightarrow> memory_map (merge_spec es)"
proof (induction es rule: merge_spec.induct)
  case (1 d e es)
  show ?case
  proof (cases "mergeable d e")
    case True
    with 1 show ?thesis
      using memory_map_merge_step [of d e es] by simp
  next
    case False
    have "before_desc d f" if "f \<in> set (merge_spec (e # es))" for f
      using merge_spec_lo [OF that] "1.prems" by (auto simp: memory_map_Cons before_desc_def)
    then show ?thesis
      using False 1 by (simp add: memory_map_Cons)
  qed
qed auto

lemma merge_spec_region_at: "memory_map es \<Longrightarrow> region_at (merge_spec es) a = region_at es a"
proof (induction es rule: merge_spec.induct)
  case (1 d e es)
  show ?case
  proof (cases "mergeable d e")
    case True
    with 1 show ?thesis
      using memory_map_merge_step [of d e es] region_at_merge_step [of d e es a] by simp
  next
    case False
    then have "region_at (merge_spec (e # es)) a = region_at (e # es) a"
      using 1 by (simp add: memory_map_Cons)
    with False show ?thesis
      by (auto simp: region_at_def)
  qed
qed auto

lemma merged_Cons_merge_spec:
  "merged (merge_spec (d # es)) \<and> memory_type (hd (merge_spec (d # es))) = memory_type d \<and>
     attribute (hd (merge_spec (d # es))) = attribute d \<and>
     physical_start (hd (merge_spec (d # es))) = physical_start d \<and> merge_spec (d # es) \<noteq> []"
proof (induction es arbitrary: d)
  case Nil
  then show ?case by simp
next
  case (Cons e es)
  show ?case
  proof (cases "mergeable d e")
    case True
    then show ?thesis
      using Cons [of "merge_into d e"] by simp
  next
    case False
    obtain f fs where f: "merge_spec (e # es) = f # fs"
      using Cons [of e] by (cases "merge_spec (e # es)") auto
    then have "\<not> mergeable d f"
      using False Cons [of e] by (simp add: mergeable_def)
    then show ?thesis
      using False f Cons [of e] by simp
  qed
qed

lemma merged_merge_spec: "merged (merge_spec es)"
  by (cases es) (auto simp: merged_Cons_merge_spec)

subsection \<open>Sorting builds the map\<close>

definition apart :: "memory_descriptor \<Rightarrow> memory_descriptor \<Rightarrow> bool" where
  "apart d e \<longleftrightarrow> before_desc d e \<or> before_desc e d"

lemma apart_start_cases:
  assumes "wf_desc d" and "wf_desc e" and "apart d e"
  shows "before_desc d e \<longleftrightarrow> physical_start d \<le> physical_start e"
  using assms wf_desc_lo_less_hi [of d] wf_desc_lo_less_hi [of e]
  by (auto simp: apart_def before_desc_def lo_def word_nat)

lemma insort_memory_map:
  assumes "memory_map es" and "wf_desc d" and "\<forall>e \<in> set es. apart d e"
  shows "memory_map (insort_key physical_start d es)"
  using assms
proof (induction es)
  case Nil
  then show ?case by (simp add: memory_map_Cons)
next
  case (Cons e es)
  have wf: "wf_desc e" and ap: "apart d e"
    using Cons.prems by (simp_all add: memory_map_Cons)
  show ?case
  proof (cases "physical_start d \<le> physical_start e")
    case True
    then have "before_desc d e"
      using apart_start_cases [OF Cons.prems(2) wf ap] by simp
    with True show ?thesis
      using Cons.prems by (simp add: memory_map_Cons2)
  next
    case False
    then have "before_desc e d"
      using apart_start_cases [OF Cons.prems(2) wf ap] ap by (simp add: apart_def)
    with False show ?thesis
      using Cons by (auto simp: memory_map_Cons set_insort_key)
  qed
qed

lemma sort_memory_map:
  assumes "\<forall>d \<in> set es. wf_desc d" and "sorted_wrt apart es"
  shows "memory_map (sort_entries es)"
  using assms
proof (induction es)
  case Nil
  then show ?case by (simp add: sort_entries_def)
next
  case (Cons d es)
  then show ?case
    by (simp add: sort_entries_def insort_memory_map)
qed

lemma set_sort_entries [simp]: "set (sort_entries es) = set es"
  by (simp add: sort_entries_def)

lemma length_sort_entries [simp]: "length (sort_entries es) = length es"
  by (simp add: sort_entries_def)

end
