(* ===== verification/Allocator.thy ===== *)
theory Allocator
  imports Memory_Map
begin

text \<open>
  The page allocator of \<open>src/efi/allocator.rs\<close>: its state, and one definition per method of
  \<open>MemoryAllocator\<close>, in the order of the source. Log statements have no effect on the state and are
  left out. A method that indexes a vector with \<open>remove\<close> returns a \<^typ>\<open>'a may_panic\<close>.
\<close>

record memory_allocator =
  entries :: "memory_descriptor list"
  map_key :: usize
  boot_services_exited :: bool

definition new_allocator :: memory_allocator where
  "new_allocator = \<lparr>entries = [], map_key = 1, boot_services_exited = False\<rparr>"

section \<open>Building the map\<close>

fun default_attribute :: "memory_type \<Rightarrow> u64" where
  "default_attribute MemoryMappedIo = EFI_MEMORY_UC"
| "default_attribute MemoryMappedIoPortSpace = EFI_MEMORY_UC"
| "default_attribute _ = EFI_MEMORY_WB"

definition import_region :: "memory_descriptor list \<Rightarrow> memory_region \<Rightarrow> memory_descriptor list" where
  "import_region es region =
     (let t = cb_to_efi_memory_type (region_type region)
      in case checked_add (region_size region) (PAGE_SIZE - 1) of
           None \<Rightarrow> es
         | Some size_rounded \<Rightarrow>
             vec_push_ignore MAX_MEMORY_ENTRIES es
               (new_descriptor t (region_start region) (size_rounded div PAGE_SIZE)
                 (default_attribute t)))"

definition init_from_coreboot :: "memory_allocator \<Rightarrow> memory_region list \<Rightarrow> memory_allocator" where
  "init_from_coreboot s regions =
     s\<lparr>entries := merge_entries (sort_entries (foldl import_region [] regions)), map_key := 1\<rparr>"

text \<open>The attribute rule that \<open>force_add_region\<close> and \<open>carve_out\<close> share.\<close>

definition runtime_attribute :: "memory_type \<Rightarrow> u64 \<Rightarrow> u64" where
  "runtime_attribute t attr =
     (if t = RuntimeServicesCode then (attr OR EFI_MEMORY_RUNTIME) AND NOT EFI_MEMORY_XP
      else if t = RuntimeServicesData then (attr OR EFI_MEMORY_RUNTIME) OR EFI_MEMORY_XP
      else attr)"

definition force_add_region ::
  "memory_allocator \<Rightarrow> u64 \<Rightarrow> u64 \<Rightarrow> memory_type \<Rightarrow> memory_allocator \<times> unit efi_result" where
  "force_add_region s start num_pages t =
     (case vec_push MAX_MEMORY_ENTRIES (entries s)
             (new_descriptor t start num_pages (runtime_attribute t EFI_MEMORY_WB)) of
        None \<Rightarrow> (s, Err OUT_OF_RESOURCES)
      | Some es \<Rightarrow> (s\<lparr>entries := sort_entries es, map_key := map_key s + 1\<rparr>, Ok ()))"

section \<open>Splitting an entry\<close>

text \<open>
  The three pieces an entry is split into: what is left before the range, the range itself, what is
  left after it. \<open>carve_out\<close> and \<open>try_reallocate_loader_region\<close> push them without looking at the
  result, because they checked the room before; \<open>mark_as_acpi_reclaim\<close> stops at the first push
  that fails.
\<close>

definition piece_before :: "memory_descriptor \<Rightarrow> memory_type \<Rightarrow> u64 \<Rightarrow> memory_descriptor list" where
  "piece_before entry t addr =
     (if physical_start entry < addr
      then [new_descriptor t (physical_start entry)
              ((addr - physical_start entry) div PAGE_SIZE) (attribute entry)]
      else [])"

definition piece_after :: "memory_descriptor \<Rightarrow> memory_type \<Rightarrow> u64 \<Rightarrow> memory_descriptor list" where
  "piece_after entry t end_addr =
     (if desc_end entry > end_addr
      then [new_descriptor t end_addr ((desc_end entry - end_addr) div PAGE_SIZE) (attribute entry)]
      else [])"

fun push_all_ignore :: "memory_descriptor list \<Rightarrow> memory_descriptor list \<Rightarrow> memory_descriptor list" where
  "push_all_ignore es [] = es"
| "push_all_ignore es (d # ds) = push_all_ignore (vec_push_ignore MAX_MEMORY_ENTRIES es d) ds"

text \<open>The first component tells whether every push succeeded.\<close>

fun push_all :: "memory_descriptor list \<Rightarrow> memory_descriptor list \<Rightarrow> bool \<times> memory_descriptor list" where
  "push_all es [] = (True, es)"
| "push_all es (d # ds) =
     (case vec_push MAX_MEMORY_ENTRIES es d of None \<Rightarrow> (False, es) | Some es' \<Rightarrow> push_all es' ds)"

definition mark_as_acpi_reclaim ::
  "memory_allocator \<Rightarrow> u64 \<Rightarrow> u64 \<Rightarrow> (memory_allocator \<times> unit efi_result) may_panic" where
  "mark_as_acpi_reclaim s addr num_pages =
     (case checked_mul num_pages PAGE_SIZE of
        None \<Rightarrow> Some (s, Err INVALID_PARAMETER)
      | Some sz \<Rightarrow>
     (case checked_add addr sz of
        None \<Rightarrow> Some (s, Err INVALID_PARAMETER)
      | Some end_addr \<Rightarrow>
     (case position (\<lambda>entry. physical_start entry \<le> addr \<and> desc_end entry \<ge> end_addr) (entries s) of
        None \<Rightarrow>
          (if \<exists>entry \<in> set (entries s). addr < desc_end entry \<and> end_addr > physical_start entry
           then Some (s, Err INVALID_PARAMETER)
           else (case vec_push MAX_MEMORY_ENTRIES (entries s)
                        (new_descriptor AcpiReclaimMemory addr num_pages EFI_MEMORY_WB) of
                   None \<Rightarrow> Some (s, Err OUT_OF_RESOURCES)
                 | Some es \<Rightarrow>
                     Some (s\<lparr>entries := sort_entries es, map_key := map_key s + 1\<rparr>, Ok ())))
      | Some idx \<Rightarrow>
          (let entry = entries s ! idx;
               original_type =
                 (case get_memory_type entry of None \<Rightarrow> ReservedMemoryType | Some t \<Rightarrow> t)
           in if original_type = AcpiReclaimMemory \<or> original_type = AcpiMemoryNvs
              then Some (s, Ok ())
              else
                (case vec_remove idx (entries s) of
                   None \<Rightarrow> None
                 | Some es \<Rightarrow>
                     (case push_all es
                             (piece_before entry original_type addr @
                              [new_descriptor AcpiReclaimMemory addr num_pages (attribute entry)] @
                              piece_after entry original_type end_addr) of
                        (False, es') \<Rightarrow> Some (s\<lparr>entries := es'\<rparr>, Err OUT_OF_RESOURCES)
                      | (True, es') \<Rightarrow>
                          Some (s\<lparr>entries := sort_entries es', map_key := map_key s + 1\<rparr>,
                                Ok ())))))))"

text \<open>
  The check for room before an entry is replaced: when the new entries do not fit, the map is merged
  first. The index found before the merge is kept.
\<close>

definition make_room :: "memory_descriptor list \<Rightarrow> nat \<Rightarrow> bool \<times> memory_descriptor list" where
  "make_room es needed =
     (if length es + needed - 1 > MAX_MEMORY_ENTRIES then
        (let es' = merge_entries es in (length es' + needed - 1 \<le> MAX_MEMORY_ENTRIES, es'))
      else (True, es))"

definition carve_out ::
  "memory_allocator \<Rightarrow> u64 \<Rightarrow> u64 \<Rightarrow> memory_type \<Rightarrow> (memory_allocator \<times> unit efi_result) may_panic"
where
  "carve_out s addr num_pages t =
     (case checked_mul num_pages PAGE_SIZE of
        None \<Rightarrow> Some (s, Err INVALID_PARAMETER)
      | Some sz \<Rightarrow>
     (case checked_add addr sz of
        None \<Rightarrow> Some (s, Err INVALID_PARAMETER)
      | Some end_addr \<Rightarrow>
     (case position (\<lambda>entry. get_memory_type entry = Some ConventionalMemory \<and>
                       physical_start entry \<le> addr \<and> desc_end entry \<ge> end_addr) (entries s) of
        None \<Rightarrow> Some (s, Err NOT_FOUND)
      | Some idx \<Rightarrow>
          (let entry = entries s ! idx;
               need_before = physical_start entry < addr;
               need_after = desc_end entry > end_addr;
               new_entries_needed = 1 + of_bool need_before + of_bool need_after
           in case make_room (entries s) new_entries_needed of
                (False, es) \<Rightarrow> Some (s\<lparr>entries := es\<rparr>, Err OUT_OF_RESOURCES)
              | (True, es) \<Rightarrow>
                  (case vec_remove idx es of
                     None \<Rightarrow> None
                   | Some es' \<Rightarrow>
                       Some (s\<lparr>entries := merge_entries (sort_entries (push_all_ignore es'
                                (piece_before entry ConventionalMemory addr @
                                 [new_descriptor t addr num_pages
                                    (runtime_attribute t (attribute entry))] @
                                 piece_after entry ConventionalMemory end_addr))),
                               map_key := map_key s + 1\<rparr>,
                             Ok ()))))))"

definition reserve_region ::
  "memory_allocator \<Rightarrow> u64 \<Rightarrow> u64 \<Rightarrow> memory_type \<Rightarrow> (memory_allocator \<times> unit efi_result) may_panic"
where
  "reserve_region s start num_pages t = carve_out s start num_pages t"

section \<open>Allocating and freeing\<close>

text \<open>
  The body of the search loop of \<open>find_free_pages\<close> for one entry; \<^const>\<open>None\<close> is the fall through to
  the next entry.
\<close>

definition free_in_entry :: "memory_descriptor \<Rightarrow> u64 \<Rightarrow> u64 \<Rightarrow> u64 \<Rightarrow> u64 option" where
  "free_in_entry entry num_pages sz max_addr =
     (if get_memory_type entry \<noteq> Some ConventionalMemory then None
      else if physical_start entry \<ge> max_addr then None
      else
        (let entry_end = desc_end entry
         in if entry_end > max_addr then
              (let usable_end = min max_addr entry_end
               in if usable_end \<ge> physical_start entry + sz then
                    (let addr = (usable_end - sz) AND NOT (PAGE_SIZE - 1)
                     in if addr \<ge> physical_start entry then Some addr else None)
                  else None)
            else if number_of_pages entry \<ge> num_pages then
              (let addr = entry_end - sz
               in if addr \<ge> physical_start entry then Some addr else None)
            else None))"

fun find_free_in :: "memory_descriptor list \<Rightarrow> u64 \<Rightarrow> u64 \<Rightarrow> u64 \<Rightarrow> u64 option" where
  "find_free_in [] num_pages sz max_addr = None"
| "find_free_in (entry # es) num_pages sz max_addr =
     (case free_in_entry entry num_pages sz max_addr of
        Some addr \<Rightarrow> Some addr
      | None \<Rightarrow> find_free_in es num_pages sz max_addr)"

definition find_free_pages :: "memory_allocator \<Rightarrow> u64 \<Rightarrow> u64 \<Rightarrow> u64 option" where
  "find_free_pages s num_pages max_addr =
     (case checked_mul num_pages PAGE_SIZE of
        None \<Rightarrow> None
      | Some sz \<Rightarrow>
          find_free_in (rev (entries s)) num_pages sz (min max_addr MAX_IDENTITY_MAPPED_ADDRESS))"

definition is_region_free :: "memory_allocator \<Rightarrow> u64 \<Rightarrow> u64 \<Rightarrow> bool" where
  "is_region_free s start sz =
     (case checked_add start sz of
        None \<Rightarrow> False
      | Some end_addr \<Rightarrow>
          (\<exists>entry \<in> set (entries s). get_memory_type entry = Some ConventionalMemory \<and>
             physical_start entry \<le> start \<and> desc_end entry \<ge> end_addr))"

definition try_reallocate_loader_region ::
  "memory_allocator \<Rightarrow> u64 \<Rightarrow> u64 \<Rightarrow> memory_type \<Rightarrow> (memory_allocator \<times> bool) may_panic" where
  "try_reallocate_loader_region s addr num_pages t =
     (case checked_mul num_pages PAGE_SIZE of
        None \<Rightarrow> Some (s, False)
      | Some sz \<Rightarrow>
     (case checked_add addr sz of
        None \<Rightarrow> Some (s, False)
      | Some end_addr \<Rightarrow>
     (case position (\<lambda>entry. (get_memory_type entry = Some LoaderCode \<or>
                              get_memory_type entry = Some LoaderData) \<and>
                       physical_start entry \<le> addr \<and> desc_end entry \<ge> end_addr) (entries s) of
        None \<Rightarrow> Some (s, False)
      | Some idx \<Rightarrow>
          (let entry = entries s ! idx
           in case get_memory_type entry of
                None \<Rightarrow> None
              | Some original_type \<Rightarrow>
                  (if original_type = t then Some (s, True)
                   else
                     (let need_before = physical_start entry < addr;
                          need_after = desc_end entry > end_addr;
                          new_entries_needed = 1 + of_bool need_before + of_bool need_after
                      in case make_room (entries s) new_entries_needed of
                           (False, es) \<Rightarrow> Some (s\<lparr>entries := es\<rparr>, False)
                         | (True, es) \<Rightarrow>
                             (case vec_remove idx es of
                                None \<Rightarrow> None
                              | Some es' \<Rightarrow>
                                  Some (s\<lparr>entries := merge_entries (sort_entries (push_all_ignore es'
                                           (piece_before entry original_type addr @
                                            [new_descriptor t addr num_pages (attribute entry)] @
                                            piece_after entry original_type end_addr))),
                                          map_key := map_key s + 1\<rparr>,
                                        True))))))))"

text \<open>
  \<open>allocate_pages\<close> returns the allocator, the status and the new value of \<open>*memory\<close>.
\<close>

definition allocate_pages ::
  "memory_allocator \<Rightarrow> allocate_type \<Rightarrow> memory_type \<Rightarrow> u64 \<Rightarrow> u64 \<Rightarrow>
     (memory_allocator \<times> efi_status \<times> u64) may_panic" where
  "allocate_pages s alloc_type t num_pages memory =
     (if num_pages = 0 then Some (s, INVALID_PARAMETER, memory)
      else if boot_services_exited s then Some (s, UNSUPPORTED, memory)
      else
        (case checked_mul num_pages PAGE_SIZE of
           None \<Rightarrow> Some (s, OUT_OF_RESOURCES, memory)
         | Some sz \<Rightarrow>
        (case alloc_type of
           AllocateAnyPages \<Rightarrow>
             (case find_free_pages s num_pages (- 1) of
                None \<Rightarrow> Some (s, OUT_OF_RESOURCES, memory)
              | Some addr \<Rightarrow>
                  map_option (\<lambda>(s', r). case r of Ok _ \<Rightarrow> (s', SUCCESS, addr)
                                                | Err status \<Rightarrow> (s', status, memory))
                    (carve_out s addr num_pages t))
         | AllocateMaxAddress \<Rightarrow>
             (case find_free_pages s num_pages memory of
                None \<Rightarrow> Some (s, OUT_OF_RESOURCES, memory)
              | Some addr \<Rightarrow>
                  map_option (\<lambda>(s', r). case r of Ok _ \<Rightarrow> (s', SUCCESS, addr)
                                                | Err status \<Rightarrow> (s', status, memory))
                    (carve_out s addr num_pages t))
         | AllocateAddress \<Rightarrow>
             (if \<not> is_multiple_of memory PAGE_SIZE then Some (s, INVALID_PARAMETER, memory)
              else if is_region_free s memory sz then
                map_option (\<lambda>(s', r). case r of Ok _ \<Rightarrow> (s', SUCCESS, memory)
                                              | Err status \<Rightarrow> (s', status, memory))
                  (carve_out s memory num_pages t)
              else
                map_option (\<lambda>(s', ok). (s', if ok then SUCCESS else NOT_FOUND, memory))
                  (try_reallocate_loader_region s memory num_pages t)))))"

definition free_pages :: "memory_allocator \<Rightarrow> u64 \<Rightarrow> u64 \<Rightarrow> memory_allocator \<times> efi_status" where
  "free_pages s memory num_pages =
     (if \<not> is_multiple_of memory PAGE_SIZE then (s, INVALID_PARAMETER)
      else if num_pages = 0 then (s, INVALID_PARAMETER)
      else if boot_services_exited s then (s, UNSUPPORTED)
      else
        (case position (\<lambda>entry. physical_start entry = memory \<and> number_of_pages entry = num_pages \<and>
                          (case get_memory_type entry of
                             None \<Rightarrow> False
                           | Some t \<Rightarrow> is_boot_services t \<or> t = ConventionalMemory)) (entries s) of
           None \<Rightarrow> (s, NOT_FOUND)
         | Some idx \<Rightarrow>
             (s\<lparr>entries := merge_entries ((entries s)
                   [idx := (entries s ! idx)\<lparr>memory_type := as_u32 ConventionalMemory\<rparr>]),
                map_key := map_key s + 1\<rparr>, SUCCESS)))"

section \<open>Reporting the map and leaving boot services\<close>

definition DESCRIPTOR_SIZE :: nat where
  "DESCRIPTOR_SIZE = 40"

record memory_map_report =
  rep_status :: efi_status
  rep_size :: nat
  rep_map :: "memory_descriptor list option"
  rep_key :: usize
  rep_descriptor_size :: nat
  rep_descriptor_version :: u32

definition get_memory_map ::
  "memory_allocator \<Rightarrow> memory_descriptor list option \<Rightarrow> memory_map_report" where
  "get_memory_map s buffer =
     (let required_size = length (entries s) * DESCRIPTOR_SIZE;
          report = (\<lambda>status buf. \<lparr>rep_status = status, rep_size = required_size, rep_map = buf,
             rep_key = map_key s, rep_descriptor_size = DESCRIPTOR_SIZE,
             rep_descriptor_version = 1\<rparr>)
      in case buffer of
           None \<Rightarrow> report BUFFER_TOO_SMALL None
         | Some buf \<Rightarrow>
             if length buf * DESCRIPTOR_SIZE < required_size then report BUFFER_TOO_SMALL (Some buf)
             else
               (let copy_len = min (length (entries s)) (length buf)
                in report SUCCESS (Some (take copy_len (entries s) @ drop copy_len buf))))"

definition release_boot_entry :: "memory_descriptor \<Rightarrow> memory_descriptor" where
  "release_boot_entry entry =
     (case get_memory_type entry of
        None \<Rightarrow> entry
      | Some t \<Rightarrow> if is_boot_services t then entry\<lparr>memory_type := as_u32 ConventionalMemory\<rparr> else entry)"

definition exit_boot_services :: "memory_allocator \<Rightarrow> usize \<Rightarrow> memory_allocator \<times> efi_status" where
  "exit_boot_services s provided_map_key =
     (if provided_map_key \<noteq> map_key s then (s, INVALID_PARAMETER)
      else (s\<lparr>entries := merge_entries (map release_boot_entry (entries s)),
              map_key := map_key s + 1, boot_services_exited := True\<rparr>, SUCCESS))"

definition get_memory_type_at :: "memory_allocator \<Rightarrow> u64 \<Rightarrow> memory_type option" where
  "get_memory_type_at s address =
     (case find (\<lambda>entry. address \<ge> physical_start entry \<and> address < desc_end entry) (entries s) of
        None \<Rightarrow> None
      | Some entry \<Rightarrow> from_u32 (memory_type entry))"

definition get_memory_map_size :: "memory_allocator \<Rightarrow> nat" where
  "get_memory_map_size s = length (entries s) * DESCRIPTOR_SIZE"

section \<open>The firmware's own image\<close>

definition reserve_or_add ::
  "memory_allocator \<Rightarrow> u64 \<Rightarrow> u64 \<Rightarrow> memory_type \<Rightarrow> memory_allocator may_panic" where
  "reserve_or_add s start pages t =
     (case reserve_region s start pages t of
        None \<Rightarrow> None
      | Some (s', Ok _) \<Rightarrow> Some s'
      | Some (s', Err _) \<Rightarrow> Some (fst (force_add_region s' start pages t)))"

definition page_floor :: "u64 \<Rightarrow> u64" where
  "page_floor a = a AND NOT (PAGE_SIZE - 1)"

definition page_ceil :: "u64 \<Rightarrow> u64" where
  "page_ceil a = (a + PAGE_SIZE - 1) AND NOT (PAGE_SIZE - 1)"

text \<open>The four linker symbols are arguments.\<close>

definition reserve_runtime_region ::
  "memory_allocator \<Rightarrow> u64 \<Rightarrow> u64 \<Rightarrow> u64 \<Rightarrow> u64 \<Rightarrow> memory_allocator may_panic" where
  "reserve_runtime_region s code_start code_end data_start data_end =
     (let code_start_aligned = page_floor code_start;
          code_end_aligned = page_ceil code_end;
          data_start_aligned =
            (if data_start < code_end_aligned then code_end_aligned else page_floor data_start);
          data_end_aligned = page_ceil data_end;
          code_pages = (code_end_aligned - code_start_aligned) div PAGE_SIZE;
          data_pages = (if data_end_aligned > data_start_aligned
                        then (data_end_aligned - data_start_aligned) div PAGE_SIZE else 0)
      in case reserve_or_add s code_start_aligned code_pages RuntimeServicesCode of
           None \<Rightarrow> None
         | Some s' \<Rightarrow>
             if data_pages > 0
             then reserve_or_add s' data_start_aligned data_pages RuntimeServicesData
             else Some s')"

end
