(* ===== verification/Memory_Split.thy ===== *)
theory Memory_Split
  imports Allocator
begin

text \<open>
  What replacing one descriptor by the pieces around a range does to a memory map: the three
  splitting routines of the allocator (\<open>carve_out\<close>, \<open>try_reallocate_loader_region\<close>,
  \<open>mark_as_acpi_reclaim\<close>) rest on \<open>split_entry_effect\<close>.
\<close>

section \<open>Replacing an entry by pieces\<close>

lemma from_u32_as_u32 [simp]: "from_u32 (as_u32 t) = Some t"
  by (cases t) (simp_all add: from_u32_def)

lemma from_u32_Some_iff: "from_u32 v = Some t \<longleftrightarrow> v = as_u32 t"
proof
  show "from_u32 v = Some t \<Longrightarrow> v = as_u32 t"
    by (auto simp: from_u32_def split: if_splits)
qed simp

lemma as_u32_inject [simp]: "as_u32 t = as_u32 u \<longleftrightarrow> t = u"
  by (metis from_u32_as_u32 option.inject)

declare as_u32.simps [simp del]

lemma get_memory_type_Some_iff: "get_memory_type d = Some t \<longleftrightarrow> memory_type d = as_u32 t"
  by (simp add: get_memory_type_def from_u32_Some_iff)

lemma new_descriptor_simps [simp]:
  "memory_type (new_descriptor t start pages attr) = as_u32 t"
  "physical_start (new_descriptor t start pages attr) = start"
  "number_of_pages (new_descriptor t start pages attr) = pages"
  "attribute (new_descriptor t start pages attr) = attr"
  by (simp_all add: new_descriptor_def)

lemma unat_PAGE_SIZE [simp]: "unat PAGE_SIZE = 4096"
  by (simp add: PAGE_SIZE_def)

text \<open>Ranges of pages, over the naturals.\<close>

definition page_range :: "u64 \<Rightarrow> u64 \<Rightarrow> u64 set" where
  "page_range addr num_pages =
     {a. unat addr \<le> unat a \<and> unat a < unat addr + 4096 * unat num_pages}"

lemma range_end:
  assumes "checked_mul num_pages PAGE_SIZE = Some sz" and "checked_add addr sz = Some e"
  shows "unat e = unat addr + 4096 * unat num_pages"
  using assms by (simp add: checked_mul_Some_iff checked_add_Some_iff)


text \<open>\<open>tiles e ps\<close>: the descriptors \<open>ps\<close> ascend and cover the region of \<open>e\<close> and nothing else.\<close>

definition tiles :: "memory_descriptor \<Rightarrow> memory_descriptor list \<Rightarrow> bool" where
  "tiles e ps \<longleftrightarrow> (\<forall>p \<in> set ps. wf_desc p \<and> lo e \<le> lo p \<and> hi p \<le> hi e) \<and>
     sorted_wrt before_desc ps \<and> (\<forall>a. covers e a \<longrightarrow> (\<exists>p \<in> set ps. covers p a))"

definition split_pieces ::
  "memory_descriptor \<Rightarrow> memory_type \<Rightarrow> memory_type \<Rightarrow> u64 \<Rightarrow> u64 \<Rightarrow> u64 \<Rightarrow> u64 \<Rightarrow> memory_descriptor list"
where
  "split_pieces e t t' addr num_pages attr' end_addr =
     piece_before e t addr @ [new_descriptor t' addr num_pages attr'] @ piece_after e t end_addr"

text \<open>The situation in which an entry is split: an aligned, non-empty range inside it.\<close>

definition split_at :: "memory_descriptor \<Rightarrow> memory_type \<Rightarrow> u64 \<Rightarrow> u64 \<Rightarrow> u64 \<Rightarrow> bool" where
  "split_at e t addr num_pages end_addr \<longleftrightarrow>
     wf_desc e \<and> get_memory_type e = Some t \<and> lo e \<le> unat addr \<and> unat end_addr \<le> hi e \<and>
     unat end_addr = unat addr + 4096 * unat num_pages \<and> 4096 dvd unat addr \<and> num_pages \<noteq> 0"

lemma unat_pages_between:
  assumes "4096 dvd unat (a :: u64)" and "4096 dvd unat b" and "b \<le> a"
  shows "4096 * unat ((a - b) div PAGE_SIZE) = unat a - unat b"
proof -
  have "4096 dvd unat a - unat b"
    using assms(1,2) by (rule dvd_diff_nat)
  then show ?thesis
    using assms(3) by (simp add: word_nat)
qed

lemma split_at_aligned: "split_at e t addr num_pages end_addr \<Longrightarrow> 4096 dvd unat end_addr"
  by (simp add: split_at_def)

lemma split_at_hi_aligned: "split_at e t addr num_pages end_addr \<Longrightarrow> 4096 dvd hi e"
  by (simp add: split_at_def wf_desc_def hi_def)

lemma piece_before_cases:
  assumes "split_at e t addr num_pages end_addr"
  shows "piece_before e t addr = [] \<and> lo e = unat addr \<or>
    (\<exists>p. piece_before e t addr = [p] \<and> wf_desc p \<and> lo p = lo e \<and> hi p = unat addr \<and>
       lo e < unat addr \<and> memory_type p = memory_type e \<and> attribute p = attribute e)"
proof (cases "physical_start e < addr")
  case False
  then show ?thesis
    using assms by (auto simp: piece_before_def split_at_def lo_def word_nat)
next
  case True
  let ?p = "new_descriptor t (physical_start e) ((addr - physical_start e) div PAGE_SIZE) (attribute e)"
  have al: "4096 dvd unat addr" "4096 dvd unat (physical_start e)"
    using assms by (simp_all add: split_at_def wf_desc_def lo_def)
  have pages: "4096 * unat ((addr - physical_start e) div PAGE_SIZE) = unat addr - lo e"
    using unat_pages_between [OF al] True by (simp add: lo_def)
  have lo: "lo ?p = lo e" and less: "lo e < unat addr"
    using True by (simp_all add: lo_def word_nat)
  have hi: "hi ?p = unat addr"
    using pages less by (simp add: hi_def lo)
  have "wf_desc ?p"
    using assms lo hi less pages al unat_u64_bound [of addr]
    by (auto simp: wf_desc_def split_at_def word_nat)
  moreover have "memory_type ?p = memory_type e"
    using assms by (simp add: split_at_def get_memory_type_Some_iff)
  ultimately show ?thesis
    using True lo hi less by (simp add: piece_before_def)
qed

lemma piece_after_cases:
  assumes "split_at e t addr num_pages end_addr"
  shows "piece_after e t end_addr = [] \<and> hi e = unat end_addr \<or>
    (\<exists>p. piece_after e t end_addr = [p] \<and> wf_desc p \<and> lo p = unat end_addr \<and> hi p = hi e \<and>
       unat end_addr < hi e \<and> memory_type p = memory_type e \<and> attribute p = attribute e)"
proof (cases "desc_end e > end_addr")
  case False
  then show ?thesis
    using assms wf_desc_hi [of e] by (auto simp: piece_after_def split_at_def word_nat)
next
  case True
  let ?p = "new_descriptor t end_addr ((desc_end e - end_addr) div PAGE_SIZE) (attribute e)"
  have end_e: "unat (desc_end e) = hi e"
    using assms wf_desc_hi [of e] by (simp add: split_at_def)
  have al: "4096 dvd unat (desc_end e)" "4096 dvd unat end_addr"
    using assms split_at_hi_aligned split_at_aligned end_e by auto
  have pages: "4096 * unat ((desc_end e - end_addr) div PAGE_SIZE) = hi e - unat end_addr"
    using unat_pages_between [OF al] True end_e by simp
  have lo: "lo ?p = unat end_addr" and less: "unat end_addr < hi e"
    using True end_e by (simp_all add: lo_def word_nat)
  have hi: "hi ?p = hi e"
    using pages less by (simp add: hi_def [of ?p] lo)
  have "wf_desc ?p"
    using assms lo hi less pages al by (auto simp: wf_desc_def split_at_def word_nat)
  moreover have "memory_type ?p = memory_type e"
    using assms by (simp add: split_at_def get_memory_type_Some_iff)
  ultimately show ?thesis
    using True lo hi less by (simp add: piece_after_def)
qed

lemma middle_piece:
  assumes "split_at e t addr num_pages end_addr"
  shows "wf_desc (new_descriptor t' addr num_pages attr')"
    "lo (new_descriptor t' addr num_pages attr') = unat addr"
    "hi (new_descriptor t' addr num_pages attr') = unat end_addr"
  using assms by (auto simp: split_at_def wf_desc_def hi_def lo_def word_nat)

lemma split_pieces_tiles:
  assumes "split_at e t addr num_pages end_addr"
  shows "tiles e (split_pieces e t t' addr num_pages attr' end_addr)"
proof -
  note m = middle_piece [OF assms, of t' attr']
  have wf: "wf_desc e" and b: "lo e \<le> unat addr" "unat end_addr \<le> hi e" "unat addr < unat end_addr"
    using assms by (auto simp: split_at_def word_nat)
  show ?thesis
    using piece_before_cases [OF assms] piece_after_cases [OF assms] m b
    by (elim disjE exE conjE)
      (auto simp: tiles_def split_pieces_def before_desc_def covers_iff wf not_less)
qed

lemma split_pieces_content:
  assumes "split_at e t addr num_pages end_addr"
    and "p \<in> set (split_pieces e t t' addr num_pages attr' end_addr)" and "covers p a"
  shows "(memory_type p, attribute p) =
    (if a \<in> page_range addr num_pages then (as_u32 t', attr') else (memory_type e, attribute e))"
proof -
  note m = middle_piece [OF assms(1), of t' attr']
  have "unat end_addr = unat addr + 4096 * unat num_pages"
    using assms(1) by (simp add: split_at_def)
  then show ?thesis
    using piece_before_cases [OF assms(1)] piece_after_cases [OF assms(1)] m assms(2,3)
    by (elim disjE exE conjE)
      (auto simp: split_pieces_def covers_iff page_range_def)
qed

lemma length_split_pieces:
  "length (split_pieces e t t' addr num_pages attr' end_addr) =
     1 + of_bool (physical_start e < addr) + of_bool (desc_end e > end_addr)"
  by (simp add: split_pieces_def piece_before_def piece_after_def)

section \<open>Splitting inside a map\<close>

lemma sorted_wrt_before_apart: "sorted_wrt before_desc es \<Longrightarrow> sorted_wrt apart es"
  by (erule sorted_wrt_mono_rel [rotated]) (simp add: apart_def)

lemma replace_memory_map:
  assumes "memory_map (xs @ e # ys)" and "tiles e ps"
  shows "memory_map (sort_entries ((xs @ ys) @ ps))"
proof (rule sort_memory_map)
  show "\<forall>d \<in> set ((xs @ ys) @ ps). wf_desc d"
    using assms by (auto simp: memory_map_def tiles_def)
  have "sorted_wrt before_desc (xs @ ys)"
    using assms(1) by (auto simp: memory_map_def sorted_wrt_append)
  then have "sorted_wrt apart (xs @ ys)"
    by (rule sorted_wrt_before_apart)
  moreover have "sorted_wrt apart ps"
    using assms(2) by (simp add: tiles_def sorted_wrt_before_apart)
  moreover have "apart d p" if "d \<in> set (xs @ ys)" and "p \<in> set ps" for d p
  proof -
    have "before_desc d e \<or> before_desc e d"
      using assms(1) that(1) by (auto simp: memory_map_def sorted_wrt_append)
    then show ?thesis
      using assms(2) that(2) by (force simp: tiles_def apart_def before_desc_def)
  qed
  ultimately show "sorted_wrt apart ((xs @ ys) @ ps)"
    unfolding sorted_wrt_append [of _ "xs @ ys"] by blast
qed

lemma tiles_covers_iff:
  assumes "tiles e ps" and "wf_desc e"
  shows "(\<exists>p \<in> set ps. covers p a) \<longleftrightarrow> covers e a"
  using assms by (force simp: tiles_def covers_iff)

lemma replace_region_at:
  assumes "memory_map (xs @ e # ys)" and "tiles e ps"
  shows "region_at (sort_entries ((xs @ ys) @ ps)) a =
    (if covers e a then region_at ps a else region_at (xs @ e # ys) a)"
proof -
  note mm = replace_memory_map [OF assms]
  have wf: "wf_desc e"
    using assms(1) by (simp add: memory_map_def)
  have ps: "memory_map ps"
    using assms(2) by (auto simp: tiles_def memory_map_def)
  show ?thesis
  proof (cases "covers e a")
    case True
    then obtain p where p: "p \<in> set ps" "covers p a"
      using tiles_covers_iff [OF assms(2) wf] by blast
    then show ?thesis
      using True region_at_SomeI [OF mm, of p a] region_at_SomeI [OF ps p] by simp
  next
    case False
    then have np: "\<not> covers p a" if "p \<in> set ps" for p
      using that tiles_covers_iff [OF assms(2) wf] by blast
    have "region_at (sort_entries ((xs @ ys) @ ps)) a = region_at (xs @ e # ys) a"
      using False np by (intro region_at_cong [OF assms(1) mm]) auto
    with False show ?thesis by simp
  qed
qed

text \<open>The effect of a split on the map, in terms of what is at which address.\<close>

lemma split_entry_effect:
  fixes es :: "memory_descriptor list" and t' :: memory_type and attr' :: u64
  assumes mm: "memory_map es" and idx: "idx < length es"
    and split: "split_at (es ! idx) t addr num_pages end_addr"
  defines "es' \<equiv> sort_entries ((take idx es @ drop (Suc idx) es) @
     split_pieces (es ! idx) t t' addr num_pages attr' end_addr)"
  shows "memory_map es'"
    and "a \<in> page_range addr num_pages \<Longrightarrow> region_at es' a = Some (as_u32 t', attr')"
    and "a \<notin> page_range addr num_pages \<Longrightarrow> region_at es' a = region_at es a"
    and "a \<in> page_range addr num_pages \<Longrightarrow>
      region_at es a = Some (as_u32 t, attribute (es ! idx))"
proof -
  let ?e = "es ! idx" and ?ps = "split_pieces (es ! idx) t t' addr num_pages attr' end_addr"
  have es: "es = take idx es @ ?e # drop (Suc idx) es"
    using idx by (rule id_take_nth_drop)
  have mm': "memory_map (take idx es @ ?e # drop (Suc idx) es)"
    using mm es by simp
  note tl = split_pieces_tiles [OF split, of t' attr']
  show "memory_map es'"
    unfolding es'_def using mm' tl by (rule replace_memory_map)
  have eff: "region_at es' b = (if covers ?e b then region_at ?ps b else region_at es b)" for b
    using replace_region_at [OF mm' tl] es by (simp add: es'_def)
  have wf: "wf_desc ?e" and ty: "memory_type ?e = as_u32 t"
    using split by (simp_all add: split_at_def get_memory_type_Some_iff)
  have ps: "memory_map ?ps"
    using tl by (auto simp: tiles_def memory_map_def)
  have at_ps: "region_at ?ps b =
      Some (if b \<in> page_range addr num_pages then (as_u32 t', attr') else (memory_type ?e, attribute ?e))"
    if cov: "covers ?e b" for b
  proof -
    obtain p where p: "p \<in> set ?ps" "covers p b"
      using tiles_covers_iff [OF tl wf] cov by blast
    show ?thesis
      using region_at_SomeI [OF ps p] split_pieces_content [OF split p] by simp
  qed
  have at_es: "region_at es b = Some (memory_type ?e, attribute ?e)" if "covers ?e b" for b
    using region_at_SomeI [OF mm _ that] idx by simp
  have inside: "covers ?e a" if "a \<in> page_range addr num_pages"
    using that split by (auto simp: covers_iff [OF wf] page_range_def split_at_def)
  show "region_at es' a = Some (as_u32 t', attr')" if "a \<in> page_range addr num_pages"
    using eff at_ps inside [OF that] that by simp
  show "region_at es' a = region_at es a" if "a \<notin> page_range addr num_pages"
    using eff at_ps at_es that by simp
  show "region_at es a = Some (as_u32 t, attribute ?e)" if "a \<in> page_range addr num_pages"
    using at_es inside [OF that] ty by simp
qed
end
