(* ===== verification/Allocator_Correct.thy ===== *)
theory Allocator_Correct
  imports Memory_Split
begin

text \<open>
  Correctness of the page allocator: the invariant of its state, the abstract memory map it
  implements (what is at which address), and what each operation does to that map on every branch.
\<close>

section \<open>The allocator invariant\<close>

text \<open>
  \<open>alloc_wf\<close> is what every operation keeps; \<open>alloc_inv\<close> adds that no two neighbours can be merged,
  which the operations that end in \<open>merge_entries\<close> establish and on which the room check of
  \<open>carve_out\<close> relies.
\<close>

definition alloc_wf :: "memory_allocator \<Rightarrow> bool" where
  "alloc_wf s \<longleftrightarrow> memory_map (entries s) \<and> length (entries s) \<le> MAX_MEMORY_ENTRIES"

definition alloc_inv :: "memory_allocator \<Rightarrow> bool" where
  "alloc_inv s \<longleftrightarrow> alloc_wf s \<and> merged (entries s)"

definition alloc_map :: "memory_allocator \<Rightarrow> u64 \<Rightarrow> (u32 \<times> u64) option" where
  "alloc_map s = region_at (entries s)"

text \<open>The abstract operation: change the regions inside a set of addresses.\<close>

definition retype ::
  "u64 set \<Rightarrow> (u32 \<times> u64 \<Rightarrow> u32 \<times> u64) \<Rightarrow> (u64 \<Rightarrow> (u32 \<times> u64) option) \<Rightarrow>
     u64 \<Rightarrow> (u32 \<times> u64) option" where
  "retype A f m = (\<lambda>a. if a \<in> A then map_option f (m a) else m a)"

lemma alloc_invD: "alloc_inv s \<Longrightarrow> alloc_wf s"
  by (simp add: alloc_inv_def)

lemma alloc_map_get_memory_type_at:
  "get_memory_type_at s a = Option.bind (alloc_map s a) (\<lambda>(t, _). from_u32 t)"
  by (auto simp: get_memory_type_at_def alloc_map_def region_at_def covers_def split: option.splits)

section \<open>Replacing an entry in the allocator\<close>

lemma merge_entries_memory_map: "memory_map es \<Longrightarrow> memory_map (merge_entries es)"
  and merge_entries_region_at: "memory_map es \<Longrightarrow> region_at (merge_entries es) = region_at es"
  and merge_entries_merged: "merged (merge_entries es)"
  and merge_entries_length: "length (merge_entries es) \<le> length es"
  and merge_entries_id: "merged es \<Longrightarrow> merge_entries es = es"
  by (auto simp: merge_entries_spec merge_spec_memory_map merge_spec_region_at merged_merge_spec
      merge_spec_length merged_merge_spec_id)

lemma push_all_ignore_room:
  "length es + length ds \<le> MAX_MEMORY_ENTRIES \<Longrightarrow> push_all_ignore es ds = es @ ds"
  by (induction ds arbitrary: es) auto

lemma make_room_stable:
  assumes "merged es \<or> length es + 2 \<le> MAX_MEMORY_ENTRIES" and "needed \<le> 3"
  shows "make_room es needed = (length es + needed - 1 \<le> MAX_MEMORY_ENTRIES, es)"
  using assms by (auto simp: make_room_def merge_entries_id)

lemma length_split_pieces_le: "length (split_pieces e t t' addr n attr' end_addr) \<le> 3"
  by (simp add: length_split_pieces)

lemma replace_entry_effect:
  fixes es :: "memory_descriptor list" and t' :: memory_type and attr' :: u64
  assumes mm: "memory_map es" and idx: "idx < length es"
    and split: "split_at (es ! idx) t addr num_pages end_addr"
    and room: "length es + length (split_pieces (es ! idx) t t' addr num_pages attr' end_addr) - 1
      \<le> MAX_MEMORY_ENTRIES"
  defines "es' \<equiv> merge_entries (sort_entries (push_all_ignore (take idx es @ drop (Suc idx) es)
     (split_pieces (es ! idx) t t' addr num_pages attr' end_addr)))"
  shows "memory_map es'" "merged es'" "length es' \<le> MAX_MEMORY_ENTRIES"
    and "region_at es' = retype (page_range addr num_pages) (\<lambda>_. (as_u32 t', attr')) (region_at es)"
    and "a \<in> page_range addr num_pages \<Longrightarrow>
      region_at es a = Some (as_u32 t, attribute (es ! idx))"
proof -
  let ?rest = "take idx es @ drop (Suc idx) es"
  let ?ps = "split_pieces (es ! idx) t t' addr num_pages attr' end_addr"
  have len: "length ?rest + length ?ps \<le> MAX_MEMORY_ENTRIES"
    using idx room by simp
  have es': "es' = merge_entries (sort_entries (?rest @ ?ps))"
    using len by (simp add: es'_def push_all_ignore_room)
  note eff = split_entry_effect(1-3) [OF mm idx split, where t' = t' and attr' = attr']
    split_entry_effect(4) [OF mm idx split]
  show "memory_map es'" "merged es'"
    using eff(1) by (simp_all add: es' merge_entries_memory_map merge_entries_merged)
  have "length es' \<le> length ?rest + length ?ps"
    using merge_entries_length [of "sort_entries (?rest @ ?ps)"] by (simp add: es')
  with len show "length es' \<le> MAX_MEMORY_ENTRIES" by simp
  show "region_at es' = retype (page_range addr num_pages) (\<lambda>_. (as_u32 t', attr')) (region_at es)"
    using eff by (auto simp: es' merge_entries_region_at retype_def fun_eq_iff)
  show "a \<in> page_range addr num_pages \<Longrightarrow> region_at es a = Some (as_u32 t, attribute (es ! idx))"
    by (rule eff(4))
qed

lemma found_entry_split_at:
  assumes "memory_map es" and "idx < length es" and "get_memory_type (es ! idx) = Some t"
    and "physical_start (es ! idx) \<le> addr" and "desc_end (es ! idx) \<ge> end_addr"
    and "checked_mul num_pages PAGE_SIZE = Some sz" and "checked_add addr sz = Some end_addr"
    and "4096 dvd unat addr" and "num_pages \<noteq> 0"
  shows "split_at (es ! idx) t addr num_pages end_addr"
proof -
  have "wf_desc (es ! idx)"
    using assms(1,2) by (simp add: memory_map_def)
  then show ?thesis
    using assms range_end [OF assms(6,7)] wf_desc_hi [of "es ! idx"]
    by (simp add: split_at_def lo_def word_nat)
qed

section \<open>carve\_out\<close>

definition carve_spec :: "memory_allocator \<Rightarrow> u64 \<Rightarrow> u64 \<Rightarrow> memory_type \<Rightarrow> memory_allocator \<Rightarrow> bool" where
  "carve_spec s addr num_pages t s' \<longleftrightarrow>
     (\<forall>a \<in> page_range addr num_pages. \<exists>attr. alloc_map s a = Some (as_u32 ConventionalMemory, attr)) \<and>
     alloc_map s' = retype (page_range addr num_pages)
       (\<lambda>(_, attr). (as_u32 t, runtime_attribute t attr)) (alloc_map s) \<and>
     map_key s' = map_key s + 1 \<and> boot_services_exited s' = boot_services_exited s"

definition stable_entries :: "memory_descriptor list \<Rightarrow> bool" where
  "stable_entries es \<longleftrightarrow> merged es \<or> length es + 2 \<le> MAX_MEMORY_ENTRIES"

lemma carve_out_cases:
  assumes wf: "alloc_wf s" and st: "stable_entries (entries s)"
    and al: "4096 dvd unat addr" and np: "num_pages \<noteq> 0"
  obtains (err) e where "carve_out s addr num_pages t = Some (s, Err e)"
      "e \<in> {INVALID_PARAMETER, NOT_FOUND, OUT_OF_RESOURCES}"
  | (ok) s' where "carve_out s addr num_pages t = Some (s', Ok ())" "alloc_inv s'"
      "carve_spec s addr num_pages t s'"
proof (cases "checked_mul num_pages PAGE_SIZE")
  case None
  then show ?thesis
    using err [of INVALID_PARAMETER] by (simp add: carve_out_def)
next
  case (Some sz)
  note sz = this
  show ?thesis
  proof (cases "checked_add addr sz")
    case None
    with sz show ?thesis
      using err [of INVALID_PARAMETER] by (simp add: carve_out_def)
  next
    case (Some end_addr)
    note en = this
    let ?P = "\<lambda>entry. get_memory_type entry = Some ConventionalMemory \<and>
      physical_start entry \<le> addr \<and> desc_end entry \<ge> end_addr"
    show ?thesis
    proof (cases "position ?P (entries s)")
      case None
      with sz en show ?thesis
        using err [of NOT_FOUND] by (simp add: carve_out_def)
    next
      case (Some idx)
      let ?es = "entries s" and ?e = "entries s ! idx"
      let ?attr = "runtime_attribute t (attribute ?e)"
      let ?ps = "split_pieces ?e ConventionalMemory t addr num_pages ?attr end_addr"
      have idx: "idx < length ?es" and P: "?P ?e"
        using position_SomeD [OF Some] by auto
      have mm: "memory_map ?es" and len: "length ?es \<le> MAX_MEMORY_ENTRIES"
        using wf by (simp_all add: alloc_wf_def)
      have split: "split_at ?e ConventionalMemory addr num_pages end_addr"
        using found_entry_split_at [OF mm idx _ _ _ sz en al np] P by blast
      have room: "make_room ?es (length ?ps) = (length ?es + length ?ps - 1 \<le> MAX_MEMORY_ENTRIES, ?es)"
        using st by (intro make_room_stable) (simp_all add: stable_entries_def length_split_pieces)
      show ?thesis
      proof (cases "length ?es + length ?ps - 1 \<le> MAX_MEMORY_ENTRIES")
        case False
        then have "carve_out s addr num_pages t = Some (s, Err OUT_OF_RESOURCES)"
          using sz en Some room by (simp add: carve_out_def Let_def length_split_pieces)
        then show ?thesis
          using err by blast
      next
        case True
        let ?es' = "merge_entries (sort_entries (push_all_ignore
          (take idx ?es @ drop (Suc idx) ?es) ?ps))"
        let ?s' = "s\<lparr>entries := ?es', map_key := map_key s + 1\<rparr>"
        note eff = replace_entry_effect [OF mm idx split True]
        have "carve_out s addr num_pages t = Some (?s', Ok ())"
          using sz en Some room [unfolded length_split_pieces] True [unfolded length_split_pieces] idx
          by (simp add: carve_out_def Let_def vec_remove_def split_pieces_def)
        moreover have "alloc_inv ?s'"
          using eff by (simp add: alloc_inv_def alloc_wf_def)
        moreover have "carve_spec s addr num_pages t ?s'"
          using eff(4,5) by (auto simp: carve_spec_def alloc_map_def retype_def fun_eq_iff)
        ultimately show ?thesis
          using ok by blast
      qed
    qed
  qed
qed

section \<open>Finding free pages\<close>

definition fits :: "memory_descriptor \<Rightarrow> u64 \<Rightarrow> u64 \<Rightarrow> u64 \<Rightarrow> bool" where
  "fits e addr sz max_addr \<longleftrightarrow>
     get_memory_type e = Some ConventionalMemory \<and> lo e \<le> unat addr \<and>
     unat addr + unat sz \<le> hi e \<and> unat addr + unat sz \<le> unat max_addr \<and> 4096 dvd unat addr"

lemma unat_page_mask: "unat (a AND NOT (PAGE_SIZE - 1)) = unat a - unat a mod 4096"
  using unat_and_not_mask [of a 12] by (simp add: PAGE_SIZE_def mask_eq_exp_minus_1)

lemma aligned_below: "(4096::nat) dvd l \<Longrightarrow> l \<le> x \<Longrightarrow> l \<le> x - x mod 4096"
  by (metis dvd_div_mult_self div_le_mono div_mult_mod_eq add_diff_cancel_right' mult_le_mono1)

lemma masked_fit:
  assumes wf: "wf_desc e" and sz: "unat sz mod 4096 = 0"
    and lt: "physical_start e < max_addr" and cut: "desc_end e > max_addr"
    and le: "physical_start e + sz \<le> max_addr"
    and ge: "physical_start e \<le> (max_addr - sz) AND NOT (PAGE_SIZE - 1)"
    and conv: "get_memory_type e = Some ConventionalMemory"
  shows "fits e ((max_addr - sz) AND NOT (PAGE_SIZE - 1)) sz max_addr \<or>
    max_addr < sz \<and> 2 ^ 64 \<le> unat ((max_addr - sz) AND NOT (PAGE_SIZE - 1)) + unat sz"
proof (cases "sz \<le> max_addr")
  case True
  let ?d = "unat max_addr - unat sz"
  have a: "unat ((max_addr - sz) AND NOT (PAGE_SIZE - 1)) = ?d - ?d mod 4096"
    using True by (simp add: unat_page_mask word_nat)
  have "4096 dvd ?d - ?d mod 4096"
    by (rule dvd_minus_mod)
  moreover have "?d - ?d mod 4096 + unat sz \<le> unat max_addr"
    using True by (simp add: word_nat)
  moreover have "unat max_addr < hi e"
    using cut wf_desc_hi [OF wf] by (simp add: word_nat)
  ultimately show ?thesis
    using ge conv a by (simp add: fits_def lo_def word_nat)
next
  case False
  then have lt: "unat max_addr < unat sz"
    by (simp add: word_nat)
  have d: "unat (max_addr - sz) = 2 ^ 64 + unat max_addr - unat sz"
    using lt unat_sub_if' [of max_addr sz] by simp
  have al: "(4096::nat) dvd 2 ^ 64 - unat sz"
    using sz by (intro dvd_diff_nat) (auto simp: mod_eq_0_iff_dvd)
  have "2 ^ 64 - unat sz \<le> unat (max_addr - sz)"
    using d lt unat_u64_bound [of sz] by simp
  then have "2 ^ 64 - unat sz \<le> unat (max_addr - sz) - unat (max_addr - sz) mod 4096"
    using aligned_below [OF al] by simp
  then have "2 ^ 64 \<le> unat ((max_addr - sz) AND NOT (PAGE_SIZE - 1)) + unat sz"
    by (simp only: unat_page_mask)
  with False show ?thesis by (simp add: not_le)
qed

lemma end_fit:
  assumes wf: "wf_desc e" and sz: "unat sz = 4096 * unat num_pages"
    and conv: "get_memory_type e = Some ConventionalMemory"
    and cut: "\<not> desc_end e > max_addr" and np: "num_pages \<le> number_of_pages e"
  shows "fits e (desc_end e - sz) sz max_addr"
proof -
  have hi: "unat (desc_end e) = hi e"
    by (rule wf_desc_hi [OF wf])
  have le: "lo e + unat sz \<le> hi e"
    using np sz by (simp add: hi_def word_nat)
  then have a: "unat (desc_end e - sz) = hi e - unat sz"
    using hi by (simp add: word_nat)
  have "4096 dvd hi e" and "4096 dvd unat sz"
    using wf sz by (simp_all add: wf_desc_def hi_def)
  then have "4096 dvd hi e - unat sz"
    by (rule dvd_diff_nat)
  then show ?thesis
    using a le cut hi conv by (simp add: fits_def word_nat)
qed


lemma free_in_entry_sound:
  assumes "free_in_entry e num_pages sz max_addr = Some addr"
    and wf: "wf_desc e" and sz: "unat sz = 4096 * unat num_pages"
  shows "fits e addr sz max_addr \<or> max_addr < sz \<and> 2 ^ 64 \<le> unat addr + unat sz"
proof -
  have conv: "get_memory_type e = Some ConventionalMemory" and lt: "physical_start e < max_addr"
    using assms(1) by (auto simp: free_in_entry_def not_le split: if_splits)
  show ?thesis
  proof (cases "desc_end e > max_addr")
    case True
    then have "min max_addr (desc_end e) = max_addr"
      by simp
    then have "physical_start e + sz \<le> max_addr"
      and "physical_start e \<le> (max_addr - sz) AND NOT (PAGE_SIZE - 1)"
      and a: "addr = (max_addr - sz) AND NOT (PAGE_SIZE - 1)"
      using assms(1) conv lt True
      by (simp_all add: free_in_entry_def Let_def not_le split: if_split_asm)
    then show ?thesis
      using masked_fit [OF wf _ lt True _ _ conv, of sz] sz by simp
  next
    case False
    then have "num_pages \<le> number_of_pages e" and "addr = desc_end e - sz"
      using assms(1) conv lt by (simp_all add: free_in_entry_def Let_def not_le split: if_split_asm)
    then show ?thesis
      using end_fit [OF wf sz conv False] by simp
  qed
qed

lemma free_in_entry_complete:
  assumes f: "fits d a sz max_addr" and "num_pages \<noteq> 0"
    and wf: "wf_desc d" and sz: "unat sz = 4096 * unat num_pages"
  shows "\<exists>addr. free_in_entry d num_pages sz max_addr = Some addr"
proof -
  have sz0: "0 < unat sz"
    using sz assms(2) by (simp add: word_nat)
  have hi: "unat (desc_end d) = hi d"
    by (rule wf_desc_hi [OF wf])
  have start: "physical_start d < max_addr" and conv: "get_memory_type d = Some ConventionalMemory"
    using f sz0 by (simp_all add: fits_def lo_def unat_less_mono)
  show ?thesis
  proof (cases "desc_end d > max_addr")
    case False
    then have np: "num_pages \<le> number_of_pages d"
      using f sz by (simp add: fits_def hi_def word_nat)
    then have "physical_start d \<le> desc_end d - sz"
      using end_fit [OF wf sz conv False np] by (simp add: fits_def lo_def word_nat)
    then show ?thesis
      using start False conv np by (simp add: free_in_entry_def Let_def not_le)
  next
    case True
    then have m: "min max_addr (desc_end d) = max_addr"
      by simp
    have le: "lo d + unat sz \<le> unat max_addr"
      using f by (simp add: fits_def)
    have "unat (physical_start d + sz) = lo d + unat sz"
      using le unat_u64_bound [of max_addr] unat_add_lem [of "physical_start d" sz]
      by (simp add: lo_def)
    then have "physical_start d + sz \<le> max_addr"
      using le by (simp add: word_nat)
    moreover have "lo d \<le> (unat max_addr - unat sz) - (unat max_addr - unat sz) mod 4096"
      using wf le by (intro aligned_below) (simp_all add: wf_desc_def)
    then have "physical_start d \<le> (max_addr - sz) AND NOT (PAGE_SIZE - 1)"
      using le by (simp add: unat_page_mask lo_def word_nat)
    ultimately show ?thesis
      using start True conv m by (simp add: free_in_entry_def Let_def not_le)
  qed
qed

lemma find_free_sound:
  assumes "find_free_in es num_pages sz max_addr = Some addr"
    and "\<forall>e \<in> set es. wf_desc e" and "unat sz = 4096 * unat num_pages"
  shows "(\<exists>e \<in> set es. fits e addr sz max_addr) \<or>
    max_addr < sz \<and> 2 ^ 64 \<le> unat addr + unat sz"
  using assms
proof (induction es)
  case (Cons e es)
  then show ?case
    using free_in_entry_sound [of e num_pages sz max_addr addr]
    by (cases "free_in_entry e num_pages sz max_addr") auto
qed simp

lemma find_free_complete:
  assumes "e \<in> set es" and "fits e a sz max_addr" and "num_pages \<noteq> 0"
    and "\<forall>e \<in> set es. wf_desc e" and "unat sz = 4096 * unat num_pages"
  shows "\<exists>addr. find_free_in es num_pages sz max_addr = Some addr"
  using assms
proof (induction es)
  case (Cons d es)
  then show ?case
    using free_in_entry_complete [of d a sz max_addr num_pages]
    by (cases "free_in_entry d num_pages sz max_addr") auto
qed simp

text \<open>The search, for the whole allocator.\<close>

definition request_fits :: "memory_allocator \<Rightarrow> u64 \<Rightarrow> u64 \<Rightarrow> u64 \<Rightarrow> bool" where
  "request_fits s addr num_pages max_addr \<longleftrightarrow>
     4096 dvd unat addr \<and>
     unat addr + 4096 * unat num_pages \<le> min (unat max_addr) (unat MAX_IDENTITY_MAPPED_ADDRESS) \<and>
     (\<exists>e \<in> set (entries s). get_memory_type e = Some ConventionalMemory \<and>
        lo e \<le> unat addr \<and> unat addr + 4096 * unat num_pages \<le> hi e)"

lemma request_fits_iff:
  assumes "checked_mul num_pages PAGE_SIZE = Some sz"
  shows "request_fits s addr num_pages max_addr \<longleftrightarrow>
    (\<exists>e \<in> set (entries s). fits e addr sz (min max_addr MAX_IDENTITY_MAPPED_ADDRESS))"
proof -
  have n: "unat sz = 4096 * unat num_pages"
    using assms by (simp add: checked_mul_Some_iff)
  have "unat (min max_addr MAX_IDENTITY_MAPPED_ADDRESS) =
      min (unat max_addr) (unat MAX_IDENTITY_MAPPED_ADDRESS)"
    by (simp add: min_def word_nat)
  then show ?thesis
    by (auto simp: request_fits_def fits_def n)
qed

lemma find_free_pages_sound:
  assumes "alloc_wf s" and "find_free_pages s num_pages max_addr = Some addr"
  shows "request_fits s addr num_pages max_addr \<or>
    2 ^ 64 \<le> unat addr + 4096 * unat num_pages"
proof -
  obtain sz where sz: "checked_mul num_pages PAGE_SIZE = Some sz"
    and f: "find_free_in (rev (entries s)) num_pages sz (min max_addr MAX_IDENTITY_MAPPED_ADDRESS) = Some addr"
    using assms(2) by (auto simp: find_free_pages_def split: option.splits)
  have n: "unat sz = 4096 * unat num_pages"
    using sz by (simp add: checked_mul_Some_iff)
  have wf: "\<forall>e \<in> set (rev (entries s)). wf_desc e"
    using assms(1) by (simp add: alloc_wf_def memory_map_def)
  show ?thesis
    using find_free_sound [OF f wf n] by (auto simp: request_fits_iff [OF sz] n)
qed

lemma find_free_pages_complete:
  assumes "alloc_wf s" and "num_pages \<noteq> 0" and "request_fits s a num_pages max_addr"
    and sz: "checked_mul num_pages PAGE_SIZE = Some sz"
  shows "\<exists>addr. find_free_pages s num_pages max_addr = Some addr \<and>
    request_fits s addr num_pages max_addr"
proof -
  let ?lim = "min max_addr MAX_IDENTITY_MAPPED_ADDRESS"
  have n: "unat sz = 4096 * unat num_pages"
    using sz by (simp add: checked_mul_Some_iff)
  have wf: "\<forall>e \<in> set (rev (entries s)). wf_desc e"
    using assms(1) by (simp add: alloc_wf_def memory_map_def)
  obtain e where e: "e \<in> set (rev (entries s))" "fits e a sz ?lim"
    using assms(3) by (auto simp: request_fits_iff [OF sz])
  obtain addr where f: "find_free_in (rev (entries s)) num_pages sz ?lim = Some addr"
    using find_free_complete [OF e assms(2) wf n] by blast
  have "\<not> ?lim < sz"
    using e(2) by (simp add: fits_def word_nat)
  then have "request_fits s addr num_pages max_addr"
    using find_free_sound [OF f wf n] by (auto simp: request_fits_iff [OF sz])
  with f sz show ?thesis
    by (simp add: find_free_pages_def)
qed

section \<open>Reallocating inside a loader region\<close>

definition realloc_spec ::
  "memory_allocator \<Rightarrow> u64 \<Rightarrow> u64 \<Rightarrow> memory_type \<Rightarrow> memory_allocator \<Rightarrow> bool" where
  "realloc_spec s addr num_pages t s' \<longleftrightarrow>
     (\<exists>u \<in> {LoaderCode, LoaderData}. \<forall>a \<in> page_range addr num_pages.
        \<exists>attr. alloc_map s a = Some (as_u32 u, attr)) \<and>
     alloc_map s' = retype (page_range addr num_pages) (\<lambda>(_, attr). (as_u32 t, attr)) (alloc_map s) \<and>
     boot_services_exited s' = boot_services_exited s"

lemma try_reallocate_cases:
  assumes inv: "alloc_inv s" and al: "4096 dvd unat addr" and np: "num_pages \<noteq> 0"
  obtains (no) "try_reallocate_loader_region s addr num_pages t = Some (s, False)"
  | (yes) s' where "try_reallocate_loader_region s addr num_pages t = Some (s', True)"
      "alloc_inv s'" "realloc_spec s addr num_pages t s'"
proof (cases "checked_mul num_pages PAGE_SIZE")
  case None
  then show ?thesis
    using no by (simp add: try_reallocate_loader_region_def)
next
  case (Some sz)
  note sz = this
  show ?thesis
  proof (cases "checked_add addr sz")
    case None
    with sz show ?thesis
      using no by (simp add: try_reallocate_loader_region_def)
  next
    case (Some end_addr)
    note en = this
    let ?P = "\<lambda>entry. (get_memory_type entry = Some LoaderCode \<or>
      get_memory_type entry = Some LoaderData) \<and>
      physical_start entry \<le> addr \<and> desc_end entry \<ge> end_addr"
    show ?thesis
    proof (cases "position ?P (entries s)")
      case None
      with sz en show ?thesis
        using no by (simp add: try_reallocate_loader_region_def)
    next
      case (Some idx)
      let ?es = "entries s" and ?e = "entries s ! idx"
      have idx: "idx < length ?es" and P: "?P ?e"
        using position_SomeD [OF Some] by auto
      then obtain u where u: "get_memory_type ?e = Some u" "u \<in> {LoaderCode, LoaderData}"
        by auto
      have mm: "memory_map ?es" and mg: "merged ?es"
        using inv by (simp_all add: alloc_inv_def alloc_wf_def)
      have split: "split_at ?e u addr num_pages end_addr"
        using found_entry_split_at [OF mm idx u(1) _ _ sz en al np] P by blast
      let ?ps = "split_pieces ?e u t addr num_pages (attribute ?e) end_addr"
      have was: "region_at ?es a = Some (as_u32 u, attribute ?e)" if "a \<in> page_range addr num_pages" for a
        using split_entry_effect(4) [OF mm idx split that] .
      have room: "make_room ?es (length ?ps) = (length ?es + length ?ps - 1 \<le> MAX_MEMORY_ENTRIES, ?es)"
        using mg by (intro make_room_stable) (simp_all add: length_split_pieces)
      show ?thesis
      proof (cases "u = t")
        case True
        then have "try_reallocate_loader_region s addr num_pages t = Some (s, True)"
          using sz en Some u by (simp add: try_reallocate_loader_region_def)
        moreover have "realloc_spec s addr num_pages t s"
          using was u True by (auto simp: realloc_spec_def alloc_map_def retype_def fun_eq_iff)
        ultimately show ?thesis
          using yes inv by blast
      next
        case False
        note ne = this
        show ?thesis
        proof (cases "length ?es + length ?ps - 1 \<le> MAX_MEMORY_ENTRIES")
          case False
          then have "try_reallocate_loader_region s addr num_pages t = Some (s, False)"
            using sz en Some room ne u
            by (simp add: try_reallocate_loader_region_def Let_def length_split_pieces)
          then show ?thesis
            using no by blast
        next
          case True
          let ?es' = "merge_entries (sort_entries (push_all_ignore
            (take idx ?es @ drop (Suc idx) ?es) ?ps))"
          let ?s' = "s\<lparr>entries := ?es', map_key := map_key s + 1\<rparr>"
          note eff = replace_entry_effect [OF mm idx split True]
          have "try_reallocate_loader_region s addr num_pages t = Some (?s', True)"
            using sz en Some room [unfolded length_split_pieces] True [unfolded length_split_pieces] idx ne u
            by (simp add: try_reallocate_loader_region_def Let_def vec_remove_def split_pieces_def)
          moreover have "alloc_inv ?s'"
            using eff by (simp add: alloc_inv_def alloc_wf_def)
          moreover have "realloc_spec s addr num_pages t ?s'"
            using eff(4,5) u(2) by (auto simp: realloc_spec_def alloc_map_def retype_def fun_eq_iff)
          ultimately show ?thesis
            using yes by blast
        qed
      qed
    qed
  qed
qed

section \<open>Changing types in place\<close>

definition same_extent :: "memory_descriptor \<Rightarrow> memory_descriptor \<Rightarrow> bool" where
  "same_extent d e \<longleftrightarrow> physical_start e = physical_start d \<and>
     number_of_pages e = number_of_pages d \<and> from_u32 (memory_type e) \<noteq> None"

lemma desc_end_cong:
  "physical_start e = physical_start d \<Longrightarrow> number_of_pages e = number_of_pages d \<Longrightarrow>
     desc_end e = desc_end d"
  by (simp add: desc_end_def cong: option.case_cong)

lemma same_extent_simps:
  assumes "same_extent d e"
  shows "lo e = lo d" "hi e = hi d" "wf_desc d \<Longrightarrow> wf_desc e" "covers e a = covers d a"
  using assms desc_end_cong [of e d]
  by (auto simp: same_extent_def lo_def hi_def wf_desc_def covers_def)

lemma same_extent_memory_map:
  assumes "list_all2 same_extent es fs" and "memory_map es"
  shows "memory_map fs"
  using assms
proof (induction rule: list_all2_induct)
  case Nil
  then show ?case by simp
next
  case (Cons d es e fs)
  have "before_desc e f" if f: "f \<in> set fs" for f
  proof -
    obtain g where "g \<in> set es" "same_extent g f"
      using Cons.hyps(2) f by (fastforce simp: list_all2_conv_all_nth in_set_conv_nth)
    then show ?thesis
      using Cons.prems same_extent_simps [OF Cons.hyps(1)] same_extent_simps [of g f]
      by (simp add: memory_map_Cons before_desc_def)
  qed
  then show ?case
    using Cons same_extent_simps(3) [OF Cons.hyps(1)] by (simp add: memory_map_Cons)
qed

lemma same_extent_region_at:
  assumes "list_all2 same_extent es fs"
  shows "region_at fs a = map_option (\<lambda>i. (memory_type (fs ! i), attribute (fs ! i)))
    (position (\<lambda>d. covers d a) es)"
  using assms
proof (induction rule: list_all2_induct)
  case Nil
  then show ?case by (simp add: region_at_def)
next
  case (Cons d es e fs)
  then show ?case
    using same_extent_simps(4) [OF Cons.hyps(1), of a]
    by (auto simp: region_at_def option.map_comp comp_def)
qed

section \<open>free\_pages\<close>

definition free_spec :: "memory_allocator \<Rightarrow> u64 \<Rightarrow> u64 \<Rightarrow> memory_allocator \<Rightarrow> bool" where
  "free_spec s addr num_pages s' \<longleftrightarrow>
     (\<exists>u attr. (is_boot_services u \<or> u = ConventionalMemory) \<and>
        (\<forall>a \<in> page_range addr num_pages. alloc_map s a = Some (as_u32 u, attr))) \<and>
     alloc_map s' = retype (page_range addr num_pages)
       (\<lambda>(_, attr). (as_u32 ConventionalMemory, attr)) (alloc_map s) \<and>
     map_key s' = map_key s + 1 \<and> boot_services_exited s' = boot_services_exited s"

lemma list_all2_same_extent_update:
  assumes "memory_map es" and "idx < length es" and "same_extent (es ! idx) e"
  shows "list_all2 same_extent es (es[idx := e])"
  using assms by (auto simp: list_all2_conv_all_nth nth_list_update same_extent_def memory_map_def wf_desc_def)

lemma covers_page_range:
  assumes "wf_desc d"
  shows "covers d a \<longleftrightarrow> a \<in> page_range (physical_start d) (number_of_pages d)"
  using assms by (simp add: covers_iff page_range_def lo_def hi_def)

lemma free_pages_cases:
  assumes inv: "alloc_wf s"
  obtains (err) e where "free_pages s memory num_pages = (s, e)" "e \<noteq> SUCCESS"
  | (ok) s' where "free_pages s memory num_pages = (s', SUCCESS)" "alloc_inv s'"
      "free_spec s memory num_pages s'"
proof (cases "\<not> is_multiple_of memory PAGE_SIZE \<or> num_pages = 0 \<or> boot_services_exited s")
  case True
  then have "\<exists>e. free_pages s memory num_pages = (s, e) \<and> e \<noteq> SUCCESS"
    by (auto simp: free_pages_def)
  then show ?thesis
    using err by blast
next
  case False
  let ?P = "\<lambda>entry. physical_start entry = memory \<and> number_of_pages entry = num_pages \<and>
    (case get_memory_type entry of None \<Rightarrow> False
     | Some t \<Rightarrow> is_boot_services t \<or> t = ConventionalMemory)"
  show ?thesis
  proof (cases "position ?P (entries s)")
    case None
    with False show ?thesis
      using err by (simp add: free_pages_def)
  next
    case (Some idx)
    let ?es = "entries s" and ?e = "entries s ! idx"
    let ?e' = "?e\<lparr>memory_type := as_u32 ConventionalMemory\<rparr>"
    let ?s' = "s\<lparr>entries := merge_entries (?es[idx := ?e']), map_key := map_key s + 1\<rparr>"
    have idx: "idx < length ?es" and P: "?P ?e"
      using position_SomeD [OF Some] by auto
    then obtain u where u: "memory_type ?e = as_u32 u" "is_boot_services u \<or> u = ConventionalMemory"
      by (auto simp: get_memory_type_Some_iff split: option.splits)
    have mm: "memory_map ?es" and len: "length ?es \<le> MAX_MEMORY_ENTRIES"
      using inv by (simp_all add: alloc_wf_def)
    have wf: "wf_desc ?e"
      using mm idx by (simp add: memory_map_def)
    have same: "list_all2 same_extent ?es (?es[idx := ?e'])"
      using mm idx by (intro list_all2_same_extent_update) (simp_all add: same_extent_def)
    note mm' = same_extent_memory_map [OF same mm]
    have range: "covers ?e a \<longleftrightarrow> a \<in> page_range memory num_pages" for a
      using covers_page_range [OF wf] P by simp
    have was: "region_at ?es a = Some (as_u32 u, attribute ?e)" if "a \<in> page_range memory num_pages" for a
      using region_at_SomeI [OF mm nth_mem [OF idx], of a] that range u by simp
    have now: "region_at (?es[idx := ?e']) a = Some (as_u32 ConventionalMemory, attribute ?e)"
      if "a \<in> page_range memory num_pages" for a
      using region_at_SomeI [OF mm', of ?e' a] that range idx same_extent_simps(4) [of ?e ?e' a]
      by (simp add: same_extent_def set_update_memI)
    have other: "region_at (?es[idx := ?e']) a = region_at ?es a"
      if "a \<notin> page_range memory num_pages" for a
    proof -
      have "position (\<lambda>d. covers d a) ?es \<noteq> Some idx"
        using that range position_SomeD [of "\<lambda>d. covers d a" ?es idx] by auto
      then show ?thesis
        unfolding same_extent_region_at [OF same]
        by (cases "position (\<lambda>d. covers d a) ?es") (auto simp: region_at_def find_position)
    qed
    have "free_pages s memory num_pages = (?s', SUCCESS)"
      using False Some by (simp add: free_pages_def)
    moreover have "alloc_inv ?s'"
      using mm' len merge_entries_length [of "?es[idx := ?e']"]
      by (simp add: alloc_inv_def alloc_wf_def merge_entries_memory_map merge_entries_merged)
    moreover have "free_spec s memory num_pages ?s'"
      using was now other u(2)
      by (auto simp: free_spec_def alloc_map_def merge_entries_region_at [OF mm'] retype_def fun_eq_iff)
    ultimately show ?thesis
      using ok by blast
  qed
qed

section \<open>exit\_boot\_services\<close>

definition release_type :: "u32 \<times> u64 \<Rightarrow> u32 \<times> u64" where
  "release_type = (\<lambda>(t, attr). (case from_u32 t of
     Some u \<Rightarrow> if is_boot_services u then as_u32 ConventionalMemory else t | None \<Rightarrow> t, attr))"

lemma release_boot_entry_type:
  "(memory_type (release_boot_entry d), attribute (release_boot_entry d)) =
     release_type (memory_type d, attribute d)"
  by (auto simp: release_boot_entry_def release_type_def get_memory_type_def split: option.splits)

lemma release_boot_entry_same:
  "wf_desc d \<Longrightarrow> same_extent d (release_boot_entry d)"
  by (auto simp: release_boot_entry_def same_extent_def wf_desc_def get_memory_type_def
      split: option.splits)

lemma exit_boot_services_effect:
  assumes "alloc_wf s" and "key = map_key s"
  shows "snd (exit_boot_services s key) = SUCCESS"
    and "alloc_inv (fst (exit_boot_services s key))"
    and "boot_services_exited (fst (exit_boot_services s key))"
    and "alloc_map (fst (exit_boot_services s key)) = map_option release_type \<circ> alloc_map s"
proof -
  let ?es = "entries s"
  have mm: "memory_map ?es" and len: "length ?es \<le> MAX_MEMORY_ENTRIES"
    using assms(1) by (simp_all add: alloc_wf_def)
  have same: "list_all2 same_extent ?es (map release_boot_entry ?es)"
    using mm by (auto simp: list_all2_conv_all_nth memory_map_def release_boot_entry_same)
  note mm' = same_extent_memory_map [OF same mm]
  show "snd (exit_boot_services s key) = SUCCESS" "boot_services_exited (fst (exit_boot_services s key))"
    using assms(2) by (simp_all add: exit_boot_services_def)
  show "alloc_inv (fst (exit_boot_services s key))"
    using assms(2) mm' len merge_entries_length [of "map release_boot_entry ?es"]
    by (simp add: exit_boot_services_def alloc_inv_def alloc_wf_def merge_entries_memory_map
        merge_entries_merged)
  have "region_at (map release_boot_entry ?es) a = map_option release_type (region_at ?es a)" for a
    unfolding same_extent_region_at [OF same]
    by (auto simp: region_at_def find_position option.map_comp comp_def release_boot_entry_type
        dest!: position_SomeD intro!: option.map_cong0 split: option.splits)
  then show "alloc_map (fst (exit_boot_services s key)) = map_option release_type \<circ> alloc_map s"
    using assms(2) merge_entries_region_at [OF mm']
    by (simp add: exit_boot_services_def alloc_map_def fun_eq_iff)
qed

section \<open>allocate\_pages\<close>

lemma is_multiple_of_PAGE_SIZE: "is_multiple_of a PAGE_SIZE \<longleftrightarrow> 4096 dvd unat a"
proof -
  have "a mod 4096 = 0 \<longleftrightarrow> unat a mod 4096 = 0"
    by (simp add: word_unat_eq_iff unat_mod)
  then show ?thesis
    by (simp add: is_multiple_of_def PAGE_SIZE_def mod_eq_0_iff_dvd)
qed

lemma stable_of_inv: "alloc_inv s \<Longrightarrow> stable_entries (entries s)"
  by (simp add: alloc_inv_def stable_entries_def)

text \<open>The part that \<open>AllocateAnyPages\<close> and \<open>AllocateMaxAddress\<close> share.\<close>

definition allocate_below ::
  "memory_allocator \<Rightarrow> memory_type \<Rightarrow> u64 \<Rightarrow> u64 \<Rightarrow> u64 \<Rightarrow>
     (memory_allocator \<times> efi_status \<times> u64) may_panic" where
  "allocate_below s t num_pages limit memory =
     (case find_free_pages s num_pages limit of
        None \<Rightarrow> Some (s, OUT_OF_RESOURCES, memory)
      | Some addr \<Rightarrow>
          map_option (\<lambda>(s', r). case r of Ok _ \<Rightarrow> (s', SUCCESS, addr)
                                        | Err status \<Rightarrow> (s', status, memory))
            (carve_out s addr num_pages t))"

lemma carve_out_overflow:
  assumes "2 ^ 64 \<le> unat addr + 4096 * unat num_pages"
  shows "carve_out s addr num_pages t = Some (s, Err INVALID_PARAMETER)"
proof (cases "checked_mul num_pages PAGE_SIZE")
  case None
  then show ?thesis by (simp add: carve_out_def)
next
  case (Some sz)
  then have "checked_add addr sz = None"
    using assms by (simp add: checked_mul_Some_iff checked_add_None_iff)
  with Some show ?thesis by (simp add: carve_out_def)
qed

lemma allocate_below_cases:
  assumes inv: "alloc_inv s" and np: "num_pages \<noteq> 0"
  obtains (err) e where "allocate_below s t num_pages limit memory = Some (s, e, memory)" "e \<noteq> SUCCESS"
  | (ok) s' addr where "allocate_below s t num_pages limit memory = Some (s', SUCCESS, addr)"
      "alloc_inv s'" "carve_spec s addr num_pages t s'" "request_fits s addr num_pages limit"
proof (cases "find_free_pages s num_pages limit")
  case None
  then show ?thesis
    using err by (simp add: allocate_below_def)
next
  case (Some addr)
  have wf: "alloc_wf s"
    using inv by (rule alloc_invD)
  consider "request_fits s addr num_pages limit" | "2 ^ 64 \<le> unat addr + 4096 * unat num_pages"
    using find_free_pages_sound [OF wf Some] by blast
  then show ?thesis
  proof cases
    case 1
    then have al: "4096 dvd unat addr"
      by (simp add: request_fits_def)
    show ?thesis
    proof (cases rule: carve_out_cases [OF wf stable_of_inv [OF inv] al np, where t = t])
      case (1 e)
      then show ?thesis
        using Some err [of e] by (auto simp: allocate_below_def)
    next
      case (2 s')
      then show ?thesis
        using Some ok \<open>request_fits s addr num_pages limit\<close> by (simp add: allocate_below_def)
    qed
  next
    case 2
    then show ?thesis
      using Some err [of INVALID_PARAMETER] by (simp add: allocate_below_def carve_out_overflow)
  qed
qed

lemma allocate_pages_guards:
  assumes "num_pages = 0 \<or> boot_services_exited s \<or> checked_mul num_pages PAGE_SIZE = None"
  shows "\<exists>e. allocate_pages s ty t num_pages memory = Some (s, e, memory) \<and> e \<noteq> SUCCESS"
  using assms by (auto simp: allocate_pages_def split: option.splits)

lemma allocate_pages_below:
  assumes "num_pages \<noteq> 0" and "\<not> boot_services_exited s" and "checked_mul num_pages PAGE_SIZE = Some sz"
  shows "allocate_pages s AllocateAnyPages t num_pages memory =
      allocate_below s t num_pages (- 1) memory"
    and "allocate_pages s AllocateMaxAddress t num_pages memory =
      allocate_below s t num_pages memory memory"
  using assms by (simp_all add: allocate_pages_def allocate_below_def)

text \<open>What a successful allocation promises, for each kind of request.\<close>

definition allocated_spec ::
  "memory_allocator \<Rightarrow> allocate_type \<Rightarrow> memory_type \<Rightarrow> u64 \<Rightarrow> u64 \<Rightarrow> memory_allocator \<Rightarrow> u64 \<Rightarrow> bool" where
  "allocated_spec s ty t num_pages memory s' addr \<longleftrightarrow>
     (case ty of
        AllocateAnyPages \<Rightarrow>
          carve_spec s addr num_pages t s' \<and> request_fits s addr num_pages (- 1)
      | AllocateMaxAddress \<Rightarrow>
          carve_spec s addr num_pages t s' \<and> request_fits s addr num_pages memory
      | AllocateAddress \<Rightarrow>
          addr = memory \<and> 4096 dvd unat addr \<and>
          (carve_spec s addr num_pages t s' \<or> realloc_spec s addr num_pages t s'))"

lemma allocate_pages_cases:
  assumes inv: "alloc_inv s"
  obtains (err) e where "allocate_pages s ty t num_pages memory = Some (s, e, memory)" "e \<noteq> SUCCESS"
  | (ok) s' addr where "allocate_pages s ty t num_pages memory = Some (s', SUCCESS, addr)"
      "alloc_inv s'" "allocated_spec s ty t num_pages memory s' addr"
proof (cases "num_pages = 0 \<or> boot_services_exited s \<or> checked_mul num_pages PAGE_SIZE = None")
  case True
  then show ?thesis
    using allocate_pages_guards err by blast
next
  case False
  then obtain sz where g: "num_pages \<noteq> 0" "\<not> boot_services_exited s"
      "checked_mul num_pages PAGE_SIZE = Some sz"
    by auto
  show ?thesis
  proof (cases ty)
    case AllocateAnyPages
    then show ?thesis
      using allocate_pages_below(1) [OF g] err ok
      by (cases rule: allocate_below_cases [OF inv g(1), where t = t and limit = "- 1" and memory = memory])
        (auto simp: allocated_spec_def)
  next
    case AllocateMaxAddress
    then show ?thesis
      using allocate_pages_below(2) [OF g] err ok
      by (cases rule: allocate_below_cases [OF inv g(1), where t = t and limit = memory and memory = memory])
        (auto simp: allocated_spec_def)
  next
    case AllocateAddress
    show ?thesis
    proof (cases "is_multiple_of memory PAGE_SIZE")
      case False
      then show ?thesis
        using AllocateAddress g err [of INVALID_PARAMETER] by (simp add: allocate_pages_def)
    next
      case True
      then have al: "4096 dvd unat memory"
        by (simp add: is_multiple_of_PAGE_SIZE)
      show ?thesis
      proof (cases "is_region_free s memory sz")
        case free: True
        show ?thesis
          using AllocateAddress g True free al err ok
          by (cases rule: carve_out_cases [OF alloc_invD [OF inv] stable_of_inv [OF inv] al g(1), where t = t])
            (auto simp: allocate_pages_def allocated_spec_def)
      next
        case busy: False
        show ?thesis
          using AllocateAddress g True busy al err ok
          by (cases rule: try_reallocate_cases [OF inv al g(1), where t = t])
            (auto simp: allocate_pages_def allocated_spec_def)
      qed
    qed
  qed
qed

section \<open>Importing the coreboot map\<close>

definition region_ok :: "memory_region \<Rightarrow> bool" where
  "region_ok r \<longleftrightarrow> 4096 dvd unat (region_start r) \<and> 4096 dvd unat (region_size r) \<and>
     region_size r \<noteq> 0 \<and> unat (region_start r) + unat (region_size r) < 2 ^ 64"

definition regions_apart :: "memory_region \<Rightarrow> memory_region \<Rightarrow> bool" where
  "regions_apart r q \<longleftrightarrow> \<not> region_overlaps r q"

definition region_desc :: "memory_region \<Rightarrow> memory_descriptor" where
  "region_desc r =
     new_descriptor (cb_to_efi_memory_type (region_type r)) (region_start r)
       (region_size r div PAGE_SIZE) (default_attribute (cb_to_efi_memory_type (region_type r)))"

lemma unat_region_end: "region_ok r \<Longrightarrow> unat (region_end r) = unat (region_start r) + unat (region_size r)"
  using unat_add_lem [of "region_start r" "region_size r"] by (simp add: region_end_def region_ok_def)

lemma import_region_ok:
  assumes "region_ok r" and "length es < MAX_MEMORY_ENTRIES"
  shows "import_region es r = es @ [region_desc r]"
proof -
  have dv: "4096 dvd unat (region_size r)" and lt: "unat (region_size r) < 2 ^ 64"
    using assms(1) by (simp_all add: region_ok_def)
  then have "unat (region_size r) \<le> 2 ^ 64 - 4096"
    by auto
  then have "unat (region_size r) + unat (PAGE_SIZE - 1) < 2 ^ 64"
    by (simp add: PAGE_SIZE_def)
  then obtain x where x: "checked_add (region_size r) (PAGE_SIZE - 1) = Some x"
    and ux: "unat x = unat (region_size r) + 4095"
    by (cases "checked_add (region_size r) (PAGE_SIZE - 1)")
      (auto simp: checked_add_None_iff checked_add_Some_iff PAGE_SIZE_def)
  have "unat (x div PAGE_SIZE) = unat (region_size r div PAGE_SIZE)"
    using dv by (auto simp: unat_div_eq ux)
  then have "x div PAGE_SIZE = region_size r div PAGE_SIZE"
    by (simp add: word_unat_eq_iff)
  then show ?thesis
    using x assms(2) by (simp add: import_region_def region_desc_def Let_def)
qed

lemma import_regions:
  assumes "\<forall>r \<in> set regions. region_ok r" and "length es + length regions \<le> MAX_MEMORY_ENTRIES"
  shows "foldl import_region es regions = es @ map region_desc regions"
  using assms by (induction regions arbitrary: es) (auto simp: import_region_ok)

lemma region_desc_bounds:
  assumes "region_ok r"
  shows "wf_desc (region_desc r)" "lo (region_desc r) = unat (region_start r)"
    "hi (region_desc r) = unat (region_end r)"
proof -
  have "4096 * unat (region_size r div PAGE_SIZE) = unat (region_size r)"
    using assms by (simp add: region_ok_def word_nat)
  then show lo: "lo (region_desc r) = unat (region_start r)"
    and hi: "hi (region_desc r) = unat (region_end r)"
    using assms by (simp_all add: region_desc_def lo_def hi_def unat_region_end)
  have "region_size r div PAGE_SIZE \<noteq> 0"
    using \<open>4096 * unat (region_size r div PAGE_SIZE) = unat (region_size r)\<close> assms
    by (auto simp: region_ok_def unat_eq_zero)
  then show "wf_desc (region_desc r)"
    using assms lo hi by (simp add: wf_desc_def region_ok_def region_desc_def unat_region_end word_gt_0)
qed

lemma region_desc_covers: "region_ok r \<Longrightarrow> covers (region_desc r) a \<longleftrightarrow> region_contains r a"
  using region_desc_bounds [of r] by (simp add: covers_iff region_contains_def word_nat)

lemma regions_apart_desc:
  "region_ok r \<Longrightarrow> region_ok q \<Longrightarrow> regions_apart r q \<Longrightarrow> apart (region_desc r) (region_desc q)"
  using region_desc_bounds [of r] region_desc_bounds [of q]
  by (auto simp: regions_apart_def region_overlaps_def apart_def before_desc_def word_nat)

lemma init_from_coreboot_effect:
  assumes ok: "\<forall>r \<in> set regions. region_ok r" and apart: "sorted_wrt regions_apart regions"
    and len: "length regions \<le> MAX_MEMORY_ENTRIES"
  shows "alloc_inv (init_from_coreboot s regions)"
    and "alloc_map (init_from_coreboot s regions) a =
      map_option (\<lambda>r. (as_u32 (cb_to_efi_memory_type (region_type r)),
                       default_attribute (cb_to_efi_memory_type (region_type r))))
        (find (\<lambda>r. region_contains r a) regions)"
proof -
  let ?ds = "map region_desc regions"
  have ds: "foldl import_region [] regions = ?ds"
    using import_regions [of regions "[]"] ok len by simp
  have "sorted_wrt Memory_Map.apart ?ds"
    using apart ok by (auto simp: sorted_wrt_map intro: regions_apart_desc sorted_wrt_mono_rel [rotated])
  then have mm: "memory_map (sort_entries ?ds)"
    using ok by (intro sort_memory_map) (auto simp: region_desc_bounds)
  have "length (merge_entries (sort_entries ?ds)) \<le> MAX_MEMORY_ENTRIES"
    using merge_entries_length [of "sort_entries ?ds"] len by simp
  then show "alloc_inv (init_from_coreboot s regions)"
    using mm by (simp add: init_from_coreboot_def ds alloc_inv_def alloc_wf_def
        merge_entries_memory_map merge_entries_merged)
  show "alloc_map (init_from_coreboot s regions) a =
      map_option (\<lambda>r. (as_u32 (cb_to_efi_memory_type (region_type r)),
                       default_attribute (cb_to_efi_memory_type (region_type r))))
        (find (\<lambda>r. region_contains r a) regions)"
  proof (cases "find (\<lambda>r. region_contains r a) regions")
    case None
    then have "region_at (sort_entries ?ds) a = None"
      using ok by (auto simp: region_at_None_iff find_None_iff_all region_desc_covers)
    then show ?thesis
      using None by (simp add: init_from_coreboot_def ds alloc_map_def merge_entries_region_at [OF mm])
  next
    case (Some r)
    then have r: "r \<in> set regions" "region_contains r a"
      by (auto dest: find_SomeD)
    then have "region_at (sort_entries ?ds) a = Some (memory_type (region_desc r), attribute (region_desc r))"
      using ok by (intro region_at_SomeI [OF mm]) (auto simp: region_desc_covers)
    then show ?thesis
      using Some by (simp add: init_from_coreboot_def ds alloc_map_def merge_entries_region_at [OF mm]
          region_desc_def)
  qed
qed

section \<open>Marking ACPI tables\<close>

lemma push_all_room:
  "length es + length ds \<le> MAX_MEMORY_ENTRIES \<Longrightarrow> push_all es ds = (True, es @ ds)"
  by (induction ds arbitrary: es) (auto simp: vec_push_def)

text \<open>
  With two free slots the call never runs out of room: it either refuses a range that straddles
  existing entries, or the map afterwards has the range as ACPI memory (reclaimable, unless it
  already was non-volatile storage) and nothing else has changed.
\<close>

definition acpi_effect :: "u32 \<times> u64 \<Rightarrow> u32 \<times> u64" where
  "acpi_effect = (\<lambda>(t, attr).
     (if t = as_u32 AcpiMemoryNvs then t else as_u32 AcpiReclaimMemory, attr))"

lemma vec_push_new_region:
  fixes t :: memory_type and attr :: u64
  assumes wf: "alloc_wf s" and al: "4096 dvd unat addr" and np: "num_pages \<noteq> 0"
    and en: "unat end_addr = unat addr + 4096 * unat num_pages"
    and free: "\<forall>e \<in> set (entries s). \<not> (addr < desc_end e \<and> end_addr > physical_start e)"
  defines "d \<equiv> new_descriptor t addr num_pages attr"
  shows "memory_map (sort_entries (entries s @ [d]))"
    and "region_at (sort_entries (entries s @ [d])) a =
      (if a \<in> page_range addr num_pages then Some (as_u32 t, attr) else alloc_map s a)"
proof -
  have lo: "lo d = unat addr" and hi: "hi d = unat end_addr"
    using en by (simp_all add: d_def lo_def hi_def)
  have wfd: "wf_desc d"
    using al np hi lo unat_u64_bound [of end_addr] by (simp add: wf_desc_def d_def word_nat)
  have mm: "memory_map (entries s)"
    using wf by (simp add: alloc_wf_def)
  have ap: "apart e d" if "e \<in> set (entries s)" for e
  proof -
    have "wf_desc e"
      using mm that by (simp add: memory_map_def)
    then show ?thesis
      using free that wf_desc_hi [of e] lo hi
      by (auto simp: apart_def before_desc_def lo_def [of e] word_nat not_less)
  qed
  show mm': "memory_map (sort_entries (entries s @ [d]))"
  proof (rule sort_memory_map)
    show "\<forall>e \<in> set (entries s @ [d]). wf_desc e"
      using mm wfd by (simp add: memory_map_def)
    show "sorted_wrt apart (entries s @ [d])"
      using ap mm by (simp add: sorted_wrt_append sorted_wrt_before_apart memory_map_def)
  qed
  have cov: "covers d a \<longleftrightarrow> a \<in> page_range addr num_pages"
    using covers_page_range [OF wfd] by (simp add: d_def)
  show "region_at (sort_entries (entries s @ [d])) a =
      (if a \<in> page_range addr num_pages then Some (as_u32 t, attr) else alloc_map s a)"
  proof (cases "a \<in> page_range addr num_pages")
    case True
    then show ?thesis
      using region_at_SomeI [OF mm', of d a] cov by (simp add: d_def)
  next
    case False
    then have "region_at (sort_entries (entries s @ [d])) a = region_at (entries s) a"
      using cov by (intro region_at_cong [OF mm mm']) auto
    with False show ?thesis
      by (simp add: alloc_map_def)
  qed
qed

lemma mark_as_acpi_reclaim_cases:
  assumes wf: "alloc_wf s" and room: "length (entries s) + 2 \<le> MAX_MEMORY_ENTRIES"
    and al: "4096 dvd unat addr" and np: "num_pages \<noteq> 0"
  obtains (err) "mark_as_acpi_reclaim s addr num_pages = Some (s, Err INVALID_PARAMETER)"
  | (fresh) s' where "mark_as_acpi_reclaim s addr num_pages = Some (s', Ok ())" "alloc_wf s'"
      "\<forall>a \<in> page_range addr num_pages. alloc_map s a = None"
      "alloc_map s' = (\<lambda>a. if a \<in> page_range addr num_pages
         then Some (as_u32 AcpiReclaimMemory, EFI_MEMORY_WB) else alloc_map s a)"
  | (ok) s' where "mark_as_acpi_reclaim s addr num_pages = Some (s', Ok ())" "alloc_wf s'"
      "\<forall>a \<in> page_range addr num_pages. alloc_map s a \<noteq> None"
      "alloc_map s' = retype (page_range addr num_pages) acpi_effect (alloc_map s)"
proof (cases "checked_mul num_pages PAGE_SIZE")
  case None
  then show ?thesis
    using err by (simp add: mark_as_acpi_reclaim_def)
next
  case (Some sz)
  note sz = this
  show ?thesis
  proof (cases "checked_add addr sz")
    case None
    with sz show ?thesis
      using err by (simp add: mark_as_acpi_reclaim_def)
  next
    case (Some end_addr)
    note en = this
    let ?es = "entries s"
    let ?P = "\<lambda>entry. physical_start entry \<le> addr \<and> desc_end entry \<ge> end_addr"
    have e: "unat end_addr = unat addr + 4096 * unat num_pages"
      using range_end [OF sz en] .
    have mm: "memory_map ?es"
      using wf by (simp add: alloc_wf_def)
    show ?thesis
    proof (cases "position ?P ?es")
      case None
      show ?thesis
      proof (cases "\<exists>d \<in> set ?es. addr < desc_end d \<and> end_addr > physical_start d")
        case True
        with None sz en show ?thesis
          using err by (simp add: mark_as_acpi_reclaim_def)
      next
        case False
        let ?d = "new_descriptor AcpiReclaimMemory addr num_pages EFI_MEMORY_WB"
        let ?s' = "s\<lparr>entries := sort_entries (?es @ [?d]), map_key := map_key s + 1\<rparr>"
        note new = vec_push_new_region [OF wf al np e, where t = AcpiReclaimMemory and attr = EFI_MEMORY_WB]
        have fr: "\<forall>d \<in> set ?es. \<not> (addr < desc_end d \<and> end_addr > physical_start d)"
          using False by blast
        have "mark_as_acpi_reclaim s addr num_pages = Some (?s', Ok ())"
          using None False sz en room by (simp add: mark_as_acpi_reclaim_def vec_push_def)
        moreover have "alloc_wf ?s'"
          using new(1) [OF fr] room by (simp add: alloc_wf_def)
        moreover have "\<forall>a \<in> page_range addr num_pages. alloc_map s a = None"
          using fr mm wf_desc_hi
          by (fastforce simp: alloc_map_def region_at_None_iff page_range_def covers_def e word_nat memory_map_def)
        moreover have "alloc_map ?s' = (\<lambda>a. if a \<in> page_range addr num_pages
            then Some (as_u32 AcpiReclaimMemory, EFI_MEMORY_WB) else alloc_map s a)"
          using new(2) [OF fr] by (simp add: alloc_map_def fun_eq_iff)
        ultimately show ?thesis
          using fresh by blast
      qed
    next
      case (Some idx)
      have idx: "idx < length ?es" and P: "?P (?es ! idx)"
        using position_SomeD [OF Some] by auto
      have "wf_desc (?es ! idx)"
        using mm idx by (simp add: memory_map_def)
      then obtain u where u: "get_memory_type (?es ! idx) = Some u"
        by (auto simp: wf_desc_def get_memory_type_def)
      have split: "split_at (?es ! idx) u addr num_pages end_addr"
        using found_entry_split_at [OF mm idx u _ _ sz en al np] P by blast
      note eff = split_entry_effect(1-3) [OF mm idx split, where t' = AcpiReclaimMemory and attr' = "attribute (?es ! idx)"]
        and was = split_entry_effect(4) [OF mm idx split]
      have def: "\<forall>a \<in> page_range addr num_pages. alloc_map s a \<noteq> None"
        using was by (simp add: alloc_map_def)
      show ?thesis
      proof (cases "u = AcpiReclaimMemory \<or> u = AcpiMemoryNvs")
        case True
        have "mark_as_acpi_reclaim s addr num_pages = Some (s, Ok ())"
          using sz en Some u True by (auto simp: mark_as_acpi_reclaim_def)
        moreover have "alloc_map s = retype (page_range addr num_pages) acpi_effect (alloc_map s)"
          using was True by (auto simp: retype_def acpi_effect_def alloc_map_def fun_eq_iff)
        ultimately show ?thesis
          using ok wf def by blast
      next
        case False
        let ?ps = "split_pieces (?es ! idx) u AcpiReclaimMemory addr num_pages (attribute (?es ! idx)) end_addr"
        let ?s' = "s\<lparr>entries := sort_entries ((take idx ?es @ drop (Suc idx) ?es) @ ?ps),
          map_key := map_key s + 1\<rparr>"
        have len: "length (take idx ?es @ drop (Suc idx) ?es) + length ?ps \<le> MAX_MEMORY_ENTRIES"
          using idx room length_split_pieces_le [of "?es ! idx" u AcpiReclaimMemory addr num_pages
              "attribute (?es ! idx)" end_addr] by simp
        have "mark_as_acpi_reclaim s addr num_pages = Some (?s', Ok ())"
          using sz en Some u False idx push_all_room [OF len]
          by (simp add: mark_as_acpi_reclaim_def Let_def vec_remove_def split_pieces_def)
        moreover have "alloc_wf ?s'"
          using eff(1) len by (simp add: alloc_wf_def)
        moreover have "alloc_map ?s' = retype (page_range addr num_pages) acpi_effect (alloc_map s)"
          using eff(2,3) was False by (auto simp: retype_def acpi_effect_def alloc_map_def fun_eq_iff)
        ultimately show ?thesis
          using ok def by blast
      qed
    qed
  qed
qed

end
