(* ===== verification/Pool.thy ===== *)
theory Pool
  imports Allocator_Correct
begin

text \<open>
  The pool: \<open>allocate_pool\<close> and \<open>free_pool\<close> of \<open>src/src/efi/allocator.rs\<close>.

  A pool allocation is a run of pages that starts with a sixteen-byte header holding the page count
  and a magic number. The two operations use the page allocator only through \<open>allocate_pages\<close> and
  \<open>free_pages\<close>; the locale \<open>page_provider\<close> states what they rely on, the pool's lemmas are proved
  once inside it, and the interpretation at the end discharges the laws for the allocator's model.
\<close>

section \<open>Operations\<close>

definition POOL_HEADER_SIZE :: nat where
  "POOL_HEADER_SIZE = 16"

definition POOL_MAGIC :: u64 where
  "POOL_MAGIC = 0x504F4F4C48445200"

text \<open>\<open>PoolHeader\<close> is \<open>repr(C)\<close>: the page count at offset 0, the magic at offset 8.\<close>

definition write_pool_header :: "memory \<Rightarrow> u64 \<Rightarrow> u64 \<Rightarrow> memory" where
  "write_pool_header m header num_pages = write_u64 (write_u64 m header num_pages) (header + 8) POOL_MAGIC"

definition pool_pages :: "usize \<Rightarrow> u64 option" where
  "pool_pages sz =
     (case checked_add sz (of_nat POOL_HEADER_SIZE) of
        None \<Rightarrow> None
      | Some total_size \<Rightarrow>
          (case checked_add total_size (PAGE_SIZE - 1) of
             None \<Rightarrow> None
           | Some rounded \<Rightarrow> Some (rounded div PAGE_SIZE)))"

definition allocate_pool_with ::
  "('s \<Rightarrow> memory_type \<Rightarrow> u64 \<Rightarrow> ('s \<times> efi_status \<times> u64) may_panic) \<Rightarrow>
   's \<Rightarrow> memory \<Rightarrow> memory_type \<Rightarrow> usize \<Rightarrow> ('s \<times> memory \<times> u64 efi_result) may_panic" where
  "allocate_pool_with alloc s m t sz =
     (if sz = 0 then Some (s, m, Err INVALID_PARAMETER)
      else
        (case pool_pages sz of
           None \<Rightarrow> Some (s, m, Err OUT_OF_RESOURCES)
         | Some num_pages \<Rightarrow>
             (case alloc s t num_pages of
                None \<Rightarrow> None
              | Some (s', status, addr) \<Rightarrow>
                  if status \<noteq> SUCCESS then Some (s', m, Err status)
                  else Some (s', write_pool_header m addr num_pages,
                             Ok (addr + of_nat POOL_HEADER_SIZE)))))"

definition free_pool_with ::
  "('s \<Rightarrow> u64 \<Rightarrow> u64 \<Rightarrow> 's \<times> efi_status) \<Rightarrow> 's \<Rightarrow> memory \<Rightarrow> u64 \<Rightarrow> 's \<times> efi_status" where
  "free_pool_with release s m buffer =
     (if buffer = 0 then (s, INVALID_PARAMETER)
      else
        (let header = buffer - of_nat POOL_HEADER_SIZE
         in if read_u64 m (header + 8) \<noteq> POOL_MAGIC then (s, INVALID_PARAMETER)
            else release s header (read_u64 m header)))"

definition allocate_pool ::
  "memory_allocator \<Rightarrow> memory \<Rightarrow> memory_type \<Rightarrow> usize \<Rightarrow>
     (memory_allocator \<times> memory \<times> u64 efi_result) may_panic" where
  "allocate_pool =
     allocate_pool_with (\<lambda>s t num_pages. allocate_pages s AllocateAnyPages t num_pages 0)"

definition free_pool :: "memory_allocator \<Rightarrow> memory \<Rightarrow> u64 \<Rightarrow> memory_allocator \<times> efi_status" where
  "free_pool = free_pool_with free_pages"

section \<open>The header\<close>

lemma pool_pages_SomeD:
  assumes "pool_pages sz = Some n"
  shows "n \<noteq> 0" and "unat sz + POOL_HEADER_SIZE \<le> 4096 * unat n"
    and "4096 * unat n < unat sz + POOL_HEADER_SIZE + 4096"
proof -
  obtain total rounded where t: "checked_add sz (of_nat POOL_HEADER_SIZE) = Some total"
    and r: "checked_add total (PAGE_SIZE - 1) = Some rounded" and n: "n = rounded div PAGE_SIZE"
    using assms by (auto simp: pool_pages_def split: option.splits)
  have "unat rounded = unat sz + POOL_HEADER_SIZE + 4095"
    using t r by (simp add: checked_add_Some_iff POOL_HEADER_SIZE_def PAGE_SIZE_def)
  then have un: "unat n = (unat sz + POOL_HEADER_SIZE + 4095) div 4096"
    by (simp add: n unat_div_eq)
  then show "unat sz + POOL_HEADER_SIZE \<le> 4096 * unat n"
    and "4096 * unat n < unat sz + POOL_HEADER_SIZE + 4096"
    by linarith+
  then show "n \<noteq> 0"
    by (auto simp: POOL_HEADER_SIZE_def)
qed

lemma offset_diff_unat: "i < 2 ^ 64 \<Longrightarrow> unat ((a + of_nat i) - a) = i" for a :: u64
  by (simp add: unat_of_nat)

lemma write_u64_below: "i < 8 \<Longrightarrow> write_u64 m (a + 8) v (a + of_nat i) = m (a + of_nat i)" for a :: u64
proof (rule write_u64_outside)
  assume "i < 8"
  then have "unat (of_nat i - 8 :: u64) = 2 ^ 64 + i - 8"
    by (simp add: unat_sub_if' unat_of_nat)
  then show "8 \<le> unat (a + of_nat i - (a + 8))"
    by (simp add: algebra_simps)
qed

lemma pool_header_num_pages: "read_u64 (write_pool_header m h n) h = n"
proof -
  have "read_u64 (write_pool_header m h n) h = read_u64 (write_u64 m h n) h"
    unfolding write_pool_header_def by (intro read_u64_cong write_u64_below)
  then show ?thesis by simp
qed

lemma pool_header_magic: "read_u64 (write_pool_header m h n) (h + 8) = POOL_MAGIC"
  by (simp add: write_pool_header_def)

lemma write_pool_header_outside:
  assumes "POOL_HEADER_SIZE \<le> unat (x - h)"
  shows "write_pool_header m h n x = m x"
proof -
  have "8 \<le> x - h"
    using assms by (simp add: POOL_HEADER_SIZE_def word_le_nat_alt)
  then have "unat (x - h - 8) = unat (x - h) - 8"
    by (simp add: unat_sub_le)
  then have "unat (x - (h + 8)) = unat (x - h) - 8"
    by (simp only: diff_diff_eq)
  then show ?thesis
    using assms by (simp add: write_pool_header_def write_u64_outside POOL_HEADER_SIZE_def)
qed

lemma read_pool_header_cong:
  assumes "\<And>i. i < POOL_HEADER_SIZE \<Longrightarrow> m (h + of_nat i) = m' (h + of_nat i)"
  shows "read_u64 m h = read_u64 m' h" "read_u64 m (h + 8) = read_u64 m' (h + 8)"
proof -
  show "read_u64 m h = read_u64 m' h"
    using assms by (intro read_u64_cong) (simp add: POOL_HEADER_SIZE_def)
  have "m (h + 8 + of_nat i) = m' (h + 8 + of_nat i)" if "i < 8" for i
    using assms [of "8 + i"] that by (simp add: POOL_HEADER_SIZE_def add.assoc)
  then show "read_u64 m (h + 8) = read_u64 m' (h + 8)"
    by (rule read_u64_cong)
qed

section \<open>What the pool relies on\<close>

locale page_provider =
  fixes ok :: "'s \<Rightarrow> bool"
    and alloc :: "'s \<Rightarrow> memory_type \<Rightarrow> u64 \<Rightarrow> ('s \<times> efi_status \<times> u64) may_panic"
    and release :: "'s \<Rightarrow> u64 \<Rightarrow> u64 \<Rightarrow> 's \<times> efi_status"
    and view :: "'s \<Rightarrow> u64 \<Rightarrow> (u32 \<times> u64) option"
  assumes alloc_total: "ok s \<Longrightarrow> \<exists>s' st a. alloc s t n = Some (s', st, a)"
    and alloc_failed: "ok s \<Longrightarrow> alloc s t n = Some (s', st, a) \<Longrightarrow> st \<noteq> SUCCESS \<Longrightarrow> s' = s"
    and alloc_ok: "ok s \<Longrightarrow> alloc s t n = Some (s', SUCCESS, a) \<Longrightarrow> ok s'"
    and alloc_range: "ok s \<Longrightarrow> alloc s t n = Some (s', SUCCESS, a) \<Longrightarrow>
      4096 dvd unat a \<and> unat a + 4096 * unat n < 2 ^ 64 \<and>
      (\<forall>x \<in> page_range a n. \<exists>attr. view s x = Some (as_u32 ConventionalMemory, attr)) \<and>
      view s' = retype (page_range a n) (\<lambda>(_, attr). (as_u32 t, runtime_attribute t attr)) (view s)"
    and release_ok: "ok s \<Longrightarrow> release s a n = (s', st) \<Longrightarrow> ok s'"
    and release_failed: "ok s \<Longrightarrow> release s a n = (s', st) \<Longrightarrow> st \<noteq> SUCCESS \<Longrightarrow> s' = s"
begin

lemma pool_total:
  assumes "ok s"
  shows "\<exists>s' m' r. allocate_pool_with alloc s m t sz = Some (s', m', r) \<and> ok s' \<and>
    (\<forall>e. r = Err e \<longrightarrow> s' = s \<and> m' = m)"
proof (cases "sz = 0 \<or> pool_pages sz = None")
  case True
  then show ?thesis
    using assms by (auto simp: allocate_pool_with_def)
next
  case False
  then obtain n where n: "pool_pages sz = Some n"
    by auto
  obtain s' st a where a: "alloc s t n = Some (s', st, a)"
    using alloc_total [OF assms] by blast
  show ?thesis
  proof (cases "st = SUCCESS")
    case True
    then show ?thesis
      using False n a alloc_ok [OF assms, of t n s' a] by (simp add: allocate_pool_with_def)
  next
    case f: False
    then show ?thesis
      using False n a assms alloc_failed [OF assms a f] by (simp add: allocate_pool_with_def)
  qed
qed

lemma pool_success:
  assumes "ok s" and "allocate_pool_with alloc s m t sz = Some (s', m', Ok data)"
  obtains n where "pool_pages sz = Some n" and "alloc s t n = Some (s', SUCCESS, data - 16)"
    and "m' = write_pool_header m (data - 16) n"
proof -
  have "sz \<noteq> 0"
    using assms(2) by (auto simp: allocate_pool_with_def)
  moreover obtain n where n: "pool_pages sz = Some n"
    using assms(2) calculation by (auto simp: allocate_pool_with_def split: option.splits)
  moreover obtain s1 st a where a: "alloc s t n = Some (s1, st, a)"
    using alloc_total [OF assms(1)] by blast
  ultimately have "st = SUCCESS" "s1 = s'" "m' = write_pool_header m a n" "data = a + 16"
    using assms(2) by (auto simp: allocate_pool_with_def POOL_HEADER_SIZE_def split: if_splits)
  then show thesis
    using that [OF n] a by simp
qed

lemma pool_release:
  assumes "ok s" and "allocate_pool_with alloc s m t sz = Some (s', m', Ok data)"
    and "\<And>i. i < POOL_HEADER_SIZE \<Longrightarrow> m'' (data - 16 + of_nat i) = m' (data - 16 + of_nat i)"
  shows "\<exists>n. pool_pages sz = Some n \<and> alloc s t n = Some (s', SUCCESS, data - 16) \<and>
    free_pool_with release s1 m'' data = release s1 (data - 16) n"
proof -
  obtain n where n: "pool_pages sz = Some n" and a: "alloc s t n = Some (s', SUCCESS, data - 16)"
    and m': "m' = write_pool_header m (data - 16) n"
    by (rule pool_success [OF assms(1,2)])
  have r: "unat (data - 16) + 4096 * unat n < 2 ^ 64"
    using alloc_range [OF assms(1) a] by blast
  have "data \<noteq> 0"
  proof
    assume "data = 0"
    then show False
      using r pool_pages_SomeD(1) [OF n] by (simp add: unat_eq_zero)
  qed
  moreover have "read_u64 m'' (data - 16) = n" "read_u64 m'' (data - 16 + 8) = POOL_MAGIC"
    using read_pool_header_cong [of m'' "data - 16" m'] assms(3) m'
    by (simp_all only: pool_header_num_pages pool_header_magic)
  ultimately have "free_pool_with release s1 m'' data = release s1 (data - 16) n"
    by (simp add: free_pool_with_def Let_def POOL_HEADER_SIZE_def)
  with n a show ?thesis by blast
qed

end

text \<open>The page allocator provides what the pool relies on.\<close>

interpretation pages: page_provider alloc_inv
  "\<lambda>s t num_pages. allocate_pages s AllocateAnyPages t num_pages 0" free_pages alloc_map
proof unfold_locales
  fix s t n
  assume inv: "alloc_inv s"
  show "\<exists>s' st a. allocate_pages s AllocateAnyPages t n 0 = Some (s', st, a)"
    by (cases rule: allocate_pages_cases [OF inv, of AllocateAnyPages t n 0]) auto
  fix s' st a
  show "s' = s" if "allocate_pages s AllocateAnyPages t n 0 = Some (s', st, a)" "st \<noteq> SUCCESS"
    using that by (cases rule: allocate_pages_cases [OF inv, of AllocateAnyPages t n 0]) auto
  show "alloc_inv s'" if "allocate_pages s AllocateAnyPages t n 0 = Some (s', SUCCESS, a)"
    using that by (cases rule: allocate_pages_cases [OF inv, of AllocateAnyPages t n 0]) auto
  show "4096 dvd unat a \<and> unat a + 4096 * unat n < 2 ^ 64 \<and>
      (\<forall>x \<in> page_range a n. \<exists>attr. alloc_map s x = Some (as_u32 ConventionalMemory, attr)) \<and>
      alloc_map s' = retype (page_range a n) (\<lambda>(_, attr). (as_u32 t, runtime_attribute t attr)) (alloc_map s)"
    if "allocate_pages s AllocateAnyPages t n 0 = Some (s', SUCCESS, a)"
    using that
    by (cases rule: allocate_pages_cases [OF inv, of AllocateAnyPages t n 0])
      (auto simp: allocated_spec_def carve_spec_def request_fits_def MAX_IDENTITY_MAPPED_ADDRESS_def)
next
  fix s a n s' st
  assume inv: "alloc_inv s" and f: "free_pages s a n = (s', st)"
  show "alloc_inv s'"
    using f inv by (cases rule: free_pages_cases [OF alloc_invD [OF inv], of a n]) auto
  show "s' = s" if "st \<noteq> SUCCESS"
    using f that by (cases rule: free_pages_cases [OF alloc_invD [OF inv], of a n]) auto
qed

end
