(* ===== verification/Allocator_Steps.thy ===== *)
theory Allocator_Steps
  imports Pool
begin

text \<open>
  The page allocator as a state machine: the calls that boot services make on it, in any order and
  with any arguments, starting from any map that satisfies the invariant. \<open>alloc_reachable s0 s\<close>
  holds when \<open>s\<close> is reached from \<open>s0\<close>.
\<close>

inductive alloc_step :: "memory_allocator \<Rightarrow> memory_allocator \<Rightarrow> bool" where
  step_allocate: "allocate_pages s ty t n memory = Some (s', status, memory') \<Longrightarrow> alloc_step s s'"
| step_free: "free_pages s memory n = (s', status) \<Longrightarrow> alloc_step s s'"
| step_reserve: "4096 dvd unat start \<Longrightarrow> n \<noteq> 0 \<Longrightarrow> reserve_region s start n t = Some (s', r) \<Longrightarrow>
    alloc_step s s'"
| step_exit: "exit_boot_services s key = (s', status) \<Longrightarrow> alloc_step s s'"

inductive alloc_reachable :: "memory_allocator \<Rightarrow> memory_allocator \<Rightarrow> bool" for s0 where
  reach_init: "alloc_reachable s0 s0"
| reach_step: "alloc_reachable s0 s \<Longrightarrow> alloc_step s s' \<Longrightarrow> alloc_reachable s0 s'"

inductive_cases alloc_stepE: "alloc_step s s'"

text \<open>
  A region that is neither free nor owned by boot services or a loader: firmware tables, runtime
  services, reserved memory, devices.
\<close>

definition firm :: "u32 \<Rightarrow> bool" where
  "firm t \<longleftrightarrow> (\<forall>u. t = as_u32 u \<longrightarrow> \<not> is_boot_services u \<and> u \<noteq> ConventionalMemory)"

text \<open>What one step may do to the map: the extent stays, firm regions stay as they are.\<close>

definition keeps_firm :: "(u64 \<Rightarrow> (u32 \<times> u64) option) \<Rightarrow> (u64 \<Rightarrow> (u32 \<times> u64) option) \<Rightarrow> bool" where
  "keeps_firm m m' \<longleftrightarrow> dom m' = dom m \<and> (\<forall>a t attr. m a = Some (t, attr) \<longrightarrow> firm t \<longrightarrow> m' a = Some (t, attr))"

lemma keeps_firm_refl [simp]: "keeps_firm m m"
  by (simp add: keeps_firm_def)

lemma keeps_firm_trans: "keeps_firm m m' \<Longrightarrow> keeps_firm m' m'' \<Longrightarrow> keeps_firm m m''"
  by (simp add: keeps_firm_def)

lemma keeps_firm_retype:
  assumes "\<forall>a \<in> A. \<exists>t attr. m a = Some (t, attr) \<and> \<not> firm t"
  shows "keeps_firm m (retype A f m)"
proof -
  have "retype A f m a = m a" if "m a = Some (t, attr)" "firm t" for a t attr
    using assms that by (fastforce simp: retype_def)
  moreover have "dom (retype A f m) = dom m"
    using assms by (auto simp: retype_def dom_def split: if_splits)
  ultimately show ?thesis
    by (simp add: keeps_firm_def)
qed

lemma not_firm [simp]:
  "\<not> firm (as_u32 ConventionalMemory)" "\<not> firm (as_u32 LoaderCode)" "\<not> firm (as_u32 LoaderData)"
  "is_boot_services u \<Longrightarrow> \<not> firm (as_u32 u)"
  by (auto simp: firm_def is_boot_services_def)

lemma carve_keeps_firm: "carve_spec s addr n t s' \<Longrightarrow> keeps_firm (alloc_map s) (alloc_map s')"
  unfolding carve_spec_def by (metis not_firm(1) keeps_firm_retype)

lemma realloc_keeps_firm: "realloc_spec s addr n t s' \<Longrightarrow> keeps_firm (alloc_map s) (alloc_map s')"
  unfolding realloc_spec_def by (metis insert_iff not_firm(2,3) keeps_firm_retype singletonD)

lemma free_keeps_firm: "free_spec s addr n s' \<Longrightarrow> keeps_firm (alloc_map s) (alloc_map s')"
  unfolding free_spec_def by (metis not_firm(1,4) keeps_firm_retype)

lemma release_keeps_firm: "keeps_firm m (map_option release_type \<circ> m)"
proof -
  have "release_type (t, attr) = (t, attr)" if "firm t" for t attr
    using that by (auto simp: release_type_def firm_def from_u32_Some_iff split: option.splits)
  then show ?thesis
    by (auto simp: keeps_firm_def dom_def)
qed

lemma allocated_keeps_firm:
  "allocated_spec s ty t n memory s' addr \<Longrightarrow> keeps_firm (alloc_map s) (alloc_map s')"
  by (cases ty) (auto simp: allocated_spec_def intro: carve_keeps_firm realloc_keeps_firm)

lemma alloc_step_sound:
  assumes "alloc_step s s'" and inv: "alloc_inv s"
  shows "alloc_inv s' \<and> keeps_firm (alloc_map s) (alloc_map s')"
  using assms(1)
proof cases
  case (step_allocate ty t n memory status memory')
  then show ?thesis
    using inv allocated_keeps_firm
    by (cases rule: allocate_pages_cases [OF inv, of ty t n memory]) auto
next
  case (step_free memory n status)
  then show ?thesis
    using inv free_keeps_firm
    by (cases rule: free_pages_cases [OF alloc_invD [OF inv], of memory n]) auto
next
  case (step_reserve start n t r)
  then show ?thesis
    using inv carve_keeps_firm
    by (cases rule: carve_out_cases [OF alloc_invD [OF inv] stable_of_inv [OF inv] step_reserve(1,2), of t])
      (auto simp: reserve_region_def)
next
  case (step_exit key status)
  then show ?thesis
    using inv exit_boot_services_effect [OF alloc_invD [OF inv], of key]
    by (cases "key = map_key s") (auto simp: release_keeps_firm exit_boot_services_def)
qed

lemma alloc_reachable_sound:
  assumes "alloc_reachable s0 s" and "alloc_inv s0"
  shows "alloc_inv s \<and> keeps_firm (alloc_map s0) (alloc_map s)"
  using assms
  by (induction rule: alloc_reachable.induct) (auto dest: alloc_step_sound intro: keeps_firm_trans)

lemma alloc_step_exited: "alloc_step s s' \<Longrightarrow> boot_services_exited s \<Longrightarrow> alloc_inv s \<Longrightarrow> boot_services_exited s'"
proof (erule alloc_stepE)
  fix ty t n memory status memory'
  assume "allocate_pages s ty t n memory = Some (s', status, memory')" and e: "boot_services_exited s"
  then show "boot_services_exited s'"
    by (auto simp: allocate_pages_def split: if_splits)
next
  fix memory n status
  assume "free_pages s memory n = (s', status)" and e: "boot_services_exited s"
  then show "boot_services_exited s'"
    by (auto simp: free_pages_def split: if_splits)
next
  fix start n t r
  assume r: "4096 dvd unat start" "n \<noteq> 0" "reserve_region s start n t = Some (s', r)"
    and e: "boot_services_exited s" and inv: "alloc_inv s"
  show "boot_services_exited s'"
    using r(3) e
    by (cases rule: carve_out_cases [OF alloc_invD [OF inv] stable_of_inv [OF inv] r(1,2), of t])
      (auto simp: reserve_region_def carve_spec_def)
next
  fix key status
  assume "exit_boot_services s key = (s', status)" and "boot_services_exited s"
  then show "boot_services_exited s'"
    by (auto simp: exit_boot_services_def split: if_splits)
qed

end
