(* ===== verification/Allocator_Props.thy ===== *)
theory Allocator_Props
  imports Allocator_Steps
begin

text \<open>
  The properties of the page allocator and of the pool, each followed by its witness on the memory
  map of a small machine.
\<close>

section \<open>A small machine\<close>

text \<open>Sixteen pages of RAM above a reserved page, as coreboot would report them.\<close>

definition sample_regions :: "memory_region list" where
  "sample_regions =
     [\<lparr>region_start = 0x100000, region_size = 0x10000, region_type = Ram\<rparr>,
      \<lparr>region_start = 0x80000, region_size = 0x1000, region_type = Reserved\<rparr>]"

definition sample_allocator :: memory_allocator where
  "sample_allocator = init_from_coreboot new_allocator sample_regions"

text \<open>A full map whose first two entries have not been merged.\<close>

definition spaced :: "nat \<Rightarrow> nat \<Rightarrow> memory_descriptor list" where
  "spaced i n = map (\<lambda>k. new_descriptor ReservedMemoryType (of_nat (0x4000 + 0x2000 * k)) 1 EFI_MEMORY_WB) [i..<i + n]"

definition crowded_allocator :: memory_allocator where
  "crowded_allocator = \<lparr>entries =
     new_descriptor ReservedMemoryType 0x1000 1 EFI_MEMORY_WB #
     new_descriptor ReservedMemoryType 0x2000 1 EFI_MEMORY_WB #
     spaced 0 509 @ [new_descriptor ConventionalMemory 0x10000000 2 EFI_MEMORY_WB],
     map_key = 1, boot_services_exited = False\<rparr>"

lemma sample_allocator_eq: "sample_allocator = \<lparr>entries =
     [new_descriptor ReservedMemoryType 0x80000 1 EFI_MEMORY_WB,
      new_descriptor ConventionalMemory 0x100000 16 EFI_MEMORY_WB],
     map_key = 1, boot_services_exited = False\<rparr>"
  by code_simp

lemma sample_regions_ok:
  "\<forall>r \<in> set sample_regions. region_ok r" "sorted_wrt regions_apart sample_regions"
  "length sample_regions \<le> MAX_MEMORY_ENTRIES"
  by (simp_all add: sample_regions_def region_ok_def regions_apart_def region_overlaps_def
      region_end_def MAX_MEMORY_ENTRIES_def)

lemma sample_inv: "alloc_inv sample_allocator"
  unfolding sample_allocator_def using sample_regions_ok by (rule init_from_coreboot_effect)

lemma sample_allocate:
  "allocate_pages sample_allocator AllocateAnyPages LoaderData 1 0 =
     Some (\<lparr>entries = [new_descriptor ReservedMemoryType 0x80000 1 EFI_MEMORY_WB,
        new_descriptor ConventionalMemory 0x100000 15 EFI_MEMORY_WB,
        new_descriptor LoaderData 0x10F000 1 EFI_MEMORY_WB],
       map_key = 2, boot_services_exited = False\<rparr>, SUCCESS, 0x10F000)"
  unfolding sample_allocator_eq by code_simp

section \<open>Shared lemmas\<close>

lemma carve_out_succeeds:
  assumes inv: "alloc_inv s" and np: "num_pages \<noteq> 0"
    and room: "length (entries s) + 2 \<le> MAX_MEMORY_ENTRIES"
    and fit: "request_fits s addr num_pages limit"
  shows "\<exists>s'. carve_out s addr num_pages t = Some (s', Ok ())"
proof -
  obtain e where e: "e \<in> set (entries s)" "get_memory_type e = Some ConventionalMemory"
      "lo e \<le> unat addr" "unat addr + 4096 * unat num_pages \<le> hi e"
    using fit by (auto simp: request_fits_def)
  have wf: "wf_desc e"
    using inv e(1) by (simp add: alloc_inv_def alloc_wf_def memory_map_def)
  then have lt: "unat addr + 4096 * unat num_pages < 2 ^ 64"
    using e(4) by (simp add: wf_desc_def)
  obtain sz where sz: "checked_mul num_pages PAGE_SIZE = Some sz"
    using lt by (cases "checked_mul num_pages PAGE_SIZE") (auto simp: checked_mul_None_iff)
  then obtain en where en: "checked_add addr sz = Some en"
    using lt by (cases "checked_add addr sz") (auto simp: checked_add_None_iff checked_mul_Some_iff)
  have "physical_start e \<le> addr" "desc_end e \<ge> en"
    using e(3,4) wf_desc_hi [OF wf] range_end [OF sz en] by (simp_all add: lo_def word_nat)
  then obtain idx where idx: "position (\<lambda>entry. get_memory_type entry = Some ConventionalMemory \<and>
      physical_start entry \<le> addr \<and> desc_end entry \<ge> en) (entries s) = Some idx"
    using e(1,2) by (cases "position (\<lambda>entry. get_memory_type entry = Some ConventionalMemory \<and>
      physical_start entry \<le> addr \<and> desc_end entry \<ge> en) (entries s)")
      (auto simp: position_None_iff)
  then have "idx < length (entries s)"
    by (auto dest: position_SomeD)
  then show ?thesis
    using sz en idx room by (simp add: carve_out_def Let_def make_room_def vec_remove_def)
qed

lemma free_pages_found:
  assumes "4096 dvd unat memory" and "num_pages \<noteq> 0" and "\<not> boot_services_exited s"
    and "e \<in> set (entries s)" and "physical_start e = memory" and "number_of_pages e = num_pages"
    and "get_memory_type e = Some t" and "is_boot_services t \<or> t = ConventionalMemory"
  shows "\<exists>s'. free_pages s memory num_pages = (s', SUCCESS)"
proof -
  let ?P = "\<lambda>entry. physical_start entry = memory \<and> number_of_pages entry = num_pages \<and>
    (case get_memory_type entry of None \<Rightarrow> False
     | Some t \<Rightarrow> is_boot_services t \<or> t = ConventionalMemory)"
  have "?P e"
    using assms by simp
  then have "position ?P (entries s) \<noteq> None"
    using assms(4) by (auto simp: position_None_iff)
  then show ?thesis
    using assms(1-3) by (auto simp: free_pages_def is_multiple_of_PAGE_SIZE)
qed

lemma carve_then_free:
  assumes "carve_spec s addr num_pages t s'" and "free_spec s' addr num_pages s''"
    and "t \<noteq> RuntimeServicesCode" and "t \<noteq> RuntimeServicesData"
  shows "alloc_map s'' = alloc_map s"
proof
  fix a
  show "alloc_map s'' a = alloc_map s a"
  proof (cases "a \<in> page_range addr num_pages")
    case True
    then obtain attr where "alloc_map s a = Some (as_u32 ConventionalMemory, attr)"
      using assms(1) by (auto simp: carve_spec_def)
    then show ?thesis
      using True assms by (simp add: carve_spec_def free_spec_def retype_def runtime_attribute_def)
  next
    case False
    then show ?thesis
      using assms(1,2) by (simp add: carve_spec_def free_spec_def retype_def)
  qed
qed

lemma spaced_Suc: "spaced i (Suc n) = new_descriptor ReservedMemoryType (of_nat (0x4000 + 0x2000 * i)) 1 EFI_MEMORY_WB # spaced (Suc i) n"
  by (simp add: spaced_def upt_rec del: upt_Suc)

lemma spaced_0: "spaced i 0 = []"
  by (simp add: spaced_def)

lemma merged_spaced_from:
  assumes "i + n < 2 ^ 16" and "hi e < 0x4000 + 0x2000 * i" and "memory_type e = as_u32 ReservedMemoryType"
  shows "merged (e # spaced i n @ [new_descriptor ConventionalMemory s p EFI_MEMORY_WB])"
  using assms
proof (induction n arbitrary: e i)
  case 0
  then show ?case
    by (simp add: spaced_0 mergeable_def)
next
  case (Suc n)
  let ?d = "new_descriptor ReservedMemoryType (of_nat (0x4000 + 0x2000 * i)) 1 EFI_MEMORY_WB"
  have u: "unat (of_nat (0x4000 + 0x2000 * i) :: u64) = 0x4000 + 0x2000 * i"
    using Suc.prems(1) by (simp only: unat_of_nat) simp
  then have "hi ?d = 0x5000 + 0x2000 * i"
    by (simp add: hi_def lo_def)
  then have "merged (?d # spaced (Suc i) n @ [new_descriptor ConventionalMemory s p EFI_MEMORY_WB])"
    using Suc.prems by (intro Suc.IH) simp_all
  moreover have "desc_end e \<noteq> physical_start ?d"
  proof
    assume "desc_end e = physical_start ?d"
    then have "unat (desc_end e) = unat (physical_start ?d)"
      by (rule arg_cong)
    then show False
      using Suc.prems u unat_desc_end [of e] by simp
  qed
  ultimately show ?case
    by (simp add: spaced_Suc mergeable_def)
qed

lemma free_allocated:
  assumes "alloc_inv s" and "is_boot_services t" and "ty \<noteq> AllocateAddress"
    and "allocate_pages s ty t num_pages memory = Some (s', SUCCESS, addr)"
    and "e \<in> set (entries s')" and "physical_start e = addr" and "number_of_pages e = num_pages"
  shows "\<exists>s''. free_pages s' addr num_pages = (s'', SUCCESS) \<and> alloc_map s'' = alloc_map s"
proof -
  have inv': "alloc_inv s'" and spec: "allocated_spec s ty t num_pages memory s' addr"
    using assms(4) by (cases rule: allocate_pages_cases [OF assms(1), of ty t num_pages memory]; auto)+
  have carve: "carve_spec s addr num_pages t s'" and al: "4096 dvd unat addr"
    using spec assms(3) by (cases ty; simp add: allocated_spec_def request_fits_def)+
  have np: "num_pages \<noteq> 0" and run: "\<not> boot_services_exited s"
    using assms(4) by (auto simp: allocate_pages_def split: if_splits)
  have run': "\<not> boot_services_exited s'"
    using carve run by (simp add: carve_spec_def)
  have mm: "memory_map (entries s')"
    using inv' by (simp add: alloc_inv_def alloc_wf_def)
  then have "wf_desc e"
    using assms(5) by (simp add: memory_map_def)
  then have "covers e addr"
    using wf_desc_lo_less_hi [of e] assms(6) by (simp add: covers_iff lo_def)
  then have "alloc_map s' addr = Some (memory_type e, attribute e)"
    using region_at_SomeI [OF mm assms(5)] by (simp add: alloc_map_def)
  moreover have "addr \<in> page_range addr num_pages"
    using np by (simp add: page_range_def word_nat)
  ultimately have "get_memory_type e = Some t"
    using carve by (auto simp: carve_spec_def retype_def get_memory_type_Some_iff)
  then obtain s'' where f: "free_pages s' addr num_pages = (s'', SUCCESS)"
    using free_pages_found [OF al np run' assms(5-7)] assms(2) by blast
  then have "free_spec s' addr num_pages s''"
    by (cases rule: free_pages_cases [OF alloc_invD [OF inv'], of addr num_pages]) auto
  moreover have "t \<noteq> RuntimeServicesCode" "t \<noteq> RuntimeServicesData"
    using assms(2) by (auto simp: is_boot_services_def)
  ultimately show ?thesis
    using f carve_then_free [OF carve] by blast
qed

section \<open>Allocating and freeing pages\<close>



text \<open>\<open>allocate_pages\<close> never panics on a map that satisfies the invariant, keeps the invariant,
  and changes neither the map nor \<open>*memory\<close> when it returns an error.\<close>

theorem allocate_pages_total:
  assumes "alloc_inv s"
  shows "\<exists>s' status memory'. allocate_pages s ty t num_pages memory = Some (s', status, memory') \<and>
    alloc_inv s' \<and> (status = SUCCESS \<or> s' = s \<and> memory' = memory)"
  by (cases rule: allocate_pages_cases [OF assms, of ty t num_pages memory]) (use assms in auto)

theorem allocate_pages_total_witness:
  "\<exists>s' status memory'. allocate_pages sample_allocator AllocateAddress LoaderCode 99 0x100000 =
      Some (s', status, memory') \<and> alloc_inv s' \<and>
      (status = SUCCESS \<or> s' = sample_allocator \<and> memory' = 0x100000)"
  using allocate_pages_total [OF sample_inv] by blast

text \<open>C2: an \<open>AllocateAnyPages\<close> request is served whenever a free run of pages of that length exists
  below the identity-mapped limit and the map has two free slots.\<close>

theorem allocate_any_pages_complete:
  assumes "alloc_inv s" and "\<not> boot_services_exited s" and "num_pages \<noteq> 0"
    and "length (entries s) + 2 \<le> MAX_MEMORY_ENTRIES"
    and "request_fits s a num_pages (- 1)"
  shows "\<exists>s' addr. allocate_pages s AllocateAnyPages t num_pages memory = Some (s', SUCCESS, addr)"
proof -
  have "unat num_pages * 4096 < 2 ^ 64"
    using assms(5) by (simp add: request_fits_def MAX_IDENTITY_MAPPED_ADDRESS_def)
  then obtain sz where sz: "checked_mul num_pages PAGE_SIZE = Some sz"
    by (cases "checked_mul num_pages PAGE_SIZE") (auto simp: checked_mul_None_iff)
  obtain addr where f: "find_free_pages s num_pages (- 1) = Some addr"
    and fit: "request_fits s addr num_pages (- 1)"
    using find_free_pages_complete [OF alloc_invD [OF assms(1)] assms(3,5) sz] by blast
  obtain s' where "carve_out s addr num_pages t = Some (s', Ok ())"
    using carve_out_succeeds [OF assms(1,3,4) fit] by blast
  then show ?thesis
    using f assms(2,3) sz by (simp add: allocate_pages_def)
qed

theorem allocate_any_pages_complete_witness:
  "\<exists>s' addr. allocate_pages sample_allocator AllocateAnyPages LoaderData 16 0 = Some (s', SUCCESS, addr)"
proof (rule allocate_any_pages_complete)
  show "alloc_inv sample_allocator"
    by (rule sample_inv)
  show "request_fits sample_allocator 0x100000 16 (- 1)"
    by (simp add: request_fits_def sample_allocator_eq get_memory_type_Some_iff lo_def hi_def
        MAX_IDENTITY_MAPPED_ADDRESS_def unsigned_minus_1_eq_mask mask_eq_exp_minus_1)
qed (simp_all add: sample_allocator_eq MAX_MEMORY_ENTRIES_def)

text \<open>C3: \<open>free_pages\<close> either refuses and leaves the allocator as it was, or turns exactly the pages
  named (which were boot-services, loader or already free memory) into conventional memory and keeps
  the invariant.\<close>

theorem free_pages_refines:
  assumes "alloc_wf s"
  shows "(\<exists>e. free_pages s memory num_pages = (s, e) \<and> e \<noteq> SUCCESS) \<or>
    (\<exists>s'. free_pages s memory num_pages = (s', SUCCESS) \<and> alloc_inv s' \<and>
       free_spec s memory num_pages s')"
  by (cases rule: free_pages_cases [OF assms, of memory num_pages]) auto

theorem free_pages_refines_witness:
  "(\<exists>e. free_pages sample_allocator 0x100000 16 = (sample_allocator, e) \<and> e \<noteq> SUCCESS) \<or>
    (\<exists>s'. free_pages sample_allocator 0x100000 16 = (s', SUCCESS) \<and> alloc_inv s' \<and>
       free_spec sample_allocator 0x100000 16 s')"
  using free_pages_refines [OF alloc_invD [OF sample_inv]] by blast

text \<open>Round trip. When the allocated range is still an entry of its own, freeing it succeeds and
  gives back the memory map from before the allocation.\<close>

theorem allocate_free_roundtrip:
  assumes "alloc_inv s" and "is_boot_services t" and "ty \<noteq> AllocateAddress"
    and "allocate_pages s ty t num_pages memory = Some (s', SUCCESS, addr)"
    and "e \<in> set (entries s')" and "physical_start e = addr" and "number_of_pages e = num_pages"
  shows "\<exists>s''. free_pages s' addr num_pages = (s'', SUCCESS) \<and> alloc_map s'' = alloc_map s"
  using assms by (rule free_allocated)

theorem allocate_free_roundtrip_witness:
  "\<exists>s' s''. allocate_pages sample_allocator AllocateAnyPages LoaderData 1 0 = Some (s', SUCCESS, 0x10F000) \<and>
     free_pages s' 0x10F000 1 = (s'', SUCCESS) \<and> alloc_map s'' = alloc_map sample_allocator"
proof -
  have "is_boot_services LoaderData"
    by (simp add: is_boot_services_def)
  then show ?thesis
    using allocate_free_roundtrip [OF sample_inv _ _ sample_allocate,
        where e = "new_descriptor LoaderData 0x10F000 1 EFI_MEMORY_WB"] sample_allocate
    by auto
qed

text \<open>The limit of that round trip. Two neighbouring allocations of the same type are merged into
  one entry, and since \<open>free_pages\<close> only accepts a whole entry, neither of them can be freed any
  more.\<close>

theorem allocated_page_cannot_be_freed:
  "\<exists>s1 s2. allocate_pages sample_allocator AllocateAnyPages LoaderData 1 0 = Some (s1, SUCCESS, 0x10F000) \<and>
     allocate_pages s1 AllocateAnyPages LoaderData 1 0 = Some (s2, SUCCESS, 0x10E000) \<and>
     free_pages s2 0x10E000 1 = (s2, NOT_FOUND) \<and> free_pages s2 0x10F000 1 = (s2, NOT_FOUND)"
proof -
  let ?s1 = "\<lparr>entries = [new_descriptor ReservedMemoryType 0x80000 1 EFI_MEMORY_WB,
        new_descriptor ConventionalMemory 0x100000 15 EFI_MEMORY_WB,
        new_descriptor LoaderData 0x10F000 1 EFI_MEMORY_WB],
       map_key = 2, boot_services_exited = False\<rparr>"
  let ?s2 = "\<lparr>entries = [new_descriptor ReservedMemoryType 0x80000 1 EFI_MEMORY_WB,
        new_descriptor ConventionalMemory 0x100000 14 EFI_MEMORY_WB,
        new_descriptor LoaderData 0x10E000 2 EFI_MEMORY_WB],
       map_key = 3, boot_services_exited = False\<rparr>"
  have "allocate_pages ?s1 AllocateAnyPages LoaderData 1 0 = Some (?s2, SUCCESS, 0x10E000)"
    by code_simp
  moreover have "free_pages ?s2 0x10E000 1 = (?s2, NOT_FOUND)" "free_pages ?s2 0x10F000 1 = (?s2, NOT_FOUND)"
    by code_simp+
  ultimately show ?thesis
    using sample_allocate by blast
qed

section \<open>Leaving boot services, initialisation, ACPI tables\<close>

text \<open>C5: \<open>exit_boot_services\<close> refuses a stale map key without changing anything; with the current key
  it turns every boot-services and loader region into conventional memory, keeps every other region,
  and no allocation succeeds afterwards.\<close>

theorem exit_boot_services_refines:
  assumes "alloc_wf s"
  shows "(if key = map_key s
     then snd (exit_boot_services s key) = SUCCESS \<and> alloc_inv (fst (exit_boot_services s key)) \<and>
       boot_services_exited (fst (exit_boot_services s key)) \<and>
       alloc_map (fst (exit_boot_services s key)) = map_option release_type \<circ> alloc_map s \<and>
       (\<forall>ty t n m. \<exists>e. allocate_pages (fst (exit_boot_services s key)) ty t n m =
          Some (fst (exit_boot_services s key), e, m) \<and> e \<noteq> SUCCESS)
     else exit_boot_services s key = (s, INVALID_PARAMETER))"
proof (cases "key = map_key s")
  case True
  note eff = exit_boot_services_effect [OF assms True]
  have "\<exists>e. allocate_pages (fst (exit_boot_services s key)) ty t n m =
      Some (fst (exit_boot_services s key), e, m) \<and> e \<noteq> SUCCESS" for ty t n m
    using allocate_pages_guards eff(3) by blast
  then show ?thesis
    using True eff by simp
next
  case False
  then show ?thesis
    by (simp add: exit_boot_services_def)
qed

theorem exit_boot_services_refines_witness:
  "snd (exit_boot_services sample_allocator 1) = SUCCESS \<and>
   alloc_map (fst (exit_boot_services sample_allocator 1)) = map_option release_type \<circ> alloc_map sample_allocator \<and>
   exit_boot_services sample_allocator 2 = (sample_allocator, INVALID_PARAMETER)"
proof -
  have k: "map_key sample_allocator = 1"
    by (simp add: sample_allocator_eq)
  show ?thesis
    using exit_boot_services_refines [OF alloc_invD [OF sample_inv], of 1]
      exit_boot_services_refines [OF alloc_invD [OF sample_inv], of 2] k by simp
qed

text \<open>The map built from coreboot's regions assigns to every address the EFI type and attribute of
  the region that contains it, and to no other address; it satisfies the allocator invariant.\<close>

theorem init_from_coreboot_refines:
  assumes "\<forall>r \<in> set regions. region_ok r" and "sorted_wrt regions_apart regions"
    and "length regions \<le> MAX_MEMORY_ENTRIES"
  shows "alloc_inv (init_from_coreboot s regions) \<and>
    (\<forall>a. alloc_map (init_from_coreboot s regions) a =
      map_option (\<lambda>r. (as_u32 (cb_to_efi_memory_type (region_type r)),
                       default_attribute (cb_to_efi_memory_type (region_type r))))
        (find (\<lambda>r. region_contains r a) regions))"
  using init_from_coreboot_effect [OF assms] by blast

theorem init_from_coreboot_refines_witness:
  "alloc_inv (init_from_coreboot new_allocator sample_regions) \<and>
   alloc_map (init_from_coreboot new_allocator sample_regions) 0x100004 =
     Some (as_u32 ConventionalMemory, EFI_MEMORY_WB)"
  using init_from_coreboot_refines [OF sample_regions_ok, of new_allocator]
  by (simp add: sample_regions_def region_contains_def region_end_def)

text \<open>\<open>mark_as_acpi_reclaim\<close> with two free slots: it refuses a range that straddles entries, adds
  a range that no entry covers, or retypes exactly the range and keeps the attributes; a range that is
  already ACPI memory keeps its type.\<close>

theorem mark_as_acpi_reclaim_refines:
  assumes "alloc_wf s" and "length (entries s) + 2 \<le> MAX_MEMORY_ENTRIES"
    and "4096 dvd unat addr" and "num_pages \<noteq> 0"
  shows "mark_as_acpi_reclaim s addr num_pages = Some (s, Err INVALID_PARAMETER) \<or>
    (\<exists>s'. mark_as_acpi_reclaim s addr num_pages = Some (s', Ok ()) \<and> alloc_wf s' \<and>
       (if \<forall>a \<in> page_range addr num_pages. alloc_map s a = None
        then alloc_map s' = (\<lambda>a. if a \<in> page_range addr num_pages
          then Some (as_u32 AcpiReclaimMemory, EFI_MEMORY_WB) else alloc_map s a)
        else alloc_map s' = retype (page_range addr num_pages) acpi_effect (alloc_map s)))"
proof -
  have "addr \<in> page_range addr num_pages"
    using assms(4) by (simp add: page_range_def word_nat)
  then show ?thesis
    by (cases rule: mark_as_acpi_reclaim_cases [OF assms]) auto
qed

theorem mark_as_acpi_reclaim_refines_witness:
  "mark_as_acpi_reclaim sample_allocator 0x102000 2 = Some (sample_allocator, Err INVALID_PARAMETER) \<or>
    (\<exists>s'. mark_as_acpi_reclaim sample_allocator 0x102000 2 = Some (s', Ok ()) \<and> alloc_wf s' \<and>
       (if \<forall>a \<in> page_range 0x102000 2. alloc_map sample_allocator a = None
        then alloc_map s' = (\<lambda>a. if a \<in> page_range 0x102000 2
          then Some (as_u32 AcpiReclaimMemory, EFI_MEMORY_WB) else alloc_map sample_allocator a)
        else alloc_map s' = retype (page_range 0x102000 2) acpi_effect (alloc_map sample_allocator)))"
  using alloc_invD [OF sample_inv]
  by (rule mark_as_acpi_reclaim_refines) (simp_all add: sample_allocator_eq MAX_MEMORY_ENTRIES_def)

section \<open>Every sequence of calls\<close>



text \<open>Leaving boot services is final. Once they have been left, no later sequence of calls makes an
  allocation or a free succeed again.\<close>

theorem exited_is_final:
  assumes "alloc_inv s0" and "boot_services_exited s0" and "alloc_reachable s0 s"
  shows "boot_services_exited s \<and>
    (\<forall>ty t n memory. \<exists>e. allocate_pages s ty t n memory = Some (s, e, memory) \<and> e \<noteq> SUCCESS) \<and>
    (\<forall>memory n. \<exists>e. free_pages s memory n = (s, e) \<and> e \<noteq> SUCCESS)"
proof -
  have ex: "boot_services_exited s"
    using assms(3,1,2)
  proof (induction rule: alloc_reachable.induct)
    case (reach_step s s')
    then show ?case
      using alloc_reachable_sound alloc_step_exited by blast
  qed
  then show ?thesis
    using allocate_pages_guards by (auto simp: free_pages_def)
qed

theorem exited_is_final_witness:
  "\<exists>s. alloc_reachable sample_allocator s \<and> boot_services_exited s \<and>
     (\<exists>e. free_pages s 0x100000 16 = (s, e) \<and> e \<noteq> SUCCESS)"
proof -
  let ?s = "fst (exit_boot_services sample_allocator 1)"
  have k: "(1 :: usize) = map_key sample_allocator"
    by (simp add: sample_allocator_eq)
  note eff = exit_boot_services_effect [OF alloc_invD [OF sample_inv] k]
  have "alloc_reachable sample_allocator ?s"
    by (rule reach_step [OF reach_init step_exit [OF prod.collapse [symmetric]]])
  then show ?thesis
    using exited_is_final [OF eff(2,3) reach_init] by blast
qed

text \<open>The index found before the map is merged is used after it. On a full map with an unmerged
  pair of entries in front of the chosen one, \<open>carve_out\<close> removes at a stale index; when the chosen
  entry is the last, the removal panics.\<close>

theorem carve_out_stale_index:
  assumes es: "entries s = a # b # ds @ [c]" and full: "length (entries s) = MAX_MEMORY_ENTRIES"
    and ab: "mergeable a b" and mg: "merged (merge_into a b # ds @ [c])"
    and taken: "\<forall>d \<in> set (a # b # ds). get_memory_type d \<noteq> Some ConventionalMemory"
    and c: "c = new_descriptor ConventionalMemory start n attr" "1 < n" "unat start + 4096 * unat n < 2 ^ 64"
  shows "carve_out s start 1 t = None"
proof -
  let ?P = "\<lambda>entry. get_memory_type entry = Some ConventionalMemory \<and>
      physical_start entry \<le> start \<and> desc_end entry \<ge> start + 4096"
  have hi: "unat (desc_end c) = unat start + 4096 * unat n"
    using c(1,3) unat_desc_end [of c] by (simp add: hi_def lo_def)
  have n: "unat n \<ge> 2"
    using c(2) by (simp add: word_less_nat_alt)
  have m: "checked_mul 1 PAGE_SIZE = Some 4096"
    by code_simp
  have "unat start + unat (4096 :: u64) < 2 ^ LENGTH(64)"
    using c(3) n by simp
  then have en: "checked_add start 4096 = Some (start + 4096)"
    by (simp only: checked_add_def uint_add_less_iff if_True)
  have us: "unat (start + 4096) = unat start + 4096"
    using en by (simp add: checked_add_Some_iff)
  have len: "length ds = 509"
    using es full by (simp add: MAX_MEMORY_ENTRIES_def)
  have nc: "\<not> ?P ((a # b # ds @ [c]) ! j)" if "j < 511" for j
  proof -
    have "(a # b # ds @ [c]) ! j \<in> set (a # b # ds)"
      using that len nth_mem [of j "a # b # ds"] nth_append [of "a # b # ds" "[c]" j] by simp
    then show ?thesis
      using taken by blast
  qed
  have cP: "?P c"
    using c(1) hi us n by (simp add: word_le_nat_alt get_memory_type_Some_iff)
  have pos: "position ?P (entries s) = Some 511"
    unfolding es
  proof (rule position_SomeI)
    show "?P ((a # b # ds @ [c]) ! 511)"
      using cP len nth_append [of "a # b # ds" "[c]" 511] by simp
  qed (use nc len in simp_all)
  have at: "entries s ! 511 = c"
    using es len nth_append [of "a # b # ds" "[c]" 511] by simp
  have merge: "merge_entries (entries s) = merge_into a b # ds @ [c]"
    using ab merged_merge_spec_id [OF mg] by (simp add: es merge_entries_spec)
  have "make_room (entries s) (1 + of_bool (physical_start c < start) + of_bool (desc_end c > start + 4096)) =
      (True, merge_into a b # ds @ [c])"
    using c(1) hi us n len by (simp add: make_room_def Let_def full merge MAX_MEMORY_ENTRIES_def word_less_nat_alt)
  then show ?thesis
    using m en pos at len by (simp add: carve_out_def Let_def vec_remove_def)
qed

theorem carve_out_stale_index_witness:
  "length (entries crowded_allocator) = MAX_MEMORY_ENTRIES \<and>
   carve_out crowded_allocator 0x10000000 1 LoaderData = None"
proof -
  let ?r = "new_descriptor ReservedMemoryType"
  have full: "length (entries crowded_allocator) = MAX_MEMORY_ENTRIES"
    by (simp add: crowded_allocator_def spaced_def MAX_MEMORY_ENTRIES_def)
  have ab: "mergeable (?r 0x1000 1 EFI_MEMORY_WB) (?r 0x2000 1 EFI_MEMORY_WB)"
    by code_simp
  have mg: "merged (merge_into (?r 0x1000 1 EFI_MEMORY_WB) (?r 0x2000 1 EFI_MEMORY_WB) # spaced 0 509 @
      [new_descriptor ConventionalMemory 0x10000000 2 EFI_MEMORY_WB])"
    by (rule merged_spaced_from) (simp_all add: hi_def lo_def)
  have taken: "\<forall>d \<in> set (?r 0x1000 1 EFI_MEMORY_WB # ?r 0x2000 1 EFI_MEMORY_WB # spaced 0 509).
      get_memory_type d \<noteq> Some ConventionalMemory"
    by (auto simp: spaced_def get_memory_type_Some_iff)
  show ?thesis
    using carve_out_stale_index [OF _ full ab mg taken refl] full by (simp add: crowded_allocator_def)
qed

section \<open>The pool\<close>

text \<open>C6: \<open>allocate_pool\<close> returns, without panicking, an error that changes nothing or a pointer into a
  run of pages that was free: the header and the requested bytes fit into the pages, the pages get the
  requested type, the header holds the page count and the magic number, and no byte outside the
  header is written.\<close>

theorem allocate_pool_correct:
  assumes "alloc_inv s"
  shows "\<exists>s' m' r. allocate_pool s m t sz = Some (s', m', r) \<and> alloc_inv s' \<and>
    (case r of
       Err e \<Rightarrow> s' = s \<and> m' = m
     | Ok data \<Rightarrow> \<exists>n. let header = data - of_nat POOL_HEADER_SIZE in
         unat sz + POOL_HEADER_SIZE \<le> 4096 * unat n \<and> unat header + 4096 * unat n < 2 ^ 64 \<and>
         (\<forall>a \<in> page_range header n. \<exists>attr. alloc_map s a = Some (as_u32 ConventionalMemory, attr)) \<and>
         alloc_map s' = retype (page_range header n)
           (\<lambda>(_, attr). (as_u32 t, runtime_attribute t attr)) (alloc_map s) \<and>
         read_u64 m' header = n \<and> read_u64 m' (header + 8) = POOL_MAGIC \<and>
         (\<forall>x. POOL_HEADER_SIZE \<le> unat (x - header) \<longrightarrow> m' x = m x))"
proof -
  obtain s' m' r where run: "allocate_pool s m t sz = Some (s', m', r)" and inv': "alloc_inv s'"
    and err: "\<forall>e. r = Err e \<longrightarrow> s' = s \<and> m' = m"
    using pages.pool_total [OF assms, of m t sz] unfolding allocate_pool_def by blast
  show ?thesis
  proof (cases r)
    case (Inl e)
    then show ?thesis using run inv' err by auto
  next
    case (Inr data)
    obtain n where n: "pool_pages sz = Some n"
      and a: "allocate_pages s AllocateAnyPages t n 0 = Some (s', SUCCESS, data - 16)"
      and m': "m' = write_pool_header m (data - 16) n"
      using pages.pool_success [OF assms, of m t sz s' m' data] run Inr
      unfolding allocate_pool_def by blast
    have magic: "read_u64 (write_pool_header m (data - 16) n) (data - 8) = POOL_MAGIC"
      using pool_header_magic [of m "data - 16" n] by simp
    show ?thesis
      using run inv' Inr pages.alloc_range [OF assms a] pool_pages_SomeD(2) [OF n]
      by (auto simp: m' Let_def POOL_HEADER_SIZE_def pool_header_num_pages magic
          intro!: exI [of _ n] write_pool_header_outside)
  qed
qed

theorem allocate_pool_correct_witness:
  "\<exists>s' m' r. allocate_pool sample_allocator (\<lambda>_. 0) BootServicesData 100 = Some (s', m', r) \<and> alloc_inv s'"
  using allocate_pool_correct [OF sample_inv, of "\<lambda>_. 0" BootServicesData 100] by blast

text \<open>Pool round trip. When the client leaves the header alone and the pages are still an entry of
  their own, \<open>free_pool\<close> of the pointer that \<open>allocate_pool\<close> returned succeeds and gives back the
  memory map from before.\<close>

theorem pool_roundtrip:
  assumes inv: "alloc_inv s" and t: "is_boot_services t"
    and run: "allocate_pool s m t sz = Some (s', m', Ok data)"
    and hdr: "\<forall>i < POOL_HEADER_SIZE. m'' (data - 16 + of_nat i) = m' (data - 16 + of_nat i)"
    and entry: "\<exists>e \<in> set (entries s'). physical_start e = data - 16 \<and>
      Some (number_of_pages e) = pool_pages sz"
  shows "\<exists>s''. free_pool s' m'' data = (s'', SUCCESS) \<and> alloc_inv s'' \<and> alloc_map s'' = alloc_map s"
proof -
  obtain n where n: "pool_pages sz = Some n"
    and a: "allocate_pages s AllocateAnyPages t n 0 = Some (s', SUCCESS, data - 16)"
    and fr: "free_pool s' m'' data = free_pages s' (data - 16) n"
    using pages.pool_release [OF inv, of m t sz s' m' data m'' s'] run hdr
    unfolding allocate_pool_def free_pool_def by blast
  obtain e where e: "e \<in> set (entries s')" "physical_start e = data - 16" "number_of_pages e = n"
    using entry n by auto
  obtain s'' where f: "free_pages s' (data - 16) n = (s'', SUCCESS)" "alloc_map s'' = alloc_map s"
    using free_allocated [OF inv t _ a e] by blast
  then have "alloc_inv s''"
    using pages.release_ok [OF pages.alloc_ok [OF inv a]] by blast
  with fr f show ?thesis by simp
qed

theorem pool_roundtrip_witness:
  "\<exists>s' m' s''. allocate_pool sample_allocator (\<lambda>_. 0) BootServicesData 100 = Some (s', m', Ok 0x10F010) \<and>
     free_pool s' m' 0x10F010 = (s'', SUCCESS) \<and> alloc_map s'' = alloc_map sample_allocator"
proof -
  let ?s = "\<lparr>entries = [new_descriptor ReservedMemoryType 0x80000 1 EFI_MEMORY_WB,
        new_descriptor ConventionalMemory 0x100000 15 EFI_MEMORY_WB,
        new_descriptor BootServicesData 0x10F000 1 EFI_MEMORY_WB],
       map_key = 2, boot_services_exited = False\<rparr>"
  have a: "allocate_pages sample_allocator AllocateAnyPages BootServicesData 1 0 = Some (?s, SUCCESS, 0x10F000)"
    unfolding sample_allocator_eq by code_simp
  have n: "pool_pages 100 = Some 1"
    by code_simp
  have run: "allocate_pool sample_allocator (\<lambda>_. 0) BootServicesData 100 =
      Some (?s, write_pool_header (\<lambda>_. 0) 0x10F000 1, Ok 0x10F010)"
    using a n by (simp add: allocate_pool_def allocate_pool_with_def POOL_HEADER_SIZE_def)
  have "is_boot_services BootServicesData"
    by (simp add: is_boot_services_def)
  then show ?thesis
    using pool_roundtrip [OF sample_inv _ run] n run by auto
qed

end
