(* ===== verification/Pe_Loader.thy ===== *)
theory Pe_Loader
  imports Pool
begin

text \<open>
  The PE32+ loader, \<open>src/src/pe/mod.rs\<close>: parsing and validating the headers, copying headers and
  sections into freshly allocated pages, applying base relocations, and unloading.

  The file is a list of bytes and offsets into it are naturals; where the source adds \<open>usize\<close>
  values with \<open>checked_add\<close> or \<open>checked_mul\<close>, \<open>usize_add\<close> and \<open>usize_mul\<close> keep the error branch
  while the headers are parsed. After the allocation the summands are zero-extended 32-bit header
  fields and small constants, so those checks cannot fail and the sums are written plainly.
  Relocation entries are read from the loaded image at the moment they are used, since an entry may
  rewrite bytes of the relocation directory itself. The loader reaches the page allocator through two
  arguments, which \<open>load_image\<close> instantiates; its lemmas are proved in the locale \<open>page_provider\<close>.
\<close>

section \<open>Headers\<close>

definition DOS_MAGIC :: u16 where "DOS_MAGIC = 0x5A4D"
definition PE_SIGNATURE :: u32 where "PE_SIGNATURE = 0x00004550"
definition PE32_PLUS_MAGIC :: u16 where "PE32_PLUS_MAGIC = 0x020B"
definition IMAGE_FILE_MACHINE_AMD64 :: u16 where "IMAGE_FILE_MACHINE_AMD64 = 0x8664"
definition IMAGE_REL_BASED_ABSOLUTE :: u16 where "IMAGE_REL_BASED_ABSOLUTE = 0"
definition IMAGE_REL_BASED_DIR64 :: u16 where "IMAGE_REL_BASED_DIR64 = 10"
definition IMAGE_DIRECTORY_ENTRY_BASERELOC :: nat where "IMAGE_DIRECTORY_ENTRY_BASERELOC = 5"
definition BASE_RELOCATION_HEADER_SIZE :: nat where "BASE_RELOCATION_HEADER_SIZE = 8"
definition MAX_IMAGE_SIZE :: u32 where "MAX_IMAGE_SIZE = 0x10000000"
definition MAX_SECTIONS :: u16 where "MAX_SECTIONS = 96"
definition MAX_DATA_DIRECTORIES :: u32 where "MAX_DATA_DIRECTORIES = 16"

text \<open>Little-endian fields of a byte slice; the parsers below check the length first.\<close>

definition get_u16 :: "u8 list \<Rightarrow> nat \<Rightarrow> u16" where
  "get_u16 bs off = of_nat (le_nat (slice off 2 bs))"

definition get_u32 :: "u8 list \<Rightarrow> nat \<Rightarrow> u32" where
  "get_u32 bs off = of_nat (le_nat (slice off 4 bs))"

definition get_u64 :: "u8 list \<Rightarrow> nat \<Rightarrow> u64" where
  "get_u64 bs off = of_nat (le_nat (slice off 8 bs))"

definition get_u8 :: "u8 list \<Rightarrow> nat \<Rightarrow> u8" where
  "get_u8 bs off = of_nat (le_nat (slice off 1 bs))"

text \<open>
  The packed headers. \<open>ref_from_prefix\<close> of the derived \<open>FromBytes\<close> fails when the slice is shorter
  than the struct; the fields sit at their packed offsets.
\<close>

record dos_header =
  e_magic :: u16
  e_lfanew :: u32

definition parse_dos_header :: "u8 list \<Rightarrow> dos_header option" where
  "parse_dos_header bs =
     (if length bs < 64 then None else Some \<lparr>e_magic = get_u16 bs 0, e_lfanew = get_u32 bs 60\<rparr>)"

definition COFF_HEADER_SIZE :: nat where "COFF_HEADER_SIZE = 20"

record coff_header =
  coff_machine :: u16
  number_of_sections :: u16
  time_date_stamp :: u32
  pointer_to_symbol_table :: u32
  number_of_symbols :: u32
  size_of_optional_header :: u16
  characteristics :: u16

definition parse_coff_header :: "u8 list \<Rightarrow> coff_header option" where
  "parse_coff_header bs =
     (if length bs < COFF_HEADER_SIZE then None
      else Some \<lparr>coff_machine = get_u16 bs 0, number_of_sections = get_u16 bs 2,
        time_date_stamp = get_u32 bs 4, pointer_to_symbol_table = get_u32 bs 8,
        number_of_symbols = get_u32 bs 12, size_of_optional_header = get_u16 bs 16,
        characteristics = get_u16 bs 18\<rparr>)"

definition OPTIONAL_HEADER_SIZE :: nat where "OPTIONAL_HEADER_SIZE = 112"

text \<open>Of the optional header the record keeps the fields that the loader reads.\<close>

record optional_header =
  opt_magic :: u16
  address_of_entry_point :: u32
  opt_image_base :: u64
  size_of_image :: u32
  size_of_headers :: u32
  number_of_rva_and_sizes :: u32

definition parse_optional_header :: "u8 list \<Rightarrow> optional_header option" where
  "parse_optional_header bs =
     (if length bs < OPTIONAL_HEADER_SIZE then None
      else Some \<lparr>opt_magic = get_u16 bs 0, address_of_entry_point = get_u32 bs 16,
        opt_image_base = get_u64 bs 24, size_of_image = get_u32 bs 56,
        size_of_headers = get_u32 bs 60, number_of_rva_and_sizes = get_u32 bs 108\<rparr>)"

definition DATA_DIRECTORY_SIZE :: nat where "DATA_DIRECTORY_SIZE = 8"

record data_directory =
  dir_virtual_address :: u32
  dir_size :: u32

definition parse_data_directory :: "u8 list \<Rightarrow> data_directory option" where
  "parse_data_directory bs =
     (if length bs < DATA_DIRECTORY_SIZE then None
      else Some \<lparr>dir_virtual_address = get_u32 bs 0, dir_size = get_u32 bs 4\<rparr>)"

definition SECTION_HEADER_SIZE :: nat where "SECTION_HEADER_SIZE = 40"

record section_header =
  virtual_size :: u32
  virtual_address :: u32
  size_of_raw_data :: u32
  pointer_to_raw_data :: u32

definition parse_section_header :: "u8 list \<Rightarrow> section_header option" where
  "parse_section_header bs =
     (if length bs < SECTION_HEADER_SIZE then None
      else Some \<lparr>virtual_size = get_u32 bs 8, virtual_address = get_u32 bs 12,
        size_of_raw_data = get_u32 bs 16, pointer_to_raw_data = get_u32 bs 20\<rparr>)"

record loaded_image =
  li_image_base :: u64
  li_image_size :: u64
  li_entry_point :: u64
  li_num_pages :: u64

section \<open>Validation\<close>

definition usize_add :: "nat \<Rightarrow> nat \<Rightarrow> nat option" where
  "usize_add a b = (if a + b < 2 ^ 64 then Some (a + b) else None)"

definition usize_mul :: "nat \<Rightarrow> nat \<Rightarrow> nat option" where
  "usize_mul a b = (if a * b < 2 ^ 64 then Some (a * b) else None)"

text \<open>What the part of \<open>load_image\<close> before the allocation hands to the rest.\<close>

record pe_layout =
  pe_image_size :: u32
  pe_image_base :: u64
  pe_entry_rva :: u32
  pe_headers :: u32
  pe_data_dirs :: u32
  pe_opt_offset :: nat
  pe_sections_offset :: nat
  pe_sections_end :: nat
  pe_num_sections :: nat

definition parse_section_table ::
  "u8 list \<Rightarrow> coff_header \<Rightarrow> optional_header \<Rightarrow> nat \<Rightarrow> pe_layout efi_result" where
  "parse_section_table data coff opt opt_offset =
     (case usize_add opt_offset (unat (size_of_optional_header coff)) of
        None \<Rightarrow> Err INVALID_PARAMETER
      | Some sections_offset \<Rightarrow>
     (case usize_mul (unat (number_of_sections coff)) SECTION_HEADER_SIZE of
        None \<Rightarrow> Err INVALID_PARAMETER
      | Some section_headers_size \<Rightarrow>
     (case usize_add sections_offset section_headers_size of
        None \<Rightarrow> Err INVALID_PARAMETER
      | Some sections_end \<Rightarrow>
          if sections_end > length data then Err INVALID_PARAMETER
          else Ok \<lparr>pe_image_size = size_of_image opt, pe_image_base = opt_image_base opt,
                 pe_entry_rva = address_of_entry_point opt, pe_headers = size_of_headers opt,
                 pe_data_dirs = number_of_rva_and_sizes opt, pe_opt_offset = opt_offset,
                 pe_sections_offset = sections_offset, pe_sections_end = sections_end,
                 pe_num_sections = unat (number_of_sections coff)\<rparr>)))"

text \<open>
  The slices \<open>&data[coff_offset..]\<close> and \<open>&data[opt_offset..]\<close> panic when the offset is beyond the
  end; \<open>slice_from\<close> keeps that.
\<close>

definition slice_from :: "u8 list \<Rightarrow> nat \<Rightarrow> u8 list may_panic" where
  "slice_from data off = (if off \<le> length data then Some (drop off data) else None)"

definition parse_optional ::
  "u8 list \<Rightarrow> coff_header \<Rightarrow> nat \<Rightarrow> pe_layout efi_result may_panic" where
  "parse_optional data coff opt_offset =
     (if unat (size_of_optional_header coff) < OPTIONAL_HEADER_SIZE then Some (Err INVALID_PARAMETER)
      else
        (case slice_from data opt_offset of
           None \<Rightarrow> None
         | Some opt_data \<Rightarrow>
        (case parse_optional_header opt_data of
           None \<Rightarrow> Some (Err INVALID_PARAMETER)
         | Some opt \<Rightarrow>
        (case usize_add opt_offset (unat (size_of_optional_header coff)) of
           None \<Rightarrow> Some (Err INVALID_PARAMETER)
         | Some opt_end \<Rightarrow>
             if opt_magic opt \<noteq> PE32_PLUS_MAGIC then Some (Err UNSUPPORTED)
             else if size_of_image opt = 0 \<or> size_of_image opt > MAX_IMAGE_SIZE
             then Some (Err INVALID_PARAMETER)
             else if unat (address_of_entry_point opt) \<ge> unat (size_of_image opt)
             then Some (Err INVALID_PARAMETER)
             else if size_of_headers opt > size_of_image opt \<or> unat (size_of_headers opt) > length data
             then Some (Err INVALID_PARAMETER)
             else if number_of_rva_and_sizes opt > MAX_DATA_DIRECTORIES
             then Some (Err INVALID_PARAMETER)
             else Some (parse_section_table data coff opt opt_offset)))))"

definition parse_headers :: "u8 list \<Rightarrow> pe_layout efi_result may_panic" where
  "parse_headers data =
     (case parse_dos_header data of
        None \<Rightarrow> Some (Err INVALID_PARAMETER)
      | Some dos \<Rightarrow>
          if e_magic dos \<noteq> DOS_MAGIC then Some (Err INVALID_PARAMETER)
          else
     (case usize_add (unat (e_lfanew dos)) 4 of
        None \<Rightarrow> Some (Err INVALID_PARAMETER)
      | Some coff_offset \<Rightarrow>
          if coff_offset > length data then Some (Err INVALID_PARAMETER)
          else if get_u32 data (unat (e_lfanew dos)) \<noteq> PE_SIGNATURE then Some (Err INVALID_PARAMETER)
          else
     (case slice_from data coff_offset of
        None \<Rightarrow> None
      | Some coff_data \<Rightarrow>
     (case parse_coff_header coff_data of
        None \<Rightarrow> Some (Err INVALID_PARAMETER)
      | Some coff \<Rightarrow>
     (case usize_add coff_offset COFF_HEADER_SIZE of
        None \<Rightarrow> Some (Err INVALID_PARAMETER)
      | Some opt_offset \<Rightarrow>
          if coff_machine coff \<noteq> IMAGE_FILE_MACHINE_AMD64 then Some (Err UNSUPPORTED)
          else if number_of_sections coff > MAX_SECTIONS then Some (Err INVALID_PARAMETER)
          else parse_optional data coff opt_offset)))))"

section \<open>Copying sections\<close>

text \<open>
  The outcome of one section: it is skipped, it is copied, or the image is rejected. \<open>StopSections\<close> is the
  \<open>break\<close> of the loop.
\<close>

datatype section_step = SkipSection | CopySection nat nat nat | RejectImage | StopSections

definition plan_section :: "u8 list \<Rightarrow> u32 \<Rightarrow> section_header option \<Rightarrow> section_step" where
  "plan_section data img_size header =
     (case header of
        None \<Rightarrow> StopSections
      | Some sect \<Rightarrow>
          if size_of_raw_data sect = 0 \<or> pointer_to_raw_data sect = 0 then SkipSection
          else
            (let copy_size = unat (min (size_of_raw_data sect) (virtual_size sect));
                 src_start = unat (pointer_to_raw_data sect);
                 dst_start = unat (virtual_address sect)
             in if src_start + copy_size > length data then SkipSection
                else if dst_start + copy_size > unat img_size then RejectImage
                else CopySection src_start dst_start copy_size))"

text \<open>
  The loop over the section table; \<open>i\<close> counts up, \<open>n\<close> is what is left. The flag tells whether every
  section was accepted.
\<close>

fun copy_sections ::
  "u8 list \<Rightarrow> u32 \<Rightarrow> u64 \<Rightarrow> u8 list \<Rightarrow> nat \<Rightarrow> nat \<Rightarrow> memory \<Rightarrow> bool \<times> memory" where
  "copy_sections data img_size load_addr table i 0 m = (True, m)"
| "copy_sections data img_size load_addr table i (Suc n) m =
     (case plan_section data img_size (parse_section_header (drop (i * SECTION_HEADER_SIZE) table)) of
        StopSections \<Rightarrow> (True, m)
      | SkipSection \<Rightarrow> copy_sections data img_size load_addr table (Suc i) n m
      | RejectImage \<Rightarrow> (False, m)
      | CopySection src dst len \<Rightarrow>
          copy_sections data img_size load_addr table (Suc i) n
            (write_bytes m (load_addr + of_nat dst) (slice src len data)))"

section \<open>Relocations\<close>

text \<open>One entry of a block. The signed arithmetic of the source wraps, so \<open>delta\<close> is a \<open>u64\<close>.\<close>

definition apply_entry ::
  "memory \<Rightarrow> u64 \<Rightarrow> u32 \<Rightarrow> u32 \<Rightarrow> u64 \<Rightarrow> u16 \<Rightarrow> memory \<times> unit efi_result" where
  "apply_entry m base img_size block_rva delta entry =
     (let reloc_type = drop_bit 12 entry; reloc_offset = ucast (entry AND 0x0FFF) :: u32
      in if reloc_type = IMAGE_REL_BASED_DIR64 then
           (case checked_add block_rva reloc_offset of
              None \<Rightarrow> (m, Err INVALID_PARAMETER)
            | Some target_rva \<Rightarrow>
           (case checked_add target_rva 8 of
              None \<Rightarrow> (m, Err INVALID_PARAMETER)
            | Some target_end \<Rightarrow>
                if target_end > img_size then (m, Err INVALID_PARAMETER)
                else
                  (let addr = base + ucast target_rva
                   in (write_u64 m addr (read_u64 m addr + delta), Ok ()))))
         else (m, Ok ()))"

fun apply_entries ::
  "memory \<Rightarrow> u64 \<Rightarrow> u32 \<Rightarrow> u32 \<Rightarrow> u64 \<Rightarrow> u64 \<Rightarrow> nat \<Rightarrow> memory \<times> unit efi_result" where
  "apply_entries m base img_size block_rva delta ptr 0 = (m, Ok ())"
| "apply_entries m base img_size block_rva delta ptr (Suc n) =
     (case apply_entry m base img_size block_rva delta (read_u16 m ptr) of
        (m', Err e) \<Rightarrow> (m', Err e)
      | (m', Ok _) \<Rightarrow> apply_entries m' base img_size block_rva delta (ptr + 2) n)"

text \<open>The loop over the blocks; \<open>dir\<close> is the address of the relocation directory.\<close>

function apply_blocks ::
  "memory \<Rightarrow> u64 \<Rightarrow> u32 \<Rightarrow> u64 \<Rightarrow> u32 \<Rightarrow> u64 \<Rightarrow> u32 \<Rightarrow> memory \<times> unit efi_result" where
  "apply_blocks m base img_size dir reloc_size delta offset =
     (if \<not> offset < reloc_size then (m, Ok ())
      else
        (let remaining = reloc_size - offset
         in if unat remaining < BASE_RELOCATION_HEADER_SIZE then (m, Ok ())
            else
              (let block = dir + ucast offset;
                   block_rva = read_u32 m block;
                   block_size = read_u32 m (block + 4)
               in if block_size = 0 then (m, Ok ())
                  else if block_size < of_nat BASE_RELOCATION_HEADER_SIZE then (m, Err INVALID_PARAMETER)
                  else if block_size > remaining then (m, Err INVALID_PARAMETER)
                  else
                    (case apply_entries m base img_size block_rva delta (block + 8)
                            ((unat block_size - BASE_RELOCATION_HEADER_SIZE) div 2) of
                       (m', Err e) \<Rightarrow> (m', Err e)
                     | (m', Ok _) \<Rightarrow>
                         apply_blocks m' base img_size dir reloc_size delta (offset + block_size)))))"
  by pat_completeness auto

lemma block_advance:
  fixes offset reloc_size block_size :: u32
  assumes "offset < reloc_size" and "\<not> block_size < of_nat BASE_RELOCATION_HEADER_SIZE"
    and "\<not> block_size > reloc_size - offset"
  shows "unat (offset + block_size) = unat offset + unat block_size"
    and "unat (offset + block_size) \<le> unat reloc_size" and "8 \<le> unat block_size"
proof -
  have b: "unat block_size \<le> unat reloc_size - unat offset"
    using assms(1,3) by (simp add: word_nat not_less)
  have "unat offset < unat reloc_size"
    using assms(1) by (simp add: word_nat)
  then have "unat offset + unat block_size < 2 ^ LENGTH(32)"
    using b unat_bound [of reloc_size] by (simp add: less_diff_conv)
  then show u: "unat (offset + block_size) = unat offset + unat block_size"
    by (rule unat_add_lem [THEN iffD1])
  show "unat (offset + block_size) \<le> unat reloc_size"
    using u b \<open>unat offset < unat reloc_size\<close> by simp
  show "8 \<le> unat block_size"
    using assms(2) by (simp add: word_nat BASE_RELOCATION_HEADER_SIZE_def not_less)
qed

termination apply_blocks
proof (relation "measure (\<lambda>(_, _, _, _, reloc_size, _, offset). unat (reloc_size :: u32) - unat (offset :: u32))",
    goal_cases)
  case 1
  then show ?case by simp
next
  case (2 m base img_size dir reloc_size delta offset x xa xb block_size)
  then show ?case
    using block_advance [of offset reloc_size block_size] by (simp add: word_nat)
qed


declare apply_blocks.simps [simp del]

definition apply_relocations ::
  "memory \<Rightarrow> u64 \<Rightarrow> u32 \<Rightarrow> u32 \<Rightarrow> u32 \<Rightarrow> u64 \<Rightarrow> memory \<times> unit efi_result" where
  "apply_relocations m base img_size reloc_rva reloc_size delta =
     (case checked_add reloc_rva reloc_size of
        None \<Rightarrow> (m, Err INVALID_PARAMETER)
      | Some reloc_end \<Rightarrow>
          if reloc_end > img_size then (m, Err INVALID_PARAMETER)
          else apply_blocks m base img_size (base + ucast reloc_rva) reloc_size delta 0)"

text \<open>
  The relocation step of \<open>load_image\<close>: nothing to do when the image sits at its preferred address,
  when there is no relocation directory or when it is empty.
\<close>

definition relocate_image ::
  "u8 list \<Rightarrow> pe_layout \<Rightarrow> u64 \<Rightarrow> memory \<Rightarrow> memory \<times> unit efi_result" where
  "relocate_image data lay load_addr m =
     (let delta = load_addr - pe_image_base lay
      in if delta = 0 then (m, Ok ())
         else
           (let dirs_offset = pe_opt_offset lay + OPTIONAL_HEADER_SIZE;
                dirs_size = unat (pe_data_dirs lay) * DATA_DIRECTORY_SIZE
            in if dirs_offset + dirs_size > length data then (m, Err INVALID_PARAMETER)
               else if unat (pe_data_dirs lay) > IMAGE_DIRECTORY_ENTRY_BASERELOC then
                 (case parse_data_directory
                         (drop (IMAGE_DIRECTORY_ENTRY_BASERELOC * DATA_DIRECTORY_SIZE)
                           (slice dirs_offset dirs_size data)) of
                    None \<Rightarrow> (m, Err INVALID_PARAMETER)
                  | Some dir \<Rightarrow>
                      if dir_virtual_address dir > 0 \<and> dir_size dir > 0
                      then apply_relocations m load_addr (pe_image_size lay)
                             (dir_virtual_address dir) (dir_size dir) delta
                      else (m, Ok ()))
               else (m, Ok ())))"

section \<open>Loading and unloading\<close>

text \<open>Zero fill, headers, sections: the image before relocation.\<close>

definition place_image :: "u8 list \<Rightarrow> pe_layout \<Rightarrow> u64 \<Rightarrow> memory \<Rightarrow> bool \<times> memory" where
  "place_image data lay load_addr m =
     (let m1 = write_bytes m load_addr (replicate (unat (pe_image_size lay)) 0);
          m2 = write_bytes m1 load_addr (slice 0 (unat (pe_headers lay)) data)
      in copy_sections data (pe_image_size lay) load_addr
           (slice (pe_sections_offset lay) (pe_sections_end lay - pe_sections_offset lay) data)
           0 (pe_num_sections lay) m2)"

definition load_image_with ::
  "('s \<Rightarrow> memory_type \<Rightarrow> u64 \<Rightarrow> ('s \<times> efi_status \<times> u64) may_panic) \<Rightarrow>
   ('s \<Rightarrow> u64 \<Rightarrow> u64 \<Rightarrow> 's \<times> efi_status) \<Rightarrow>
   's \<Rightarrow> memory \<Rightarrow> u8 list \<Rightarrow> ('s \<times> memory \<times> loaded_image efi_result) may_panic" where
  "load_image_with alloc release s m data =
     (case parse_headers data of
        None \<Rightarrow> None
      | Some (Err e) \<Rightarrow> Some (s, m, Err e)
      | Some (Ok lay) \<Rightarrow>
          (let n = div_ceil (ucast (pe_image_size lay)) PAGE_SIZE
           in case alloc s LoaderCode n of
                None \<Rightarrow> None
              | Some (s1, status, load_addr) \<Rightarrow>
                  if status \<noteq> SUCCESS then Some (s1, m, Err status)
                  else
                    (case place_image data lay load_addr m of
                       (False, m1) \<Rightarrow> Some (fst (release s1 load_addr n), m1, Err INVALID_PARAMETER)
                     | (True, m1) \<Rightarrow>
                         (case relocate_image data lay load_addr m1 of
                            (m2, Err e) \<Rightarrow> Some (fst (release s1 load_addr n), m2, Err e)
                          | (m2, Ok _) \<Rightarrow>
                              Some (s1, m2, Ok \<lparr>li_image_base = load_addr,
                                li_image_size = ucast (pe_image_size lay),
                                li_entry_point = load_addr + ucast (pe_entry_rva lay),
                                li_num_pages = n\<rparr>)))))"

definition load_image ::
  "memory_allocator \<Rightarrow> memory \<Rightarrow> u8 list \<Rightarrow>
     (memory_allocator \<times> memory \<times> loaded_image efi_result) may_panic" where
  "load_image = load_image_with (\<lambda>s t n. allocate_pages s AllocateAnyPages t n 0) free_pages"

definition unload_image :: "memory_allocator \<Rightarrow> loaded_image \<Rightarrow> memory_allocator \<times> efi_status" where
  "unload_image s img = free_pages s (li_image_base img) (li_num_pages img)"

end
