(* ===== verification/Pe_Correct.thy ===== *)
theory Pe_Correct
  imports Pe_Loader
begin

text \<open>
  Lemmas about the PE loader: what the validated headers guarantee, that no step writes outside the
  image, what the placed image contains, and that the relocation loop adds the load offset at the
  targets the directory names.
\<close>

section \<open>Writes stay inside a range\<close>

definition same_outside :: "u64 \<Rightarrow> nat \<Rightarrow> memory \<Rightarrow> memory \<Rightarrow> bool" where
  "same_outside base n m m' \<longleftrightarrow> (\<forall>x. n \<le> unat (x - base) \<longrightarrow> m' x = m x)"

lemma same_outside_refl [simp]: "same_outside base n m m"
  by (simp add: same_outside_def)

lemma same_outside_trans: "same_outside base n m m' \<Longrightarrow> same_outside base n m' m'' \<Longrightarrow> same_outside base n m m''"
  by (simp add: same_outside_def)

lemma unat_diff_offset:
  fixes x base :: u64
  assumes "off \<le> unat (x - base)" and "off < 2 ^ 64"
  shows "unat (x - (base + of_nat off)) = unat (x - base) - off"
proof -
  have "of_nat off \<le> x - base"
    using assms by (simp add: word_le_nat_alt unat_of_nat)
  then have "unat (x - base - of_nat off) = unat (x - base) - off"
    using assms(2) by (simp add: unat_sub_le unat_of_nat)
  then show ?thesis
    by (simp only: diff_diff_eq)
qed

lemma write_bytes_same_outside:
  assumes "off + length bs \<le> n" and "n < 2 ^ 64"
  shows "same_outside base n m (write_bytes m (base + of_nat off) bs)"
  unfolding same_outside_def
proof (intro allI impI)
  fix x :: u64
  assume n: "n \<le> unat (x - base)"
  then have "unat (x - (base + of_nat off)) = unat (x - base) - off"
    using assms by (intro unat_diff_offset) simp_all
  then show "write_bytes m (base + of_nat off) bs x = m x"
    using n assms(1) by (intro write_bytes_outside) simp
qed

lemma write_u64_same_outside:
  assumes "off + 8 \<le> n" and "n < 2 ^ 64"
  shows "same_outside base n m (write_u64 m (base + of_nat off) v)"
  using write_bytes_same_outside [of off "le_bytes 8 (unat v)" n base m] assms
  by (simp add: write_u64_def)

section \<open>Validated headers\<close>

definition layout_ok :: "u8 list \<Rightarrow> pe_layout \<Rightarrow> bool" where
  "layout_ok data lay \<longleftrightarrow>
     0 < unat (pe_image_size lay) \<and> unat (pe_image_size lay) \<le> 2 ^ 28 \<and>
     unat (pe_entry_rva lay) < unat (pe_image_size lay) \<and>
     unat (pe_headers lay) \<le> unat (pe_image_size lay) \<and> unat (pe_headers lay) \<le> length data \<and>
     pe_sections_end lay = pe_sections_offset lay + pe_num_sections lay * SECTION_HEADER_SIZE \<and>
     pe_sections_end lay \<le> length data \<and> pe_num_sections lay \<le> 96 \<and> unat (pe_data_dirs lay) \<le> 16"

lemma parse_section_table_ok:
  assumes "parse_section_table data coff opt off = Ok lay"
    and "size_of_image opt \<noteq> 0" and "\<not> size_of_image opt > MAX_IMAGE_SIZE"
    and "\<not> unat (address_of_entry_point opt) \<ge> unat (size_of_image opt)"
    and "\<not> (size_of_headers opt > size_of_image opt \<or> unat (size_of_headers opt) > length data)"
    and "\<not> number_of_rva_and_sizes opt > MAX_DATA_DIRECTORIES"
    and "\<not> number_of_sections coff > MAX_SECTIONS"
  shows "layout_ok data lay"
proof -
  have "unat (size_of_image opt) \<le> 2 ^ 28" "unat (number_of_rva_and_sizes opt) \<le> 16"
      "unat (number_of_sections coff) \<le> 96" "unat (size_of_headers opt) \<le> unat (size_of_image opt)"
    using assms(3,5,6,7)
    by (simp_all add: word_nat not_less MAX_IMAGE_SIZE_def MAX_DATA_DIRECTORIES_def MAX_SECTIONS_def)
  then show ?thesis
    using assms
    by (auto simp: parse_section_table_def layout_ok_def usize_add_def usize_mul_def word_nat not_le not_less
        split: option.splits if_splits)
qed

lemma parse_optional_cases:
  assumes "off \<le> length data" and "\<not> number_of_sections coff > MAX_SECTIONS"
  shows "\<exists>r. parse_optional data coff off = Some r \<and> (\<forall>lay. r = Ok lay \<longrightarrow> layout_ok data lay)"
proof -
  have sl: "slice_from data off = Some (drop off data)"
    using assms(1) by (simp add: slice_from_def)
  have "parse_optional data coff off \<noteq> None"
    by (simp add: parse_optional_def sl split: option.split)
  then obtain r where r: "parse_optional data coff off = Some r"
    by blast
  moreover have "layout_ok data lay" if "r = Ok lay" for lay
    using r assms(2) that
    by (auto simp: parse_optional_def sl split: option.splits if_splits
        intro!: parse_section_table_ok [of data coff _ off lay])
  ultimately show ?thesis by blast
qed

lemma parse_headers_cases:
  "\<exists>r. parse_headers data = Some r \<and> (\<forall>lay. r = Ok lay \<longrightarrow> layout_ok data lay)"
proof (cases "parse_dos_header data")
  case None
  then show ?thesis by (simp add: parse_headers_def)
next
  case (Some dos)
  note dos = this
  let ?off = "unat (e_lfanew dos) + 4"
  have add: "usize_add (unat (e_lfanew dos)) 4 = Some ?off"
    using unat_bound [of "e_lfanew dos"] by (simp add: usize_add_def)
  show ?thesis
  proof (cases "e_magic dos \<noteq> DOS_MAGIC \<or> ?off > length data \<or>
      get_u32 data (unat (e_lfanew dos)) \<noteq> PE_SIGNATURE \<or> parse_coff_header (drop ?off data) = None")
    case True
    then show ?thesis
      using dos add by (auto simp: parse_headers_def slice_from_def)
  next
    case False
    then obtain coff where coff: "parse_coff_header (drop ?off data) = Some coff"
      by auto
    have add2: "usize_add ?off COFF_HEADER_SIZE = Some (?off + COFF_HEADER_SIZE)"
      using unat_bound [of "e_lfanew dos"] by (simp add: usize_add_def COFF_HEADER_SIZE_def)
    have len: "?off + COFF_HEADER_SIZE \<le> length data"
      using coff False by (auto simp: parse_coff_header_def split: if_splits)
    show ?thesis
    proof (cases "coff_machine coff \<noteq> IMAGE_FILE_MACHINE_AMD64 \<or> number_of_sections coff > MAX_SECTIONS")
      case True
      then show ?thesis
        using dos add False coff add2 by (auto simp: parse_headers_def slice_from_def)
    next
      case f: False
      then have "parse_headers data = parse_optional data coff (?off + COFF_HEADER_SIZE)"
        using dos add False coff add2 by (auto simp: parse_headers_def slice_from_def)
      then show ?thesis
        using parse_optional_cases [OF len, of coff] f by auto
    qed
  qed
qed

section \<open>Placing the image\<close>

text \<open>The plans of all sections; the last copy that covers an offset determines the byte there.\<close>

definition section_plans :: "u8 list \<Rightarrow> pe_layout \<Rightarrow> section_step list" where
  "section_plans data lay =
     map (\<lambda>i. plan_section data (pe_image_size lay)
        (parse_section_header (drop (i * SECTION_HEADER_SIZE)
          (slice (pe_sections_offset lay) (pe_sections_end lay - pe_sections_offset lay) data))))
       [0..<pe_num_sections lay]"

fun section_source :: "section_step list \<Rightarrow> nat \<Rightarrow> nat option" where
  "section_source [] i = None"
| "section_source (st # sts) i =
     (case section_source sts i of
        Some j \<Rightarrow> Some j
      | None \<Rightarrow>
          (case st of
             CopySection src dst len \<Rightarrow> if dst \<le> i \<and> i < dst + len then Some (src + (i - dst)) else None
           | _ \<Rightarrow> None))"

definition image_byte :: "u8 list \<Rightarrow> pe_layout \<Rightarrow> nat \<Rightarrow> u8" where
  "image_byte data lay i =
     (case section_source (section_plans data lay) i of
        Some j \<Rightarrow> data ! j
      | None \<Rightarrow> if i < unat (pe_headers lay) then data ! i else 0)"

fun run_plans :: "u8 list \<Rightarrow> u64 \<Rightarrow> section_step list \<Rightarrow> memory \<Rightarrow> bool \<times> memory" where
  "run_plans data load_addr [] m = (True, m)"
| "run_plans data load_addr (st # sts) m =
     (case st of
        StopSections \<Rightarrow> (True, m)
      | SkipSection \<Rightarrow> run_plans data load_addr sts m
      | RejectImage \<Rightarrow> (False, m)
      | CopySection src dst len \<Rightarrow>
          run_plans data load_addr sts (write_bytes m (load_addr + of_nat dst) (slice src len data)))"

lemma copy_sections_run:
  "copy_sections data sz load_addr table i n m =
     run_plans data load_addr
       (map (\<lambda>k. plan_section data sz (parse_section_header (drop (k * SECTION_HEADER_SIZE) table))) [i..<i + n]) m"
proof (induction n arbitrary: i m)
  case 0
  then show ?case by simp
next
  case (Suc n)
  have "[i..<i + Suc n] = i # [Suc i..<Suc i + n]"
    by (simp add: upt_rec)
  then show ?case
    using Suc.IH by (simp split: section_step.split)
qed

definition plan_ok :: "u8 list \<Rightarrow> nat \<Rightarrow> section_step \<Rightarrow> bool" where
  "plan_ok data n st \<longleftrightarrow>
     (\<forall>src dst len. st = CopySection src dst len \<longrightarrow> src + len \<le> length data \<and> dst + len \<le> n)"

lemma plan_section_ok: "plan_ok data (unat sz) (plan_section data sz h)"
  by (auto simp: plan_ok_def plan_section_def Let_def split: option.splits if_splits)

lemma plan_section_stop: "plan_section data sz h = StopSections \<longleftrightarrow> h = None"
  by (auto simp: plan_section_def Let_def split: option.splits)

lemma section_plans_ok: "\<forall>st \<in> set (section_plans data lay). plan_ok data (unat (pe_image_size lay)) st"
  by (auto simp: section_plans_def plan_section_ok)

lemma section_plans_no_stop:
  assumes "layout_ok data lay"
  shows "StopSections \<notin> set (section_plans data lay)"
proof
  assume "StopSections \<in> set (section_plans data lay)"
  then obtain i where i: "i < pe_num_sections lay"
    and n: "parse_section_header (drop (i * SECTION_HEADER_SIZE)
      (slice (pe_sections_offset lay) (pe_sections_end lay - pe_sections_offset lay) data)) = None"
    by (auto simp: section_plans_def plan_section_stop eq_commute [of StopSections])
  have "(i + 1) * SECTION_HEADER_SIZE \<le> pe_num_sections lay * SECTION_HEADER_SIZE"
    using i by (intro mult_right_mono) simp_all
  then show False
    using n assms by (auto simp: parse_section_header_def layout_ok_def length_slice split: if_splits)
qed

lemma run_plans_same_outside:
  assumes "\<forall>st \<in> set sts. plan_ok data n st" and "n < 2 ^ 64"
  shows "same_outside load_addr n m (snd (run_plans data load_addr sts m))"
  using assms(1)
proof (induction sts arbitrary: m)
  case Nil
  then show ?case by simp
next
  case (Cons st sts)
  show ?case
  proof (cases st)
    case (CopySection src dst len)
    let ?m = "write_bytes m (load_addr + of_nat dst) (slice src len data)"
    have "src + len \<le> length data" "dst + len \<le> n"
      using Cons.prems CopySection by (auto simp: plan_ok_def)
    then have "same_outside load_addr n m ?m"
      using assms(2) by (intro write_bytes_same_outside) (simp_all add: length_slice)
    then show ?thesis
      using Cons CopySection by (auto intro: same_outside_trans)
  qed (use Cons in auto)
qed

lemma write_bytes_at:
  assumes "dst + length bs \<le> n" and "i < n" and "n < 2 ^ 64"
  shows "write_bytes m (base + of_nat dst) bs (base + of_nat i) =
    (if dst \<le> i \<and> i < dst + length bs then bs ! (i - dst) else m (base + of_nat i))"
proof (cases "dst \<le> i")
  case True
  have "unat (base + of_nat i - base) = i"
    using assms(2,3) by (simp add: unat_of_nat)
  then have "unat (base + of_nat i - (base + of_nat dst)) = i - dst"
    using True assms unat_diff_offset [of dst "base + of_nat i" base] by simp
  then show ?thesis
    using True by (auto simp: write_bytes_def)
next
  case False
  then have "unat (of_nat i - of_nat dst :: u64) = 2 ^ 64 + i - dst"
    using assms by (simp add: unat_sub_if' unat_of_nat)
  then have "unat (base + of_nat i - (base + of_nat dst)) = 2 ^ 64 + i - dst"
    by (simp only: add_diff_cancel_left)
  then show ?thesis
    using False assms by (intro trans [OF write_bytes_outside]) simp_all
qed

lemma run_plans_content:
  assumes "\<forall>st \<in> set sts. plan_ok data n st" and "StopSections \<notin> set sts"
    and "run_plans data load_addr sts m = (True, m')" and "i < n" and "n < 2 ^ 64"
  shows "m' (load_addr + of_nat i) =
    (case section_source sts i of Some j \<Rightarrow> data ! j | None \<Rightarrow> m (load_addr + of_nat i))"
  using assms(1-3)
proof (induction sts arbitrary: m)
  case Nil
  then show ?case by simp
next
  case (Cons st sts)
  show ?case
  proof (cases st)
    case (CopySection src dst len)
    have ok: "src + len \<le> length data" "dst + len \<le> n"
      using Cons.prems(1) CopySection by (auto simp: plan_ok_def)
    have "write_bytes m (load_addr + of_nat dst) (slice src len data) (load_addr + of_nat i) =
        (if dst \<le> i \<and> i < dst + len then data ! (src + (i - dst)) else m (load_addr + of_nat i))"
      using write_bytes_at [of dst "slice src len data" n i m load_addr] ok assms(4,5)
      by (auto simp: length_slice slice_def)
    then show ?thesis
      using Cons CopySection by (auto split: option.split)
  qed (use Cons in \<open>auto split: option.split\<close>)
qed

lemma place_image_run:
  "place_image data lay load_addr m =
     run_plans data load_addr (section_plans data lay)
       (write_bytes (write_bytes m load_addr (replicate (unat (pe_image_size lay)) 0)) load_addr
         (slice 0 (unat (pe_headers lay)) data))"
  by (simp add: place_image_def copy_sections_run section_plans_def)

lemma layout_size: "layout_ok data lay \<Longrightarrow> unat (pe_image_size lay) < 2 ^ 64"
  by (simp add: layout_ok_def)

lemma place_image_same_outside:
  assumes "layout_ok data lay"
  shows "same_outside load_addr (unat (pe_image_size lay)) m (snd (place_image data lay load_addr m))"
proof -
  let ?n = "unat (pe_image_size lay)"
  have "same_outside load_addr ?n m (write_bytes m load_addr (replicate ?n 0))" for m
    using write_bytes_same_outside [of 0 "replicate ?n 0" ?n load_addr m] layout_size [OF assms] by simp
  moreover have "same_outside load_addr ?n m (write_bytes m load_addr (slice 0 (unat (pe_headers lay)) data))" for m
    using write_bytes_same_outside [of 0 "slice 0 (unat (pe_headers lay)) data" ?n load_addr m] assms
    by (simp add: layout_ok_def length_slice)
  moreover have "same_outside load_addr ?n m (snd (run_plans data load_addr (section_plans data lay) m))" for m
    by (rule run_plans_same_outside [OF section_plans_ok layout_size [OF assms]])
  ultimately show ?thesis
    unfolding place_image_run by (meson same_outside_trans)
qed

lemma place_image_content:
  assumes lay: "layout_ok data lay" and "place_image data lay load_addr m = (True, m')"
    and i: "i < unat (pe_image_size lay)"
  shows "m' (load_addr + of_nat i) = image_byte data lay i"
proof -
  let ?n = "unat (pe_image_size lay)"
  let ?m1 = "write_bytes m load_addr (replicate ?n 0)"
  let ?m2 = "write_bytes ?m1 load_addr (slice 0 (unat (pe_headers lay)) data)"
  have "?m1 (load_addr + of_nat i) = 0"
    using write_bytes_at [of 0 "replicate ?n 0" ?n i m load_addr] i layout_size [OF lay] by simp
  then have "?m2 (load_addr + of_nat i) = (if i < unat (pe_headers lay) then data ! i else 0)"
    using write_bytes_at [of 0 "slice 0 (unat (pe_headers lay)) data" ?n i ?m1 load_addr] i lay
    by (simp add: layout_ok_def length_slice slice_def)
  moreover have "m' (load_addr + of_nat i) =
      (case section_source (section_plans data lay) i of
         Some j \<Rightarrow> data ! j | None \<Rightarrow> ?m2 (load_addr + of_nat i))"
    using assms(2) unfolding place_image_run
    by (rule run_plans_content [OF section_plans_ok section_plans_no_stop [OF lay] _ i layout_size [OF lay]])
  ultimately show ?thesis
    by (simp only: image_byte_def)
qed

section \<open>Relocations\<close>

text \<open>
  The reference: first read the whole directory, collecting the targets, then add the offset at each
  target. The loop of the source interleaves the two.
\<close>

definition relocate_at :: "u64 \<Rightarrow> u64 \<Rightarrow> memory \<Rightarrow> u32 \<Rightarrow> memory" where
  "relocate_at base delta m t =
     write_u64 m (base + ucast t) (read_u64 m (base + ucast t) + delta)"

definition entry_target :: "u32 \<Rightarrow> u32 \<Rightarrow> u16 \<Rightarrow> u32 list efi_result" where
  "entry_target img_size block_rva entry =
     (if drop_bit 12 entry = IMAGE_REL_BASED_DIR64 then
        (let off = unat (entry AND 0x0FFF)
         in if unat block_rva + off + 8 \<le> unat img_size then Ok [block_rva + ucast (entry AND 0x0FFF)]
            else Err INVALID_PARAMETER)
      else Ok [])"

fun block_targets :: "memory \<Rightarrow> u32 \<Rightarrow> u32 \<Rightarrow> u64 \<Rightarrow> nat \<Rightarrow> u32 list efi_result" where
  "block_targets m img_size block_rva ptr 0 = Ok []"
| "block_targets m img_size block_rva ptr (Suc n) =
     (case entry_target img_size block_rva (read_u16 m ptr) of
        Err e \<Rightarrow> Err e
      | Ok ts \<Rightarrow>
          (case block_targets m img_size block_rva (ptr + 2) n of
             Err e \<Rightarrow> Err e
           | Ok us \<Rightarrow> Ok (ts @ us)))"

function dir_targets :: "memory \<Rightarrow> u32 \<Rightarrow> u64 \<Rightarrow> u32 \<Rightarrow> nat \<Rightarrow> u32 list efi_result" where
  "dir_targets m img_size dir reloc_size offset =
     (if unat reloc_size < offset + 8 then Ok []
      else
        (let block = dir + of_nat offset;
             block_size = unat (read_u32 m (block + 4))
         in if block_size = 0 then Ok []
            else if block_size < 8 \<or> unat reloc_size - offset < block_size then Err INVALID_PARAMETER
            else
              (case block_targets m img_size (read_u32 m block) (block + 8) ((block_size - 8) div 2) of
                 Err e \<Rightarrow> Err e
               | Ok ts \<Rightarrow>
                   (case dir_targets m img_size dir reloc_size (offset + block_size) of
                      Err e \<Rightarrow> Err e
                    | Ok us \<Rightarrow> Ok (ts @ us)))))"
  by pat_completeness auto

termination dir_targets
  by (relation "measure (\<lambda>(_, _, _, reloc_size, offset). unat (reloc_size :: u32) - offset)") auto

declare dir_targets.simps [simp del]

lemma entry_target_bound:
  assumes "entry_target img_size block_rva entry = Ok ts" and "t \<in> set ts"
  shows "unat t + 8 \<le> unat img_size"
proof -
  let ?off = "unat (entry AND 0x0FFF)"
  have t: "t = block_rva + ucast (entry AND 0x0FFF)" and b: "unat block_rva + ?off + 8 \<le> unat img_size"
    using assms by (auto simp: entry_target_def Let_def split: if_splits)
  have "unat (ucast (entry AND 0x0FFF) :: u32) = ?off"
    by (rule unat_ucast_widen) simp
  then have "unat t = unat block_rva + ?off"
    unfolding t using b unat_bound [of img_size] by (subst unat_plus_less) simp_all
  with b show ?thesis by simp
qed

lemma apply_entry_target:
  "apply_entry m base img_size block_rva delta entry =
     (case entry_target img_size block_rva entry of
        Err e \<Rightarrow> (m, Err e)
      | Ok ts \<Rightarrow> (foldl (relocate_at base delta) m ts, Ok ()))"
proof (cases "drop_bit 12 entry = IMAGE_REL_BASED_DIR64")
  case False
  then show ?thesis
    by (simp add: apply_entry_def entry_target_def Let_def)
next
  case True
  let ?w = "ucast (entry AND 0x0FFF) :: u32" and ?off = "unat (entry AND 0x0FFF)"
  have uw: "unat ?w = ?off"
    by (rule unat_ucast_widen) simp
  show ?thesis
  proof (cases "unat block_rva + ?off + 8 \<le> unat img_size")
    case ok: True
    have lt: "unat block_rva + ?off + 8 < 2 ^ 32"
      using ok unat_bound [of img_size] by simp
    have c1: "checked_add block_rva ?w = Some (block_rva + ?w)"
      using lt uw by (intro checked_add_SomeI) simp
    then have u1: "unat (block_rva + ?w) = unat block_rva + ?off"
      using uw by (simp add: checked_add_Some_iff)
    have c2: "checked_add (block_rva + ?w) 8 = Some (block_rva + ?w + 8)"
      using lt u1 by (intro checked_add_SomeI) simp
    then have "unat (block_rva + ?w + 8) = unat block_rva + ?off + 8"
      using u1 by (simp add: checked_add_Some_iff)
    then have "\<not> img_size < block_rva + ?w + 8"
      using ok by (simp add: word_nat)
    then show ?thesis
      using True ok c1 c2 by (simp add: apply_entry_def entry_target_def relocate_at_def Let_def)
  next
    case bad: False
    have "apply_entry m base img_size block_rva delta entry = (m, Err INVALID_PARAMETER)"
    proof (cases "checked_add block_rva ?w")
      case None
      then show ?thesis
        using True by (simp add: apply_entry_def Let_def)
    next
      case (Some a)
      show ?thesis
      proof (cases "checked_add a 8")
        case None
        then show ?thesis
          using True Some by (simp add: apply_entry_def Let_def)
      next
        case s2: (Some b)
        then have "unat b = unat block_rva + ?off + 8"
          using Some uw by (simp add: checked_add_Some_iff)
        then have "img_size < b"
          using bad by (simp add: word_nat)
        then show ?thesis
          using True Some s2 by (simp add: apply_entry_def Let_def)
      qed
    qed
    then show ?thesis
      using True bad by (simp add: entry_target_def Let_def)
  qed
qed

text \<open>No relocation writes outside the image, whatever the directory holds.\<close>

lemma relocate_at_same_outside:
  assumes "unat t + 8 \<le> n" and "n < 2 ^ 64"
  shows "same_outside base n m (relocate_at base delta m t)"
  using write_u64_same_outside [of "unat t" n base m] assms by (simp add: relocate_at_def)

lemma relocate_list_same_outside:
  assumes "\<forall>t \<in> set ts. unat t + 8 \<le> n" and "n < 2 ^ 64"
  shows "same_outside base n m (foldl (relocate_at base delta) m ts)"
  using assms(1)
  by (induction ts arbitrary: m)
    (auto intro: same_outside_trans [OF relocate_at_same_outside [OF _ assms(2)]])

lemma u32_lt_64: "unat (x :: u32) < 2 ^ 64"
  using unat_bound [of x] by simp

lemma apply_entry_same_outside:
  "same_outside base (unat img_size) m (fst (apply_entry m base img_size block_rva delta entry))"
  unfolding apply_entry_target
  by (auto split: sum.split dest: entry_target_bound intro!: relocate_list_same_outside u32_lt_64)

lemma apply_entries_same_outside:
  "same_outside base (unat img_size) m (fst (apply_entries m base img_size block_rva delta ptr n))"
proof (induction n arbitrary: m ptr)
  case 0
  then show ?case by simp
next
  case (Suc n)
  obtain m1 r where e: "apply_entry m base img_size block_rva delta (read_u16 m ptr) = (m1, r)"
    by fastforce
  then have "same_outside base (unat img_size) m m1"
    using apply_entry_same_outside [of base img_size m block_rva delta "read_u16 m ptr"] by simp
  then show ?case
    using e Suc.IH [of m1 "ptr + 2"] by (auto split: sum.split intro: same_outside_trans)
qed

lemma apply_blocks_same_outside:
  "same_outside base (unat img_size) m (fst (apply_blocks m base img_size dir reloc_size delta offset))"
proof (induction m base img_size dir reloc_size delta offset rule: apply_blocks.induct)
  case (1 m base img_size dir reloc_size delta offset)
  let ?rva = "read_u32 m (dir + ucast offset)" and ?bs = "read_u32 m (dir + ucast offset + 4)"
  obtain m1 r where e: "apply_entries m base img_size ?rva delta (dir + ucast offset + 8)
      ((unat ?bs - BASE_RELOCATION_HEADER_SIZE) div 2) = (m1, r)"
    by fastforce
  then have s: "same_outside base (unat img_size) m m1"
    using apply_entries_same_outside [of base img_size m ?rva delta] by (metis fst_conv)
  show ?case
  proof (cases "r = Ok ()")
    case True
    then show ?thesis
      using 1 e s
      by (subst apply_blocks.simps) (auto simp: Let_def intro: same_outside_trans [OF s])
  next
    case False
    then show ?thesis
      using e s by (subst apply_blocks.simps) (auto simp: Let_def split: sum.split)
  qed
qed

lemma apply_relocations_same_outside:
  "same_outside base (unat img_size) m (fst (apply_relocations m base img_size rva sz delta))"
  by (auto simp: apply_relocations_def apply_blocks_same_outside split: option.split)

lemma relocate_image_same_outside:
  "same_outside load_addr (unat (pe_image_size lay)) m (fst (relocate_image data lay load_addr m))"
  by (auto simp: relocate_image_def Let_def apply_relocations_same_outside split: option.split)

text \<open>
  As long as no target overlaps the directory, the directory reads the same throughout.
\<close>

definition agree :: "u64 \<Rightarrow> nat \<Rightarrow> memory \<Rightarrow> memory \<Rightarrow> bool" where
  "agree dir n m m' \<longleftrightarrow> (\<forall>i < n. m' (dir + of_nat i) = m (dir + of_nat i))"

definition clear_of :: "u32 \<Rightarrow> u32 \<Rightarrow> u32 \<Rightarrow> bool" where
  "clear_of rva sz t \<longleftrightarrow> unat t + 8 \<le> unat rva \<or> unat rva + unat sz \<le> unat t"

lemma agree_read_bytes:
  assumes "agree dir n m m'" and "p + k \<le> n"
  shows "read_bytes m' (dir + of_nat p) k = read_bytes m (dir + of_nat p) k"
proof (rule read_bytes_cong)
  fix i
  assume "i < k"
  then have "m' (dir + of_nat (p + i)) = m (dir + of_nat (p + i))"
    using assms by (simp only: agree_def)
  then show "m' (dir + of_nat p + of_nat i) = m (dir + of_nat p + of_nat i)"
    by (simp only: of_nat_add add.assoc)
qed

lemma agree_reads:
  "agree dir n m m' \<Longrightarrow> p + 2 \<le> n \<Longrightarrow> read_u16 m' (dir + of_nat p) = read_u16 m (dir + of_nat p)"
  "agree dir n m m' \<Longrightarrow> p + 4 \<le> n \<Longrightarrow> read_u32 m' (dir + of_nat p) = read_u32 m (dir + of_nat p)"
  by (simp_all add: read_u16_def read_u32_def agree_read_bytes)

lemma agree_relocate_at:
  fixes img_size :: u32
  assumes "clear_of rva sz t" and "unat t + 8 \<le> unat img_size" and "unat rva + unat sz \<le> unat img_size"
  shows "agree (base + ucast rva) (unat sz) m (relocate_at base delta m t)"
  unfolding agree_def
proof (intro allI impI)
  fix i
  assume i: "i < unat sz"
  have "relocate_at base delta m t (base + of_nat (unat rva + i)) = m (base + of_nat (unat rva + i))"
    using write_bytes_at [of "unat t" "le_bytes 8 (unat (read_u64 m (base + ucast t) + delta))"
        "unat img_size" "unat rva + i" m base] assms i u32_lt_64 [of img_size]
    by (auto simp: relocate_at_def write_u64_def clear_of_def simp del: of_nat_add)
  then show "relocate_at base delta m t (base + ucast rva + of_nat i) = m (base + ucast rva + of_nat i)"
    by (simp add: add.assoc)
qed

lemma agree_trans: "agree dir n m m' \<Longrightarrow> agree dir n m' m'' \<Longrightarrow> agree dir n m m''"
  by (simp add: agree_def)

lemma agree_relocate_list:
  fixes img_size :: u32
  assumes "\<forall>t \<in> set ts. clear_of rva sz t \<and> unat t + 8 \<le> unat img_size"
    and "unat rva + unat sz \<le> unat img_size"
  shows "agree (base + ucast rva) (unat sz) m (foldl (relocate_at base delta) m ts)"
  using assms(1)
proof (induction ts arbitrary: m)
  case Nil
  then show ?case by (simp add: agree_def)
next
  case (Cons t ts)
  then show ?case
    using agree_relocate_at [OF _ _ assms(2), of t base m delta] by (auto intro: agree_trans)
qed

lemma block_targets_bound:
  "block_targets m img_size rva ptr n = Ok ts \<Longrightarrow> t \<in> set ts \<Longrightarrow> unat t + 8 \<le> unat img_size"
proof (induction n arbitrary: ptr ts)
  case 0
  then show ?case by simp
next
  case (Suc n)
  then show ?case
    by (auto split: sum.splits dest: entry_target_bound)
qed

lemma apply_entries_targets:
  assumes dir: "dir = base + ucast rva" and fit: "unat rva + unat sz \<le> unat img_size"
    and "agree dir (unat sz) m0 m" and "p + 2 * n \<le> unat sz"
    and "block_targets m0 img_size block_rva (dir + of_nat p) n = Ok ts"
    and "\<forall>t \<in> set ts. clear_of rva sz t"
  shows "apply_entries m base img_size block_rva delta (dir + of_nat p) n =
    (foldl (relocate_at base delta) m ts, Ok ())"
  using assms(3-6)
proof (induction n arbitrary: m p ts)
  case 0
  then show ?case by simp
next
  case (Suc n)
  have next_ptr: "dir + of_nat p + 2 = dir + of_nat (p + 2)"
    by simp
  obtain us vs where us: "entry_target img_size block_rva (read_u16 m0 (dir + of_nat p)) = Ok us"
    and vs: "block_targets m0 img_size block_rva (dir + of_nat (p + 2)) n = Ok vs" and ts: "ts = us @ vs"
    using Suc.prems(3) unfolding block_targets.simps next_ptr by (auto split: sum.splits)
  have rd: "read_u16 m (dir + of_nat p) = read_u16 m0 (dir + of_nat p)"
    using Suc.prems by (intro agree_reads(1) [of dir "unat sz"]) simp_all
  let ?m = "foldl (relocate_at base delta) m us"
  have "agree dir (unat sz) m ?m"
    unfolding dir using Suc.prems(4) ts entry_target_bound [OF us]
    by (intro agree_relocate_list [OF _ fit]) auto
  then have "apply_entries ?m base img_size block_rva delta (dir + of_nat (p + 2)) n =
      (foldl (relocate_at base delta) ?m vs, Ok ())"
    using Suc.prems ts vs by (intro Suc.IH) (auto intro: agree_trans)
  then show ?case
    unfolding apply_entries.simps next_ptr apply_entry_target rd us by (simp add: ts)
qed

lemma ucast_offset: "ucast offset = (of_nat (unat offset) :: u64)" for offset :: u32
  by simp

lemma dir_targets_step:
  assumes "dir_targets m img_size dir sz off = Ok ts" and "\<not> unat sz < off + 8"
    and "unat (read_u32 m (dir + of_nat off + 4)) = bs" and "bs \<noteq> 0"
  obtains us vs where "8 \<le> bs" and "bs \<le> unat sz - off"
    and "block_targets m img_size (read_u32 m (dir + of_nat off)) (dir + of_nat off + 8) ((bs - 8) div 2) = Ok us"
    and "dir_targets m img_size dir sz (off + bs) = Ok vs" and "ts = us @ vs"
proof -
  have eq: "dir_targets m img_size dir sz off =
      (if bs < 8 \<or> unat sz - off < bs then Err INVALID_PARAMETER
       else (case block_targets m img_size (read_u32 m (dir + of_nat off)) (dir + of_nat off + 8) ((bs - 8) div 2) of
               Err e \<Rightarrow> Err e
             | Ok ts \<Rightarrow> (case dir_targets m img_size dir sz (off + bs) of Err e \<Rightarrow> Err e | Ok us \<Rightarrow> Ok (ts @ us))))"
    using assms(2,4) unfolding assms(3) [symmetric] by (subst dir_targets.simps) (simp add: Let_def)
  show thesis
    using assms(1) that unfolding eq by (fastforce split: if_splits sum.splits)
qed

lemma apply_blocks_targets:
  assumes dir: "dir = base + ucast rva" and fit: "unat rva + unat sz \<le> unat img_size"
    and "agree dir (unat sz) m0 m"
    and "dir_targets m0 img_size dir sz (unat offset) = Ok ts" and "\<forall>t \<in> set ts. clear_of rva sz t"
  shows "apply_blocks m base img_size dir sz delta offset = (foldl (relocate_at base delta) m ts, Ok ())"
  using assms(3-5)
proof (induction "unat sz - unat offset" arbitrary: m offset ts rule: less_induct)
  case less
  note ag = less.prems(1)
  let ?block = "dir + of_nat (unat offset) :: u64"
  have blk: "dir + ucast offset = ?block" "?block + 4 = dir + of_nat (unat offset + 4)"
    "?block + 8 = dir + of_nat (unat offset + 8)"
    by (simp_all add: add.assoc)
  show ?case
  proof (cases "unat sz < unat offset + 8")
    case True
    have "\<not> offset < sz \<or> unat (sz - offset) < BASE_RELOCATION_HEADER_SIZE"
      using True by (auto simp: word_nat BASE_RELOCATION_HEADER_SIZE_def)
    moreover have "ts = []"
      using less.prems(2) True by (subst (asm) dir_targets.simps) simp
    ultimately show ?thesis
      by (subst apply_blocks.simps) (auto simp: Let_def)
  next
    case False
    then have lt: "offset < sz" and rem: "unat (sz - offset) = unat sz - unat offset"
      by (simp_all add: word_nat)
    let ?bs = "read_u32 m0 (?block + 4)"
    have rd: "read_u32 m ?block = read_u32 m0 ?block" "read_u32 m (?block + 4) = ?bs"
      using agree_reads(2) [OF ag, of "unat offset"] agree_reads(2) [OF ag, of "unat offset + 4"] False
      unfolding blk(2) by simp_all
    show ?thesis
    proof (cases "?bs = 0")
      case True
      then have "ts = []"
        using less.prems(2) False by (subst (asm) dir_targets.simps) (simp add: Let_def)
      then show ?thesis
        using lt rem False True rd
        by (subst apply_blocks.simps) (simp add: Let_def BASE_RELOCATION_HEADER_SIZE_def)
    next
      case bs0: False
      then have nz: "unat ?bs \<noteq> 0"
        by (simp add: unat_eq_zero)
      obtain us vs where bs: "8 \<le> unat ?bs" "unat ?bs \<le> unat sz - unat offset"
        and us: "block_targets m0 img_size (read_u32 m0 ?block) (?block + 8) ((unat ?bs - 8) div 2) = Ok us"
        and vs: "dir_targets m0 img_size dir sz (unat offset + unat ?bs) = Ok vs" and ts: "ts = us @ vs"
        by (rule dir_targets_step [OF less.prems(2) False refl nz])
      have adv: "unat (offset + ?bs) = unat offset + unat ?bs"
        using bs False unat_bound [of sz] by (intro unat_plus_less) simp
      let ?m = "foldl (relocate_at base delta) m us"
      have ent: "apply_entries m base img_size (read_u32 m0 ?block) delta (?block + 8) ((unat ?bs - 8) div 2) =
          (?m, Ok ())"
        unfolding blk(3)
        by (rule apply_entries_targets [OF dir fit ag])
          (use us ts bs False less.prems(3) in \<open>simp_all add: add.assoc\<close>)
      have "agree dir (unat sz) m ?m"
        unfolding dir using less.prems(3) ts block_targets_bound [OF us]
        by (intro agree_relocate_list [OF _ fit]) auto
      then have "apply_blocks ?m base img_size dir sz delta (offset + ?bs) =
          (foldl (relocate_at base delta) ?m vs, Ok ())"
        using vs ts less.prems(3) bs False adv ag
        by (intro less.hyps) (auto intro: agree_trans)
      then show ?thesis
        using lt rem False bs0 rd ent bs ts
        by (subst apply_blocks.simps)
          (simp add: Let_def BASE_RELOCATION_HEADER_SIZE_def word_less_nat_alt)
    qed
  qed
qed

text \<open>With targets that do not overlap each other, each one is shifted exactly once.\<close>

definition targets_apart :: "u32 list \<Rightarrow> bool" where
  "targets_apart ts \<longleftrightarrow> sorted_wrt (\<lambda>t u. unat t + 8 \<le> unat u \<or> unat u + 8 \<le> unat t) ts"

lemma read_relocate_apart:
  fixes t u :: u32
  assumes "unat t + 8 \<le> unat u \<or> unat u + 8 \<le> unat t"
  shows "read_u64 (relocate_at base delta m t) (base + ucast u) = read_u64 m (base + ucast u)"
proof (rule read_u64_cong)
  fix i :: nat
  assume i: "i < 8"
  then have "unat t + 8 \<le> 2 ^ 33" "unat u + i < 2 ^ 33"
    using unat_bound [of t] unat_bound [of u] by simp_all
  then have "relocate_at base delta m t (base + of_nat (unat u + i)) = m (base + of_nat (unat u + i))"
    using write_bytes_at [of "unat t" "le_bytes 8 (unat (read_u64 m (base + ucast t) + delta))" "2 ^ 33"
        "unat u + i" m base] assms i
    by (auto simp: relocate_at_def write_u64_def simp del: of_nat_add)
  then show "relocate_at base delta m t (base + ucast u + of_nat i) = m (base + ucast u + of_nat i)"
    by (simp add: add.assoc)
qed

lemma read_relocate_same:
  "read_u64 (relocate_at base delta m t) (base + ucast t) = read_u64 m (base + ucast t) + delta"
  by (simp add: relocate_at_def)

lemma read_relocate_list_apart:
  fixes u :: u32
  assumes "\<forall>t \<in> set ts. unat t + 8 \<le> unat u \<or> unat u + 8 \<le> unat t"
  shows "read_u64 (foldl (relocate_at base delta) m ts) (base + ucast u) = read_u64 m (base + ucast u)"
  using assms by (induction ts arbitrary: m) (auto simp: read_relocate_apart)

lemma read_relocate_list:
  assumes "targets_apart ts" and "t \<in> set ts"
  shows "read_u64 (foldl (relocate_at base delta) m ts) (base + ucast t) = read_u64 m (base + ucast t) + delta"
  using assms
proof (induction ts arbitrary: m)
  case Nil
  then show ?case by simp
next
  case (Cons u ts)
  show ?case
  proof (cases "t = u")
    case True
    then have "\<forall>v \<in> set ts. unat v + 8 \<le> unat t \<or> unat t + 8 \<le> unat v"
      using Cons.prems(1) by (auto simp: targets_apart_def)
    then show ?thesis
      using True by (simp add: read_relocate_list_apart read_relocate_same)
  next
    case False
    then have "unat u + 8 \<le> unat t \<or> unat t + 8 \<le> unat u"
      using Cons.prems by (auto simp: targets_apart_def)
    then show ?thesis
      using Cons False by (auto simp: targets_apart_def read_relocate_apart)
  qed
qed

lemma relocate_list_elsewhere:
  assumes "\<forall>t \<in> set ts. 8 \<le> unat (x - (base + ucast t))"
  shows "foldl (relocate_at base delta) m ts x = m x"
  using assms by (induction ts arbitrary: m) (auto simp: relocate_at_def write_u64_outside)

section \<open>Loading\<close>

lemma image_pages:
  assumes "layout_ok data lay"
  defines "n \<equiv> div_ceil (ucast (pe_image_size lay)) PAGE_SIZE"
  shows "unat (pe_image_size lay) \<le> 4096 * unat n" and "n \<noteq> 0"
proof -
  let ?u = "ucast (pe_image_size lay) :: u64"
  have u: "unat ?u = unat (pe_image_size lay)"
    by (rule unat_ucast_widen) simp
  have q: "unat (?u div PAGE_SIZE) = unat (pe_image_size lay) div 4096"
    by (simp add: unat_div_eq u)
  have r: "?u mod PAGE_SIZE = 0 \<longleftrightarrow> unat (pe_image_size lay) mod 4096 = 0"
    using unat_mod_eq [of ?u PAGE_SIZE] u by (simp add: unat_eq_zero [symmetric])
  have "unat (?u div PAGE_SIZE + 1) = unat (pe_image_size lay) div 4096 + 1"
    using assms(1) q by (subst unat_plus_less) (auto simp: layout_ok_def)
  then have n: "unat n = (if unat (pe_image_size lay) mod 4096 = 0 then unat (pe_image_size lay) div 4096
      else unat (pe_image_size lay) div 4096 + 1)"
    by (simp add: n_def div_ceil_def r q)
  show b: "unat (pe_image_size lay) \<le> 4096 * unat n"
  proof (cases "unat (pe_image_size lay) mod 4096 = 0")
    case True
    then show ?thesis
      using n by auto
  next
    case False
    then show ?thesis
      using n mult_div_mod_eq [of 4096 "unat (pe_image_size lay)"]
        mod_less_divisor [of 4096 "unat (pe_image_size lay)"] by simp
  qed
  show "n \<noteq> 0"
    using b assms(1) by (auto simp: layout_ok_def)
qed

context page_provider
begin

lemma load_total:
  assumes "ok s"
  shows "\<exists>s' m' r. load_image_with alloc release s m data = Some (s', m', r) \<and> ok s'"
proof -
  obtain r where r: "parse_headers data = Some r"
    using parse_headers_cases by blast
  show ?thesis
  proof (cases r)
    case (Inl e)
    then show ?thesis
      using r assms by (simp add: load_image_with_def)
  next
    case (Inr lay)
    let ?n = "div_ceil (ucast (pe_image_size lay)) PAGE_SIZE"
    obtain s1 st a where a: "alloc s LoaderCode ?n = Some (s1, st, a)"
      using alloc_total [OF assms] by blast
    show ?thesis
    proof (cases "st = SUCCESS")
      case False
      then show ?thesis
        using r Inr a alloc_failed [OF assms a False] assms by (simp add: load_image_with_def Let_def)
    next
      case True
      have "ok s1"
        using alloc_ok [OF assms] a True by blast
      moreover have "ok (fst (release s1 a ?n))"
        using release_ok [OF \<open>ok s1\<close> prod.collapse [symmetric]] .
      ultimately show ?thesis
        using r Inr a True
        by (auto simp: load_image_with_def Let_def split: prod.splits bool.splits sum.splits)
    qed
  qed
qed

lemma load_effect:
  assumes "ok s" and "load_image_with alloc release s m data = Some (s', m', r)" and "m' \<noteq> m \<or> (\<exists>i. r = Ok i)"
  obtains lay s1 a n where "parse_headers data = Some (Ok lay)" and "layout_ok data lay"
    and "n = div_ceil (ucast (pe_image_size lay)) PAGE_SIZE"
    and "alloc s LoaderCode n = Some (s1, SUCCESS, a)"
    and "same_outside a (unat (pe_image_size lay)) m m'"
    and "(\<exists>e. r = Err e \<and> s' = fst (release s1 a n)) \<or>
      (\<exists>m1. place_image data lay a m = (True, m1) \<and> relocate_image data lay a m1 = (m', Ok ()) \<and>
         s' = s1 \<and> r = Ok \<lparr>li_image_base = a, li_image_size = ucast (pe_image_size lay),
           li_entry_point = a + ucast (pe_entry_rva lay), li_num_pages = n\<rparr>)"
proof -
  obtain lay where lay: "parse_headers data = Some (Ok lay)"
    using assms(2,3) by (auto simp: load_image_with_def split: option.splits sum.splits)
  then have ok: "layout_ok data lay"
    using parse_headers_cases [of data] by auto
  define n where "n = div_ceil (ucast (pe_image_size lay) :: u64) PAGE_SIZE"
  obtain s1 st a where a: "alloc s LoaderCode n = Some (s1, st, a)"
    using alloc_total [OF assms(1)] by blast
  have st: "st = SUCCESS"
    using assms(2,3) lay a by (auto simp: load_image_with_def Let_def n_def split: if_splits)
  obtain good m1 where p: "place_image data lay a m = (good, m1)"
    by fastforce
  obtain m2 q where rl: "relocate_image data lay a m1 = (m2, q)"
    by fastforce
  have o1: "same_outside a (unat (pe_image_size lay)) m m1"
    using place_image_same_outside [OF ok, of a m] p by simp
  have o2: "same_outside a (unat (pe_image_size lay)) m1 m2"
    using relocate_image_same_outside [of a lay m1 data] rl by simp
  have run: "(m' = m1 \<and> (\<exists>e. r = Err e \<and> s' = fst (release s1 a n))) \<or>
      (m' = m2 \<and> ((\<exists>e. r = Err e \<and> s' = fst (release s1 a n)) \<or>
        (good \<and> q = Ok () \<and> s' = s1 \<and> r = Ok \<lparr>li_image_base = a, li_image_size = ucast (pe_image_size lay),
           li_entry_point = a + ucast (pe_entry_rva lay), li_num_pages = n\<rparr>)))"
    using assms(2) lay a st p rl
    by (auto simp: load_image_with_def Let_def n_def [symmetric] split: bool.splits sum.splits)
  have a': "alloc s LoaderCode n = Some (s1, SUCCESS, a)"
    using a st by simp
  show thesis
  proof (rule that [OF lay ok n_def a'])
    show "same_outside a (unat (pe_image_size lay)) m m'"
      using run o1 same_outside_trans [OF o1 o2] by blast
    show "(\<exists>e. r = Err e \<and> s' = fst (release s1 a n)) \<or>
      (\<exists>m1. place_image data lay a m = (True, m1) \<and> relocate_image data lay a m1 = (m', Ok ()) \<and>
         s' = s1 \<and> r = Ok \<lparr>li_image_base = a, li_image_size = ucast (pe_image_size lay),
           li_entry_point = a + ucast (pe_entry_rva lay), li_num_pages = n\<rparr>)"
      using run p rl by auto
  qed
qed

lemma load_success:
  assumes "ok s" and "load_image_with alloc release s m data = Some (s', m', Ok img)"
  obtains lay m1 where "parse_headers data = Some (Ok lay)" and "layout_ok data lay"
    and "li_num_pages img = div_ceil (ucast (pe_image_size lay)) PAGE_SIZE"
    and "alloc s LoaderCode (li_num_pages img) = Some (s', SUCCESS, li_image_base img)"
    and "li_image_size img = ucast (pe_image_size lay)"
    and "li_entry_point img = li_image_base img + ucast (pe_entry_rva lay)"
    and "place_image data lay (li_image_base img) m = (True, m1)"
    and "relocate_image data lay (li_image_base img) m1 = (m', Ok ())"
proof -
  have "m' \<noteq> m \<or> (\<exists>i. Ok img = Ok i)"
    by simp
  then show thesis
    by (rule load_effect [OF assms]) (auto intro: that)
qed

end

end
