(* ===== verification/Pe_Props.thy ===== *)
theory Pe_Props
  imports Allocator_Props Pe_Correct
begin

text \<open>
  The properties of the PE loader, with a one-section image for the witnesses.
\<close>

section \<open>A small image\<close>

text \<open>
  Headers of 64 bytes, one page of image, one section of four bytes at offset 0x100, no data
  directories; the preferred base is the address the small machine's allocator picks.
\<close>

definition sample_pe :: "u8 list" where
  "sample_pe =
     [
      0x4D, 0x5A, 0, 0, 0, 0, 0, 0, 0, 0, 0, 0, 0, 0, 0, 0, 0, 0, 0, 0, 0, 0, 0, 0,
      0, 0, 0, 0, 0, 0, 0, 0, 0, 0, 0, 0, 0, 0, 0, 0, 0, 0, 0, 0, 0, 0, 0, 0,
      0, 0, 0, 0, 0, 0, 0, 0, 0, 0, 0, 0, 0x40, 0, 0, 0, 0x50, 0x45, 0, 0, 0x64, 0x86, 1, 0,
      0, 0, 0, 0, 0, 0, 0, 0, 0, 0, 0, 0, 0x70, 0, 0, 0, 0xB, 2, 0, 0, 0, 0, 0, 0,
      0, 0, 0, 0, 0, 0, 0, 0, 0, 1, 0, 0, 0, 0, 0, 0, 0, 0xF0, 0x10, 0, 0, 0, 0, 0,
      0, 0, 0, 0, 0, 0, 0, 0, 0, 0, 0, 0, 0, 0, 0, 0, 0, 0, 0, 0, 0, 0, 0, 0,
      0, 0x10, 0, 0, 0x40, 0, 0, 0, 0, 0, 0, 0, 0, 0, 0, 0, 0, 0, 0, 0, 0, 0, 0, 0,
      0, 0, 0, 0, 0, 0, 0, 0, 0, 0, 0, 0, 0, 0, 0, 0, 0, 0, 0, 0, 0, 0, 0, 0,
      0, 0, 0, 0, 0, 0, 0, 0, 0, 0, 0, 0, 0, 0, 0, 0, 4, 0, 0, 0, 0, 1, 0, 0,
      4, 0, 0, 0, 0xF0, 0, 0, 0, 0, 0, 0, 0, 0, 0, 0, 0, 0, 0, 0, 0, 0, 0, 0, 0,
      0xC3, 0x90, 0x90, 0x90]"

definition sample_layout :: pe_layout where
  "sample_layout = \<lparr>pe_image_size = 0x1000, pe_image_base = 0x10F000, pe_entry_rva = 0x100,
     pe_headers = 0x40, pe_data_dirs = 0, pe_opt_offset = 88, pe_sections_offset = 200,
     pe_sections_end = 240, pe_num_sections = 1\<rparr>"

text \<open>A relocation directory at 0x10 in a 0x40-byte image at address 0: one block, targets 0x20 and 0x28.\<close>

definition reloc_image :: memory where
  "reloc_image = write_bytes (\<lambda>_. 0) 0x10 [0, 0, 0, 0, 12, 0, 0, 0, 0x20, 0xA0, 0x28, 0xA0]"

lemma sample_pe_layout: "parse_headers sample_pe = Some (Ok sample_layout)"
  by (simp add: parse_headers_def parse_dos_header_def get_u16_def get_u32_def get_u64_def slice_def
      DOS_MAGIC_def usize_add_def PE_SIGNATURE_def slice_from_def parse_coff_header_def
      COFF_HEADER_SIZE_def IMAGE_FILE_MACHINE_AMD64_def MAX_SECTIONS_def parse_optional_def
      OPTIONAL_HEADER_SIZE_def parse_optional_header_def PE32_PLUS_MAGIC_def MAX_IMAGE_SIZE_def
      MAX_DATA_DIRECTORIES_def parse_section_table_def usize_mul_def SECTION_HEADER_SIZE_def
      sample_layout_def sample_pe_def)

lemma sample_pe_plans: "section_plans sample_pe sample_layout = [CopySection 240 256 4]"
  by (simp add: section_plans_def plan_section_def parse_section_header_def sample_layout_def slice_def
      SECTION_HEADER_SIZE_def get_u32_def sample_pe_def min_def)

lemma sample_load_allocate:
  "allocate_pages sample_allocator AllocateAnyPages LoaderCode 1 0 =
     Some (\<lparr>entries = [new_descriptor ReservedMemoryType 0x80000 1 EFI_MEMORY_WB,
        new_descriptor ConventionalMemory 0x100000 15 EFI_MEMORY_WB,
        new_descriptor LoaderCode 0x10F000 1 EFI_MEMORY_WB],
       map_key = 2, boot_services_exited = False\<rparr>, SUCCESS, 0x10F000)"
  unfolding sample_allocator_eq by code_simp

lemma sample_load:
  "\<exists>m'. load_image sample_allocator m sample_pe =
     Some (\<lparr>entries = [new_descriptor ReservedMemoryType 0x80000 1 EFI_MEMORY_WB,
        new_descriptor ConventionalMemory 0x100000 15 EFI_MEMORY_WB,
        new_descriptor LoaderCode 0x10F000 1 EFI_MEMORY_WB],
       map_key = 2, boot_services_exited = False\<rparr>, m',
       Ok \<lparr>li_image_base = 0x10F000, li_image_size = 0x1000, li_entry_point = 0x10F100, li_num_pages = 1\<rparr>)"
proof -
  have n: "div_ceil (ucast (pe_image_size sample_layout)) PAGE_SIZE = (1 :: u64)"
    by code_simp
  obtain m1 where p: "place_image sample_pe sample_layout 0x10F000 m = (True, m1)"
    unfolding place_image_run sample_pe_plans by simp
  have r: "relocate_image sample_pe sample_layout 0x10F000 m1 = (m1, Ok ())"
    by (simp add: relocate_image_def sample_layout_def)
  have "(0x10F000 :: u64) + ucast (pe_entry_rva sample_layout) = 0x10F100"
      "(ucast (pe_image_size sample_layout) :: u64) = 0x1000"
    by (simp_all add: sample_layout_def)
  then show ?thesis
    using sample_pe_layout n sample_load_allocate p r by (simp add: load_image_def load_image_with_def)
qed

lemma reloc_image_reads:
  "read_u32 reloc_image 0x10 = 0" "read_u32 reloc_image 0x14 = 12"
  "read_u16 reloc_image 0x18 = 0xA020" "read_u16 reloc_image 0x1A = 0xA028"
  "read_u64 reloc_image 0x20 = 0" "read_u64 reloc_image 0x28 = 0"
  by (simp_all add: read_u16_def read_u32_def read_u64_def read_bytes_def reloc_image_def write_bytes_def
      upt_rec)

lemma reloc_image_targets: "dir_targets reloc_image 0x40 0x10 12 0 = Ok [0x20, 0x28]"
proof -
  have "block_targets reloc_image 0x40 0 0x18 (Suc (Suc 0)) = Ok [0x20, 0x28]"
    by (simp add: reloc_image_reads entry_target_def IMAGE_REL_BASED_DIR64_def)
  then have "block_targets reloc_image 0x40 0 0x18 2 = Ok [0x20, 0x28]"
    by (simp only: numeral_2_eq_2)
  moreover have "dir_targets reloc_image 0x40 0x10 12 12 = Ok []"
    by (subst dir_targets.simps) simp
  ultimately show ?thesis
    by (subst dir_targets.simps) (simp add: reloc_image_reads)
qed

section \<open>Properties\<close>

text \<open>C7: memory safety of the loader on every file. \<open>load_image\<close> always returns, keeps the allocator
  invariant and writes, if anything, only bytes of one run of pages that was free before the call.\<close>

theorem load_image_safe:
  assumes "alloc_inv s"
  shows "\<exists>s' m' r. load_image s m data = Some (s', m', r) \<and> alloc_inv s' \<and>
    (m' = m \<or> (\<exists>base n sz. sz \<le> 4096 * unat n \<and> unat base + 4096 * unat n < 2 ^ 64 \<and>
       (\<forall>a \<in> page_range base n. \<exists>attr. alloc_map s a = Some (as_u32 ConventionalMemory, attr)) \<and>
       same_outside base sz m m'))"
proof -
  obtain s' m' r where run: "load_image s m data = Some (s', m', r)" and inv': "alloc_inv s'"
    using pages.load_total [OF assms, of m data] unfolding load_image_def by blast
  show ?thesis
  proof (cases "m' = m")
    case True
    then show ?thesis using run inv' by blast
  next
    case False
    then obtain lay s1 a n where lay: "layout_ok data lay"
      and n: "n = div_ceil (ucast (pe_image_size lay)) PAGE_SIZE"
      and a: "allocate_pages s AllocateAnyPages LoaderCode n 0 = Some (s1, SUCCESS, a)"
      and out: "same_outside a (unat (pe_image_size lay)) m m'"
      using pages.load_effect [OF assms run [unfolded load_image_def]] by metis
    have "unat (pe_image_size lay) \<le> 4096 * unat n"
      unfolding n by (rule image_pages(1) [OF lay])
    then show ?thesis
      using run inv' pages.alloc_range [OF assms a] out by blast
  qed
qed

theorem load_image_safe_witness:
  "\<exists>s' m' r. load_image sample_allocator (\<lambda>_. 0) sample_pe = Some (s', m', r) \<and> alloc_inv s'"
  using load_image_safe [OF sample_inv, of "\<lambda>_. 0" sample_pe] by blast

text \<open>A loaded image. The pages hold the image, they were free and are now loader code, and the
  entry point lies inside the image.\<close>

theorem load_image_success:
  assumes "alloc_inv s" and "load_image s m data = Some (s', m', Ok img)"
  shows "alloc_inv s' \<and> 0 < unat (li_image_size img) \<and>
    unat (li_image_size img) \<le> 4096 * unat (li_num_pages img) \<and>
    unat (li_image_base img) + 4096 * unat (li_num_pages img) < 2 ^ 64 \<and>
    unat (li_image_base img) \<le> unat (li_entry_point img) \<and>
    unat (li_entry_point img) < unat (li_image_base img) + unat (li_image_size img) \<and>
    (\<forall>a \<in> page_range (li_image_base img) (li_num_pages img).
       \<exists>attr. alloc_map s a = Some (as_u32 ConventionalMemory, attr) \<and>
              alloc_map s' a = Some (as_u32 LoaderCode, attr)) \<and>
    (\<forall>a. a \<notin> page_range (li_image_base img) (li_num_pages img) \<longrightarrow> alloc_map s' a = alloc_map s a)"
proof -
  obtain lay where lay: "layout_ok data lay"
    and n: "li_num_pages img = div_ceil (ucast (pe_image_size lay)) PAGE_SIZE"
    and a: "allocate_pages s AllocateAnyPages LoaderCode (li_num_pages img) 0 = Some (s', SUCCESS, li_image_base img)"
    and sz: "li_image_size img = ucast (pe_image_size lay)"
    and ep: "li_entry_point img = li_image_base img + ucast (pe_entry_rva lay)"
    by (rule pages.load_success [OF assms(1) assms(2) [unfolded load_image_def]])
  note range = pages.alloc_range [OF assms(1) a]
  have u: "unat (li_image_size img) = unat (pe_image_size lay)"
      "unat (ucast (pe_entry_rva lay) :: u64) = unat (pe_entry_rva lay)"
    unfolding sz by (rule unat_ucast_widen; simp)+
  have b: "unat (pe_image_size lay) \<le> 4096 * unat (li_num_pages img)"
    unfolding n by (rule image_pages(1) [OF lay])
  have "unat (li_entry_point img) = unat (li_image_base img) + unat (pe_entry_rva lay)"
    unfolding ep using range b lay u by (subst unat_plus_less) (auto simp: layout_ok_def)
  then show ?thesis
    using pages.alloc_ok [OF assms(1) a] range b lay u
    by (auto simp: layout_ok_def retype_def runtime_attribute_def)
qed

theorem load_image_success_witness:
  "\<exists>s' m' img. load_image sample_allocator (\<lambda>_. 0) sample_pe = Some (s', m', Ok img) \<and>
     unat (li_image_base img) \<le> unat (li_entry_point img) \<and>
     unat (li_entry_point img) < unat (li_image_base img) + unat (li_image_size img)"
  using load_image_success [OF sample_inv] sample_load [of "\<lambda>_. 0"] by blast



text \<open>C9: relocation. When the directory names targets inside the image that overlap neither the
  directory nor each other, \<open>apply_relocations\<close> succeeds, adds the load offset to the 64-bit value at
  each target exactly once and changes no other byte.\<close>

theorem apply_relocations_correct:
  assumes "unat rva + unat sz \<le> unat img_size"
    and "dir_targets m img_size (base + ucast rva) sz 0 = Ok ts"
    and "\<forall>t \<in> set ts. clear_of rva sz t" and "targets_apart ts"
  shows "\<exists>m'. apply_relocations m base img_size rva sz delta = (m', Ok ()) \<and>
    (\<forall>t \<in> set ts. read_u64 m' (base + ucast t) = read_u64 m (base + ucast t) + delta) \<and>
    (\<forall>x. (\<forall>t \<in> set ts. 8 \<le> unat (x - (base + ucast t))) \<longrightarrow> m' x = m x)"
proof -
  let ?m = "foldl (relocate_at base delta) m ts"
  have fit: "unat rva + unat sz < 2 ^ LENGTH(32)"
    using assms(1) unat_bound [of img_size] by simp
  then have "checked_add rva sz = Some (rva + sz)" "\<not> img_size < rva + sz"
    using assms(1) by (simp_all add: checked_add_SomeI word_less_nat_alt unat_plus_less)
  moreover have "apply_blocks m base img_size (base + ucast rva) sz delta 0 = (?m, Ok ())"
    by (rule apply_blocks_targets [OF refl assms(1), where ?m0.0 = m]) (use assms in \<open>simp_all add: agree_def\<close>)
  ultimately show ?thesis
    using read_relocate_list [OF assms(4)] relocate_list_elsewhere [of ts]
    by (intro exI [of _ ?m]) (simp add: apply_relocations_def)
qed

theorem apply_relocations_correct_witness:
  "\<exists>m'. apply_relocations reloc_image 0 0x40 0x10 12 0x1000 = (m', Ok ()) \<and>
     read_u64 m' 0x20 = 0x1000 \<and> read_u64 m' 0x28 = 0x1000"
proof -
  show ?thesis
    using apply_relocations_correct [where rva = "0x10" and sz = 12 and img_size = "0x40" and m = reloc_image
        and base = 0 and ts = "[0x20, 0x28]" and delta = "0x1000"]
      reloc_image_targets
    by (auto simp: clear_of_def targets_apart_def reloc_image_reads)
qed

text \<open>Loading and unloading. When the image's pages are still an entry of their own,
  \<open>unload_image\<close> succeeds and gives back the memory map from before the load.\<close>

theorem load_unload_roundtrip:
  assumes "alloc_inv s" and "load_image s m data = Some (s', m', Ok img)"
    and "e \<in> set (entries s')" and "physical_start e = li_image_base img"
    and "number_of_pages e = li_num_pages img"
  shows "\<exists>s''. unload_image s' img = (s'', SUCCESS) \<and> alloc_inv s'' \<and> alloc_map s'' = alloc_map s"
proof -
  have a: "allocate_pages s AllocateAnyPages LoaderCode (li_num_pages img) 0 = Some (s', SUCCESS, li_image_base img)"
    by (rule pages.load_success [OF assms(1) assms(2) [unfolded load_image_def]])
  have "is_boot_services LoaderCode"
    by (simp add: is_boot_services_def)
  then obtain s'' where f: "free_pages s' (li_image_base img) (li_num_pages img) = (s'', SUCCESS)"
    and m: "alloc_map s'' = alloc_map s"
    using free_allocated [OF assms(1) _ _ a assms(3-5)] by blast
  show ?thesis
    using f m pages.release_ok [OF pages.alloc_ok [OF assms(1) a] f] by (simp add: unload_image_def)
qed

theorem load_unload_roundtrip_witness:
  "\<exists>s' m' img s''. load_image sample_allocator (\<lambda>_. 0) sample_pe = Some (s', m', Ok img) \<and>
     unload_image s' img = (s'', SUCCESS) \<and> alloc_map s'' = alloc_map sample_allocator"
proof -
  obtain m' where run: "load_image sample_allocator (\<lambda>_. 0) sample_pe =
     Some (\<lparr>entries = [new_descriptor ReservedMemoryType 0x80000 1 EFI_MEMORY_WB,
        new_descriptor ConventionalMemory 0x100000 15 EFI_MEMORY_WB,
        new_descriptor LoaderCode 0x10F000 1 EFI_MEMORY_WB],
       map_key = 2, boot_services_exited = False\<rparr>, m',
       Ok \<lparr>li_image_base = 0x10F000, li_image_size = 0x1000, li_entry_point = 0x10F100, li_num_pages = 1\<rparr>)"
    using sample_load by blast
  show ?thesis
    using load_unload_roundtrip [OF sample_inv run,
        where e = "new_descriptor LoaderCode 0x10F000 1 EFI_MEMORY_WB"] run by auto
qed

end
