(* ===== verification/Keyed_Store.thy ===== *)
theory Keyed_Store
  imports Crab_Prelude
begin

text \<open>
  The interface that the firmware's databases share. The protocol database, the configuration tables
  and the variable store are all bounded stores with unique keys: an insertion may be refused, a
  deletion always succeeds, and nothing but the named key is affected. The locale states these laws
  over an abstraction to partial maps, and proves once what clients of such a store use, in
  particular that a whole sequence of requests acts on the map as expected.
\<close>

datatype ('k, 'v) store_request = Put 'k 'v | Delete 'k

text \<open>A refused insertion leaves the store alone.\<close>

fun serve :: "('s \<Rightarrow> 'k \<Rightarrow> 'v \<Rightarrow> 's option) \<Rightarrow> ('s \<Rightarrow> 'k \<Rightarrow> 's) \<Rightarrow> 's \<Rightarrow> ('k, 'v) store_request \<Rightarrow> 's" where
  "serve put del s (Put k v) = (case put s k v of None \<Rightarrow> s | Some s' \<Rightarrow> s')"
| "serve put del s (Delete k) = del s k"

fun request_key :: "('k, 'v) store_request \<Rightarrow> 'k" where
  "request_key (Put k v) = k"
| "request_key (Delete k) = k"

locale keyed_store =
  fixes inv :: "'s \<Rightarrow> bool"
    and lookup :: "'s \<Rightarrow> 'k \<Rightarrow> 'v option"
    and put :: "'s \<Rightarrow> 'k \<Rightarrow> 'v \<Rightarrow> 's option"
    and del :: "'s \<Rightarrow> 'k \<Rightarrow> 's"
  assumes put_inv: "inv s \<Longrightarrow> put s k v = Some s' \<Longrightarrow> inv s'"
    and del_inv: "inv s \<Longrightarrow> inv (del s k)"
    and lookup_put: "inv s \<Longrightarrow> put s k v = Some s' \<Longrightarrow> lookup s' = (lookup s)(k \<mapsto> v)"
    and lookup_del: "inv s \<Longrightarrow> lookup (del s k) = (lookup s)(k := None)"
begin

lemma put_then_del:
  assumes "inv s" and "put s k v = Some s'" and "lookup s k = None"
  shows "lookup (del s' k) = lookup s"
  using lookup_del [OF put_inv [OF assms(1,2)]] lookup_put [OF assms(1,2)] assms(3)
  by (auto simp: fun_eq_iff)

lemma put_put:
  assumes "inv s" and "put s k v = Some s'" and "put s' k w = Some s''"
  shows "lookup s'' = (lookup s)(k \<mapsto> w)"
  using lookup_put [OF assms(1,2)] lookup_put [OF put_inv [OF assms(1,2)] assms(3)] by simp

lemma put_commute:
  assumes "inv s" and "k \<noteq> l" and "put s k v = Some s1" and "put s1 l w = Some s2"
    and "put s l w = Some t1" and "put t1 k v = Some t2"
  shows "lookup s2 = lookup t2"
  using assms(2) lookup_put [OF assms(1,3)] lookup_put [OF put_inv [OF assms(1,3)] assms(4)]
    lookup_put [OF assms(1,5)] lookup_put [OF put_inv [OF assms(1,5)] assms(6)]
  by (simp add: fun_upd_twist)

lemma serve_inv: "inv s \<Longrightarrow> inv (serve put del s r)"
  by (cases r) (auto simp: del_inv split: option.split dest: put_inv)

lemma serve_lookup:
  "inv s \<Longrightarrow> k \<noteq> request_key r \<Longrightarrow> lookup (serve put del s r) k = lookup s k"
  by (cases r) (auto simp: lookup_del lookup_put split: option.split)

lemma trace_inv: "inv s \<Longrightarrow> inv (foldl (serve put del) s rs)"
  by (induction rs arbitrary: s) (auto intro: serve_inv)

text \<open>Requests about other keys do not interfere with a stored value.\<close>

lemma trace_untouched:
  assumes "inv s" and "\<forall>r \<in> set rs. request_key r \<noteq> k"
  shows "lookup (foldl (serve put del) s rs) k = lookup s k"
  using assms by (induction rs arbitrary: s) (auto simp: serve_inv serve_lookup)

lemma put_survives:
  assumes "inv s" and "put s k v = Some s'" and "\<forall>r \<in> set rs. request_key r \<noteq> k"
  shows "lookup (foldl (serve put del) s' rs) k = Some v"
  using trace_untouched [OF put_inv [OF assms(1,2)] assms(3)] lookup_put [OF assms(1,2)] by simp

end

end
