(* ===== verification/Handles.thy ===== *)
theory Handles
  imports Keyed_Store
begin

text \<open>
  The handle database: \<open>HandleEntry\<close> and \<open>ProtocolEntry\<close> of \<open>src/src/state.rs\<close> and the protocol
  services of \<open>src/src/efi/boot_services.rs\<close>.

  The arrays with their counts (\<open>handles[..handle_count]\<close>, \<open>protocols[..protocol_count]\<close>) are lists:
  every access of the source goes through the counted prefix. Handles and interfaces are addresses,
  0 is the null pointer. A pointer argument that the source tests for null is an option.
\<close>

section \<open>State\<close>

definition MAX_HANDLES :: nat where "MAX_HANDLES = 64"
definition MAX_PROTOCOLS_PER_HANDLE :: nat where "MAX_PROTOCOLS_PER_HANDLE = 8"

record protocol_entry =
  proto_guid :: guid
  proto_interface :: u64

record handle_entry =
  entry_handle :: u64
  entry_protocols :: "protocol_entry list"

record handle_db =
  handles :: "handle_entry list"
  next_handle :: usize

definition new_handle_db :: handle_db where
  "new_handle_db = \<lparr>handles = [], next_handle = 1\<rparr>"

section \<open>Operations\<close>

definition create_handle :: "handle_db \<Rightarrow> handle_db \<times> u64 option" where
  "create_handle db =
     (if length (handles db) \<ge> MAX_HANDLES then (db, None)
      else (db\<lparr>handles := handles db @ [\<lparr>entry_handle = next_handle db, entry_protocols = []\<rparr>],
              next_handle := next_handle db + 1\<rparr>, Some (next_handle db)))"

definition add_protocol :: "handle_entry \<Rightarrow> guid \<Rightarrow> u64 \<Rightarrow> handle_entry \<times> efi_status" where
  "add_protocol entry g interface =
     (if \<exists>p \<in> set (entry_protocols entry). proto_guid p = g then (entry, INVALID_PARAMETER)
      else if length (entry_protocols entry) \<ge> MAX_PROTOCOLS_PER_HANDLE then (entry, OUT_OF_RESOURCES)
      else (entry\<lparr>entry_protocols := entry_protocols entry @
              [\<lparr>proto_guid = g, proto_interface = interface\<rparr>]\<rparr>, SUCCESS))"

definition install_protocol :: "handle_db \<Rightarrow> u64 \<Rightarrow> guid \<Rightarrow> u64 \<Rightarrow> handle_db \<times> efi_status" where
  "install_protocol db handle g interface =
     (case position (\<lambda>e. entry_handle e = handle) (handles db) of
        None \<Rightarrow> (db, INVALID_PARAMETER)
      | Some idx \<Rightarrow>
          (case add_protocol (handles db ! idx) g interface of
             (entry, status) \<Rightarrow> (db\<lparr>handles := (handles db)[idx := entry]\<rparr>, status)))"

text \<open>
  \<open>handle\<close> is the value behind the handle pointer, \<^const>\<open>None\<close> when that pointer is null; the third
  component of the result is the value afterwards. \<open>native\<close> tells whether the interface type is
  \<open>efi::NATIVE_INTERFACE\<close>.
\<close>

definition install_protocol_interface ::
  "handle_db \<Rightarrow> u64 option \<Rightarrow> guid option \<Rightarrow> bool \<Rightarrow> u64 \<Rightarrow> handle_db \<times> efi_status \<times> u64 option" where
  "install_protocol_interface db handle protocol native interface =
     (case (handle, protocol) of
        (Some handle_ptr, Some g) \<Rightarrow>
          if \<not> native then (db, INVALID_PARAMETER, handle)
          else if handle_ptr = 0 then
            (if length (handles db) \<ge> MAX_HANDLES then (db, OUT_OF_RESOURCES, handle)
             else
               (let new_handle = next_handle db
                in (db\<lparr>handles := handles db @ [\<lparr>entry_handle = new_handle,
                          entry_protocols = [\<lparr>proto_guid = g, proto_interface = interface\<rparr>]\<rparr>],
                       next_handle := next_handle db + 1\<rparr>, SUCCESS, Some new_handle)))
          else
            (case install_protocol db handle_ptr g interface of (db', status) \<Rightarrow> (db', status, handle))
      | _ \<Rightarrow> (db, INVALID_PARAMETER, handle))"

definition reinstall_protocol_interface :: efi_status where
  "reinstall_protocol_interface = NOT_FOUND"

definition uninstall_protocol_interface :: efi_status where
  "uninstall_protocol_interface = NOT_FOUND"

text \<open>\<^const>\<open>Inr\<close> is \<open>SUCCESS\<close> with the value stored through \<open>interface\<close> when that is not null.\<close>

definition open_protocol :: "handle_db \<Rightarrow> u64 \<Rightarrow> guid option \<Rightarrow> u64 efi_result" where
  "open_protocol db handle protocol =
     (case protocol of
        None \<Rightarrow> Err INVALID_PARAMETER
      | Some g \<Rightarrow>
          if handle = 0 then Err INVALID_PARAMETER
          else
            (case find (\<lambda>e. entry_handle e = handle) (handles db) of
               None \<Rightarrow> Err INVALID_PARAMETER
             | Some entry \<Rightarrow>
                 (case find (\<lambda>p. proto_guid p = g) (entry_protocols entry) of
                    None \<Rightarrow> Err UNSUPPORTED
                  | Some proto \<Rightarrow> Ok (proto_interface proto))))"

definition handle_protocol :: "handle_db \<Rightarrow> u64 \<Rightarrow> guid option \<Rightarrow> u64 efi_result" where
  "handle_protocol db handle protocol = open_protocol db handle protocol"

definition has_protocol :: "handle_entry \<Rightarrow> guid \<Rightarrow> bool" where
  "has_protocol entry g \<longleftrightarrow> (\<exists>p \<in> set (entry_protocols entry). proto_guid p = g)"

definition matching_handles :: "handle_db \<Rightarrow> guid \<Rightarrow> u64 list" where
  "matching_handles db g = map entry_handle (filter (\<lambda>e. has_protocol e g) (handles db))"

text \<open>
  The buffer size in bytes (\<^const>\<open>None\<close> when the pointer is null) and whether a buffer was passed; the
  result holds the status, the new size and the handles written to the buffer.
\<close>

definition locate_handle ::
  "handle_db \<Rightarrow> bool \<Rightarrow> guid option \<Rightarrow> nat option \<Rightarrow> bool \<Rightarrow> efi_status \<times> nat option \<times> u64 list" where
  "locate_handle db by_protocol protocol buffer_size buffer =
     (case buffer_size of
        None \<Rightarrow> (INVALID_PARAMETER, None, [])
      | Some sz \<Rightarrow>
          if \<not> by_protocol then (UNSUPPORTED, Some sz, [])
          else
            (case protocol of
               None \<Rightarrow> (INVALID_PARAMETER, Some sz, [])
             | Some g \<Rightarrow>
                 (let matching = matching_handles db g; required_size = length matching * 8
                  in if \<not> buffer \<or> sz < required_size then (BUFFER_TOO_SMALL, Some required_size, [])
                     else if matching = [] then (NOT_FOUND, Some required_size, [])
                     else (SUCCESS, Some required_size, matching))))"

definition locate_protocol :: "handle_db \<Rightarrow> guid option \<Rightarrow> bool \<Rightarrow> u64 efi_result" where
  "locate_protocol db protocol interface =
     (case protocol of
        None \<Rightarrow> Err INVALID_PARAMETER
      | Some g \<Rightarrow>
          if \<not> interface then Err INVALID_PARAMETER
          else
            (case find (\<lambda>p. proto_guid p = g) (concat (map entry_protocols (handles db))) of
               None \<Rightarrow> Err NOT_FOUND
             | Some proto \<Rightarrow> Ok (proto_interface proto)))"

text \<open>
  The variadic services take four (GUID pointer, interface) pairs; the list of pairs ends at the first
  null GUID pointer.
\<close>

definition valid_pairs :: "(guid option \<times> u64) list \<Rightarrow> (guid \<times> u64) list" where
  "valid_pairs args = map (\<lambda>(g, i). (the g, i)) (takeWhile (\<lambda>(g, _). g \<noteq> None) args)"

fun install_pairs :: "handle_db \<Rightarrow> u64 \<Rightarrow> (guid \<times> u64) list \<Rightarrow> handle_db \<times> efi_status" where
  "install_pairs db handle [] = (db, SUCCESS)"
| "install_pairs db handle ((g, interface) # pairs) =
     (case install_protocol db handle g interface of
        (db', status) \<Rightarrow>
          if status \<noteq> SUCCESS then (db', status) else install_pairs db' handle pairs)"

definition install_multiple_protocol_interfaces ::
  "handle_db \<Rightarrow> u64 option \<Rightarrow> (guid option \<times> u64) list \<Rightarrow> handle_db \<times> efi_status \<times> u64 option" where
  "install_multiple_protocol_interfaces db handle args =
     (case handle of
        None \<Rightarrow> (db, INVALID_PARAMETER, None)
      | Some handle_ptr \<Rightarrow>
          (let pairs = valid_pairs args
           in if pairs = [] then (db, SUCCESS, Some handle_ptr)
              else if handle_ptr = 0 then
                (case create_handle db of
                   (db', None) \<Rightarrow> (db', OUT_OF_RESOURCES, Some handle_ptr)
                 | (db', Some h) \<Rightarrow>
                     (case install_pairs db' h pairs of (db'', status) \<Rightarrow> (db'', status, Some h)))
              else
                (case install_pairs db handle_ptr pairs of
                   (db', status) \<Rightarrow> (db', status, Some handle_ptr))))"

definition remove_protocol :: "handle_entry \<Rightarrow> guid \<Rightarrow> handle_entry" where
  "remove_protocol entry g =
     (case position (\<lambda>p. proto_guid p = g) (entry_protocols entry) of
        None \<Rightarrow> entry
      | Some j \<Rightarrow> entry\<lparr>entry_protocols := take j (entry_protocols entry) @ drop (Suc j) (entry_protocols entry)\<rparr>)"

definition uninstall_protocol :: "handle_db \<Rightarrow> u64 \<Rightarrow> guid \<Rightarrow> handle_db" where
  "uninstall_protocol db handle g =
     (case position (\<lambda>e. entry_handle e = handle) (handles db) of
        None \<Rightarrow> db
      | Some idx \<Rightarrow> db\<lparr>handles := (handles db)[idx := remove_protocol (handles db ! idx) g]\<rparr>)"

definition uninstall_multiple_protocol_interfaces ::
  "handle_db \<Rightarrow> u64 \<Rightarrow> (guid option \<times> u64) list \<Rightarrow> handle_db \<times> efi_status" where
  "uninstall_multiple_protocol_interfaces db handle args =
     (if handle = 0 then (db, INVALID_PARAMETER)
      else (foldl (\<lambda>db (g, _). uninstall_protocol db handle g) db (valid_pairs args), SUCCESS))"

section \<open>Invariant and abstraction\<close>

definition entry_ok :: "handle_entry \<Rightarrow> bool" where
  "entry_ok e \<longleftrightarrow> distinct (map proto_guid (entry_protocols e)) \<and>
     length (entry_protocols e) \<le> MAX_PROTOCOLS_PER_HANDLE"

text \<open>Handles are never removed, so they are numbered from one.\<close>

definition hdb_inv :: "handle_db \<Rightarrow> bool" where
  "hdb_inv db \<longleftrightarrow> length (handles db) \<le> MAX_HANDLES \<and>
     next_handle db = of_nat (length (handles db) + 1) \<and>
     (\<forall>i < length (handles db). entry_handle (handles db ! i) = of_nat (i + 1) \<and> entry_ok (handles db ! i))"

definition entry_lookup :: "handle_entry \<Rightarrow> guid \<Rightarrow> u64 option" where
  "entry_lookup e g = map_option proto_interface (find (\<lambda>p. proto_guid p = g) (entry_protocols e))"

definition hdb_lookup :: "handle_db \<Rightarrow> u64 \<times> guid \<Rightarrow> u64 option" where
  "hdb_lookup db = (\<lambda>(h, g). case find (\<lambda>e. entry_handle e = h) (handles db) of
     None \<Rightarrow> None | Some e \<Rightarrow> entry_lookup e g)"

definition known_handles :: "handle_db \<Rightarrow> u64 set" where
  "known_handles db = entry_handle ` set (handles db)"

section \<open>One entry\<close>

lemma entry_lookup_None_iff: "entry_lookup e g = None \<longleftrightarrow> \<not> has_protocol e g"
  by (auto simp: entry_lookup_def has_protocol_def find_None_iff_all)

lemma entry_lookup_Some_iff:
  assumes "entry_ok e"
  shows "entry_lookup e g = Some i \<longleftrightarrow> \<lparr>proto_guid = g, proto_interface = i\<rparr> \<in> set (entry_protocols e)"
proof
  assume "entry_lookup e g = Some i"
  then obtain p where "p \<in> set (entry_protocols e)" "proto_guid p = g" "proto_interface p = i"
    by (auto simp: entry_lookup_def dest!: find_SomeD)
  moreover have "p = \<lparr>proto_guid = g, proto_interface = i\<rparr>"
    using calculation by (intro protocol_entry.equality) simp_all
  ultimately show "\<lparr>proto_guid = g, proto_interface = i\<rparr> \<in> set (entry_protocols e)"
    by simp
next
  assume p: "\<lparr>proto_guid = g, proto_interface = i\<rparr> \<in> set (entry_protocols e)"
  have inj: "inj_on proto_guid (set (entry_protocols e))"
    using assms by (simp add: entry_ok_def distinct_map)
  have "find (\<lambda>p. proto_guid p = g) (entry_protocols e) = Some \<lparr>proto_guid = g, proto_interface = i\<rparr>"
    using p inj_onD [OF inj, of _ "\<lparr>proto_guid = g, proto_interface = i\<rparr>"] by (intro find_unique) auto
  then show "entry_lookup e g = Some i"
    by (simp add: entry_lookup_def)
qed

lemma add_protocol_cases:
  assumes "entry_ok e"
  obtains (err) st where "add_protocol e g i = (e, st)" "st \<noteq> SUCCESS"
      "if has_protocol e g then st = INVALID_PARAMETER
       else st = OUT_OF_RESOURCES \<and> length (entry_protocols e) = MAX_PROTOCOLS_PER_HANDLE"
  | (ok) e' where "add_protocol e g i = (e', SUCCESS)" "entry_ok e'" "entry_handle e' = entry_handle e"
      "\<not> has_protocol e g" "entry_lookup e' = (entry_lookup e)(g \<mapsto> i)"
proof (cases "has_protocol e g \<or> length (entry_protocols e) \<ge> MAX_PROTOCOLS_PER_HANDLE")
  case True
  show ?thesis
  proof (cases "has_protocol e g")
    case has: True
    then have "add_protocol e g i = (e, INVALID_PARAMETER)"
      by (simp add: add_protocol_def has_protocol_def)
    then show ?thesis
      using err has by simp
  next
    case has: False
    then have "add_protocol e g i = (e, OUT_OF_RESOURCES)"
      using True by (simp add: add_protocol_def has_protocol_def)
    then show ?thesis
      using err has True assms by (simp add: entry_ok_def)
  qed
next
  case False
  let ?p = "\<lparr>proto_guid = g, proto_interface = i\<rparr>"
  let ?e = "e\<lparr>entry_protocols := entry_protocols e @ [?p]\<rparr>"
  have "add_protocol e g i = (?e, SUCCESS)"
    using False by (auto simp: add_protocol_def has_protocol_def)
  moreover have ok': "entry_ok ?e"
    using False assms by (auto simp: entry_ok_def has_protocol_def)
  moreover have "entry_lookup ?e = (entry_lookup e)(g \<mapsto> i)"
  proof
    fix g'
    have "entry_lookup ?e g' = Some j \<longleftrightarrow> ((entry_lookup e)(g \<mapsto> i)) g' = Some j" for j
      using entry_lookup_Some_iff [OF ok', of g' j] entry_lookup_Some_iff [OF assms, of g' j] False
      by (auto simp: has_protocol_def)
    then show "entry_lookup ?e g' = ((entry_lookup e)(g \<mapsto> i)) g'"
      by (metis not_None_eq)
  qed
  ultimately show ?thesis
    using ok False by simp
qed

lemma remove_protocol_effect:
  assumes "entry_ok e"
  shows "entry_ok (remove_protocol e g)" and "entry_handle (remove_protocol e g) = entry_handle e"
    and "entry_lookup (remove_protocol e g) = (entry_lookup e)(g := None)"
proof -
  have *: "entry_ok (remove_protocol e g) \<and> entry_handle (remove_protocol e g) = entry_handle e \<and>
    set (entry_protocols (remove_protocol e g)) = {p \<in> set (entry_protocols e). proto_guid p \<noteq> g}"
  proof (cases "position (\<lambda>p. proto_guid p = g) (entry_protocols e)")
    case None
    then have "\<forall>p \<in> set (entry_protocols e). proto_guid p \<noteq> g"
      by (simp add: position_None_iff)
    then show ?thesis
      using assms None by (auto simp: remove_protocol_def)
  next
    case (Some j)
    let ?ps = "entry_protocols e"
    have j: "j < length ?ps" "proto_guid (?ps ! j) = g"
      using position_SomeD [OF Some] by auto
    define xs ys where "xs = take j ?ps" and "ys = drop (Suc j) ?ps"
    have split: "?ps = xs @ ?ps ! j # ys"
      unfolding xs_def ys_def by (rule id_take_nth_drop [OF j(1)])
    have d: "distinct (map proto_guid (xs @ ?ps ! j # ys))"
      using assms split by (simp add: entry_ok_def)
    have "proto_guid p \<noteq> g" if "p \<in> set xs \<union> set ys" for p
      using d that j(2) by (auto simp: image_iff)
    then have "set (xs @ ys) = {p \<in> set ?ps. proto_guid p \<noteq> g}"
      by (subst split) (use j(2) in auto)
    moreover have "distinct (map proto_guid (xs @ ys))" "length (xs @ ys) \<le> MAX_PROTOCOLS_PER_HANDLE"
      using d assms arg_cong [OF split, of length] by (auto simp: entry_ok_def)
    ultimately show ?thesis
      using Some by (simp add: remove_protocol_def entry_ok_def xs_def ys_def)
  qed
  then show ok': "entry_ok (remove_protocol e g)" and "entry_handle (remove_protocol e g) = entry_handle e"
    by blast+
  show "entry_lookup (remove_protocol e g) = (entry_lookup e)(g := None)"
  proof
    fix g'
    have "entry_lookup (remove_protocol e g) g' = Some j \<longleftrightarrow> ((entry_lookup e)(g := None)) g' = Some j" for j
      using entry_lookup_Some_iff [OF ok', of g' j] entry_lookup_Some_iff [OF assms, of g' j] * by auto
    then show "entry_lookup (remove_protocol e g) g' = ((entry_lookup e)(g := None)) g'"
      by (metis not_None_eq)
  qed
qed

section \<open>The database\<close>

lemma new_handle_db_inv: "hdb_inv new_handle_db"
  by (simp add: hdb_inv_def new_handle_db_def)

lemma handle_number:
  assumes "i < MAX_HANDLES"
  shows "of_nat (i + 1) = (h :: u64) \<longleftrightarrow> unat h = i + 1"
  using assms by (auto simp: word_unat_eq_iff unat_of_nat MAX_HANDLES_def simp del: of_nat_add of_nat_Suc)

lemma position_handle:
  assumes "hdb_inv db"
  shows "position (\<lambda>e. entry_handle e = h) (handles db) =
    (if 0 < unat h \<and> unat h \<le> length (handles db) then Some (unat h - 1) else None)"
proof -
  have eq: "entry_handle (handles db ! i) = h \<longleftrightarrow> unat h = i + 1" if "i < length (handles db)" for i
  proof -
    have "i < MAX_HANDLES" "entry_handle (handles db ! i) = of_nat (i + 1)"
      using assms that by (auto simp: hdb_inv_def)
    then show ?thesis
      using handle_number by metis
  qed
  show ?thesis
  proof (cases "0 < unat h \<and> unat h \<le> length (handles db)")
    case True
    then obtain k where k: "unat h = Suc k" "k < length (handles db)"
      by (cases "unat h") auto
    then have "position (\<lambda>e. entry_handle e = h) (handles db) = Some (unat h - 1)"
      using eq by (intro position_SomeI) simp_all
    with True show ?thesis by simp
  next
    case False
    then have "entry_handle (handles db ! i) \<noteq> h" if "i < length (handles db)" for i
      using eq [OF that] that by auto
    then have "\<forall>e \<in> set (handles db). entry_handle e \<noteq> h"
      by (metis in_set_conv_nth)
    then have "position (\<lambda>e. entry_handle e = h) (handles db) = None"
      by (simp add: position_None_iff)
    with False show ?thesis by simp
  qed
qed

lemma find_handle:
  assumes "hdb_inv db"
  shows "find (\<lambda>e. entry_handle e = h) (handles db) =
    (if 0 < unat h \<and> unat h \<le> length (handles db) then Some (handles db ! (unat h - 1)) else None)"
  using position_handle [OF assms, of h] by (simp add: find_position)

lemma known_handles_iff:
  "hdb_inv db \<Longrightarrow> h \<in> known_handles db \<longleftrightarrow> 0 < unat h \<and> unat h \<le> length (handles db)"
proof -
  assume inv: "hdb_inv db"
  have "h \<in> known_handles db \<longleftrightarrow> position (\<lambda>e. entry_handle e = h) (handles db) \<noteq> None"
    by (auto simp: known_handles_def position_None_iff)
  then show ?thesis
    using position_handle [OF inv, of h] by (simp split: if_splits)
qed

lemma hdb_lookup_eq:
  assumes "hdb_inv db"
  shows "hdb_lookup db (h, g) =
    (if h \<in> known_handles db then entry_lookup (handles db ! (unat h - 1)) g else None)"
  using assms by (simp add: hdb_lookup_def find_handle known_handles_iff)

lemma entry_at_ok: "hdb_inv db \<Longrightarrow> h \<in> known_handles db \<Longrightarrow> entry_ok (handles db ! (unat h - 1))"
  using known_handles_iff [of db h] by (auto simp: hdb_inv_def)

lemma update_entry_inv:
  assumes "hdb_inv db" and "i < length (handles db)" and "entry_ok e"
    and "entry_handle e = entry_handle (handles db ! i)"
  shows "hdb_inv (db\<lparr>handles := (handles db)[i := e]\<rparr>)"
  using assms by (auto simp: hdb_inv_def nth_list_update)

lemma update_entry_lookup:
  assumes inv: "hdb_inv db" and h: "h \<in> known_handles db" and "entry_ok e"
    and "entry_handle e = entry_handle (handles db ! (unat h - 1))"
    and m: "entry_lookup e = (entry_lookup (handles db ! (unat h - 1)))(g := v)"
  defines "db' \<equiv> db\<lparr>handles := (handles db)[unat h - 1 := e]\<rparr>"
  shows "hdb_inv db'" and "known_handles db' = known_handles db"
    and "hdb_lookup db' = (hdb_lookup db)((h, g) := v)"
proof -
  have i: "unat h - 1 < length (handles db)" "0 < unat h"
    using h inv by (auto simp: known_handles_iff)
  show inv': "hdb_inv db'"
    unfolding db'_def using inv i(1) assms(3,4) by (rule update_entry_inv)
  show k: "known_handles db' = known_handles db"
    using known_handles_iff [OF inv] known_handles_iff [OF inv'] by (auto simp: db'_def)
  show "hdb_lookup db' = (hdb_lookup db)((h, g) := v)"
  proof
    fix k :: "u64 \<times> guid"
    obtain h' g' where p: "k = (h', g')"
      by fastforce
    have "unat h' - 1 = unat h - 1 \<longleftrightarrow> h' = h" if "h' \<in> known_handles db"
      using that i(2) by (auto simp: known_handles_iff [OF inv] word_unat_eq_iff)
    then have "hdb_lookup db' (h', g') = (if h' \<in> known_handles db
        then entry_lookup (if h' = h then e else handles db ! (unat h' - 1)) g' else None)"
      using i(1) unfolding hdb_lookup_eq [OF inv'] k by (auto simp: db'_def nth_list_update)
    then show "hdb_lookup db' k = ((hdb_lookup db)((h, g) := v)) k"
      using h m by (auto simp: p hdb_lookup_eq [OF inv])
  qed
qed

lemma install_protocol_cases:
  assumes inv: "hdb_inv db"
  obtains (err) st where "install_protocol db h g i = (db, st)" "st \<noteq> SUCCESS"
      "if h \<notin> known_handles db \<or> hdb_lookup db (h, g) \<noteq> None then st = INVALID_PARAMETER else st = OUT_OF_RESOURCES"
  | (ok) db' where "install_protocol db h g i = (db', SUCCESS)" "hdb_inv db'"
      "known_handles db' = known_handles db" "h \<in> known_handles db" "hdb_lookup db (h, g) = None"
      "hdb_lookup db' = (hdb_lookup db)((h, g) \<mapsto> i)"
proof (cases "h \<in> known_handles db")
  case False
  then show ?thesis
    using err inv by (auto simp: install_protocol_def position_handle known_handles_iff)
next
  case True
  let ?e = "handles db ! (unat h - 1)"
  have pos: "position (\<lambda>e. entry_handle e = h) (handles db) = Some (unat h - 1)"
    using True inv by (simp add: position_handle known_handles_iff)
  have ok_e: "entry_ok ?e"
    by (rule entry_at_ok [OF inv True])
  have lk: "hdb_lookup db (h, g) = entry_lookup ?e g"
    using True by (simp add: hdb_lookup_eq [OF inv])
  show ?thesis
  proof (cases rule: add_protocol_cases [OF ok_e, of g i])
    case (1 st)
    then show ?thesis
      using that(1) pos lk True by (auto simp: install_protocol_def entry_lookup_None_iff split: if_splits)
  next
    case (2 e)
    then show ?thesis
      using that(2) pos lk True update_entry_lookup [OF inv True 2(2) 2(3) 2(5)]
      by (simp add: install_protocol_def entry_lookup_None_iff)
  qed
qed

lemma uninstall_protocol_effect:
  assumes inv: "hdb_inv db"
  shows "hdb_inv (uninstall_protocol db h g)" and "known_handles (uninstall_protocol db h g) = known_handles db"
    and "hdb_lookup (uninstall_protocol db h g) = (hdb_lookup db)((h, g) := None)"
proof -
  have "hdb_inv (uninstall_protocol db h g) \<and> known_handles (uninstall_protocol db h g) = known_handles db \<and>
    hdb_lookup (uninstall_protocol db h g) = (hdb_lookup db)((h, g) := None)"
  proof (cases "h \<in> known_handles db")
    case False
    then have "uninstall_protocol db h g = db" "hdb_lookup db (h, g) = None"
      using inv by (auto simp: uninstall_protocol_def position_handle known_handles_iff hdb_lookup_eq)
    then show ?thesis
      using inv by (simp add: fun_upd_idem)
  next
    case True
    then show ?thesis
      using update_entry_lookup [OF inv True remove_protocol_effect [OF entry_at_ok [OF inv True], of g]] inv
      by (simp add: uninstall_protocol_def position_handle known_handles_iff)
  qed
  then show "hdb_inv (uninstall_protocol db h g)" "known_handles (uninstall_protocol db h g) = known_handles db"
    "hdb_lookup (uninstall_protocol db h g) = (hdb_lookup db)((h, g) := None)"
    by blast+
qed

text \<open>A new handle is fresh and bare.\<close>

lemma append_entry_inv:
  assumes "hdb_inv db" and "length (handles db) < MAX_HANDLES" and "entry_ok e" and "entry_handle e = next_handle db"
  defines "db' \<equiv> db\<lparr>handles := handles db @ [e], next_handle := next_handle db + 1\<rparr>"
  shows "hdb_inv db'" and "next_handle db \<notin> known_handles db"
    and "known_handles db' = insert (next_handle db) (known_handles db)"
    and "hdb_lookup db' = (\<lambda>(h, g). if h = next_handle db then entry_lookup e g else hdb_lookup db (h, g))"
proof -
  show inv': "hdb_inv db'"
    using assms by (auto simp: hdb_inv_def nth_append less_Suc_eq)
  have un: "unat (next_handle db) = length (handles db) + 1"
    using assms(1,2) handle_number [of "length (handles db)" "next_handle db"]
    by (simp add: hdb_inv_def)
  then show "next_handle db \<notin> known_handles db"
    using known_handles_iff [OF assms(1)] by simp
  show k: "known_handles db' = insert (next_handle db) (known_handles db)"
    using assms(4) by (auto simp: known_handles_def db'_def)
  show "hdb_lookup db' = (\<lambda>(h, g). if h = next_handle db then entry_lookup e g else hdb_lookup db (h, g))"
  proof
    fix x :: "u64 \<times> guid"
    obtain h g where x: "x = (h, g)"
      by fastforce
    have "handles db' ! (unat h - 1) = handles db ! (unat h - 1)" if "h \<in> known_handles db"
      using that known_handles_iff [OF assms(1), of h] by (auto simp: db'_def nth_append)
    moreover have "handles db' ! (unat (next_handle db) - 1) = e"
      by (simp add: db'_def un)
    ultimately show "hdb_lookup db' x =
        (case x of (h, g) \<Rightarrow> if h = next_handle db then entry_lookup e g else hdb_lookup db (h, g))"
      unfolding x hdb_lookup_eq [OF inv'] hdb_lookup_eq [OF assms(1)] k by auto
  qed
qed

lemma create_handle_cases:
  assumes inv: "hdb_inv db"
  obtains (err) "create_handle db = (db, None)" "length (handles db) = MAX_HANDLES"
  | (ok) db' h where "create_handle db = (db', Some h)" "hdb_inv db'" "h \<noteq> 0" "h \<notin> known_handles db"
      "known_handles db' = insert h (known_handles db)" "hdb_lookup db' = hdb_lookup db"
proof (cases "length (handles db) \<ge> MAX_HANDLES")
  case True
  then show ?thesis
    using err inv by (simp add: create_handle_def hdb_inv_def)
next
  case False
  let ?e = "\<lparr>entry_handle = next_handle db, entry_protocols = []\<rparr>"
  have e: "entry_ok ?e" "entry_handle ?e = next_handle db" "entry_lookup ?e = (\<lambda>_. None)"
    by (simp_all add: entry_ok_def entry_lookup_def fun_eq_iff)
  note app = append_entry_inv [OF inv _ e(1,2)]
  have none: "hdb_lookup db (next_handle db, g) = None" for g
    using app(2) False by (simp add: hdb_lookup_eq [OF inv])
  have "next_handle db \<noteq> 0"
    using inv False handle_number [of "length (handles db)" "next_handle db"] by (auto simp: hdb_inv_def)
  then show ?thesis
    using ok app False none e(3) by (auto simp: create_handle_def fun_eq_iff)
qed

text \<open>Protocol lookups, in terms of the abstraction.\<close>

lemma open_protocol_eq:
  assumes "hdb_inv db"
  shows "open_protocol db h (Some g) =
    (if h \<notin> known_handles db then Err INVALID_PARAMETER
     else (case hdb_lookup db (h, g) of None \<Rightarrow> Err UNSUPPORTED | Some i \<Rightarrow> Ok i))"
proof -
  have "0 \<notin> known_handles db"
    by (simp add: known_handles_iff [OF assms])
  then show ?thesis
    by (auto simp: open_protocol_def find_handle [OF assms] known_handles_iff [OF assms]
        hdb_lookup_eq [OF assms] entry_lookup_def split: option.split)
qed

lemma has_protocol_lookup:
  assumes "hdb_inv db" and "h \<in> known_handles db"
  shows "has_protocol (handles db ! (unat h - 1)) g \<longleftrightarrow> hdb_lookup db (h, g) \<noteq> None"
  using assms by (simp add: hdb_lookup_eq entry_lookup_None_iff)

lemma set_matching_handles:
  assumes "hdb_inv db"
  shows "set (matching_handles db g) = {h. hdb_lookup db (h, g) \<noteq> None}" and "distinct (matching_handles db g)"
proof -
  have num: "entry_handle (handles db ! i) = of_nat (i + 1)" "unat (of_nat (i + 1) :: u64) = i + 1"
    if "i < length (handles db)" for i
    using that assms handle_number [of i "of_nat (i + 1)"] by (auto simp: hdb_inv_def)
  have nth: "handles db ! (unat (entry_handle e) - 1) = e" "entry_handle e \<in> known_handles db"
    if e: "e \<in> set (handles db)" for e
  proof -
    obtain i where "i < length (handles db)" "e = handles db ! i"
      using e by (auto simp: in_set_conv_nth)
    then show "handles db ! (unat (entry_handle e) - 1) = e"
      using num [of i] by (simp del: of_nat_add of_nat_Suc)
  qed (use that in \<open>simp add: known_handles_def\<close>)
  show "set (matching_handles db g) = {h. hdb_lookup db (h, g) \<noteq> None}"
  proof (intro set_eqI iffI)
    fix h
    assume "h \<in> set (matching_handles db g)"
    then obtain e where "e \<in> set (handles db)" "has_protocol e g" "h = entry_handle e"
      by (auto simp: matching_handles_def)
    then show "h \<in> {h. hdb_lookup db (h, g) \<noteq> None}"
      using nth [of e] has_protocol_lookup [OF assms, of h g] by simp
  next
    fix h
    assume "h \<in> {h. hdb_lookup db (h, g) \<noteq> None}"
    then have h: "h \<in> known_handles db" "hdb_lookup db (h, g) \<noteq> None"
      by (auto simp: hdb_lookup_eq [OF assms] split: if_splits)
    then obtain e where "e \<in> set (handles db)" "entry_handle e = h"
      by (auto simp: known_handles_def)
    then show "h \<in> set (matching_handles db g)"
      using nth [of e] has_protocol_lookup [OF assms h(1), of g] h(2) by (auto simp: matching_handles_def)
  qed
  have "i = j" if "i < length (handles db)" "j < length (handles db)"
      "entry_handle (handles db ! i) = entry_handle (handles db ! j)" for i j
  proof -
    have "unat (of_nat (i + 1) :: u64) = unat (of_nat (j + 1) :: u64)"
      using that num(1) by metis
    then show ?thesis
      using num(2) [OF that(1)] num(2) [OF that(2)] by linarith
  qed
  then have "distinct (map entry_handle (handles db))"
    by (auto simp: distinct_conv_nth)
  then show "distinct (matching_handles db g)"
    unfolding matching_handles_def by (simp add: distinct_map_filter)
qed

section \<open>The database as a keyed store\<close>

definition hdb_put :: "handle_db \<Rightarrow> u64 \<times> guid \<Rightarrow> u64 \<Rightarrow> handle_db option" where
  "hdb_put db = (\<lambda>(h, g) i. case install_protocol db h g i of
     (db', status) \<Rightarrow> if status = SUCCESS then Some db' else None)"

definition hdb_delete :: "handle_db \<Rightarrow> u64 \<times> guid \<Rightarrow> handle_db" where
  "hdb_delete db = (\<lambda>(h, g). uninstall_protocol db h g)"

interpretation protocols: keyed_store hdb_inv hdb_lookup hdb_put hdb_delete
proof unfold_locales
  fix db k v db'
  assume inv: "hdb_inv db" and put: "hdb_put db k v = Some db'"
  obtain h g where k: "k = (h, g)"
    by fastforce
  show "hdb_inv db'" "hdb_lookup db' = (hdb_lookup db)(k \<mapsto> v)"
    using put by (cases rule: install_protocol_cases [OF inv, of h g v]; auto simp: hdb_put_def k)+
next
  fix db k
  assume "hdb_inv db"
  then show "hdb_inv (hdb_delete db k)" "hdb_lookup (hdb_delete db k) = (hdb_lookup db)(k := None)"
    by (cases k; simp add: hdb_delete_def uninstall_protocol_effect)+
qed

end
