(* ===== verification/Events.thy ===== *)
theory Events
  imports Crab_Prelude
begin

text \<open>
  Events: \<open>EventEntry\<close> of \<open>src/src/state.rs\<close> and the event services of
  \<open>src/src/efi/boot_services.rs\<close>.

  An event is its index in a fixed array. Whether the serial port or the keyboard has input is
  decided by the hardware at the moment it is asked, so it is an argument: a boolean where the
  source asks once, a function of the polling round and of the position in the list where
  \<open>wait_for_event\<close> asks repeatedly. The polling loop need not end; \<^const>\<open>None\<close> is a call that never
  returns.
\<close>

definition MAX_EVENTS :: nat where "MAX_EVENTS = 32"
definition KEYBOARD_EVENT_ID :: usize where "KEYBOARD_EVENT_ID = 1"

record event_entry =
  event_type :: u32
  notify_tpl :: usize
  signaled :: bool
  is_keyboard_event :: bool

definition empty_event :: event_entry where
  "empty_event = \<lparr>event_type = 0, notify_tpl = 0, signaled = False, is_keyboard_event = False\<rparr>"

record event_db =
  events :: "event_entry list"
  next_event_id :: nat

definition new_event_db :: event_db where
  "new_event_db = \<lparr>events = replicate MAX_EVENTS empty_event, next_event_id = 2\<rparr>"

definition create_event :: "event_db \<Rightarrow> u32 \<Rightarrow> usize \<Rightarrow> bool \<Rightarrow> event_db \<times> usize efi_result" where
  "create_event db ty tpl out =
     (if \<not> out then (db, Err INVALID_PARAMETER)
      else
        (let event_id = next_event_id db
         in if event_id \<ge> MAX_EVENTS then (db, Err OUT_OF_RESOURCES)
            else (db\<lparr>next_event_id := event_id + 1,
                    events := (events db)[event_id := \<lparr>event_type = ty, notify_tpl = tpl,
                      signaled = False, is_keyboard_event = False\<rparr>]\<rparr>, Ok (of_nat event_id))))"

definition create_event_ex :: "event_db \<Rightarrow> u32 \<Rightarrow> usize \<Rightarrow> bool \<Rightarrow> event_db \<times> usize efi_result" where
  "create_event_ex = create_event"

definition set_timer :: efi_status where
  "set_timer = SUCCESS"

definition event_index :: "usize \<Rightarrow> nat option" where
  "event_index event = (if event > 0 \<and> event < of_nat MAX_EVENTS then Some (unat event) else None)"

definition signal_event :: "event_db \<Rightarrow> usize \<Rightarrow> event_db \<times> efi_status" where
  "signal_event db event =
     (case event_index event of
        None \<Rightarrow> (db, SUCCESS)
      | Some i \<Rightarrow> (db\<lparr>events := (events db)[i := (events db ! i)\<lparr>signaled := True\<rparr>]\<rparr>, SUCCESS))"

definition close_event :: "event_db \<Rightarrow> usize \<Rightarrow> event_db \<times> efi_status" where
  "close_event db event =
     (case event_index event of
        None \<Rightarrow> (db, SUCCESS)
      | Some i \<Rightarrow> (db\<lparr>events := (events db)[i := empty_event]\<rparr>, SUCCESS))"

definition event_signaled :: "event_db \<Rightarrow> usize \<Rightarrow> bool" where
  "event_signaled db event =
     (case event_index event of None \<Rightarrow> False | Some i \<Rightarrow> signaled (events db ! i))"

definition check_event :: "event_db \<Rightarrow> bool \<Rightarrow> usize \<Rightarrow> efi_status" where
  "check_event db input_ready event =
     (if event = KEYBOARD_EVENT_ID then (if input_ready then SUCCESS else NOT_READY)
      else if event_signaled db event then SUCCESS
      else NOT_READY)"

text \<open>One pass over the list of events; the result is the index that is reported.\<close>

fun scan_events :: "event_db \<Rightarrow> bool \<Rightarrow> (nat \<Rightarrow> bool) \<Rightarrow> nat \<Rightarrow> usize list \<Rightarrow> nat option" where
  "scan_events db has_keyboard_event ready i [] = None"
| "scan_events db has_keyboard_event ready i (evt # evts) =
     (if (evt = KEYBOARD_EVENT_ID \<or> has_keyboard_event) \<and> ready i then Some i
      else if event_signaled db evt then Some i
      else scan_events db has_keyboard_event ready (Suc i) evts)"

partial_function (option) wait_rounds ::
  "event_db \<Rightarrow> bool \<Rightarrow> (nat \<Rightarrow> nat \<Rightarrow> bool) \<Rightarrow> usize list \<Rightarrow> nat \<Rightarrow> nat option" where
  "wait_rounds db kb ready evts k =
     (case scan_events db kb (ready k) 0 evts of
        Some i \<Rightarrow> Some i
      | None \<Rightarrow> wait_rounds db kb ready evts (Suc k))"

definition wait_for_event ::
  "event_db \<Rightarrow> (nat \<Rightarrow> nat \<Rightarrow> bool) \<Rightarrow> usize list option \<Rightarrow> bool \<Rightarrow> nat efi_result option" where
  "wait_for_event db ready event index =
     (case event of
        None \<Rightarrow> Some (Err INVALID_PARAMETER)
      | Some evts \<Rightarrow>
          if evts = [] \<or> \<not> index then Some (Err INVALID_PARAMETER)
          else map_option Inr
            (wait_rounds db (\<exists>e \<in> set evts. e = KEYBOARD_EVENT_ID) ready evts 0))"

section \<open>Lemmas\<close>

definition events_inv :: "event_db \<Rightarrow> bool" where
  "events_inv db \<longleftrightarrow> length (events db) = MAX_EVENTS \<and> 2 \<le> next_event_id db \<and> next_event_id db \<le> MAX_EVENTS"

lemma new_event_db_inv: "events_inv new_event_db"
  by (simp add: events_inv_def new_event_db_def MAX_EVENTS_def)

lemma event_index_eq: "event_index e = (if 0 < unat e \<and> unat e < MAX_EVENTS then Some (unat e) else None)"
  by (simp add: event_index_def word_less_nat_alt MAX_EVENTS_def)

lemma create_event_inv: "events_inv db \<Longrightarrow> events_inv (fst (create_event db ty tpl out))"
  by (auto simp: events_inv_def create_event_def Let_def)

lemma signal_event_inv: "events_inv db \<Longrightarrow> events_inv (fst (signal_event db e))"
  by (auto simp: events_inv_def signal_event_def split: option.split)

lemma close_event_inv: "events_inv db \<Longrightarrow> events_inv (fst (close_event db e))"
  by (auto simp: events_inv_def close_event_def split: option.split)

lemma event_signaled_signal:
  assumes "events_inv db"
  shows "event_signaled (fst (signal_event db e)) e' \<longleftrightarrow>
    event_signaled db e' \<or> (e' = e \<and> event_index e \<noteq> None)"
  using assms
  by (auto simp: event_signaled_def signal_event_def events_inv_def event_index_eq nth_list_update
      word_unat_eq_iff split: option.split)

lemma event_signaled_close:
  assumes "events_inv db"
  shows "event_signaled (fst (close_event db e)) e' \<longleftrightarrow> event_signaled db e' \<and> e' \<noteq> e"
  using assms
  by (auto simp: event_signaled_def close_event_def events_inv_def event_index_eq nth_list_update
      word_unat_eq_iff empty_event_def split: option.split)

lemma scan_events_Some:
  "scan_events db kb ready i evts = Some j \<Longrightarrow>
     i \<le> j \<and> j < i + length evts \<and>
     (event_signaled db (evts ! (j - i)) \<or> (kb \<or> evts ! (j - i) = KEYBOARD_EVENT_ID) \<and> ready j)"
proof (induction evts arbitrary: i)
  case Nil
  then show ?case by simp
next
  case (Cons e evts)
  show ?case
  proof (cases "(e = KEYBOARD_EVENT_ID \<or> kb) \<and> ready i \<or> event_signaled db e")
    case True
    then show ?thesis
      using Cons.prems by (auto split: if_splits)
  next
    case False
    then have "scan_events db kb ready (Suc i) evts = Some j"
      using Cons.prems by (auto split: if_splits)
    from Cons.IH [OF this] show ?thesis
      by (auto simp: nth_Cons')
  qed
qed

lemma scan_events_None:
  "scan_events db kb ready i evts = None \<longleftrightarrow>
     (\<forall>k < length evts. \<not> event_signaled db (evts ! k) \<and>
        \<not> ((kb \<or> evts ! k = KEYBOARD_EVENT_ID) \<and> ready (i + k)))"
proof (induction evts arbitrary: i)
  case Nil
  then show ?case by simp
next
  case (Cons e evts)
  show ?case
    using Cons.IH [of "Suc i"] by (cases kb) (auto simp: All_less_Suc2)
qed

lemma wait_rounds_finds:
  assumes "scan_events db kb (ready n) 0 evts = Some i" and "\<forall>k < n. scan_events db kb (ready k) 0 evts = None"
    and "k \<le> n"
  shows "wait_rounds db kb ready evts k = Some i"
  using assms(3)
proof (induction rule: inc_induct)
  case base
  then show ?case
    using assms(1) by (subst wait_rounds.simps) simp
next
  case (step k)
  then show ?case
    using assms(2) by (subst wait_rounds.simps) simp
qed

lemma wait_rounds_Some:
  "wait_rounds db kb ready evts k = Some i \<Longrightarrow> \<exists>n \<ge> k. scan_events db kb (ready n) 0 evts = Some i"
proof (erule wait_rounds.raw_induct [rotated])
  fix w db kb ready evts k i
  assume ih: "\<And>db kb ready evts k i. w db kb ready evts k = Some i \<Longrightarrow>
      \<exists>n \<ge> k. scan_events db kb (ready n) 0 evts = Some i"
    and run: "(case scan_events db kb (ready k) 0 evts of
      None \<Rightarrow> w db kb ready evts (Suc k) | Some i \<Rightarrow> Some i) = Some i"
  show "\<exists>n \<ge> k. scan_events db kb (ready n) 0 evts = Some i"
  proof (cases "scan_events db kb (ready k) 0 evts")
    case None
    then show ?thesis
      using run ih [of db kb ready evts "Suc k" i] by (auto dest: Suc_leD)
  next
    case (Some j)
    then show ?thesis
      using run by auto
  qed
qed

end
