(* ===== verification/Config_Tables.thy ===== *)
theory Config_Tables
  imports Keyed_Store
begin

text \<open>
  EFI configuration tables: \<open>ConfigurationTable\<close> of \<open>src/src/state.rs\<close> and
  \<open>install_configuration_table\<close> of \<open>src/src/efi/system_table.rs\<close>. The counted prefix of the array is
  a list; \<open>number_of_table_entries\<close> is the field of the system table that the operating system reads.
\<close>

definition MAX_CONFIG_TABLES :: nat where "MAX_CONFIG_TABLES = 16"

record configuration_table =
  vendor_guid :: guid
  vendor_table :: u64

record config_db =
  config_tables :: "configuration_table list"
  number_of_table_entries :: nat

definition new_config_db :: config_db where
  "new_config_db = \<lparr>config_tables = [], number_of_table_entries = 0\<rparr>"

definition update_table_count :: "config_db \<Rightarrow> nat \<Rightarrow> config_db" where
  "update_table_count db count = db\<lparr>number_of_table_entries := count\<rparr>"

definition install_configuration_table :: "config_db \<Rightarrow> guid \<Rightarrow> u64 \<Rightarrow> config_db \<times> efi_status" where
  "install_configuration_table db g table =
     (let tables = config_tables db
      in case position (\<lambda>t. vendor_guid t = g) tables of
           Some i \<Rightarrow>
             if table = 0
             then (update_table_count (db\<lparr>config_tables := take i tables @ drop (Suc i) tables\<rparr>)
                     (length tables - 1), SUCCESS)
             else (db\<lparr>config_tables := tables[i := (tables ! i)\<lparr>vendor_table := table\<rparr>]\<rparr>, SUCCESS)
         | None \<Rightarrow>
             if table = 0 then (db, NOT_FOUND)
             else if length tables \<ge> MAX_CONFIG_TABLES then (db, OUT_OF_RESOURCES)
             else (update_table_count
                     (db\<lparr>config_tables := tables @ [\<lparr>vendor_guid = g, vendor_table = table\<rparr>]\<rparr>)
                     (length tables + 1), SUCCESS))"

text \<open>The boot service of the same name; \<^const>\<open>None\<close> is a null GUID pointer.\<close>

definition bs_install_configuration_table ::
  "config_db \<Rightarrow> guid option \<Rightarrow> u64 \<Rightarrow> config_db \<times> efi_status" where
  "bs_install_configuration_table db g table =
     (case g of None \<Rightarrow> (db, INVALID_PARAMETER) | Some g' \<Rightarrow> install_configuration_table db g' table)"

section \<open>Lemmas\<close>

definition config_inv :: "config_db \<Rightarrow> bool" where
  "config_inv db \<longleftrightarrow> distinct (map vendor_guid (config_tables db)) \<and>
     length (config_tables db) \<le> MAX_CONFIG_TABLES \<and>
     number_of_table_entries db = length (config_tables db) \<and>
     (\<forall>t \<in> set (config_tables db). vendor_table t \<noteq> 0)"

definition config_lookup :: "config_db \<Rightarrow> guid \<Rightarrow> u64 option" where
  "config_lookup db g = map_option vendor_table (find (\<lambda>t. vendor_guid t = g) (config_tables db))"

lemma new_config_db_inv: "config_inv new_config_db"
  by (simp add: config_inv_def new_config_db_def)

lemma find_guid_Some_iff:
  assumes "distinct (map vendor_guid ts)"
  shows "map_option vendor_table (find (\<lambda>t. vendor_guid t = g) ts) = Some v \<longleftrightarrow>
    \<lparr>vendor_guid = g, vendor_table = v\<rparr> \<in> set ts"
proof
  assume "map_option vendor_table (find (\<lambda>t. vendor_guid t = g) ts) = Some v"
  then obtain t where t: "t \<in> set ts" "vendor_guid t = g" "vendor_table t = v"
    by (auto dest!: find_SomeD)
  moreover have "t = \<lparr>vendor_guid = g, vendor_table = v\<rparr>"
    using t by (intro configuration_table.equality) simp_all
  ultimately show "\<lparr>vendor_guid = g, vendor_table = v\<rparr> \<in> set ts"
    by simp
next
  assume t: "\<lparr>vendor_guid = g, vendor_table = v\<rparr> \<in> set ts"
  have inj: "inj_on vendor_guid (set ts)"
    using assms by (simp add: distinct_map)
  have "find (\<lambda>t. vendor_guid t = g) ts = Some \<lparr>vendor_guid = g, vendor_table = v\<rparr>"
    using t inj_onD [OF inj, of _ "\<lparr>vendor_guid = g, vendor_table = v\<rparr>"] by (intro find_unique) auto
  then show "map_option vendor_table (find (\<lambda>t. vendor_guid t = g) ts) = Some v"
    by simp
qed

lemma config_lookup_Some_iff:
  "config_inv db \<Longrightarrow> config_lookup db g = Some v \<longleftrightarrow> \<lparr>vendor_guid = g, vendor_table = v\<rparr> \<in> set (config_tables db)"
  unfolding config_lookup_def by (rule find_guid_Some_iff) (simp add: config_inv_def)

lemma config_lookup_None_iff: "config_lookup db g = None \<longleftrightarrow> (\<forall>t \<in> set (config_tables db). vendor_guid t \<noteq> g)"
  by (simp add: config_lookup_def find_None_iff_all)

lemma lookup_eqI: "(\<And>v. m k = Some v \<longleftrightarrow> m' k = Some v) \<Longrightarrow> m k = m' k"
  by (metis not_None_eq)

text \<open>The four successful or refused outcomes.\<close>

lemma install_new:
  assumes inv: "config_inv db" and "config_lookup db g = None" and "table \<noteq> 0"
    and "length (config_tables db) < MAX_CONFIG_TABLES"
  shows "\<exists>db'. install_configuration_table db g table = (db', SUCCESS) \<and> config_inv db' \<and>
    config_lookup db' = (config_lookup db)(g \<mapsto> table)"
proof -
  let ?t = "\<lparr>vendor_guid = g, vendor_table = table\<rparr>"
  let ?db = "update_table_count (db\<lparr>config_tables := config_tables db @ [?t]\<rparr>) (length (config_tables db) + 1)"
  have fresh: "\<forall>t \<in> set (config_tables db). vendor_guid t \<noteq> g"
    using assms(2) by (simp add: config_lookup_None_iff)
  then have pos: "position (\<lambda>t. vendor_guid t = g) (config_tables db) = None"
    by (simp add: position_None_iff)
  have inv': "config_inv ?db"
    using inv fresh assms(3,4) by (auto simp: config_inv_def update_table_count_def)
  have "config_lookup ?db = (config_lookup db)(g \<mapsto> table)"
  proof
    fix h
    show "config_lookup ?db h = ((config_lookup db)(g \<mapsto> table)) h"
      using fresh config_lookup_Some_iff [OF inv', of h] config_lookup_Some_iff [OF inv, of h]
      by (intro lookup_eqI) (auto simp: update_table_count_def)
  qed
  moreover have "install_configuration_table db g table = (?db, SUCCESS)"
    using pos assms(3,4) by (simp add: install_configuration_table_def Let_def)
  ultimately show ?thesis
    using inv' by blast
qed

lemma install_existing:
  assumes inv: "config_inv db" and "config_lookup db g \<noteq> None"
  shows "\<exists>db'. install_configuration_table db g table = (db', SUCCESS) \<and> config_inv db' \<and>
    config_lookup db' = (config_lookup db)(g := if table = 0 then None else Some table)"
proof -
  let ?ts = "config_tables db"
  obtain i where pos: "position (\<lambda>t. vendor_guid t = g) ?ts = Some i"
    using assms(2) by (cases "position (\<lambda>t. vendor_guid t = g) ?ts") (auto simp: config_lookup_def find_position)
  then have i: "i < length ?ts" "vendor_guid (?ts ! i) = g"
    by (auto dest: position_SomeD)
  have split: "?ts = take i ?ts @ ?ts ! i # drop (Suc i) ?ts"
    by (rule id_take_nth_drop [OF i(1)])
  have other: "\<forall>t \<in> set (take i ?ts @ drop (Suc i) ?ts). vendor_guid t \<noteq> g"
  proof -
    have "distinct (map vendor_guid (take i ?ts @ ?ts ! i # drop (Suc i) ?ts))"
      using inv split by (simp add: config_inv_def)
    then show ?thesis
      using i(2) by (auto simp: image_iff)
  qed
  have mem: "t \<in> set ?ts \<longleftrightarrow> t = ?ts ! i \<or> t \<in> set (take i ?ts @ drop (Suc i) ?ts)" for t
    using arg_cong [OF split, of set] by auto
  let ?rest = "set (take i ?ts @ drop (Suc i) ?ts)"
  have rest: "\<lparr>vendor_guid = g, vendor_table = v\<rparr> \<notin> ?rest" for v
    using other by fastforce
  have "\<lparr>vendor_guid = h, vendor_table = v\<rparr> = ?ts ! i \<longleftrightarrow> h = g \<and> v = vendor_table (?ts ! i)" for h v
    using i(2) by (auto simp: i(2) [symmetric] intro!: configuration_table.equality) (metis configuration_table.select_convs)+
  then have lk: "config_lookup db h = Some v \<longleftrightarrow>
      h = g \<and> v = vendor_table (?ts ! i) \<or> \<lparr>vendor_guid = h, vendor_table = v\<rparr> \<in> ?rest" for h v
    unfolding config_lookup_Some_iff [OF inv] mem by blast
  show ?thesis
  proof (cases "table = 0")
    case True
    let ?db = "update_table_count (db\<lparr>config_tables := take i ?ts @ drop (Suc i) ?ts\<rparr>) (length ?ts - 1)"
    have "distinct (map vendor_guid (take i ?ts @ ?ts ! i # drop (Suc i) ?ts))"
      using inv split by (simp add: config_inv_def)
    then have "distinct (map vendor_guid (take i ?ts @ drop (Suc i) ?ts))"
      by simp
    moreover have "\<forall>t \<in> set (take i ?ts @ drop (Suc i) ?ts). vendor_table t \<noteq> 0"
      using inv mem by (auto simp: config_inv_def)
    ultimately have inv': "config_inv ?db"
      using inv i(1) by (auto simp: config_inv_def update_table_count_def)
    have "config_lookup ?db = (config_lookup db)(g := None)"
    proof
      fix h
      show "config_lookup ?db h = ((config_lookup db)(g := None)) h"
        using rest config_lookup_Some_iff [OF inv', of h]
        by (intro lookup_eqI) (auto simp: lk update_table_count_def)
    qed
    then show ?thesis
      using True pos inv' by (simp add: install_configuration_table_def Let_def)
  next
    case False
    let ?t = "(?ts ! i)\<lparr>vendor_table := table\<rparr>"
    let ?db = "db\<lparr>config_tables := ?ts[i := ?t]\<rparr>"
    have upd: "?ts[i := ?t] = take i ?ts @ ?t # drop (Suc i) ?ts"
      by (rule upd_conv_take_nth_drop [OF i(1)])
    have t: "?t = \<lparr>vendor_guid = g, vendor_table = table\<rparr>"
      using i(2) by (intro configuration_table.equality) simp_all
    have "map vendor_guid (?ts[i := ?t]) = map vendor_guid ?ts"
      using i by (simp add: map_update list_update_same_conv)
    moreover have "\<forall>t \<in> set (?ts[i := ?t]). vendor_table t \<noteq> 0"
      using inv False mem by (auto simp: config_inv_def upd)
    ultimately have inv': "config_inv ?db"
      using inv by (simp add: config_inv_def)
    have "set (?ts[i := ?t]) = insert \<lparr>vendor_guid = g, vendor_table = table\<rparr> ?rest"
      unfolding t using upd_conv_take_nth_drop [OF i(1)] by auto
    then have lk': "config_lookup ?db h = Some v \<longleftrightarrow>
        h = g \<and> v = table \<or> \<lparr>vendor_guid = h, vendor_table = v\<rparr> \<in> ?rest" for h v
      unfolding config_lookup_Some_iff [OF inv'] by auto
    have "config_lookup ?db = (config_lookup db)(g \<mapsto> table)"
    proof
      fix h
      show "config_lookup ?db h = ((config_lookup db)(g \<mapsto> table)) h"
        using rest by (intro lookup_eqI) (auto simp: lk lk' simp del: set_append)
    qed
    then show ?thesis
      using False pos inv' by (simp add: install_configuration_table_def Let_def)
  qed
qed

lemma install_refused:
  assumes "config_lookup db g = None"
  shows "table = 0 \<Longrightarrow> install_configuration_table db g table = (db, NOT_FOUND)"
    and "table \<noteq> 0 \<Longrightarrow> MAX_CONFIG_TABLES \<le> length (config_tables db) \<Longrightarrow>
      install_configuration_table db g table = (db, OUT_OF_RESOURCES)"
proof -
  have "position (\<lambda>t. vendor_guid t = g) (config_tables db) = None"
    using assms by (simp add: config_lookup_None_iff position_None_iff)
  then show "table = 0 \<Longrightarrow> install_configuration_table db g table = (db, NOT_FOUND)"
    and "table \<noteq> 0 \<Longrightarrow> MAX_CONFIG_TABLES \<le> length (config_tables db) \<Longrightarrow>
      install_configuration_table db g table = (db, OUT_OF_RESOURCES)"
    by (simp_all add: install_configuration_table_def Let_def)
qed

definition config_put :: "config_db \<Rightarrow> guid \<Rightarrow> u64 \<Rightarrow> config_db option" where
  "config_put db g table =
     (case install_configuration_table db g table of
        (db', status) \<Rightarrow> if table \<noteq> 0 \<and> status = SUCCESS then Some db' else None)"

definition config_delete :: "config_db \<Rightarrow> guid \<Rightarrow> config_db" where
  "config_delete db g = fst (install_configuration_table db g 0)"

interpretation config: keyed_store config_inv config_lookup config_put config_delete
proof unfold_locales
  fix db k v db'
  assume inv: "config_inv db" and put: "config_put db k v = Some db'"
  have "v \<noteq> 0" and run: "install_configuration_table db k v = (db', SUCCESS)"
    using put by (auto simp: config_put_def split: prod.splits if_splits)
  then have "config_lookup db k \<noteq> None \<or> length (config_tables db) < MAX_CONFIG_TABLES"
    using install_refused(2) [of db k v] by (cases "MAX_CONFIG_TABLES \<le> length (config_tables db)"; cases "config_lookup db k") auto
  then have "config_inv db' \<and> config_lookup db' = (config_lookup db)(k \<mapsto> v)"
    using install_existing [OF inv, of k v] install_new [OF inv, of k v] run \<open>v \<noteq> 0\<close>
    by (cases "config_lookup db k = None") auto
  then show "config_inv db'" "config_lookup db' = (config_lookup db)(k \<mapsto> v)"
    by blast+
next
  fix db k
  assume inv: "config_inv db"
  have "config_inv (config_delete db k) \<and> config_lookup (config_delete db k) = (config_lookup db)(k := None)"
  proof (cases "config_lookup db k = None")
    case True
    then show ?thesis
      using inv install_refused(1) [OF True, of 0] by (simp add: config_delete_def fun_upd_idem)
  next
    case False
    then show ?thesis
      using install_existing [OF inv False, of 0] by (auto simp: config_delete_def)
  qed
  then show "config_inv (config_delete db k)" "config_lookup (config_delete db k) = (config_lookup db)(k := None)"
    by blast+
qed

end
