(* ===== verification/Variables.thy ===== *)
theory Variables
  imports Keyed_Store
begin

text \<open>
  EFI variables: \<open>VariableEntry\<close> of \<open>src/src/state.rs\<close> and the variable services of
  \<open>src/src/efi/runtime_services.rs\<close>.

  The store is an array of 64 slots. A name passed by the caller is a pointer to UCS-2 code units, here
  the function from the index to the unit; reading it for a terminator that never comes is a loop that
  does not return (\<^const>\<open>None\<close>). Stored names and data are the fixed arrays of the source.
\<close>

section \<open>State\<close>

definition MAX_VARIABLES :: nat where "MAX_VARIABLES = 64"
definition MAX_VARIABLE_NAME_LEN :: nat where "MAX_VARIABLE_NAME_LEN = 64"
definition MAX_VARIABLE_DATA_SIZE :: nat where "MAX_VARIABLE_DATA_SIZE = 1024"

record variable_entry =
  var_name :: "u16 list"
  var_guid :: guid
  var_attributes :: u32
  var_data :: "u8 list"
  var_data_size :: nat
  in_use :: bool

definition empty_variable :: variable_entry where
  "empty_variable = \<lparr>var_name = replicate MAX_VARIABLE_NAME_LEN 0, var_guid = Guid 0 0 0 0 0 [0, 0, 0, 0, 0, 0],
     var_attributes = 0, var_data = replicate MAX_VARIABLE_DATA_SIZE 0, var_data_size = 0, in_use = False\<rparr>"

definition new_variables :: "variable_entry list" where
  "new_variables = replicate MAX_VARIABLES empty_variable"

type_synonym ucs2_ptr = "nat \<Rightarrow> u16"

section \<open>UCS-2 strings\<close>

function name_eq_from :: "u16 list \<Rightarrow> ucs2_ptr \<Rightarrow> nat \<Rightarrow> bool" where
  "name_eq_from stored name i =
     (let a = (if i < length stored then stored ! i else 0); b = name i
      in if a \<noteq> b then False else if a = 0 then True else name_eq_from stored name (Suc i))"
  by pat_completeness auto

termination name_eq_from
  by (relation "measure (\<lambda>(stored, _, i). length stored - i)") (auto split: if_splits)

declare name_eq_from.simps [simp del]

definition name_eq :: "u16 list \<Rightarrow> ucs2_ptr \<Rightarrow> bool" where
  "name_eq stored name = name_eq_from stored name 0"

definition ucs2_strlen :: "u16 list \<Rightarrow> nat" where
  "ucs2_strlen s = (case position (\<lambda>c. c = 0) s of Some i \<Rightarrow> i | None \<Rightarrow> length s)"

partial_function (option) ucs2_strlen_from :: "ucs2_ptr \<Rightarrow> nat \<Rightarrow> nat option" where
  "ucs2_strlen_from s len = (if s len \<noteq> 0 then ucs2_strlen_from s (Suc len) else Some len)"

definition ucs2_strlen_ptr :: "ucs2_ptr \<Rightarrow> nat option" where
  "ucs2_strlen_ptr s = ucs2_strlen_from s 0"

section \<open>Services\<close>

definition find_variable :: "variable_entry list \<Rightarrow> ucs2_ptr \<Rightarrow> guid \<Rightarrow> variable_entry option" where
  "find_variable vs name g = find (\<lambda>v. in_use v \<and> var_guid v = g \<and> name_eq (var_name v) name) vs"

text \<open>
  \<open>get_variable\<close>: null pointers are \<^const>\<open>None\<close>, \<open>data\<close> tells whether a data pointer was passed. The result
  holds the status, the new value of \<open>*data_size\<close>, the bytes copied to \<open>data\<close> and the value stored
  through \<open>attributes\<close> when that is not null.
\<close>

record get_result =
  gv_status :: efi_status
  gv_size :: "nat option"
  gv_data :: "u8 list"
  gv_attributes :: "u32 option"

definition get_variable ::
  "variable_entry list \<Rightarrow> ucs2_ptr option \<Rightarrow> guid option \<Rightarrow> nat option \<Rightarrow> bool \<Rightarrow> get_result" where
  "get_variable vs name g data_size data =
     (case (name, g, data_size) of
        (Some nm, Some gd, Some sz) \<Rightarrow>
          (case find_variable vs nm gd of
             None \<Rightarrow> \<lparr>gv_status = NOT_FOUND, gv_size = Some sz, gv_data = [], gv_attributes = None\<rparr>
           | Some var \<Rightarrow>
               (let required_size = var_data_size var
                in if \<not> data \<or> sz < required_size
                   then \<lparr>gv_status = BUFFER_TOO_SMALL, gv_size = Some required_size, gv_data = [],
                          gv_attributes = None\<rparr>
                   else \<lparr>gv_status = SUCCESS, gv_size = Some required_size,
                          gv_data = take required_size (var_data var),
                          gv_attributes = Some (var_attributes var)\<rparr>))
      | _ \<Rightarrow> \<lparr>gv_status = INVALID_PARAMETER, gv_size = data_size, gv_data = [], gv_attributes = None\<rparr>)"

text \<open>
  \<open>get_next_variable_name\<close> returns the status, the new size, and the name (with its terminator) and
  GUID that are written on success.
\<close>

definition next_variable :: "variable_entry list \<Rightarrow> ucs2_ptr \<Rightarrow> guid \<Rightarrow> variable_entry option" where
  "next_variable vs name g =
     (let used = filter in_use vs
      in if name 0 = 0 then (case used of [] \<Rightarrow> None | v # _ \<Rightarrow> Some v)
         else
           (case dropWhile (\<lambda>v. \<not> (var_guid v = g \<and> name_eq (var_name v) name)) used of
              _ # v # _ \<Rightarrow> Some v
            | _ \<Rightarrow> None))"

definition get_next_variable_name ::
  "variable_entry list \<Rightarrow> nat option \<Rightarrow> ucs2_ptr option \<Rightarrow> guid option \<Rightarrow>
     efi_status \<times> nat option \<times> (u16 list \<times> guid) option" where
  "get_next_variable_name vs name_size name g =
     (case (name_size, name, g) of
        (Some sz, Some nm, Some gd) \<Rightarrow>
          (case next_variable vs nm gd of
             None \<Rightarrow> (NOT_FOUND, Some sz, None)
           | Some var \<Rightarrow>
               (let name_len = ucs2_strlen (var_name var) + 1; required_size = name_len * 2
                in if sz < required_size then (BUFFER_TOO_SMALL, Some required_size, None)
                   else (SUCCESS, Some required_size, Some (take name_len (var_name var), var_guid var))))
      | _ \<Rightarrow> (INVALID_PARAMETER, name_size, None))"

text \<open>
  \<open>set_variable\<close>: the bytes behind the data pointer, \<^const>\<open>None\<close> when it is null, are given up to
  \<open>data_size\<close>.
\<close>

definition store_variable ::
  "variable_entry \<Rightarrow> ucs2_ptr \<Rightarrow> nat \<Rightarrow> guid \<Rightarrow> u32 \<Rightarrow> u8 list \<Rightarrow> variable_entry" where
  "store_variable v name name_len g attributes bytes =
     v\<lparr>var_name := map name [0..<name_len + 1] @ replicate (length (var_name v) - (name_len + 1)) 0,
       var_data := bytes @ drop (length bytes) (var_data v),
       var_guid := g, var_attributes := attributes, var_data_size := length bytes, in_use := True\<rparr>"

definition set_variable ::
  "variable_entry list \<Rightarrow> ucs2_ptr option \<Rightarrow> guid option \<Rightarrow> u32 \<Rightarrow> nat \<Rightarrow> u8 list option \<Rightarrow>
     (variable_entry list \<times> efi_status) option" where
  "set_variable vs name g attributes data_size data =
     (case (name, g) of
        (Some nm, Some gd) \<Rightarrow>
          (case ucs2_strlen_ptr nm of
             None \<Rightarrow> None
           | Some name_len \<Rightarrow>
               if name_len = 0 \<or> name_len \<ge> MAX_VARIABLE_NAME_LEN then Some (vs, INVALID_PARAMETER)
               else if data_size > MAX_VARIABLE_DATA_SIZE then Some (vs, OUT_OF_RESOURCES)
               else if data_size > 0 \<and> data = None then Some (vs, INVALID_PARAMETER)
               else
                 (let existing_idx = position (\<lambda>v. in_use v \<and> var_guid v = gd \<and> name_eq (var_name v) nm) vs;
                      free_idx = position (\<lambda>v. \<not> in_use v) vs
                  in if data_size = 0 then
                       (case existing_idx of
                          Some idx \<Rightarrow> Some (vs[idx := (vs ! idx)\<lparr>in_use := False\<rparr>], SUCCESS)
                        | None \<Rightarrow> Some (vs, NOT_FOUND))
                     else
                       (case (case existing_idx of Some i \<Rightarrow> Some i | None \<Rightarrow> free_idx) of
                          None \<Rightarrow> Some (vs, OUT_OF_RESOURCES)
                        | Some idx \<Rightarrow>
                            Some (vs[idx := store_variable (vs ! idx) nm name_len gd attributes
                                       (take data_size (the data))], SUCCESS))))
      | _ \<Rightarrow> Some (vs, INVALID_PARAMETER))"

text \<open>The three sizes that \<open>query_variable_info\<close> reports, when no pointer is null.\<close>

definition query_variable_info :: "variable_entry list \<Rightarrow> bool \<Rightarrow> (nat \<times> nat \<times> nat) efi_result" where
  "query_variable_info vs pointers_ok =
     (if \<not> pointers_ok then Err INVALID_PARAMETER
      else
        (let total_size = MAX_VARIABLES * MAX_VARIABLE_DATA_SIZE;
             used_size = sum_list (map var_data_size (filter in_use vs))
         in Ok (total_size, total_size - used_size, MAX_VARIABLE_DATA_SIZE)))"

section \<open>Strings\<close>

text \<open>\<open>is_ucs2 name s\<close>: the pointer \<open>name\<close> holds the string \<open>s\<close> and a terminator.\<close>

definition is_ucs2 :: "ucs2_ptr \<Rightarrow> u16 list \<Rightarrow> bool" where
  "is_ucs2 name s \<longleftrightarrow> (\<forall>i < length s. name i = s ! i) \<and> name (length s) = 0 \<and> 0 \<notin> set s"

definition ucs2_of :: "u16 list \<Rightarrow> ucs2_ptr" where
  "ucs2_of s = (\<lambda>i. if i < length s then s ! i else 0)"

definition stored_string :: "u16 list \<Rightarrow> u16 list" where
  "stored_string stored = take (ucs2_strlen stored) stored"

lemma is_ucs2_of: "0 \<notin> set s \<Longrightarrow> is_ucs2 (ucs2_of s) s"
  by (simp add: is_ucs2_def ucs2_of_def)

lemma is_ucs2_nonzero: "is_ucs2 name s \<Longrightarrow> i < length s \<Longrightarrow> name i \<noteq> 0"
  by (auto simp: is_ucs2_def in_set_conv_nth)

lemma ucs2_strlen_from_eq:
  assumes "is_ucs2 name s" and "i \<le> length s"
  shows "ucs2_strlen_from name i = Some (length s)"
  using assms(2)
proof (induction rule: inc_induct)
  case base
  then show ?case
    using assms(1) by (subst ucs2_strlen_from.simps) (simp add: is_ucs2_def)
next
  case (step i)
  then show ?case
    using is_ucs2_nonzero [OF assms(1), of i] by (subst ucs2_strlen_from.simps) simp
qed

lemma ucs2_strlen_ptr_eq: "is_ucs2 name s \<Longrightarrow> ucs2_strlen_ptr name = Some (length s)"
  by (simp add: ucs2_strlen_ptr_def ucs2_strlen_from_eq)

lemma is_ucs2_unique: "is_ucs2 name s \<Longrightarrow> is_ucs2 name t \<Longrightarrow> s = t"
proof -
  assume s: "is_ucs2 name s" and t: "is_ucs2 name t"
  have "length s = length t"
    using ucs2_strlen_ptr_eq [OF s] ucs2_strlen_ptr_eq [OF t] by simp
  then show "s = t"
    using s t by (intro nth_equalityI) (auto simp: is_ucs2_def)
qed

text \<open>A stored array read past its end continues with zeros.\<close>

lemma stored_is_ucs2: "is_ucs2 (ucs2_of stored) (stored_string stored)"
proof (cases "position (\<lambda>c. c = 0) stored")
  case None
  then have "0 \<notin> set stored"
    by (auto simp: position_None_iff)
  then show ?thesis
    using None by (simp add: stored_string_def ucs2_strlen_def is_ucs2_of)
next
  case (Some i)
  then have "i < length stored" "stored ! i = 0" "\<forall>j < i. stored ! j \<noteq> 0"
    by (auto dest: position_SomeD)
  then show ?thesis
    using Some by (auto simp: stored_string_def ucs2_strlen_def is_ucs2_def ucs2_of_def in_set_conv_nth)
qed

lemma bounded_search_step:
  fixes i :: nat
  assumes "P i" and "\<not> A i"
  shows "(\<exists>n \<ge> Suc i. A n \<and> (\<forall>k. Suc i \<le> k \<and> k < n \<longrightarrow> P k)) \<longleftrightarrow>
    (\<exists>n \<ge> i. A n \<and> (\<forall>k. i \<le> k \<and> k < n \<longrightarrow> P k))" (is "?l \<longleftrightarrow> ?r")
proof
  assume ?l
  then obtain n where n: "Suc i \<le> n" "A n" "\<forall>k. Suc i \<le> k \<and> k < n \<longrightarrow> P k"
    by blast
  have "P k" if "i \<le> k" "k < n" for k
    using n(3) assms(1) that by (cases "k = i") auto
  then show ?r
    using n(1,2) Suc_leD by blast
next
  assume ?r
  then obtain n where n: "i \<le> n" "A n" "\<forall>k. i \<le> k \<and> k < n \<longrightarrow> P k"
    by blast
  then have "Suc i \<le> n"
    using assms(2) by (cases "n = i") auto
  then show ?l
    using n Suc_leD by blast
qed

lemma name_eq_from_iff:
  "name_eq_from stored name i \<longleftrightarrow>
     (\<exists>n \<ge> i. (ucs2_of stored n = 0 \<and> name n = 0) \<and>
        (\<forall>k. i \<le> k \<and> k < n \<longrightarrow> name k = ucs2_of stored k \<and> name k \<noteq> 0))"
proof (induction stored name i rule: name_eq_from.induct)
  case (1 stored name i)
  let ?a = "ucs2_of stored i"
  have eq: "name_eq_from stored name i \<longleftrightarrow> ?a = name i \<and> (?a = 0 \<or> name_eq_from stored name (Suc i))"
    by (subst name_eq_from.simps) (simp add: Let_def ucs2_of_def)
  show ?case
  proof (cases "?a = name i \<and> ?a \<noteq> 0")
    case False
    show ?thesis
    proof (cases "?a = name i")
      case True
      with False have "ucs2_of stored i = 0 \<and> name i = 0"
        by simp
      then show ?thesis
        unfolding eq using True by (metis le_refl not_le)
    next
      case neq: False
      have "\<not> (i \<le> n \<and> (ucs2_of stored n = 0 \<and> name n = 0) \<and>
          (\<forall>k. i \<le> k \<and> k < n \<longrightarrow> name k = ucs2_of stored k \<and> name k \<noteq> 0))" for n
        using neq by (cases "n = i") (metis, metis le_refl le_neq_implies_less)
      then show ?thesis
        unfolding eq using neq by blast
    qed
  next
    case True
    then have ih: "name_eq_from stored name (Suc i) \<longleftrightarrow>
        (\<exists>n \<ge> Suc i. (ucs2_of stored n = 0 \<and> name n = 0) \<and>
          (\<forall>k. Suc i \<le> k \<and> k < n \<longrightarrow> name k = ucs2_of stored k \<and> name k \<noteq> 0))"
      by (intro 1 [OF refl refl]) (auto simp: ucs2_of_def)
    from True have a: "?a = name i" "name i \<noteq> 0"
      by auto
    show ?thesis
      unfolding eq ih
      using a bounded_search_step [of "\<lambda>k. name k = ucs2_of stored k \<and> name k \<noteq> 0" i
          "\<lambda>n. ucs2_of stored n = 0 \<and> name n = 0"] by simp
  qed
qed

lemma name_eq_iff:
  assumes "is_ucs2 name s"
  shows "name_eq stored name \<longleftrightarrow> stored_string stored = s"
proof
  assume "name_eq stored name"
  then obtain n where n: "ucs2_of stored n = 0" "name n = 0"
    "\<forall>k < n. name k = ucs2_of stored k \<and> name k \<noteq> 0"
    by (auto simp: name_eq_def name_eq_from_iff)
  then have "is_ucs2 name (map name [0..<n])" "is_ucs2 (ucs2_of stored) (map name [0..<n])"
    by (auto simp: is_ucs2_def)
  then show "stored_string stored = s"
    using is_ucs2_unique assms stored_is_ucs2 by metis
next
  assume "stored_string stored = s"
  then have u: "is_ucs2 (ucs2_of stored) s"
    using stored_is_ucs2 by metis
  then show "name_eq stored name"
    unfolding name_eq_def name_eq_from_iff using assms is_ucs2_nonzero [OF assms]
    by (intro exI [of _ "length s"]) (auto simp: is_ucs2_def)
qed

section \<open>The store\<close>

definition var_key :: "variable_entry \<Rightarrow> u16 list \<times> guid" where
  "var_key v = (stored_string (var_name v), var_guid v)"

definition var_value :: "variable_entry \<Rightarrow> u32 \<times> u8 list" where
  "var_value v = (var_attributes v, take (var_data_size v) (var_data v))"

definition var_ok :: "variable_entry \<Rightarrow> bool" where
  "var_ok v \<longleftrightarrow> length (var_name v) = MAX_VARIABLE_NAME_LEN \<and> length (var_data v) = MAX_VARIABLE_DATA_SIZE \<and>
     var_data_size v \<le> MAX_VARIABLE_DATA_SIZE \<and>
     (in_use v \<longrightarrow> 0 < var_data_size v \<and> 0 < ucs2_strlen (var_name v) \<and>
        ucs2_strlen (var_name v) < MAX_VARIABLE_NAME_LEN)"

definition vars_inv :: "variable_entry list \<Rightarrow> bool" where
  "vars_inv vs \<longleftrightarrow> length vs = MAX_VARIABLES \<and> (\<forall>v \<in> set vs. var_ok v) \<and>
     (\<forall>i < length vs. \<forall>j < length vs. in_use (vs ! i) \<longrightarrow> in_use (vs ! j) \<longrightarrow>
        var_key (vs ! i) = var_key (vs ! j) \<longrightarrow> i = j)"

definition vars_lookup :: "variable_entry list \<Rightarrow> u16 list \<times> guid \<Rightarrow> (u32 \<times> u8 list) option" where
  "vars_lookup vs k = map_option var_value (find (\<lambda>v. in_use v \<and> var_key v = k) vs)"

lemma new_variables_inv: "vars_inv new_variables"
  by (simp add: vars_inv_def new_variables_def var_ok_def empty_variable_def)

lemma var_match:
  assumes "is_ucs2 name s"
  shows "in_use v \<and> var_guid v = g \<and> name_eq (var_name v) name \<longleftrightarrow> in_use v \<and> var_key v = (s, g)"
  using name_eq_iff [OF assms] by (auto simp: var_key_def)

lemma vars_lookup_Some_iff:
  assumes "vars_inv vs"
  shows "vars_lookup vs k = Some x \<longleftrightarrow> (\<exists>v \<in> set vs. in_use v \<and> var_key v = k \<and> var_value v = x)"
proof
  assume "vars_lookup vs k = Some x"
  then show "\<exists>v \<in> set vs. in_use v \<and> var_key v = k \<and> var_value v = x"
    by (auto simp: vars_lookup_def dest: find_SomeD)
next
  assume "\<exists>v \<in> set vs. in_use v \<and> var_key v = k \<and> var_value v = x"
  then obtain v where v: "v \<in> set vs" "in_use v" "var_key v = k" "var_value v = x"
    by blast
  have "find (\<lambda>v. in_use v \<and> var_key v = k) vs = Some v"
  proof (rule find_unique)
    fix w
    assume "w \<in> set vs" "in_use w \<and> var_key w = k"
    then show "w = v"
      using v assms unfolding vars_inv_def in_set_conv_nth by metis
  qed (use v in auto)
  then show "vars_lookup vs k = Some x"
    using v by (simp add: vars_lookup_def)
qed

lemma vars_lookup_None_iff: "vars_lookup vs k = None \<longleftrightarrow> (\<forall>v \<in> set vs. in_use v \<longrightarrow> var_key v \<noteq> k)"
  by (auto simp: vars_lookup_def find_None_iff_all)

text \<open>Replacing the entry that holds a key, or a free one, by an entry with that key.\<close>

lemma update_variable:
  assumes inv: "vars_inv vs" and i: "i < length vs" and ok: "var_ok w"
    and slot: "in_use (vs ! i) \<longrightarrow> var_key (vs ! i) = k"
    and only: "\<forall>j < length vs. in_use (vs ! j) \<and> var_key (vs ! j) = k \<longrightarrow> j = i"
    and w: "in_use w \<longrightarrow> var_key w = k"
  shows "vars_inv (vs[i := w])"
    and "vars_lookup (vs[i := w]) = (vars_lookup vs)(k := if in_use w then Some (var_value w) else None)"
proof -
  show inv': "vars_inv (vs[i := w])"
    unfolding vars_inv_def
  proof (intro conjI allI impI)
    show "length (vs[i := w]) = MAX_VARIABLES"
      using inv by (simp add: vars_inv_def)
    show "\<forall>v \<in> set (vs[i := w]). var_ok v"
      using inv ok set_update_subset_insert [of vs i w] by (auto simp: vars_inv_def)
    fix a b
    assume ab: "a < length (vs[i := w])" "b < length (vs[i := w])" "in_use (vs[i := w] ! a)"
      "in_use (vs[i := w] ! b)" "var_key (vs[i := w] ! a) = var_key (vs[i := w] ! b)"
    have uniq: "a = b" if "a < length vs" "b < length vs" "in_use (vs ! a)" "in_use (vs ! b)"
        "var_key (vs ! a) = var_key (vs ! b)"
      using inv that unfolding vars_inv_def by blast
    show "a = b"
    proof (cases "a = i \<or> b = i")
      case True
      have other: "j = i" if "j < length vs" "in_use (vs[i := w] ! j)" "var_key (vs[i := w] ! j) = k" for j
        using only that by (metis nth_list_update_neq)
      have "var_key (vs[i := w] ! i) = k \<or> \<not> in_use (vs[i := w] ! i)"
        using i w by auto
      then have "var_key (vs[i := w] ! a) = k"
        using True ab by metis
      moreover from this have "var_key (vs[i := w] ! b) = k"
        using ab(5) by (rule trans [OF sym, rotated])
      ultimately show ?thesis
        using other [of a] other [of b] ab(1-4) by simp
    next
      case False
      then show ?thesis
        using ab uniq by simp
    qed
  qed
  show "vars_lookup (vs[i := w]) = (vars_lookup vs)(k := if in_use w then Some (var_value w) else None)"
  proof
    fix k'
    have "vars_lookup (vs[i := w]) k' = Some x \<longleftrightarrow>
        ((vars_lookup vs)(k := if in_use w then Some (var_value w) else None)) k' = Some x" for x
    proof (cases "k' = k")
      case True
      have "(\<exists>v \<in> set (vs[i := w]). in_use v \<and> var_key v = k \<and> var_value v = x) \<longleftrightarrow> in_use w \<and> var_value w = x"
      proof
        assume "\<exists>v \<in> set (vs[i := w]). in_use v \<and> var_key v = k \<and> var_value v = x"
        then obtain j where "j < length vs" "in_use (vs[i := w] ! j)" "var_key (vs[i := w] ! j) = k"
            "var_value (vs[i := w] ! j) = x"
          by (auto simp: in_set_conv_nth)
        then show "in_use w \<and> var_value w = x"
          using only i nth_list_update_eq [OF i, of w] by (metis nth_list_update_neq)
      next
        assume "in_use w \<and> var_value w = x"
        then show "\<exists>v \<in> set (vs[i := w]). in_use v \<and> var_key v = k \<and> var_value v = x"
          using w set_update_memI [OF i, of w] by blast
      qed
      then show ?thesis
        unfolding vars_lookup_Some_iff [OF inv'] True by auto
    next
      case False
      have "(\<exists>v \<in> set (vs[i := w]). in_use v \<and> var_key v = k' \<and> var_value v = x) \<longleftrightarrow>
          (\<exists>v \<in> set vs. in_use v \<and> var_key v = k' \<and> var_value v = x)"
        (is "?l \<longleftrightarrow> ?r")
      proof
        assume ?l
        then show ?r
          using False w set_update_subset_insert [of vs i w] by blast
      next
        assume ?r
        then obtain j where j: "j < length vs" "in_use (vs ! j)" "var_key (vs ! j) = k'" "var_value (vs ! j) = x"
          by (auto simp: in_set_conv_nth)
        then have "j \<noteq> i"
          using False slot by auto
        then have "vs[i := w] ! j = vs ! j" "j < length (vs[i := w])"
          using j by simp_all
        then show ?l
          using j nth_mem by metis
      qed
      then show ?thesis
        unfolding vars_lookup_Some_iff [OF inv'] using False by (simp add: vars_lookup_Some_iff [OF inv])
    qed
    then show "vars_lookup (vs[i := w]) k' =
        ((vars_lookup vs)(k := if in_use w then Some (var_value w) else None)) k'"
      by (metis not_None_eq)
  qed
qed

lemma store_variable_effect:
  fixes g :: guid and attributes :: u32
  assumes s: "is_ucs2 name s" and len: "0 < length s" "length s < MAX_VARIABLE_NAME_LEN"
    and bytes: "0 < length bytes" "length bytes \<le> MAX_VARIABLE_DATA_SIZE" and v: "var_ok v"
  defines "w \<equiv> store_variable v name (length s) g attributes bytes"
  shows "var_ok w" and "in_use w" and "var_key w = (s, g)" and "var_value w = (attributes, bytes)"
proof -
  let ?nm = "map name [0..<length s + 1] @ replicate (MAX_VARIABLE_NAME_LEN - (length s + 1)) 0"
  have nm: "var_name w = ?nm"
    using v by (simp add: w_def store_variable_def var_ok_def)
  have "is_ucs2 (ucs2_of ?nm) s"
    using s len by (auto simp: is_ucs2_def ucs2_of_def nth_append)
  then have str: "stored_string ?nm = s"
    using stored_is_ucs2 is_ucs2_unique by metis
  have "ucs2_strlen ?nm = length s"
  proof -
    have "ucs2_strlen ?nm \<le> length ?nm"
      by (auto simp: ucs2_strlen_def dest: position_SomeD split: option.split)
    then show ?thesis
      using arg_cong [OF str, of length] by (simp add: stored_string_def)
  qed
  then show "var_ok w"
    using v len bytes nm by (simp add: var_ok_def) (simp add: w_def store_variable_def)
  show "in_use w" "var_value w = (attributes, bytes)"
    by (simp_all add: w_def store_variable_def var_value_def)
  show "var_key w = (s, g)"
    using str nm by (simp add: var_key_def) (simp add: w_def store_variable_def)
qed

lemma position_key:
  assumes inv: "vars_inv vs" and "position (\<lambda>v. in_use v \<and> var_key v = k) vs = Some i"
  shows "i < length vs" and "in_use (vs ! i)" and "var_key (vs ! i) = k"
    and "\<forall>j < length vs. in_use (vs ! j) \<and> var_key (vs ! j) = k \<longrightarrow> j = i"
proof -
  show i: "i < length vs" "in_use (vs ! i)" "var_key (vs ! i) = k"
    using position_SomeD [OF assms(2)] by auto
  then show "\<forall>j < length vs. in_use (vs ! j) \<and> var_key (vs ! j) = k \<longrightarrow> j = i"
    using inv by (auto simp: vars_inv_def)
qed

text \<open>What \<open>set_variable\<close> does for a well-formed name, in terms of the abstract map.\<close>

definition set_spec ::
  "variable_entry list \<Rightarrow> u16 list \<times> guid \<Rightarrow> u32 \<Rightarrow> u8 list \<Rightarrow> variable_entry list \<Rightarrow> efi_status \<Rightarrow> bool" where
  "set_spec vs k attributes bytes vs' status \<longleftrightarrow>
     (if bytes = [] then
        (if vars_lookup vs k = None then vs' = vs \<and> status = NOT_FOUND
         else vars_lookup vs' = (vars_lookup vs)(k := None) \<and> status = SUCCESS)
      else if vars_lookup vs k = None \<and> (\<forall>v \<in> set vs. in_use v) then vs' = vs \<and> status = OUT_OF_RESOURCES
      else vars_lookup vs' = (vars_lookup vs)(k \<mapsto> (attributes, bytes)) \<and> status = SUCCESS)"

lemma set_variable_effect:
  assumes inv: "vars_inv vs" and s: "is_ucs2 name s" and len: "0 < length s" "length s < MAX_VARIABLE_NAME_LEN"
    and bytes: "length bytes \<le> MAX_VARIABLE_DATA_SIZE"
  shows "\<exists>vs' status. set_variable vs (Some name) (Some g) attributes (length bytes) (Some bytes) = Some (vs', status) \<and>
    vars_inv vs' \<and> set_spec vs (s, g) attributes bytes vs' status"
proof -
  let ?ex = "position (\<lambda>v. in_use v \<and> var_key v = (s, g)) vs"
  let ?free = "position (\<lambda>v. \<not> in_use v) vs"
  have run: "set_variable vs (Some name) (Some g) attributes (length bytes) (Some bytes) =
      (if bytes = [] then
         (case ?ex of Some idx \<Rightarrow> Some (vs[idx := (vs ! idx)\<lparr>in_use := False\<rparr>], SUCCESS)
          | None \<Rightarrow> Some (vs, NOT_FOUND))
       else (case (case ?ex of Some i \<Rightarrow> Some i | None \<Rightarrow> ?free) of
          None \<Rightarrow> Some (vs, OUT_OF_RESOURCES)
        | Some idx \<Rightarrow> Some (vs[idx := store_variable (vs ! idx) name (length s) g attributes bytes], SUCCESS)))"
    using len bytes by (simp add: set_variable_def ucs2_strlen_ptr_eq [OF s] var_match [OF s] Let_def cong: option.case_cong)
  have ex_None: "?ex = None \<longleftrightarrow> vars_lookup vs (s, g) = None"
    by (auto simp: position_None_iff vars_lookup_None_iff)
  have upd: "vars_inv (vs[i := store_variable (vs ! i) name (length s) g attributes bytes]) \<and>
      vars_lookup (vs[i := store_variable (vs ! i) name (length s) g attributes bytes]) =
        (vars_lookup vs)((s, g) \<mapsto> (attributes, bytes))"
    if "i < length vs" "in_use (vs ! i) \<longrightarrow> var_key (vs ! i) = (s, g)" "bytes \<noteq> []"
      "\<forall>j < length vs. in_use (vs ! j) \<and> var_key (vs ! j) = (s, g) \<longrightarrow> j = i" for i
  proof -
    have "var_ok (vs ! i)" "0 < length bytes"
      using inv that(1,3) by (auto simp: vars_inv_def)
    note st = store_variable_effect [OF s len this(2) bytes this(1), of g attributes]
    show ?thesis
      using update_variable [OF inv that(1) st(1) that(2) that(4)] st by simp
  qed
  show ?thesis
  proof (cases ?ex)
    case (Some i)
    note pk = position_key [OF inv Some]
    show ?thesis
    proof (cases "bytes = []")
      case True
      let ?w = "(vs ! i)\<lparr>in_use := False\<rparr>"
      have "var_ok (vs ! i)"
        using inv pk(1) by (simp add: vars_inv_def)
      then have "var_ok ?w"
        by (simp add: var_ok_def)
      then have "vars_inv (vs[i := ?w]) \<and> vars_lookup (vs[i := ?w]) = (vars_lookup vs)((s, g) := None)"
        using update_variable [OF inv pk(1) _ impI [OF pk(3)] pk(4), of ?w] by simp
      moreover have "set_variable vs (Some name) (Some g) attributes (length bytes) (Some bytes) =
          Some (vs[i := ?w], SUCCESS)"
        using run True Some by simp
      ultimately show ?thesis
        using True Some ex_None by (simp add: set_spec_def)
    next
      case False
      then show ?thesis
        using upd [OF pk(1) impI [OF pk(3)] False pk(4)] Some run ex_None by (simp add: set_spec_def)
    qed
  next
    case None
    then have none: "\<forall>j < length vs. \<not> (in_use (vs ! j) \<and> var_key (vs ! j) = (s, g))"
      by (auto simp: position_None_iff)
    show ?thesis
    proof (cases "bytes = [] \<or> ?free = None")
      case True
      then have "bytes = [] \<or> (\<forall>v \<in> set vs. in_use v)"
        by (auto simp: position_None_iff)
      then show ?thesis
        using True None run inv ex_None by (auto simp: set_spec_def)
    next
      case False
      then obtain i where fi: "?free = Some i"
        by auto
      then have i: "i < length vs" "\<not> in_use (vs ! i)"
        by (auto dest: position_SomeD)
      then have "\<not> (\<forall>v \<in> set vs. in_use v)"
        using nth_mem by blast
      moreover have "in_use (vs ! i) \<longrightarrow> var_key (vs ! i) = (s, g)" "bytes \<noteq> []"
        "\<forall>j < length vs. in_use (vs ! j) \<and> var_key (vs ! j) = (s, g) \<longrightarrow> j = i"
        using i(2) False none by blast+
      note u = upd [OF i(1) this]
      moreover have "set_variable vs (Some name) (Some g) attributes (length bytes) (Some bytes) =
          Some (vs[i := store_variable (vs ! i) name (length s) g attributes bytes], SUCCESS)"
        using run False None fi by simp
      ultimately show ?thesis
        using False by (simp add: set_spec_def)
    qed
  qed
qed

lemma set_variable_refused:
  assumes "is_ucs2 name s"
  shows "length s = 0 \<or> MAX_VARIABLE_NAME_LEN \<le> length s \<Longrightarrow>
      set_variable vs (Some name) (Some g) attributes n data = Some (vs, INVALID_PARAMETER)"
    and "0 < length s \<Longrightarrow> length s < MAX_VARIABLE_NAME_LEN \<Longrightarrow> MAX_VARIABLE_DATA_SIZE < n \<Longrightarrow>
      set_variable vs (Some name) (Some g) attributes n data = Some (vs, OUT_OF_RESOURCES)"
  using ucs2_strlen_ptr_eq [OF assms] by (auto simp: set_variable_def)

section \<open>The interface\<close>

definition vars_put ::
  "variable_entry list \<Rightarrow> u16 list \<times> guid \<Rightarrow> u32 \<times> u8 list \<Rightarrow> variable_entry list option" where
  "vars_put vs k v =
     (if 0 \<in> set (fst k) \<or> snd v = [] then None
      else case set_variable vs (Some (ucs2_of (fst k))) (Some (snd k)) (fst v) (length (snd v)) (Some (snd v)) of
             Some (vs', SUCCESS) \<Rightarrow> Some vs'
           | _ \<Rightarrow> None)"

definition vars_delete :: "variable_entry list \<Rightarrow> u16 list \<times> guid \<Rightarrow> variable_entry list" where
  "vars_delete vs k =
     (if 0 \<in> set (fst k) then vs
      else case set_variable vs (Some (ucs2_of (fst k))) (Some (snd k)) 0 0 (Some []) of
             Some (vs', _) \<Rightarrow> vs'
           | None \<Rightarrow> vs)"

lemma stored_string_no_zero: "0 \<notin> set (stored_string stored)"
  using stored_is_ucs2 [of stored] by (simp add: is_ucs2_def)

lemma ucs2_strlen_le: "ucs2_strlen s \<le> length s"
  by (auto simp: ucs2_strlen_def dest: position_SomeD split: option.split)

lemma length_stored_string [simp]: "length (stored_string s) = ucs2_strlen s"
  by (simp add: stored_string_def ucs2_strlen_le)

lemma vars_lookup_valid:
  assumes "vars_inv vs" and "vars_lookup vs (s, g) = Some x"
  shows "0 \<notin> set s" and "0 < length s" and "length s < MAX_VARIABLE_NAME_LEN"
    and "snd x \<noteq> []" and "length (snd x) \<le> MAX_VARIABLE_DATA_SIZE"
proof -
  obtain v where v: "v \<in> set vs" "in_use v" "var_key v = (s, g)" "var_value v = x"
    using assms vars_lookup_Some_iff by blast
  then have "var_ok v"
    using assms(1) by (simp add: vars_inv_def)
  then have *: "0 < var_data_size v" "0 < ucs2_strlen (var_name v)" "ucs2_strlen (var_name v) < MAX_VARIABLE_NAME_LEN"
      "var_data_size v \<le> MAX_VARIABLE_DATA_SIZE" "length (var_data v) = MAX_VARIABLE_DATA_SIZE"
    using v(2) by (auto simp: var_ok_def)
  have s: "s = stored_string (var_name v)"
    using v(3) by (simp add: var_key_def)
  show "0 \<notin> set s" "0 < length s" "length s < MAX_VARIABLE_NAME_LEN"
    using * by (simp_all add: s stored_string_no_zero)
  have "snd x = take (var_data_size v) (var_data v)"
    using v(4) by (auto simp: var_value_def)
  then show "snd x \<noteq> []" "length (snd x) \<le> MAX_VARIABLE_DATA_SIZE"
    using * by (auto simp: MAX_VARIABLE_DATA_SIZE_def)
qed

interpretation variables: keyed_store vars_inv vars_lookup vars_put vars_delete
proof unfold_locales
  fix vs k v vs'
  assume inv: "vars_inv vs" and put: "vars_put vs k v = Some vs'"
  obtain s g a b where k: "k = (s, g)" and v: "v = (a, b)"
    by (cases k, cases v)
  have b: "b \<noteq> []" and s: "is_ucs2 (ucs2_of s) s"
    and run: "set_variable vs (Some (ucs2_of s)) (Some g) a (length b) (Some b) = Some (vs', SUCCESS)"
    using put by (auto simp: vars_put_def k v is_ucs2_of split: if_splits option.splits prod.splits efi_status.splits)
  have len: "0 < length s" "length s < MAX_VARIABLE_NAME_LEN"
    using set_variable_refused(1) [OF s, of vs g a "length b" "Some b"] run
    by (simp_all add: not_le [symmetric]) auto
  moreover have "length b \<le> MAX_VARIABLE_DATA_SIZE"
    using set_variable_refused(2) [OF s len, of "length b" vs g a "Some b"] run
    by (cases "length b \<le> MAX_VARIABLE_DATA_SIZE") auto
  ultimately have "vars_inv vs' \<and> set_spec vs (s, g) a b vs' SUCCESS"
    using set_variable_effect [OF inv s, of b g a] run by auto
  then show "vars_inv vs'" "vars_lookup vs' = (vars_lookup vs)(k \<mapsto> v)"
    using b by (auto simp: set_spec_def k v split: if_splits)
next
  fix vs and k :: "u16 list \<times> guid"
  assume inv: "vars_inv vs"
  obtain s g where k: "k = (s, g)"
    by (cases k)
  show "vars_inv (vars_delete vs k)" "vars_lookup (vars_delete vs k) = (vars_lookup vs)(k := None)"
  proof (atomize (full), cases "0 \<in> set s \<or> length s = 0 \<or> MAX_VARIABLE_NAME_LEN \<le> length s")
    case True
    then have "vars_delete vs k = vs"
      using set_variable_refused(1) [OF is_ucs2_of [of s]] by (auto simp: vars_delete_def k)
    moreover have "vars_lookup vs k = None"
    proof (cases "vars_lookup vs k")
      case (Some x)
      then show ?thesis
        using True vars_lookup_valid(1-3) [OF inv, of s g x] by (auto simp: k)
    qed
    ultimately show "vars_inv (vars_delete vs k) \<and> vars_lookup (vars_delete vs k) = (vars_lookup vs)(k := None)"
      using inv by (simp add: fun_upd_idem)
  next
    case False
    then have s: "is_ucs2 (ucs2_of s) s" and len: "0 < length s" "length s < MAX_VARIABLE_NAME_LEN"
      by (auto simp: is_ucs2_of)
    then obtain vs' status where "set_variable vs (Some (ucs2_of s)) (Some g) 0 0 (Some []) = Some (vs', status)"
        "vars_inv vs'" "set_spec vs (s, g) 0 [] vs' status"
      using set_variable_effect [OF inv s len, of "[]" g 0] by auto
    then show "vars_inv (vars_delete vs k) \<and> vars_lookup (vars_delete vs k) = (vars_lookup vs)(k := None)"
      using False by (auto simp: vars_delete_def k set_spec_def fun_upd_idem split: if_splits)
  qed
qed

section \<open>Reading\<close>

lemma find_variable_eq:
  assumes "is_ucs2 name s"
  shows "map_option var_value (find_variable vs name g) = vars_lookup vs (s, g)"
  by (simp add: find_variable_def vars_lookup_def var_match [OF assms])

lemma find_variable_size:
  assumes "vars_inv vs" and "find_variable vs name g = Some v"
  shows "var_data_size v = length (snd (var_value v))"
proof -
  have "v \<in> set vs"
    using assms(2) by (auto simp: find_variable_def dest: find_SomeD)
  then show ?thesis
    using assms(1) by (auto simp: vars_inv_def var_ok_def var_value_def)
qed

text \<open>The loop of a caller that asks for every variable in turn, \<open>n\<close> times at most.\<close>

fun enumerate_variables :: "variable_entry list \<Rightarrow> nat \<Rightarrow> u16 list \<times> guid \<Rightarrow> (u16 list \<times> guid) list" where
  "enumerate_variables vs 0 k = []"
| "enumerate_variables vs (Suc n) k =
     (case get_next_variable_name vs (Some (2 * MAX_VARIABLE_NAME_LEN)) (Some (ucs2_of (fst k))) (Some (snd k)) of
        (SUCCESS, _, Some (name, g)) \<Rightarrow> (let k' = (stored_string name, g) in k' # enumerate_variables vs n k')
      | _ \<Rightarrow> [])"

lemma used_distinct:
  assumes "vars_inv vs"
  shows "distinct (map var_key (filter in_use vs))"
proof -
  have "inj_on (\<lambda>i. var_key (vs ! i)) {i. i < length vs \<and> in_use (vs ! i)}"
    using assms by (auto simp: vars_inv_def inj_on_def)
  moreover have "map var_key (filter in_use vs) = map (\<lambda>i. var_key (vs ! i)) (filter (\<lambda>i. in_use (vs ! i)) [0..<length vs])"
    by (subst (1) map_nth [of vs, symmetric]) (simp add: filter_map comp_def)
  ultimately show ?thesis
    by (simp add: distinct_map inj_on_def)
qed

lemma dropWhile_key:
  assumes "distinct (map f xs)" and "i < length xs"
  shows "dropWhile (\<lambda>v. f v \<noteq> f (xs ! i)) xs = drop i xs"
  using assms
proof (induction xs arbitrary: i)
  case (Cons x xs)
  then show ?case
    by (cases i) (force simp: in_set_conv_nth)+
qed simp

lemma next_variable_first: "next_variable vs (ucs2_of []) g = (case filter in_use vs of [] \<Rightarrow> None | v # _ \<Rightarrow> Some v)"
  by (simp add: next_variable_def ucs2_of_def Let_def)

lemma next_variable_step:
  assumes inv: "vars_inv vs" and i: "i < length (filter in_use vs)" and k: "var_key (filter in_use vs ! i) = (s, g)"
  shows "next_variable vs (ucs2_of s) g =
    (if Suc i < length (filter in_use vs) then Some (filter in_use vs ! Suc i) else None)"
proof -
  let ?u = "filter in_use vs"
  have mem: "?u ! i \<in> set vs" "in_use (?u ! i)"
    using nth_mem [OF i] by auto
  then have "vars_lookup vs (s, g) = Some (var_value (?u ! i))"
    using vars_lookup_Some_iff [OF inv] k by blast
  note valid = vars_lookup_valid(1,2) [OF inv this]
  then have s: "is_ucs2 (ucs2_of s) s"
    by (simp add: is_ucs2_of)
  then have "ucs2_of s 0 \<noteq> 0"
    using valid(2) is_ucs2_nonzero by blast
  have "(\<lambda>v. \<not> (var_guid v = g \<and> name_eq (var_name v) (ucs2_of s))) = (\<lambda>v. var_key v \<noteq> var_key (?u ! i))"
    by (rule ext) (unfold k, auto simp: var_key_def name_eq_iff [OF s])
  then have "dropWhile (\<lambda>v. \<not> (var_guid v = g \<and> name_eq (var_name v) (ucs2_of s))) ?u = ?u ! i # drop (Suc i) ?u"
    using dropWhile_key [OF used_distinct [OF inv] i] Cons_nth_drop_Suc [OF i] by simp
  then show ?thesis
    using \<open>ucs2_of s 0 \<noteq> 0\<close>
    by (auto simp: next_variable_def Let_def Cons_nth_drop_Suc [symmetric] split: list.split)
qed

lemma stored_string_prefix:
  assumes "ucs2_strlen s < length s"
  shows "stored_string (take (ucs2_strlen s + 1) s) = stored_string s"
proof -
  have "is_ucs2 (ucs2_of (take (ucs2_strlen s + 1) s)) (stored_string s)"
    using stored_is_ucs2 [of s] assms by (auto simp: is_ucs2_def ucs2_of_def stored_string_def)
  then show ?thesis
    using stored_is_ucs2 is_ucs2_unique by metis
qed

lemma get_next_variable_name_eq:
  assumes inv: "vars_inv vs" and v: "next_variable vs name g = Some v" "v \<in> set vs" "in_use v"
  shows "\<exists>n. get_next_variable_name vs (Some (2 * MAX_VARIABLE_NAME_LEN)) (Some name) (Some g) =
    (SUCCESS, Some (2 * Suc (length (fst (var_key v)))), Some (n, var_guid v)) \<and> stored_string n = fst (var_key v)"
proof -
  have "var_ok v"
    using inv v by (simp add: vars_inv_def)
  then have "ucs2_strlen (var_name v) < length (var_name v)" "length (var_name v) = MAX_VARIABLE_NAME_LEN"
    using v by (auto simp: var_ok_def)
  then show ?thesis
    using v(1) stored_string_prefix [of "var_name v"]
    by (auto simp: get_next_variable_name_def Let_def var_key_def)
qed

lemma enumerate_from:
  assumes inv: "vars_inv vs"
  shows "i < length (filter in_use vs) \<Longrightarrow>
    enumerate_variables vs n (var_key (filter in_use vs ! i)) = map var_key (take n (drop (Suc i) (filter in_use vs)))"
proof (induction n arbitrary: i)
  case (Suc n)
  let ?u = "filter in_use vs"
  obtain s g where k: "var_key (?u ! i) = (s, g)"
    by (cases "var_key (?u ! i)")
  note nx = next_variable_step [OF inv Suc.prems k]
  show ?case
  proof (cases "Suc i < length ?u")
    case True
    have mem: "?u ! Suc i \<in> set vs" "in_use (?u ! Suc i)"
      using nth_mem [OF True] by auto
    obtain nm where "get_next_variable_name vs (Some (2 * MAX_VARIABLE_NAME_LEN)) (Some (ucs2_of s)) (Some g) =
        (SUCCESS, Some (2 * Suc (length (fst (var_key (?u ! Suc i))))), Some (nm, var_guid (?u ! Suc i)))"
        "stored_string nm = fst (var_key (?u ! Suc i))"
      using get_next_variable_name_eq [OF inv _ mem, of "ucs2_of s" g] nx True by auto
    moreover have "(fst (var_key (?u ! Suc i)), var_guid (?u ! Suc i)) = var_key (?u ! Suc i)"
      by (simp add: var_key_def)
    moreover have "drop (Suc i) ?u = ?u ! Suc i # drop (Suc (Suc i)) ?u"
      using True by (rule Cons_nth_drop_Suc [symmetric])
    ultimately show ?thesis
      using Suc.IH [OF True] by (simp add: k Let_def)
  next
    case False
    then show ?thesis
      using nx by (simp add: k get_next_variable_name_def)
  qed
qed simp

lemma enumerate_all:
  assumes inv: "vars_inv vs"
  shows "enumerate_variables vs n ([], g) = map var_key (take n (filter in_use vs))"
proof (cases n)
  case (Suc m)
  show ?thesis
  proof (cases "filter in_use vs")
    case Nil
    then show ?thesis
      by (simp add: Suc get_next_variable_name_def next_variable_first)
  next
    case (Cons v us)
    then have mem: "v \<in> set vs" "in_use v"
      using filter_set [of in_use vs] by (auto simp: Cons_eq_filter_iff)
    have nx: "next_variable vs (ucs2_of []) g = Some v"
      by (simp add: next_variable_first Cons)
    obtain nm where "get_next_variable_name vs (Some (2 * MAX_VARIABLE_NAME_LEN)) (Some (ucs2_of [])) (Some g) =
        (SUCCESS, Some (2 * Suc (length (fst (var_key v)))), Some (nm, var_guid v))"
        "stored_string nm = fst (var_key v)"
      using get_next_variable_name_eq [OF inv nx mem] by blast
    moreover have "(fst (var_key v), var_guid v) = var_key v"
      by (simp add: var_key_def)
    moreover have "enumerate_variables vs m (var_key v) = map var_key (take m us)"
      using enumerate_from [OF inv, of 0 m] Cons by simp
    ultimately show ?thesis
      by (simp add: Suc Cons Let_def)
  qed
qed simp

lemma used_size_bound:
  assumes "vars_inv vs"
  shows "sum_list (map var_data_size (filter in_use vs)) \<le> MAX_VARIABLES * MAX_VARIABLE_DATA_SIZE"
proof -
  have "sum_list (map var_data_size (filter in_use vs)) \<le> sum_list (map (\<lambda>_. MAX_VARIABLE_DATA_SIZE) (filter in_use vs))"
    using assms by (intro sum_list_mono) (auto simp: vars_inv_def var_ok_def)
  also have "\<dots> \<le> MAX_VARIABLES * MAX_VARIABLE_DATA_SIZE"
    using assms length_filter_le [of in_use vs] by (simp add: sum_list_triv vars_inv_def)
  finally show ?thesis .
qed

end
