(* ===== verification/Services_Props.thy ===== *)
theory Services_Props
  imports Handles Events Config_Tables Variables
begin

text \<open>
  The properties of the databases behind the boot and runtime services: protocols, events,
  configuration tables and variables.
\<close>

section \<open>Helper lemmas\<close>

lemma install_protocol_interface_eq:
  assumes "h \<noteq> 0"
  shows "install_protocol_interface db (Some h) (Some g) True i =
    (case install_protocol db h g i of (db', st) \<Rightarrow> (db', st, Some h))"
  using assms by (simp add: install_protocol_interface_def)

lemma new_entry_lookup:
  "entry_lookup \<lparr>entry_handle = h, entry_protocols = [\<lparr>proto_guid = g, proto_interface = i\<rparr>]\<rparr> g' =
     (if g' = g then Some i else None)"
  by (simp add: entry_lookup_def)

lemma zero_not_known: "hdb_inv db \<Longrightarrow> 0 \<notin> known_handles db"
  by (simp add: known_handles_iff)

lemma unknown_lookup: "hdb_inv db \<Longrightarrow> h \<notin> known_handles db \<Longrightarrow> hdb_lookup db (h, g) = None"
  by (simp add: hdb_lookup_eq)

lemma install_new_handle:
  assumes inv: "hdb_inv db" and room: "length (handles db) < MAX_HANDLES"
  shows "\<exists>db' h. install_protocol_interface db (Some 0) (Some g) True i = (db', SUCCESS, Some h) \<and> hdb_inv db' \<and>
    h \<noteq> 0 \<and> h \<notin> known_handles db \<and> known_handles db' = insert h (known_handles db) \<and>
    hdb_lookup db' = (hdb_lookup db)((h, g) \<mapsto> i)"
proof -
  let ?e = "\<lparr>entry_handle = next_handle db, entry_protocols = [\<lparr>proto_guid = g, proto_interface = i\<rparr>]\<rparr>"
  let ?db = "db\<lparr>handles := handles db @ [?e], next_handle := next_handle db + 1\<rparr>"
  have "entry_ok ?e" "entry_handle ?e = next_handle db"
    by (simp_all add: entry_ok_def MAX_PROTOCOLS_PER_HANDLE_def)
  note ap = append_entry_inv [OF inv room this]
  have run: "install_protocol_interface db (Some 0) (Some g) True i = (?db, SUCCESS, Some (next_handle db))"
    using room by (simp add: install_protocol_interface_def Let_def)
  have "next_handle db \<noteq> 0"
    using ap(1,3) zero_not_known [of ?db] by auto
  moreover have "hdb_lookup ?db = (hdb_lookup db)((next_handle db, g) \<mapsto> i)"
    using ap(2,4) unknown_lookup [OF inv ap(2)] by (auto simp: new_entry_lookup)
  ultimately show ?thesis
    using run ap by blast
qed

lemma install_pairs_effect:
  assumes "hdb_inv db" and "install_pairs db h ps = (db', st)"
  shows "hdb_inv db' \<and> known_handles db' = known_handles db \<and>
    (\<exists>n \<le> length ps. hdb_lookup db' = foldl (\<lambda>m (g, i). m((h, g) \<mapsto> i)) (hdb_lookup db) (take n ps) \<and>
       (st = SUCCESS \<longleftrightarrow> n = length ps) \<and>
       (\<forall>g \<in> fst ` set (take n ps). hdb_lookup db (h, g) = None))"
  using assms
proof (induction ps arbitrary: db)
  case Nil
  then show ?case by simp
next
  case (Cons p ps)
  obtain g i where p: "p = (g, i)"
    by fastforce
  from Cons.prems(1) show ?case
  proof (cases rule: install_protocol_cases [of db h g i])
    case (err st')
    then show ?thesis
      using Cons.prems by (auto simp: p intro: exI [of _ 0])
  next
    case (ok db1)
    then have "install_pairs db1 h ps = (db', st)"
      using Cons.prems(2) by (simp add: p)
    from Cons.IH [OF ok(2) this] obtain n where n: "n \<le> length ps"
      "hdb_lookup db' = foldl (\<lambda>m (g, i). m((h, g) \<mapsto> i)) (hdb_lookup db1) (take n ps)"
      "st = SUCCESS \<longleftrightarrow> n = length ps" "\<forall>g \<in> fst ` set (take n ps). hdb_lookup db1 (h, g) = None"
      and inv: "hdb_inv db'" "known_handles db' = known_handles db1"
      by blast
    have "\<forall>g' \<in> fst ` set (take (Suc n) (p # ps)). hdb_lookup db (h, g') = None"
      using n(4) ok(5,6) by (auto simp: p split: if_splits)
    moreover have "hdb_lookup db' = foldl (\<lambda>m (g, i). m((h, g) \<mapsto> i)) (hdb_lookup db) (take (Suc n) (p # ps))"
      using n(2) ok(6) by (simp add: p)
    moreover have "Suc n \<le> length (p # ps)" "st = SUCCESS \<longleftrightarrow> Suc n = length (p # ps)"
        "known_handles db' = known_handles db"
      using n(1,3) inv(2) ok(3) by simp_all
    ultimately show ?thesis
      using inv(1) by blast
  qed
qed

lemma uninstall_pairs_effect:
  assumes "hdb_inv db"
  shows "hdb_inv (foldl (\<lambda>db (g, _). uninstall_protocol db h g) db ps) \<and>
    hdb_lookup (foldl (\<lambda>db (g, _). uninstall_protocol db h g) db ps) =
      (\<lambda>k. if fst k = h \<and> snd k \<in> fst ` set ps then None else hdb_lookup db k)"
  using assms
proof (induction ps arbitrary: db)
  case Nil
  then show ?case by simp
next
  case (Cons p ps)
  obtain g i where p: "p = (g, i)"
    by fastforce
  show ?case
    using Cons.IH [OF uninstall_protocol_effect(1) [OF Cons.prems]] uninstall_protocol_effect(3) [OF Cons.prems, of h g]
    by (auto simp: p fun_eq_iff)
qed

lemma foldl_upd_other:
  "fst k \<noteq> h \<or> snd k \<notin> fst ` set ps \<Longrightarrow> foldl (\<lambda>m (g, i). m((h, g) \<mapsto> i)) m ps k = m k"
  by (induction ps arbitrary: m) auto

section \<open>Protocols\<close>

text \<open>C10: the protocol database refines a map from (handle, GUID) to interfaces. A successful
  \<open>install_protocol_interface\<close> adds exactly the named binding, on the given handle or, for a null handle, on a
  handle that was not in use; a refused one changes nothing, and names the reason.\<close>

theorem install_protocol_interface_refines:
  assumes inv: "hdb_inv db"
    and run: "install_protocol_interface db (Some h) (Some g) native i = (db', st, h')"
  shows "hdb_inv db' \<and>
    (st = SUCCESS \<longrightarrow> (\<exists>k. h' = Some k \<and> k \<noteq> 0 \<and> hdb_lookup db (k, g) = None \<and>
       hdb_lookup db' = (hdb_lookup db)((k, g) \<mapsto> i) \<and>
       known_handles db' = insert k (known_handles db) \<and>
       (if h = 0 then k \<notin> known_handles db else k = h \<and> h \<in> known_handles db))) \<and>
    (st \<noteq> SUCCESS \<longrightarrow> db' = db \<and> h' = Some h \<and>
       (st = INVALID_PARAMETER \<longleftrightarrow> \<not> native \<or> h \<noteq> 0 \<and> (h \<notin> known_handles db \<or> hdb_lookup db (h, g) \<noteq> None)))"
proof (cases "native")
  case False
  then show ?thesis
    using run inv by (simp add: install_protocol_interface_def)
next
  case native: True
  show ?thesis
  proof (cases "h = 0")
    case True
    show ?thesis
    proof (cases "length (handles db) < MAX_HANDLES")
      case room: True
      show ?thesis
        using install_new_handle [OF inv room, of g i] run True native
        by (auto simp: unknown_lookup [OF inv])
    next
      case False
      then show ?thesis
        using run inv True native by (simp add: install_protocol_interface_def)
    qed
  next
    case False
    from inv show ?thesis
    proof (cases rule: install_protocol_cases [of db h g i])
      case (err st')
      then show ?thesis
        using run False native inv by (auto simp: install_protocol_interface_eq split: if_splits)
    next
      case (ok db1)
      then show ?thesis
        using run False native by (auto simp: install_protocol_interface_eq)
    qed
  qed
qed

definition sample_guid :: guid where
  "sample_guid = Guid 0x5B1B31A1 0x9562 0x11D2 0x8E 0x3F [0, 0xA0, 0xC9, 0x69, 0x72, 0x3B]"

definition sample_hdb :: handle_db where
  "sample_hdb = fst (install_protocol_interface new_handle_db (Some 0) (Some sample_guid) True 0x5000)"

lemma sample_hdb_inv: "hdb_inv sample_hdb"
proof -
  have "length (handles new_handle_db) < MAX_HANDLES"
    by (simp add: new_handle_db_def MAX_HANDLES_def)
  then show ?thesis
    using install_new_handle [OF new_handle_db_inv, of sample_guid "0x5000"] by (auto simp: sample_hdb_def)
qed

theorem install_protocol_interface_refines_witness:
  "\<exists>k. k \<noteq> 0 \<and> hdb_lookup sample_hdb (k, sample_guid) = Some 0x5000"
proof -
  have run: "install_protocol_interface new_handle_db (Some 0) (Some sample_guid) True 0x5000 =
      (sample_hdb, SUCCESS, Some 1)"
    by (simp add: sample_hdb_def install_protocol_interface_def new_handle_db_def MAX_HANDLES_def)
  show ?thesis
    using install_protocol_interface_refines [OF new_handle_db_inv run] by auto
qed

text \<open>C11: what a client sees. After an interface was installed, \<open>open_protocol\<close> and \<open>handle_protocol\<close> return
  it, and keep returning it through any sequence of installations and removals of other protocols.\<close>

theorem installed_protocol_survives:
  assumes inv: "hdb_inv db" and run: "install_protocol db h g i = (db', SUCCESS)"
    and others: "\<forall>r \<in> set rs. request_key r \<noteq> (h, g)"
  shows "open_protocol (foldl (serve hdb_put hdb_delete) db' rs) h (Some g) = Ok i \<and>
    handle_protocol (foldl (serve hdb_put hdb_delete) db' rs) h (Some g) = Ok i"
proof -
  let ?db = "foldl (serve hdb_put hdb_delete) db' rs"
  have put: "hdb_put db (h, g) i = Some db'"
    using run by (simp add: hdb_put_def)
  have "hdb_lookup ?db (h, g) = Some i"
    by (rule protocols.put_survives [OF inv put others])
  moreover have inv': "hdb_inv ?db"
    by (rule protocols.trace_inv [OF protocols.put_inv [OF inv put]])
  ultimately show ?thesis
    using unknown_lookup [OF inv', of h g] by (auto simp: handle_protocol_def open_protocol_eq [OF inv'])
qed

theorem installed_protocol_survives_witness:
  "open_protocol (foldl (serve hdb_put hdb_delete)
     (fst (install_protocol sample_hdb 1 (Guid 1 2 3 4 5 []) 0x6000)) [Delete (1, sample_guid)]) 1
     (Some (Guid 1 2 3 4 5 [])) = Ok 0x6000"
proof -
  have run: "install_protocol sample_hdb 1 (Guid 1 2 3 4 5 []) 0x6000 =
      (fst (install_protocol sample_hdb 1 (Guid 1 2 3 4 5 []) 0x6000), SUCCESS)"
    by (simp add: sample_hdb_def install_protocol_interface_def new_handle_db_def MAX_HANDLES_def
        install_protocol_def add_protocol_def sample_guid_def MAX_PROTOCOLS_PER_HANDLE_def)
  show ?thesis
    using installed_protocol_survives [OF sample_hdb_inv run, of "[Delete (1, sample_guid)]"]
    by (simp add: sample_guid_def)
qed

text \<open>Installing several protocols on a known handle and removing the same list again restores the
  database's contents. When the installation stops at an error the protocols before it stay installed.\<close>

theorem install_multiple_roundtrip:
  assumes inv: "hdb_inv db" and h: "h \<in> known_handles db"
    and run: "install_multiple_protocol_interfaces db (Some h) args = (db', st, h')"
  shows "hdb_inv db' \<and> h' = Some h \<and>
    (\<exists>n. hdb_lookup db' = foldl (\<lambda>m (g, i). m((h, g) \<mapsto> i)) (hdb_lookup db) (take n (valid_pairs args)) \<and>
       (st = SUCCESS \<longleftrightarrow> n = length (valid_pairs args))) \<and>
    (st = SUCCESS \<longrightarrow>
       hdb_lookup (fst (uninstall_multiple_protocol_interfaces db' h args)) = hdb_lookup db)"
proof -
  let ?ps = "valid_pairs args"
  have h0: "h \<noteq> 0"
    using h zero_not_known [OF inv] by auto
  have ip: "install_pairs db h ?ps = (db', st)" "h' = Some h"
    using run h0 by (auto simp: install_multiple_protocol_interfaces_def Let_def split: if_splits prod.splits)
  obtain n where n: "n \<le> length ?ps"
    "hdb_lookup db' = foldl (\<lambda>m (g, i). m((h, g) \<mapsto> i)) (hdb_lookup db) (take n ?ps)"
    "st = SUCCESS \<longleftrightarrow> n = length ?ps" "\<forall>g \<in> fst ` set (take n ?ps). hdb_lookup db (h, g) = None"
    and inv': "hdb_inv db'"
    using install_pairs_effect [OF inv ip(1)] by blast
  have "hdb_lookup (fst (uninstall_multiple_protocol_interfaces db' h args)) = hdb_lookup db" if "st = SUCCESS"
  proof
    fix k
    show "hdb_lookup (fst (uninstall_multiple_protocol_interfaces db' h args)) k = hdb_lookup db k"
      using uninstall_pairs_effect [OF inv', of h ?ps] n that foldl_upd_other [of k h ?ps] h0
      by (cases k) (auto simp: uninstall_multiple_protocol_interfaces_def)
  qed
  then show ?thesis
    using inv' ip(2) n by blast
qed

theorem install_multiple_roundtrip_witness:
  "hdb_lookup (fst (uninstall_multiple_protocol_interfaces
     (fst (install_multiple_protocol_interfaces sample_hdb (Some 1) [(Some (Guid 1 2 3 4 5 []), 7), (None, 0)]))
     1 [(Some (Guid 1 2 3 4 5 []), 7), (None, 0)])) = hdb_lookup sample_hdb"
proof -
  let ?args = "[(Some (Guid 1 2 3 4 5 []), 7), (None, 0)]"
  have k: "1 \<in> known_handles sample_hdb"
    by (simp add: sample_hdb_def install_protocol_interface_def new_handle_db_def MAX_HANDLES_def known_handles_def)
  have run: "install_multiple_protocol_interfaces sample_hdb (Some 1) ?args =
      (fst (install_multiple_protocol_interfaces sample_hdb (Some 1) ?args), SUCCESS, Some 1)"
    by (simp add: sample_hdb_def install_protocol_interface_def new_handle_db_def MAX_HANDLES_def
        install_multiple_protocol_interfaces_def valid_pairs_def Let_def
        install_protocol_def add_protocol_def sample_guid_def MAX_PROTOCOLS_PER_HANDLE_def)
  show ?thesis
    using install_multiple_roundtrip [OF sample_hdb_inv k run] by blast
qed

text \<open>The two-call protocol of \<open>locate_handle\<close>. A call without a buffer reports the size needed; a call
  with a buffer of that size returns every handle with the protocol exactly once, or \<open>NOT_FOUND\<close> when there is
  none; a smaller buffer is refused and nothing is written.\<close>

theorem locate_handle_two_calls:
  assumes inv: "hdb_inv db"
  shows "\<exists>hs. distinct hs \<and> set hs = {h. hdb_lookup db (h, g) \<noteq> None} \<and>
    locate_handle db True (Some g) (Some 0) False = (BUFFER_TOO_SMALL, Some (8 * length hs), []) \<and>
    locate_handle db True (Some g) (Some (8 * length hs)) True =
      (if hs = [] then NOT_FOUND else SUCCESS, Some (8 * length hs), hs) \<and>
    (\<forall>sz < 8 * length hs. locate_handle db True (Some g) (Some sz) True = (BUFFER_TOO_SMALL, Some (8 * length hs), []))"
  using set_matching_handles [OF inv, of g]
  by (intro exI [of _ "matching_handles db g"]) (simp add: locate_handle_def Let_def mult.commute)

theorem locate_handle_two_calls_witness:
  "\<exists>hs. distinct hs \<and> set hs = {h. hdb_lookup sample_hdb (h, sample_guid) \<noteq> None} \<and>
    locate_handle sample_hdb True (Some sample_guid) (Some 0) False = (BUFFER_TOO_SMALL, Some (8 * length hs), [])"
  using locate_handle_two_calls [OF sample_hdb_inv, of sample_guid] by blast

section \<open>Events\<close>



text \<open>With the keyboard event in the list, pending input is reported at the first position of the list,
  whatever event is there: the index need not be that of the keyboard event.\<close>

theorem wait_for_event_keyboard_index:
  assumes "evts \<noteq> []" and "KEYBOARD_EVENT_ID \<in> set evts" and "ready 0 0"
  shows "wait_for_event db ready (Some evts) True = Some (Ok 0)"
proof -
  have "\<exists>e \<in> set evts. e = KEYBOARD_EVENT_ID"
    using assms(2) by blast
  moreover have "wait_rounds db True ready evts 0 = Some 0"
    using assms by (subst wait_rounds.simps) (auto simp: neq_Nil_conv)
  ultimately show ?thesis
    using assms(1) by (simp add: wait_for_event_def)
qed

theorem wait_for_event_keyboard_index_witness:
  "wait_for_event new_event_db (\<lambda>_ _. True) (Some [5, KEYBOARD_EVENT_ID]) True = Some (Ok 0)"
  by (rule wait_for_event_keyboard_index) simp_all

text \<open>The life of an event. \<open>create_event\<close> returns an identifier that is not signaled; \<open>signal_event\<close> makes
  \<open>check_event\<close> succeed for it until \<open>close_event\<close>, and no other event is affected. Identifiers are not
  reused: after thirty calls \<open>create_event\<close> fails even when every event was closed.\<close>

theorem event_lifecycle:
  assumes inv: "events_inv db"
  shows "(next_event_id db < MAX_EVENTS \<longrightarrow> (\<exists>db1 e. create_event db ty tpl True = (db1, Ok e) \<and> events_inv db1 \<and>
      unat e = next_event_id db \<and> next_event_id db1 = Suc (next_event_id db) \<and> \<not> event_signaled db1 e \<and>
      check_event (fst (signal_event db1 e)) kb e = SUCCESS \<and>
      check_event (fst (close_event (fst (signal_event db1 e)) e)) kb e = NOT_READY \<and>
      (\<forall>x. x \<noteq> e \<longrightarrow> event_signaled (fst (close_event (fst (signal_event db1 e)) e)) x = event_signaled db x))) \<and>
    (next_event_id db = MAX_EVENTS \<longrightarrow> create_event db ty tpl True = (db, Err OUT_OF_RESOURCES)) \<and>
    next_event_id (fst (close_event db x)) = next_event_id db"
proof -
  have "\<exists>db1 e. create_event db ty tpl True = (db1, Ok e) \<and> events_inv db1 \<and>
      unat e = next_event_id db \<and> next_event_id db1 = Suc (next_event_id db) \<and> \<not> event_signaled db1 e \<and>
      check_event (fst (signal_event db1 e)) kb e = SUCCESS \<and>
      check_event (fst (close_event (fst (signal_event db1 e)) e)) kb e = NOT_READY \<and>
      (\<forall>x. x \<noteq> e \<longrightarrow> event_signaled (fst (close_event (fst (signal_event db1 e)) e)) x = event_signaled db x)"
    if room: "next_event_id db < MAX_EVENTS"
  proof -
    let ?n = "next_event_id db"
    let ?e = "of_nat ?n :: usize"
    let ?db1 = "db\<lparr>next_event_id := ?n + 1, events := (events db)[?n := \<lparr>event_type = ty, notify_tpl = tpl,
      signaled = False, is_keyboard_event = False\<rparr>]\<rparr>"
    have n: "2 \<le> ?n" "unat ?e = ?n"
      using inv room by (auto simp: events_inv_def unat_of_nat MAX_EVENTS_def)
    have run: "create_event db ty tpl True = (?db1, Ok ?e)"
      using room by (simp add: create_event_def Let_def)
    then have inv1: "events_inv ?db1"
      using create_event_inv [OF inv, of ty tpl True] by simp
    have idx: "event_index ?e = Some ?n"
      using n room by (simp add: event_index_eq)
    have fresh: "event_signaled ?db1 x \<longleftrightarrow> x \<noteq> ?e \<and> event_signaled db x" for x
      using n room inv
      by (auto simp: event_signaled_def event_index_eq events_inv_def nth_list_update word_unat_eq_iff split: option.split)
    have "?e \<noteq> KEYBOARD_EVENT_ID"
      using n by (auto simp: KEYBOARD_EVENT_ID_def)
    then show ?thesis
      using run inv1 n(2) idx fresh
      by (intro exI [of _ ?db1] exI [of _ ?e])
        (simp add: check_event_def event_signaled_signal event_signaled_close signal_event_inv)
  qed
  moreover have "next_event_id (fst (close_event db x)) = next_event_id db"
    by (simp add: close_event_def split: option.split)
  ultimately show ?thesis
    by (auto simp: create_event_def Let_def)
qed

theorem event_lifecycle_witness:
  "\<exists>db1 e. create_event new_event_db 0 4 True = (db1, Ok e) \<and>
    check_event (fst (signal_event db1 e)) False e = SUCCESS"
  using event_lifecycle [OF new_event_db_inv, of 0 4 False 2] by (auto simp: new_event_db_def MAX_EVENTS_def)

section \<open>Configuration tables\<close>

text \<open>\<open>install_configuration_table\<close> refines an update of a map from GUIDs to tables: a table is added or
  replaced, a null table removes the entry, and the only refusals are the removal of an absent entry and a
  seventeenth entry. The count that the system table shows is always the number of entries.\<close>

theorem install_configuration_table_refines:
  assumes inv: "config_inv db" and run: "install_configuration_table db g table = (db', st)"
  shows "config_inv db' \<and> number_of_table_entries db' = length (config_tables db') \<and>
    (st = SUCCESS \<longrightarrow> config_lookup db' = (config_lookup db)(g := if table = 0 then None else Some table)) \<and>
    (st \<noteq> SUCCESS \<longrightarrow> db' = db \<and> config_lookup db g = None) \<and>
    (st = SUCCESS \<longleftrightarrow> config_lookup db g \<noteq> None \<or> (table \<noteq> 0 \<and> length (config_tables db) < MAX_CONFIG_TABLES))"
proof -
  have *: "config_inv db' \<and>
    (st = SUCCESS \<longrightarrow> config_lookup db' = (config_lookup db)(g := if table = 0 then None else Some table)) \<and>
    (st \<noteq> SUCCESS \<longrightarrow> db' = db \<and> config_lookup db g = None) \<and>
    (st = SUCCESS \<longleftrightarrow> config_lookup db g \<noteq> None \<or> (table \<noteq> 0 \<and> length (config_tables db) < MAX_CONFIG_TABLES))"
  proof (cases "config_lookup db g = None")
    case False
    then show ?thesis
      using install_existing [OF inv False, of table] run by (elim exE conjE) simp
  next
    case True
    show ?thesis
    proof (cases "table \<noteq> 0 \<and> length (config_tables db) < MAX_CONFIG_TABLES")
      case ok: True
      then show ?thesis
        using install_new [OF inv True, of table] run True by (elim conjE) auto
    next
      case False
      then show ?thesis
        using install_refused [OF True, of table] run inv True by (cases "table = 0") simp_all
    qed
  qed
  then have "number_of_table_entries db' = length (config_tables db')"
    unfolding config_inv_def by blast
  then show ?thesis
    using * by blast
qed

theorem install_configuration_table_refines_witness:
  "config_lookup (fst (install_configuration_table new_config_db sample_guid 0x7000)) sample_guid = Some 0x7000"
  using install_configuration_table_refines
      [OF new_config_db_inv surjective_pairing [of "install_configuration_table new_config_db sample_guid 0x7000"]]
  by (auto simp: new_config_db_def MAX_CONFIG_TABLES_def)

section \<open>Variables\<close>

text \<open>C13: the variable services refine a map from (name, GUID) to attributes and data. For a valid name
  \<open>set_variable\<close> returns and writes, replaces or (with no data) deletes exactly the named variable, or refuses
  without any change.\<close>

theorem set_variable_refines:
  assumes "vars_inv vs" and "is_ucs2 name s" and "0 < length s" and "length s < MAX_VARIABLE_NAME_LEN"
    and "length bytes \<le> MAX_VARIABLE_DATA_SIZE"
  shows "\<exists>vs' st. set_variable vs (Some name) (Some g) attributes (length bytes) (Some bytes) = Some (vs', st) \<and>
    vars_inv vs' \<and>
    (if bytes = [] then
       (if vars_lookup vs (s, g) = None then vs' = vs \<and> st = NOT_FOUND
        else vars_lookup vs' = (vars_lookup vs)((s, g) := None) \<and> st = SUCCESS)
     else if vars_lookup vs (s, g) = None \<and> (\<forall>v \<in> set vs. in_use v) then vs' = vs \<and> st = OUT_OF_RESOURCES
     else vars_lookup vs' = (vars_lookup vs)((s, g) \<mapsto> (attributes, bytes)) \<and> st = SUCCESS)"
  using set_variable_effect [OF assms, of g attributes] unfolding set_spec_def by blast

theorem set_variable_refines_witness:
  "\<exists>vs'. set_variable new_variables (Some (ucs2_of [0x42])) (Some sample_guid) 7 1 (Some [9]) = Some (vs', SUCCESS) \<and>
    vars_lookup vs' ([0x42], sample_guid) = Some (7, [9])"
proof -
  have "vars_lookup new_variables ([0x42], sample_guid) = None" "\<exists>v \<in> set new_variables. \<not> in_use v"
    by (simp_all add: vars_lookup_None_iff new_variables_def empty_variable_def MAX_VARIABLES_def)
  moreover from this(2) have "\<not> (\<forall>v \<in> set new_variables. in_use v)"
    by blast
  ultimately show ?thesis
    using set_variable_refines [OF new_variables_inv is_ucs2_of, of "[0x42]" "[9]" sample_guid 7]
    by (simp add: MAX_VARIABLE_NAME_LEN_def MAX_VARIABLE_DATA_SIZE_def del: bex_simps ball_simps) auto
qed

text \<open>\<open>get_variable\<close> returns what the map holds: the data and attributes when the buffer is large enough,
  the size needed when it is not, \<open>NOT_FOUND\<close> for an absent variable.\<close>

theorem get_variable_correct:
  assumes inv: "vars_inv vs" and s: "is_ucs2 name s"
  shows "get_variable vs (Some name) (Some g) (Some sz) data =
    (case vars_lookup vs (s, g) of
       None \<Rightarrow> \<lparr>gv_status = NOT_FOUND, gv_size = Some sz, gv_data = [], gv_attributes = None\<rparr>
     | Some (a, bytes) \<Rightarrow>
         if \<not> data \<or> sz < length bytes
         then \<lparr>gv_status = BUFFER_TOO_SMALL, gv_size = Some (length bytes), gv_data = [], gv_attributes = None\<rparr>
         else \<lparr>gv_status = SUCCESS, gv_size = Some (length bytes), gv_data = bytes, gv_attributes = Some a\<rparr>)"
proof (cases "find_variable vs name g")
  case None
  then show ?thesis
    using find_variable_eq [OF s, of vs g] by (simp add: get_variable_def)
next
  case (Some v)
  have "vars_lookup vs (s, g) = Some (var_value v)"
    using find_variable_eq [OF s, of vs g] Some by simp
  moreover have "var_value v = (var_attributes v, take (var_data_size v) (var_data v))"
    by (rule var_value_def)
  moreover have "length (take (var_data_size v) (var_data v)) = var_data_size v"
    using find_variable_size [OF inv Some] unfolding var_value_def snd_conv by (rule sym)
  ultimately show ?thesis
    using Some by (simp add: get_variable_def Let_def del: length_take)
qed

theorem get_variable_correct_witness:
  "gv_status (get_variable new_variables (Some (ucs2_of [0x42])) (Some sample_guid) (Some 16) True) = NOT_FOUND"
proof -
  have "vars_lookup new_variables ([0x42], sample_guid) = None"
    by (simp add: vars_lookup_None_iff new_variables_def empty_variable_def)
  then show ?thesis
    using get_variable_correct [OF new_variables_inv is_ucs2_of, of "[0x42]" sample_guid 16 True] by simp
qed

text \<open>C14: the loop of a caller that asks \<open>get_next_variable_name\<close> for one name after another, starting with the
  empty name, sees the name of every variable exactly once and then stops.\<close>

theorem variables_enumerated:
  assumes inv: "vars_inv vs" and n: "MAX_VARIABLES \<le> n"
  shows "distinct (enumerate_variables vs n ([], g)) \<and>
    set (enumerate_variables vs n ([], g)) = {k. vars_lookup vs k \<noteq> None}"
proof -
  have "length (filter in_use vs) \<le> n"
    using inv n length_filter_le [of in_use vs] by (simp add: vars_inv_def)
  then have eq: "enumerate_variables vs n ([], g) = map var_key (filter in_use vs)"
    by (simp add: enumerate_all [OF inv])
  have "var_key ` {v \<in> set vs. in_use v} = {k. vars_lookup vs k \<noteq> None}"
    unfolding vars_lookup_None_iff by blast
  then show ?thesis
    using used_distinct [OF inv] by (simp add: eq)
qed

theorem variables_enumerated_witness:
  "distinct (enumerate_variables new_variables 64 ([], sample_guid))"
  using variables_enumerated [OF new_variables_inv, of 64 sample_guid] by (simp add: MAX_VARIABLES_def)

text \<open>The sizes that \<open>query_variable_info\<close> reports add up: the remaining size and the bytes of all stored
  variables make the total, so the subtraction never wraps.\<close>

theorem query_variable_info_bound:
  assumes inv: "vars_inv vs"
  shows "\<exists>remaining. query_variable_info vs True = Ok (65536, remaining, 1024) \<and>
    remaining + sum_list (map var_data_size (filter in_use vs)) = 65536"
  using used_size_bound [OF inv]
  by (auto simp: query_variable_info_def Let_def MAX_VARIABLES_def MAX_VARIABLE_DATA_SIZE_def)

theorem query_variable_info_bound_witness:
  "\<exists>remaining. query_variable_info new_variables True = Ok (65536, remaining, 1024)"
  using query_variable_info_bound [OF new_variables_inv] by blast

end
