(* ===== verification/Rtc.thy ===== *)
theory Rtc
  imports Crab_Prelude
begin

text \<open>
  The real-time clock: \<open>get_time\<close>, \<open>read_rtc_time\<close> and \<open>read_cmos\<close> of
  \<open>src/src/efi/runtime_services.rs\<close>. The clock is hardware: \<open>busy\<close> tells for each poll whether an update is
  in progress (bit 7 of register A), \<open>cmos\<close> holds the registers that are read afterwards. The wait need not
  end; \<^const>\<open>None\<close> is a call that never returns.
\<close>

type_synonym cmos = "u8 \<Rightarrow> u8"

definition read_cmos :: "cmos \<Rightarrow> u8 \<Rightarrow> u8" where
  "read_cmos regs reg = regs reg"

partial_function (option) wait_for_update :: "(nat \<Rightarrow> u8) \<Rightarrow> nat \<Rightarrow> nat option" where
  "wait_for_update status_a k = (if status_a k AND 0x80 = 0 then Some k else wait_for_update status_a (Suc k))"

definition rtc_convert :: "bool \<Rightarrow> u8 \<Rightarrow> u8" where
  "rtc_convert is_bcd val = (if is_bcd then (val AND 0x0F) + (drop_bit 4 val * 10) else val)"

record rtc_time =
  rtc_year :: u16
  rtc_month :: u8
  rtc_day :: u8
  rtc_hour :: u8
  rtc_minute :: u8
  rtc_second :: u8

definition read_rtc_time :: "(nat \<Rightarrow> u8) \<Rightarrow> cmos \<Rightarrow> rtc_time option" where
  "read_rtc_time status_a regs =
     (case wait_for_update status_a 0 of
        None \<Rightarrow> None
      | Some _ \<Rightarrow>
          (let second = read_cmos regs 0x00; minute = read_cmos regs 0x02; hour = read_cmos regs 0x04;
               day = read_cmos regs 0x07; month = read_cmos regs 0x08; year = read_cmos regs 0x09;
               century = read_cmos regs 0x32;
               is_bcd = (read_cmos regs 0x0B AND 0x04 = 0);
               convert = rtc_convert is_bcd;
               century' = (if century > 0 then convert century else 20)
           in Some \<lparr>rtc_year = ucast century' * 100 + ucast (convert year), rtc_month = convert month,
                rtc_day = convert day, rtc_hour = convert hour, rtc_minute = convert minute,
                rtc_second = convert second\<rparr>))"

text \<open>\<open>get_time\<close>: the argument tells whether the time pointer is not null.\<close>

definition get_time :: "(nat \<Rightarrow> u8) \<Rightarrow> cmos \<Rightarrow> bool \<Rightarrow> rtc_time efi_result option" where
  "get_time status_a regs time_ok =
     (if \<not> time_ok then Some (Err INVALID_PARAMETER) else map_option Inr (read_rtc_time status_a regs))"

section \<open>Properties\<close>

definition to_bcd :: "u8 \<Rightarrow> u8" where
  "to_bcd x = (x div 10) * 16 + x mod 10"

lemma all_below_100:
  assumes "list_all P (map of_nat [0..<100])" and "(x :: u8) < 100"
  shows "P x"
proof -
  have "unat x < 100"
    using assms(2) by (simp add: word_less_nat_alt)
  moreover have "\<forall>i \<in> {0..<100}. P (of_nat i)"
    using assms(1) by (simp add: list_all_iff)
  ultimately have "P (of_nat (unat x))"
    by (intro bspec [of "{0..<100}" "\<lambda>i. P (of_nat i)"]) simp_all
  then show ?thesis
    by simp
qed

lemma bcd_roundtrip: "x < 100 \<Longrightarrow> rtc_convert True (to_bcd x) = x"
proof (rule all_below_100 [of "\<lambda>x. rtc_convert True (to_bcd x) = x"])
  show "list_all (\<lambda>x. rtc_convert True (to_bcd x) = x) (map of_nat [0..<100])"
    by code_simp
qed

lemma to_bcd_zero: "x < 100 \<Longrightarrow> to_bcd x = 0 \<longleftrightarrow> x = 0"
proof (rule all_below_100 [of "\<lambda>x. to_bcd x = 0 \<longleftrightarrow> x = 0"])
  show "list_all (\<lambda>x. (to_bcd x = 0) = (x = 0)) (map of_nat [0..<100])"
    by code_simp
qed

lemma wait_for_update_ends:
  assumes "status_a n AND 0x80 = 0" and "i \<le> n"
  shows "\<exists>k. wait_for_update status_a i = Some k"
  using assms(2)
proof (induction rule: inc_induct)
  case base
  then show ?case
    using assms(1) by (subst wait_for_update.simps) simp
next
  case (step i)
  then show ?case
    by (subst wait_for_update.simps) auto
qed

text \<open>The registers of a clock that shows a time, in either of its two formats.\<close>

definition clock_shows :: "cmos \<Rightarrow> bool \<Rightarrow> u8 \<Rightarrow> u8 \<Rightarrow> rtc_time \<Rightarrow> bool" where
  "clock_shows regs bcd century year t \<longleftrightarrow>
     (let enc = (if bcd then to_bcd else id)
      in (regs 0x0B AND 0x04 = 0) = bcd \<and> regs 0x00 = enc (rtc_second t) \<and> regs 0x02 = enc (rtc_minute t) \<and>
         regs 0x04 = enc (rtc_hour t) \<and> regs 0x07 = enc (rtc_day t) \<and> regs 0x08 = enc (rtc_month t) \<and>
         regs 0x09 = enc year \<and> regs 0x32 = enc century \<and>
         rtc_second t < 100 \<and> rtc_minute t < 100 \<and> rtc_hour t < 100 \<and> rtc_day t < 100 \<and> rtc_month t < 100 \<and>
         year < 100 \<and> century < 100)"

text \<open>The clock is read back exactly, whether it counts in BCD or in binary: once no update is in progress
  \<open>get_time\<close> returns the time the registers show, with the century 20 when the clock keeps none. The year is
  computed without wrap-around.\<close>

theorem get_time_reads_clock:
  assumes "status_a n AND 0x80 = 0" and "clock_shows regs bcd century year t"
  shows "\<exists>t'. get_time status_a regs True = Some (Ok t') \<and>
    unat (rtc_year t') = 100 * (if century = 0 then 20 else unat century) + unat year \<and>
    rtc_month t' = rtc_month t \<and> rtc_day t' = rtc_day t \<and> rtc_hour t' = rtc_hour t \<and>
    rtc_minute t' = rtc_minute t \<and> rtc_second t' = rtc_second t"
proof -
  obtain k where k: "wait_for_update status_a 0 = Some k"
    using wait_for_update_ends [of status_a n 0] assms(1) by auto
  have dec: "rtc_convert bcd (if bcd then to_bcd x else x) = x" if "x < 100" for x
    using bcd_roundtrip [OF that] by (simp add: rtc_convert_def)
  let ?c = "if century = 0 then 20 else century"
  have y: "unat (ucast ?c * 100 + ucast year :: u16) = 100 * unat ?c + unat year"
  proof -
    have b: "unat ?c < 100" "unat year < 100"
      using assms(2) by (auto simp: clock_shows_def Let_def word_less_nat_alt)
    have u: "unat (ucast x :: u16) = unat x" for x :: u8
      by (rule unat_ucast_widen) simp
    have m: "unat (ucast ?c * 100 :: u16) = unat ?c * 100"
      using b(1) u [of ?c] by (simp add: unat_word_ariths)
    show ?thesis
      using b m u [of year] by (subst unat_plus_less) simp_all
  qed
  have "regs 0x32 > 0 \<longleftrightarrow> century \<noteq> 0"
    using assms(2) to_bcd_zero [of century] by (auto simp: clock_shows_def Let_def word_neq_0_conv [symmetric])
  then show ?thesis
    using assms(2) k y dec
    by (auto simp: get_time_def read_rtc_time_def read_cmos_def clock_shows_def Let_def split: if_splits)
qed

definition sample_cmos :: cmos where
  "sample_cmos = (\<lambda>r. if r = 0x32 then 0x20 else if r = 0x09 then 0x25 else if r = 0x08 then 0x12 else
     if r = 0x07 then 0x31 else if r = 0x04 then 0x23 else if r = 0x02 then 0x59 else if r = 0x0B then 2 else 0)"

theorem get_time_reads_clock_witness:
  "\<exists>t'. get_time (\<lambda>_. 0) sample_cmos True = Some (Ok t') \<and> unat (rtc_year t') = 2025 \<and> rtc_month t' = 12"
proof -
  have "clock_shows sample_cmos True 20 25
      \<lparr>rtc_year = 2025, rtc_month = 12, rtc_day = 31, rtc_hour = 23, rtc_minute = 59, rtc_second = 0\<rparr>"
    by code_simp
  then show ?thesis
    using get_time_reads_clock [of "\<lambda>_. 0" 0 sample_cmos True 20 25] by fastforce
qed

end
