(* ===== verification/Boot_Services.thy ===== *)
theory Boot_Services
  imports Pe_Correct Handles Events Config_Tables Variables
begin

text \<open>
  The boot services that combine several parts of the state: \<open>EfiState\<close> and \<open>LoadedImageEntry\<close> of
  \<open>src/src/state.rs\<close>, the memory, image and search services of \<open>src/src/efi/boot_services.rs\<close>,
  \<open>src/src/efi/utils.rs\<close> and \<open>src/src/efi/protocols/loaded_image.rs\<close>.

  The state is explicit. Services that can reach a panic of the allocator return an option. What the
  crate \<open>r-efi\<close> provides (two GUIDs and the layout of the loaded-image structure) and the addresses of
  static objects are the fields of a record that is passed in; \<open>r_efi_ok\<close> names what is relied on.
\<close>

section \<open>State\<close>

definition MAX_LOADED_IMAGES :: nat where "MAX_LOADED_IMAGES = 16"

record loaded_image_entry =
  le_handle :: u64
  le_image_base :: u64
  le_image_size :: u64
  le_entry_point :: u64
  le_num_pages :: u64
  le_parent_handle :: u64

definition empty_image_entry :: loaded_image_entry where
  "empty_image_entry = \<lparr>le_handle = 0, le_image_base = 0, le_image_size = 0, le_entry_point = 0,
     le_num_pages = 0, le_parent_handle = 0\<rparr>"

text \<open>\<open>EfiState\<close>, the bytes of memory and the pointer to the boot services in the system table.\<close>

record efi_state =
  st_allocator :: memory_allocator
  st_memory :: memory
  st_handles :: handle_db
  st_events :: event_db
  st_images :: "loaded_image_entry list"
  st_config :: config_db
  st_variables :: "variable_entry list"
  st_boot_services :: u64

definition new_efi_state :: "memory_allocator \<Rightarrow> memory \<Rightarrow> u64 \<Rightarrow> efi_state" where
  "new_efi_state s m bs = \<lparr>st_allocator = s, st_memory = m, st_handles = new_handle_db,
     st_events = new_event_db, st_images = replicate MAX_LOADED_IMAGES empty_image_entry,
     st_config = new_config_db, st_variables = new_variables, st_boot_services = bs\<rparr>"

record loaded_image_protocol =
  lip_revision :: u32
  lip_parent_handle :: u64
  lip_system_table :: u64
  lip_device_handle :: u64
  lip_file_path :: u64
  lip_load_options_size :: u32
  lip_load_options :: u64
  lip_image_base :: u64
  lip_image_size :: u64
  lip_image_code_type :: u32
  lip_image_data_type :: u32
  lip_unload :: u64

record r_efi =
  r_loaded_image_guid :: guid
  r_device_path_guid :: guid
  r_li_revision :: u32
  r_li_size :: nat
  r_li_encode :: "loaded_image_protocol \<Rightarrow> u8 list"
  r_li_device_handle :: nat
  r_li_file_path :: nat
  r_li_unload :: u64
  r_system_table :: u64

section \<open>Memory services\<close>

definition decode_allocate_type :: "u32 \<Rightarrow> allocate_type option" where
  "decode_allocate_type t =
     (if t = 0 then Some AllocateAnyPages
      else if t = 1 then Some AllocateMaxAddress
      else if t = 2 then Some AllocateAddress
      else None)"

text \<open>\<open>memory\<close> is the address behind the pointer, \<^const>\<open>None\<close> when the pointer is null.\<close>

definition bs_allocate_pages ::
  "efi_state \<Rightarrow> u32 \<Rightarrow> u32 \<Rightarrow> usize \<Rightarrow> u64 option \<Rightarrow> (efi_state \<times> efi_status \<times> u64 option) may_panic" where
  "bs_allocate_pages st alloc_ty mem_ty pgs mem_ptr =
     (case mem_ptr of
        None \<Rightarrow> Some (st, INVALID_PARAMETER, None)
      | Some addr \<Rightarrow>
     (case decode_allocate_type alloc_ty of
        None \<Rightarrow> Some (st, INVALID_PARAMETER, mem_ptr)
      | Some ty \<Rightarrow>
     (case from_u32 mem_ty of
        None \<Rightarrow> Some (st, INVALID_PARAMETER, mem_ptr)
      | Some t \<Rightarrow>
     (case allocate_pages (st_allocator st) ty t pgs addr of
        None \<Rightarrow> None
      | Some (s', status, addr') \<Rightarrow>
          Some (st\<lparr>st_allocator := s'\<rparr>, status, Some (if status = SUCCESS then addr' else addr))))))"

definition bs_free_pages :: "efi_state \<Rightarrow> u64 \<Rightarrow> usize \<Rightarrow> efi_state \<times> efi_status" where
  "bs_free_pages st mem_addr pgs =
     (case free_pages (st_allocator st) mem_addr pgs of (s', status) \<Rightarrow> (st\<lparr>st_allocator := s'\<rparr>, status))"

text \<open>
  The caller's buffer is the list of descriptors it has room for; only the entries that fit in
  \<open>memory_map_size\<close> bytes are passed on.
\<close>

definition bs_get_memory_map ::
  "efi_state \<Rightarrow> nat option \<Rightarrow> memory_descriptor list option \<Rightarrow> bool \<Rightarrow> memory_map_report efi_result" where
  "bs_get_memory_map st memory_map_size buffer pointers_ok =
     (case memory_map_size of
        None \<Rightarrow> Err INVALID_PARAMETER
      | Some sz \<Rightarrow>
          if \<not> pointers_ok then Err INVALID_PARAMETER
          else Ok (get_memory_map (st_allocator st) (map_option (take (sz div DESCRIPTOR_SIZE)) buffer)))"

definition bs_allocate_pool ::
  "efi_state \<Rightarrow> u32 \<Rightarrow> usize \<Rightarrow> bool \<Rightarrow> (efi_state \<times> u64 efi_result) may_panic" where
  "bs_allocate_pool st pool_type sz buffer =
     (if \<not> buffer \<or> sz = 0 then Some (st, Err INVALID_PARAMETER)
      else
        (case from_u32 pool_type of
           None \<Rightarrow> Some (st, Err INVALID_PARAMETER)
         | Some t \<Rightarrow>
             (case allocate_pool (st_allocator st) (st_memory st) t sz of
                None \<Rightarrow> None
              | Some (s', m', r) \<Rightarrow> Some (st\<lparr>st_allocator := s', st_memory := m'\<rparr>, r))))"

definition bs_free_pool :: "efi_state \<Rightarrow> u64 \<Rightarrow> efi_state \<times> efi_status" where
  "bs_free_pool st buffer =
     (if buffer = 0 then (st, INVALID_PARAMETER)
      else
        (case free_pool (st_allocator st) (st_memory st) buffer of
           (s', status) \<Rightarrow> (st\<lparr>st_allocator := s'\<rparr>, status)))"

definition copy_mem :: "efi_state \<Rightarrow> u64 \<Rightarrow> u64 \<Rightarrow> usize \<Rightarrow> efi_state" where
  "copy_mem st destination source len =
     (if destination = 0 \<or> source = 0 then st
      else st\<lparr>st_memory := write_bytes (st_memory st) destination
              (read_bytes (st_memory st) source (unat len))\<rparr>)"

definition set_mem :: "efi_state \<Rightarrow> u64 \<Rightarrow> usize \<Rightarrow> u8 \<Rightarrow> efi_state" where
  "set_mem st buffer sz value =
     (if buffer = 0 then st
      else st\<lparr>st_memory := write_bytes (st_memory st) buffer (replicate (unat sz) value)\<rparr>)"

section \<open>Searching\<close>

definition write_handles :: "memory \<Rightarrow> u64 \<Rightarrow> u64 list \<Rightarrow> memory" where
  "write_handles m p hs = write_bytes m p (concat (map (\<lambda>h. le_bytes 8 (unat h)) hs))"

text \<open>The last component is what is stored through \<open>no_handles\<close> and \<open>buffer\<close>, if anything is.\<close>

definition locate_handle_buffer ::
  "efi_state \<Rightarrow> bool \<Rightarrow> guid option \<Rightarrow> bool \<Rightarrow> (efi_state \<times> efi_status \<times> (nat \<times> u64) option) may_panic" where
  "locate_handle_buffer st by_protocol protocol pointers_ok =
     (if \<not> pointers_ok then Some (st, INVALID_PARAMETER, None)
      else
        (case locate_handle (st_handles st) by_protocol protocol (Some 0) False of
           (status, sz, _) \<Rightarrow>
             if status = NOT_FOUND then Some (st, NOT_FOUND, Some (0, 0))
             else if status \<noteq> BUFFER_TOO_SMALL then Some (st, status, None)
             else
               (let buffer_size = the sz
                in case allocate_pool (st_allocator st) (st_memory st) BootServicesData (of_nat buffer_size) of
                     None \<Rightarrow> None
                   | Some (s', m', Err _) \<Rightarrow>
                       Some (st\<lparr>st_allocator := s', st_memory := m'\<rparr>, OUT_OF_RESOURCES, None)
                   | Some (s', m', Ok handle_buffer) \<Rightarrow>
                       (case locate_handle (st_handles st) by_protocol protocol (Some buffer_size) True of
                          (status2, _, hs) \<Rightarrow>
                            if status2 \<noteq> SUCCESS
                            then Some (st\<lparr>st_allocator := fst (free_pool s' m' handle_buffer), st_memory := m'\<rparr>,
                                       status2, None)
                            else Some (st\<lparr>st_allocator := s', st_memory := write_handles m' handle_buffer hs\<rparr>,
                                       SUCCESS, Some (buffer_size div 8, handle_buffer))))))"

text \<open>
  \<open>locate_device_path\<close>: the walk to the end node of a device path in memory. The walk need not end
  (\<^const>\<open>None\<close>), for example when the nodes form a ring.
\<close>

partial_function (option) dp_end :: "memory \<Rightarrow> u64 \<Rightarrow> u64 option" where
  "dp_end m dp =
     (if m dp = 0x7F \<and> m (dp + 1) = 0xFF then Some dp
      else
        (let len = read_u16 m (dp + 2)
         in if len < 4 then Some dp else dp_end m (dp + ucast len)))"

definition handle_device_path :: "guid \<Rightarrow> guid \<Rightarrow> handle_entry \<Rightarrow> (u64 \<times> u64) option" where
  "handle_device_path dp_guid g entry =
     (if \<exists>p \<in> set (entry_protocols entry). proto_guid p = g
      then (case find (\<lambda>p. proto_guid p = dp_guid) (entry_protocols entry) of
              Some p \<Rightarrow> if proto_interface p \<noteq> 0 then Some (entry_handle entry, proto_interface p) else None
            | None \<Rightarrow> None)
      else None)"

text \<open>
  The arguments are the GUID, the device path behind \<open>device_path\<close> (0 is a null path) and whether
  \<open>device\<close> is not null; the result is the handle and the remaining path.
\<close>

definition locate_device_path ::
  "r_efi \<Rightarrow> efi_state \<Rightarrow> guid option \<Rightarrow> u64 option \<Rightarrow> bool \<Rightarrow> (u64 \<times> u64) efi_result option" where
  "locate_device_path r st protocol device_path device =
     (case (protocol, device_path) of
        (Some g, Some input_dp) \<Rightarrow>
          if \<not> device \<or> input_dp = 0 then Some (Err INVALID_PARAMETER)
          else
            (case List.map_filter (handle_device_path (r_device_path_guid r) g) (handles (st_handles st)) of
               [] \<Rightarrow> Some (Err NOT_FOUND)
             | (handle, handle_dp) # _ \<Rightarrow>
                 (case dp_end (st_memory st) handle_dp of
                    None \<Rightarrow> None
                  | Some dp \<Rightarrow> Some (Ok (handle, dp))))
      | _ \<Rightarrow> Some (Err INVALID_PARAMETER))"

section \<open>Images\<close>

definition allocate_protocol ::
  "memory_allocator \<Rightarrow> memory \<Rightarrow> nat \<Rightarrow> u8 list \<Rightarrow> (memory_allocator \<times> memory \<times> u64) may_panic" where
  "allocate_protocol s m sz bytes =
     (case allocate_pool s m BootServicesData (of_nat sz) of
        None \<Rightarrow> None
      | Some (s', m', Err _) \<Rightarrow> Some (s', m', 0)
      | Some (s', m', Ok p) \<Rightarrow> Some (s', write_bytes (write_bytes m' p (replicate sz 0)) p bytes, p))"

definition create_loaded_image_protocol ::
  "r_efi \<Rightarrow> memory_allocator \<Rightarrow> memory \<Rightarrow> u64 \<Rightarrow> u64 \<Rightarrow> u64 \<Rightarrow> u64 \<Rightarrow>
     (memory_allocator \<times> memory \<times> u64) may_panic" where
  "create_loaded_image_protocol r s m parent_handle device_handle image_base image_size =
     allocate_protocol s m (r_li_size r)
       (r_li_encode r \<lparr>lip_revision = r_li_revision r, lip_parent_handle = parent_handle,
          lip_system_table = r_system_table r, lip_device_handle = device_handle, lip_file_path = 0,
          lip_load_options_size = 0, lip_load_options = 0, lip_image_base = image_base,
          lip_image_size = image_size, lip_image_code_type = as_u32 LoaderCode,
          lip_image_data_type = as_u32 LoaderData, lip_unload = r_li_unload r\<rparr>)"

definition set_file_path :: "r_efi \<Rightarrow> memory \<Rightarrow> u64 \<Rightarrow> u64 \<Rightarrow> memory" where
  "set_file_path r m protocol device_path =
     (if protocol = 0 then m else write_u64 m (protocol + of_nat (r_li_file_path r)) device_path)"

definition get_device_handle_from_parent :: "r_efi \<Rightarrow> efi_state \<Rightarrow> u64 \<Rightarrow> u64" where
  "get_device_handle_from_parent r st parent_handle =
     (if parent_handle = 0 then 0
      else
        (case find (\<lambda>e. entry_handle e = parent_handle) (handles (st_handles st)) of
           None \<Rightarrow> 0
         | Some e \<Rightarrow>
             (case find (\<lambda>p. proto_guid p = r_loaded_image_guid r \<and> proto_interface p \<noteq> 0) (entry_protocols e) of
                None \<Rightarrow> 0
              | Some p \<Rightarrow> read_u64 (st_memory st) (proto_interface p + of_nat (r_li_device_handle r)))))"

definition store_image :: "loaded_image_entry list \<Rightarrow> loaded_image_entry \<Rightarrow> loaded_image_entry list option" where
  "store_image images entry =
     (case position (\<lambda>e. le_handle e = 0) images of
        None \<Rightarrow> None
      | Some i \<Rightarrow> Some (images[i := entry]))"

text \<open>
  The part of \<open>load_image\<close> after the PE file was loaded; \<open>fail\<close> is the early return that unloads the
  image.
\<close>

definition register_image ::
  "r_efi \<Rightarrow> efi_state \<Rightarrow> u64 \<Rightarrow> u64 \<Rightarrow> loaded_image \<Rightarrow> (efi_state \<times> u64 efi_result) may_panic" where
  "register_image r st parent_image_handle device_path img =
     (let fail = (\<lambda>st status. Some (st\<lparr>st_allocator := fst (unload_image (st_allocator st) img)\<rparr>, Err status))
      in case create_handle (st_handles st) of
           (hdb, None) \<Rightarrow> fail (st\<lparr>st_handles := hdb\<rparr>) OUT_OF_RESOURCES
         | (hdb, Some new_handle) \<Rightarrow>
             (let st1 = st\<lparr>st_handles := hdb\<rparr>;
                  device_handle = get_device_handle_from_parent r st1 parent_image_handle
              in case create_loaded_image_protocol r (st_allocator st1) (st_memory st1) parent_image_handle
                        device_handle (li_image_base img) (li_image_size img) of
                   None \<Rightarrow> None
                 | Some (s2, m2, protocol) \<Rightarrow>
                     if protocol = 0
                     then fail (st1\<lparr>st_allocator := s2, st_memory := m2\<rparr>) OUT_OF_RESOURCES
                     else
                       (let m3 = (if device_path \<noteq> 0 then set_file_path r m2 protocol device_path else m2)
                        in case install_protocol hdb new_handle (r_loaded_image_guid r) protocol of
                             (hdb', status) \<Rightarrow>
                               (let st2 = st1\<lparr>st_allocator := s2, st_memory := m3, st_handles := hdb'\<rparr>
                                in if status \<noteq> SUCCESS then fail st2 status
                                   else
                                     (case store_image (st_images st2)
                                             \<lparr>le_handle = new_handle, le_image_base = li_image_base img,
                                              le_image_size = li_image_size img,
                                              le_entry_point = li_entry_point img,
                                              le_num_pages = li_num_pages img,
                                              le_parent_handle = parent_image_handle\<rparr> of
                                        None \<Rightarrow> fail st2 OUT_OF_RESOURCES
                                      | Some images \<Rightarrow> Some (st2\<lparr>st_images := images\<rparr>, Ok new_handle))))))"

text \<open>
  \<open>source_buffer\<close> holds the bytes of the file, \<^const>\<open>None\<close> when the pointer is null; \<open>Ok\<close> carries the
  handle stored through \<open>image_handle\<close>.
\<close>

definition bs_load_image ::
  "r_efi \<Rightarrow> efi_state \<Rightarrow> u64 \<Rightarrow> u64 \<Rightarrow> u8 list option \<Rightarrow> bool \<Rightarrow> (efi_state \<times> u64 efi_result) may_panic" where
  "bs_load_image r st parent_image_handle device_path source_buffer image_handle =
     (if \<not> image_handle then Some (st, Err INVALID_PARAMETER)
      else
        (case source_buffer of
           None \<Rightarrow> Some (st, Err INVALID_PARAMETER)
         | Some data \<Rightarrow>
             if data = [] then Some (st, Err INVALID_PARAMETER)
             else
               (case load_image (st_allocator st) (st_memory st) data of
                  None \<Rightarrow> None
                | Some (s', m', Err status) \<Rightarrow>
                    Some (st\<lparr>st_allocator := s', st_memory := m'\<rparr>, Err status)
                | Some (s', m', Ok img) \<Rightarrow>
                    register_image r (st\<lparr>st_allocator := s', st_memory := m'\<rparr>) parent_image_handle
                      device_path img)))"

text \<open>The image is code outside the firmware: \<open>run\<close> gives the state it leaves and its status.\<close>

definition start_image ::
  "(u64 \<Rightarrow> u64 \<Rightarrow> efi_state \<Rightarrow> efi_state \<times> efi_status) \<Rightarrow> efi_state \<Rightarrow> u64 \<Rightarrow> efi_state \<times> efi_status" where
  "start_image run st image_handle =
     (if image_handle = 0 then (st, INVALID_PARAMETER)
      else
        (case find (\<lambda>e. le_handle e = image_handle) (st_images st) of
           None \<Rightarrow> (st, INVALID_PARAMETER)
         | Some e \<Rightarrow> run (le_entry_point e) image_handle st))"

definition bs_exit :: "efi_status \<Rightarrow> efi_status" where
  "bs_exit exit_status = exit_status"

definition bs_unload_image :: "efi_state \<Rightarrow> u64 \<Rightarrow> efi_state \<times> efi_status" where
  "bs_unload_image st image_handle =
     (if image_handle = 0 then (st, INVALID_PARAMETER)
      else
        (case position (\<lambda>e. le_handle e = image_handle) (st_images st) of
           None \<Rightarrow> (st, SUCCESS)
         | Some i \<Rightarrow>
             (let e = st_images st ! i;
                  st' = st\<lparr>st_images := (st_images st)[i := empty_image_entry]\<rparr>
              in (st'\<lparr>st_allocator := fst (free_pages (st_allocator st') (le_image_base e) (le_num_pages e))\<rparr>,
                  SUCCESS))))"

definition clear_boot_services :: "efi_state \<Rightarrow> efi_state" where
  "clear_boot_services st = st\<lparr>st_boot_services := 0\<rparr>"

definition bs_exit_boot_services :: "efi_state \<Rightarrow> usize \<Rightarrow> efi_state \<times> efi_status" where
  "bs_exit_boot_services st key =
     (case exit_boot_services (st_allocator st) key of
        (s', status) \<Rightarrow>
          (let st' = st\<lparr>st_allocator := s'\<rparr>
           in if status = SUCCESS then (clear_boot_services st', SUCCESS) else (st', status)))"

end
