(* ===== verification/Boot_Correct.thy ===== *)
theory Boot_Correct
  imports Boot_Services Allocator_Steps
begin

text \<open>
  The boot services as a state machine. \<open>service_call\<close> lists the calls an application can make, \<open>exec\<close>
  runs one, and the lemmas here show that each keeps the invariant of the whole state.
\<close>

section \<open>Effects on the allocator\<close>

text \<open>What every service but \<open>exit_boot_services\<close> does to the memory map.\<close>

definition keeps_alloc :: "memory_allocator \<Rightarrow> memory_allocator \<Rightarrow> bool" where
  "keeps_alloc s s' \<longleftrightarrow> alloc_inv s' \<and> keeps_firm (alloc_map s) (alloc_map s') \<and>
     boot_services_exited s' = boot_services_exited s"

lemma keeps_alloc_refl: "alloc_inv s \<Longrightarrow> keeps_alloc s s"
  by (simp add: keeps_alloc_def)

lemma keeps_alloc_trans: "keeps_alloc s s' \<Longrightarrow> keeps_alloc s' s'' \<Longrightarrow> keeps_alloc s s''"
  by (auto simp: keeps_alloc_def intro: keeps_firm_trans)

lemma keeps_alloc_inv: "keeps_alloc s s' \<Longrightarrow> alloc_inv s'"
  by (simp add: keeps_alloc_def)

lemma allocate_pages_keeps:
  assumes "alloc_inv s" and "allocate_pages s ty t n a = Some (s', st, a')"
  shows "keeps_alloc s s'"
proof -
  have "alloc_inv s'" "keeps_firm (alloc_map s) (alloc_map s')"
    using alloc_step_sound [OF step_allocate [OF assms(2)] assms(1)] by simp_all
  moreover have "boot_services_exited s' = boot_services_exited s"
    using assms(2)
    by (cases rule: allocate_pages_cases [OF assms(1), of ty t n a])
      (auto simp: allocated_spec_def carve_spec_def realloc_spec_def split: allocate_type.splits)
  ultimately show ?thesis
    by (simp add: keeps_alloc_def)
qed

lemma free_pages_keeps:
  assumes "alloc_inv s" and "free_pages s a n = (s', st)"
  shows "keeps_alloc s s'"
proof -
  have "alloc_inv s'" "keeps_firm (alloc_map s) (alloc_map s')"
    using alloc_step_sound [OF step_free [OF assms(2)] assms(1)] by simp_all
  moreover have "boot_services_exited s' = boot_services_exited s"
    using assms(2)
    by (cases rule: free_pages_cases [OF alloc_invD [OF assms(1)], of a n]) (auto simp: free_spec_def)
  ultimately show ?thesis
    by (simp add: keeps_alloc_def)
qed

lemma free_pages_keeps': "alloc_inv s \<Longrightarrow> keeps_alloc s (fst (free_pages s a n))"
  by (rule free_pages_keeps [OF _ prod.collapse [symmetric]])

lemma allocate_pool_keeps:
  assumes "alloc_inv s" and "allocate_pool s m t sz = Some (s', m', r)"
  shows "keeps_alloc s s'"
proof (cases r)
  case (Inl e)
  then have "s' = s"
    using pages.pool_total [OF assms(1), of m t sz] assms(2) by (auto simp: allocate_pool_def)
  then show ?thesis
    using assms(1) by (simp add: keeps_alloc_refl)
next
  case (Inr p)
  then obtain n where "allocate_pages s AllocateAnyPages t n 0 = Some (s', SUCCESS, p - 16)"
    using pages.pool_success [OF assms(1)] assms(2) unfolding allocate_pool_def by blast
  then show ?thesis
    using assms(1) allocate_pages_keeps by blast
qed

lemma allocate_pool_total:
  assumes "alloc_inv s"
  shows "\<exists>s' m' r. allocate_pool s m t sz = Some (s', m', r)"
  using pages.pool_total [OF assms, of m t sz] unfolding allocate_pool_def by blast

lemma free_pool_keeps: "alloc_inv s \<Longrightarrow> keeps_alloc s (fst (free_pool s m p))"
  by (auto simp: free_pool_def free_pool_with_def Let_def keeps_alloc_refl free_pages_keeps')

lemma load_image_keeps:
  assumes inv: "alloc_inv s" and run: "load_image s m data = Some (s', m', r)"
  shows "keeps_alloc s s'"
proof -
  obtain r' where r': "parse_headers data = Some r'"
    using parse_headers_cases by blast
  show ?thesis
  proof (cases r')
    case (Inl e)
    then show ?thesis
      using r' run keeps_alloc_refl [OF inv] by (simp add: load_image_def load_image_with_def)
  next
    case (Inr lay)
    let ?n = "div_ceil (ucast (pe_image_size lay)) PAGE_SIZE"
    obtain s1 st a where a: "allocate_pages s AllocateAnyPages LoaderCode ?n 0 = Some (s1, st, a)"
      using pages.alloc_total [OF inv] by blast
    note k = allocate_pages_keeps [OF inv a]
    have "keeps_alloc s (fst (free_pages s1 a ?n))"
      by (rule keeps_alloc_trans [OF k free_pages_keeps' [OF keeps_alloc_inv [OF k]]])
    then show ?thesis
      using r' Inr a run k
      by (auto simp: load_image_def load_image_with_def Let_def split: if_splits prod.splits bool.splits sum.splits)
  qed
qed

lemma create_protocol_keeps:
  assumes "alloc_inv s" and "create_loaded_image_protocol r s m parent device base sz = Some (s', m', p)"
  shows "keeps_alloc s s'"
  using assms allocate_pool_keeps [OF assms(1)]
  by (auto simp: create_loaded_image_protocol_def allocate_protocol_def split: option.splits sum.splits)

lemma create_protocol_total:
  assumes "alloc_inv s"
  shows "\<exists>s' m' p. create_loaded_image_protocol r s m parent device base sz = Some (s', m', p)"
  using allocate_pool_total [OF assms, of m BootServicesData "of_nat (r_li_size r)"]
  by (auto simp: create_loaded_image_protocol_def allocate_protocol_def split: sum.split)

section \<open>The invariant\<close>

definition images_ok :: "handle_db \<Rightarrow> loaded_image_entry list \<Rightarrow> bool" where
  "images_ok db images \<longleftrightarrow> length images = MAX_LOADED_IMAGES \<and>
     (\<forall>i < length images. \<forall>j < length images. le_handle (images ! i) \<noteq> 0 \<longrightarrow>
        le_handle (images ! i) = le_handle (images ! j) \<longrightarrow> i = j) \<and>
     (\<forall>e \<in> set images. le_handle e = 0 \<or> le_handle e \<in> known_handles db)"

definition efi_inv :: "efi_state \<Rightarrow> bool" where
  "efi_inv st \<longleftrightarrow> alloc_inv (st_allocator st) \<and> hdb_inv (st_handles st) \<and> events_inv (st_events st) \<and>
     config_inv (st_config st) \<and> vars_inv (st_variables st) \<and> images_ok (st_handles st) (st_images st) \<and>
     (boot_services_exited (st_allocator st) \<longleftrightarrow> st_boot_services st = 0)"

text \<open>What a call may do to the rest of the system: handles stay valid, protected memory stays as it is.\<close>

definition efi_evolves :: "efi_state \<Rightarrow> efi_state \<Rightarrow> bool" where
  "efi_evolves st st' \<longleftrightarrow> efi_inv st' \<and>
     keeps_firm (alloc_map (st_allocator st)) (alloc_map (st_allocator st')) \<and>
     known_handles (st_handles st) \<subseteq> known_handles (st_handles st') \<and>
     (boot_services_exited (st_allocator st) \<longrightarrow> boot_services_exited (st_allocator st'))"

lemma efi_evolves_refl: "efi_inv st \<Longrightarrow> efi_evolves st st"
  by (simp add: efi_evolves_def)

lemma efi_evolves_trans: "efi_evolves st st' \<Longrightarrow> efi_evolves st' st'' \<Longrightarrow> efi_evolves st st''"
  by (auto simp: efi_evolves_def intro: keeps_firm_trans)

lemma images_ok_mono:
  "images_ok db images \<Longrightarrow> known_handles db \<subseteq> known_handles db' \<Longrightarrow> images_ok db' images"
  by (auto simp: images_ok_def)

lemma new_efi_state_inv:
  assumes "alloc_inv s" and "\<not> boot_services_exited s" and "bs \<noteq> 0"
  shows "efi_inv (new_efi_state s m bs)"
  using assms
  by (simp add: efi_inv_def new_efi_state_def new_handle_db_inv new_event_db_inv new_config_db_inv
      new_variables_inv images_ok_def empty_image_entry_def MAX_LOADED_IMAGES_def)

text \<open>The parts of the state change one at a time or two at a time.\<close>

lemma evolves_alloc:
  assumes "efi_inv st" and "keeps_alloc (st_allocator st) s'"
  shows "efi_evolves st (st\<lparr>st_allocator := s', st_memory := m'\<rparr>)" "efi_evolves st (st\<lparr>st_allocator := s'\<rparr>)"
  using assms by (simp_all add: efi_evolves_def efi_inv_def keeps_alloc_def)

lemma evolves_handles:
  assumes "efi_inv st" and "hdb_inv db'" and "known_handles (st_handles st) \<subseteq> known_handles db'"
  shows "efi_evolves st (st\<lparr>st_handles := db'\<rparr>)"
  using assms images_ok_mono [of "st_handles st" "st_images st" db'] by (simp add: efi_evolves_def efi_inv_def)

lemma evolves_images:
  assumes "efi_inv st" and "images_ok (st_handles st) images"
  shows "efi_evolves st (st\<lparr>st_images := images\<rparr>)"
  using assms by (simp add: efi_evolves_def efi_inv_def)

lemma store_image_ok:
  assumes ok: "images_ok db images" and "store_image images e = Some images'" and h: "le_handle e \<in> known_handles db"
    and fresh: "\<forall>x \<in> set images. le_handle x \<noteq> le_handle e" and "le_handle e \<noteq> 0"
  shows "images_ok db images'" and "find (\<lambda>x. le_handle x = le_handle e) images' = Some e"
proof -
  obtain i where i: "position (\<lambda>e. le_handle e = 0) images = Some i" and im: "images' = images[i := e]"
    using assms(2) by (auto simp: store_image_def split: option.splits)
  have il: "i < length images"
    using position_SomeD [OF i] by simp
  have nth: "le_handle (images' ! j) = le_handle e \<Longrightarrow> j < length images \<Longrightarrow> j = i" for j
    using fresh by (cases "j = i") (auto simp: im)
  show "images_ok db images'"
    unfolding images_ok_def
  proof (intro conjI allI impI)
    show "length images' = MAX_LOADED_IMAGES"
      using ok by (simp add: images_ok_def im)
    show "\<forall>e \<in> set images'. le_handle e = 0 \<or> le_handle e \<in> known_handles db"
      using ok h set_update_subset_insert [of images i e] by (auto simp: images_ok_def im)
    fix a b
    assume ab: "a < length images'" "b < length images'" "le_handle (images' ! a) \<noteq> 0"
      "le_handle (images' ! a) = le_handle (images' ! b)"
    have old: "a = b" if "a < length images" "b < length images" "le_handle (images ! a) \<noteq> 0"
        "le_handle (images ! a) = le_handle (images ! b)"
      using ok that unfolding images_ok_def by blast
    show "a = b"
    proof (cases "a = i \<or> b = i")
      case True
      have "le_handle (images' ! i) = le_handle e"
        using il by (simp add: im)
      then have "le_handle (images' ! a) = le_handle e" "le_handle (images' ! b) = le_handle e"
        using True ab(4) by auto
      moreover have "a < length images" "b < length images"
        using ab(1,2) by (simp_all add: im)
      ultimately show ?thesis
        using nth by blast
    next
      case False
      show ?thesis
        by (rule old) (use ab False in \<open>simp_all add: im\<close>)
    qed
  qed
  have mem: "e \<in> set images'"
    unfolding im using il by (rule set_update_memI)
  show "find (\<lambda>x. le_handle x = le_handle e) images' = Some e"
  proof (rule find_unique [OF mem])
    fix x
    assume "x \<in> set images'" "le_handle x = le_handle e"
    then show "x = e"
      using fresh set_update_subset_insert [of images i e] by (auto simp: im)
  qed simp
qed

lemma unload_images_ok:
  assumes "images_ok db images"
  shows "images_ok db (images[i := empty_image_entry])"
proof (cases "i < length images")
  case True
  have "j = k" if "j < length images" "k < length images" "le_handle (images[i := empty_image_entry] ! j) \<noteq> 0"
      "le_handle (images[i := empty_image_entry] ! j) = le_handle (images[i := empty_image_entry] ! k)" for j k
  proof -
    have "j \<noteq> i" "k \<noteq> i"
      using that True by (auto simp: empty_image_entry_def)
    then show ?thesis
      using assms that unfolding images_ok_def by (metis nth_list_update_neq)
  qed
  moreover have "\<forall>e \<in> set (images[i := empty_image_entry]). le_handle e = 0 \<or> le_handle e \<in> known_handles db"
    using assms set_update_subset_insert [of images i empty_image_entry]
    by (auto simp: images_ok_def empty_image_entry_def)
  ultimately show ?thesis
    using assms by (auto simp: images_ok_def)
next
  case False
  then have "images[i := empty_image_entry] = images"
    by (simp add: list_update_beyond)
  then show ?thesis
    using assms by (rule ssubst)
qed

section \<open>Registering an image\<close>

text \<open>Every early return of \<open>load_image\<close> unloads the image.\<close>

lemma evolves_unload:
  assumes "efi_evolves st0 st"
  shows "efi_evolves st0 (st\<lparr>st_allocator := fst (unload_image (st_allocator st) img)\<rparr>)"
proof -
  have "efi_inv st"
    using assms by (simp add: efi_evolves_def)
  then show ?thesis
    using assms free_pages_keeps' [of "st_allocator st"]
    by (intro efi_evolves_trans [OF assms] evolves_alloc(2)) (simp_all add: efi_inv_def unload_image_def)
qed

lemma register_image_cases:
  assumes inv: "efi_inv st"
  obtains (err) st' e where "register_image r st parent dp img = Some (st', Err e)" "efi_evolves st st'"
  | (ok) st' h s2 m2 p where "register_image r st parent dp img = Some (st', Ok h)" "efi_evolves st st'"
      "h \<noteq> 0" "h \<notin> known_handles (st_handles st)"
      "create_loaded_image_protocol r (st_allocator st) (st_memory st) parent
         (get_device_handle_from_parent r (st\<lparr>st_handles := fst (create_handle (st_handles st))\<rparr>) parent)
         (li_image_base img) (li_image_size img) = Some (s2, m2, p)" "p \<noteq> 0"
      "st_allocator st' = s2" "st_memory st' = (if dp \<noteq> 0 then set_file_path r m2 p dp else m2)"
      "hdb_lookup (st_handles st') = (hdb_lookup (st_handles st))((h, r_loaded_image_guid r) \<mapsto> p)"
      "find (\<lambda>e. le_handle e = h) (st_images st') = Some \<lparr>le_handle = h, le_image_base = li_image_base img,
         le_image_size = li_image_size img, le_entry_point = li_entry_point img,
         le_num_pages = li_num_pages img, le_parent_handle = parent\<rparr>"
      "known_handles (st_handles st') = insert h (known_handles (st_handles st))"
proof -
  have hinv: "hdb_inv (st_handles st)" and ainv: "alloc_inv (st_allocator st)"
    and iok: "images_ok (st_handles st) (st_images st)"
    using inv by (simp_all add: efi_inv_def)
  from hinv show thesis
  proof (cases rule: create_handle_cases [of "st_handles st"])
    case err_h: err
    then have "register_image r st parent dp img =
        Some (st\<lparr>st_allocator := fst (unload_image (st_allocator st) img)\<rparr>, Err OUT_OF_RESOURCES)"
      by (simp add: register_image_def)
    then show thesis
      using err evolves_unload [OF efi_evolves_refl [OF inv]] by blast
  next
    case h: (ok hdb h)
    let ?st1 = "st\<lparr>st_handles := hdb\<rparr>"
    let ?dev = "get_device_handle_from_parent r ?st1 parent"
    have ev1: "efi_evolves st ?st1"
      using evolves_handles [OF inv h(2)] h(5) by blast
    obtain s2 m2 p where c: "create_loaded_image_protocol r (st_allocator st) (st_memory st) parent ?dev
        (li_image_base img) (li_image_size img) = Some (s2, m2, p)"
      using create_protocol_total [OF ainv] by blast
    note k2 = create_protocol_keeps [OF ainv c]
    define m3 where "m3 = (if dp \<noteq> 0 then set_file_path r m2 p dp else m2)"
    have ev2: "efi_evolves st (?st1\<lparr>st_allocator := s2, st_memory := m\<rparr>)" for m
      using efi_evolves_trans [OF ev1 evolves_alloc(1)] ev1 k2 by (simp add: efi_evolves_def)
    show thesis
    proof (cases "p = 0")
      case True
      then have "register_image r st parent dp img = Some ((?st1\<lparr>st_allocator := s2, st_memory := m2\<rparr>)
          \<lparr>st_allocator := fst (unload_image s2 img)\<rparr>, Err OUT_OF_RESOURCES)"
        using h(1) c by (simp add: register_image_def Let_def)
      then show thesis
        using err evolves_unload [OF ev2, of m2 img] by simp
    next
      case p: False
      from h(2) show thesis
      proof (cases rule: install_protocol_cases [of hdb h "r_loaded_image_guid r" p])
        case e: (err status)
        let ?st2 = "?st1\<lparr>st_allocator := s2, st_memory := m3\<rparr>"
        have "register_image r st parent dp img =
            Some (?st2\<lparr>st_allocator := fst (unload_image s2 img)\<rparr>, Err status)"
          using h(1) c p e(1,2) by (simp add: register_image_def Let_def m3_def [symmetric])
        then show thesis
          using err evolves_unload [OF ev2, of m3 img] by simp
      next
        case i: (ok hdb')
        let ?st2 = "?st1\<lparr>st_allocator := s2, st_memory := m3, st_handles := hdb'\<rparr>"
        let ?e = "\<lparr>le_handle = h, le_image_base = li_image_base img,
         le_image_size = li_image_size img, le_entry_point = li_entry_point img,
         le_num_pages = li_num_pages img, le_parent_handle = parent\<rparr>"
        have ev3: "efi_evolves st ?st2"
        proof (rule efi_evolves_trans [OF ev2 [of m3]])
          show "efi_evolves (?st1\<lparr>st_allocator := s2, st_memory := m3\<rparr>) ?st2"
            using evolves_handles [of "?st1\<lparr>st_allocator := s2, st_memory := m3\<rparr>" hdb'] ev2 [of m3] i(2,3)
            by (simp add: efi_evolves_def)
        qed
        have run: "register_image r st parent dp img =
            (case store_image (st_images st) ?e of
               None \<Rightarrow> Some (?st2\<lparr>st_allocator := fst (unload_image s2 img)\<rparr>, Err OUT_OF_RESOURCES)
             | Some images \<Rightarrow> Some (?st2\<lparr>st_images := images\<rparr>, Ok h))"
          using h(1) c p i(1) by (simp add: register_image_def Let_def m3_def [symmetric] cong: option.case_cong)
        show thesis
        proof (cases "store_image (st_images st) ?e")
          case None
          then show thesis
            using run err evolves_unload [OF ev3, of img] by simp
        next
          case (Some images)
          have fresh: "\<forall>x \<in> set (st_images st). le_handle x \<noteq> le_handle ?e"
            using iok h(3,4) by (auto simp: images_ok_def)
          have "images_ok hdb' (st_images st)"
            using images_ok_mono [OF iok, of hdb'] h(5) i(3) by blast
          then have im: "images_ok hdb' images" "find (\<lambda>x. le_handle x = h) images = Some ?e"
            using store_image_ok [OF _ Some _ fresh] h(3,5) i(3) by auto
          have ev4: "efi_evolves st (?st2\<lparr>st_images := images\<rparr>)"
            using efi_evolves_trans [OF ev3 evolves_images] ev3 im(1) by (simp add: efi_evolves_def)
          show thesis
            by (rule ok [of "?st2\<lparr>st_images := images\<rparr>" h s2 m2 p])
              (use run Some ev4 h c p i im in \<open>simp_all add: m3_def\<close>)
        qed
      qed
    qed
  qed
qed

end
