(* ===== verification/Boot_Steps.thy ===== *)
theory Boot_Steps
  imports Boot_Correct Services_Props
begin

text \<open>
  The boot services together as a state machine: the calls, the reachable states, and that every call
  keeps the invariant and returns.
\<close>

section \<open>The calls\<close>

text \<open>
  The calls of the boot services table (and \<open>SetVariable\<close>) that change the state; the others only read
  it. \<open>exec\<close> is \<^const>\<open>None\<close> when a call panics or does not return.
\<close>

datatype service_call =
    AllocatePages u32 u32 usize "u64 option"
  | FreePages u64 usize
  | AllocatePool u32 usize bool
  | FreePool u64
  | CreateEvent u32 usize bool
  | SignalEvent usize
  | CloseEvent usize
  | InstallProtocolInterface "u64 option" "guid option" bool u64
  | InstallMultipleProtocolInterfaces "u64 option" "(guid option \<times> u64) list"
  | UninstallMultipleProtocolInterfaces u64 "(guid option \<times> u64) list"
  | LocateHandleBuffer bool "guid option" bool
  | InstallConfigurationTable "guid option" u64
  | LoadImage u64 u64 "u8 list option" bool
  | UnloadImage u64
  | CopyMem u64 u64 usize
  | SetMem u64 usize u8
  | SetVariable "ucs2_ptr option" "guid option" u32 nat "(nat \<Rightarrow> u8) option"
  | ExitBootServices usize

fun exec :: "r_efi \<Rightarrow> efi_state \<Rightarrow> service_call \<Rightarrow> efi_state option" where
  "exec r st (AllocatePages ty t n p) = map_option fst (bs_allocate_pages st ty t n p)"
| "exec r st (FreePages a n) = Some (fst (bs_free_pages st a n))"
| "exec r st (AllocatePool t sz out) = map_option fst (bs_allocate_pool st t sz out)"
| "exec r st (FreePool p) = Some (fst (bs_free_pool st p))"
| "exec r st (CreateEvent ty tpl out) = Some (st\<lparr>st_events := fst (create_event (st_events st) ty tpl out)\<rparr>)"
| "exec r st (SignalEvent e) = Some (st\<lparr>st_events := fst (signal_event (st_events st) e)\<rparr>)"
| "exec r st (CloseEvent e) = Some (st\<lparr>st_events := fst (close_event (st_events st) e)\<rparr>)"
| "exec r st (InstallProtocolInterface h g native i) =
     Some (st\<lparr>st_handles := fst (install_protocol_interface (st_handles st) h g native i)\<rparr>)"
| "exec r st (InstallMultipleProtocolInterfaces h args) =
     Some (st\<lparr>st_handles := fst (install_multiple_protocol_interfaces (st_handles st) h args)\<rparr>)"
| "exec r st (UninstallMultipleProtocolInterfaces h args) =
     Some (st\<lparr>st_handles := fst (uninstall_multiple_protocol_interfaces (st_handles st) h args)\<rparr>)"
| "exec r st (LocateHandleBuffer by_protocol g out) = map_option fst (locate_handle_buffer st by_protocol g out)"
| "exec r st (InstallConfigurationTable g table) =
     Some (st\<lparr>st_config := fst (bs_install_configuration_table (st_config st) g table)\<rparr>)"
| "exec r st (LoadImage parent dp src out) = map_option fst (bs_load_image r st parent dp src out)"
| "exec r st (UnloadImage h) = Some (fst (bs_unload_image st h))"
| "exec r st (CopyMem dst src n) = Some (copy_mem st dst src n)"
| "exec r st (SetMem p n v) = Some (set_mem st p n v)"
| "exec r st (SetVariable name g attr n data) =
     map_option (\<lambda>(vs, _). st\<lparr>st_variables := vs\<rparr>)
       (set_variable (st_variables st) name g attr n (map_option (\<lambda>f. map f [0..<n]) data))"
| "exec r st (ExitBootServices key) = Some (fst (bs_exit_boot_services st key))"

text \<open>An application runs between the calls and may write any memory.\<close>

inductive efi_reachable :: "r_efi \<Rightarrow> efi_state \<Rightarrow> efi_state \<Rightarrow> bool" for r st0 where
  boot: "efi_reachable r st0 st0"
| call: "efi_reachable r st0 st \<Longrightarrow> exec r st c = Some st' \<Longrightarrow> efi_reachable r st0 st'"
| app: "efi_reachable r st0 st \<Longrightarrow> efi_reachable r st0 (st\<lparr>st_memory := m\<rparr>)"

section \<open>Every call keeps the invariant\<close>

lemma evolves_memory: "efi_inv st \<Longrightarrow> efi_evolves st (st\<lparr>st_memory := m\<rparr>)"
  by (simp add: efi_evolves_def efi_inv_def)

lemma evolves_events: "efi_inv st \<Longrightarrow> events_inv db \<Longrightarrow> efi_evolves st (st\<lparr>st_events := db\<rparr>)"
  by (simp add: efi_evolves_def efi_inv_def)

lemma evolves_config: "efi_inv st \<Longrightarrow> config_inv db \<Longrightarrow> efi_evolves st (st\<lparr>st_config := db\<rparr>)"
  by (simp add: efi_evolves_def efi_inv_def)

lemma evolves_variables: "efi_inv st \<Longrightarrow> vars_inv vs \<Longrightarrow> efi_evolves st (st\<lparr>st_variables := vs\<rparr>)"
  by (simp add: efi_evolves_def efi_inv_def)

lemma inv_parts:
  assumes "efi_inv st"
  shows "alloc_inv (st_allocator st)" "hdb_inv (st_handles st)" "events_inv (st_events st)"
    "config_inv (st_config st)" "vars_inv (st_variables st)" "images_ok (st_handles st) (st_images st)"
  using assms by (simp_all add: efi_inv_def)

lemma locate_buffer_evolves:
  assumes inv: "efi_inv st" and run: "locate_handle_buffer st by_protocol g out = Some (st', status, res)"
  shows "efi_evolves st st'"
proof -
  let ?sz = "the (fst (snd (locate_handle (st_handles st) by_protocol g (Some 0) False)))"
  obtain s' m' p where a: "allocate_pool (st_allocator st) (st_memory st) BootServicesData (of_nat ?sz) = Some (s', m', p)"
    using allocate_pool_total [OF inv_parts(1) [OF inv]] by blast
  note k = allocate_pool_keeps [OF inv_parts(1) [OF inv] a]
  have k2: "keeps_alloc (st_allocator st) (fst (free_pool s' m' q))" for q
    by (rule keeps_alloc_trans [OF k free_pool_keeps [OF keeps_alloc_inv [OF k]]])
  have "st' = st \<or> (\<exists>m. st' = st\<lparr>st_allocator := s', st_memory := m\<rparr>) \<or>
      (\<exists>m q. st' = st\<lparr>st_allocator := fst (free_pool s' m' q), st_memory := m\<rparr>)"
    using run a
    by (auto simp: locate_handle_buffer_def Let_def split: if_splits prod.splits sum.splits)
  then show ?thesis
    using evolves_alloc(1) [OF inv k] evolves_alloc(1) [OF inv k2] efi_evolves_refl [OF inv] by blast
qed

lemma load_evolves:
  assumes inv: "efi_inv st" and run: "bs_load_image r st parent dp src out = Some (st', res)"
  shows "efi_evolves st st'"
proof (cases "\<exists>data. src = Some data \<and> data \<noteq> [] \<and> out")
  case False
  then have "st' = st"
    using run by (auto simp: bs_load_image_def split: if_splits option.splits)
  then show ?thesis
    using efi_evolves_refl [OF inv] by simp
next
  case True
  then obtain data where d: "src = Some data" "data \<noteq> []" "out"
    by blast
  obtain s1 m1 q where l: "load_image (st_allocator st) (st_memory st) data = Some (s1, m1, q)"
    using run d by (auto simp: bs_load_image_def split: option.splits)
  let ?st1 = "st\<lparr>st_allocator := s1, st_memory := m1\<rparr>"
  have ev: "efi_evolves st ?st1"
    using evolves_alloc(1) [OF inv load_image_keeps [OF inv_parts(1) [OF inv] l]] .
  then have inv1: "efi_inv ?st1"
    by (simp add: efi_evolves_def)
  show ?thesis
  proof (cases q)
    case (Inl e)
    then show ?thesis
      using run d l ev by (simp add: bs_load_image_def)
  next
    case (Inr img)
    then have "register_image r ?st1 parent dp img = Some (st', res)"
      using run d l by (simp add: bs_load_image_def)
    then have "efi_evolves ?st1 st'"
      by (cases rule: register_image_cases [OF inv1, of r parent dp img]) auto
    then show ?thesis
      by (rule efi_evolves_trans [OF ev])
  qed
qed

lemma install_interface_effect:
  assumes "hdb_inv db"
  shows "hdb_inv (fst (install_protocol_interface db h g native i)) \<and>
    known_handles db \<subseteq> known_handles (fst (install_protocol_interface db h g native i))"
proof (cases h)
  case None
  then show ?thesis
    using assms by (simp add: install_protocol_interface_def)
next
  case (Some k)
  show ?thesis
  proof (cases "g = None \<or> \<not> native")
    case True
    then show ?thesis
      using assms Some by (auto simp: install_protocol_interface_def split: option.splits)
  next
    case False
    then obtain g' where g: "g = Some g'" and native
      by auto
    show ?thesis
    proof (cases "k = 0")
      case True
      show ?thesis
      proof (cases "length (handles db) < MAX_HANDLES")
        case room: True
        then show ?thesis
          using install_new_handle [OF assms room, of g' i] True Some g \<open>native\<close> by auto
      next
        case False
        then show ?thesis
          using assms True Some g \<open>native\<close> by (simp add: install_protocol_interface_def)
      qed
    next
      case False
      then show ?thesis
        using Some g \<open>native\<close> assms install_protocol_interface_eq [OF False, of db g' i]
        by (cases rule: install_protocol_cases [OF assms, of k g' i]) auto
    qed
  qed
qed

lemma install_multiple_effect:
  assumes "hdb_inv db"
  shows "hdb_inv (fst (install_multiple_protocol_interfaces db h args)) \<and>
    known_handles db \<subseteq> known_handles (fst (install_multiple_protocol_interfaces db h args))"
proof -
  have ip: "hdb_inv (fst (install_pairs d k ps)) \<and> known_handles (fst (install_pairs d k ps)) = known_handles d"
    if "hdb_inv d" for d k ps
    using install_pairs_effect [OF that prod.collapse [symmetric], of k ps] by simp
  obtain db' h' where c: "create_handle db = (db', h')"
    by fastforce
  have "hdb_inv db' \<and> known_handles db \<subseteq> known_handles db'"
    using assms c by (cases rule: create_handle_cases [OF assms]) auto
  then show ?thesis
    using assms c ip [of db' _ "valid_pairs args"] ip [OF assms, of _ "valid_pairs args"]
    by (auto simp: install_multiple_protocol_interfaces_def Let_def split_def split: option.split)
qed

lemma uninstall_multiple_effect:
  assumes "hdb_inv db"
  shows "hdb_inv (fst (uninstall_multiple_protocol_interfaces db h args)) \<and>
    known_handles db \<subseteq> known_handles (fst (uninstall_multiple_protocol_interfaces db h args))"
proof -
  have "hdb_inv (foldl (\<lambda>db (g, _). uninstall_protocol db h g) d ps) \<and>
      known_handles (foldl (\<lambda>db (g, _). uninstall_protocol db h g) d ps) = known_handles d"
    if "hdb_inv d" for d and ps :: "(guid \<times> u64) list"
    using that by (induction ps arbitrary: d) (auto simp: uninstall_protocol_effect)
  then show ?thesis
    using assms by (simp add: uninstall_multiple_protocol_interfaces_def)
qed

lemma config_service_inv: "config_inv db \<Longrightarrow> config_inv (fst (bs_install_configuration_table db g table))"
proof -
  assume inv: "config_inv db"
  have "config_inv (fst (install_configuration_table db k table))" for k
  proof (cases "config_lookup db k = None")
    case True
    then show ?thesis
      using install_new [OF inv True, of table] install_refused [OF True, of table] inv
      by (cases "table = 0"; cases "length (config_tables db) < MAX_CONFIG_TABLES") auto
  next
    case False
    then show ?thesis
      using install_existing [OF inv False, of table] by auto
  qed
  then show ?thesis
    using inv by (simp add: bs_install_configuration_table_def split: option.split)
qed

lemma ucs2_strlen_from_SomeD:
  "ucs2_strlen_from name i = Some n \<Longrightarrow> i \<le> n \<and> name n = 0 \<and> (\<forall>k. i \<le> k \<and> k < n \<longrightarrow> name k \<noteq> 0)"
proof (erule ucs2_strlen_from.raw_induct [rotated])
  fix w name i n
  assume ih: "\<And>name i n. w name i = Some n \<Longrightarrow> i \<le> n \<and> name n = 0 \<and> (\<forall>k. i \<le> k \<and> k < n \<longrightarrow> name k \<noteq> 0)"
    and run: "(if name i \<noteq> 0 then w name (Suc i) else Some i) = Some n"
  show "i \<le> n \<and> name n = 0 \<and> (\<forall>k. i \<le> k \<and> k < n \<longrightarrow> name k \<noteq> 0)"
  proof (cases "name i = 0")
    case True
    then show ?thesis
      using run by auto
  next
    case False
    then have "Suc i \<le> n \<and> name n = 0 \<and> (\<forall>k. Suc i \<le> k \<and> k < n \<longrightarrow> name k \<noteq> 0)"
      using run ih [of name "Suc i" n] by simp
    moreover have "name k \<noteq> 0" if "i \<le> k" "k < n" for k
      using False calculation that by (cases "k = i") auto
    ultimately show ?thesis
      by auto
  qed
qed

lemma strlen_is_ucs2:
  assumes "ucs2_strlen_ptr name = Some n"
  obtains s where "is_ucs2 name s" "length s = n"
proof
  show "is_ucs2 name (map name [0..<n])"
    using ucs2_strlen_from_SomeD [of name 0 n] assms by (auto simp: ucs2_strlen_ptr_def is_ucs2_def)
qed simp

lemma set_variable_inv:
  assumes inv: "vars_inv vs"
    and run: "set_variable vs name g attr n (map_option (\<lambda>f. map f [0..<n]) data) = Some (vs', st)"
  shows "vars_inv vs'"
proof (cases "\<exists>nm gd. name = Some nm \<and> g = Some gd")
  case False
  then show ?thesis
    using run inv by (auto simp: set_variable_def split: option.splits)
next
  case True
  then obtain nm gd where nm: "name = Some nm" "g = Some gd"
    by blast
  obtain len where "ucs2_strlen_ptr nm = Some len"
    using run nm by (auto simp: set_variable_def split: option.splits)
  then obtain s where s: "is_ucs2 nm s" "length s = len"
    by (rule strlen_is_ucs2)
  show ?thesis
  proof (cases "0 < length s \<and> length s < MAX_VARIABLE_NAME_LEN \<and> n \<le> MAX_VARIABLE_DATA_SIZE \<and> (n = 0 \<or> data \<noteq> None)")
    case False
    then have "vs' = vs"
      using run nm ucs2_strlen_ptr_eq [OF s(1)] by (auto simp: set_variable_def split: if_splits)
    then show ?thesis
      using inv by simp
  next
    case ok: True
    let ?bytes = "case data of None \<Rightarrow> [] | Some f \<Rightarrow> map f [0..<n]"
    have len: "length ?bytes = n"
      using ok by (auto split: option.split)
    have "set_variable vs name g attr n (map_option (\<lambda>f. map f [0..<n]) data) =
        set_variable vs (Some nm) (Some gd) attr (length ?bytes) (Some ?bytes)"
    proof (cases data)
      case None
      then have "n = 0"
        using ok by simp
      then show ?thesis
        using nm None ucs2_strlen_ptr_eq [OF s(1)] by (simp add: set_variable_def)
    qed (use nm in simp)
    then have "set_variable vs (Some nm) (Some gd) attr (length ?bytes) (Some ?bytes) = Some (vs', st)"
      using run by simp
    then show ?thesis
      using set_variable_effect [OF inv s(1), of ?bytes gd attr] ok len by auto
  qed
qed

lemma unload_evolves:
  assumes inv: "efi_inv st"
  shows "efi_evolves st (fst (bs_unload_image st h))"
proof -
  have "efi_evolves st (st\<lparr>st_images := (st_images st)[i := empty_image_entry],
      st_allocator := fst (free_pages (st_allocator st) a n)\<rparr>)" for i a n
  proof -
    have ev: "efi_evolves st (st\<lparr>st_images := (st_images st)[i := empty_image_entry]\<rparr>)"
      by (rule evolves_images [OF inv unload_images_ok [OF inv_parts(6) [OF inv]]])
    then have "efi_evolves (st\<lparr>st_images := (st_images st)[i := empty_image_entry]\<rparr>)
        (st\<lparr>st_images := (st_images st)[i := empty_image_entry],
          st_allocator := fst (free_pages (st_allocator st) a n)\<rparr>)"
      using evolves_alloc(2) [of "st\<lparr>st_images := (st_images st)[i := empty_image_entry]\<rparr>"]
        free_pages_keeps' [OF inv_parts(1) [OF inv]] by (simp add: efi_evolves_def)
    then show ?thesis
      by (rule efi_evolves_trans [OF ev])
  qed
  then show ?thesis
    using efi_evolves_refl [OF inv] by (simp add: bs_unload_image_def Let_def split: option.split)
qed

lemma exit_evolves:
  assumes inv: "efi_inv st"
  shows "efi_evolves st (fst (bs_exit_boot_services st key))"
proof (cases "key = map_key (st_allocator st)")
  case True
  have "alloc_step (st_allocator st) (fst (exit_boot_services (st_allocator st) key))"
    by (rule step_exit [OF prod.collapse [symmetric]])
  note sound = alloc_step_sound [OF this inv_parts(1) [OF inv]]
  show ?thesis
    using sound True inv
    by (auto simp: efi_evolves_def efi_inv_def bs_exit_boot_services_def exit_boot_services_def Let_def
        clear_boot_services_def)
next
  case False
  then show ?thesis
    using efi_evolves_refl [OF inv] by (simp add: bs_exit_boot_services_def exit_boot_services_def Let_def)
qed

lemma exec_evolves:
  assumes inv: "efi_inv st" and run: "exec r st c = Some st'"
  shows "efi_evolves st st'"
proof (cases c)
  case (AllocatePages ty t n p)
  have "efi_evolves st st1" if "bs_allocate_pages st ty t n p = Some (st1, status, a)" for st1 status a
    using that evolves_alloc(2) [OF inv allocate_pages_keeps [OF inv_parts(1) [OF inv]]] efi_evolves_refl [OF inv]
    by (auto simp: bs_allocate_pages_def split: option.splits)
  then show ?thesis
    using run AllocatePages by auto
next
  case (FreePages a n)
  then show ?thesis
    using run evolves_alloc(2) [OF inv free_pages_keeps' [OF inv_parts(1) [OF inv], of a n]]
    by (auto simp: bs_free_pages_def split_def)
next
  case (AllocatePool t sz out)
  have "efi_evolves st st1" if "bs_allocate_pool st t sz out = Some (st1, q)" for st1 q
    using that evolves_alloc(1) [OF inv allocate_pool_keeps [OF inv_parts(1) [OF inv]]] efi_evolves_refl [OF inv]
    by (auto simp: bs_allocate_pool_def split: option.splits if_splits)
  then show ?thesis
    using run AllocatePool by auto
next
  case (FreePool p)
  then show ?thesis
    using run efi_evolves_refl [OF inv]
      evolves_alloc(2) [OF inv free_pool_keeps [OF inv_parts(1) [OF inv], of "st_memory st" p]]
    by (auto simp: bs_free_pool_def split_def split: if_splits)
next
  case (InstallProtocolInterface h g native i)
  then show ?thesis
    using run evolves_handles [OF inv] install_interface_effect [OF inv_parts(2) [OF inv], of h g native i] by auto
next
  case (InstallMultipleProtocolInterfaces h args)
  then show ?thesis
    using run evolves_handles [OF inv] install_multiple_effect [OF inv_parts(2) [OF inv], of h args] by auto
next
  case (UninstallMultipleProtocolInterfaces h args)
  then show ?thesis
    using run evolves_handles [OF inv] uninstall_multiple_effect [OF inv_parts(2) [OF inv], of h args] by auto
next
  case (LocateHandleBuffer by_protocol g out)
  then show ?thesis
    using run locate_buffer_evolves [OF inv] by auto
next
  case (LoadImage parent dp src out)
  then show ?thesis
    using run load_evolves [OF inv] by auto
next
  case (SetVariable name g attr n data)
  then show ?thesis
    using run evolves_variables [OF inv set_variable_inv [OF inv_parts(5) [OF inv]]] by auto
qed (use run inv_parts [OF inv] in \<open>auto simp: copy_mem_def set_mem_def efi_evolves_refl inv evolves_memory
    evolves_events evolves_config create_event_inv signal_event_inv close_event_inv config_service_inv
    unload_evolves exit_evolves\<close>)

lemma terminated_is_ucs2:
  assumes "name i = 0"
  obtains s where "is_ucs2 name s"
proof -
  define n where "n = (LEAST i. name i = 0)"
  have "name n = 0" "\<forall>k < n. name k \<noteq> 0"
    unfolding n_def by (auto intro: LeastI [of "\<lambda>i. name i = 0", OF assms] dest: not_less_Least)
  then have "is_ucs2 name (map name [0..<n])"
    by (auto simp: is_ucs2_def)
  then show thesis
    by (rule that)
qed

lemma set_variable_total:
  assumes "\<And>nm. name = Some nm \<Longrightarrow> \<exists>i. nm i = 0"
  shows "set_variable vs name g attr n data \<noteq> None"
proof (cases name)
  case None
  then show ?thesis
    by (simp add: set_variable_def)
next
  case (Some nm)
  then obtain s where "is_ucs2 nm s"
    using assms terminated_is_ucs2 by blast
  then show ?thesis
    using Some ucs2_strlen_ptr_eq by (auto simp: set_variable_def Let_def split: option.splits)
qed

lemma load_total_service:
  assumes inv: "efi_inv st"
  shows "\<exists>st' q. bs_load_image r st parent dp src out = Some (st', q)"
proof (cases "\<exists>data. src = Some data \<and> data \<noteq> [] \<and> out")
  case False
  then show ?thesis
    by (auto simp: bs_load_image_def split: option.splits)
next
  case True
  then obtain data where d: "src = Some data" "data \<noteq> []" "out"
    by blast
  obtain s1 m1 q where l: "load_image (st_allocator st) (st_memory st) data = Some (s1, m1, q)"
    using pages.load_total [OF inv_parts(1) [OF inv]] unfolding load_image_def by blast
  have inv1: "efi_inv (st\<lparr>st_allocator := s1, st_memory := m1\<rparr>)"
    using evolves_alloc(1) [OF inv load_image_keeps [OF inv_parts(1) [OF inv] l]] by (simp add: efi_evolves_def)
  show ?thesis
  proof (cases q)
    case (Inl e)
    then show ?thesis
      using d l by (simp add: bs_load_image_def)
  next
    case (Inr img)
    then have "bs_load_image r st parent dp src out =
        register_image r (st\<lparr>st_allocator := s1, st_memory := m1\<rparr>) parent dp img"
      using d l by (simp add: bs_load_image_def)
    then show ?thesis
      by (cases rule: register_image_cases [OF inv1, of r parent dp img]) auto
  qed
qed

lemma exec_total:
  assumes inv: "efi_inv st" and trm: "\<And>name g attr n data. c = SetVariable (Some name) g attr n data \<Longrightarrow> \<exists>i. name i = 0"
  shows "\<exists>st'. exec r st c = Some st'"
proof (cases c)
  case (AllocatePages ty t n p)
  have "\<exists>s' e a'. allocate_pages (st_allocator st) ty' t' n a = Some (s', e, a')" for ty' t' a
    by (cases rule: allocate_pages_cases [OF inv_parts(1) [OF inv], of ty' t' n a]) auto
  then have "bs_allocate_pages st ty t n p \<noteq> None"
    by (simp add: bs_allocate_pages_def split: option.split) (metis option.distinct(1))
  then show ?thesis
    using AllocatePages by auto
next
  case (AllocatePool t sz out)
  have "bs_allocate_pool st t sz out \<noteq> None"
    using allocate_pool_total [OF inv_parts(1) [OF inv], of "st_memory st"]
    by (simp add: bs_allocate_pool_def split: option.split) (metis option.distinct(1))
  then show ?thesis
    using AllocatePool by auto
next
  case (LocateHandleBuffer by_protocol g out)
  have "locate_handle_buffer st by_protocol g out \<noteq> None"
    using allocate_pool_total [OF inv_parts(1) [OF inv], of "st_memory st" BootServicesData]
    by (simp add: locate_handle_buffer_def Let_def split: prod.split option.split sum.split) (metis option.distinct(1))
  then show ?thesis
    using LocateHandleBuffer by auto
next
  case (LoadImage parent dp src out)
  then show ?thesis
    using load_total_service [OF inv, of r parent dp src out] by auto
next
  case (SetVariable name g attr n data)
  then show ?thesis
    using set_variable_total [of name "st_variables st" g attr n] trm by auto
qed auto

lemma efi_reachable_evolves:
  assumes "efi_reachable r st0 st" and "efi_inv st0"
  shows "efi_evolves st0 st"
  using assms
proof (induction rule: efi_reachable.induct)
  case boot
  then show ?case by (rule efi_evolves_refl)
next
  case (call st c st')
  then have ev: "efi_evolves st0 st"
    by blast
  then have "efi_inv st"
    by (simp add: efi_evolves_def)
  then show ?case
    by (rule efi_evolves_trans [OF ev exec_evolves [OF _ call.hyps(2)]])
next
  case (app st m)
  then have ev: "efi_evolves st0 st"
    by blast
  then have "efi_inv st"
    by (simp add: efi_evolves_def)
  then show ?case
    by (rule efi_evolves_trans [OF ev evolves_memory])
qed

end
