(* ===== verification/Boot_Props.thy ===== *)
theory Boot_Props
  imports Boot_Steps Pe_Props
begin

text \<open>
  The properties of the boot services as a whole, with a small machine for the witnesses.
\<close>

section \<open>What is relied on outside the sources\<close>

definition r_efi_ok :: "r_efi \<Rightarrow> bool" where
  "r_efi_ok r \<longleftrightarrow> (\<forall>p. length (r_li_encode r p) = r_li_size r) \<and> 0 < r_li_size r \<and> r_li_size r < 2 ^ 32 \<and>
     r_li_file_path r + 8 \<le> r_li_size r \<and> r_li_device_handle r + 8 \<le> r_li_size r"

text \<open>The layout of the loaded-image structure on x86-64.\<close>

definition encode_loaded_image :: "loaded_image_protocol \<Rightarrow> u8 list" where
  "encode_loaded_image p =
     le_bytes 8 (unat (lip_revision p)) @ le_bytes 8 (unat (lip_parent_handle p)) @
     le_bytes 8 (unat (lip_system_table p)) @ le_bytes 8 (unat (lip_device_handle p)) @
     le_bytes 8 (unat (lip_file_path p)) @ le_bytes 8 0 @ le_bytes 8 (unat (lip_load_options_size p)) @
     le_bytes 8 (unat (lip_load_options p)) @ le_bytes 8 (unat (lip_image_base p)) @
     le_bytes 8 (unat (lip_image_size p)) @ le_bytes 4 (unat (lip_image_code_type p)) @
     le_bytes 4 (unat (lip_image_data_type p)) @ le_bytes 8 (unat (lip_unload p))"

definition x64_efi :: r_efi where
  "x64_efi = \<lparr>r_loaded_image_guid = sample_guid,
     r_device_path_guid = Guid 0x09576E91 0x6D3F 0x11D2 0x8E 0x39 [0, 0xA0, 0xC9, 0x69, 0x72, 0x3B],
     r_li_revision = 0x1000, r_li_size = 96, r_li_encode = encode_loaded_image,
     r_li_device_handle = 24, r_li_file_path = 32, r_li_unload = 0x200000, r_system_table = 0x300000\<rparr>"

lemma x64_efi_ok: "r_efi_ok x64_efi"
  by (simp add: r_efi_ok_def x64_efi_def encode_loaded_image_def)

definition sample_state :: efi_state where
  "sample_state = new_efi_state sample_allocator (\<lambda>_. 0) 0x400000"

lemma sample_state_inv: "efi_inv sample_state"
  unfolding sample_state_def
  by (rule new_efi_state_inv [OF sample_inv]) (simp_all add: sample_allocator_eq)

section \<open>Writes into a pool allocation\<close>

lemma set_file_path_same_outside:
  assumes "r_efi_ok r"
  shows "same_outside p (r_li_size r) m (set_file_path r m p dp)"
  using assms by (auto simp: set_file_path_def r_efi_ok_def intro: write_u64_same_outside)

lemma protocol_pages:
  assumes r: "r_efi_ok r" and inv: "alloc_inv s"
    and run: "create_loaded_image_protocol r s m parent device base sz = Some (s', m', p)" and p: "p \<noteq> 0"
  obtains n where "unat p - 16 + 4096 * unat n < 2 ^ 64" "16 \<le> unat p" "16 + r_li_size r \<le> 4096 * unat n"
    "allocate_pages s AllocateAnyPages BootServicesData n 0 = Some (s', SUCCESS, p - 16)"
    "\<forall>a \<in> page_range (p - 16) n. \<exists>attr. alloc_map s a = Some (as_u32 ConventionalMemory, attr)"
    "same_outside (p - 16) (16 + r_li_size r) m m'"
    "read_bytes m' p (r_li_size r) = r_li_encode r \<lparr>lip_revision = r_li_revision r, lip_parent_handle = parent,
          lip_system_table = r_system_table r, lip_device_handle = device, lip_file_path = 0,
          lip_load_options_size = 0, lip_load_options = 0, lip_image_base = base,
          lip_image_size = sz, lip_image_code_type = as_u32 LoaderCode,
          lip_image_data_type = as_u32 LoaderData, lip_unload = r_li_unload r\<rparr>"
proof -
  let ?bytes = "r_li_encode r \<lparr>lip_revision = r_li_revision r, lip_parent_handle = parent,
          lip_system_table = r_system_table r, lip_device_handle = device, lip_file_path = 0,
          lip_load_options_size = 0, lip_load_options = 0, lip_image_base = base,
          lip_image_size = sz, lip_image_code_type = as_u32 LoaderCode,
          lip_image_data_type = as_u32 LoaderData, lip_unload = r_li_unload r\<rparr>"
  obtain m1 where al: "allocate_pool s m BootServicesData (of_nat (r_li_size r)) = Some (s', m1, Ok p)"
    and m': "m' = write_bytes (write_bytes m1 p (replicate (r_li_size r) 0)) p ?bytes"
    using run p by (auto simp: create_loaded_image_protocol_def allocate_protocol_def split: option.splits sum.splits)
  obtain n where n: "pool_pages (of_nat (r_li_size r)) = Some n"
    and a: "allocate_pages s AllocateAnyPages BootServicesData n 0 = Some (s', SUCCESS, p - 16)"
    and m1: "m1 = write_pool_header m (p - 16) n"
    using pages.pool_success [OF inv al [unfolded allocate_pool_def]] .
  have sz: "unat (of_nat (r_li_size r) :: u64) = r_li_size r" "length ?bytes = r_li_size r"
    using r by (simp_all add: r_efi_ok_def unat_of_nat)
  have fit: "16 + r_li_size r \<le> 4096 * unat n"
    using pool_pages_SomeD(2) [OF n] sz by (simp add: POOL_HEADER_SIZE_def)
  note rg = pages.alloc_range [OF inv a]
  have "unat (p - 16 + 16) = unat (p - 16) + 16"
    using rg fit by (subst unat_plus_less) auto
  then have up: "unat p = unat (p - 16) + 16"
    by simp
  have o1: "same_outside (p - 16) (16 + r_li_size r) m m1"
    unfolding m1 same_outside_def by (simp add: write_pool_header_outside POOL_HEADER_SIZE_def)
  have w: "same_outside (p - 16) (16 + r_li_size r) x (write_bytes x p bs)" if "length bs = r_li_size r" for x bs
    using write_bytes_same_outside [of 16 bs "16 + r_li_size r" "p - 16" x] that r by (simp add: r_efi_ok_def)
  have out: "same_outside (p - 16) (16 + r_li_size r) m m'"
    unfolding m' by (rule same_outside_trans [OF o1 same_outside_trans [OF w w]]) (simp_all add: sz(2))
  have "length ?bytes \<le> 2 ^ 64"
    unfolding sz(2) using r by (simp add: r_efi_ok_def)
  then have "read_bytes m' p (length ?bytes) = ?bytes"
    unfolding m' by (rule read_write_same)
  then have rd: "read_bytes m' p (r_li_size r) = ?bytes"
    unfolding sz(2) .
  show thesis
    by (rule that [OF _ _ fit a _ out rd]) (use rg up in simp_all)
qed

text \<open>Memory that was not free before is not touched.\<close>

lemma outside_pages:
  assumes "unat b + 4096 * unat n < 2 ^ 64" and "k \<le> 4096 * unat n"
    and "\<forall>a \<in> page_range b n. \<exists>attr. v a = Some (as_u32 ConventionalMemory, attr)"
    and "\<forall>attr. v x \<noteq> Some (as_u32 ConventionalMemory, attr)" and "same_outside b k m m'"
  shows "m' x = m x"
proof -
  have "x \<notin> page_range b n"
    using assms(3,4) by blast
  then have "k \<le> unat (x - b)"
  proof (rule contrapos_np)
    assume "\<not> k \<le> unat (x - b)"
    then have lt: "unat (x - b) < 4096 * unat n"
      using assms(2) by simp
    have "unat (b + (x - b)) = unat b + unat (x - b)"
      using lt assms(1) by (intro unat_plus_less) simp
    then show "x \<in> page_range b n"
      using lt by (simp add: page_range_def)
  qed
  then show ?thesis
    using assms(5) by (simp add: same_outside_def)
qed

section \<open>Properties\<close>

text \<open>C15: safety of the boot services in any order. From a state that satisfies the invariant every
  sequence of calls, interleaved with arbitrary writes of the application to memory, leads to a state that
  satisfies it; the next call returns without panic (provided a variable name passed to it is terminated);
  no handle is lost, the memory of the firmware, of runtime services and of ACPI keeps its type, and an
  exit from boot services is final.\<close>

theorem boot_services_safe:
  assumes "efi_inv st0" and "efi_reachable r st0 st"
  shows "efi_inv st \<and> known_handles (st_handles st0) \<subseteq> known_handles (st_handles st) \<and>
    keeps_firm (alloc_map (st_allocator st0)) (alloc_map (st_allocator st)) \<and>
    (st_boot_services st0 = 0 \<longrightarrow> st_boot_services st = 0) \<and>
    (\<forall>c. (\<forall>name g attr n data. c = SetVariable (Some name) g attr n data \<longrightarrow> (\<exists>i. name i = 0)) \<longrightarrow>
       (\<exists>st'. exec r st c = Some st' \<and> efi_inv st'))"
proof -
  have ev: "efi_evolves st0 st"
    by (rule efi_reachable_evolves [OF assms(2,1)])
  have inv: "efi_inv st"
    using ev by (simp add: efi_evolves_def)
  have "\<exists>st'. exec r st c = Some st' \<and> efi_inv st'"
    if "\<forall>name g attr n data. c = SetVariable (Some name) g attr n data \<longrightarrow> (\<exists>i. name i = 0)" for c
  proof -
    obtain st' where e: "exec r st c = Some st'"
      using exec_total [OF inv, of c r] \<open>\<forall>name g attr n data. _ name g attr n data\<close> by blast
    then show ?thesis
      using exec_evolves [OF inv e] by (simp add: efi_evolves_def)
  qed
  then show ?thesis
    using ev inv assms(1) by (auto simp: efi_evolves_def efi_inv_def)
qed

theorem boot_services_safe_witness:
  "efi_inv (sample_state\<lparr>st_memory := (\<lambda>_. 1)\<rparr>)"
  using boot_services_safe [OF sample_state_inv
      efi_reachable.app [OF efi_reachable.boot, where r = x64_efi and m = "\<lambda>_. 1"]] by blast


definition sample_after_load :: memory_allocator where
  "sample_after_load = \<lparr>entries = [new_descriptor ReservedMemoryType 0x80000 1 EFI_MEMORY_WB,
        new_descriptor ConventionalMemory 0x100000 15 EFI_MEMORY_WB,
        new_descriptor LoaderCode 0x10F000 1 EFI_MEMORY_WB],
       map_key = 2, boot_services_exited = False\<rparr>"

lemma sample_pool_allocate:
  "\<exists>s'. allocate_pages sample_after_load AllocateAnyPages BootServicesData 1 0 = Some (s', SUCCESS, 0x10E000)"
proof -
  have "map_option snd (allocate_pages sample_after_load AllocateAnyPages BootServicesData 1 0) = Some (SUCCESS, 0x10E000)"
    by code_simp
  then show ?thesis
    by auto
qed

lemma sample_free_slot: "position (\<lambda>e. le_handle e = 0) (replicate MAX_LOADED_IMAGES empty_image_entry) = Some 0"
  by (simp add: MAX_LOADED_IMAGES_def empty_image_entry_def numeral_eq_Suc)

lemma sample_bs_load:
  "\<exists>st'. bs_load_image x64_efi sample_state 0 0 (Some sample_pe) True = Some (st', Ok 1)"
proof -
  obtain m1 where l: "load_image sample_allocator (\<lambda>_. 0) sample_pe = Some (sample_after_load, m1,
      Ok \<lparr>li_image_base = 0x10F000, li_image_size = 0x1000, li_entry_point = 0x10F100, li_num_pages = 1\<rparr>)"
    using sample_load [of "\<lambda>_. 0"] unfolding sample_after_load_def by blast
  obtain s' where a: "allocate_pages sample_after_load AllocateAnyPages BootServicesData 1 0 = Some (s', SUCCESS, 0x10E000)"
    using sample_pool_allocate by blast
  have n: "pool_pages 96 = Some 1"
    by code_simp
  have c: "\<exists>m2. create_loaded_image_protocol x64_efi sample_after_load m1 0 d b z = Some (s', m2, 0x10E010)" for d b z
    using a n by (simp add: create_loaded_image_protocol_def allocate_protocol_def allocate_pool_def
        allocate_pool_with_def x64_efi_def POOL_HEADER_SIZE_def)
  have "sample_pe \<noteq> []"
    by (simp add: sample_pe_def)
  then show ?thesis
    using l c [of 0 "0x10F000" "0x1000"]
    by (auto simp: bs_load_image_def sample_state_def new_efi_state_def register_image_def create_handle_def
        new_handle_db_def MAX_HANDLES_def get_device_handle_from_parent_def install_protocol_def add_protocol_def
        MAX_PROTOCOLS_PER_HANDLE_def store_image_def sample_free_slot Let_def)
qed


lemma read_handles:
  assumes "i < length hs" and "8 * length hs \<le> 2 ^ 64"
  shows "read_u64 (write_handles m p hs) (p + of_nat (8 * i)) = hs ! i"
proof -
  let ?bs = "concat (map (\<lambda>h. le_bytes 8 (unat h)) hs)"
  have len: "length ?bs = 8 * length hs"
    by (simp add: length_concat comp_def sum_list_triv)
  have nth: "?bs ! (8 * i + j) = le_bytes 8 (unat (hs ! i)) ! j" if "j < 8" for j
    using assms(1) that
  proof (induction hs arbitrary: i)
    case (Cons h hs)
    then show ?case
      by (cases i) (auto simp: nth_append)
  qed simp
  have "read_bytes (write_handles m p hs) (p + of_nat (8 * i)) 8 = le_bytes 8 (unat (hs ! i))"
  proof (rule nth_equalityI)
    fix j
    assume "j < length (read_bytes (write_handles m p hs) (p + of_nat (8 * i)) 8)"
    then have j: "j < 8"
      by simp
    have "write_handles m p hs (p + of_nat (8 * i + j)) = ?bs ! (8 * i + j)"
      unfolding write_handles_def using assms j len by (intro write_bytes_inside) auto
    then show "read_bytes (write_handles m p hs) (p + of_nat (8 * i)) 8 ! j = le_bytes 8 (unat (hs ! i)) ! j"
      using nth [OF j] j by (simp add: read_bytes_def add.assoc)
  qed simp
  then show ?thesis
    using unat_u64_bound [of "hs ! i"] by (simp add: read_u64_def le_nat_le_bytes)
qed

text \<open>C17: \<open>LocateHandleBuffer\<close>. When some handle has the protocol and pool memory is available, the caller gets
  the number of such handles and a new buffer that holds each of them once. When no handle has it the call
  fails with \<open>OUT_OF_RESOURCES\<close>: the first \<open>locate_handle\<close> reports a size of zero instead of \<open>NOT_FOUND\<close>, and
  the pool refuses to allocate zero bytes.\<close>

theorem locate_handle_buffer_correct:
  assumes inv: "efi_inv st"
  shows "(\<forall>s' m' p. (\<exists>h. hdb_lookup (st_handles st) (h, g) \<noteq> None) \<longrightarrow>
      allocate_pool (st_allocator st) (st_memory st) BootServicesData
        (of_nat (8 * card {h. hdb_lookup (st_handles st) (h, g) \<noteq> None})) = Some (s', m', Ok p) \<longrightarrow>
      (\<exists>st' hs. locate_handle_buffer st True (Some g) True = Some (st', SUCCESS, Some (length hs, p)) \<and>
         distinct hs \<and> set hs = {h. hdb_lookup (st_handles st) (h, g) \<noteq> None} \<and>
         (\<forall>i < length hs. read_u64 (st_memory st') (p + of_nat (8 * i)) = hs ! i))) \<and>
    ((\<forall>h. hdb_lookup (st_handles st) (h, g) = None) \<longrightarrow>
      locate_handle_buffer st True (Some g) True = Some (st, OUT_OF_RESOURCES, None))"
proof -
  let ?hs = "matching_handles (st_handles st) g"
  have hs: "set ?hs = {h. hdb_lookup (st_handles st) (h, g) \<noteq> None}" "distinct ?hs"
    using set_matching_handles [OF inv_parts(2) [OF inv]] by auto
  have card: "card {h. hdb_lookup (st_handles st) (h, g) \<noteq> None} = length ?hs"
    using distinct_card [OF hs(2)] hs(1) by simp
  have first: "locate_handle (st_handles st) True (Some g) (Some 0) False = (BUFFER_TOO_SMALL, Some (length ?hs * 8), [])"
    by (simp add: locate_handle_def Let_def)
  have bound: "8 * length ?hs \<le> 2 ^ 64"
  proof -
    have "length ?hs \<le> length (handles (st_handles st))"
      by (simp add: matching_handles_def)
    also have "\<dots> \<le> 64"
      using inv_parts(2) [OF inv] by (simp add: hdb_inv_def MAX_HANDLES_def)
    finally show ?thesis by simp
  qed
  have "\<exists>st' hs. locate_handle_buffer st True (Some g) True = Some (st', SUCCESS, Some (length hs, p)) \<and>
         distinct hs \<and> set hs = {h. hdb_lookup (st_handles st) (h, g) \<noteq> None} \<and>
         (\<forall>i < length hs. read_u64 (st_memory st') (p + of_nat (8 * i)) = hs ! i)"
    if ne: "\<exists>h. hdb_lookup (st_handles st) (h, g) \<noteq> None"
      and a: "allocate_pool (st_allocator st) (st_memory st) BootServicesData (of_nat (8 * length ?hs)) = Some (s', m', Ok p)"
    for s' m' p
  proof -
    have "?hs \<noteq> []"
      using ne hs(1) by force
    then have "locate_handle (st_handles st) True (Some g) (Some (length ?hs * 8)) True =
        (SUCCESS, Some (length ?hs * 8), ?hs)"
      by (simp add: locate_handle_def Let_def)
    then have "locate_handle_buffer st True (Some g) True =
        Some (st\<lparr>st_allocator := s', st_memory := write_handles m' p ?hs\<rparr>, SUCCESS, Some (length ?hs, p))"
      using first a by (simp add: locate_handle_buffer_def Let_def mult.commute)
    then show ?thesis
      using hs read_handles [OF _ bound] by (intro exI conjI) auto
  qed
  moreover have "locate_handle_buffer st True (Some g) True = Some (st, OUT_OF_RESOURCES, None)"
    if "\<forall>h. hdb_lookup (st_handles st) (h, g) = None"
  proof -
    have "?hs = []"
      using hs(1) that by simp
    then show ?thesis
      using first by (simp add: locate_handle_buffer_def Let_def allocate_pool_def allocate_pool_with_def)
  qed
  ultimately show ?thesis
    unfolding card by blast
qed

theorem locate_handle_buffer_correct_witness:
  "locate_handle_buffer sample_state True (Some sample_guid) True = Some (sample_state, OUT_OF_RESOURCES, None)"
proof -
  have "\<forall>h. hdb_lookup (st_handles sample_state) (h, sample_guid) = None"
    by (simp add: sample_state_def new_efi_state_def new_handle_db_def hdb_lookup_def)
  then show ?thesis
    using locate_handle_buffer_correct [OF sample_state_inv, of sample_guid] by blast
qed

section \<open>Device paths\<close>

text \<open>A device path in memory: nodes with these lengths, then an end node.\<close>

fun dp_nodes :: "memory \<Rightarrow> u64 \<Rightarrow> u16 list \<Rightarrow> bool" where
  "dp_nodes m a [] \<longleftrightarrow> m a = 0x7F \<and> m (a + 1) = 0xFF"
| "dp_nodes m a (len # lens) \<longleftrightarrow> \<not> (m a = 0x7F \<and> m (a + 1) = 0xFF) \<and> read_u16 m (a + 2) = len \<and> 4 \<le> len \<and>
     dp_nodes m (a + ucast len) lens"

lemma dp_end_nodes: "dp_nodes m a lens \<Longrightarrow> dp_end m a = Some (a + sum_list (map ucast lens))"
proof (induction lens arbitrary: a)
  case Nil
  then show ?case
    by (subst dp_end.simps) simp
next
  case (Cons len lens)
  then show ?case
    by (subst dp_end.simps) (auto simp: Let_def not_less add.assoc)
qed

lemma handle_device_path_eq:
  assumes "entry_ok e"
  shows "handle_device_path dg g e = (if entry_lookup e g \<noteq> None \<and> entry_lookup e dg \<noteq> None \<and> entry_lookup e dg \<noteq> Some 0
    then Some (entry_handle e, the (entry_lookup e dg)) else None)"
proof -
  have "(\<exists>p \<in> set (entry_protocols e). proto_guid p = g) \<longleftrightarrow> entry_lookup e g \<noteq> None"
    by (simp add: entry_lookup_None_iff has_protocol_def)
  then show ?thesis
    by (auto simp: handle_device_path_def entry_lookup_def [of e dg] split: option.split)
qed

lemma entry_lookup_at:
  assumes "hdb_inv db" and "e \<in> set (handles db)"
  shows "entry_lookup e g = hdb_lookup db (entry_handle e, g)" and "entry_ok e"
proof -
  obtain i where i: "i < length (handles db)" "handles db ! i = e"
    using assms(2) by (auto simp: in_set_conv_nth)
  then have e: "entry_handle e = of_nat (i + 1)" "i < MAX_HANDLES" "entry_ok e"
    using assms(1) by (auto simp: hdb_inv_def)
  then have "unat (entry_handle e) = i + 1"
    using handle_number [of i "entry_handle e"] by simp
  then show "entry_lookup e g = hdb_lookup db (entry_handle e, g)" "entry_ok e"
    using i e assms(1) by (simp_all add: hdb_lookup_def find_handle)
qed

text \<open>C18: \<open>LocateDevicePath\<close> finds a handle that carries both the requested protocol and a device path, exactly when
  there is one, and for a well-formed path it returns, with the remaining path at its end node.\<close>

theorem locate_device_path_correct:
  assumes inv: "efi_inv st" and dp: "dp \<noteq> 0"
    and wf: "\<And>h a. hdb_lookup (st_handles st) (h, r_device_path_guid r) = Some a \<Longrightarrow> a \<noteq> 0 \<Longrightarrow>
      \<exists>lens. dp_nodes (st_memory st) a lens"
  shows "(locate_device_path r st (Some g) (Some dp) True = Some (Err NOT_FOUND) \<longleftrightarrow>
      (\<forall>h. hdb_lookup (st_handles st) (h, g) = None \<or>
         hdb_lookup (st_handles st) (h, r_device_path_guid r) \<in> {None, Some 0})) \<and>
    (locate_device_path r st (Some g) (Some dp) True = Some (Err NOT_FOUND) \<or>
      (\<exists>h a lens. locate_device_path r st (Some g) (Some dp) True = Some (Ok (h, a + sum_list (map ucast lens))) \<and>
         hdb_lookup (st_handles st) (h, g) \<noteq> None \<and>
         hdb_lookup (st_handles st) (h, r_device_path_guid r) = Some a \<and> a \<noteq> 0 \<and>
         dp_nodes (st_memory st) a lens))"
proof -
  let ?db = "st_handles st"
  let ?f = "handle_device_path (r_device_path_guid r) g"
  let ?good = "\<lambda>h. hdb_lookup ?db (h, g) \<noteq> None \<and> hdb_lookup ?db (h, r_device_path_guid r) \<notin> {None, Some 0}"
  have hinv: "hdb_inv ?db"
    using inv by (rule inv_parts)
  have f: "?f e = (if ?good (entry_handle e) then Some (entry_handle e, the (hdb_lookup ?db (entry_handle e, r_device_path_guid r))) else None)"
    if "e \<in> set (handles ?db)" for e
    using handle_device_path_eq [OF entry_lookup_at(2) [OF hinv that], of "r_device_path_guid r" g]
    by (simp add: entry_lookup_at(1) [OF hinv that])
  show ?thesis
  proof (cases "List.map_filter ?f (handles ?db)")
    case Nil
    have none: "\<not> ?good (entry_handle e)" if "e \<in> set (handles ?db)" for e
      using Nil f [OF that] that by (auto simp: List.map_filter_def filter_empty_conv split: if_splits)
    have "\<not> ?good h" for h
    proof (cases "h \<in> known_handles ?db")
      case True
      then obtain e where "e \<in> set (handles ?db)" "h = entry_handle e"
        by (auto simp: known_handles_def)
      then show ?thesis
        using none [of e] by simp
    next
      case False
      then show ?thesis
        using unknown_lookup [OF hinv False] by simp
    qed
    moreover have "locate_device_path r st (Some g) (Some dp) True = Some (Err NOT_FOUND)"
      using Nil dp by (simp add: locate_device_path_def)
    ultimately show ?thesis
      by auto
  next
    case (Cons x xs)
    have "x \<in> set (List.map_filter ?f (handles ?db))"
      using Cons by simp
    then obtain e where e: "e \<in> set (handles ?db)" "?f e = Some x"
      by (auto simp: List.map_filter_def)
    then have good: "?good (entry_handle e)"
      and x: "x = (entry_handle e, the (hdb_lookup ?db (entry_handle e, r_device_path_guid r)))"
      using f [OF e(1)] by (auto split: if_splits)
    then obtain a where a: "hdb_lookup ?db (entry_handle e, r_device_path_guid r) = Some a" "a \<noteq> 0"
      by auto
    obtain lens where lens: "dp_nodes (st_memory st) a lens"
      using wf [OF a] by blast
    have "locate_device_path r st (Some g) (Some dp) True = Some (Ok (entry_handle e, a + sum_list (map ucast lens)))"
      using Cons dp x a dp_end_nodes [OF lens] by (simp add: locate_device_path_def)
    then show ?thesis
      using good a lens by auto
  qed
qed

theorem locate_device_path_correct_witness:
  "locate_device_path x64_efi sample_state (Some sample_guid) (Some 0x5000) True = Some (Err NOT_FOUND)"
proof -
  have none: "hdb_lookup (st_handles sample_state) k = None" for k
    by (cases k) (simp add: sample_state_def new_efi_state_def new_handle_db_def hdb_lookup_def)
  show ?thesis
    using locate_device_path_correct [OF sample_state_inv, of "0x5000" x64_efi sample_guid] none by simp
qed

text \<open>
  A failure of \<open>LoadImage\<close> after the handle was created leaves the handle behind. When the table of images is
  full the protocol is even still installed, and describes memory that was given back.
\<close>

lemma install_on_new_handle:
  assumes inv: "hdb_inv db" and c: "create_handle db = (db', Some h)"
  shows "snd (install_protocol db' h g i) = SUCCESS"
proof -
  have inv': "hdb_inv db'" and kn: "h \<in> known_handles db'"
    using c by (cases rule: create_handle_cases [OF inv]; auto)+
  have h: "handles db' = handles db @ [\<lparr>entry_handle = h, entry_protocols = []\<rparr>]"
    using c by (auto simp: create_handle_def split: if_splits)
  have "length (handles db) < MAX_HANDLES" "h = of_nat (length (handles db) + 1)"
    using c inv by (auto simp: create_handle_def hdb_inv_def split: if_splits)
  then have u: "unat h = length (handles db) + 1"
    using handle_number [of "length (handles db)" h] by simp
  have "position (\<lambda>e. entry_handle e = h) (handles db') = Some (length (handles db))"
    using position_handle [OF inv', of h] u h by simp
  then show ?thesis
    by (simp add: install_protocol_def h add_protocol_def MAX_PROTOCOLS_PER_HANDLE_def)
qed

lemma failed_load_leaves_handle:
  assumes inv: "efi_inv st" and "data \<noteq> []"
    and l: "load_image (st_allocator st) (st_memory st) data = Some (s1, m1, Ok img)"
    and room: "length (handles (st_handles st)) < MAX_HANDLES"
    and pool: "allocate_pool s1 m1 BootServicesData (of_nat (r_li_size r)) = Some (s2, m2, Ok p)" "p \<noteq> 0"
    and full: "\<forall>e \<in> set (st_images st). le_handle e \<noteq> 0"
  shows "\<exists>st' h. bs_load_image r st 0 0 (Some data) True = Some (st', Err OUT_OF_RESOURCES) \<and>
    h \<notin> known_handles (st_handles st) \<and> hdb_lookup (st_handles st') (h, r_loaded_image_guid r) = Some p \<and>
    st_allocator st' = fst (free_pages s2 (li_image_base img) (li_num_pages img))"
proof -
  have "position (\<lambda>e. le_handle e = 0) (st_images st) = None"
    using full by (simp add: position_None_iff)
  then have store: "store_image (st_images st) e = None" for e
    by (simp add: store_image_def)
  from inv_parts(2) [OF inv] show ?thesis
  proof (cases rule: create_handle_cases [of "st_handles st"])
    case err
    then show ?thesis
      using room by simp
  next
    case h: (ok hdb h)
    have "hdb_lookup hdb (h, r_loaded_image_guid r) = None"
      using h(4,6) unknown_lookup [OF inv_parts(2) [OF inv]] by simp
    from h(2) show ?thesis
    proof (cases rule: install_protocol_cases [of hdb h "r_loaded_image_guid r" p])
      case (err status)
      then show ?thesis
        using install_on_new_handle [OF inv_parts(2) [OF inv] h(1), of "r_loaded_image_guid r" p] by simp
    next
      case i: (ok hdb')
      show ?thesis
        using assms(2) l h(1,4) pool store i(1,6)
        by (auto simp: bs_load_image_def register_image_def Let_def get_device_handle_from_parent_def
            create_loaded_image_protocol_def allocate_protocol_def unload_image_def)
    qed
  qed
qed

end
