(* ===== verification/Block_Device.thy ===== *)
theory Block_Device
  imports Crab_Prelude "HOL-Library.Monad_Syntax"
begin

text \<open>
  Block devices: \<open>src/src/drivers/block.rs\<close> with the sector loops of the drivers behind it.

  A \<open>dyn BlockDevice\<close> is the record \<open>block_device\<close>: its \<open>info\<close> and its \<open>read_blocks\<close>, which takes the
  caller's buffer and returns the buffer after the read. The drivers of \<open>block.rs\<close> are given by
  \<open>dyn_device\<close> over the record \<open>drivers\<close>, whose fields stand for the transfers of the hardware: the DMA
  commands of an NVMe, AHCI or SD host controller and the bulk transfers of a USB device. A device
  answers the same request in the same way (its medium does not change during the call).

  Reads have type \<open>('e, 'a) outcome\<close>: \<^const>\<open>None\<close> stands for a run that does not come back with a result (a
  panic, an endless loop, or a copy past the end of the caller's buffer), \<open>Some (Inl e)\<close> for
  \<open>Err(e)\<close> and \<open>Some (Inr a)\<close> for \<open>Ok(a)\<close>.
\<close>

section \<open>Results\<close>

type_synonym ('e, 'a) outcome = "('e + 'a) option"

text \<open>Rust's \<open>?\<close> operator and \<open>map_err\<close>.\<close>

definition and_then :: "('e, 'a) outcome \<Rightarrow> ('a \<Rightarrow> ('e, 'b) outcome) \<Rightarrow> ('e, 'b) outcome" where
  "and_then r f = Option.bind r (\<lambda>x. case x of Inl e \<Rightarrow> Some (Inl e) | Inr a \<Rightarrow> f a)"

definition map_err :: "('e \<Rightarrow> 'f) \<Rightarrow> ('e, 'a) outcome \<Rightarrow> ('f, 'a) outcome" where
  "map_err g r = map_option (map_sum g id) r"

lemma and_then_simps [simp]:
  "and_then None f = None"
  "and_then (Some (Inl e)) f = Some (Inl e)"
  "and_then (Some (Inr a)) f = f a"
  by (simp_all add: and_then_def)

lemma map_err_simps [simp]:
  "map_err g None = None"
  "map_err g (Some (Inl e)) = Some (Inl (g e))"
  "map_err g (Some (Inr a)) = Some (Inr a)"
  by (simp_all add: map_err_def)

lemma and_then_cong [fundef_cong]:
  "r = r' \<Longrightarrow> (\<And>a. r' = Some (Inr a) \<Longrightarrow> f a = g a) \<Longrightarrow> and_then r f = and_then r' g"
  by (auto simp: and_then_def split: sum.splits option.splits)
     (cases r', auto split: sum.splits)

lemma and_then_Ok_iff:
  "and_then r f = Some (Inr b) \<longleftrightarrow> (\<exists>a. r = Some (Inr a) \<and> f a = Some (Inr b))"
  by (cases r) (auto simp: and_then_def split: sum.splits)

lemma map_err_Ok_iff: "map_err g r = Some (Inr a) \<longleftrightarrow> r = Some (Inr a)"
  by (cases r) (auto simp: map_err_def map_sum_def split: sum.splits)

lemma and_then_mono [partial_function_mono]:
  assumes "mono_option B" and "\<And>y. mono_option (\<lambda>f. C y f)"
  shows "mono_option (\<lambda>f. and_then (B f) (\<lambda>y. C y f))"
  unfolding and_then_def
proof (rule bind_mono [OF assms(1)])
  show "mono_option (\<lambda>f. case x of Inl e \<Rightarrow> Some (Inl e) | Inr a \<Rightarrow> C a f)" for x
    using assms(2) by (cases x) (auto simp: monotone_def option.leq_refl)
qed

section \<open>Devices\<close>

definition SECTOR_SIZE :: nat where
  "SECTOR_SIZE = 512"

record block_device_info =
  num_blocks :: u64
  block_size :: u32
  media_id :: u32
  removable :: bool
  read_only :: bool

datatype block_error = DeviceError | InvalidParameter | OutOfRange | NoMedia | MediaChanged

type_synonym block_read = "u64 \<Rightarrow> u32 \<Rightarrow> u8 list \<Rightarrow> (block_error, u8 list) outcome"

record block_device =
  info :: block_device_info
  read_blocks :: block_read

definition read_block :: "block_device \<Rightarrow> u64 \<Rightarrow> u8 list \<Rightarrow> (block_error, u8 list) outcome" where
  "read_block dev lba buf = read_blocks dev lba 1 buf"

text \<open>
  The caller's slice \<open>&mut buffer[off..off + n]\<close> is read into in place; slicing past the end of the
  buffer panics.
\<close>

definition read_block_at ::
    "block_device \<Rightarrow> u64 \<Rightarrow> nat \<Rightarrow> nat \<Rightarrow> u8 list \<Rightarrow> (block_error, u8 list) outcome" where
  "read_block_at dev lba off n buf =
     (if off + n \<le> length buf
      then and_then (read_block dev lba (slice off n buf))
             (\<lambda>bs. Some (Inr (take off buf @ bs @ drop (off + n) buf)))
      else None)"

section \<open>Driver errors\<close>

datatype nvme_error =
    NvmeNotReady | NvmeCommandFailed u8 u8 | NvmeTimeout | NvmeNoNamespaces
  | NvmeInvalidNamespace | NvmeAllocationFailed | NvmeInvalidParameter

datatype ahci_error =
    AhciNoDevice | AhciPortNotReady | AhciCommandFailed | AhciTimeout | AhciAllocationFailed
  | AhciInvalidParameter

datatype sdhci_error =
    SdhciNotInitialized | SdhciResetFailed | SdhciNoCard | SdhciCardInitFailed
  | SdhciCommandTimeout | SdhciCommandCrcError | SdhciCommandIndexError | SdhciCommandEndBitError
  | SdhciDataTimeout | SdhciDataCrcError | SdhciDataEndBitError | SdhciDmaError
  | SdhciInvalidParameter | SdhciAllocationFailed | SdhciClockFailed | SdhciGenericError

fun block_error_of_nvme :: "nvme_error \<Rightarrow> block_error" where
  "block_error_of_nvme NvmeInvalidNamespace = NoMedia"
| "block_error_of_nvme NvmeInvalidParameter = InvalidParameter"
| "block_error_of_nvme _ = DeviceError"

fun block_error_of_ahci :: "ahci_error \<Rightarrow> block_error" where
  "block_error_of_ahci AhciNoDevice = NoMedia"
| "block_error_of_ahci AhciInvalidParameter = InvalidParameter"
| "block_error_of_ahci _ = DeviceError"

fun block_error_of_sdhci :: "sdhci_error \<Rightarrow> block_error" where
  "block_error_of_sdhci SdhciNoCard = NoMedia"
| "block_error_of_sdhci SdhciInvalidParameter = InvalidParameter"
| "block_error_of_sdhci SdhciNotInitialized = NoMedia"
| "block_error_of_sdhci _ = DeviceError"

section \<open>Reads of the drivers\<close>

text \<open>
  A transfer of the hardware delivers bytes. The drivers copy them to the pointer of the caller's
  buffer without looking at its length.
\<close>

definition put_data :: "u8 list \<Rightarrow> u8 list \<Rightarrow> u8 list option" where
  "put_data buf bs = (if length bs \<le> length buf then Some (bs @ drop (length bs) buf) else None)"

definition deliver :: "u8 list \<Rightarrow> ('e, u8 list) outcome \<Rightarrow> ('e, u8 list) outcome" where
  "deliver buf r = and_then r (\<lambda>bs. map_option Inr (put_data buf bs))"

text \<open>
  \<open>page_loop\<close> is the loop in which the NVMe and the SD driver split a request into transfers that fit
  their DMA page: \<open>transfer lba n\<close> is \<open>read_sectors_internal\<close>, \<open>per_page\<close> the number of sectors in a
  page. With \<open>per_page = 0\<close> the request is never used up.
\<close>

partial_function (option) page_loop ::
    "(u64 \<Rightarrow> u32 \<Rightarrow> 'e + u8 list) \<Rightarrow> u32 \<Rightarrow> u32 \<Rightarrow> u64 \<Rightarrow> ('e, u8 list) outcome" where
  "page_loop transfer per_page remaining current_lba =
     (if remaining = 0 then Some (Inr [])
      else let n = min remaining per_page in
        and_then (Some (transfer current_lba n))
          (\<lambda>bs. and_then (page_loop transfer per_page (remaining - n) (current_lba + ucast n))
            (\<lambda>rest. Some (Inr (bs @ rest)))))"

record nvme_namespace =
  nsid :: u32
  ns_num_blocks :: u64
  ns_block_size :: u32

record nvme_controller =
  namespaces :: "nvme_namespace list"
  nvme_transfer :: "u32 \<Rightarrow> u64 \<Rightarrow> u32 \<Rightarrow> nvme_error + u8 list"

definition get_namespace :: "nvme_controller \<Rightarrow> u32 \<Rightarrow> nvme_namespace option" where
  "get_namespace c ns_id = find (\<lambda>ns. nsid ns = ns_id) (namespaces c)"

definition nvme_read_sectors ::
    "nvme_controller \<Rightarrow> u32 \<Rightarrow> u64 \<Rightarrow> u32 \<Rightarrow> (nvme_error, u8 list) outcome" where
  "nvme_read_sectors c ns_id start_lba num_sectors =
     (case get_namespace c ns_id of
        None \<Rightarrow> Some (Inl NvmeInvalidNamespace)
      | Some ns \<Rightarrow>
          if num_sectors = 0 then Some (Inl NvmeInvalidParameter)
          else if (ucast num_sectors :: u64) * ucast (ns_block_size ns) > 4096
          then page_loop (nvme_transfer c ns_id) (4096 div ns_block_size ns) num_sectors start_lba
          else Some (nvme_transfer c ns_id start_lba num_sectors))"

record ahci_port =
  sector_count :: u64
  sector_size :: u32

record ahci_controller =
  ahci_ports :: "ahci_port list"
  ahci_transfer :: "nat \<Rightarrow> u64 \<Rightarrow> u32 \<Rightarrow> ahci_error + u8 list"

definition ahci_read_sectors ::
    "ahci_controller \<Rightarrow> nat \<Rightarrow> u64 \<Rightarrow> u32 \<Rightarrow> (ahci_error, u8 list) outcome" where
  "ahci_read_sectors c port_index start_lba num_sectors =
     (if length (ahci_ports c) \<le> port_index then Some (Inl AhciInvalidParameter)
      else Some (ahci_transfer c port_index start_lba num_sectors))"

definition SD_BLOCK_SIZE :: u32 where
  "SD_BLOCK_SIZE = 512"

record sdhci_controller =
  card_initialized :: bool
  card_present :: bool
  sd_num_blocks :: u64
  sd_block_size :: u32
  sd_transfer :: "u64 \<Rightarrow> u32 \<Rightarrow> sdhci_error + u8 list"

definition sdhci_read_sectors ::
    "sdhci_controller \<Rightarrow> u64 \<Rightarrow> u32 \<Rightarrow> (sdhci_error, u8 list) outcome" where
  "sdhci_read_sectors c start_lba count =
     (if \<not> card_initialized c then Some (Inl SdhciNotInitialized)
      else if count = 0 then Some (Inl SdhciInvalidParameter)
      else if (ucast count :: usize) * ucast SD_BLOCK_SIZE > 4096
      then page_loop (sd_transfer c) (4096 div SD_BLOCK_SIZE) count start_lba
      else Some (sd_transfer c start_lba count))"

text \<open>
  The USB driver has one global device; \<open>global_read_sector\<close> reads one sector of it into the front of the
  buffer. \<open>usb_sector\<close> is \<open>None\<close> when no device is stored.
\<close>

record drivers =
  nvme_controllers :: "nvme_controller list"
  ahci_controllers :: "ahci_controller list"
  sdhci_controllers :: "sdhci_controller list"
  usb_sector :: "(u64 \<Rightarrow> u8 list \<Rightarrow> (unit, u8 list) outcome) option"

definition get_controller :: "'c list \<Rightarrow> nat \<Rightarrow> 'c option" where
  "get_controller cs i = (if i < length cs then Some (cs ! i) else None)"

definition global_read_sector :: "drivers \<Rightarrow> u64 \<Rightarrow> u8 list \<Rightarrow> (unit, u8 list) outcome" where
  "global_read_sector drv lba buf =
     (case usb_sector drv of None \<Rightarrow> Some (Inl ()) | Some read \<Rightarrow> read lba buf)"

section \<open>The devices of block.rs\<close>

record nvme_block_device =
  nvme_id :: nat
  nvme_nsid :: u32
  nvme_info :: block_device_info

record ahci_block_device =
  ahci_id :: nat
  ahci_port_index :: nat
  ahci_info :: block_device_info

record usb_block_device =
  usb_id :: nat
  device_addr :: u8
  usb_info :: block_device_info

record sdhci_block_device =
  sdhci_id :: nat
  sdhci_info :: block_device_info

datatype any_block_device =
    Nvme nvme_block_device | Ahci ahci_block_device | Usb usb_block_device | Sdhci sdhci_block_device

definition nvme_block_device_new :: "nat \<Rightarrow> u32 \<Rightarrow> u64 \<Rightarrow> u32 \<Rightarrow> u32 \<Rightarrow> nvme_block_device" where
  "nvme_block_device_new controller_id ns_id nblocks bsize media =
     \<lparr>nvme_id = controller_id, nvme_nsid = ns_id,
      nvme_info = \<lparr>num_blocks = nblocks, block_size = bsize, media_id = media, removable = False,
                   read_only = False\<rparr>\<rparr>"

definition ahci_block_device_new :: "nat \<Rightarrow> nat \<Rightarrow> u64 \<Rightarrow> u32 \<Rightarrow> u32 \<Rightarrow> ahci_block_device" where
  "ahci_block_device_new controller_id port nblocks bsize media =
     \<lparr>ahci_id = controller_id, ahci_port_index = port,
      ahci_info = \<lparr>num_blocks = nblocks, block_size = bsize, media_id = media, removable = False,
                   read_only = False\<rparr>\<rparr>"

definition usb_block_device_new :: "nat \<Rightarrow> u8 \<Rightarrow> u64 \<Rightarrow> u32 \<Rightarrow> u32 \<Rightarrow> usb_block_device" where
  "usb_block_device_new controller_id addr nblocks bsize media =
     \<lparr>usb_id = controller_id, device_addr = addr,
      usb_info = \<lparr>num_blocks = nblocks, block_size = bsize, media_id = media, removable = True,
                  read_only = False\<rparr>\<rparr>"

definition sdhci_block_device_new :: "nat \<Rightarrow> u64 \<Rightarrow> u32 \<Rightarrow> u32 \<Rightarrow> sdhci_block_device" where
  "sdhci_block_device_new controller_id nblocks bsize media =
     \<lparr>sdhci_id = controller_id,
      sdhci_info = \<lparr>num_blocks = nblocks, block_size = bsize, media_id = media, removable = True,
                    read_only = False\<rparr>\<rparr>"

definition nvme_read_blocks :: "drivers \<Rightarrow> nvme_block_device \<Rightarrow> block_read" where
  "nvme_read_blocks drv d lba count buf =
     (case get_controller (nvme_controllers drv) (nvme_id d) of
        None \<Rightarrow> Some (Inl DeviceError)
      | Some c \<Rightarrow> map_err block_error_of_nvme
                    (deliver buf (nvme_read_sectors c (nvme_nsid d) lba count)))"

definition ahci_read_blocks :: "drivers \<Rightarrow> ahci_block_device \<Rightarrow> block_read" where
  "ahci_read_blocks drv d lba count buf =
     (case get_controller (ahci_controllers drv) (ahci_id d) of
        None \<Rightarrow> Some (Inl DeviceError)
      | Some c \<Rightarrow> map_err block_error_of_ahci
                    (deliver buf (ahci_read_sectors c (ahci_port_index d) lba count)))"

definition sdhci_read_blocks :: "drivers \<Rightarrow> sdhci_block_device \<Rightarrow> block_read" where
  "sdhci_read_blocks drv d lba count buf =
     (case get_controller (sdhci_controllers drv) (sdhci_id d) of
        None \<Rightarrow> Some (Inl DeviceError)
      | Some c \<Rightarrow> map_err block_error_of_sdhci (deliver buf (sdhci_read_sectors c lba count)))"

text \<open>
  The USB device reads the first sector into the buffer and then every other one into
  \<open>&mut buffer[i * block_size..]\<close>; \<open>usb_rest\<close> is that loop over the indices.
\<close>

fun usb_rest :: "drivers \<Rightarrow> nat \<Rightarrow> u64 \<Rightarrow> nat list \<Rightarrow> u8 list \<Rightarrow> (block_error, u8 list) outcome" where
  "usb_rest drv bsize lba [] buf = Some (Inr buf)"
| "usb_rest drv bsize lba (i # is) buf =
     (if i * bsize \<le> length buf
      then and_then (map_err (\<lambda>_. DeviceError)
                       (global_read_sector drv (lba + of_nat i) (drop (i * bsize) buf)))
             (\<lambda>bs. usb_rest drv bsize lba is (take (i * bsize) buf @ bs))
      else None)"

definition usb_read_blocks :: "drivers \<Rightarrow> usb_block_device \<Rightarrow> block_read" where
  "usb_read_blocks drv d lba count buf =
     and_then (map_err (\<lambda>_. DeviceError) (global_read_sector drv lba buf))
       (\<lambda>buf. if count > 1
              then usb_rest drv (unat (block_size (usb_info d))) lba [1..<unat count] buf
              else Some (Inr buf))"

definition any_info :: "any_block_device \<Rightarrow> block_device_info" where
  "any_info d = (case d of Nvme d \<Rightarrow> nvme_info d | Ahci d \<Rightarrow> ahci_info d | Usb d \<Rightarrow> usb_info d
                 | Sdhci d \<Rightarrow> sdhci_info d)"

definition any_read_blocks :: "drivers \<Rightarrow> any_block_device \<Rightarrow> block_read" where
  "any_read_blocks drv d =
     (case d of Nvme d \<Rightarrow> nvme_read_blocks drv d | Ahci d \<Rightarrow> ahci_read_blocks drv d
      | Usb d \<Rightarrow> usb_read_blocks drv d | Sdhci d \<Rightarrow> sdhci_read_blocks drv d)"

definition dyn_device :: "drivers \<Rightarrow> any_block_device \<Rightarrow> block_device" where
  "dyn_device drv d = \<lparr>info = any_info d, read_blocks = any_read_blocks drv d\<rparr>"

definition create_nvme_device :: "drivers \<Rightarrow> nat \<Rightarrow> u32 \<Rightarrow> u32 \<Rightarrow> nvme_block_device option" where
  "create_nvme_device drv controller_id ns_id media =
     Option.bind (get_controller (nvme_controllers drv) controller_id) (\<lambda>c.
     Option.bind (get_namespace c ns_id) (\<lambda>ns.
       Some (nvme_block_device_new controller_id ns_id (ns_num_blocks ns) (ns_block_size ns) media)))"

definition create_ahci_device :: "drivers \<Rightarrow> nat \<Rightarrow> nat \<Rightarrow> u32 \<Rightarrow> ahci_block_device option" where
  "create_ahci_device drv controller_id port media =
     Option.bind (get_controller (ahci_controllers drv) controller_id) (\<lambda>c.
     Option.bind (get_controller (ahci_ports c) port) (\<lambda>p.
       Some (ahci_block_device_new controller_id port (sector_count p) (sector_size p) media)))"

definition create_sdhci_device :: "drivers \<Rightarrow> nat \<Rightarrow> u32 \<Rightarrow> sdhci_block_device option" where
  "create_sdhci_device drv controller_id media =
     Option.bind (get_controller (sdhci_controllers drv) controller_id) (\<lambda>c.
       if \<not> (card_present c \<and> card_initialized c) then None
       else Some (sdhci_block_device_new controller_id (sd_num_blocks c) (sd_block_size c) media))"

end
