(* ===== verification/Block_Reader.thy ===== *)
theory Block_Reader
  imports Block_Device
begin

text \<open>
  What a block device promises: it holds the bytes of a medium, and a read of blocks that are on the
  medium delivers them.

  The locale \<open>block_reader\<close> states the promise, with the facts about single blocks that the file systems
  use. It is interpreted twice: on the record of a \<open>dyn BlockDevice\<close> (\<open>dyn\<close>), which the file systems are
  written against, and on the devices of \<open>block.rs\<close> (\<open>any\<close>), where it holds because the transfers of the
  hardware deliver the medium: this includes the loops that split a request into pages or sectors.
\<close>

section \<open>Media\<close>

text \<open>The bytes of a medium by their offset.\<close>

type_synonym medium = "nat \<Rightarrow> u8"

definition bytes_at :: "medium \<Rightarrow> nat \<Rightarrow> nat \<Rightarrow> u8 list" where
  "bytes_at c off n = map c [off..<off + n]"

lemma length_bytes_at [simp]: "length (bytes_at c off n) = n"
  by (simp add: bytes_at_def)

lemma nth_bytes_at [simp]: "i < n \<Longrightarrow> bytes_at c off n ! i = c (off + i)"
  by (simp add: bytes_at_def)

lemma bytes_at_0 [simp]: "bytes_at c off 0 = []"
  by (simp add: bytes_at_def)

lemma bytes_at_append: "bytes_at c off m @ bytes_at c (off + m) n = bytes_at c off (m + n)"
proof -
  have "[off..<off + (m + n)] = [off..<off + m] @ [off + m..<off + (m + n)]"
    using upt_add_eq_append [of off "off + m" n] by (simp add: add.assoc)
  then show ?thesis
    by (simp add: bytes_at_def add.assoc)
qed

lemma take_bytes_at: "take k (bytes_at c off n) = bytes_at c off (min k n)"
  by (rule nth_equalityI) auto

lemma drop_bytes_at: "drop k (bytes_at c off n) = bytes_at c (off + k) (n - k)"
  by (rule nth_equalityI) (auto simp: add.assoc)

lemma slice_bytes_at: "k + m \<le> n \<Longrightarrow> slice k m (bytes_at c off n) = bytes_at c (off + k) m"
  by (simp add: slice_def take_bytes_at drop_bytes_at)

section \<open>The contract of a block device\<close>

text \<open>
  Requests a driver can serve in one call: at least one block, on the medium, and within what a
  single command of the controllers can name.
\<close>

definition request_ok :: "block_device_info \<Rightarrow> u64 \<Rightarrow> u32 \<Rightarrow> bool" where
  "request_ok i lba count \<longleftrightarrow>
     0 < unat count \<and> unat count < 2 ^ 16 \<and> unat count * unat (block_size i) \<le> 2 ^ 22 \<and>
     unat lba + unat count \<le> unat (num_blocks i)"

lemma request_ok_sub:
  assumes "request_ok i lba count" and "unat m + unat n = unat count" and "0 < unat n"
  shows "request_ok i (lba + ucast (m :: u32)) n" and "unat (lba + ucast m) = unat lba + unat m"
proof -
  have "unat lba + unat count < 2 ^ 64"
    using assms(1) unat_u64_bound [of "num_blocks i"] by (simp add: request_ok_def)
  moreover have m: "unat (ucast m :: u64) = unat m"
    by (rule unat_ucast_widen) simp
  ultimately show eq: "unat (lba + ucast m) = unat lba + unat m"
    using assms(2) by (subst unat_plus_less) auto
  have "unat n * unat (block_size i) \<le> unat count * unat (block_size i)"
    unfolding assms(2) [symmetric] by simp
  then show "request_ok i (lba + ucast m) n"
    using assms eq unfolding request_ok_def by linarith
qed

lemma request_ok_first:
  assumes "request_ok i lba count" and "unat m \<le> unat count" and "0 < unat m"
  shows "request_ok i lba m"
proof -
  have "unat m * unat (block_size i) \<le> unat count * unat (block_size i)"
    using assms(2) by simp
  then show ?thesis
    using assms unfolding request_ok_def by linarith
qed

locale block_reader =
  fixes dev_info :: "'d \<Rightarrow> block_device_info"
    and dev_read :: "'d \<Rightarrow> block_read"
    and holds :: "'d \<Rightarrow> medium \<Rightarrow> bool"
  assumes size_pos: "holds d c \<Longrightarrow> 0 < unat (block_size (dev_info d))"
    and reads: "holds d c \<Longrightarrow> request_ok (dev_info d) lba count \<Longrightarrow>
      unat count * unat (block_size (dev_info d)) \<le> length buf \<Longrightarrow>
      dev_read d lba count buf =
        Some (Inr (bytes_at c (unat lba * unat (block_size (dev_info d)))
                     (unat count * unat (block_size (dev_info d))) @
                   drop (unat count * unat (block_size (dev_info d))) buf))"
begin

lemma reads_block:
  assumes "holds d c" and "unat lba < unat (num_blocks (dev_info d))"
    and "unat (block_size (dev_info d)) \<le> 4096" and "unat (block_size (dev_info d)) \<le> length buf"
  shows "dev_read d lba 1 buf =
    Some (Inr (bytes_at c (unat lba * unat (block_size (dev_info d)))
                 (unat (block_size (dev_info d))) @ drop (unat (block_size (dev_info d))) buf))"
  using reads [of d c lba 1 buf] assms by (simp add: request_ok_def)

text \<open>A longer request delivers what the requests for its two parts deliver.\<close>

lemma reads_split:
  assumes "holds d c" and ok: "request_ok (dev_info d) lba count"
    and k: "unat m + unat n = unat count" "0 < unat m" "0 < unat n"
    and len: "length buf = unat count * unat (block_size (dev_info d))"
    and len1: "length buf1 = unat m * unat (block_size (dev_info d))"
    and len2: "length buf2 = unat n * unat (block_size (dev_info d))"
  shows "\<exists>xs ys. dev_read d lba m buf1 = Some (Inr xs) \<and>
    dev_read d (lba + ucast m) n buf2 = Some (Inr ys) \<and>
    dev_read d lba count buf = Some (Inr (xs @ ys))"
proof -
  let ?b = "unat (block_size (dev_info d))"
  have "request_ok (dev_info d) lba m"
    using ok k by (intro request_ok_first [OF ok]) auto
  then have "dev_read d lba m buf1 = Some (Inr (bytes_at c (unat lba * ?b) (unat m * ?b)))"
    using reads [OF assms(1), of lba m buf1] len1 by simp
  moreover have "dev_read d (lba + ucast m) n buf2 =
    Some (Inr (bytes_at c (unat lba * ?b + unat m * ?b) (unat n * ?b)))"
    using reads [OF assms(1) request_ok_sub(1) [OF ok k(1,3)], of buf2] len2
    by (simp add: request_ok_sub(2) [OF ok k(1,3)] add_mult_distrib)
  moreover have "dev_read d lba count buf =
    Some (Inr (bytes_at c (unat lba * ?b) (unat m * ?b + unat n * ?b)))"
    using reads [OF assms(1) ok, of buf] len by (simp add: add_mult_distrib flip: k(1))
  ultimately show ?thesis
    by (simp add: bytes_at_append)
qed

end

text \<open>The promise for a \<open>dyn BlockDevice\<close> is the contract itself.\<close>

definition device_holds :: "block_device \<Rightarrow> medium \<Rightarrow> bool" where
  "device_holds dev c \<longleftrightarrow>
     0 < unat (block_size (info dev)) \<and>
     (\<forall>lba count buf. request_ok (info dev) lba count \<longrightarrow>
        unat count * unat (block_size (info dev)) \<le> length buf \<longrightarrow>
        read_blocks dev lba count buf =
          Some (Inr (bytes_at c (unat lba * unat (block_size (info dev)))
                       (unat count * unat (block_size (info dev))) @
                     drop (unat count * unat (block_size (info dev))) buf)))"

interpretation dyn: block_reader info read_blocks device_holds
  by unfold_locales (auto simp: device_holds_def)

text \<open>One block read into a slice of a buffer.\<close>

lemma read_block_at_middle:
  assumes "device_holds dev c" and "lba < unat (num_blocks (info dev))"
    and "unat (block_size (info dev)) = bsize" and "bsize \<le> 4096" and "off + bsize \<le> length buf"
  shows "read_block_at dev (of_nat lba) off bsize buf =
    Some (Inr (take off buf @ bytes_at c (lba * bsize) bsize @ drop (off + bsize) buf))"
proof -
  have "lba < 2 ^ 64"
    using assms(2) unat_u64_bound [of "num_blocks (info dev)"] by linarith
  then have "unat (of_nat lba :: u64) = lba"
    by (simp add: unat_of_nat)
  moreover have "length (slice off bsize buf) = bsize"
    using assms(5) by (rule length_slice)
  ultimately show ?thesis
    using dyn.reads_block [OF assms(1), of "of_nat lba" "slice off bsize buf"] assms
    by (simp add: read_block_at_def read_block_def)
qed

text \<open>A device that serves a medium from memory, for concrete instances.\<close>

definition image_device :: "u32 \<Rightarrow> u64 \<Rightarrow> medium \<Rightarrow> block_device" where
  "image_device bsize nblocks c =
     \<lparr>info = \<lparr>num_blocks = nblocks, block_size = bsize, media_id = 0, removable = False,
              read_only = False\<rparr>,
      read_blocks = (\<lambda>lba count buf.
        if unat count * unat bsize \<le> length buf
        then Some (Inr (bytes_at c (unat lba * unat bsize) (unat count * unat bsize) @
                        drop (unat count * unat bsize) buf))
        else Some (Inl InvalidParameter))\<rparr>"

lemma image_device_holds: "0 < bsize \<Longrightarrow> device_holds (image_device bsize nblocks c) c"
  by (simp add: device_holds_def image_device_def word_less_nat_alt)

section \<open>The drivers keep the contract\<close>

definition transfers_hold ::
    "nat \<Rightarrow> (u64 \<Rightarrow> u32 \<Rightarrow> 'e + u8 list) \<Rightarrow> block_device_info \<Rightarrow> medium \<Rightarrow> bool" where
  "transfers_hold limit transfer i c \<longleftrightarrow>
     0 < unat (block_size i) \<and>
     (\<forall>lba n. request_ok i lba n \<longrightarrow> unat n * unat (block_size i) \<le> limit \<longrightarrow>
        transfer lba n = Inr (bytes_at c (unat lba * unat (block_size i))
                                (unat n * unat (block_size i))))"

lemma page_loop_0 [simp]: "page_loop transfer per_page 0 lba = Some (Inr [])"
  by (simp add: page_loop.simps [of _ _ 0])

lemma page_loop_step:
  assumes "count \<noteq> 0" and "n = min count per_page" and "transfer lba n = Inr bs"
    and "page_loop transfer per_page (count - n) (lba + ucast n) = Some (Inr rest)"
  shows "page_loop transfer per_page count lba = Some (Inr (bs @ rest))"
  using assms by (subst page_loop.simps) (simp add: Let_def)

text \<open>Splitting a request into pages delivers the whole request, and ends.\<close>

lemma page_loop_reads:
  assumes "transfers_hold limit transfer i c"
    and "0 < unat per_page" and "unat per_page * unat (block_size i) \<le> limit"
    and "request_ok i lba count"
  shows "page_loop transfer per_page count lba =
    Some (Inr (bytes_at c (unat lba * unat (block_size i)) (unat count * unat (block_size i))))"
  using assms(4)
proof (induction "unat count" arbitrary: count lba rule: less_induct)
  case less
  let ?b = "unat (block_size i)"
  define n where "n = min count per_page"
  have n: "0 < unat n" "unat n \<le> unat count" "unat n \<le> unat per_page"
    using less.prems assms(2) by (auto simp: n_def min_def request_ok_def word_le_nat_alt)
  have "unat n * ?b \<le> limit"
    using n(3) assms(3) by (meson le_trans mult_le_mono1)
  then have first: "transfer lba n = Inr (bytes_at c (unat lba * ?b) (unat n * ?b))"
    using assms(1) request_ok_first [OF less.prems n(2,1)] by (simp add: transfers_hold_def)
  have cnt: "count \<noteq> 0"
    using less.prems by (auto simp: request_ok_def)
  have rest: "unat (count - n) = unat count - unat n"
    using n(2) by (simp add: unat_sub_le word_le_nat_alt)
  show ?case
  proof (cases "count - n = 0")
    case True
    then have "unat n = unat count"
      using rest n by simp
    moreover have "page_loop transfer per_page (count - n) (lba + ucast n) = Some (Inr [])"
      by (simp only: True page_loop_0)
    ultimately show ?thesis
      using page_loop_step [where transfer = transfer, OF cnt n_def first] by (simp only: append_Nil2)
  next
    case False
    then have pos: "0 < unat (count - n)"
      by (simp add: unat_gt_0)
    have sum: "unat n + unat (count - n) = unat count"
      using rest n(2) by simp
    have "unat (count - n) < unat count"
      using rest n by simp
    then have "page_loop transfer per_page (count - n) (lba + ucast n) =
      Some (Inr (bytes_at c (unat (lba + ucast n) * ?b) (unat (count - n) * ?b)))"
      by (rule less.hyps) (rule request_ok_sub(1) [OF less.prems sum pos])
    moreover have "unat (lba + ucast n) * ?b = unat lba * ?b + unat n * ?b"
      using request_ok_sub(2) [OF less.prems sum pos] by (simp add: add_mult_distrib)
    moreover have "unat count * ?b = unat n * ?b + unat (count - n) * ?b"
      by (simp only: sum flip: add_mult_distrib)
    ultimately show ?thesis
      using page_loop_step [where transfer = transfer, OF cnt n_def first] by (simp add: bytes_at_append)
  qed
qed

text \<open>
  The devices of \<open>block.rs\<close> hold a medium when the hardware behind them does: transfers of at most a
  page for the NVMe and the SD controller, of every request for AHCI, and single sectors for USB.
\<close>

definition usb_sectors_hold ::
    "(u64 \<Rightarrow> u8 list \<Rightarrow> (unit, u8 list) outcome) \<Rightarrow> block_device_info \<Rightarrow> medium \<Rightarrow> bool" where
  "usb_sectors_hold read i c \<longleftrightarrow>
     0 < unat (block_size i) \<and>
     (\<forall>lba buf. unat lba < unat (num_blocks i) \<longrightarrow> unat (block_size i) \<le> length buf \<longrightarrow>
        read lba buf = Some (Inr (bytes_at c (unat lba * unat (block_size i)) (unat (block_size i)) @
                                  drop (unat (block_size i)) buf)))"

definition any_holds :: "drivers \<Rightarrow> any_block_device \<Rightarrow> medium \<Rightarrow> bool" where
  "any_holds drv dev c \<longleftrightarrow>
     (case dev of
        Nvme d \<Rightarrow>
          (\<exists>ctl ns. get_controller (nvme_controllers drv) (nvme_id d) = Some ctl \<and>
             get_namespace ctl (nvme_nsid d) = Some ns \<and>
             ns_block_size ns = block_size (nvme_info d) \<and>
             unat (block_size (nvme_info d)) \<le> 4096 \<and>
             transfers_hold 4096 (nvme_transfer ctl (nvme_nsid d)) (nvme_info d) c)
      | Ahci d \<Rightarrow>
          (\<exists>ctl. get_controller (ahci_controllers drv) (ahci_id d) = Some ctl \<and>
             ahci_port_index d < length (ahci_ports ctl) \<and>
             transfers_hold (2 ^ 22) (ahci_transfer ctl (ahci_port_index d)) (ahci_info d) c)
      | Usb d \<Rightarrow>
          (\<exists>read. usb_sector drv = Some read \<and> usb_sectors_hold read (usb_info d) c)
      | Sdhci d \<Rightarrow>
          (\<exists>ctl. get_controller (sdhci_controllers drv) (sdhci_id d) = Some ctl \<and>
             card_initialized ctl \<and> block_size (sdhci_info d) = SD_BLOCK_SIZE \<and>
             transfers_hold 4096 (sd_transfer ctl) (sdhci_info d) c))"

lemma request_bytes_u64:
  assumes "request_ok i lba count"
  shows "unat ((ucast count :: u64) * ucast (block_size i)) = unat count * unat (block_size i)"
proof -
  have "unat (ucast count :: u64) = unat count"
    and "unat (ucast (block_size i) :: u64) = unat (block_size i)"
    by (rule unat_ucast_widen, simp)+
  moreover have "unat count * unat (block_size i) < 2 ^ 64"
    using assms by (simp add: request_ok_def)
  ultimately show ?thesis
    by (subst unat_mult_lem [THEN iffD1]) simp_all
qed

lemma deliver_ok:
  "length bs \<le> length buf \<Longrightarrow> deliver buf (Some (Inr bs)) = Some (Inr (bs @ drop (length bs) buf))"
  by (simp add: deliver_def put_data_def)

lemma nvme_read_sectors_reads:
  assumes "get_namespace ctl ns_id = Some ns" and "ns_block_size ns = block_size i"
    and "unat (block_size i) \<le> 4096" and hold: "transfers_hold 4096 (nvme_transfer ctl ns_id) i c"
    and ok: "request_ok i lba count"
  shows "nvme_read_sectors ctl ns_id lba count =
    Some (Inr (bytes_at c (unat lba * unat (block_size i)) (unat count * unat (block_size i))))"
proof -
  let ?b = "unat (block_size i)"
  have b: "0 < ?b"
    using hold by (simp add: transfers_hold_def)
  have cnt: "count \<noteq> 0"
    using ok by (auto simp: request_ok_def)
  have "unat (4096 div block_size i) = 4096 div ?b"
    by (simp add: unat_div_eq)
  then have "0 < unat (4096 div block_size i)" and "unat (4096 div block_size i) * ?b \<le> 4096"
    using b assms(3) by (simp_all add: div_greater_zero_iff)
  note loop = page_loop_reads [OF hold this ok]
  show ?thesis
  proof (cases "4096 < unat count * ?b")
    case True
    then show ?thesis
      using loop cnt assms(1,2) request_bytes_u64 [OF ok]
      by (simp add: nvme_read_sectors_def word_less_nat_alt)
  next
    case False
    then have "nvme_transfer ctl ns_id lba count = Inr (bytes_at c (unat lba * ?b) (unat count * ?b))"
      using hold ok by (simp add: transfers_hold_def)
    with False show ?thesis
      using cnt assms(1,2) request_bytes_u64 [OF ok]
      by (simp add: nvme_read_sectors_def word_less_nat_alt)
  qed
qed

lemma sdhci_read_sectors_reads:
  assumes "card_initialized ctl" and "block_size i = SD_BLOCK_SIZE"
    and hold: "transfers_hold 4096 (sd_transfer ctl) i c" and ok: "request_ok i lba count"
  shows "sdhci_read_sectors ctl lba count =
    Some (Inr (bytes_at c (unat lba * unat (block_size i)) (unat count * unat (block_size i))))"
proof -
  let ?b = "unat (block_size i)"
  have cnt: "count \<noteq> 0"
    using ok by (auto simp: request_ok_def)
  have b: "?b = 512"
    by (simp add: assms(2) SD_BLOCK_SIZE_def)
  have "unat (4096 div SD_BLOCK_SIZE) = 8"
    by (simp add: SD_BLOCK_SIZE_def unat_div_eq)
  then have "0 < unat (4096 div SD_BLOCK_SIZE)" and "unat (4096 div SD_BLOCK_SIZE) * ?b \<le> 4096"
    by (simp_all add: b)
  note loop = page_loop_reads [OF hold this ok]
  show ?thesis
  proof (cases "4096 < unat count * ?b")
    case True
    then show ?thesis
      using loop cnt assms(1,2) request_bytes_u64 [OF ok]
      by (simp add: sdhci_read_sectors_def word_less_nat_alt)
  next
    case False
    then have "sd_transfer ctl lba count = Inr (bytes_at c (unat lba * ?b) (unat count * ?b))"
      using hold ok by (simp add: transfers_hold_def)
    with False show ?thesis
      using cnt assms(1,2) request_bytes_u64 [OF ok]
      by (simp add: sdhci_read_sectors_def word_less_nat_alt)
  qed
qed

lemma usb_rest_reads:
  assumes "usb_sector drv = Some read" and hold: "usb_sectors_hold read i c"
    and ok: "request_ok i lba count" and "k \<le> unat count"
    and "unat count * unat (block_size i) \<le> k * unat (block_size i) + length rest"
  shows "usb_rest drv (unat (block_size i)) lba [k..<unat count]
      (bytes_at c (unat lba * unat (block_size i)) (k * unat (block_size i)) @ rest) =
    Some (Inr (bytes_at c (unat lba * unat (block_size i)) (unat count * unat (block_size i)) @
               drop ((unat count - k) * unat (block_size i)) rest))"
  using assms(4,5)
proof (induction "unat count - k" arbitrary: k rest)
  case 0
  then show ?case by simp
next
  case (Suc n)
  let ?b = "unat (block_size i)"
  have k: "k < unat count"
    using Suc.hyps(2) by simp
  then have list: "[k..<unat count] = k # [Suc k..<unat count]"
    by (simp add: upt_conv_Cons)
  have "unat lba + unat count < 2 ^ 64"
    using ok unat_u64_bound [of "num_blocks i"] by (simp add: request_ok_def)
  moreover have "unat (of_nat k :: u64) = k"
    using k calculation by (simp add: unat_of_nat)
  ultimately have lba: "unat (lba + of_nat k) = unat lba + k"
    using k by (subst unat_plus_less) auto
  have "(Suc k) * ?b \<le> unat count * ?b"
    using k by (intro mult_le_mono1) simp
  then have len: "?b \<le> length rest"
    using Suc.prems(2) by simp
  have "unat lba + k < unat (num_blocks i)"
    using ok k by (simp add: request_ok_def)
  then have rd: "read (lba + of_nat k) rest =
    Some (Inr (bytes_at c (unat lba * ?b + k * ?b) ?b @ drop ?b rest))"
    using hold len lba by (simp add: usb_sectors_hold_def add_mult_distrib)
  have app: "bytes_at c (unat lba * ?b) (k * ?b) @ bytes_at c (unat lba * ?b + k * ?b) ?b =
    bytes_at c (unat lba * ?b) (Suc k * ?b)"
    using bytes_at_append [of c "unat lba * ?b" "k * ?b" ?b] by (simp add: add.commute)
  have IH: "usb_rest drv ?b lba [Suc k..<unat count]
      (bytes_at c (unat lba * ?b) (Suc k * ?b) @ drop ?b rest) =
    Some (Inr (bytes_at c (unat lba * ?b) (unat count * ?b) @
               drop ((unat count - Suc k) * ?b) (drop ?b rest)))"
    using Suc.hyps(2) Suc.prems len k by (intro Suc.hyps(1)) auto
  have eq: "(unat count - k) * ?b = (unat count - Suc k) * ?b + ?b"
    using mult_Suc [of "unat count - Suc k" ?b] k by (simp only: Suc_diff_Suc add.commute)
  show ?case
    unfolding list
    using IH [folded app] rd assms(1) eq
    by (simp add: global_read_sector_def)
qed

lemma any_reads:
  assumes hold: "any_holds drv d c" and ok: "request_ok (any_info d) lba count"
    and len: "unat count * unat (block_size (any_info d)) \<le> length buf"
  shows "any_read_blocks drv d lba count buf =
    Some (Inr (bytes_at c (unat lba * unat (block_size (any_info d)))
                 (unat count * unat (block_size (any_info d))) @
               drop (unat count * unat (block_size (any_info d))) buf))"
proof (cases d)
  case (Nvme x)
  with hold obtain ctl ns where "get_controller (nvme_controllers drv) (nvme_id x) = Some ctl"
    and "get_namespace ctl (nvme_nsid x) = Some ns"
    and "ns_block_size ns = block_size (nvme_info x)" and "unat (block_size (nvme_info x)) \<le> 4096"
    and "transfers_hold 4096 (nvme_transfer ctl (nvme_nsid x)) (nvme_info x) c"
    by (auto simp: any_holds_def)
  moreover from this(2-5) have "nvme_read_sectors ctl (nvme_nsid x) lba count = Some (Inr (bytes_at c
      (unat lba * unat (block_size (nvme_info x))) (unat count * unat (block_size (nvme_info x)))))"
    using ok Nvme by (intro nvme_read_sectors_reads) (simp_all add: any_info_def)
  ultimately show ?thesis
    using len Nvme by (simp add: any_read_blocks_def any_info_def nvme_read_blocks_def deliver_ok)
next
  case (Ahci x)
  with hold obtain ctl where "get_controller (ahci_controllers drv) (ahci_id x) = Some ctl"
    and "ahci_port_index x < length (ahci_ports ctl)"
    and "transfers_hold (2 ^ 22) (ahci_transfer ctl (ahci_port_index x)) (ahci_info x) c"
    by (auto simp: any_holds_def)
  moreover from this(3) have "ahci_transfer ctl (ahci_port_index x) lba count = Inr (bytes_at c
      (unat lba * unat (block_size (ahci_info x))) (unat count * unat (block_size (ahci_info x))))"
    using ok Ahci by (simp add: transfers_hold_def any_info_def request_ok_def)
  ultimately show ?thesis
    using len Ahci
    by (simp add: any_read_blocks_def any_info_def ahci_read_blocks_def ahci_read_sectors_def
        deliver_ok)
next
  case (Usb x)
  let ?i = "usb_info x"
  let ?b = "unat (block_size ?i)"
  from Usb hold obtain read where read: "usb_sector drv = Some read"
    and sectors: "usb_sectors_hold read ?i c"
    by (auto simp: any_holds_def)
  have ok': "request_ok ?i lba count" and len': "unat count * ?b \<le> length buf"
    using ok len Usb by (simp_all add: any_info_def)
  have pos: "1 \<le> unat count"
    using ok' by (simp add: request_ok_def Suc_le_eq)
  then have "1 * ?b \<le> unat count * ?b"
    by (rule mult_le_mono1)
  then have "?b \<le> length buf"
    using len' by linarith
  moreover have "unat lba < unat (num_blocks ?i)"
    using ok' pos by (simp add: request_ok_def)
  ultimately have first: "global_read_sector drv lba buf =
    Some (Inr (bytes_at c (unat lba * ?b) (1 * ?b) @ drop ?b buf))"
    using sectors by (simp add: global_read_sector_def read usb_sectors_hold_def)
  have rest: "usb_rest drv ?b lba [1..<unat count]
      (bytes_at c (unat lba * ?b) (1 * ?b) @ drop ?b buf) =
    Some (Inr (bytes_at c (unat lba * ?b) (unat count * ?b) @
               drop ((unat count - 1) * ?b) (drop ?b buf)))"
    using len' \<open>?b \<le> length buf\<close> by (intro usb_rest_reads [OF read sectors ok' pos]) simp
  have eq: "unat count * ?b = (unat count - 1) * ?b + ?b"
    using pos by (simp add: diff_mult_distrib)
  show ?thesis
  proof (cases "count > 1")
    case True
    then show ?thesis
      using first rest eq Usb by (simp add: any_read_blocks_def any_info_def usb_read_blocks_def)
  next
    case False
    then have "unat count = 1"
      using pos by (simp add: word_less_nat_alt)
    with False show ?thesis
      using first Usb by (simp add: any_read_blocks_def any_info_def usb_read_blocks_def)
  qed
next
  case (Sdhci x)
  with hold obtain ctl where "get_controller (sdhci_controllers drv) (sdhci_id x) = Some ctl"
    and "card_initialized ctl" and "block_size (sdhci_info x) = SD_BLOCK_SIZE"
    and "transfers_hold 4096 (sd_transfer ctl) (sdhci_info x) c"
    by (auto simp: any_holds_def)
  moreover from this(2-4) have "sdhci_read_sectors ctl lba count = Some (Inr (bytes_at c
      (unat lba * unat (block_size (sdhci_info x))) (unat count * unat (block_size (sdhci_info x)))))"
    using ok Sdhci by (intro sdhci_read_sectors_reads) (simp_all add: any_info_def)
  ultimately show ?thesis
    using len Sdhci
    by (simp add: any_read_blocks_def any_info_def sdhci_read_blocks_def deliver_ok)
qed

interpretation any: block_reader any_info "any_read_blocks drv" "any_holds drv" for drv
proof unfold_locales
  show "0 < unat (block_size (any_info d))" if "any_holds drv d c" for d c
    using that by (auto simp: any_holds_def any_info_def transfers_hold_def usb_sectors_hold_def
        split: any_block_device.splits)
qed (rule any_reads)

lemma dyn_device_holds: "any_holds drv d c \<Longrightarrow> device_holds (dyn_device drv d) c"
  using any.size_pos any.reads by (simp add: device_holds_def dyn_device_def)

end
