(* ===== verification/Gpt.thy ===== *)
theory Gpt
  imports Block_Reader
begin

text \<open>
  GUID partition tables: \<open>src/src/fs/gpt.rs\<close>.

  The packed structures are decoded from the bytes of a block at their field offsets, as
  \<open>read_from_prefix\<close> does. Quantities of type \<open>usize\<close> are natural numbers: the number of bytes of the entry
  array is below \<open>2 ^ 64\<close> because both factors are 32 bits wide, and the byte position of the array,
  which may wrap, is taken modulo \<open>2 ^ 64\<close>.
\<close>

section \<open>On-disk structures\<close>

definition MAX_BLOCK_SIZE :: nat where
  "MAX_BLOCK_SIZE = 4096"

definition MIN_BLOCK_SIZE :: nat where
  "MIN_BLOCK_SIZE = 512"

definition GPT_SIGNATURE :: u64 where
  "GPT_SIGNATURE = 0x5452415020494645"

definition ESP_TYPE_GUID :: "u8 list" where
  "ESP_TYPE_GUID = [0x28, 0x73, 0x2a, 0xc1, 0x1f, 0xf8, 0xd2, 0x11, 0xba, 0x4b, 0x00, 0xa0, 0xc9,
                    0x3e, 0xc9, 0x3b]"

record gpt_header =
  signature :: u64
  revision :: u32
  header_size :: u32
  header_crc32 :: u32
  reserved :: u32
  current_lba :: u64
  backup_lba :: u64
  first_usable_lba :: u64
  last_usable_lba :: u64
  disk_guid :: "u8 list"
  partition_entry_lba :: u64
  num_partition_entries :: u32
  partition_entry_size :: u32
  partition_entry_crc32 :: u32

definition gpt_header_of :: "u8 list \<Rightarrow> gpt_header option" where
  "gpt_header_of bs =
     (if length bs < 92 then None
      else Some
        \<lparr>signature = of_nat (field bs 0 8), revision = of_nat (field bs 8 4),
         header_size = of_nat (field bs 12 4), header_crc32 = of_nat (field bs 16 4),
         reserved = of_nat (field bs 20 4), current_lba = of_nat (field bs 24 8),
         backup_lba = of_nat (field bs 32 8), first_usable_lba = of_nat (field bs 40 8),
         last_usable_lba = of_nat (field bs 48 8), disk_guid = slice 56 16 bs,
         partition_entry_lba = of_nat (field bs 72 8),
         num_partition_entries = of_nat (field bs 80 4),
         partition_entry_size = of_nat (field bs 84 4),
         partition_entry_crc32 = of_nat (field bs 88 4)\<rparr>)"

definition header_is_valid :: "gpt_header \<Rightarrow> bool" where
  "header_is_valid h \<longleftrightarrow> signature h = GPT_SIGNATURE"

record gpt_partition_entry =
  type_guid :: "u8 list"
  partition_guid :: "u8 list"
  first_lba :: u64
  last_lba :: u64
  attributes :: u64
  entry_name :: "u16 list"

definition gpt_entry_of :: "u8 list \<Rightarrow> gpt_partition_entry option" where
  "gpt_entry_of bs =
     (if length bs < 128 then None
      else Some
        \<lparr>type_guid = slice 0 16 bs, partition_guid = slice 16 16 bs,
         first_lba = of_nat (field bs 32 8), last_lba = of_nat (field bs 40 8),
         attributes = of_nat (field bs 48 8),
         entry_name = map (\<lambda>i. of_nat (field bs (56 + 2 * i) 2)) [0..<36]\<rparr>)"

definition is_empty :: "gpt_partition_entry \<Rightarrow> bool" where
  "is_empty e \<longleftrightarrow> type_guid e = replicate 16 0"

definition is_esp :: "gpt_partition_entry \<Rightarrow> bool" where
  "is_esp e \<longleftrightarrow> type_guid e = ESP_TYPE_GUID"

definition lba_count :: "u64 \<Rightarrow> u64 \<Rightarrow> u64" where
  "lba_count lo hi = (if hi \<ge> lo then hi - lo + 1 else 0)"

definition entry_size_sectors :: "gpt_partition_entry \<Rightarrow> u64" where
  "entry_size_sectors e = lba_count (first_lba e) (last_lba e)"

definition entry_size_bytes :: "gpt_partition_entry \<Rightarrow> u64" where
  "entry_size_bytes e = entry_size_sectors e * of_nat MIN_BLOCK_SIZE"

text \<open>
  \<open>name_ascii\<close> is at most 36 characters long and a character is one byte, so its string of 72 bytes never
  overflows.
\<close>

definition name_ascii :: "gpt_partition_entry \<Rightarrow> u8 list" where
  "name_ascii e = map (\<lambda>c. if c < 128 then ucast c else 0x3F) (takeWhile (\<lambda>c. c \<noteq> 0) (entry_name e))"

record gpt_partition =
  p_type_guid :: "u8 list"
  p_partition_guid :: "u8 list"
  p_first_lba :: u64
  p_last_lba :: u64
  p_attributes :: u64
  p_is_esp :: bool
  p_block_size :: u32

definition size_sectors :: "gpt_partition \<Rightarrow> u64" where
  "size_sectors p = lba_count (p_first_lba p) (p_last_lba p)"

definition size_bytes :: "gpt_partition \<Rightarrow> u64" where
  "size_bytes p = size_sectors p * ucast (p_block_size p)"

datatype gpt_error = ReadError | InvalidHeader | NoPartitions | NoEsp | BufferTooSmall

definition gpt_error_of_block :: "block_error \<Rightarrow> gpt_error" where
  "gpt_error_of_block e = (case e of InvalidParameter \<Rightarrow> BufferTooSmall | _ \<Rightarrow> ReadError)"

section \<open>Reading the header\<close>

definition read_gpt_header :: "block_device \<Rightarrow> (gpt_error, gpt_header) outcome" where
  "read_gpt_header dev =
     (let bsize = min (unat (block_size (info dev))) MAX_BLOCK_SIZE;
          (lba, gpt_offset) = if bsize > MIN_BLOCK_SIZE then (0, MIN_BLOCK_SIZE) else (1, 0)
      in and_then (map_err gpt_error_of_block
                     (read_block_at dev lba 0 bsize (replicate MAX_BLOCK_SIZE 0)))
           (\<lambda>buf. case gpt_header_of (drop gpt_offset buf) of
              None \<Rightarrow> Some (Inl InvalidHeader)
            | Some h \<Rightarrow> if \<not> header_is_valid h then Some (Inl InvalidHeader) else Some (Inr h)))"

section \<open>Reading the partition entries\<close>

definition MAX_PARTITIONS :: nat where
  "MAX_PARTITIONS = 16"

record scan =
  parts :: "gpt_partition list"
  entry_index :: nat
  consecutive_empty :: nat
  bytes_read :: nat

text \<open>The partition of an entry; \<open>bsize > 512\<close> is the hybrid case, where the LBAs count 512-byte blocks.\<close>

definition hybrid_lba :: "nat \<Rightarrow> u64 \<Rightarrow> u64" where
  "hybrid_lba bsize lba =
     (if bsize > MIN_BLOCK_SIZE then lba * of_nat MIN_BLOCK_SIZE div of_nat bsize else lba)"

definition partition_of :: "nat \<Rightarrow> gpt_partition_entry \<Rightarrow> gpt_partition" where
  "partition_of bsize e =
     \<lparr>p_type_guid = type_guid e, p_partition_guid = partition_guid e,
      p_first_lba = hybrid_lba bsize (first_lba e), p_last_lba = hybrid_lba bsize (last_lba e),
      p_attributes = attributes e, p_is_esp = is_esp e, p_block_size = of_nat bsize\<rparr>"

text \<open>
  What the loop does with one entry: \<open>Inr\<close> when it goes on, \<open>Inl\<close> when it takes \<open>break 'outer\<close>.
\<close>

definition process_entry :: "nat \<Rightarrow> gpt_partition_entry \<Rightarrow> scan \<Rightarrow> scan + scan" where
  "process_entry bsize e s =
     (if \<not> is_empty e then
        case vec_push MAX_PARTITIONS (parts s) (partition_of bsize e) of
          None \<Rightarrow> Inl (s\<lparr>consecutive_empty := 0\<rparr>)
        | Some ps \<Rightarrow> Inr (s\<lparr>consecutive_empty := 0, parts := ps\<rparr>)
      else
        let s = s\<lparr>consecutive_empty := consecutive_empty s + 1\<rparr>
        in if consecutive_empty s \<ge> 8 \<and> parts s \<noteq> [] then Inl s else Inr s)"

definition advance :: "nat \<Rightarrow> scan \<Rightarrow> scan" where
  "advance esize s = s\<lparr>bytes_read := bytes_read s + esize, entry_index := entry_index s + 1\<rparr>"

lemma process_entry_counters:
  "process_entry bsize e s = Inr s' \<Longrightarrow> bytes_read s' = bytes_read s \<and> entry_index s' = entry_index s"
  by (auto simp: process_entry_def Let_def split: if_splits option.splits)

text \<open>
  The loop over the entries of one block. It returns the new state, the position it stopped at, and
  whether \<open>break 'outer\<close> was taken.
\<close>

function block_entries ::
    "nat \<Rightarrow> nat \<Rightarrow> nat \<Rightarrow> u8 list \<Rightarrow> nat \<Rightarrow> scan \<Rightarrow> scan \<times> nat \<times> bool" where
  "block_entries bsize esize total_entries buf pos s =
     (if pos + esize \<le> bsize \<and> entry_index s < total_entries then
        case gpt_entry_of (drop pos buf) of
          None \<Rightarrow> (s, pos, False)
        | Some e \<Rightarrow>
            (case process_entry bsize e s of
               Inl s' \<Rightarrow> (s', pos, True)
             | Inr s' \<Rightarrow> block_entries bsize esize total_entries buf (pos + esize) (advance esize s'))
      else (s, pos, False))"
  by auto
termination
  by (relation "measure (\<lambda>(bsize, esize, total_entries, buf, pos, s). total_entries - entry_index s)")
     (auto simp: advance_def dest: process_entry_counters)

declare block_entries.simps [simp del]

text \<open>The block size of the scan, \<open>clamp(MIN_BLOCK_SIZE, MAX_BLOCK_SIZE)\<close>, and where the array starts.\<close>

definition scan_block_size :: "block_device \<Rightarrow> nat" where
  "scan_block_size dev = max MIN_BLOCK_SIZE (min (unat (block_size (info dev))) MAX_BLOCK_SIZE)"

definition entries_byte_offset :: "block_device \<Rightarrow> gpt_header \<Rightarrow> nat" where
  "entries_byte_offset dev h =
     (if scan_block_size dev > MIN_BLOCK_SIZE
      then unat (partition_entry_lba h) * MIN_BLOCK_SIZE mod 2 ^ 64
      else unat (partition_entry_lba h) * scan_block_size dev mod 2 ^ 64)"

text \<open>A block that yields no entry is skipped.\<close>

definition skip_block :: "nat \<Rightarrow> nat \<Rightarrow> nat \<Rightarrow> scan \<Rightarrow> scan" where
  "skip_block bsize off pos s =
     (if pos = off then s\<lparr>bytes_read := bytes_read s + (bsize - off)\<rparr> else s)"

lemma block_entries_progress:
  "block_entries bsize esize total_entries buf pos s = (s', pos', False) \<Longrightarrow>
   pos \<le> pos' \<and> bytes_read s' = bytes_read s + (pos' - pos)"
proof (induction bsize esize total_entries buf pos s rule: block_entries.induct)
  case (1 bsize esize total_entries buf pos s)
  show ?case
  proof (cases "pos + esize \<le> bsize \<and> entry_index s < total_entries")
    case False
    with "1.prems" show ?thesis
      by (subst (asm) block_entries.simps) auto
  next
    case True
    show ?thesis
    proof (cases "gpt_entry_of (drop pos buf)")
      case None
      with True "1.prems" show ?thesis
        by (subst (asm) block_entries.simps) simp
    next
      case (Some e)
      with True "1.prems" obtain s1 where p: "process_entry bsize e s = Inr s1"
        and "block_entries bsize esize total_entries buf (pos + esize) (advance esize s1) =
          (s', pos', False)"
        by (subst (asm) block_entries.simps) (auto split: sum.splits)
      with "1.IH" [OF True Some p] process_entry_counters [OF p] show ?thesis
        by (auto simp: advance_def)
    qed
  qed
qed

text \<open>The loop over the blocks of the entry array.\<close>

function read_entries ::
    "block_device \<Rightarrow> gpt_header \<Rightarrow> u8 list \<Rightarrow> scan \<Rightarrow> (gpt_error, scan) outcome" where
  "read_entries dev h buf s =
     (let bsize = scan_block_size dev;
          esize = unat (partition_entry_size h);
          total_entries = unat (num_partition_entries h)
      in if bytes_read s < total_entries * esize then
           let current = (entries_byte_offset dev h + bytes_read s) mod 2 ^ 64;
               off = current mod bsize
           in case read_block_at dev (of_nat (current div bsize)) 0 bsize buf of
                None \<Rightarrow> None
              | Some (Inl e) \<Rightarrow>
                  if parts s \<noteq> [] then Some (Inr s) else Some (Inl (gpt_error_of_block e))
              | Some (Inr buf') \<Rightarrow>
                  (case block_entries bsize esize total_entries buf' off s of
                     (s', pos, stop) \<Rightarrow>
                       if stop then Some (Inr s')
                       else read_entries dev h buf' (skip_block bsize off pos s'))
         else Some (Inr s))"
  by pat_completeness auto
termination
proof (relation "measure (\<lambda>(dev, h, buf, s).
    unat (num_partition_entries h) * unat (partition_entry_size h) - bytes_read s)", goal_cases)
  case 1
  then show ?case by simp
next
  case (2 dev h buf s bsize esize total_entries current off r bs s' q pos stop)
  have "0 < bsize"
    using 2(1) by (simp add: scan_block_size_def MIN_BLOCK_SIZE_def)
  then have "off < bsize"
    using 2(6) by simp
  have "\<not> stop"
    using 2 by blast
  then have "off \<le> pos" and "bytes_read s' = bytes_read s + (pos - off)"
    using 2 block_entries_progress [of bsize esize total_entries bs off s s' pos] by auto
  then have "bytes_read s < bytes_read (skip_block bsize off pos s')"
    using \<open>off < bsize\<close> by (auto simp: skip_block_def)
  then show ?case
    using 2 by simp
qed

declare read_entries.simps [simp del]

definition read_partitions :: "block_device \<Rightarrow> gpt_header \<Rightarrow> (gpt_error, gpt_partition list) outcome" where
  "read_partitions dev h =
     and_then (read_entries dev h (replicate MAX_BLOCK_SIZE 0)
                 \<lparr>parts = [], entry_index = 0, consecutive_empty = 0, bytes_read = 0\<rparr>)
       (\<lambda>s. if parts s = [] then Some (Inl NoPartitions) else Some (Inr (parts s)))"

definition find_esp :: "block_device \<Rightarrow> (gpt_error, gpt_partition) outcome" where
  "find_esp dev =
     and_then (read_gpt_header dev) (\<lambda>h.
     and_then (read_partitions dev h) (\<lambda>ps.
       case find p_is_esp ps of None \<Rightarrow> Some (Inl NoEsp) | Some p \<Rightarrow> Some (Inr p)))"

end
