(* ===== verification/Gpt_Correct.thy ===== *)
theory Gpt_Correct
  imports Gpt
begin

text \<open>
  The partition scan against the table on the medium: reading block by block gives what a scan of the
  list of all entries gives, whatever the block size, and the EFI system partition that is found is the
  first one of the table.
\<close>

section \<open>Decoding depends on a prefix only\<close>

lemma slice_take: "off + n \<le> k \<Longrightarrow> slice off n (take k bs) = slice off n bs"
  by (simp add: slice_def drop_take min_def)

lemma field_take: "off + n \<le> k \<Longrightarrow> field (take k bs) off n = field bs off n"
  by (simp add: field_def slice_take)

lemma gpt_entry_of_take: "128 \<le> length bs \<Longrightarrow> gpt_entry_of bs = gpt_entry_of (take 128 bs)"
  by (simp add: gpt_entry_of_def slice_take field_take)

lemma gpt_header_of_take: "92 \<le> length bs \<Longrightarrow> gpt_header_of bs = gpt_header_of (take 92 bs)"
  by (simp add: gpt_header_of_def slice_take field_take)

lemma take_drop_block:
  assumes "pos + n \<le> bsize"
  shows "take n (drop pos (bytes_at c B bsize @ rest)) = bytes_at c (B + pos) n"
  using assms by (simp add: drop_bytes_at take_bytes_at)

section \<open>The scan of a list of entries\<close>

definition entry_at :: "medium \<Rightarrow> nat \<Rightarrow> gpt_partition_entry" where
  "entry_at c off = the (gpt_entry_of (bytes_at c off 128))"

lemma gpt_entry_of_bytes_at: "gpt_entry_of (bytes_at c off 128) = Some (entry_at c off)"
  by (simp add: entry_at_def gpt_entry_of_def)

lemma gpt_entry_of_block:
  assumes "pos + 128 \<le> bsize"
  shows "gpt_entry_of (drop pos (bytes_at c B bsize @ rest)) = Some (entry_at c (B + pos))"
  using assms gpt_entry_of_take [of "drop pos (bytes_at c B bsize @ rest)"]
  by (simp only: take_drop_block gpt_entry_of_bytes_at) simp

fun scan_table ::
    "nat \<Rightarrow> gpt_partition_entry list \<Rightarrow> nat \<Rightarrow> gpt_partition list \<Rightarrow> gpt_partition list" where
  "scan_table bsize [] empties ps = ps"
| "scan_table bsize (e # es) empties ps =
     (if is_empty e then
        if 8 \<le> empties + 1 \<and> ps \<noteq> [] then ps else scan_table bsize es (empties + 1) ps
      else if length ps < MAX_PARTITIONS then scan_table bsize es 0 (ps @ [partition_of bsize e])
      else ps)"

lemma scan_table_step:
  "scan_table bsize (e # es) (consecutive_empty s) (parts s) =
     (case process_entry bsize e s of
        Inl s' \<Rightarrow> parts s'
      | Inr s' \<Rightarrow> scan_table bsize es (consecutive_empty s') (parts s'))"
  by (auto simp: process_entry_def Let_def vec_push_def)

text \<open>The list of the entries of a table, from its \<open>k\<close>-th entry on.\<close>

definition table_from :: "medium \<Rightarrow> nat \<Rightarrow> nat \<Rightarrow> nat \<Rightarrow> nat \<Rightarrow> gpt_partition_entry list" where
  "table_from c start esize n k = map (\<lambda>i. entry_at c (start + i * esize)) [k..<n]"

lemma table_from_Cons:
  "k < n \<Longrightarrow> table_from c start esize n k =
     entry_at c (start + k * esize) # table_from c start esize n (Suc k)"
  by (simp add: table_from_def upt_conv_Cons)

lemma table_from_end [simp]: "table_from c start esize n n = []"
  by (simp add: table_from_def)

section \<open>One block\<close>

lemma block_entries_scan:
  assumes "block_entries bsize esize n (bytes_at c B bsize @ rest) pos s = (s', pos', stop)"
    and "128 \<le> esize" and "esize dvd bsize" and "esize dvd pos" and "pos \<le> bsize"
    and "start + entry_index s * esize = B + pos" and "bytes_read s = entry_index s * esize"
    and "entry_index s \<le> n"
  shows "scan_table bsize (table_from c start esize n (entry_index s)) (consecutive_empty s) (parts s) =
      (if stop then parts s'
       else scan_table bsize (table_from c start esize n (entry_index s')) (consecutive_empty s')
              (parts s'))
    \<and> (\<not> stop \<longrightarrow> bytes_read s' = entry_index s' * esize \<and> entry_index s' \<le> n
         \<and> (pos' = bsize \<or> entry_index s' = n))"
  using assms
proof (induction bsize esize n "bytes_at c B bsize @ rest" pos s rule: block_entries.induct)
  case (1 bsize esize n pos s)
  note step = "1.prems"(1) [unfolded block_entries.simps [of bsize esize n _ pos s]]
  show ?case
  proof (cases "pos + esize \<le> bsize \<and> entry_index s < n")
    case False
    have "pos = bsize" if "\<not> pos + esize \<le> bsize"
    proof -
      obtain a b where "pos = esize * a" and "bsize = esize * b"
        using "1.prems"(3,4) by (auto elim!: dvdE)
      with that "1.prems"(5) have "esize * b < esize * (a + 1)" and "esize * a \<le> esize * b"
        by (simp_all add: algebra_simps)
      then have "b < a + 1" and "a \<le> b"
        using "1.prems"(2) by (simp_all only: mult_less_cancel1 mult_le_cancel1)
      then have "a = b" by simp
      then show ?thesis
        using \<open>pos = esize * a\<close> \<open>bsize = esize * b\<close> by simp
    qed
    with False step "1.prems"(7,8) show ?thesis
      by auto
  next
    case True
    let ?e = "entry_at c (start + entry_index s * esize)"
    have entry: "gpt_entry_of (drop pos (bytes_at c B bsize @ rest)) = Some ?e"
      using True "1.prems"(2,6) gpt_entry_of_block [of pos bsize c B rest] by simp
    have table: "table_from c start esize n (entry_index s) =
      ?e # table_from c start esize n (Suc (entry_index s))"
      using True by (simp add: table_from_Cons)
    show ?thesis
    proof (cases "process_entry bsize ?e s")
      case (Inl s1)
      with step True entry have "s' = s1" and "stop"
        by auto
      with Inl show ?thesis
        by (simp add: table scan_table_step del: scan_table.simps)
    next
      case (Inr s1)
      then have run: "block_entries bsize esize n (bytes_at c B bsize @ rest) (pos + esize)
          (advance esize s1) = (s', pos', stop)"
        using step True entry by simp
      have cnt: "entry_index (advance esize s1) = Suc (entry_index s)"
        "bytes_read (advance esize s1) = bytes_read s + esize"
        "consecutive_empty (advance esize s1) = consecutive_empty s1"
        "parts (advance esize s1) = parts s1"
        using process_entry_counters [OF Inr] by (simp_all add: advance_def)
      have "scan_table bsize (table_from c start esize n (entry_index (advance esize s1)))
          (consecutive_empty (advance esize s1)) (parts (advance esize s1)) =
        (if stop then parts s'
         else scan_table bsize (table_from c start esize n (entry_index s')) (consecutive_empty s')
                (parts s'))
        \<and> (\<not> stop \<longrightarrow> bytes_read s' = entry_index s' * esize \<and> entry_index s' \<le> n
             \<and> (pos' = bsize \<or> entry_index s' = n))"
        using True "1.prems"(2-8)
        by (intro "1.hyps" [OF True entry Inr run]) (auto simp: cnt)
      then show ?thesis
        by (simp add: table scan_table_step cnt Inr del: scan_table.simps)
    qed
  qed
qed

section \<open>The whole array\<close>

text \<open>
  The situation in which the scan is exact: the device holds a medium in blocks of 512 to 4096 bytes, the
  entry array is on it, and no entry straddles two blocks.
\<close>

definition gpt_layout :: "block_device \<Rightarrow> medium \<Rightarrow> gpt_header \<Rightarrow> bool" where
  "gpt_layout dev c h \<longleftrightarrow>
     (let bsize = unat (block_size (info dev));
          esize = unat (partition_entry_size h);
          start = unat (partition_entry_lba h) * 512
      in device_holds dev c \<and> 512 dvd bsize \<and> 512 \<le> bsize \<and> bsize \<le> 4096 \<and>
         128 \<le> esize \<and> esize dvd bsize \<and> esize dvd start \<and>
         start + unat (num_partition_entries h) * esize \<le> unat (num_blocks (info dev)) * bsize \<and>
         unat (num_blocks (info dev)) * bsize \<le> 2 ^ 64)"

definition table :: "medium \<Rightarrow> gpt_header \<Rightarrow> gpt_partition_entry list" where
  "table c h = table_from c (unat (partition_entry_lba h) * 512) (unat (partition_entry_size h))
                 (unat (num_partition_entries h)) 0"

lemma scan_block_size_layout:
  "gpt_layout dev c h \<Longrightarrow> scan_block_size dev = unat (block_size (info dev))"
  by (simp add: gpt_layout_def scan_block_size_def MIN_BLOCK_SIZE_def MAX_BLOCK_SIZE_def Let_def)

text \<open>A block of the medium is read into the front of the buffer.\<close>

lemma read_block_at_front:
  assumes "device_holds dev c" and "lba < unat (num_blocks (info dev))"
    and "unat (block_size (info dev)) = bsize" and "bsize \<le> 4096" and "length buf = MAX_BLOCK_SIZE"
  shows "read_block_at dev (of_nat lba) 0 bsize buf =
    Some (Inr (bytes_at c (lba * bsize) bsize @ drop bsize buf))"
proof -
  have "lba < 2 ^ 64"
    using assms(2) unat_u64_bound [of "num_blocks (info dev)"] by linarith
  then have "unat (of_nat lba :: u64) = lba"
    by (simp add: unat_of_nat)
  moreover have "length (slice 0 bsize buf) = bsize"
    using assms(4,5) by (simp add: slice_def MAX_BLOCK_SIZE_def)
  ultimately show ?thesis
    using dyn.reads_block [OF assms(1), of "of_nat lba" "slice 0 bsize buf"] assms
    by (simp add: read_block_at_def read_block_def MAX_BLOCK_SIZE_def)
qed

lemma entries_byte_offset_layout:
  assumes "gpt_layout dev c h" and "0 < unat (num_partition_entries h)"
  shows "entries_byte_offset dev h = unat (partition_entry_lba h) * 512"
proof -
  have "unat (partition_entry_lba h) * 512 < 2 ^ 64"
  proof -
    let ?a = "unat (num_partition_entries h) * unat (partition_entry_size h)"
    have "0 < ?a" and "unat (partition_entry_lba h) * 512 + ?a \<le> 2 ^ 64"
      using assms unfolding gpt_layout_def Let_def by (auto intro: le_trans)
    then show ?thesis by linarith
  qed
  moreover have "\<not> scan_block_size dev > MIN_BLOCK_SIZE \<Longrightarrow> scan_block_size dev = 512"
    by (simp add: scan_block_size_def MIN_BLOCK_SIZE_def)
  ultimately show ?thesis
    by (cases "scan_block_size dev > MIN_BLOCK_SIZE")
       (simp_all add: entries_byte_offset_def MIN_BLOCK_SIZE_def)
qed

lemma read_entries_scan:
  assumes lay: "gpt_layout dev c h" and "length buf = MAX_BLOCK_SIZE"
    and "bytes_read s = entry_index s * unat (partition_entry_size h)"
    and "entry_index s \<le> unat (num_partition_entries h)"
  shows "\<exists>s'. read_entries dev h buf s = Some (Inr s') \<and>
    parts s' = scan_table (unat (block_size (info dev)))
      (table_from c (unat (partition_entry_lba h) * 512) (unat (partition_entry_size h))
         (unat (num_partition_entries h)) (entry_index s))
      (consecutive_empty s) (parts s)"
  using assms(2-4)
proof (induction "unat (num_partition_entries h) - entry_index s" arbitrary: buf s rule: less_induct)
  case less
  let ?b = "unat (block_size (info dev))" and ?z = "unat (partition_entry_size h)"
  let ?n = "unat (num_partition_entries h)" and ?start = "unat (partition_entry_lba h) * 512"
  note bsize = scan_block_size_layout [OF lay]
  have L: "device_holds dev c" "512 \<le> ?b" "?b \<le> 4096" "128 \<le> ?z" "?z dvd ?b" "?z dvd ?start"
    "?start + ?n * ?z \<le> unat (num_blocks (info dev)) * ?b"
    "unat (num_blocks (info dev)) * ?b \<le> 2 ^ 64"
    using lay unfolding gpt_layout_def Let_def by blast+
  show ?case
  proof (cases "entry_index s < ?n")
    case False
    with less.prems(3) have "entry_index s = ?n" by simp
    with less.prems(2) show ?thesis
      by (simp add: read_entries.simps [of dev h] Let_def)
  next
    case True
    define cur where "cur = ?start + bytes_read s"
    define off where "off = cur mod ?b"
    have "bytes_read s + ?z \<le> ?n * ?z"
      using True less.prems(2) mult_le_mono1 [of "Suc (entry_index s)" ?n ?z] by simp
    then have "cur + ?z \<le> unat (num_blocks (info dev)) * ?b"
      using L(7) by (simp add: cur_def)
    moreover have run: "bytes_read s < ?n * ?z"
      using \<open>bytes_read s + ?z \<le> ?n * ?z\<close> L(4) by linarith
    ultimately have cur: "cur < 2 ^ 64" "cur div ?b < unat (num_blocks (info dev))"
      using L(2,4,8) by (simp_all add: div_less_iff_less_mult)
    have here: "(entries_byte_offset dev h + bytes_read s) mod 2 ^ 64 = cur"
      using entries_byte_offset_layout [OF lay] True cur(1) by (simp add: cur_def)
    have "off < ?b" and "cur div ?b * ?b + off = cur"
      using L(2) by (simp_all add: off_def)
    have "?z dvd off"
      unfolding off_def cur_def using L(5,6) less.prems(2) by (simp add: dvd_mod)
    obtain s1 pos stop where blk: "block_entries ?b ?z ?n
        (bytes_at c (cur div ?b * ?b) ?b @ drop ?b buf) off s = (s1, pos, stop)"
      by (metis prod_cases3)
    have S: "scan_table ?b (table_from c ?start ?z ?n (entry_index s)) (consecutive_empty s) (parts s) =
        (if stop then parts s1
         else scan_table ?b (table_from c ?start ?z ?n (entry_index s1)) (consecutive_empty s1)
                (parts s1))
      \<and> (\<not> stop \<longrightarrow> bytes_read s1 = entry_index s1 * ?z \<and> entry_index s1 \<le> ?n
           \<and> (pos = ?b \<or> entry_index s1 = ?n))"
      using L(4,5) \<open>?z dvd off\<close> \<open>off < ?b\<close> \<open>cur div ?b * ?b + off = cur\<close> less.prems(2,3)
      by (intro block_entries_scan [OF blk]) (simp_all add: cur_def)
    let ?buf' = "bytes_at c (cur div ?b * ?b) ?b @ drop ?b buf"
    have rd: "read_block_at dev (of_nat (cur div ?b)) 0 ?b buf = Some (Inr ?buf')"
      using read_block_at_front [OF L(1) cur(2) refl L(3) less.prems(1)] .
    have unfold: "read_entries dev h buf s =
      (if stop then Some (Inr s1) else read_entries dev h ?buf' (skip_block ?b off pos s1))"
      unfolding read_entries.simps [of dev h buf s] bsize Let_def here
      using run rd blk by (simp add: off_def)
    show ?thesis
    proof (cases stop)
      case True
      with S unfold show ?thesis by simp
    next
      case False
      have prog: "off \<le> pos" "bytes_read s1 = bytes_read s + (pos - off)"
        using block_entries_progress [of ?b ?z ?n ?buf' off s s1 pos] blk False by simp_all
      have "pos \<noteq> off"
        using S False prog \<open>off < ?b\<close> less.prems(2) True L(4) by auto
      then have same: "skip_block ?b off pos s1 = s1"
        by (simp add: skip_block_def)
      have "entry_index s * ?z < entry_index s1 * ?z"
        using prog \<open>pos \<noteq> off\<close> S False less.prems(2) by simp
      then have "entry_index s < entry_index s1"
        by simp
      then have "?n - entry_index s1 < ?n - entry_index s"
        using True by simp
      then have "\<exists>s'. read_entries dev h ?buf' s1 = Some (Inr s') \<and>
        parts s' = scan_table ?b (table_from c ?start ?z ?n (entry_index s1)) (consecutive_empty s1)
          (parts s1)"
        using S False less.prems(1) L(3) by (intro less.hyps) (simp_all add: MAX_BLOCK_SIZE_def)
      then show ?thesis
        using unfold S False same by simp
    qed
  qed
qed

lemma read_partitions_scan:
  assumes "gpt_layout dev c h"
  shows "read_partitions dev h =
    (let ps = scan_table (unat (block_size (info dev))) (table c h) 0 []
     in if ps = [] then Some (Inl NoPartitions) else Some (Inr ps))"
  using read_entries_scan [OF assms, of "replicate MAX_BLOCK_SIZE 0"
      "\<lparr>parts = [], entry_index = 0, consecutive_empty = 0, bytes_read = 0\<rparr>"]
  by (auto simp: read_partitions_def table_def Let_def)

section \<open>The header\<close>

text \<open>Whatever the block size, the header that is read is the one at byte 512 of the medium.\<close>

lemma read_gpt_header_reads:
  assumes "device_holds dev c" and "512 dvd unat (block_size (info dev))"
    and "unat (block_size (info dev)) \<le> 4096" and "1 < unat (num_blocks (info dev))"
  shows "read_gpt_header dev =
    (case gpt_header_of (bytes_at c 512 92) of
       None \<Rightarrow> Some (Inl InvalidHeader)
     | Some h \<Rightarrow> if header_is_valid h then Some (Inr h) else Some (Inl InvalidHeader))"
proof -
  let ?b = "unat (block_size (info dev))"
  have pos: "0 < ?b"
    using assms(1) by (rule dyn.size_pos)
  define lba where "lba = (if ?b > 512 then 0 else 1 :: nat)"
  define off where "off = (if ?b > 512 then 512 else 0 :: nat)"
  let ?buf = "bytes_at c (lba * ?b) ?b @ drop ?b (replicate MAX_BLOCK_SIZE 0)"
  have rd: "read_block_at dev (of_nat lba) 0 ?b (replicate MAX_BLOCK_SIZE 0) = Some (Inr ?buf)"
    using assms by (intro read_block_at_front) (auto simp: lba_def)
  obtain k where k: "?b = 512 * k" and "0 < k"
    using assms(2) pos by (auto elim!: dvdE)
  then have "lba * ?b + off = 512" and "off + 92 \<le> ?b"
    by (auto simp: lba_def off_def)
  then have "take 92 (drop off ?buf) = bytes_at c 512 92"
    using take_drop_block [of off 92 ?b c "lba * ?b"] by simp
  moreover have "92 \<le> length (drop off ?buf)"
    using \<open>off + 92 \<le> ?b\<close> by simp
  ultimately have hdr: "gpt_header_of (drop off ?buf) = gpt_header_of (bytes_at c 512 92)"
    by (simp only: gpt_header_of_take [of "drop off ?buf"])
  have "min ?b MAX_BLOCK_SIZE = ?b"
    using assms(3) by (simp add: MAX_BLOCK_SIZE_def)
  then have "read_gpt_header dev = and_then (map_err gpt_error_of_block
      (read_block_at dev (of_nat lba) 0 ?b (replicate MAX_BLOCK_SIZE 0)))
    (\<lambda>buf. case gpt_header_of (drop off buf) of
       None \<Rightarrow> Some (Inl InvalidHeader)
     | Some h \<Rightarrow> if \<not> header_is_valid h then Some (Inl InvalidHeader) else Some (Inr h))"
    by (simp add: read_gpt_header_def lba_def off_def MIN_BLOCK_SIZE_def)
  then show ?thesis
    by (simp only: rd map_err_simps and_then_simps hdr) (auto split: option.split)
qed

section \<open>What the scan finds\<close>

lemma scan_table_sound:
  "p \<in> set (scan_table bsize es k ps) \<Longrightarrow>
   p \<in> set ps \<or> (\<exists>e \<in> set es. \<not> is_empty e \<and> p = partition_of bsize e)"
  by (induction bsize es k ps rule: scan_table.induct) (auto split: if_splits)

lemma scan_table_prefix: "\<exists>more. scan_table bsize es k ps = ps @ more"
proof (induction bsize es k ps rule: scan_table.induct)
  case (2 bsize e es k ps)
  then show ?case
    by (cases "is_empty e"; cases "length ps < MAX_PARTITIONS") auto
qed simp

lemma scan_table_bound: "length ps \<le> MAX_PARTITIONS \<Longrightarrow> length (scan_table bsize es k ps) \<le> MAX_PARTITIONS"
  by (induction bsize es k ps rule: scan_table.induct) auto

text \<open>
  A gap is a run of eight empty entries after a used one: the scan does not look behind it. Entries in
  front of the first gap are all found, as long as there is room for them.
\<close>

definition no_gap :: "gpt_partition_entry list \<Rightarrow> bool" where
  "no_gap es \<longleftrightarrow> (\<forall>a b d. es = a @ b @ d \<longrightarrow> (\<exists>x \<in> set a. \<not> is_empty x) \<longrightarrow>
     (\<forall>x \<in> set b. is_empty x) \<longrightarrow> length b < 8)"

lemma no_gap_Cons: "no_gap (x # es) \<Longrightarrow> no_gap es"
  unfolding no_gap_def by (metis append_Cons list.set_intros(2))

lemma scan_table_reaches:
  assumes "no_gap pre" and "length ps + length (filter (\<lambda>x. \<not> is_empty x) pre) \<le> MAX_PARTITIONS"
    and "ps \<noteq> [] \<Longrightarrow> \<forall>b d. pre = b @ d \<longrightarrow> (\<forall>x \<in> set b. is_empty x) \<longrightarrow> k + length b < 8"
  shows "\<exists>k'. scan_table bsize (pre @ post) k ps =
    scan_table bsize post k' (ps @ map (partition_of bsize) (filter (\<lambda>x. \<not> is_empty x) pre))"
  using assms
proof (induction pre arbitrary: k ps)
  case Nil
  then show ?case by auto
next
  case (Cons x pre)
  have gap: "no_gap pre"
    using Cons.prems(1) by (rule no_gap_Cons)
  show ?case
  proof (cases "is_empty x")
    case True
    have "\<not> 8 \<le> k + 1" if "ps \<noteq> []"
      using Cons.prems(3) [OF that, rule_format, of "[x]" pre] True by simp
    moreover have "\<exists>k'. scan_table bsize (pre @ post) (k + 1) ps =
      scan_table bsize post k' (ps @ map (partition_of bsize) (filter (\<lambda>x. \<not> is_empty x) pre))"
    proof (rule Cons.IH [OF gap])
      show "length ps + length (filter (\<lambda>x. \<not> is_empty x) pre) \<le> MAX_PARTITIONS"
        using Cons.prems(2) True by simp
      show "\<forall>b d. pre = b @ d \<longrightarrow> (\<forall>x \<in> set b. is_empty x) \<longrightarrow> k + 1 + length b < 8" if "ps \<noteq> []"
      proof (intro allI impI)
        fix b d
        assume "pre = b @ d" and "\<forall>x \<in> set b. is_empty x"
        with Cons.prems(3) [OF that, rule_format, of "x # b" d] True
        show "k + 1 + length b < 8" by auto
      qed
    qed
    ultimately show ?thesis
      using True by auto
  next
    case False
    have "\<forall>b d. pre = b @ d \<longrightarrow> (\<forall>x \<in> set b. is_empty x) \<longrightarrow> length b < 8"
      using Cons.prems(1) False unfolding no_gap_def
      by (metis append_Cons append_Nil list.set_intros(1))
    then have "\<exists>k'. scan_table bsize (pre @ post) 0 (ps @ [partition_of bsize x]) =
      scan_table bsize post k' ((ps @ [partition_of bsize x]) @
        map (partition_of bsize) (filter (\<lambda>x. \<not> is_empty x) pre))"
      using Cons.prems(2) False by (intro Cons.IH [OF gap]) auto
    then show ?thesis
      using False Cons.prems(2) by auto
  qed
qed

lemma scan_table_exact:
  assumes "no_gap es" and "length (filter (\<lambda>e. \<not> is_empty e) es) \<le> MAX_PARTITIONS"
  shows "scan_table bsize es 0 [] = map (partition_of bsize) (filter (\<lambda>e. \<not> is_empty e) es)"
  using scan_table_reaches [of es "[]" 0 bsize "[]"] assms by auto

lemma esp_not_empty: "is_esp e \<Longrightarrow> \<not> is_empty e"
proof -
  have "ESP_TYPE_GUID \<noteq> replicate 16 0"
    by code_simp
  then show "is_esp e \<Longrightarrow> \<not> is_empty e"
    by (simp add: is_esp_def is_empty_def)
qed

lemma p_is_esp_partition_of [simp]: "p_is_esp (partition_of bsize e) = is_esp e"
  by (simp add: partition_of_def)

lemma find_append: "find P (xs @ ys) = (case find P xs of None \<Rightarrow> find P ys | Some x \<Rightarrow> Some x)"
  by (induction xs) auto

text \<open>The first system partition in front of a gap is the one that is found.\<close>

lemma scan_table_finds_esp:
  assumes "no_gap pre" and "length (filter (\<lambda>x. \<not> is_empty x) pre) < MAX_PARTITIONS"
    and "is_esp e" and "\<forall>x \<in> set pre. \<not> is_esp x"
  shows "find p_is_esp (scan_table bsize (pre @ e # post) 0 []) = Some (partition_of bsize e)"
proof -
  let ?ps = "map (partition_of bsize) (filter (\<lambda>x. \<not> is_empty x) pre)"
  obtain k where "scan_table bsize (pre @ e # post) 0 [] = scan_table bsize (e # post) k ?ps"
    using scan_table_reaches [of pre "[]" 0 bsize "e # post"] assms(1,2) by auto
  then have "scan_table bsize (pre @ e # post) 0 [] =
    scan_table bsize post 0 (?ps @ [partition_of bsize e])"
    using esp_not_empty [OF assms(3)] assms(2) by simp
  then obtain more where scan: "scan_table bsize (pre @ e # post) 0 [] =
    (?ps @ [partition_of bsize e]) @ more"
    using scan_table_prefix [of bsize post 0 "?ps @ [partition_of bsize e]"] by auto
  have "find p_is_esp ?ps = None"
    using assms(4) by (auto simp: find_None_iff_all)
  then show ?thesis
    unfolding scan find_append using assms(3) by simp
qed

end
