(* ===== verification/Gpt_Props.thy ===== *)
theory Gpt_Props
  imports Gpt_Correct
begin

text \<open>
  The properties of the partition table reader, with a small disk on which they are instantiated.
\<close>

section \<open>A small disk\<close>

text \<open>A table of two entries at LBA 2: the EFI system partition at LBA 2048 to 4095, and an empty entry.\<close>

definition sample_header :: "u8 list" where
  "sample_header = le_bytes 8 0x5452415020494645 @ le_bytes 4 0x10000 @ le_bytes 4 92 @
     replicate 8 0 @ le_bytes 8 1 @ le_bytes 8 8191 @ le_bytes 8 34 @ le_bytes 8 8158 @
     replicate 16 7 @ le_bytes 8 2 @ le_bytes 4 2 @ le_bytes 4 128 @ le_bytes 4 0"

definition sample_entry :: "u8 list" where
  "sample_entry = ESP_TYPE_GUID @ replicate 16 9 @ le_bytes 8 2048 @ le_bytes 8 4095 @
     replicate 8 0 @ replicate 72 0"

definition sample_disk :: medium where
  "sample_disk i =
     (if 512 \<le> i \<and> i < 604 then sample_header ! (i - 512)
      else if 1024 \<le> i \<and> i < 1152 then sample_entry ! (i - 1024) else 0)"

definition sample_gpt :: gpt_header where
  "sample_gpt = the (gpt_header_of sample_header)"

definition sample_device :: block_device where
  "sample_device = image_device 512 8192 sample_disk"

lemma length_samples: "length sample_header = 92" "length sample_entry = 128"
  by (simp_all add: sample_header_def sample_entry_def ESP_TYPE_GUID_def)

lemma sample_bytes:
  "bytes_at sample_disk 512 92 = sample_header"
  "bytes_at sample_disk 1024 128 = sample_entry"
  "bytes_at sample_disk 1152 128 = replicate 128 0"
  by (rule nth_equalityI; simp add: length_samples sample_disk_def)+

lemma sample_gpt_fields:
  "gpt_header_of sample_header = Some sample_gpt"
  "header_is_valid sample_gpt"
  "partition_entry_lba sample_gpt = 2" "num_partition_entries sample_gpt = 2"
  "partition_entry_size sample_gpt = 128"
  by (simp_all add: sample_gpt_def gpt_header_of_def length_samples header_is_valid_def
      GPT_SIGNATURE_def field_def slice_def sample_header_def le_nat_le_bytes)

lemma sample_device_info:
  "block_size (info sample_device) = 512" "num_blocks (info sample_device) = 8192"
  "device_holds sample_device sample_disk"
  by (simp_all add: sample_device_def image_device_holds) (simp_all add: image_device_def)

lemma sample_layout: "gpt_layout sample_device sample_disk sample_gpt"
  by (simp add: gpt_layout_def Let_def sample_device_info sample_gpt_fields)

definition sample_esp :: gpt_partition_entry where
  "sample_esp = the (gpt_entry_of sample_entry)"

definition empty_entry :: gpt_partition_entry where
  "empty_entry = the (gpt_entry_of (replicate 128 0))"

lemma sample_table: "table sample_disk sample_gpt = [sample_esp, empty_entry]"
  by (simp add: table_def table_from_def sample_gpt_fields entry_at_def sample_bytes sample_esp_def
      empty_entry_def upt_rec)

lemma sample_esp_fields:
  "type_guid sample_esp = ESP_TYPE_GUID" "first_lba sample_esp = 2048" "last_lba sample_esp = 4095"
  by (simp_all add: sample_esp_def gpt_entry_of_def length_samples field_def slice_def
      sample_entry_def ESP_TYPE_GUID_def le_nat_le_bytes)

lemma sample_entries: "is_esp sample_esp" "\<not> is_empty sample_esp" "is_empty empty_entry"
proof -
  show "is_esp sample_esp"
    by (simp add: is_esp_def sample_esp_fields)
  then show "\<not> is_empty sample_esp"
    by (rule esp_not_empty)
  show "is_empty empty_entry"
    by (simp add: is_empty_def empty_entry_def gpt_entry_of_def slice_def)
qed

section \<open>Properties\<close>



lemma find_esp_eq:
  assumes "device_holds dev c" and "512 dvd unat (block_size (info dev))"
    and "unat (block_size (info dev)) \<le> 4096" and "1 < unat (num_blocks (info dev))"
    and "gpt_header_of (bytes_at c 512 92) = Some h" and "header_is_valid h" and "gpt_layout dev c h"
  shows "find_esp dev =
    (let ps = scan_table (unat (block_size (info dev))) (table c h) 0 []
     in if ps = [] then Some (Inl NoPartitions)
        else case find p_is_esp ps of None \<Rightarrow> Some (Inl NoEsp) | Some p \<Rightarrow> Some (Inr p))"
  using read_gpt_header_reads [OF assms(1-4)] assms(5,6) read_partitions_scan [OF assms(7)]
  by (simp add: find_esp_def Let_def)

text \<open>\<open>find_esp\<close> on a medium with a valid header at byte 512: what it returns is the partition of an entry
  of the table with the type GUID of an EFI system partition, and an EFI system partition is found, the
  first one of the table, whenever no run of eight empty entries and fewer than sixteen used entries are
  in front of it.
\<close>

theorem find_esp_correct:
  assumes "device_holds dev c" and "512 dvd unat (block_size (info dev))"
    and "unat (block_size (info dev)) \<le> 4096" and "1 < unat (num_blocks (info dev))"
    and "gpt_header_of (bytes_at c 512 92) = Some h" and "header_is_valid h" and "gpt_layout dev c h"
  shows "(\<forall>p. find_esp dev = Some (Inr p) \<longrightarrow>
      (\<exists>e \<in> set (table c h). is_esp e \<and> p = partition_of (unat (block_size (info dev))) e))
    \<and> (\<forall>pre e post. table c h = pre @ e # post \<longrightarrow> is_esp e \<longrightarrow> (\<forall>x \<in> set pre. \<not> is_esp x) \<longrightarrow>
         no_gap pre \<longrightarrow> length (filter (\<lambda>x. \<not> is_empty x) pre) < MAX_PARTITIONS \<longrightarrow>
         find_esp dev = Some (Inr (partition_of (unat (block_size (info dev))) e)))"
proof (intro conjI allI impI)
  let ?b = "unat (block_size (info dev))"
  fix p
  assume "find_esp dev = Some (Inr p)"
  then have "p \<in> set (scan_table ?b (table c h) 0 [])" and "p_is_esp p"
    unfolding find_esp_eq [OF assms]
    by (auto simp: Let_def split: if_splits option.splits dest: find_SomeD)
  with scan_table_sound [of p ?b "table c h" 0 "[]"]
  show "\<exists>e \<in> set (table c h). is_esp e \<and> p = partition_of ?b e"
    by auto
next
  let ?b = "unat (block_size (info dev))"
  fix pre e post
  assume "table c h = pre @ e # post" and "is_esp e" and "\<forall>x \<in> set pre. \<not> is_esp x"
    and "no_gap pre" and "length (filter (\<lambda>x. \<not> is_empty x) pre) < MAX_PARTITIONS"
  then have "find p_is_esp (scan_table ?b (table c h) 0 []) = Some (partition_of ?b e)"
    by (simp add: scan_table_finds_esp)
  then show "find_esp dev = Some (Inr (partition_of ?b e))"
    unfolding find_esp_eq [OF assms] by (auto simp: Let_def)
qed

theorem find_esp_correct_witness:
  "find_esp sample_device = Some (Inr (partition_of 512 sample_esp)) \<and>
   p_first_lba (partition_of 512 sample_esp) = 2048 \<and> size_bytes (partition_of 512 sample_esp) = 1048576"
proof -
  have "no_gap []"
    by (simp add: no_gap_def)
  moreover have "gpt_header_of (bytes_at sample_disk 512 92) = Some sample_gpt"
    by (simp add: sample_bytes sample_gpt_fields)
  ultimately have "find_esp sample_device = Some (Inr (partition_of 512 sample_esp))"
    using find_esp_correct [of sample_device sample_disk sample_gpt, THEN conjunct2, rule_format,
        of "[]" sample_esp "[empty_entry]"] sample_layout sample_table
    by (simp add: sample_device_info sample_gpt_fields sample_entries MAX_PARTITIONS_def)
  moreover have "p_first_lba (partition_of 512 sample_esp) = 2048"
    and "size_bytes (partition_of 512 sample_esp) = 1048576"
    by (simp_all add: sample_esp_fields size_bytes_def size_sectors_def lba_count_def partition_of_def
        hybrid_lba_def MIN_BLOCK_SIZE_def)
  ultimately show ?thesis by blast
qed

section \<open>Limits of the scan\<close>

text \<open>
  On a disk with blocks of 4096 bytes the UEFI specification puts the header at LBA 1, byte 4096; the code
  looks at byte 512 of LBA 0, where such a disk has zeros in its protective MBR block.
\<close>

theorem native_4k_header_not_found:
  assumes "device_holds dev c" and "block_size (info dev) = 4096" and "1 < unat (num_blocks (info dev))"
    and "\<forall>i < 8. c (512 + i) = 0"
  shows "read_gpt_header dev = Some (Inl InvalidHeader)"
proof -
  have "slice 0 8 (bytes_at c 512 92) = replicate 8 0"
    using assms(4) by (intro nth_equalityI) (simp_all add: slice_def)
  then have "field (bytes_at c 512 92) 0 8 = 0"
    by (simp add: field_def numeral_eq_Suc)
  then have "\<forall>h. gpt_header_of (bytes_at c 512 92) = Some h \<longrightarrow> \<not> header_is_valid h"
    by (auto simp: gpt_header_of_def header_is_valid_def GPT_SIGNATURE_def)
  then show ?thesis
    using read_gpt_header_reads [OF assms(1)] assms(2,3) by (auto split: option.split)
qed

end
