(* ===== verification/Iso9660.thy ===== *)
theory Iso9660
  imports Gpt_Correct
begin

text \<open>
  El Torito boot images on ISO 9660 media: \<open>src/src/fs/iso9660.rs\<close>, and what it finds compared with the boot
  catalogue of the medium.

  The sector number of a descriptor in device blocks is below \<open>2 ^ 32 * 2048\<close>, so the 64-bit products are
  natural numbers here.
\<close>

section \<open>Structures\<close>

definition ISO_SECTOR_SIZE :: nat where
  "ISO_SECTOR_SIZE = 2048"

definition BOOT_RECORD_SECTOR :: nat where
  "BOOT_RECORD_SECTOR = 17"

definition EL_TORITO_SIGNATURE :: "u8 list" where
  "EL_TORITO_SIGNATURE = [0x45, 0x4C, 0x20, 0x54, 0x4F, 0x52, 0x49, 0x54, 0x4F, 0x20, 0x53, 0x50, 0x45,
     0x43, 0x49, 0x46, 0x49, 0x43, 0x41, 0x54, 0x49, 0x4F, 0x4E]"

definition CD001_SIGNATURE :: "u8 list" where
  "CD001_SIGNATURE = [0x43, 0x44, 0x30, 0x30, 0x31]"

definition PLATFORM_EFI :: u8 where
  "PLATFORM_EFI = 0xEF"

record validation_entry =
  header_id :: u8
  platform_id :: u8
  key55 :: u8
  keyaa :: u8

record boot_entry =
  boot_indicator :: u8
  boot_media_type :: u8
  load_segment :: u16
  system_type :: u8
  sector_count16 :: u16
  load_rba :: u32

record section_header =
  header_indicator :: u8
  section_platform :: u8
  section_entries :: u16

record efi_boot_image =
  start_sector :: u64
  boot_sector_count :: u32
  boot_size_bytes :: u64

datatype iso_error = IsoReadError | NotIso9660 | NoElTorito | NoEfiEntry | InvalidCatalog

definition iso_error_of_block :: "block_error \<Rightarrow> iso_error" where
  "iso_error_of_block e = IsoReadError"

text \<open>Records of the catalogue are decoded at their offset in the sector buffer.\<close>

definition validation_at :: "u8 list \<Rightarrow> validation_entry" where
  "validation_at buf = \<lparr>header_id = buf ! 0, platform_id = buf ! 1, key55 = buf ! 30, keyaa = buf ! 31\<rparr>"

definition boot_entry_at :: "u8 list \<Rightarrow> nat \<Rightarrow> boot_entry" where
  "boot_entry_at buf off =
     \<lparr>boot_indicator = buf ! off, boot_media_type = buf ! (off + 1),
      load_segment = of_nat (field buf (off + 2) 2), system_type = buf ! (off + 4),
      sector_count16 = of_nat (field buf (off + 6) 2), load_rba = of_nat (field buf (off + 8) 4)\<rparr>"

definition section_header_at :: "u8 list \<Rightarrow> nat \<Rightarrow> section_header" where
  "section_header_at buf off =
     \<lparr>header_indicator = buf ! off, section_platform = buf ! (off + 1),
      section_entries = of_nat (field buf (off + 2) 2)\<rparr>"

section \<open>Finding the boot image\<close>

text \<open>
  Read one 2048-byte sector into the sector buffer: several device blocks when they are smaller, one block
  otherwise. A block of more than 2048 bytes does not fit and the slice panics.
\<close>

fun read_sector_blocks ::
    "block_device \<Rightarrow> nat \<Rightarrow> nat \<Rightarrow> nat list \<Rightarrow> u8 list \<Rightarrow> (iso_error, u8 list) outcome" where
  "read_sector_blocks dev bsize sector [] buf = Some (Inr buf)"
| "read_sector_blocks dev bsize sector (i # is) buf =
     and_then (map_err iso_error_of_block
                 (read_block_at dev (of_nat (sector + i)) (i * bsize) bsize buf))
       (read_sector_blocks dev bsize sector is)"

definition read_iso_sector :: "block_device \<Rightarrow> nat \<Rightarrow> nat \<Rightarrow> u8 list \<Rightarrow> (iso_error, u8 list) outcome" where
  "read_iso_sector dev bsize sector buf =
     (if bsize < ISO_SECTOR_SIZE
      then read_sector_blocks dev bsize sector [0..<ISO_SECTOR_SIZE div bsize] buf
      else map_err iso_error_of_block (read_block_at dev (of_nat sector) 0 bsize buf))"

text \<open>The image of a boot entry; \<open>ratio\<close> is the number of device blocks in a 2048-byte sector.\<close>

definition default_image :: "nat \<Rightarrow> boot_entry \<Rightarrow> efi_boot_image" where
  "default_image ratio e =
     \<lparr>start_sector = ucast (load_rba e) * of_nat ratio,
      boot_sector_count = ucast (sector_count16 e) * of_nat ratio,
      boot_size_bytes = ucast (sector_count16 e) * of_nat ISO_SECTOR_SIZE\<rparr>"

definition section_image :: "nat \<Rightarrow> boot_entry \<Rightarrow> efi_boot_image" where
  "section_image ratio e =
     (let count = (ucast (sector_count16 e) :: u32)
      in \<lparr>start_sector = ucast (load_rba e) * of_nat ratio,
          boot_sector_count = (if count > 0 then count * of_nat ratio else 0),
          boot_size_bytes = (if count > 0 then ucast count * of_nat ISO_SECTOR_SIZE else 0)\<rparr>)"

text \<open>The loop over the entries of a section: an image, or the offset behind the entries looked at.\<close>

fun scan_section :: "nat \<Rightarrow> u8 list \<Rightarrow> u8 \<Rightarrow> nat \<Rightarrow> nat \<Rightarrow> nat + efi_boot_image" where
  "scan_section ratio buf platform 0 off = Inl off"
| "scan_section ratio buf platform (Suc n) off =
     (if off + 32 > ISO_SECTOR_SIZE then Inl off
      else let e = boot_entry_at buf off
           in if platform = PLATFORM_EFI \<and> boot_indicator e = 0x88 then Inr (section_image ratio e)
              else scan_section ratio buf platform n (off + 32))"

lemma scan_section_offset: "scan_section ratio buf platform n off = Inl off' \<Longrightarrow> off \<le> off'"
  by (induction ratio buf platform n off rule: scan_section.induct)
     (auto simp: Let_def split: if_splits)

function scan_sections :: "nat \<Rightarrow> u8 list \<Rightarrow> nat \<Rightarrow> efi_boot_image option" where
  "scan_sections ratio buf off =
     (if off + 32 \<le> ISO_SECTOR_SIZE then
        let header = section_header_at buf off
        in if header_indicator header \<noteq> 0x90 \<and> header_indicator header \<noteq> 0x91 then None
           else case scan_section ratio buf (section_platform header)
                       (unat (section_entries header)) (off + 32) of
                  Inr img \<Rightarrow> Some img
                | Inl off' \<Rightarrow>
                    if header_indicator header = 0x91 then None else scan_sections ratio buf off'
      else None)"
  by auto
termination
  by (relation "measure (\<lambda>(ratio, buf, off). ISO_SECTOR_SIZE - off)")
     (auto dest!: scan_section_offset)

declare scan_sections.simps [simp del]

definition find_efi_boot_image :: "block_device \<Rightarrow> (iso_error, efi_boot_image) outcome" where
  "find_efi_boot_image dev =
     (let bsize = unat (block_size (info dev))
      in if bsize = 0 then None
         else let ratio = ISO_SECTOR_SIZE div bsize in
           and_then (read_iso_sector dev bsize (BOOT_RECORD_SECTOR * ratio)
                       (replicate ISO_SECTOR_SIZE 0)) (\<lambda>buf.
           if slice 1 5 buf \<noteq> CD001_SIGNATURE then Some (Inl NotIso9660)
           else if buf ! 0 \<noteq> 0 then Some (Inl NoElTorito)
           else if slice 7 (length EL_TORITO_SIGNATURE) buf \<noteq> EL_TORITO_SIGNATURE
           then Some (Inl NoElTorito)
           else
             let catalog_sector = field buf 0x47 4 in
             and_then (read_iso_sector dev bsize (catalog_sector * ratio) buf) (\<lambda>buf.
             let validation = validation_at buf in
             if header_id validation \<noteq> 1 \<or> key55 validation \<noteq> 0x55 \<or> keyaa validation \<noteq> 0xAA
             then Some (Inl InvalidCatalog)
             else
               let default_entry = boot_entry_at buf 32 in
               if platform_id validation = PLATFORM_EFI \<and> boot_indicator default_entry = 0x88
               then Some (Inr (default_image ratio default_entry))
               else case scan_sections ratio buf 64 of
                      Some img \<Rightarrow> Some (Inr img)
                    | None \<Rightarrow> Some (Inl NoEfiEntry))))"

text \<open>
  \<open>is_iso9660\<close> reads a block into a buffer of eight bytes. Read errors give false.
\<close>

definition is_iso9660 :: "block_device \<Rightarrow> bool option" where
  "is_iso9660 dev =
     (let bsize = unat (block_size (info dev))
      in if bsize = 0 then None
         else case read_block dev (of_nat (16 * (ISO_SECTOR_SIZE div bsize))) (replicate 8 0) of
                None \<Rightarrow> None
              | Some (Inl e) \<Rightarrow> Some False
              | Some (Inr buf) \<Rightarrow> Some (slice 1 5 buf = CD001_SIGNATURE))"

section \<open>Reading sectors\<close>

lemma read_sector_blocks_reads:
  assumes "device_holds dev c" and "unat (block_size (info dev)) = bsize" and "bsize \<le> 4096"
    and "sector + n \<le> unat (num_blocks (info dev))"
    and "k \<le> n" and "n * bsize \<le> length buf"
    and "take (k * bsize) buf = bytes_at c (sector * bsize) (k * bsize)"
  shows "read_sector_blocks dev bsize sector [k..<n] buf =
    Some (Inr (bytes_at c (sector * bsize) (n * bsize) @ drop (n * bsize) buf))"
  using assms(5-7)
proof (induction "n - k" arbitrary: k buf)
  case 0
  then show ?case
    using append_take_drop_id [of "n * bsize" buf] by simp
next
  case (Suc m)
  have k: "k < n"
    using Suc.hyps(2) by simp
  then have list: "[k..<n] = k # [Suc k..<n]"
    by (simp add: upt_conv_Cons)
  have room: "k * bsize + bsize \<le> n * bsize"
    using k mult_le_mono1 [of "Suc k" n bsize] by simp
  let ?buf = "take (k * bsize) buf @ bytes_at c ((sector + k) * bsize) bsize @
    drop (k * bsize + bsize) buf"
  have rd: "read_block_at dev (of_nat (sector + k)) (k * bsize) bsize buf = Some (Inr ?buf)"
    using assms(4) k room Suc.prems(2) by (intro read_block_at_middle assms(1-3)) auto
  have take: "take (Suc k * bsize) ?buf = bytes_at c (sector * bsize) (Suc k * bsize)"
    using bytes_at_append [of c "sector * bsize" "k * bsize" bsize] Suc.prems(2,3) room
    by (simp add: add_mult_distrib min_def add.commute [of bsize])
  have "read_sector_blocks dev bsize sector [Suc k..<n] ?buf =
    Some (Inr (bytes_at c (sector * bsize) (n * bsize) @ drop (n * bsize) ?buf))"
    using Suc.hyps(2) Suc.prems(2) k room take by (intro Suc.hyps(1)) auto
  moreover have "drop (n * bsize) ?buf = drop (n * bsize) buf"
  proof -
    have "length (take (k * bsize) buf) = k * bsize"
      using room Suc.prems(2) by simp
    then show ?thesis
      using room k by (simp add: drop_append)
  qed
  ultimately show ?case
    unfolding list using rd by simp
qed

text \<open>A sector is read as the bytes at its offset, for every block size that divides 2048.\<close>

lemma read_iso_sector_reads:
  assumes "device_holds dev c" and "unat (block_size (info dev)) = bsize" and "bsize dvd 2048"
    and "sector * (2048 div bsize) + 2048 div bsize \<le> unat (num_blocks (info dev))"
    and "length buf = 2048"
  shows "read_iso_sector dev bsize (sector * (2048 div bsize)) buf =
    Some (Inr (bytes_at c (sector * 2048) 2048))"
proof -
  have le: "bsize \<le> 2048" and eq: "2048 div bsize * bsize = 2048"
    using assms(3) by (simp_all add: dvd_imp_le)
  then have start: "sector * (2048 div bsize) * bsize = sector * 2048"
    by (simp only: mult.assoc)
  show ?thesis
  proof (cases "bsize < 2048")
    case True
    then show ?thesis
      using read_sector_blocks_reads [OF assms(1,2) _ assms(4), of 0 buf] assms(5) eq le start
      by (simp add: read_iso_sector_def ISO_SECTOR_SIZE_def)
  next
    case False
    with le have "bsize = 2048" by simp
    with assms show ?thesis
      using read_block_at_middle [OF assms(1), of sector 2048 0 buf]
      by (simp add: read_iso_sector_def ISO_SECTOR_SIZE_def)
  qed
qed

section \<open>The boot catalogue\<close>

text \<open>
  The catalogue as El Torito describes it: records of 32 bytes, the validation entry, the default entry, and
  sections, each a header followed by its entries. The boot image for UEFI is the default entry when the
  validation entry names the EFI platform, otherwise the first bootable entry of an EFI section.
\<close>

definition records :: "u8 list \<Rightarrow> u8 list list" where
  "records sector = map (\<lambda>i. slice (32 * i) 32 sector) [0..<64]"

definition bootable :: "u8 list \<Rightarrow> bool" where
  "bootable r \<longleftrightarrow> r ! 0 = 0x88"

fun efi_section_entry :: "u8 list list \<Rightarrow> u8 list option" where
  "efi_section_entry [] = None"
| "efi_section_entry (h # rs) =
     (if h ! 0 \<noteq> 0x90 \<and> h ! 0 \<noteq> 0x91 then None
      else let n = field h 2 2;
               hit = (if h ! 1 = PLATFORM_EFI then find bootable (take n rs) else None)
           in case hit of
                Some r \<Rightarrow> Some r
              | None \<Rightarrow> if h ! 0 = 0x91 then None else efi_section_entry (drop n rs))"

definition efi_catalogue_image :: "nat \<Rightarrow> u8 list \<Rightarrow> efi_boot_image option" where
  "efi_catalogue_image ratio sector =
     (case records sector of
        v # d # rs \<Rightarrow>
          if v ! 1 = PLATFORM_EFI \<and> bootable d then Some (default_image ratio (boot_entry_at d 0))
          else map_option (\<lambda>r. section_image ratio (boot_entry_at r 0)) (efi_section_entry rs)
      | _ \<Rightarrow> None)"

lemma length_records [simp]: "length (records buf) = 64"
  by (simp add: records_def)

lemma nth_records: "k < 64 \<Longrightarrow> records buf ! k = slice (32 * k) 32 buf"
  by (simp add: records_def)

lemma record_decode:
  assumes "length buf = 2048" and "k < 64"
  shows "boot_entry_at buf (32 * k) = boot_entry_at (records buf ! k) 0"
    and "section_header_at buf (32 * k) = section_header_at (records buf ! k) 0"
    and "buf ! (32 * k) = (records buf ! k) ! 0"
  using assms
  by (simp_all add: boot_entry_at_def section_header_at_def nth_records field_def slice_slice nth_slice)

lemma boot_indicator_at: "boot_indicator (boot_entry_at r off) = r ! off"
  by (simp add: boot_entry_at_def)

lemma drop_records_Cons:
  "k < 64 \<Longrightarrow> drop k (records buf) = records buf ! k # drop (Suc k) (records buf)"
  by (simp add: Cons_nth_drop_Suc)

lemma scan_section_find:
  assumes "length buf = 2048" and "k \<le> 64"
  shows "scan_section ratio buf platform n (32 * k) =
    (case (if platform = PLATFORM_EFI then find bootable (take n (drop k (records buf))) else None) of
       Some r \<Rightarrow> Inr (section_image ratio (boot_entry_at r 0))
     | None \<Rightarrow> Inl (32 * min 64 (k + n)))"
  using assms(2)
proof (induction n arbitrary: k)
  case 0
  then show ?case by simp
next
  case (Suc n)
  show ?case
  proof (cases "k < 64")
    case False
    with Suc.prems have "k = 64" by simp
    then show ?thesis
      by (simp add: ISO_SECTOR_SIZE_def)
  next
    case True
    have "scan_section ratio buf platform n (32 * Suc k) =
      (case (if platform = PLATFORM_EFI then find bootable (take n (drop (Suc k) (records buf)))
             else None) of
         Some r \<Rightarrow> Inr (section_image ratio (boot_entry_at r 0))
       | None \<Rightarrow> Inl (32 * min 64 (k + Suc n)))"
      using True Suc.IH [of "Suc k"] unfolding add_Suc_shift [of k n] by (simp del: mult_Suc_right)
    then show ?thesis
      using True record_decode [OF assms(1) True]
      by (auto simp: drop_records_Cons ISO_SECTOR_SIZE_def Let_def bootable_def boot_indicator_at
          add.commute)
  qed
qed

lemma section_header_fields:
  "header_indicator (section_header_at r 0) = r ! 0"
  "section_platform (section_header_at r 0) = r ! 1"
  "length r = 32 \<Longrightarrow> unat (section_entries (section_header_at r 0)) = field r 2 2"
proof -
  show "header_indicator (section_header_at r 0) = r ! 0"
    "section_platform (section_header_at r 0) = r ! 1"
    by (simp_all add: section_header_at_def)
  assume "length r = 32"
  then have "length (slice 2 2 r) = 2"
    by (simp add: slice_def)
  then have "field r 2 2 < 2 ^ 16"
    using le_nat_bound [of "slice 2 2 r"] by (simp add: field_def)
  then show "unat (section_entries (section_header_at r 0)) = field r 2 2"
    by (simp add: section_header_at_def unat_of_nat del: add_2_eq_Suc add_2_eq_Suc')
qed

lemma scan_sections_entry:
  assumes "length buf = 2048" and "k \<le> 64"
  shows "scan_sections ratio buf (32 * k) =
    map_option (\<lambda>r. section_image ratio (boot_entry_at r 0)) (efi_section_entry (drop k (records buf)))"
  using assms(2)
proof (induction "64 - k" arbitrary: k rule: less_induct)
  case less
  show ?case
  proof (cases "k < 64")
    case False
    with less.prems have "k = 64" by simp
    then show ?thesis
      by (simp add: scan_sections.simps ISO_SECTOR_SIZE_def)
  next
    case True
    let ?h = "records buf ! k" and ?rs = "drop (Suc k) (records buf)"
    have "length ?h = 32"
      using True assms(1) by (simp add: nth_records slice_def)
    then have h: "section_header_at buf (32 * k) = section_header_at ?h 0"
      "unat (section_entries (section_header_at ?h 0)) = field ?h 2 2"
      using record_decode [OF assms(1) True] section_header_fields by simp_all
    let ?hit = "if ?h ! 1 = PLATFORM_EFI then find bootable (take (field ?h 2 2) ?rs) else None"
    have sec: "scan_section ratio buf (?h ! 1) (field ?h 2 2) (32 * k + 32) =
      (case ?hit of Some r \<Rightarrow> Inr (section_image ratio (boot_entry_at r 0))
       | None \<Rightarrow> Inl (32 * min 64 (Suc k + field ?h 2 2)))"
      using True scan_section_find [OF assms(1), of "Suc k"] by (simp add: add.commute)
    have next_sec: "scan_sections ratio buf (32 * min 64 (Suc k + field ?h 2 2)) =
      map_option (\<lambda>r. section_image ratio (boot_entry_at r 0))
        (efi_section_entry (drop (field ?h 2 2) ?rs))"
    proof -
      let ?m = "min 64 (Suc k + field ?h 2 2)"
      have "drop ?m (records buf) = drop (field ?h 2 2) ?rs"
        by (cases "Suc k + field ?h 2 2 \<le> 64") (simp_all add: add.commute)
      moreover have "scan_sections ratio buf (32 * ?m) = map_option
        (\<lambda>r. section_image ratio (boot_entry_at r 0)) (efi_section_entry (drop ?m (records buf)))"
        using True by (intro less.hyps) auto
      ultimately show ?thesis by simp
    qed
    define m where "m = 32 * min 64 (Suc k + field ?h 2 2)"
    have "scan_sections ratio buf (32 * k) =
      (if ?h ! 0 \<noteq> 0x90 \<and> ?h ! 0 \<noteq> 0x91 then None
       else case scan_section ratio buf (?h ! 1) (field ?h 2 2) (32 * k + 32) of
              Inr img \<Rightarrow> Some img
            | Inl off' \<Rightarrow> if ?h ! 0 = 0x91 then None else scan_sections ratio buf off')"
      using True
      by (auto simp: scan_sections.simps [of ratio buf "32 * k"] ISO_SECTOR_SIZE_def Let_def h
          section_header_fields split: sum.split)
    then show ?thesis
      unfolding sec [folded m_def] drop_records_Cons [OF True] efi_section_entry.simps Let_def
      by (cases ?hit) (simp_all add: next_sec [folded m_def] del: One_nat_def drop_drop)
  qed
qed

text \<open>The boot record of a medium: the sector of its boot catalogue.\<close>

definition el_torito_catalogue :: "medium \<Rightarrow> iso_error + nat" where
  "el_torito_catalogue c =
     (let brvd = bytes_at c (17 * 2048) 2048
      in if slice 1 5 brvd \<noteq> CD001_SIGNATURE then Inl NotIso9660
         else if brvd ! 0 \<noteq> 0 \<or> slice 7 23 brvd \<noteq> EL_TORITO_SIGNATURE then Inl NoElTorito
         else Inr (field brvd 0x47 4))"

definition catalogue_valid :: "u8 list \<Rightarrow> bool" where
  "catalogue_valid sector \<longleftrightarrow> sector ! 0 = 1 \<and> sector ! 30 = 0x55 \<and> sector ! 31 = 0xAA"

lemma catalogue_image_eq:
  assumes "length buf = 2048"
  shows "efi_catalogue_image ratio buf =
    (if buf ! 1 = PLATFORM_EFI \<and> boot_indicator (boot_entry_at buf 32) = 0x88
     then Some (default_image ratio (boot_entry_at buf 32)) else scan_sections ratio buf 64)"
proof -
  have split: "records buf = records buf ! 0 # records buf ! 1 # drop 2 (records buf)"
    using drop_records_Cons [of 0 buf] drop_records_Cons [of 1 buf] by (simp add: numeral_2_eq_2)
  have "records buf ! 0 ! 1 = buf ! 1"
    using assms by (simp add: nth_records nth_slice)
  moreover have "boot_entry_at buf 32 = boot_entry_at (records buf ! 1) 0"
    using record_decode(1) [OF assms, of 1] by simp
  moreover have "scan_sections ratio buf 64 =
    map_option (\<lambda>r. section_image ratio (boot_entry_at r 0)) (efi_section_entry (drop 2 (records buf)))"
    using scan_sections_entry [OF assms, of 2 ratio] by simp
  moreover have "efi_catalogue_image ratio buf =
    (if records buf ! 0 ! 1 = PLATFORM_EFI \<and> bootable (records buf ! 1)
     then Some (default_image ratio (boot_entry_at (records buf ! 1) 0))
     else map_option (\<lambda>r. section_image ratio (boot_entry_at r 0)) (efi_section_entry (drop 2 (records buf))))"
    unfolding efi_catalogue_image_def by (subst split) (simp only: list.case)
  ultimately show ?thesis
    by (simp add: bootable_def boot_indicator_at)
qed

lemma find_efi_boot_image_eq:
  assumes "device_holds dev c" and bs: "unat (block_size (info dev)) = bsize" and dvd: "bsize dvd 2048"
    and "18 * (2048 div bsize) \<le> unat (num_blocks (info dev))"
    and cat: "\<And>k. el_torito_catalogue c = Inr k \<Longrightarrow>
      (k + 1) * (2048 div bsize) \<le> unat (num_blocks (info dev))"
  shows "find_efi_boot_image dev =
    (case el_torito_catalogue c of
       Inl e \<Rightarrow> Some (Inl e)
     | Inr k \<Rightarrow>
         if \<not> catalogue_valid (bytes_at c (k * 2048) 2048) then Some (Inl InvalidCatalog)
         else case efi_catalogue_image (2048 div bsize) (bytes_at c (k * 2048) 2048) of
                None \<Rightarrow> Some (Inl NoEfiEntry)
              | Some i \<Rightarrow> Some (Inr i))"
proof -
  let ?r = "2048 div bsize" and ?brvd = "bytes_at c (17 * 2048) 2048"
  have pos: "bsize \<noteq> 0"
    using dvd by (metis dvd_0_left_iff zero_neq_numeral)
  have brvd: "read_iso_sector dev bsize (17 * ?r) (replicate 2048 0) = Some (Inr ?brvd)"
    using assms(4) by (intro read_iso_sector_reads [OF assms(1) bs dvd]) simp_all
  have len: "length EL_TORITO_SIGNATURE = 23"
    by (simp add: EL_TORITO_SIGNATURE_def)
  show ?thesis
  proof (cases "el_torito_catalogue c")
    case (Inl e)
    then show ?thesis
      using pos brvd len
      by (auto simp: find_efi_boot_image_def bs Let_def ISO_SECTOR_SIZE_def BOOT_RECORD_SECTOR_def
          el_torito_catalogue_def split: if_splits)
  next
    case (Inr k)
    let ?buf = "bytes_at c (k * 2048) 2048"
    have "read_iso_sector dev bsize (k * ?r) ?brvd = Some (Inr ?buf)"
      using cat [OF Inr] by (intro read_iso_sector_reads [OF assms(1) bs dvd]) simp_all
    moreover have "slice 1 5 ?brvd = CD001_SIGNATURE" "?brvd ! 0 = 0"
      "slice 7 23 ?brvd = EL_TORITO_SIGNATURE" "field ?brvd 0x47 4 = k"
      using Inr by (auto simp: el_torito_catalogue_def Let_def split: if_splits)
    ultimately have "find_efi_boot_image dev =
      (if header_id (validation_at ?buf) \<noteq> 1 \<or> key55 (validation_at ?buf) \<noteq> 0x55 \<or>
          keyaa (validation_at ?buf) \<noteq> 0xAA then Some (Inl InvalidCatalog)
       else if platform_id (validation_at ?buf) = PLATFORM_EFI \<and>
          boot_indicator (boot_entry_at ?buf 32) = 0x88
       then Some (Inr (default_image ?r (boot_entry_at ?buf 32)))
       else case scan_sections ?r ?buf 64 of
              Some img \<Rightarrow> Some (Inr img) | None \<Rightarrow> Some (Inl NoEfiEntry))"
      using pos brvd len
      by (simp add: find_efi_boot_image_def bs Let_def ISO_SECTOR_SIZE_def BOOT_RECORD_SECTOR_def)
    then show ?thesis
      using catalogue_image_eq [of ?buf ?r]
      by (auto simp: Inr catalogue_valid_def validation_at_def)
  qed
qed

end
