(* ===== verification/Iso_Props.thy ===== *)
theory Iso_Props
  imports Iso9660
begin

text \<open>
  The properties of the El Torito reader, and its failures on devices with large blocks.
\<close>

section \<open>A small image\<close>

text \<open>The boot record names sector 20 as catalogue; its default entry is an EFI image at sector 30.\<close>

definition sample_iso :: medium where
  "sample_iso i =
     (if 34817 \<le> i \<and> i < 34822 then CD001_SIGNATURE ! (i - 34817)
      else if 34823 \<le> i \<and> i < 34846 then EL_TORITO_SIGNATURE ! (i - 34823)
      else if i = 34887 then 20
      else if i = 40960 then 1 else if i = 40961 then 0xEF
      else if i = 40990 then 0x55 else if i = 40991 then 0xAA
      else if i = 40992 then 0x88 else if i = 40998 then 4 else if i = 41000 then 30 else 0)"

definition sample_cd :: block_device where
  "sample_cd = image_device 512 400 sample_iso"

lemma sample_cd_info:
  "block_size (info sample_cd) = 512" "num_blocks (info sample_cd) = 400"
  "device_holds sample_cd sample_iso"
  by (simp_all add: sample_cd_def image_device_holds) (simp_all add: image_device_def)

lemma field_bytes_at: "off + n \<le> m \<Longrightarrow> field (bytes_at c b m) off n = le_nat (bytes_at c (b + off) n)"
  by (simp add: field_def slice_bytes_at)

lemma sample_catalogue: "el_torito_catalogue sample_iso = Inr 20"
proof -
  let ?b = "bytes_at sample_iso (17 * 2048) 2048"
  have "slice 1 5 ?b = CD001_SIGNATURE"
    by (rule nth_equalityI) (auto simp: slice_def sample_iso_def CD001_SIGNATURE_def)
  moreover have "slice 7 23 ?b = EL_TORITO_SIGNATURE"
    by (rule nth_equalityI) (auto simp: slice_def sample_iso_def EL_TORITO_SIGNATURE_def)
  moreover have "?b ! 0 = 0"
    by (simp add: sample_iso_def)
  moreover have "field ?b 0x47 4 = 20"
    by (simp add: field_bytes_at) (simp add: bytes_at_def upt_rec sample_iso_def)
  ultimately show ?thesis
    by (simp add: el_torito_catalogue_def Let_def)
qed

lemma sample_catalogue_entry:
  "catalogue_valid (bytes_at sample_iso 40960 2048)"
  "efi_catalogue_image 4 (bytes_at sample_iso 40960 2048) =
     Some \<lparr>start_sector = 120, boot_sector_count = 16, boot_size_bytes = 8192\<rparr>"
proof -
  show "catalogue_valid (bytes_at sample_iso 40960 2048)"
    by (simp add: catalogue_valid_def sample_iso_def)
  have "field (bytes_at sample_iso 40960 2048) 38 2 = 4"
    "field (bytes_at sample_iso 40960 2048) 40 4 = 30"
    by (simp_all add: field_bytes_at) (simp_all add: bytes_at_def upt_rec sample_iso_def)
  then show "efi_catalogue_image 4 (bytes_at sample_iso 40960 2048) =
     Some \<lparr>start_sector = 120, boot_sector_count = 16, boot_size_bytes = 8192\<rparr>"
    by (simp add: catalogue_image_eq boot_entry_at_def default_image_def ISO_SECTOR_SIZE_def)
       (simp add: sample_iso_def PLATFORM_EFI_def)
qed

section \<open>Properties\<close>

text \<open>C20:
  On a device with blocks of 512, 1024 or 2048 bytes (any divisor of 2048) \<open>find_efi_boot_image\<close> returns
  what the boot record and the boot catalogue of the medium say, independent of the block size up to the
  unit of its result: the error for a medium without boot record, InvalidCatalog for a catalogue without
  a valid validation entry, otherwise the default entry of an EFI catalogue or the first bootable
  entry of an EFI section, and NoEfiEntry when there is none.
\<close>

theorem find_efi_boot_image_correct:
  assumes "device_holds dev c" and "unat (block_size (info dev)) = bsize" and "bsize dvd 2048"
    and "18 * (2048 div bsize) \<le> unat (num_blocks (info dev))"
    and "\<forall>k. el_torito_catalogue c = Inr k \<longrightarrow>
      (k + 1) * (2048 div bsize) \<le> unat (num_blocks (info dev))"
  shows "find_efi_boot_image dev =
    (case el_torito_catalogue c of
       Inl e \<Rightarrow> Some (Inl e)
     | Inr k \<Rightarrow>
         if \<not> catalogue_valid (bytes_at c (k * 2048) 2048) then Some (Inl InvalidCatalog)
         else case efi_catalogue_image (2048 div bsize) (bytes_at c (k * 2048) 2048) of
                None \<Rightarrow> Some (Inl NoEfiEntry)
              | Some i \<Rightarrow> Some (Inr i))"
  using assms(5) by (intro find_efi_boot_image_eq [OF assms(1-4)]) simp

theorem find_efi_boot_image_correct_witness:
  "find_efi_boot_image sample_cd =
     Some (Inr \<lparr>start_sector = 120, boot_sector_count = 16, boot_size_bytes = 8192\<rparr>)"
proof -
  have "\<forall>k. el_torito_catalogue sample_iso = Inr k \<longrightarrow>
    (k + 1) * (2048 div 512) \<le> unat (num_blocks (info sample_cd))"
    by (simp add: sample_catalogue sample_cd_info)
  then show ?thesis
    using find_efi_boot_image_correct [of sample_cd sample_iso 512] sample_catalogue_entry
    by (simp add: sample_cd_info sample_catalogue)
qed

section \<open>Large blocks\<close>

text \<open>With blocks larger than a sector the slice of the sector buffer is out of range, and the call panics.\<close>

theorem large_blocks_panic:
  assumes "2048 < unat (block_size (info dev))"
  shows "find_efi_boot_image dev = None"
  using assms
  by (simp add: find_efi_boot_image_def read_iso_sector_def read_block_at_def Let_def ISO_SECTOR_SIZE_def)

text \<open>
  \<open>is_iso9660\<close> passes a buffer of eight bytes: the drivers that copy a whole block to the pointer they are
  given write past its end.
\<close>

theorem is_iso9660_overruns:
  assumes hold: "any_holds drv (Nvme d) c" and big: "8 < unat (block_size (nvme_info d))"
    and room: "16 * (2048 div unat (block_size (nvme_info d))) < unat (num_blocks (nvme_info d))"
  shows "is_iso9660 (dyn_device drv (Nvme d)) = None"
proof -
  let ?i = "nvme_info d" and ?b = "unat (block_size (nvme_info d))"
  let ?lba = "of_nat (16 * (2048 div ?b)) :: u64"
  obtain ctl ns where ctl: "get_controller (nvme_controllers drv) (nvme_id d) = Some ctl"
    and ns: "get_namespace ctl (nvme_nsid d) = Some ns" "ns_block_size ns = block_size ?i"
      "?b \<le> 4096" "transfers_hold 4096 (nvme_transfer ctl (nvme_nsid d)) ?i c"
    using hold by (auto simp: any_holds_def)
  have "unat ?lba = 16 * (2048 div ?b)"
    using room unat_u64_bound [of "num_blocks ?i"] by (simp only: unat_of_nat) simp
  then have "request_ok ?i ?lba 1"
    using room ns(3) by (simp add: request_ok_def)
  then have "nvme_read_sectors ctl (nvme_nsid d) ?lba 1 = Some (Inr (bytes_at c (unat ?lba * ?b) ?b))"
    using nvme_read_sectors_reads [OF ns] by simp
  then have "read_block (dyn_device drv (Nvme d)) ?lba (replicate 8 0) = None"
    using ctl big
    by (simp add: read_block_def dyn_device_def any_read_blocks_def nvme_read_blocks_def deliver_def
        put_data_def)
  then show ?thesis
    using big by (simp add: is_iso9660_def dyn_device_def any_info_def ISO_SECTOR_SIZE_def Let_def)
qed

end
