(* ===== verification/Fat.thy ===== *)
theory Fat
  imports Gpt_Correct
begin

text \<open>
  The FAT file system: \<open>src/src/fs/fat.rs\<close>.

  The packed structures are decoded from bytes at their field offsets. Sector and cluster numbers keep their
  width, since the layout computed from the boot sector may wrap; byte offsets inside the volume are at most
  48 bits wide and are natural numbers. Loops whose end depends on the volume are partial functions:
  \<^const>\<open>None\<close> then stands for a loop that does not end as well as for a panic. The divisions by the block
  size of the device do not panic in a mounted file system: its block size is not zero
  (lemma \<open>fat_new_geometry\<close>).
\<close>

section \<open>On-disk structures\<close>

record bios_parameter_block =
  bpb_bytes_per_sector :: u16
  bpb_sectors_per_cluster :: u8
  bpb_reserved_sectors :: u16
  bpb_num_fats :: u8
  bpb_root_entry_count :: u16
  bpb_total_sectors_16 :: u16
  bpb_media_type :: u8
  bpb_sectors_per_fat_16 :: u16
  bpb_sectors_per_track :: u16
  bpb_num_heads :: u16
  bpb_hidden_sectors :: u32
  bpb_total_sectors_32 :: u32

definition bpb_of :: "u8 list \<Rightarrow> bios_parameter_block" where
  "bpb_of bs =
     \<lparr>bpb_bytes_per_sector = of_nat (field bs 11 2), bpb_sectors_per_cluster = bs ! 13,
      bpb_reserved_sectors = of_nat (field bs 14 2), bpb_num_fats = bs ! 16,
      bpb_root_entry_count = of_nat (field bs 17 2), bpb_total_sectors_16 = of_nat (field bs 19 2),
      bpb_media_type = bs ! 21, bpb_sectors_per_fat_16 = of_nat (field bs 22 2),
      bpb_sectors_per_track = of_nat (field bs 24 2), bpb_num_heads = of_nat (field bs 26 2),
      bpb_hidden_sectors = of_nat (field bs 28 4), bpb_total_sectors_32 = of_nat (field bs 32 4)\<rparr>"

record fat32_ebr =
  sectors_per_fat_32 :: u32
  ebr_ext_flags :: u16
  ebr_fs_version :: u16
  ebr_root_cluster :: u32
  ebr_fs_info :: u16
  ebr_backup_boot_sector :: u16

text \<open>The extended boot record starts at byte 36.\<close>

definition ebr_of :: "u8 list \<Rightarrow> fat32_ebr" where
  "ebr_of bs =
     \<lparr>sectors_per_fat_32 = of_nat (field bs 36 4), ebr_ext_flags = of_nat (field bs 40 2),
      ebr_fs_version = of_nat (field bs 42 2), ebr_root_cluster = of_nat (field bs 44 4),
      ebr_fs_info = of_nat (field bs 48 2), ebr_backup_boot_sector = of_nat (field bs 50 2)\<rparr>"

record directory_entry =
  name8 :: "u8 list"
  ext3 :: "u8 list"
  attr :: u8
  nt_reserved :: u8
  creation_time_tenths :: u8
  creation_time :: u16
  creation_date :: u16
  last_access_date :: u16
  first_cluster_hi :: u16
  modification_time :: u16
  modification_date :: u16
  first_cluster_lo :: u16
  file_size :: u32

definition dirent_at :: "u8 list \<Rightarrow> nat \<Rightarrow> directory_entry" where
  "dirent_at bs off =
     \<lparr>name8 = slice off 8 bs, ext3 = slice (off + 8) 3 bs, attr = bs ! (off + 11),
      nt_reserved = bs ! (off + 12), creation_time_tenths = bs ! (off + 13),
      creation_time = of_nat (field bs (off + 14) 2), creation_date = of_nat (field bs (off + 16) 2),
      last_access_date = of_nat (field bs (off + 18) 2),
      first_cluster_hi = of_nat (field bs (off + 20) 2),
      modification_time = of_nat (field bs (off + 22) 2),
      modification_date = of_nat (field bs (off + 24) 2),
      first_cluster_lo = of_nat (field bs (off + 26) 2), file_size = of_nat (field bs (off + 28) 4)\<rparr>"

definition ATTR_READ_ONLY :: u8 where "ATTR_READ_ONLY = 0x01"
definition ATTR_HIDDEN :: u8 where "ATTR_HIDDEN = 0x02"
definition ATTR_SYSTEM :: u8 where "ATTR_SYSTEM = 0x04"
definition ATTR_VOLUME_ID :: u8 where "ATTR_VOLUME_ID = 0x08"
definition ATTR_DIRECTORY :: u8 where "ATTR_DIRECTORY = 0x10"

definition ATTR_LFN :: u8 where
  "ATTR_LFN = ATTR_READ_ONLY OR ATTR_HIDDEN OR ATTR_SYSTEM OR ATTR_VOLUME_ID"

definition first_cluster :: "directory_entry \<Rightarrow> u32" where
  "first_cluster e = push_bit 16 (ucast (first_cluster_hi e)) OR ucast (first_cluster_lo e)"

definition is_directory :: "directory_entry \<Rightarrow> bool" where
  "is_directory e \<longleftrightarrow> attr e AND ATTR_DIRECTORY \<noteq> 0"

definition is_volume_id :: "directory_entry \<Rightarrow> bool" where
  "is_volume_id e \<longleftrightarrow> attr e AND ATTR_VOLUME_ID \<noteq> 0"

definition is_lfn :: "directory_entry \<Rightarrow> bool" where
  "is_lfn e \<longleftrightarrow> attr e AND ATTR_LFN = ATTR_LFN"

definition is_file :: "directory_entry \<Rightarrow> bool" where
  "is_file e \<longleftrightarrow> \<not> is_directory e \<and> \<not> is_volume_id e \<and> \<not> is_lfn e"

definition is_free :: "directory_entry \<Rightarrow> bool" where
  "is_free e \<longleftrightarrow> name8 e ! 0 = 0x00 \<or> name8 e ! 0 = 0xE5"

definition is_end :: "directory_entry \<Rightarrow> bool" where
  "is_end e \<longleftrightarrow> name8 e ! 0 = 0x00"

text \<open>
  \<open>short_name\<close> builds a \<open>heapless::String<12>\<close>: a byte pushed as a \<open>char\<close> is stored in UTF-8, and a push that
  does not fit is ignored. Strings are lists of their bytes.
\<close>

definition utf8 :: "u8 \<Rightarrow> u8 list" where
  "utf8 b = (if b < 0x80 then [b] else [0xC0 OR drop_bit 6 b, 0x80 OR (b AND 0x3F)])"

definition push_char :: "u8 list \<Rightarrow> u8 \<Rightarrow> u8 list" where
  "push_char s b = (if length s + length (utf8 b) \<le> 12 then s @ utf8 b else s)"

definition short_name :: "directory_entry \<Rightarrow> u8 list" where
  "short_name e =
     (let s = foldl push_char [] (takeWhile (\<lambda>b. b \<noteq> 0x20) (name8 e))
      in if ext3 e ! 0 \<noteq> 0x20
         then foldl push_char (push_char s 0x2E) (takeWhile (\<lambda>b. b \<noteq> 0x20) (ext3 e))
         else s)"

definition to_ascii_lowercase :: "u8 \<Rightarrow> u8" where
  "to_ascii_lowercase b = (if 0x41 \<le> b \<and> b \<le> 0x5A then b OR 0x20 else b)"

definition eq_ignore_ascii_case :: "u8 \<Rightarrow> u8 \<Rightarrow> bool" where
  "eq_ignore_ascii_case a b \<longleftrightarrow> to_ascii_lowercase a = to_ascii_lowercase b"

definition matches_name :: "directory_entry \<Rightarrow> u8 list \<Rightarrow> bool" where
  "matches_name e name =
     (if length (short_name e) \<noteq> length name then False
      else list_all (\<lambda>(a, b). eq_ignore_ascii_case a b) (zip (short_name e) name))"

datatype fat_type = Fat12 | Fat16 | Fat32

datatype fat_error =
    FatInvalidBpb | FatReadError | FatNotFat | FatNotFound | FatNotAFile | FatNotADirectory
  | FatEndOfFile | FatInvalidCluster | FatBufferTooSmall

record fat_filesystem =
  device :: block_device
  partition_start :: u64
  fs_type :: fat_type
  bytes_per_sector :: u16
  device_block_size :: u32
  sectors_per_cluster :: u8
  fat_start :: u32
  sectors_per_fat :: u32
  data_start :: u32
  root_cluster :: u32
  root_dir_start :: u32
  root_dir_sectors :: u32
  data_clusters :: u32

section \<open>Mounting\<close>

definition is_power_of_two :: "u8 \<Rightarrow> bool" where
  "is_power_of_two b \<longleftrightarrow> b \<noteq> 0 \<and> b AND (b - 1) = 0"

definition fat_type_of :: "u32 \<Rightarrow> fat_type" where
  "fat_type_of clusters = (if clusters < 4085 then Fat12 else if clusters < 65525 then Fat16 else Fat32)"

text \<open>The checks on the boot sector, and the file system that a boot sector describes.\<close>

definition bpb_ok :: "bios_parameter_block \<Rightarrow> bool" where
  "bpb_ok bpb \<longleftrightarrow>
     bpb_bytes_per_sector bpb \<in> {512, 1024, 2048, 4096} \<and>
     \<not> (bpb_sectors_per_cluster bpb = 0 \<or> bpb_sectors_per_cluster bpb > 128
        \<or> \<not> is_power_of_two (bpb_sectors_per_cluster bpb)) \<and>
     \<not> (bpb_num_fats bpb = 0 \<or> bpb_num_fats bpb > 2) \<and>
     bpb_reserved_sectors bpb \<noteq> 0"

definition mount :: "block_device \<Rightarrow> u64 \<Rightarrow> nat \<Rightarrow> u8 list \<Rightarrow> fat_filesystem" where
  "mount dev pstart bsize buf =
     (let bpb = bpb_of buf;
          root_sectors = div_ceil (ucast (bpb_root_entry_count bpb) * 32)
                           (ucast (bpb_bytes_per_sector bpb) :: u32);
          spf = (if bpb_sectors_per_fat_16 bpb \<noteq> 0 then ucast (bpb_sectors_per_fat_16 bpb)
                 else sectors_per_fat_32 (ebr_of buf));
          total_sectors = (if bpb_total_sectors_16 bpb \<noteq> 0 then ucast (bpb_total_sectors_16 bpb)
                           else bpb_total_sectors_32 bpb);
          fstart = (ucast (bpb_reserved_sectors bpb) :: u32);
          root_start = fstart + ucast (bpb_num_fats bpb) * spf;
          dstart = root_start + root_sectors;
          clusters = (total_sectors - dstart) div ucast (bpb_sectors_per_cluster bpb);
          ty = fat_type_of clusters
      in \<lparr>device = dev, partition_start = pstart, fs_type = ty,
          bytes_per_sector = bpb_bytes_per_sector bpb, device_block_size = of_nat bsize,
          sectors_per_cluster = bpb_sectors_per_cluster bpb, fat_start = fstart,
          sectors_per_fat = spf, data_start = dstart,
          root_cluster = (if ty = Fat32 then ebr_root_cluster (ebr_of buf) else 0),
          root_dir_start = root_start, root_dir_sectors = root_sectors,
          data_clusters = clusters\<rparr>)"

definition fat_new :: "block_device \<Rightarrow> u64 \<Rightarrow> (fat_error, fat_filesystem) outcome" where
  "fat_new dev pstart =
     (let bsize = min (unat (block_size (info dev))) MAX_BLOCK_SIZE
      in and_then (map_err (\<lambda>_. FatReadError)
                     (read_block_at dev pstart 0 bsize (replicate MAX_BLOCK_SIZE 0)))
           (\<lambda>buf. if \<not> bpb_ok (bpb_of buf) then Some (Inl FatInvalidBpb)
                  else Some (Inr (mount dev pstart bsize buf))))"

section \<open>Addresses\<close>

definition bps :: "fat_filesystem \<Rightarrow> nat" where
  "bps fs = unat (bytes_per_sector fs)"

definition dbs :: "fat_filesystem \<Rightarrow> nat" where
  "dbs fs = unat (device_block_size fs)"

definition cluster_size :: "fat_filesystem \<Rightarrow> nat" where
  "cluster_size fs = unat (sectors_per_cluster fs) * bps fs"

definition fat_sector_to_device_block :: "fat_filesystem \<Rightarrow> nat \<Rightarrow> nat \<times> nat" where
  "fat_sector_to_device_block fs fat_sector =
     (if bps fs = dbs fs then (fat_sector, 0)
      else (fat_sector * bps fs div dbs fs, fat_sector * bps fs mod dbs fs))"

definition cluster_to_device_block :: "fat_filesystem \<Rightarrow> u32 \<Rightarrow> (u64 \<times> nat) option" where
  "cluster_to_device_block fs cluster =
     (if cluster < 2 then None
      else if cluster - 2 \<ge> data_clusters fs then None
      else Option.bind (checked_mul (cluster - 2) (ucast (sectors_per_cluster fs))) (\<lambda>cluster_offset.
           Option.bind (checked_add (data_start fs) cluster_offset) (\<lambda>fat_sector.
             let (device_block, off) = fat_sector_to_device_block fs (unat fat_sector)
             in Option.bind (checked_add (partition_start fs) (of_nat device_block)) (\<lambda>block.
                  Some (block, off)))))"

section \<open>The allocation table\<close>

definition read_fs_block :: "fat_filesystem \<Rightarrow> u64 \<Rightarrow> u8 list \<Rightarrow> (fat_error, u8 list) outcome" where
  "read_fs_block fs block buf =
     map_err (\<lambda>_. FatReadError) (read_block_at (device fs) block 0 (dbs fs) buf)"

definition entry_byte_offset :: "fat_filesystem \<Rightarrow> u32 \<Rightarrow> nat" where
  "entry_byte_offset fs cluster =
     (case fs_type fs of
        Fat12 \<Rightarrow> unat (fat_start fs) * bps fs + unat cluster * 3 div 2
      | Fat16 \<Rightarrow> unat (fat_start fs) * bps fs + unat cluster * 2
      | Fat32 \<Rightarrow> unat (fat_start fs) * bps fs + unat cluster * 4)"

text \<open>The table entry at an offset of a block; an entry may continue in the next block.\<close>

definition table_u16 ::
    "fat_filesystem \<Rightarrow> u64 \<Rightarrow> nat \<Rightarrow> u8 list \<Rightarrow> (fat_error, u16) outcome" where
  "table_u16 fs next_block off buf =
     (if off + 1 < dbs fs
      then Some (Inr (ucast (buf ! off) OR push_bit 8 (ucast (buf ! (off + 1)))))
      else and_then (read_fs_block fs next_block buf)
             (\<lambda>buf'. Some (Inr (ucast (buf ! off) OR push_bit 8 (ucast (buf' ! 0))))))"

definition table_u32 ::
    "fat_filesystem \<Rightarrow> u64 \<Rightarrow> nat \<Rightarrow> u8 list \<Rightarrow> (fat_error, u32) outcome" where
  "table_u32 fs next_block off buf =
     (if off + 3 < dbs fs then Some (Inr (of_nat (le_nat (slice off 4 buf))))
      else let in_current = dbs fs - off
           in and_then (read_fs_block fs next_block buf)
                (\<lambda>buf'. Some (Inr (of_nat (le_nat (slice off in_current buf @ take (4 - in_current) buf'))))))"

definition fat12_next :: "u32 \<Rightarrow> u16 \<Rightarrow> fat_error + u32 option" where
  "fat12_next cluster entry =
     (let val = (if cluster AND 1 \<noteq> 0 then drop_bit 4 entry else entry AND 0x0FFF)
      in if val \<ge> 0x0FF8 then Inr None
         else if val \<ge> 0x0FF0 then Inl FatInvalidCluster else Inr (Some (ucast val)))"

definition fat16_next :: "u16 \<Rightarrow> fat_error + u32 option" where
  "fat16_next entry =
     (if entry \<ge> 0xFFF8 then Inr None
      else if entry \<ge> 0xFFF0 then Inl FatInvalidCluster else Inr (Some (ucast entry)))"

definition fat32_next :: "u32 \<Rightarrow> fat_error + u32 option" where
  "fat32_next raw =
     (let entry = raw AND 0x0FFFFFFF
      in if entry \<ge> 0x0FFFFFF8 then Inr None
         else if entry \<ge> 0x0FFFFFF0 then Inl FatInvalidCluster else Inr (Some entry))"

definition next_cluster :: "fat_filesystem \<Rightarrow> u32 \<Rightarrow> (fat_error, u32 option) outcome" where
  "next_cluster fs cluster =
     (if cluster < 2 then Some (Inl FatInvalidCluster)
      else
        let pos = entry_byte_offset fs cluster;
            block = partition_start fs + of_nat (pos div dbs fs);
            off = pos mod dbs fs
        in and_then (read_fs_block fs block (replicate MAX_BLOCK_SIZE 0)) (\<lambda>buf.
             case fs_type fs of
               Fat12 \<Rightarrow> and_then (table_u16 fs (block + 1) off buf) (\<lambda>e. Some (fat12_next cluster e))
             | Fat16 \<Rightarrow> and_then (table_u16 fs (block + 1) off buf) (\<lambda>e. Some (fat16_next e))
             | Fat32 \<Rightarrow> and_then (table_u32 fs (block + 1) off buf) (\<lambda>e. Some (fat32_next e))))"

section \<open>Clusters\<close>

text \<open>
  A cluster that is not larger than a block may start in the middle of one and end in the next.
\<close>

partial_function (option) copy_blocks ::
    "fat_filesystem \<Rightarrow> u64 \<Rightarrow> nat \<Rightarrow> nat \<Rightarrow> u8 list \<Rightarrow> u8 list \<Rightarrow> (fat_error, u8 list) outcome" where
  "copy_blocks fs block off copied temp buf =
     (if copied < cluster_size fs then
        and_then (read_fs_block fs block temp) (\<lambda>temp.
          let n = min (dbs fs - off) (cluster_size fs - copied)
          in copy_blocks fs (block + 1) 0 (copied + n) temp
               (take copied buf @ slice off n temp @ drop (copied + n) buf))
      else Some (Inr buf))"

fun read_cluster_blocks ::
    "fat_filesystem \<Rightarrow> u64 \<Rightarrow> nat list \<Rightarrow> u8 list \<Rightarrow> (fat_error, u8 list) outcome" where
  "read_cluster_blocks fs start [] buf = Some (Inr buf)"
| "read_cluster_blocks fs start (i # is) buf =
     and_then (map_err (\<lambda>_. FatReadError)
                 (read_block_at (device fs) (start + of_nat i) (i * dbs fs)
                    (min (dbs fs) (cluster_size fs - i * dbs fs)) buf))
       (read_cluster_blocks fs start is)"

definition read_cluster :: "fat_filesystem \<Rightarrow> u32 \<Rightarrow> u8 list \<Rightarrow> (fat_error, u8 list) outcome" where
  "read_cluster fs cluster buf =
     (if length buf < cluster_size fs then Some (Inl FatBufferTooSmall)
      else case cluster_to_device_block fs cluster of
        None \<Rightarrow> Some (Inl FatInvalidCluster)
      | Some (start_block, start_offset) \<Rightarrow>
          if cluster_size fs \<le> dbs fs
          then copy_blocks fs start_block start_offset 0 (replicate MAX_BLOCK_SIZE 0) buf
          else read_cluster_blocks fs start_block
                 [0..<(cluster_size fs + dbs fs - 1) div dbs fs] buf)"

text \<open>Reading a cluster into \<open>&mut buffer[off..off + cluster_size]\<close>.\<close>

definition read_cluster_at ::
    "fat_filesystem \<Rightarrow> u32 \<Rightarrow> nat \<Rightarrow> u8 list \<Rightarrow> (fat_error, u8 list) outcome" where
  "read_cluster_at fs cluster off buf =
     (if off + cluster_size fs \<le> length buf
      then and_then (read_cluster fs cluster (slice off (cluster_size fs) buf))
             (\<lambda>bs. Some (Inr (take off buf @ bs @ drop (off + cluster_size fs) buf)))
      else None)"

section \<open>Directories\<close>

text \<open>
  \<open>find_in_directory\<close> and \<open>get_directory_entry_at_position\<close> walk a directory with the same two loops, one for
  the fixed root directory of FAT12 and FAT16 and one for a chain of clusters. They differ in what
  they do with a used entry: \<open>visit\<close> either returns the result (\<open>Inr\<close>) or goes on with a new state (\<open>Inl\<close>),
  and in the result \<open>fin\<close> at the end of the directory.
\<close>

type_synonym ('s, 'r) visitor = "'s \<Rightarrow> directory_entry \<Rightarrow> 's + 'r"

definition visit_entry ::
    "('s, 'r) visitor \<Rightarrow> fat_error + 'r \<Rightarrow> directory_entry \<Rightarrow> 's \<Rightarrow> 's + (fat_error + 'r)" where
  "visit_entry visit fin e s =
     (if is_end e then Inr fin
      else if is_free e \<or> is_lfn e \<or> is_volume_id e then Inl s
      else case visit s e of Inl s' \<Rightarrow> Inl s' | Inr r \<Rightarrow> Inr (Inr r))"

definition DIR_BUFFER_SIZE :: nat where
  "DIR_BUFFER_SIZE = 65536"

text \<open>The loop over the entries of one block of the root directory.\<close>

function root_block ::
    "('s, 'r) visitor \<Rightarrow> fat_error + 'r \<Rightarrow> nat \<Rightarrow> nat \<Rightarrow> u8 list \<Rightarrow> nat \<Rightarrow> nat \<Rightarrow> 's \<Rightarrow>
     ('s \<times> nat \<times> nat) + (fat_error + 'r)" where
  "root_block visit fin bsize root_bytes buf pos processed s =
     (if pos + 32 \<le> bsize \<and> processed < root_bytes then
        case visit_entry visit fin (dirent_at buf pos) s of
          Inr r \<Rightarrow> Inr r
        | Inl s' \<Rightarrow> root_block visit fin bsize root_bytes buf (pos + 32) (processed + 32) s'
      else Inl (s, pos, processed))"
  by auto
termination
  by (relation "measure (\<lambda>(visit, fin, bsize, root_bytes, buf, pos, processed, s). root_bytes - processed)")
     auto

declare root_block.simps [simp del]

partial_function (option) walk_root ::
    "fat_filesystem \<Rightarrow> ('s, 'r) visitor \<Rightarrow> fat_error + 'r \<Rightarrow> u8 list \<Rightarrow> nat \<Rightarrow> 's \<Rightarrow>
     (fat_error, 'r) outcome" where
  "walk_root fs visit fin buf processed s =
     (let root_bytes = unat (root_dir_sectors fs) * bps fs;
          root_start = unat (root_dir_start fs) * bps fs;
          current = root_start + processed;
          block = current div dbs fs;
          off = current mod dbs fs
      in if processed < root_bytes then
           and_then (read_fs_block fs (partition_start fs + of_nat block) buf) (\<lambda>buf.
             case root_block visit fin (dbs fs) root_bytes buf off processed s of
               Inr r \<Rightarrow> Some r
             | Inl (s', pos, processed') \<Rightarrow>
                 walk_root fs visit fin buf
                   (if pos = off then (block + 1) * dbs fs - root_start else processed') s')
         else Some fin)"

text \<open>The loop over the entries of a cluster, and the chain of clusters.\<close>

fun visit_all ::
    "('s, 'r) visitor \<Rightarrow> fat_error + 'r \<Rightarrow> directory_entry list \<Rightarrow> 's \<Rightarrow> 's + (fat_error + 'r)" where
  "visit_all visit fin [] s = Inl s"
| "visit_all visit fin (e # es) s =
     (case visit_entry visit fin e s of Inr r \<Rightarrow> Inr r | Inl s' \<Rightarrow> visit_all visit fin es s')"

partial_function (option) walk_chain ::
    "fat_filesystem \<Rightarrow> ('s, 'r) visitor \<Rightarrow> fat_error + 'r \<Rightarrow> u8 list \<Rightarrow> u32 \<Rightarrow> 's \<Rightarrow>
     (fat_error, 'r) outcome" where
  "walk_chain fs visit fin buf cluster s =
     and_then (read_cluster_at fs cluster 0 buf) (\<lambda>buf.
       case visit_all visit fin (map (\<lambda>i. dirent_at buf (i * 32)) [0..<cluster_size fs div 32]) s of
         Inr r \<Rightarrow> Some r
       | Inl s' \<Rightarrow>
           and_then (next_cluster fs cluster) (\<lambda>next.
             case next of
               Some cluster' \<Rightarrow> walk_chain fs visit fin buf cluster' s'
             | None \<Rightarrow> Some fin))"

definition walk_directory ::
    "fat_filesystem \<Rightarrow> ('s, 'r) visitor \<Rightarrow> fat_error + 'r \<Rightarrow> u32 \<Rightarrow> 's \<Rightarrow> (fat_error, 'r) outcome" where
  "walk_directory fs visit fin cluster s =
     (if cluster = 0 \<and> fs_type fs \<noteq> Fat32
      then walk_root fs visit fin (replicate DIR_BUFFER_SIZE 0) 0 s
      else walk_chain fs visit fin (replicate DIR_BUFFER_SIZE 0) cluster s)"

definition find_in_directory ::
    "fat_filesystem \<Rightarrow> u32 \<Rightarrow> u8 list \<Rightarrow> (fat_error, directory_entry) outcome" where
  "find_in_directory fs cluster name =
     walk_directory fs (\<lambda>_ e. if matches_name e name then Inr e else Inl ()) (Inl FatNotFound) cluster ()"

definition get_directory_entry_at_position ::
    "fat_filesystem \<Rightarrow> u32 \<Rightarrow> nat \<Rightarrow> (fat_error, directory_entry option) outcome" where
  "get_directory_entry_at_position fs cluster index =
     walk_directory fs (\<lambda>current e. if current = index then Inr (Some e) else Inl (current + 1))
       (Inr None) cluster 0"

section \<open>Paths\<close>

definition is_separator :: "u8 \<Rightarrow> bool" where
  "is_separator b \<longleftrightarrow> b = 0x2F \<or> b = 0x5C"

fun split_path :: "u8 list \<Rightarrow> u8 list list" where
  "split_path [] = [[]]"
| "split_path (b # bs) =
     (if is_separator b then [] # split_path bs
      else case split_path bs of p # ps \<Rightarrow> (b # p) # ps | [] \<Rightarrow> [[b]])"

text \<open>
  The components are collected in a \<open>heapless::Vec\<close> of sixteen, whose \<open>collect\<close> panics when there are more.
\<close>

definition path_parts :: "u8 list \<Rightarrow> u8 list list may_panic" where
  "path_parts path =
     (let path = dropWhile (\<lambda>b. b = 0x5C) (dropWhile (\<lambda>b. b = 0x2F) path);
          names = filter (\<lambda>p. p \<noteq> []) (split_path path)
      in if length names \<le> 16 then Some names else None)"

fun find_parts :: "fat_filesystem \<Rightarrow> u8 list list \<Rightarrow> u32 \<Rightarrow> (fat_error, directory_entry) outcome" where
  "find_parts fs [] dir = Some (Inl FatNotFound)"
| "find_parts fs (nm # names) dir =
     and_then (find_in_directory fs dir nm) (\<lambda>entry.
       if names = [] then Some (Inr entry)
       else if \<not> is_directory entry then Some (Inl FatNotADirectory)
       else find_parts fs names (first_cluster entry))"

definition find_file :: "fat_filesystem \<Rightarrow> u8 list \<Rightarrow> (fat_error, directory_entry) outcome" where
  "find_file fs path =
     (case path_parts path of
        None \<Rightarrow> None
      | Some names \<Rightarrow> find_parts fs names (if fs_type fs = Fat32 then root_cluster fs else 0))"

section \<open>Files\<close>

text \<open>\<open>skip_clusters\<close> gives \<open>None\<close> when the chain ends early.\<close>

fun skip_clusters :: "fat_filesystem \<Rightarrow> nat \<Rightarrow> u32 \<Rightarrow> (fat_error, u32 option) outcome" where
  "skip_clusters fs 0 cluster = Some (Inr (Some cluster))"
| "skip_clusters fs (Suc n) cluster =
     and_then (next_cluster fs cluster) (\<lambda>next.
       case next of None \<Rightarrow> Some (Inr None) | Some c \<Rightarrow> skip_clusters fs n c)"

text \<open>
  The state of a read is the cluster to read next, the number of bytes read so far and the buffer;
  \<open>Inl\<close> is an early return at the end of the chain.
\<close>

type_synonym read_state = "(nat \<times> u8 list) + (u32 \<times> nat \<times> u8 list)"

definition read_step :: "fat_filesystem \<Rightarrow> u32 \<Rightarrow> nat \<Rightarrow> u8 list \<Rightarrow> (fat_error, read_state) outcome" where
  "read_step fs cluster bytes buf =
     and_then (next_cluster fs cluster) (\<lambda>next.
       case next of
         Some c \<Rightarrow> Some (Inr (Inr (c, bytes, buf)))
       | None \<Rightarrow> Some (Inr (Inl (bytes, buf))))"

definition read_first ::
    "fat_filesystem \<Rightarrow> u32 \<Rightarrow> nat \<Rightarrow> nat \<Rightarrow> u8 list \<Rightarrow> (fat_error, read_state) outcome" where
  "read_first fs cluster cluster_offset bytes_to_read buf =
     (if cluster_offset > 0 \<or> bytes_to_read < cluster_size fs then
        and_then (read_cluster_at fs cluster 0 (replicate DIR_BUFFER_SIZE 0)) (\<lambda>tmp.
          let copy_len = min bytes_to_read (cluster_size fs - cluster_offset)
          in read_step fs cluster copy_len (slice cluster_offset copy_len tmp @ drop copy_len buf))
      else Some (Inr (Inr (cluster, 0, buf))))"

partial_function (option) read_full ::
    "fat_filesystem \<Rightarrow> nat \<Rightarrow> u32 \<Rightarrow> nat \<Rightarrow> u8 list \<Rightarrow> (fat_error, read_state) outcome" where
  "read_full fs bytes_to_read cluster bytes buf =
     (if bytes + cluster_size fs \<le> bytes_to_read then
        and_then (read_cluster_at fs cluster bytes buf) (\<lambda>buf.
        and_then (read_step fs cluster (bytes + cluster_size fs) buf) (\<lambda>st.
          case st of
            Inl r \<Rightarrow> Some (Inr (Inl r))
          | Inr (cluster', bytes', buf') \<Rightarrow> read_full fs bytes_to_read cluster' bytes' buf'))
      else Some (Inr (Inr (cluster, bytes, buf))))"

definition read_last ::
    "fat_filesystem \<Rightarrow> nat \<Rightarrow> u32 \<Rightarrow> nat \<Rightarrow> u8 list \<Rightarrow> (fat_error, nat \<times> u8 list) outcome" where
  "read_last fs bytes_to_read cluster bytes buf =
     (if bytes < bytes_to_read then
        and_then (read_cluster_at fs cluster 0 (replicate DIR_BUFFER_SIZE 0)) (\<lambda>tmp.
          let remaining = bytes_to_read - bytes
          in Some (Inr (bytes + remaining,
                        take bytes buf @ take remaining tmp @ drop (bytes + remaining) buf)))
      else Some (Inr (bytes, buf)))"

definition read_file ::
    "fat_filesystem \<Rightarrow> directory_entry \<Rightarrow> u32 \<Rightarrow> u8 list \<Rightarrow> (fat_error, nat \<times> u8 list) outcome" where
  "read_file fs entry offset buf =
     (if is_directory entry then Some (Inl FatNotAFile)
      else if offset \<ge> file_size entry then Some (Inr (0, buf))
      else
        let bytes_to_read = min (length buf mod 2 ^ 32) (unat (file_size entry - offset))
        in and_then (skip_clusters fs (unat offset div cluster_size fs) (first_cluster entry)) (\<lambda>start.
             case start of
               None \<Rightarrow> Some (Inr (0, buf))
             | Some cluster \<Rightarrow>
                 and_then (read_first fs cluster (unat offset mod cluster_size fs) bytes_to_read buf) (\<lambda>st.
                   case st of
                     Inl r \<Rightarrow> Some (Inr r)
                   | Inr (cluster, bytes, buf) \<Rightarrow>
                       and_then (read_full fs bytes_to_read cluster bytes buf) (\<lambda>st.
                         case st of
                           Inl r \<Rightarrow> Some (Inr r)
                         | Inr (cluster, bytes, buf) \<Rightarrow> read_last fs bytes_to_read cluster bytes buf))))"

definition read_file_all ::
    "fat_filesystem \<Rightarrow> u8 list \<Rightarrow> u8 list \<Rightarrow> (fat_error, nat \<times> u8 list) outcome" where
  "read_file_all fs path buf =
     and_then (find_file fs path) (\<lambda>entry.
       if unat (file_size entry) > length buf then Some (Inl FatBufferTooSmall)
       else read_file fs entry 0 buf)"

definition file_size_of_path :: "fat_filesystem \<Rightarrow> u8 list \<Rightarrow> (fat_error, u32) outcome" where
  "file_size_of_path fs path = and_then (find_file fs path) (\<lambda>entry. Some (Inr (file_size entry)))"

end
