(* ===== verification/Fat_Table.thy ===== *)
theory Fat_Table
  imports Fat
begin

text \<open>
  The geometry of a mounted FAT volume, and the allocation table: looking up the successor of a cluster block
  by block gives the entry of the table seen as one little-endian number.
\<close>

section \<open>Geometry\<close>

text \<open>A read does not change the length of the slice it fills.\<close>

definition fills_slices :: "block_device \<Rightarrow> bool" where
  "fills_slices dev \<longleftrightarrow>
     (\<forall>lba n buf bs. read_blocks dev lba n buf = Some (Inr bs) \<longrightarrow> length bs = length buf)"

definition fat_geometry :: "fat_filesystem \<Rightarrow> bool" where
  "fat_geometry fs \<longleftrightarrow>
     bps fs \<in> {512, 1024, 2048, 4096} \<and>
     unat (sectors_per_cluster fs) \<in> {1, 2, 4, 8, 16, 32, 64, 128} \<and>
     0 < dbs fs \<and> dbs fs \<le> 4096 \<and> dbs fs = min (unat (block_size (info (device fs)))) 4096 \<and>
     0 < fat_start fs \<and>
     fs_type fs = fat_type_of (data_clusters fs) \<and>
     (fs_type fs \<noteq> Fat32 \<longrightarrow> root_cluster fs = 0) \<and>
     data_start fs = root_dir_start fs + root_dir_sectors fs"

lemma power_of_two_u8:
  assumes "is_power_of_two b"
  shows "unat b \<in> {1, 2, 4, 8, 16, 32, 64, 128}"
proof -
  have "\<forall>n \<in> set [0..255]. is_power_of_two (word_of_int n) \<longrightarrow> n \<in> {1, 2, 4, 8, 16, 32, 64, 128 :: int}"
    by code_simp
  moreover have "uint b \<in> set [0..255]"
    using uint_lt2p [of b] by simp
  ultimately have "is_power_of_two (word_of_int (uint b)) \<longrightarrow> uint b \<in> {1, 2, 4, 8, 16, 32, 64, 128}"
    by blast
  with assms have "uint b \<in> {1, 2, 4, 8, 16, 32, 64, 128}"
    by simp
  then have "nat (uint b) \<in> nat ` {1, 2, 4, 8, 16, 32, 64, 128}"
    by (rule imageI)
  then show ?thesis
    unfolding nat_uint_eq by simp
qed

lemma mount_geometry:
  assumes "bpb_ok (bpb_of buf)" and "n = min (unat (block_size (info dev))) 4096" and "0 < n"
  shows "fat_geometry (mount dev p n buf)"
proof -
  let ?b = "bpb_of buf" and ?fs = "mount dev p n buf"
  have sizes: "bpb_bytes_per_sector ?b \<in> {512, 1024, 2048, 4096}"
    and pow: "is_power_of_two (bpb_sectors_per_cluster ?b)"
    and res: "bpb_reserved_sectors ?b \<noteq> 0"
    using assms(1) by (auto simp: bpb_ok_def)
  have fs: "bytes_per_sector ?fs = bpb_bytes_per_sector ?b"
    "sectors_per_cluster ?fs = bpb_sectors_per_cluster ?b" "device_block_size ?fs = of_nat n"
    "fat_start ?fs = ucast (bpb_reserved_sectors ?b)" "device ?fs = dev"
    "fs_type ?fs = fat_type_of (data_clusters ?fs)" "fs_type ?fs \<noteq> Fat32 \<longrightarrow> root_cluster ?fs = 0"
    "data_start ?fs = root_dir_start ?fs + root_dir_sectors ?fs"
    by (simp_all add: mount_def Let_def)
  have "dbs ?fs = n"
  proof -
    have "n \<le> 4096"
      using assms(2) by simp
    then show ?thesis
      by (simp add: dbs_def fs unat_of_nat)
  qed
  moreover have "bps ?fs \<in> {512, 1024, 2048, 4096}"
    using sizes by (auto simp: bps_def fs)
  moreover have "unat (fat_start ?fs) = unat (bpb_reserved_sectors ?b)"
    unfolding fs by (rule unat_ucast_widen) simp
  then have "0 < fat_start ?fs"
    using res by (metis unat_eq_zero word_gt_0)
  ultimately show ?thesis
    unfolding fat_geometry_def using power_of_two_u8 [OF pow, folded fs(2)] fs(5-8) assms(2,3)
    by (metis min.cobounded2)
qed

lemma fat_new_geometry:
  assumes "fills_slices dev" and "fat_new dev p = Some (Inr fs)"
  shows "fat_geometry fs \<and> device fs = dev \<and> partition_start fs = p"
proof -
  let ?n = "min (unat (block_size (info dev))) 4096"
  obtain buf where rd: "read_block_at dev p 0 ?n (replicate MAX_BLOCK_SIZE 0) = Some (Inr buf)"
    and ok: "bpb_ok (bpb_of buf)" and fs: "fs = mount dev p ?n buf"
    using assms(2)
    by (auto simp: fat_new_def and_then_Ok_iff map_err_Ok_iff MAX_BLOCK_SIZE_def Let_def split: if_splits)
  have "0 < ?n"
  proof (rule ccontr)
    assume "\<not> 0 < ?n"
    then have zero: "?n = 0" by simp
    obtain bs where "read_blocks dev p 1 [] = Some (Inr bs)" and "buf = bs @ replicate MAX_BLOCK_SIZE 0"
      using rd unfolding zero by (auto simp: read_block_at_def read_block_def and_then_Ok_iff slice_def)
    then have "buf = replicate MAX_BLOCK_SIZE 0"
      using assms(1) unfolding fills_slices_def by (metis append_Nil length_0_conv)
    then have "field buf 11 2 = 0"
      by (simp add: field_def slice_def MAX_BLOCK_SIZE_def numeral_2_eq_2)
    then have "bpb_bytes_per_sector (bpb_of buf) = 0"
      by (simp add: bpb_of_def)
    then show False
      using ok by (simp add: bpb_ok_def)
  qed
  then show ?thesis
    using mount_geometry [OF ok refl, of dev p] by (simp add: fs mount_def Let_def)
qed

lemma geometry_sizes:
  assumes "fat_geometry fs"
  shows "512 \<le> bps fs" and "bps fs \<le> 4096" and "32 dvd bps fs"
    and "1 \<le> unat (sectors_per_cluster fs)" and "unat (sectors_per_cluster fs) \<le> 128"
proof -
  have "bps fs \<in> {512, 1024, 2048, 4096}"
    and spc: "unat (sectors_per_cluster fs) \<in> {1, 2, 4, 8, 16, 32, 64, 128}"
    using assms by (simp_all only: fat_geometry_def)
  then show "512 \<le> bps fs" "bps fs \<le> 4096" "32 dvd bps fs"
    by auto
  show "1 \<le> unat (sectors_per_cluster fs)" "unat (sectors_per_cluster fs) \<le> 128"
    using spc by auto
qed

lemma cluster_size_bounds:
  assumes "fat_geometry fs"
  shows "512 \<le> cluster_size fs" and "32 dvd cluster_size fs" and "cluster_size fs \<le> 524288"
  using mult_le_mono [OF geometry_sizes(4,1) [OF assms]] mult_le_mono [OF geometry_sizes(5,2) [OF assms]]
    geometry_sizes(3) [OF assms]
  by (simp_all add: cluster_size_def)

section \<open>Volumes\<close>

text \<open>
  \<open>fat_volume fs c\<close>: the device holds the medium \<open>c\<close>, the volume described by \<open>fs\<close> lies on it, a cluster fits
  the buffers of the driver, and clusters that are larger than a device block start at a block boundary.
\<close>

definition base :: "fat_filesystem \<Rightarrow> nat" where
  "base fs = unat (partition_start fs) * dbs fs"

definition fat_volume :: "fat_filesystem \<Rightarrow> medium \<Rightarrow> bool" where
  "fat_volume fs c \<longleftrightarrow>
     fat_geometry fs \<and> device_holds (device fs) c \<and>
     512 dvd dbs fs \<and> unat (block_size (info (device fs))) \<le> 4096 \<and>
     cluster_size fs \<le> DIR_BUFFER_SIZE \<and>
     (dbs fs < cluster_size fs \<longrightarrow>
        dbs fs dvd cluster_size fs \<and> dbs fs dvd unat (data_start fs) * bps fs) \<and>
     unat (fat_start fs) \<le> unat (root_dir_start fs) \<and>
     unat (root_dir_start fs) + unat (root_dir_sectors fs) = unat (data_start fs) \<and>
     unat (data_start fs) + unat (data_clusters fs) * unat (sectors_per_cluster fs) < 2 ^ 32 \<and>
     base fs + (unat (data_start fs) + unat (data_clusters fs) * unat (sectors_per_cluster fs)) * bps fs
       \<le> unat (num_blocks (info (device fs))) * dbs fs"

definition valid_cluster :: "fat_filesystem \<Rightarrow> u32 \<Rightarrow> bool" where
  "valid_cluster fs k \<longleftrightarrow> 2 \<le> unat k \<and> unat k < unat (data_clusters fs) + 2"

lemma dbs_device: "fat_volume fs c \<Longrightarrow> unat (block_size (info (device fs))) = dbs fs"
  by (simp add: fat_volume_def fat_geometry_def)

lemma volume_sizes:
  assumes "fat_volume fs c"
  shows "0 < dbs fs" and "dbs fs \<le> 4096" and "512 \<le> bps fs" and "0 < cluster_size fs"
proof -
  have g: "fat_geometry fs"
    using assms by (simp only: fat_volume_def)
  then show "0 < dbs fs" "dbs fs \<le> 4096"
    unfolding fat_geometry_def by blast+
  show "512 \<le> bps fs" "0 < cluster_size fs"
    using geometry_sizes(1) [OF g] cluster_size_bounds(1) [OF g] by simp_all
qed

text \<open>Every byte of the volume is in a block that can be read.\<close>

lemma read_fs_block_reads:
  assumes vol: "fat_volume fs c" and "unat (partition_start fs) + k < unat (num_blocks (info (device fs)))"
    and "dbs fs \<le> length buf"
  shows "read_fs_block fs (partition_start fs + of_nat k) buf =
    Some (Inr (bytes_at c (base fs + k * dbs fs) (dbs fs) @ drop (dbs fs) buf))"
proof -
  have "unat (partition_start fs) + k < 2 ^ 64"
    using assms(2) unat_u64_bound [of "num_blocks (info (device fs))"] by linarith
  then have "unat (of_nat k :: u64) = k" and
    lba: "unat (partition_start fs + of_nat k) = unat (partition_start fs) + k"
    using unat_plus_less [of "partition_start fs" "of_nat k"] by (simp_all add: unat_of_nat)
  have "device_holds (device fs) c"
    using vol by (simp add: fat_volume_def)
  then show ?thesis
    using dyn.reads_block [of "device fs" c "partition_start fs + of_nat k" "slice 0 (dbs fs) buf"]
      lba assms(2,3) dbs_device [OF vol] volume_sizes [OF vol]
    by (simp add: read_fs_block_def read_block_at_def read_block_def slice_def base_def add_mult_distrib)
qed

lemma block_of_byte:
  assumes "fat_volume fs c" and "base fs + a < unat (num_blocks (info (device fs))) * dbs fs"
  shows "unat (partition_start fs) + a div dbs fs < unat (num_blocks (info (device fs)))"
proof -
  have "base fs + a div dbs fs * dbs fs < unat (num_blocks (info (device fs))) * dbs fs"
    using assms(2) by (meson add_left_mono div_times_less_eq_dividend le_less_trans)
  then have "(unat (partition_start fs) + a div dbs fs) * dbs fs <
    unat (num_blocks (info (device fs))) * dbs fs"
    by (simp add: base_def add_mult_distrib)
  then show ?thesis by simp
qed

section \<open>Table entries across blocks\<close>

lemma u16_of_bytes: "(ucast a OR push_bit 8 (ucast b) :: u16) = of_nat (le_nat [a, b])"
  for a b :: u8
proof -
  have "(ucast a :: u16) OR push_bit 8 (ucast b) = ucast a + push_bit 8 (ucast b)"
    by (rule disjunctive_add [symmetric]) (auto simp: bit_simps dest: bit_imp_le_length)
  then show ?thesis
    by (simp add: push_bit_eq_mult)
qed

lemma table_u16_reads:
  assumes vol: "fat_volume fs c" and "a + 1 < unat (num_blocks (info (device fs))) * dbs fs - base fs"
  shows "table_u16 fs (partition_start fs + of_nat (a div dbs fs) + 1) (a mod dbs fs)
      (bytes_at c (base fs + a div dbs fs * dbs fs) (dbs fs) @ drop (dbs fs) (replicate MAX_BLOCK_SIZE 0)) =
    Some (Inr (of_nat (le_nat (bytes_at c (base fs + a) 2))))"
proof -
  let ?k = "a div dbs fs" and ?off = "a mod dbs fs"
  let ?buf = "bytes_at c (base fs + ?k * dbs fs) (dbs fs) @ drop (dbs fs) (replicate MAX_BLOCK_SIZE 0)"
  note S = volume_sizes [OF vol]
  have off: "?off < dbs fs" and a: "?k * dbs fs + ?off = a"
    using S by simp_all
  have two: "bytes_at c (base fs + a) 2 = [c (base fs + a), c (base fs + a + 1)]"
    by (simp add: bytes_at_def upt_rec)
  have b0: "?buf ! ?off = c (base fs + a)"
    using off a by (simp add: nth_append add.assoc)
  show ?thesis
  proof (cases "?off + 1 < dbs fs")
    case True
    then have "?buf ! (?off + 1) = c (base fs + a + 1)"
      using a by (simp add: nth_append add.assoc)
    with True b0 show ?thesis
      by (simp only: table_u16_def if_True u16_of_bytes two)
  next
    case False
    then have "?off + 1 = dbs fs"
      using off by simp
    then have nxt: "(?k + 1) * dbs fs = a + 1"
      using a by (simp only: add_mult_distrib mult_1)
    then have "(a + 1) div dbs fs = ?k + 1"
      using S(1) by (metis div_mult_self_is_m)
    then have "unat (partition_start fs) + (?k + 1) < unat (num_blocks (info (device fs)))"
      using block_of_byte [OF vol, of "a + 1"] assms(2) by simp
    then have "read_fs_block fs (partition_start fs + of_nat (?k + 1)) ?buf =
      Some (Inr (bytes_at c (base fs + (?k + 1) * dbs fs) (dbs fs) @ drop (dbs fs) ?buf))"
      using S(2) by (intro read_fs_block_reads [OF vol]) simp_all
    moreover have "(bytes_at c (base fs + (?k + 1) * dbs fs) (dbs fs) @ drop (dbs fs) ?buf) ! 0 =
      c (base fs + a + 1)"
      unfolding nxt using S(1) by (simp add: nth_append)
    moreover have "partition_start fs + of_nat ?k + 1 = partition_start fs + of_nat (?k + 1)"
      by simp
    ultimately show ?thesis
      using False b0 by (simp only: table_u16_def if_False u16_of_bytes two and_then_simps)
  qed
qed

lemma table_u32_reads:
  assumes vol: "fat_volume fs c" and "a + 3 < unat (num_blocks (info (device fs))) * dbs fs - base fs"
    and four: "4 \<le> dbs fs"
  shows "table_u32 fs (partition_start fs + of_nat (a div dbs fs) + 1) (a mod dbs fs)
      (bytes_at c (base fs + a div dbs fs * dbs fs) (dbs fs) @ drop (dbs fs) (replicate MAX_BLOCK_SIZE 0)) =
    Some (Inr (of_nat (le_nat (bytes_at c (base fs + a) 4))))"
proof -
  let ?k = "a div dbs fs" and ?off = "a mod dbs fs"
  let ?buf = "bytes_at c (base fs + ?k * dbs fs) (dbs fs) @ drop (dbs fs) (replicate MAX_BLOCK_SIZE 0)"
  note S = volume_sizes [OF vol]
  have off: "?off < dbs fs" and a: "?k * dbs fs + ?off = a"
    using S by simp_all
  show ?thesis
  proof (cases "?off + 3 < dbs fs")
    case True
    then have "slice ?off 4 ?buf = bytes_at c (base fs + a) 4"
      using a by (simp add: slice_def drop_bytes_at take_bytes_at add.assoc)
    with True show ?thesis
      by (simp only: table_u32_def if_True)
  next
    case False
    let ?n = "dbs fs - ?off"
    have nxt: "(?k + 1) * dbs fs = a + ?n"
      using a off by (simp only: add_mult_distrib mult_1)
    then have "(a + ?n) div dbs fs = ?k + 1"
      using S(1) by (metis div_mult_self_is_m)
    then have "unat (partition_start fs) + (?k + 1) < unat (num_blocks (info (device fs)))"
      using block_of_byte [OF vol, of "a + ?n"] assms(2) False by simp
    then have rd: "read_fs_block fs (partition_start fs + of_nat (?k + 1)) ?buf =
      Some (Inr (bytes_at c (base fs + (?k + 1) * dbs fs) (dbs fs) @ drop (dbs fs) ?buf))"
      using S(2) by (intro read_fs_block_reads [OF vol]) simp_all
    have "slice ?off ?n ?buf = bytes_at c (base fs + a) ?n"
      using a off by (simp add: slice_def drop_bytes_at take_bytes_at add.assoc)
    moreover have "take (4 - ?n) (bytes_at c (base fs + (?k + 1) * dbs fs) (dbs fs) @ drop (dbs fs) ?buf) =
      bytes_at c (base fs + a + ?n) (4 - ?n)"
      unfolding nxt
      using take_drop_block [of 0 "4 - ?n" "dbs fs" c "base fs + (a + ?n)" "drop (dbs fs) ?buf"] four
      by (simp only: add_0 drop0 add.assoc add_0_right)
    moreover have "bytes_at c (base fs + a) ?n @ bytes_at c (base fs + a + ?n) (4 - ?n) =
      bytes_at c (base fs + a) 4"
      using bytes_at_append [of c "base fs + a" ?n "4 - ?n"] False by simp
    moreover have "partition_start fs + of_nat ?k + 1 = partition_start fs + of_nat (?k + 1)"
      by simp
    ultimately show ?thesis
      using False rd by (simp only: table_u32_def if_False and_then_simps Let_def)
  qed
qed

section \<open>The table as a number\<close>

text \<open>
  The bytes of the table, read as one little-endian number, are a sequence of fields of 12, 16 or 32 bits, of
  which the low 12, 16 or 28 bits are the entry of a cluster.
\<close>

definition stride :: "fat_type \<Rightarrow> nat" where
  "stride ty = (case ty of Fat12 \<Rightarrow> 12 | Fat16 \<Rightarrow> 16 | Fat32 \<Rightarrow> 32)"

definition entry_bits :: "fat_type \<Rightarrow> nat" where
  "entry_bits ty = (case ty of Fat12 \<Rightarrow> 12 | Fat16 \<Rightarrow> 16 | Fat32 \<Rightarrow> 28)"

definition table_number :: "fat_filesystem \<Rightarrow> medium \<Rightarrow> nat" where
  "table_number fs c =
     le_nat (bytes_at c (base fs + unat (fat_start fs) * bps fs) (4 * (unat (data_clusters fs) + 2)))"

definition table_entry :: "fat_filesystem \<Rightarrow> medium \<Rightarrow> nat \<Rightarrow> nat" where
  "table_entry fs c k =
     table_number fs c div 2 ^ (stride (fs_type fs) * k) mod 2 ^ entry_bits (fs_type fs)"

text \<open>
  The highest eight values of an entry end a chain, the eight below them are reserved.
\<close>

definition successor :: "fat_filesystem \<Rightarrow> medium \<Rightarrow> u32 \<Rightarrow> fat_error + u32 option" where
  "successor fs c k =
     (let v = table_entry fs c (unat k); top = 2 ^ entry_bits (fs_type fs)
      in if top - 8 \<le> v then Inr None
         else if top - 16 \<le> v then Inl FatInvalidCluster else Inr (Some (of_nat v)))"

lemma le_nat_append: "le_nat (xs @ ys) = le_nat xs + 256 ^ length xs * le_nat ys"
  by (induction xs) (simp_all add: algebra_simps)

lemma le_nat_drop: "n \<le> length bs \<Longrightarrow> le_nat (drop n bs) = le_nat bs div 256 ^ n"
proof -
  assume "n \<le> length bs"
  then have "le_nat bs = le_nat (take n bs) + 256 ^ n * le_nat (drop n bs)"
    using le_nat_append [of "take n bs" "drop n bs"] by simp
  moreover have "le_nat (take n bs) < 256 ^ n"
    using le_nat_bound [of "take n bs"] \<open>n \<le> length bs\<close> by simp
  ultimately show ?thesis by simp
qed

lemma le_nat_take: "n \<le> length bs \<Longrightarrow> le_nat (take n bs) = le_nat bs mod 256 ^ n"
proof -
  assume "n \<le> length bs"
  then have "le_nat bs = le_nat (take n bs) + 256 ^ n * le_nat (drop n bs)"
    using le_nat_append [of "take n bs" "drop n bs"] by simp
  moreover have "le_nat (take n bs) < 256 ^ n"
    using le_nat_bound [of "take n bs"] \<open>n \<le> length bs\<close> by simp
  ultimately show ?thesis by simp
qed

lemma le_nat_slice:
  "off + n \<le> length bs \<Longrightarrow> le_nat (slice off n bs) = le_nat bs div 2 ^ (8 * off) mod 2 ^ (8 * n)"
proof -
  assume "off + n \<le> length bs"
  moreover have "(256 :: nat) ^ k = 2 ^ (8 * k)" for k
    using power_mult [of "2 :: nat" 8 k] by simp
  ultimately show ?thesis
    by (simp add: slice_def le_nat_take le_nat_drop)
qed

text \<open>The bytes of the table at an offset.\<close>

lemma table_bytes:
  assumes "off + n \<le> 4 * (unat (data_clusters fs) + 2)"
  shows "le_nat (bytes_at c (base fs + (unat (fat_start fs) * bps fs + off)) n) =
    table_number fs c div 2 ^ (8 * off) mod 2 ^ (8 * n)"
  using le_nat_slice [of off n "bytes_at c (base fs + unat (fat_start fs) * bps fs)
      (4 * (unat (data_clusters fs) + 2))"] assms
  by (simp add: table_number_def slice_bytes_at add.assoc)

section \<open>Decoding an entry\<close>

lemma odd_word_and_1: "k AND 1 \<noteq> 0 \<longleftrightarrow> odd (unat k)" for k :: u32
proof -
  have "unat (k AND 1) = unat k mod 2"
    using unat_take_bit [of 1 k] by (simp add: take_bit_eq_mask)
  then show ?thesis
    by (metis odd_iff_mod_2_eq_one unat_eq_zero even_iff_mod_2_eq_zero)
qed

lemma unat_of_nat_u16: "v < 65536 \<Longrightarrow> unat (of_nat v :: u16) = v"
  by (simp add: unat_of_nat)

lemma unat_and_fff: "unat (x AND 0x0FFF) = unat x mod 4096" for x :: u16
proof -
  have "(0x0FFF :: u16) = mask 12"
    by (simp add: mask_eq_exp_minus_1)
  then show ?thesis
    using unat_take_bit [of 12 x] by (simp add: take_bit_eq_mask)
qed

lemma unat_and_fffffff: "unat (x AND 0x0FFFFFFF) = unat x mod 268435456" for x :: u32
proof -
  have "(0x0FFFFFFF :: u32) = mask 28"
    by (simp add: mask_eq_exp_minus_1)
  then show ?thesis
    using unat_take_bit [of 28 x] by (simp add: take_bit_eq_mask)
qed

lemma unat_drop_4: "unat (drop_bit 4 x) = unat x div 16" for x :: u16
  by (simp add: drop_bit_eq_div unat_div_eq)

text \<open>The successor that an entry value stands for, when entries have \<open>w\<close> bits.\<close>

definition link :: "nat \<Rightarrow> nat \<Rightarrow> fat_error + u32 option" where
  "link w v =
     (if 2 ^ w - 8 \<le> v then Inr None
      else if 2 ^ w - 16 \<le> v then Inl FatInvalidCluster else Inr (Some (of_nat v)))"

lemma successor_link: "successor fs c k = link (entry_bits (fs_type fs)) (table_entry fs c (unat k))"
  by (simp add: successor_def link_def Let_def)

lemma fat12_next_link:
  assumes "v < 65536"
  shows "fat12_next k (of_nat v) = link 12 (if odd (unat k) then v div 16 else v mod 4096)"
proof -
  define x where "x = (if k AND 1 \<noteq> 0 then drop_bit 4 (of_nat v) else (of_nat v AND 0x0FFF :: u16))"
  have x: "unat x = (if odd (unat k) then v div 16 else v mod 4096)"
    unfolding x_def odd_word_and_1
    by (simp only: if_distrib [of unat] unat_drop_4 unat_and_fff unat_of_nat_u16 [OF assms])
  have "fat12_next k (of_nat v) =
    (if x \<ge> 0x0FF8 then Inr None else if x \<ge> 0x0FF0 then Inl FatInvalidCluster else Inr (Some (ucast x)))"
    by (simp only: fat12_next_def Let_def x_def)
  also have "\<dots> = link 12 (unat x)"
    by (simp add: link_def word_le_nat_alt)
  finally show ?thesis
    unfolding x .
qed

lemma fat16_next_link:
  assumes "v < 65536"
  shows "fat16_next (of_nat v) = link 16 v"
proof -
  have "unat (ucast (of_nat v :: u16) :: u32) = unat (of_nat v :: u16)"
    by (rule unat_ucast_widen) simp
  then have "(ucast (of_nat v :: u16) :: u32) = of_nat v"
    using assms by (simp add: word_unat_eq_iff unat_of_nat_u16 unat_of_nat)
  then show ?thesis
    using unat_of_nat_u16 [OF assms] by (simp add: fat16_next_def link_def word_le_nat_alt)
qed

lemma fat32_next_link:
  assumes "v < 2 ^ 32"
  shows "fat32_next (of_nat v) = link 28 (v mod 2 ^ 28)"
proof -
  define x where "x = (of_nat v AND 0x0FFFFFFF :: u32)"
  have x: "unat x = v mod 2 ^ 28"
    using assms by (simp add: x_def unat_and_fffffff unat_of_nat)
  have "fat32_next (of_nat v) =
    (if x \<ge> 0x0FFFFFF8 then Inr None else if x \<ge> 0x0FFFFFF0 then Inl FatInvalidCluster else Inr (Some x))"
    by (simp only: fat32_next_def Let_def x_def)
  also have "\<dots> = link 28 (unat x)"
    by (simp add: link_def word_le_nat_alt)
  finally show ?thesis
    unfolding x .
qed

section \<open>The successor of a cluster\<close>

lemma table_on_volume:
  assumes vol: "fat_volume fs c" and "valid_cluster fs k" and "off \<le> 4 * unat k + 4"
  shows "unat (fat_start fs) * bps fs + off \<le> unat (num_blocks (info (device fs))) * dbs fs - base fs"
    and "off \<le> 4 * (unat (data_clusters fs) + 2)"
proof -
  have g: "fat_geometry fs"
    using vol by (simp only: fat_volume_def)
  show "off \<le> 4 * (unat (data_clusters fs) + 2)"
    using assms(2,3) by (simp add: valid_cluster_def)
  then have "off \<le> unat (data_clusters fs) * (1 * 512)"
    using assms(2) by (simp add: valid_cluster_def)
  also have "\<dots> \<le> unat (data_clusters fs) * (unat (sectors_per_cluster fs) * bps fs)"
    using geometry_sizes(1,4) [OF g] by (intro mult_le_mono2 mult_le_mono) simp_all
  finally have "unat (fat_start fs) * bps fs + off \<le>
    unat (data_start fs) * bps fs + unat (data_clusters fs) * unat (sectors_per_cluster fs) * bps fs"
    using vol by (intro add_mono mult_le_mono1) (auto simp: fat_volume_def mult.assoc)
  moreover have "base fs + (unat (data_start fs) * bps fs +
      unat (data_clusters fs) * unat (sectors_per_cluster fs) * bps fs)
    \<le> unat (num_blocks (info (device fs))) * dbs fs"
    using vol by (simp add: fat_volume_def add_mult_distrib)
  ultimately show "unat (fat_start fs) * bps fs + off
    \<le> unat (num_blocks (info (device fs))) * dbs fs - base fs"
    by linarith
qed

text \<open>Division and remainder of numbers given by shifts.\<close>

lemma div_mod_shift: "a div 2 ^ m mod 2 ^ (n + k) div 2 ^ k = a div 2 ^ (m + k) mod 2 ^ n" for a :: nat
proof -
  let ?b = "a div 2 ^ m"
  have "?b mod 2 ^ (n + k) = 2 ^ k * (?b div 2 ^ k mod 2 ^ n) + ?b mod 2 ^ k"
    using mod_mult2_eq [of ?b "2 ^ k" "2 ^ n"] by (simp add: power_add mult.commute)
  then have "?b mod 2 ^ (n + k) div 2 ^ k = ?b div 2 ^ k mod 2 ^ n"
    by simp
  then show ?thesis
    by (simp only: power_add div_mult2_eq)
qed

lemma mod_mod_power: "n \<le> m \<Longrightarrow> a mod 2 ^ m mod 2 ^ n = a mod 2 ^ n" for a :: nat
  by (simp add: mod_mod_cancel le_imp_power_dvd)

text \<open>The field of a 12-bit entry: its bytes start at one and a half times the cluster number.\<close>

lemma fat12_field:
  fixes N :: nat
  assumes "v = N div 2 ^ (8 * (k * 3 div 2)) mod 2 ^ 16"
  shows "(if odd k then v div 16 else v mod 4096) = N div 2 ^ (12 * k) mod 2 ^ 12"
proof (cases "odd k")
  case True
  then obtain j where "k = 2 * j + 1"
    by (blast elim: oddE)
  then have "8 * (k * 3 div 2) + 4 = 12 * k"
    by arith
  then show ?thesis
    using True div_mod_shift [of N "8 * (k * 3 div 2)" 12 4] assms by simp
next
  case False
  then have "8 * (k * 3 div 2) = 12 * k"
    by (auto elim!: evenE)
  with assms have "v = N div 2 ^ (12 * k) mod 2 ^ 16"
    by (simp only:)
  then show ?thesis
    using False mod_mod_power [of 12 16 "N div 2 ^ (12 * k)"] by simp
qed

lemma next_cluster_successor:
  assumes vol: "fat_volume fs c" and k: "valid_cluster fs k"
  shows "next_cluster fs k = Some (successor fs c k)"
proof -
  let ?N = "table_number fs c" and ?n = "unat k"
  note S = volume_sizes [OF vol]
  have two: "\<not> k < 2"
    using k by (simp add: valid_cluster_def word_less_nat_alt)
  have dbs4: "4 \<le> dbs fs"
    using vol S(1) by (auto simp: fat_volume_def elim: dvdE)
  define a where "a = entry_byte_offset fs k"
  have read: "read_fs_block fs (partition_start fs + of_nat (a div dbs fs)) (replicate MAX_BLOCK_SIZE 0) =
    Some (Inr (bytes_at c (base fs + a div dbs fs * dbs fs) (dbs fs) @
      drop (dbs fs) (replicate MAX_BLOCK_SIZE 0)))"
    if "a < unat (num_blocks (info (device fs))) * dbs fs - base fs"
    using block_of_byte [OF vol, of a] that S(2)
    by (intro read_fs_block_reads [OF vol]) (simp_all add: MAX_BLOCK_SIZE_def)
  show ?thesis
  proof (cases "fs_type fs")
    case Fat12
    let ?off = "?n * 3 div 2"
    have a: "a = unat (fat_start fs) * bps fs + ?off"
      by (simp add: a_def entry_byte_offset_def Fat12)
    have on: "a + 2 \<le> unat (num_blocks (info (device fs))) * dbs fs - base fs"
      "?off + 2 \<le> 4 * (unat (data_clusters fs) + 2)"
      using table_on_volume [OF vol k, of "?off + 2"] by (simp_all add: a)
    define v where "v = le_nat (bytes_at c (base fs + a) 2)"
    have v: "v = ?N div 2 ^ (8 * ?off) mod 2 ^ 16" and "v < 65536"
      using table_bytes [OF on(2)] by (simp_all add: v_def a)
    have "next_cluster fs k = Some (fat12_next k (of_nat v))"
      using two read on(1) table_u16_reads [OF vol, of a]
      by (simp add: next_cluster_def Let_def Fat12 v_def flip: a_def)
    also have "\<dots> = Some (link 12 (?N div 2 ^ (12 * ?n) mod 2 ^ 12))"
      using fat12_next_link [OF \<open>v < 65536\<close>, of k] fat12_field [OF v] by simp
    finally show ?thesis
      by (simp add: successor_link table_entry_def stride_def entry_bits_def Fat12)
  next
    case Fat16
    have a: "a = unat (fat_start fs) * bps fs + ?n * 2"
      by (simp add: a_def entry_byte_offset_def Fat16)
    have on: "a + 2 \<le> unat (num_blocks (info (device fs))) * dbs fs - base fs"
      "?n * 2 + 2 \<le> 4 * (unat (data_clusters fs) + 2)"
      using table_on_volume [OF vol k, of "?n * 2 + 2"] by (simp_all add: a)
    define v where "v = le_nat (bytes_at c (base fs + a) 2)"
    have v: "v = ?N div 2 ^ (8 * (?n * 2)) mod 2 ^ 16" and "v < 65536"
      using table_bytes [OF on(2)] by (simp_all add: v_def a)
    have "next_cluster fs k = Some (fat16_next (of_nat v))"
      using two read on(1) table_u16_reads [OF vol, of a]
      by (simp add: next_cluster_def Let_def Fat16 v_def flip: a_def)
    also have "\<dots> = Some (link 16 v)"
      using fat16_next_link [OF \<open>v < 65536\<close>] by simp
    also have "v = ?N div 2 ^ (16 * ?n) mod 2 ^ 16"
      unfolding v by (simp add: mult.commute)
    finally show ?thesis
      by (simp add: successor_link table_entry_def stride_def entry_bits_def Fat16)
  next
    case Fat32
    have a: "a = unat (fat_start fs) * bps fs + ?n * 4"
      by (simp add: a_def entry_byte_offset_def Fat32)
    have on: "a + 4 \<le> unat (num_blocks (info (device fs))) * dbs fs - base fs"
      "?n * 4 + 4 \<le> 4 * (unat (data_clusters fs) + 2)"
      using table_on_volume [OF vol k, of "?n * 4 + 4"] by (simp_all add: a)
    define v where "v = le_nat (bytes_at c (base fs + a) 4)"
    have v: "v = ?N div 2 ^ (8 * (?n * 4)) mod 2 ^ 32" and "v < 2 ^ 32"
      using table_bytes [OF on(2)] by (simp_all add: v_def a)
    have "next_cluster fs k = Some (fat32_next (of_nat v))"
      using two read on(1) table_u32_reads [OF vol, of a] dbs4
      by (simp add: next_cluster_def Let_def Fat32 v_def flip: a_def)
    also have "\<dots> = Some (link 28 (v mod 2 ^ 28))"
      using fat32_next_link [OF \<open>v < 2 ^ 32\<close>] by simp
    also have "v mod 2 ^ 28 = ?N div 2 ^ (32 * ?n) mod 2 ^ 28"
      unfolding v using mod_mod_power [of 28 32 "?N div 2 ^ (32 * ?n)"] by (simp add: mult.commute)
    finally show ?thesis
      by (simp add: successor_link table_entry_def stride_def entry_bits_def Fat32)
  qed
qed

end
