(* ===== verification/Fat_Files.thy ===== *)
theory Fat_Files
  imports Fat_Table
begin

text \<open>
  Clusters and files: reading a cluster gives its bytes on the medium, and reading a file gives the bytes of
  the clusters of its chain. What only depends on a chain of equally sized pieces is stated in the locale
  \<open>chained_data\<close>, interpreted on the clusters of a volume.
\<close>

section \<open>Clusters\<close>

definition cluster_offset :: "fat_filesystem \<Rightarrow> u32 \<Rightarrow> nat" where
  "cluster_offset fs k =
     (unat (data_start fs) + (unat k - 2) * unat (sectors_per_cluster fs)) * bps fs"

definition cluster_bytes :: "fat_filesystem \<Rightarrow> medium \<Rightarrow> u32 \<Rightarrow> u8 list" where
  "cluster_bytes fs c k = bytes_at c (base fs + cluster_offset fs k) (cluster_size fs)"

lemma cluster_on_volume:
  assumes vol: "fat_volume fs c" and k: "valid_cluster fs k"
  shows "base fs + cluster_offset fs k + cluster_size fs \<le> unat (num_blocks (info (device fs))) * dbs fs"
    and "unat (data_start fs) + (unat k - 2) * unat (sectors_per_cluster fs) < 2 ^ 32"
proof -
  let ?s = "unat (sectors_per_cluster fs)"
  have "(unat k - 2) * ?s + ?s = (unat k - 1) * ?s"
    using k by (simp add: valid_cluster_def diff_mult_distrib)
  also have "\<dots> \<le> unat (data_clusters fs) * ?s"
    using k by (intro mult_le_mono1) (auto simp: valid_cluster_def)
  finally have le: "(unat k - 2) * ?s + ?s \<le> unat (data_clusters fs) * ?s" .
  then have "cluster_offset fs k + cluster_size fs \<le>
    (unat (data_start fs) + unat (data_clusters fs) * ?s) * bps fs"
    unfolding cluster_offset_def cluster_size_def add_mult_distrib [symmetric] add.assoc
    by (intro mult_le_mono1 add_left_mono)
  then show "base fs + cluster_offset fs k + cluster_size fs \<le> unat (num_blocks (info (device fs))) * dbs fs"
    using vol by (simp add: fat_volume_def)
  show "unat (data_start fs) + (unat k - 2) * ?s < 2 ^ 32"
    using vol le by (simp add: fat_volume_def)
qed

lemma cluster_to_device_block_valid:
  assumes vol: "fat_volume fs c" and k: "valid_cluster fs k"
  shows "cluster_to_device_block fs k =
    Some (partition_start fs + of_nat (cluster_offset fs k div dbs fs), cluster_offset fs k mod dbs fs)"
proof -
  let ?s = "unat (sectors_per_cluster fs)" and ?A = "cluster_offset fs k"
  let ?sec = "unat (data_start fs) + (unat k - 2) * ?s"
  note S = volume_sizes [OF vol]
  have k2: "\<not> k < 2" and kc: "\<not> data_clusters fs \<le> k - 2" and uk: "unat (k - 2) = unat k - 2"
    using k by (auto simp: valid_cluster_def word_less_nat_alt word_le_nat_alt unat_sub_le)
  have us: "unat (ucast (sectors_per_cluster fs) :: u32) = ?s"
    by (rule unat_ucast_widen) simp
  have lt: "?sec < 2 ^ 32"
    by (rule cluster_on_volume(2) [OF vol k])
  obtain co where co: "checked_mul (k - 2) (ucast (sectors_per_cluster fs)) = Some co"
    "unat co = (unat k - 2) * ?s"
  proof -
    have "unat (k - 2) * unat (ucast (sectors_per_cluster fs) :: u32) < 2 ^ LENGTH(32)"
      using lt by (simp add: uk us)
    then show ?thesis
      using that checked_mul_Some_iff [of "k - 2" "ucast (sectors_per_cluster fs)"]
        checked_mul_None_iff [of "k - 2" "ucast (sectors_per_cluster fs) :: u32"]
      by (cases "checked_mul (k - 2) (ucast (sectors_per_cluster fs) :: u32)") (auto simp: uk us)
  qed
  have sec: "checked_add (data_start fs) co = Some (data_start fs + co)"
    "unat (data_start fs + co) = ?sec"
    using lt co(2) checked_add_SomeI [of "data_start fs" co] unat_plus_less [of "data_start fs" co]
    by simp_all
  have blk: "fat_sector_to_device_block fs ?sec = (?A div dbs fs, ?A mod dbs fs)"
    using S(1) by (simp add: fat_sector_to_device_block_def cluster_offset_def)
  have "unat (partition_start fs) + ?A div dbs fs < unat (num_blocks (info (device fs)))"
    using cluster_on_volume(1) [OF vol k] S(4) by (intro block_of_byte [OF vol]) linarith
  then have "unat (partition_start fs) + unat (of_nat (?A div dbs fs) :: u64) < 2 ^ LENGTH(64)"
    using unat_u64_bound [of "num_blocks (info (device fs))"] by (simp add: unat_of_nat)
  then have "checked_add (partition_start fs) (of_nat (?A div dbs fs)) =
    Some (partition_start fs + of_nat (?A div dbs fs))"
    by (rule checked_add_SomeI)
  then show ?thesis
    using k2 kc co sec blk by (simp add: cluster_to_device_block_def)
qed

lemma copy_blocks_step:
  assumes "copied < cluster_size fs" and "read_fs_block fs block temp = Some (Inr temp')"
    and "n = min (dbs fs - off) (cluster_size fs - copied)"
  shows "copy_blocks fs block off copied temp buf =
    copy_blocks fs (block + 1) 0 (copied + n) temp'
      (take copied buf @ slice off n temp' @ drop (copied + n) buf)"
  using assms by (subst copy_blocks.simps) (simp add: Let_def)

lemma copy_blocks_reads:
  assumes vol: "fat_volume fs c"
    and on: "base fs + a + cluster_size fs \<le> unat (num_blocks (info (device fs))) * dbs fs"
    and "copied \<le> cluster_size fs" and "off < dbs fs"
    and "copied < cluster_size fs \<Longrightarrow> K * dbs fs + off = a + copied"
    and "dbs fs \<le> length temp" and "cluster_size fs \<le> length buf"
    and "take copied buf = bytes_at c (base fs + a) copied"
  shows "copy_blocks fs (partition_start fs + of_nat K) off copied temp buf =
    Some (Inr (bytes_at c (base fs + a) (cluster_size fs) @ drop (cluster_size fs) buf))"
  using assms(3-8)
proof (induction "cluster_size fs - copied" arbitrary: K off copied temp buf rule: less_induct)
  case less
  note S = volume_sizes [OF vol]
  show ?case
  proof (cases "copied < cluster_size fs")
    case False
    with less.prems(1) have "copied = cluster_size fs" by simp
    then show ?thesis
      using less.prems(6) append_take_drop_id [of copied buf]
      by (simp add: copy_blocks.simps [of fs])
  next
    case True
    define n where "n = min (dbs fs - off) (cluster_size fs - copied)"
    have n: "0 < n" "n \<le> dbs fs - off" "copied + n \<le> cluster_size fs"
      using True less.prems(2) by (auto simp: n_def)
    note at = less.prems(3) [OF True]
    have "K = (a + copied) div dbs fs"
      using less.prems(2) at by (metis add.commute div_mult_self3 div_less add_0 S(1) neq0_conv)
    then have "unat (partition_start fs) + K < unat (num_blocks (info (device fs)))"
      using on True by (simp only:) (intro block_of_byte [OF vol], linarith)
    then have rd: "read_fs_block fs (partition_start fs + of_nat K) temp =
      Some (Inr (bytes_at c (base fs + K * dbs fs) (dbs fs) @ drop (dbs fs) temp))"
      using less.prems(4) by (intro read_fs_block_reads [OF vol]) simp_all
    let ?temp = "bytes_at c (base fs + K * dbs fs) (dbs fs) @ drop (dbs fs) temp"
    let ?buf = "take copied buf @ slice off n ?temp @ drop (copied + n) buf"
    have piece: "slice off n ?temp = bytes_at c (base fs + a + copied) n"
      using take_drop_block [of off n "dbs fs" c "base fs + K * dbs fs"] n(2) less.prems(2) at
      by (simp add: slice_def add.assoc)
    have len: "length ?buf = length buf" "length (take copied buf) = copied"
      using less.prems(1,5) n(3) by (simp_all add: piece)
    have "take (copied + n) ?buf = bytes_at c (base fs + a) (copied + n)"
      using bytes_at_append [of c "base fs + a" copied n] less.prems(6) len(2)
      by (simp add: piece add.assoc)
    moreover have "(K + 1) * dbs fs + 0 = a + (copied + n)" if "copied + n < cluster_size fs"
    proof -
      have "n = dbs fs - off"
        using that by (simp add: n_def min_def split: if_splits)
      then show ?thesis
        using at less.prems(2) by (simp only: add_mult_distrib mult_1)
    qed
    ultimately have "copy_blocks fs (partition_start fs + of_nat (K + 1)) 0 (copied + n) ?temp ?buf =
      Some (Inr (bytes_at c (base fs + a) (cluster_size fs) @ drop (cluster_size fs) ?buf))"
      using n len less.prems(4,5) S(1) by (intro less.hyps) simp_all
    moreover have "drop (cluster_size fs) ?buf = drop (cluster_size fs) buf"
      using n(3) len(2) by (simp add: piece drop_append)
    moreover have "partition_start fs + of_nat K + 1 = partition_start fs + of_nat (K + 1)"
      by simp
    ultimately show ?thesis
      by (simp only: copy_blocks_step [OF True rd n_def])
  qed
qed

lemma read_cluster_blocks_reads:
  assumes vol: "fat_volume fs c"
    and on: "unat (partition_start fs) + K + n \<le> unat (num_blocks (info (device fs)))"
    and size: "cluster_size fs = n * dbs fs" and "i \<le> n" and "cluster_size fs \<le> length buf"
    and "take (i * dbs fs) buf = bytes_at c (base fs + K * dbs fs) (i * dbs fs)"
  shows "read_cluster_blocks fs (partition_start fs + of_nat K) [i..<n] buf =
    Some (Inr (bytes_at c (base fs + K * dbs fs) (cluster_size fs) @ drop (cluster_size fs) buf))"
  using assms(4-6)
proof (induction "n - i" arbitrary: i buf)
  case 0
  then show ?case
    using append_take_drop_id [of "n * dbs fs" buf] size by simp
next
  case (Suc m)
  note S = volume_sizes [OF vol]
  have i: "i < n"
    using Suc.hyps(2) by simp
  then have list: "[i..<n] = i # [Suc i..<n]"
    by (simp add: upt_conv_Cons)
  have room: "i * dbs fs + dbs fs \<le> n * dbs fs"
    using i mult_le_mono1 [of "Suc i" n "dbs fs"] by simp
  then have whole: "min (dbs fs) (cluster_size fs - i * dbs fs) = dbs fs"
    unfolding size by linarith
  have hold: "device_holds (device fs) c"
    using vol by (simp add: fat_volume_def)
  let ?buf = "take (i * dbs fs) buf @
    bytes_at c ((unat (partition_start fs) + K + i) * dbs fs) (dbs fs) @ drop (i * dbs fs + dbs fs) buf"
  have "partition_start fs + of_nat K + of_nat i = of_nat (unat (partition_start fs) + K + i)"
    by simp
  moreover have "read_block_at (device fs) (of_nat (unat (partition_start fs) + K + i)) (i * dbs fs) (dbs fs) buf
      = Some (Inr ?buf)"
    using on i room Suc.prems(2) size S(2)
    by (intro read_block_at_middle [OF hold]) (simp_all add: dbs_device [OF vol])
  ultimately have rd: "read_block_at (device fs) (partition_start fs + of_nat K + of_nat i) (i * dbs fs)
      (min (dbs fs) (cluster_size fs - i * dbs fs)) buf = Some (Inr ?buf)"
    unfolding whole by (simp only:)
  have here: "(unat (partition_start fs) + K + i) * dbs fs = base fs + K * dbs fs + i * dbs fs"
    by (simp add: base_def add_mult_distrib)
  have "length (take (i * dbs fs) buf) = i * dbs fs"
    using room Suc.prems(2) size by simp
  then have take: "take (Suc i * dbs fs) ?buf = bytes_at c (base fs + K * dbs fs) (Suc i * dbs fs)"
    and drop: "drop (cluster_size fs) ?buf = drop (cluster_size fs) buf"
    using bytes_at_append [of c "base fs + K * dbs fs" "i * dbs fs" "dbs fs"] Suc.prems(3) room size i
    unfolding here by (simp_all add: add.commute [of "dbs fs"] drop_append)
  have "read_cluster_blocks fs (partition_start fs + of_nat K) [Suc i..<n] ?buf =
    Some (Inr (bytes_at c (base fs + K * dbs fs) (cluster_size fs) @ drop (cluster_size fs) ?buf))"
    using Suc.hyps(2) Suc.prems(2) i room size take by (intro Suc.hyps(1)) auto
  then show ?case
    unfolding list drop using rd by simp
qed

lemma read_cluster_reads:
  assumes vol: "fat_volume fs c" and k: "valid_cluster fs k" and len: "cluster_size fs \<le> length buf"
  shows "read_cluster fs k buf = Some (Inr (cluster_bytes fs c k @ drop (cluster_size fs) buf))"
proof -
  let ?A = "cluster_offset fs k"
  note S = volume_sizes [OF vol]
  note addr = cluster_to_device_block_valid [OF vol k]
  note on = cluster_on_volume(1) [OF vol k]
  show ?thesis
  proof (cases "cluster_size fs \<le> dbs fs")
    case True
    have "copy_blocks fs (partition_start fs + of_nat (?A div dbs fs)) (?A mod dbs fs) 0
        (replicate MAX_BLOCK_SIZE 0) buf =
      Some (Inr (bytes_at c (base fs + ?A) (cluster_size fs) @ drop (cluster_size fs) buf))"
      using S on len by (intro copy_blocks_reads [OF vol]) (simp_all add: MAX_BLOCK_SIZE_def)
    with True len addr show ?thesis
      by (simp add: read_cluster_def cluster_bytes_def)
  next
    case False
    let ?n = "cluster_size fs div dbs fs"
    have dvd: "dbs fs dvd cluster_size fs" "dbs fs dvd unat (data_start fs) * bps fs"
      using vol False by (simp_all add: fat_volume_def)
    then have "dbs fs dvd ?A"
      unfolding cluster_offset_def add_mult_distrib
      by (simp add: cluster_size_def mult.assoc)
    then have A: "?A mod dbs fs = 0" "?A div dbs fs * dbs fs = ?A"
      by simp_all
    have n: "cluster_size fs = ?n * dbs fs"
      using dvd(1) by simp
    have "(cluster_size fs + dbs fs - 1) div dbs fs = ?n"
    proof -
      have "cluster_size fs + dbs fs - 1 = (dbs fs - 1) + ?n * dbs fs"
        using n S(1) by linarith
      then show ?thesis
        using S(1) by (simp only: div_mult_self1 [OF less_imp_neq [symmetric]]) simp
    qed
    moreover have "read_cluster_blocks fs (partition_start fs + of_nat (?A div dbs fs)) [0..<?n] buf =
      Some (Inr (bytes_at c (base fs + ?A div dbs fs * dbs fs) (cluster_size fs) @
                 drop (cluster_size fs) buf))"
    proof (rule read_cluster_blocks_reads [OF vol _ n])
      have "(unat (partition_start fs) + ?A div dbs fs + ?n) * dbs fs \<le>
        unat (num_blocks (info (device fs))) * dbs fs"
        using on A(2) n by (simp add: add_mult_distrib base_def)
      then show "unat (partition_start fs) + ?A div dbs fs + ?n \<le> unat (num_blocks (info (device fs)))"
        using S(1) by simp
    qed (use len in simp_all)
    ultimately show ?thesis
      using False len addr A by (simp add: read_cluster_def cluster_bytes_def)
  qed
qed

lemma read_cluster_at_reads:
  assumes "fat_volume fs c" and "valid_cluster fs k" and "off + cluster_size fs \<le> length buf"
  shows "read_cluster_at fs k off buf =
    Some (Inr (take off buf @ cluster_bytes fs c k @ drop (off + cluster_size fs) buf))"
  using read_cluster_reads [OF assms(1,2), of "slice off (cluster_size fs) buf"] assms(3)
  by (simp add: read_cluster_at_def length_slice)

section \<open>Chained data\<close>

text \<open>A chain of pieces: every piece names the next one, the last one names none.\<close>

fun chain :: "('c \<Rightarrow> 'e + 'c option) \<Rightarrow> 'c list \<Rightarrow> bool" where
  "chain succ [] \<longleftrightarrow> False"
| "chain succ [k] \<longleftrightarrow> succ k = Inr None"
| "chain succ (k # k' # ks) \<longleftrightarrow> succ k = Inr (Some k') \<and> chain succ (k' # ks)"

lemma chain_nth:
  "chain succ ks \<Longrightarrow> i < length ks \<Longrightarrow>
   succ (ks ! i) = Inr (if i + 1 < length ks then Some (ks ! (i + 1)) else None)"
proof (induction succ ks arbitrary: i rule: chain.induct)
  case (3 succ k k' ks)
  then show ?case
    by (cases i) auto
qed auto

lemma chain_not_Nil: "chain succ ks \<Longrightarrow> ks \<noteq> []"
  by (cases ks) auto

locale chained_data =
  fixes succ :: "'c \<Rightarrow> 'e + 'c option"
    and data :: "'c \<Rightarrow> 'a list"
    and size :: nat
  assumes data_length: "length (data k) = size"
begin

definition content :: "'c list \<Rightarrow> 'a list" where
  "content ks = concat (map data ks)"

lemma content_Cons: "content (k # ks) = data k @ content ks"
  by (simp add: content_def)

lemma length_content: "length (content ks) = length ks * size"
  by (induction ks) (simp_all add: content_def data_length)

lemma drop_content: "i \<le> length ks \<Longrightarrow> drop (i * size) (content ks) = content (drop i ks)"
proof (induction ks arbitrary: i)
  case Nil
  then show ?case by (simp add: content_def)
next
  case (Cons k ks)
  then show ?case
    by (cases i) (simp_all add: content_Cons data_length)
qed

text \<open>A range inside one piece, and a range that ends at the start of a piece.\<close>

lemma slice_in_piece:
  assumes "i < length ks" and "r + n \<le> size"
  shows "slice (i * size + r) n (content ks) = slice r n (data (ks ! i))"
proof -
  have "drop (i * size) (content ks) = data (ks ! i) @ content (drop (Suc i) ks)"
    using assms(1) by (simp add: drop_content Cons_nth_drop_Suc [symmetric] content_Cons)
  then have "drop (i * size + r) (content ks) = drop r (data (ks ! i)) @ content (drop (Suc i) ks)"
    using assms(2) drop_drop [of r "i * size" "content ks"] data_length [of "ks ! i"]
    by (simp add: add.commute)
  then show ?thesis
    using assms(2) data_length [of "ks ! i"] by (simp add: slice_def)
qed

lemma slice_extend:
  assumes "i < length ks" and "off + b = i * size" and "n \<le> size"
  shows "slice off (b + n) (content ks) = slice off b (content ks) @ take n (data (ks ! i))"
proof -
  have "slice off (b + n) (content ks) = slice off b (content ks) @ slice (off + b) n (content ks)"
    by (simp add: slice_def take_add add.commute)
  then show ?thesis
    using slice_in_piece [OF assms(1), of 0 n] assms(2,3) by (simp add: slice_def)
qed

lemma chain_position: "chain succ ks \<Longrightarrow> i < length ks \<Longrightarrow> succ (ks ! i) = Inr None \<longleftrightarrow> Suc i = length ks"
  using chain_nth [of succ ks i] by (cases "i + 1 < length ks") auto

end

interpretation fat: chained_data "successor fs c" "cluster_bytes fs c" "cluster_size fs" for fs c
  by unfold_locales (simp add: cluster_bytes_def)

section \<open>Files\<close>

definition fat_chain :: "fat_filesystem \<Rightarrow> medium \<Rightarrow> u32 list \<Rightarrow> bool" where
  "fat_chain fs c ks \<longleftrightarrow> list_all (valid_cluster fs) ks \<and> chain (successor fs c) ks"

text \<open>The bytes of the clusters of a chain.\<close>

definition chain_bytes :: "fat_filesystem \<Rightarrow> medium \<Rightarrow> u32 list \<Rightarrow> u8 list" where
  "chain_bytes fs c ks = concat (map (cluster_bytes fs c) ks)"

lemma chain_bytes_content: "chain_bytes fs c ks = fat.content fs c ks"
  by (simp add: chain_bytes_def fat.content_def)

lemma next_in_chain:
  assumes "fat_volume fs c" and "fat_chain fs c ks" and "i < length ks"
  shows "next_cluster fs (ks ! i) =
    Some (Inr (if i + 1 < length ks then Some (ks ! (i + 1)) else None))"
proof -
  have "valid_cluster fs (ks ! i)"
    using assms(2,3) by (simp add: fat_chain_def list_all_length)
  then show ?thesis
    using next_cluster_successor [OF assms(1)] chain_nth [of "successor fs c" ks i] assms(2,3)
    by (simp add: fat_chain_def)
qed

lemma chain_valid: "fat_chain fs c ks \<Longrightarrow> i < length ks \<Longrightarrow> valid_cluster fs (ks ! i)"
  by (simp add: fat_chain_def list_all_length)

lemma skip_clusters_chain:
  assumes "fat_volume fs c" and "fat_chain fs c ks" and "i + n < length ks"
  shows "skip_clusters fs n (ks ! i) = Some (Inr (Some (ks ! (i + n))))"
  using assms(3)
proof (induction n arbitrary: i)
  case (Suc n)
  then show ?case
    using next_in_chain [OF assms(1,2), of i] Suc.IH [of "Suc i"] by simp
qed simp

lemma read_step_chain:
  assumes "fat_volume fs c" and "fat_chain fs c ks" and "i < length ks"
  shows "read_step fs (ks ! i) b buf =
    Some (Inr (if i + 1 < length ks then Inr (ks ! (i + 1), b, buf) else Inl (b, buf)))"
  using next_in_chain [OF assms] by (simp add: read_step_def)

text \<open>
  \<open>progress ks off T buf0 st\<close>: the first \<open>b\<close> bytes from \<open>off\<close> on are in the buffer, and the next cluster
  is the one where the read goes on; at the end of the chain everything has been read.
\<close>

definition progress ::
    "fat_filesystem \<Rightarrow> medium \<Rightarrow> u32 list \<Rightarrow> nat \<Rightarrow> nat \<Rightarrow> u8 list \<Rightarrow> read_state \<Rightarrow> bool" where
  "progress fs c ks off T buf0 st \<longleftrightarrow>
     (case st of
        Inl (b, buf) \<Rightarrow> b = T \<and> buf = slice off b (chain_bytes fs c ks) @ drop b buf0
      | Inr (k, b, buf) \<Rightarrow>
          b \<le> T \<and> buf = slice off b (chain_bytes fs c ks) @ drop b buf0 \<and>
          (b < T \<longrightarrow> (\<exists>i < length ks. k = ks ! i \<and> off + b = i * cluster_size fs)))"

lemma length_chain_bytes: "length (chain_bytes fs c ks) = length ks * cluster_size fs"
  by (simp add: chain_bytes_content fat.length_content)

text \<open>The next three lemmas share the situation of a read of \<open>T\<close> bytes at \<open>off\<close> that the chain covers.\<close>

definition read_covered :: "fat_filesystem \<Rightarrow> medium \<Rightarrow> u32 list \<Rightarrow> nat \<Rightarrow> nat \<Rightarrow> u8 list \<Rightarrow> bool" where
  "read_covered fs c ks off T buf0 \<longleftrightarrow>
     fat_volume fs c \<and> fat_chain fs c ks \<and> T \<le> length buf0 \<and> off + T \<le> length ks * cluster_size fs"

lemma read_buffer:
  assumes "read_covered fs c ks off T buf0" and "b \<le> T"
  shows "length (slice off b (chain_bytes fs c ks)) = b"
    and "length (slice off b (chain_bytes fs c ks) @ drop b buf0) = length buf0"
proof -
  have "b \<le> length (chain_bytes fs c ks) - off" and "b \<le> length buf0"
    using assms by (auto simp: read_covered_def length_chain_bytes)
  then show "length (slice off b (chain_bytes fs c ks)) = b"
    "length (slice off b (chain_bytes fs c ks) @ drop b buf0) = length buf0"
    by (simp_all add: slice_def)
qed

lemma progress_step:
  assumes cov: "read_covered fs c ks off T buf0" and i: "i < length ks" and "b \<le> T"
    and "buf = slice off b (chain_bytes fs c ks) @ drop b buf0"
    and "b < T \<Longrightarrow> off + b = (i + 1) * cluster_size fs"
  shows "\<exists>st. read_step fs (ks ! i) b buf = Some (Inr st) \<and> progress fs c ks off T buf0 st"
proof -
  have "b = T" if "\<not> i + 1 < length ks"
  proof -
    have "length ks = i + 1"
      using that i by simp
    then have "off + T \<le> (i + 1) * cluster_size fs"
      using cov by (simp add: read_covered_def)
    then show ?thesis
      using assms(3,5) by linarith
  qed
  then show ?thesis
    using read_step_chain [of fs c ks i b buf] cov i assms(3-5)
    by (auto simp: read_covered_def progress_def)
qed

lemma read_full_progress:
  assumes cov: "read_covered fs c ks off T buf0" and "progress fs c ks off T buf0 (Inr (k, b, buf))"
  shows "\<exists>st. read_full fs T k b buf = Some (Inr st) \<and> progress fs c ks off T buf0 st \<and>
    (case st of Inl _ \<Rightarrow> True | Inr (k, b, buf) \<Rightarrow> T < b + cluster_size fs)"
  using assms(2)
proof (induction "T - b" arbitrary: k b buf rule: less_induct)
  case less
  have vol: "fat_volume fs c" and chn: "fat_chain fs c ks"
    using cov by (simp_all add: read_covered_def)
  note cs = volume_sizes(4) [OF vol]
  show ?case
  proof (cases "b + cluster_size fs \<le> T")
    case False
    then show ?thesis
      using less.prems by (simp add: read_full.simps [of fs])
  next
    case True
    let ?b = "b + cluster_size fs"
    have bT: "b < T" "b \<le> T"
      using True cs by simp_all
    have buf: "buf = slice off b (chain_bytes fs c ks) @ drop b buf0"
      using less.prems by (simp add: progress_def)
    obtain i where i: "i < length ks" "k = ks ! i" "off + b = i * cluster_size fs"
      using less.prems bT by (auto simp: progress_def)
    have len: "length buf = length buf0" "length (slice off b (chain_bytes fs c ks)) = b"
      unfolding buf using read_buffer [OF cov bT(2)] by simp_all
    let ?buf = "take b buf @ cluster_bytes fs c k @ drop ?b buf"
    have "take b buf = slice off b (chain_bytes fs c ks)" "drop ?b buf = drop ?b buf0"
      unfolding buf using len(2) by (simp_all add: add.commute)
    then have new: "?buf = slice off ?b (chain_bytes fs c ks) @ drop ?b buf0"
      using fat.slice_extend [OF i(1,3), of "cluster_size fs" c] fat.data_length [of fs c k] i(2)
      by (simp add: chain_bytes_content)
    have rd: "read_cluster_at fs k b buf = Some (Inr ?buf)"
      using True len(1) cov chain_valid [OF chn i(1)] i(2)
      by (intro read_cluster_at_reads [OF vol]) (simp_all add: read_covered_def)
    have "off + ?b = (i + 1) * cluster_size fs"
      using i(3) by simp
    then obtain st where st: "read_step fs k ?b ?buf = Some (Inr st)" "progress fs c ks off T buf0 st"
      using progress_step [OF cov i(1) True new] i(2) by auto
    show ?thesis
    proof (cases st)
      case (Inl r)
      then show ?thesis
        using True rd st by (simp add: read_full.simps [of fs T k b])
    next
      case (Inr p)
      obtain k' b' buf' where p: "p = (k', b', buf')"
        by (rule prod_cases3)
      have "b' = ?b"
        using st(1) Inr p
        by (auto simp: read_step_def and_then_Ok_iff split: option.splits)
      then have "T - b' < T - b"
        using True cs by simp
      then show ?thesis
        using less.hyps [of b' k' buf'] st Inr p True rd
        by (simp add: read_full.simps [of fs T k b])
    qed
  qed
qed

lemma read_last_progress:
  assumes cov: "read_covered fs c ks off T buf0" and "progress fs c ks off T buf0 (Inr (k, b, buf))"
    and "T < b + cluster_size fs"
  shows "read_last fs T k b buf = Some (Inr (T, slice off T (chain_bytes fs c ks) @ drop T buf0))"
proof -
  have vol: "fat_volume fs c" and chn: "fat_chain fs c ks"
    using cov by (simp_all add: read_covered_def)
  have buf: "buf = slice off b (chain_bytes fs c ks) @ drop b buf0" and bT: "b \<le> T"
    using assms(2) by (simp_all add: progress_def)
  show ?thesis
  proof (cases "b < T")
    case False
    with bT have "b = T" by simp
    with buf show ?thesis
      by (simp add: read_last_def)
  next
    case True
    obtain i where i: "i < length ks" "k = ks ! i" "off + b = i * cluster_size fs"
      using assms(2) True by (auto simp: progress_def)
    have "cluster_size fs \<le> DIR_BUFFER_SIZE"
      using vol by (simp add: fat_volume_def)
    then have rd: "read_cluster_at fs k 0 (replicate DIR_BUFFER_SIZE 0) =
      Some (Inr (cluster_bytes fs c k @ drop (cluster_size fs) (replicate DIR_BUFFER_SIZE 0)))"
      using read_cluster_at_reads [OF vol, of k 0 "replicate DIR_BUFFER_SIZE 0"] chain_valid [OF chn i(1)] i(2)
      by simp
    have len: "length (slice off b (chain_bytes fs c ks)) = b"
      using read_buffer [OF cov bT] by simp
    have "take b buf = slice off b (chain_bytes fs c ks)" "drop T buf = drop T buf0"
      unfolding buf using len bT by simp_all
    moreover have "take (T - b) (cluster_bytes fs c k @ drop (cluster_size fs) (replicate DIR_BUFFER_SIZE 0)) =
      take (T - b) (cluster_bytes fs c k)"
      using fat.data_length [of fs c k] assms(3) by simp
    moreover have "slice off T (chain_bytes fs c ks) =
      slice off b (chain_bytes fs c ks) @ take (T - b) (cluster_bytes fs c k)"
      using fat.slice_extend [OF i(1,3), of "T - b" c] assms(3) bT i(2) by (simp add: chain_bytes_content)
    ultimately show ?thesis
      using True rd by (simp add: read_last_def Let_def)
  qed
qed

lemma read_first_progress:
  assumes cov: "read_covered fs c ks off T buf0" and "off < length ks * cluster_size fs"
  shows "\<exists>st. read_first fs (ks ! (off div cluster_size fs)) (off mod cluster_size fs) T buf0 = Some (Inr st) \<and>
    progress fs c ks off T buf0 st"
proof -
  let ?s = "cluster_size fs" and ?q = "off div cluster_size fs" and ?r = "off mod cluster_size fs"
  have vol: "fat_volume fs c" and chn: "fat_chain fs c ks"
    using cov by (simp_all add: read_covered_def)
  note cs = volume_sizes(4) [OF vol]
  have q: "?q < length ks" and off: "?q * ?s + ?r = off" and r: "?r < ?s"
    using assms(2) cs by (simp_all add: div_less_iff_less_mult)
  show ?thesis
  proof (cases "?r > 0 \<or> T < ?s")
    case False
    then have "off = ?q * ?s"
      using off by simp
    then show ?thesis
      using False q by (auto simp: read_first_def progress_def slice_def)
  next
    case True
    let ?n = "min T (?s - ?r)"
    have "?s \<le> DIR_BUFFER_SIZE"
      using vol by (simp add: fat_volume_def)
    then have rd: "read_cluster_at fs (ks ! ?q) 0 (replicate DIR_BUFFER_SIZE 0) =
      Some (Inr (cluster_bytes fs c (ks ! ?q) @ drop ?s (replicate DIR_BUFFER_SIZE 0)))"
      using read_cluster_at_reads [OF vol chain_valid [OF chn q], of 0 "replicate DIR_BUFFER_SIZE 0"]
      by simp
    have "slice ?r ?n (cluster_bytes fs c (ks ! ?q) @ drop ?s (replicate DIR_BUFFER_SIZE 0)) =
      slice ?r ?n (cluster_bytes fs c (ks ! ?q))"
      using fat.data_length [of fs c "ks ! ?q"] r by (simp add: slice_def)
    also have "\<dots> = slice off ?n (chain_bytes fs c ks)"
      using fat.slice_in_piece [OF q, of ?r ?n fs c] r off by (simp add: chain_bytes_content)
    finally have piece: "slice ?r ?n (cluster_bytes fs c (ks ! ?q) @ drop ?s (replicate DIR_BUFFER_SIZE 0)) =
      slice off ?n (chain_bytes fs c ks)" .
    have "off + ?n = (?q + 1) * ?s" if "?n < T"
    proof -
      have n: "?n = ?s - ?r"
        using that by simp
      show ?thesis
        unfolding n add_mult_distrib mult_1 using off r by linarith
    qed
    then have "\<exists>st. read_step fs (ks ! ?q) ?n (slice off ?n (chain_bytes fs c ks) @ drop ?n buf0) =
        Some (Inr st) \<and> progress fs c ks off T buf0 st"
      by (intro progress_step [OF cov q]) simp_all
    then show ?thesis
      using True rd piece by (simp add: read_first_def Let_def)
  qed
qed

lemma read_file_reads:
  assumes vol: "fat_volume fs c" and chn: "fat_chain fs c ks" and hd: "first_cluster e = hd ks"
    and "\<not> is_directory e" and size: "unat (file_size e) \<le> length ks * cluster_size fs"
    and "offset < file_size e" and len: "length buf < 2 ^ 32"
  shows "read_file fs e offset buf =
    (let n = min (length buf) (unat (file_size e) - unat offset)
     in Some (Inr (n, slice (unat offset) n (chain_bytes fs c ks) @ drop n buf)))"
proof -
  let ?off = "unat offset" and ?T = "min (length buf) (unat (file_size e) - unat offset)"
  have lt: "?off < unat (file_size e)"
    using assms(6) by (simp add: word_less_nat_alt)
  have T: "min (length buf mod 2 ^ 32) (unat (file_size e - offset)) = ?T"
    using len assms(6) by (simp add: unat_sub_le word_le_less_eq)
  have cov: "read_covered fs c ks ?off ?T buf"
    using vol chn size lt by (simp add: read_covered_def)
  have q: "?off div cluster_size fs < length ks"
    using lt size volume_sizes(4) [OF vol] by (simp add: div_less_iff_less_mult)
  have "ks \<noteq> []"
    using chn chain_not_Nil by (auto simp: fat_chain_def)
  then have skip: "skip_clusters fs (?off div cluster_size fs) (first_cluster e) =
    Some (Inr (Some (ks ! (?off div cluster_size fs))))"
    using skip_clusters_chain [OF vol chn, of 0] q by (simp add: hd hd_conv_nth)
  obtain st where st: "read_first fs (ks ! (?off div cluster_size fs)) (?off mod cluster_size fs) ?T buf =
      Some (Inr st)" and prog: "progress fs c ks ?off ?T buf st"
    using read_first_progress [OF cov] lt size by auto
  have fin: "(case st of Inl r \<Rightarrow> Some (Inr r) | Inr (cluster, bytes, buf') \<Rightarrow>
      and_then (read_full fs ?T cluster bytes buf') (\<lambda>st. case st of Inl r \<Rightarrow> Some (Inr r)
        | Inr (cluster, bytes, buf) \<Rightarrow> read_last fs ?T cluster bytes buf)) =
    (Some (Inr (?T, slice ?off ?T (chain_bytes fs c ks) @ drop ?T buf)) :: (fat_error, nat \<times> u8 list) outcome)"
  proof (cases st)
    case (Inl r)
    with prog show ?thesis
      by (auto simp: progress_def split: prod.splits)
  next
    case (Inr p)
    obtain k b buf1 where p: "p = (k, b, buf1)"
      by (rule prod_cases3)
    then obtain st2 where st2: "read_full fs ?T k b buf1 = Some (Inr st2)" "progress fs c ks ?off ?T buf st2"
      "case st2 of Inl _ \<Rightarrow> True | Inr (k, b, buf) \<Rightarrow> ?T < b + cluster_size fs"
      using read_full_progress [OF cov] prog Inr by blast
    show ?thesis
    proof (cases st2)
      case (Inl r)
      with st2 Inr p show ?thesis
        by (auto simp: progress_def split: prod.splits)
    next
      case (Inr p2)
      obtain k2 b2 buf2 where "p2 = (k2, b2, buf2)"
        by (rule prod_cases3)
      with st2 Inr \<open>st = Inr p\<close> p read_last_progress [OF cov, of k2 b2 buf2] show ?thesis
        by simp
    qed
  qed
  have "\<not> file_size e \<le> offset"
    using assms(6) by simp
  then show ?thesis
    unfolding read_file_def T Let_def using assms(4) skip st fin
    by (simp only: if_False and_then_simps option.case)
qed

end
