(* ===== verification/Fat_Dirs.thy ===== *)
theory Fat_Dirs
  imports Fat_Files
begin

text \<open>
  Directories and paths: walking a directory block by block or cluster by cluster visits the list of its
  entries, and looking up a path follows the tree of directories.
\<close>

section \<open>Entries\<close>

definition dir_entries :: "u8 list \<Rightarrow> directory_entry list" where
  "dir_entries bs = map (\<lambda>i. dirent_at bs (i * 32)) [0..<length bs div 32]"

definition used_entries :: "directory_entry list \<Rightarrow> directory_entry list" where
  "used_entries es =
     filter (\<lambda>e. \<not> is_free e \<and> \<not> is_lfn e \<and> \<not> is_volume_id e) (takeWhile (\<lambda>e. \<not> is_end e) es)"

lemma length_dir_entries [simp]: "length (dir_entries bs) = length bs div 32"
  by (simp add: dir_entries_def)

lemma dirent_at_window:
  "off + 32 \<le> length bs \<Longrightarrow> dirent_at bs off = dirent_at (slice off 32 bs) 0"
  by (simp add: dirent_at_def slice_slice field_def nth_slice)

lemma dir_entries_nth: "i < length bs div 32 \<Longrightarrow> dir_entries bs ! i = dirent_at bs (i * 32)"
  by (simp add: dir_entries_def)

lemma dirent_at_append:
  assumes "off + 32 \<le> length xs"
  shows "dirent_at (xs @ ys) off = dirent_at xs off"
proof -
  have "slice off 32 (xs @ ys) = slice off 32 xs"
    using assms by (simp add: slice_def)
  then show ?thesis
    using dirent_at_window [of off xs] dirent_at_window [of off "xs @ ys"] assms by simp
qed

lemma dirent_at_append2:
  assumes "off + 32 \<le> length ys"
  shows "dirent_at (xs @ ys) (length xs + off) = dirent_at ys off"
  using dirent_at_window [of "length xs + off" "xs @ ys"] dirent_at_window [of off ys] assms
  by (simp add: slice_def)

lemma dir_entries_append:
  assumes "32 dvd length xs"
  shows "dir_entries (xs @ ys) = dir_entries xs @ dir_entries ys"
proof (rule nth_equalityI)
  obtain n where n: "length xs = 32 * n"
    using assms by (blast elim: dvdE)
  show len: "length (dir_entries (xs @ ys)) = length (dir_entries xs @ dir_entries ys)"
    by (simp add: n)
  fix i
  assume i: "i < length (dir_entries (xs @ ys))"
  show "dir_entries (xs @ ys) ! i = (dir_entries xs @ dir_entries ys) ! i"
  proof (cases "i < n")
    case True
    then show ?thesis
      using i n dirent_at_append [of "i * 32" xs ys] by (simp add: dir_entries_nth nth_append)
  next
    case False
    define j where "j = i - n"
    have j: "i * 32 = length xs + j * 32" "j < length ys div 32"
      using False i n by (auto simp: j_def)
    then have "j * 32 + 32 \<le> length ys"
      by linarith
    then show ?thesis
      using False i n j dirent_at_append2 [of "j * 32" ys xs]
      by (simp add: dir_entries_nth nth_append flip: j_def)
  qed
qed

section \<open>Visiting a list of entries\<close>

definition finish :: "fat_error + 'r \<Rightarrow> 's + (fat_error + 'r) \<Rightarrow> fat_error + 'r" where
  "finish fin st = (case st of Inl _ \<Rightarrow> fin | Inr r \<Rightarrow> r)"

lemma visit_all_append:
  "visit_all visit fin (es @ es') s =
     (case visit_all visit fin es s of Inr r \<Rightarrow> Inr r | Inl s' \<Rightarrow> visit_all visit fin es' s')"
  by (induction es arbitrary: s) (auto split: sum.split)

lemma visit_all_find:
  "finish (Inl FatNotFound)
     (visit_all (\<lambda>_ e. if matches_name e name then Inr e else Inl ()) (Inl FatNotFound) es ()) =
   (case find (\<lambda>e. matches_name e name) (used_entries es) of None \<Rightarrow> Inl FatNotFound | Some e \<Rightarrow> Inr e)"
  by (induction es) (auto simp: finish_def visit_entry_def used_entries_def is_free_def is_end_def)

lemma visit_all_position:
  "k \<le> i \<Longrightarrow>
   finish (Inr None)
     (visit_all (\<lambda>current e. if current = i then Inr (Some e) else Inl (current + 1)) (Inr None) es k) =
   Inr (if i - k < length (used_entries es) then Some (used_entries es ! (i - k)) else None)"
proof (induction es arbitrary: k)
  case Nil
  then show ?case
    by (simp add: finish_def used_entries_def)
next
  case (Cons e es)
  have rec: "k \<noteq> i \<Longrightarrow> finish (Inr None)
     (visit_all (\<lambda>current e. if current = i then Inr (Some e) else Inl (current + 1)) (Inr None) es (k + 1)) =
   Inr (if i - (k + 1) < length (used_entries es) then Some (used_entries es ! (i - (k + 1))) else None)"
    using Cons.prems by (intro Cons.IH) simp
  show ?case
  proof (cases "is_end e \<or> is_free e \<or> is_lfn e \<or> is_volume_id e")
    case True
    then show ?thesis
      using Cons.IH [OF Cons.prems] by (auto simp: finish_def visit_entry_def used_entries_def)
  next
    case False
    then have "used_entries (e # es) = e # used_entries es"
      by (simp add: used_entries_def)
    then show ?thesis
      using False rec Cons.prems
      by (cases "k = i") (auto simp: finish_def visit_entry_def nth_Cons')
  qed
qed

section \<open>Directories that are chains of clusters\<close>

lemma cluster_entries:
  "map (\<lambda>i. dirent_at (cluster_bytes fs c k @ rest) (i * 32)) [0..<cluster_size fs div 32] =
   dir_entries (cluster_bytes fs c k)"
proof -
  have "i * 32 + 32 \<le> length (cluster_bytes fs c k)" if "i < cluster_size fs div 32" for i
    using that fat.data_length [of fs c k] by linarith
  then show ?thesis
    using fat.data_length [of fs c k] by (auto simp: dir_entries_def intro!: dirent_at_append)
qed

lemma walk_chain_step:
  assumes "read_cluster_at fs k 0 buf = Some (Inr (cluster_bytes fs c k @ rest))"
    and "next_cluster fs k = Some (Inr nxt)"
  shows "walk_chain fs visit fin buf k s =
    (case visit_all visit fin (dir_entries (cluster_bytes fs c k)) s of
       Inr r \<Rightarrow> Some r
     | Inl s' \<Rightarrow> (case nxt of Some k' \<Rightarrow> walk_chain fs visit fin (cluster_bytes fs c k @ rest) k' s'
                 | None \<Rightarrow> Some fin))"
  using assms by (subst walk_chain.simps) (simp add: cluster_entries split: sum.split)

lemma walk_chain_visits:
  assumes vol: "fat_volume fs c"
  shows "fat_chain fs c ks \<Longrightarrow> length buf = DIR_BUFFER_SIZE \<Longrightarrow>
    walk_chain fs visit fin buf (hd ks) s =
      Some (finish fin (visit_all visit fin (dir_entries (chain_bytes fs c ks)) s))"
proof (induction ks arbitrary: buf s)
  case Nil
  then show ?case
    by (simp add: fat_chain_def)
next
  case (Cons k ks)
  have cs: "cluster_size fs \<le> DIR_BUFFER_SIZE" and d32: "32 dvd cluster_size fs"
    using vol cluster_size_bounds(2) [of fs] by (simp_all add: fat_volume_def)
  let ?buf = "cluster_bytes fs c k @ drop (cluster_size fs) buf"
  have rd: "read_cluster_at fs k 0 buf = Some (Inr ?buf)"
    using read_cluster_at_reads [OF vol, of k 0 buf] Cons.prems cs by (simp add: fat_chain_def)
  have nxt: "next_cluster fs k = Some (Inr (if ks \<noteq> [] then Some (hd ks) else None))"
    using next_in_chain [OF vol Cons.prems(1), of 0] by (cases ks) simp_all
  have ents: "dir_entries (chain_bytes fs c (k # ks)) =
    dir_entries (cluster_bytes fs c k) @ dir_entries (chain_bytes fs c ks)"
    using d32 fat.data_length [of fs c k] by (simp add: chain_bytes_def dir_entries_append)
  have IH: "walk_chain fs visit fin ?buf (hd ks) s' =
    Some (finish fin (visit_all visit fin (dir_entries (chain_bytes fs c ks)) s'))" if "ks \<noteq> []" for s'
    using that Cons.prems fat.data_length [of fs c k] cs
    by (intro Cons.IH) (cases ks; simp add: fat_chain_def)+
  show ?case
    unfolding ents visit_all_append list.sel walk_chain_step [OF rd nxt]
    using IH by (auto simp: finish_def chain_bytes_def dir_entries_def split: sum.split)
qed

section \<open>The fixed root directory\<close>

lemma dirent_bytes_at:
  assumes "off + 32 \<le> n"
  shows "dirent_at (bytes_at c B n @ rest) off = dirent_at (bytes_at c (B + off) 32) 0"
  using assms dirent_at_window [of off "bytes_at c B n @ rest"]
  by (simp add: slice_def drop_bytes_at take_bytes_at)

lemma drop_root_entries:
  assumes "proc + 32 \<le> n" and "32 dvd proc"
  shows "drop (proc div 32) (dir_entries (bytes_at c R n)) =
    dirent_at (bytes_at c (R + proc) 32) 0 # drop ((proc + 32) div 32) (dir_entries (bytes_at c R n))"
proof -
  obtain j where j: "proc = 32 * j"
    using assms(2) by (blast elim: dvdE)
  have "j < length (dir_entries (bytes_at c R n))"
    using assms(1) j by simp
  moreover have "dir_entries (bytes_at c R n) ! j = dirent_at (bytes_at c (R + proc) 32) 0"
    using assms(1) dirent_bytes_at [of proc n c R "[]"] j by (simp add: dir_entries_nth mult.commute)
  ultimately show ?thesis
    using j by (simp add: Cons_nth_drop_Suc [symmetric])
qed

lemma root_block_visits:
  assumes "32 dvd bsize" and "32 dvd n" and "32 dvd pos" and "32 dvd proc" and "pos \<le> bsize"
    and "proc \<le> n" and "R + proc = B + pos"
  shows "case root_block visit fin bsize n (bytes_at c B bsize @ rest) pos proc s of
      Inr r \<Rightarrow> visit_all visit fin (drop (proc div 32) (dir_entries (bytes_at c R n))) s = Inr r
    | Inl (s', pos', proc') \<Rightarrow>
        visit_all visit fin (drop (proc div 32) (dir_entries (bytes_at c R n))) s =
          visit_all visit fin (drop (proc' div 32) (dir_entries (bytes_at c R n))) s' \<and>
        32 dvd proc' \<and> proc' \<le> n \<and> (pos' = bsize \<or> proc' = n) \<and> pos \<le> pos' \<and> proc' = proc + (pos' - pos)"
  using assms
proof (induction visit fin bsize n "bytes_at c B bsize @ rest" pos proc s rule: root_block.induct)
  case (1 visit fin bsize n pos proc s)
  obtain i j where ij: "pos = 32 * i" "bsize = 32 * j"
    using "1.prems"(1,3) by (auto elim!: dvdE)
  obtain p q where pq: "proc = 32 * p" "n = 32 * q"
    using "1.prems"(2,4) by (auto elim!: dvdE)
  show ?case
  proof (cases "pos + 32 \<le> bsize \<and> proc < n")
    case False
    then have "pos = bsize \<or> proc = n"
      using "1.prems"(5,6) ij by auto
    then show ?thesis
      using False "1.prems" by (subst root_block.simps) auto
  next
    case True
    have room: "proc + 32 \<le> n"
      using True pq by auto
    let ?e = "dirent_at (bytes_at c (R + proc) 32) 0"
    have e: "dirent_at (bytes_at c B bsize @ rest) pos = ?e"
      using dirent_bytes_at [of pos bsize c B rest] True "1.prems"(7) by simp
    note list = drop_root_entries [OF room "1.prems"(4), of c R]
    show ?thesis
    proof (cases "visit_entry visit fin ?e s")
      case (Inr r)
      then show ?thesis
        using True e list by (subst root_block.simps) simp
    next
      case (Inl s1)
      have IH: "case root_block visit fin bsize n (bytes_at c B bsize @ rest) (pos + 32) (proc + 32) s1 of
          Inr r \<Rightarrow> visit_all visit fin (drop ((proc + 32) div 32) (dir_entries (bytes_at c R n))) s1 = Inr r
        | Inl (s', pos', proc') \<Rightarrow>
            visit_all visit fin (drop ((proc + 32) div 32) (dir_entries (bytes_at c R n))) s1 =
              visit_all visit fin (drop (proc' div 32) (dir_entries (bytes_at c R n))) s' \<and>
            32 dvd proc' \<and> proc' \<le> n \<and> (pos' = bsize \<or> proc' = n) \<and> pos + 32 \<le> pos' \<and>
            proc' = proc + 32 + (pos' - (pos + 32))"
        using True room "1.prems" Inl e by (intro "1.hyps") simp_all
      have run: "root_block visit fin bsize n (bytes_at c B bsize @ rest) pos proc s =
        root_block visit fin bsize n (bytes_at c B bsize @ rest) (pos + 32) (proc + 32) s1"
        using True e Inl by (subst root_block.simps) simp
      have first: "visit_all visit fin (drop (proc div 32) (dir_entries (bytes_at c R n))) s =
        visit_all visit fin (drop ((proc + 32) div 32) (dir_entries (bytes_at c R n))) s1"
        unfolding list using Inl by simp
      show ?thesis
        unfolding run first using IH by (auto split: sum.splits)
    qed
  qed
qed

definition root_bytes :: "fat_filesystem \<Rightarrow> medium \<Rightarrow> u8 list" where
  "root_bytes fs c = bytes_at c (base fs + unat (root_dir_start fs) * bps fs)
     (unat (root_dir_sectors fs) * bps fs)"

lemma walk_root_visits:
  assumes vol: "fat_volume fs c" and "32 dvd proc" and "proc \<le> unat (root_dir_sectors fs) * bps fs"
    and "dbs fs \<le> length buf"
  shows "walk_root fs visit fin buf proc s =
    Some (finish fin (visit_all visit fin (drop (proc div 32) (dir_entries (root_bytes fs c))) s))"
  using assms(2-4)
proof (induction "unat (root_dir_sectors fs) * bps fs - proc" arbitrary: proc buf s rule: less_induct)
  case less
  let ?n = "unat (root_dir_sectors fs) * bps fs" and ?r = "unat (root_dir_start fs) * bps fs"
  let ?cur = "?r + proc"
  let ?K = "?cur div dbs fs" and ?off = "?cur mod dbs fs"
  note S = volume_sizes [OF vol]
  have g: "fat_geometry fs"
    using vol by (simp only: fat_volume_def)
  have d: "32 dvd dbs fs" "32 dvd ?n" "32 dvd ?r"
    using vol geometry_sizes(3) [OF g] dvd_trans [of 32 512 "dbs fs"] by (auto simp: fat_volume_def)
  show ?case
  proof (cases "proc < ?n")
    case False
    with less.prems(2) have "proc = ?n" by simp
    then show ?thesis
      by (simp add: walk_root.simps [of fs] Let_def finish_def root_bytes_def)
  next
    case True
    have "base fs + (?r + ?n) \<le> unat (num_blocks (info (device fs))) * dbs fs"
    proof -
      have "?r + ?n = unat (data_start fs) * bps fs"
        using vol by (simp add: fat_volume_def flip: add_mult_distrib)
      also have "\<dots> \<le> (unat (data_start fs) + unat (data_clusters fs) * unat (sectors_per_cluster fs)) * bps fs"
        by (rule mult_le_mono1) simp
      finally show ?thesis
        using vol by (simp add: fat_volume_def)
    qed
    then have "unat (partition_start fs) + ?K < unat (num_blocks (info (device fs)))"
      using True by (intro block_of_byte [OF vol]) linarith
    then have rd: "read_fs_block fs (partition_start fs + of_nat ?K) buf =
      Some (Inr (bytes_at c (base fs + ?K * dbs fs) (dbs fs) @ drop (dbs fs) buf))"
      using less.prems(3) by (intro read_fs_block_reads [OF vol])
    let ?buf = "bytes_at c (base fs + ?K * dbs fs) (dbs fs) @ drop (dbs fs) buf"
    have "32 dvd ?off"
      using d less.prems(1) by (simp add: dvd_mod)
    moreover have "base fs + ?r + proc = base fs + ?K * dbs fs + ?off"
      by simp
    moreover have off: "?off < dbs fs"
      using S(1) by simp
    ultimately have B: "case root_block visit fin (dbs fs) ?n ?buf ?off proc s of
        Inr r \<Rightarrow> visit_all visit fin (drop (proc div 32) (dir_entries (root_bytes fs c))) s = Inr r
      | Inl (s', pos', proc') \<Rightarrow>
          visit_all visit fin (drop (proc div 32) (dir_entries (root_bytes fs c))) s =
            visit_all visit fin (drop (proc' div 32) (dir_entries (root_bytes fs c))) s' \<and>
          32 dvd proc' \<and> proc' \<le> ?n \<and> (pos' = dbs fs \<or> proc' = ?n) \<and> ?off \<le> pos' \<and>
          proc' = proc + (pos' - ?off)"
      unfolding root_bytes_def using d less.prems(1,2) by (intro root_block_visits) simp_all
    show ?thesis
    proof (cases "root_block visit fin (dbs fs) ?n ?buf ?off proc s")
      case (Inr r)
      then have "walk_root fs visit fin buf proc s = Some r"
        using True rd by (subst walk_root.simps) (simp add: Let_def)
      then show ?thesis
        using B Inr by (simp add: finish_def)
    next
      case (Inl x)
      obtain s' pos' proc' where x: "x = (s', pos', proc')"
        by (rule prod_cases3)
      have P: "32 dvd proc'" "proc' \<le> ?n" "pos' = dbs fs \<or> proc' = ?n" "?off \<le> pos'"
        "proc' = proc + (pos' - ?off)"
        "visit_all visit fin (drop (proc div 32) (dir_entries (root_bytes fs c))) s =
          visit_all visit fin (drop (proc' div 32) (dir_entries (root_bytes fs c))) s'"
        using B unfolding Inl x sum.case prod.case by blast+
      have "pos' \<noteq> ?off"
        using P(3,5) off True by auto
      then have run: "walk_root fs visit fin buf proc s = walk_root fs visit fin ?buf proc' s'"
        using True rd Inl x by (subst walk_root.simps) (simp add: Let_def)
      have "?n - proc' < ?n - proc"
        using P(4,5) \<open>pos' \<noteq> ?off\<close> True by simp
      then have "walk_root fs visit fin ?buf proc' s' =
        Some (finish fin (visit_all visit fin (drop (proc' div 32) (dir_entries (root_bytes fs c))) s'))"
        by (rule less.hyps) (use P(1,2) less.prems(3) in simp_all)
      then show ?thesis
        unfolding run P(6) .
    qed
  qed
qed

section \<open>Looking up names\<close>

text \<open>
  \<open>directory fs c k es\<close>: the directory with first cluster \<open>k\<close> has the entries \<open>es\<close>; cluster 0 is the root
  directory of FAT12 and FAT16.
\<close>

definition directory :: "fat_filesystem \<Rightarrow> medium \<Rightarrow> u32 \<Rightarrow> directory_entry list \<Rightarrow> bool" where
  "directory fs c k es \<longleftrightarrow>
     (if k = 0 \<and> fs_type fs \<noteq> Fat32 then es = dir_entries (root_bytes fs c)
      else \<exists>ks. fat_chain fs c ks \<and> hd ks = k \<and> es = dir_entries (chain_bytes fs c ks))"

lemma walk_directory_visits:
  assumes vol: "fat_volume fs c" and "directory fs c k es"
  shows "walk_directory fs visit fin k s = Some (finish fin (visit_all visit fin es s))"
proof (cases "k = 0 \<and> fs_type fs \<noteq> Fat32")
  case True
  then show ?thesis
    using walk_root_visits [OF vol, of 0 "replicate DIR_BUFFER_SIZE 0" visit fin s] assms(2)
      volume_sizes(2) [OF vol]
    by (simp add: walk_directory_def directory_def DIR_BUFFER_SIZE_def)
next
  case False
  then obtain ks where "fat_chain fs c ks" and "hd ks = k" and "es = dir_entries (chain_bytes fs c ks)"
    using assms(2) by (auto simp: directory_def)
  then show ?thesis
    using walk_chain_visits [OF vol, of ks "replicate DIR_BUFFER_SIZE 0" visit fin s] False
    by (auto simp: walk_directory_def)
qed

definition lookup_name :: "directory_entry list \<Rightarrow> u8 list \<Rightarrow> fat_error + directory_entry" where
  "lookup_name es name =
     (case find (\<lambda>e. matches_name e name) (used_entries es) of None \<Rightarrow> Inl FatNotFound | Some e \<Rightarrow> Inr e)"

lemma find_in_directory_lookup:
  assumes "fat_volume fs c" and "directory fs c k es"
  shows "find_in_directory fs k name = Some (lookup_name es name)"
  by (simp only: find_in_directory_def walk_directory_visits [OF assms] visit_all_find lookup_name_def)

lemma get_directory_entry_nth:
  assumes "fat_volume fs c" and "directory fs c k es"
  shows "get_directory_entry_at_position fs k i =
    Some (Inr (if i < length (used_entries es) then Some (used_entries es ! i) else None))"
  using visit_all_position [of 0 i es]
  by (simp only: get_directory_entry_at_position_def walk_directory_visits [OF assms]) simp

text \<open>
  A tree of directories: \<open>dirs\<close> gives the entries of the directories in \<open>D\<close>, and the directories named by
  their entries are in \<open>D\<close> again.
\<close>

definition root_of :: "fat_filesystem \<Rightarrow> u32" where
  "root_of fs = (if fs_type fs = Fat32 then root_cluster fs else 0)"

definition directory_tree ::
    "fat_filesystem \<Rightarrow> medium \<Rightarrow> u32 set \<Rightarrow> (u32 \<Rightarrow> directory_entry list) \<Rightarrow> bool" where
  "directory_tree fs c D dirs \<longleftrightarrow>
     root_of fs \<in> D \<and>
     (\<forall>k \<in> D. directory fs c k (dirs k) \<and>
        (\<forall>e \<in> set (used_entries (dirs k)). is_directory e \<longrightarrow> first_cluster e \<in> D))"

fun resolve :: "(u32 \<Rightarrow> directory_entry list) \<Rightarrow> u8 list list \<Rightarrow> u32 \<Rightarrow> fat_error + directory_entry" where
  "resolve dirs [] k = Inl FatNotFound"
| "resolve dirs (n # ns) k =
     (case lookup_name (dirs k) n of
        Inl e \<Rightarrow> Inl e
      | Inr e \<Rightarrow>
          if ns = [] then Inr e
          else if is_directory e then resolve dirs ns (first_cluster e) else Inl FatNotADirectory)"

lemma find_names_resolve:
  assumes vol: "fat_volume fs c" and tree: "directory_tree fs c D dirs"
  shows "k \<in> D \<Longrightarrow> find_parts fs ns k = Some (resolve dirs ns k)"
proof (induction ns arbitrary: k)
  case Nil
  then show ?case by simp
next
  case (Cons n ns)
  have "directory fs c k (dirs k)"
    using tree Cons.prems by (simp add: directory_tree_def)
  note look = find_in_directory_lookup [OF vol this, of n]
  show ?case
  proof (cases "lookup_name (dirs k) n")
    case (Inl e)
    then show ?thesis
      by (simp add: look)
  next
    case (Inr e)
    then have "e \<in> set (used_entries (dirs k))"
      by (auto simp: lookup_name_def split: option.splits dest: find_SomeD)
    then have "is_directory e \<longrightarrow> first_cluster e \<in> D"
      using tree Cons.prems by (simp add: directory_tree_def)
    then show ?thesis
      using Inr Cons.IH [of "first_cluster e"] by (simp add: look)
  qed
qed

lemma find_file_resolve:
  assumes "fat_volume fs c" and "directory_tree fs c D dirs" and "path_parts path = Some ns"
  shows "find_file fs path = Some (resolve dirs ns (root_of fs))"
  using find_names_resolve [OF assms(1,2), of "root_of fs" ns] assms(2,3)
  by (simp add: find_file_def directory_tree_def root_of_def)

section \<open>Chains that do not end\<close>

text \<open>
  A directory cluster that is its own successor, without an end mark and without the name that is looked for,
  is read for ever.
\<close>

lemma cyclic_walk_has_no_result:
  assumes vol: "fat_volume fs c" and k: "valid_cluster fs k" and succ: "successor fs c k = Inr (Some k)"
    and stay: "\<And>s. \<exists>s'. visit_all visit fin (dir_entries (cluster_bytes fs c k)) s = Inl s'"
    and run: "walk_chain fs visit fin buf k s = Some y" and len: "length buf = DIR_BUFFER_SIZE"
  shows False
proof -
  have "\<not> (fs = fs \<and> visit = visit \<and> fin = fin \<and> k = k \<and> length buf = DIR_BUFFER_SIZE)"
  proof (rule walk_chain.raw_induct [OF _ run, of
        "\<lambda>fs' visit' fin' buf' k' s' y'. \<not> (fs' = fs \<and> visit' = visit \<and> fin' = fin \<and> k' = k \<and>
           length buf' = DIR_BUFFER_SIZE)"], rule notI)
    fix wc fs' visit' fin' buf' k' s' y'
    assume rec: "\<And>fs' visit' fin' buf' k' s' y'. wc fs' visit' fin' buf' k' s' = Some y' \<Longrightarrow>
        \<not> (fs' = fs \<and> visit' = visit \<and> fin' = fin \<and> k' = k \<and> length buf' = DIR_BUFFER_SIZE)"
      and body: "and_then (read_cluster_at fs' k' 0 buf') (\<lambda>buf.
        case visit_all visit' fin' (map (\<lambda>i. dirent_at buf (i * 32)) [0..<cluster_size fs' div 32]) s' of
          Inl s' \<Rightarrow> and_then (next_cluster fs' k') (\<lambda>next. case next of
              None \<Rightarrow> Some fin' | Some k'' \<Rightarrow> wc fs' visit' fin' buf k'' s')
        | Inr r \<Rightarrow> Some r) = Some y'"
      and eq: "fs' = fs \<and> visit' = visit \<and> fin' = fin \<and> k' = k \<and> length buf' = DIR_BUFFER_SIZE"
    let ?buf = "cluster_bytes fs c k @ drop (cluster_size fs) buf'"
    have cs: "cluster_size fs \<le> DIR_BUFFER_SIZE"
      using vol by (simp add: fat_volume_def)
    have "read_cluster_at fs k 0 buf' = Some (Inr ?buf)"
      using read_cluster_at_reads [OF vol k, of 0 buf'] eq cs by simp
    moreover obtain s1 where "visit_all visit fin (dir_entries (cluster_bytes fs c k)) s' = Inl s1"
      using stay by blast
    moreover have "next_cluster fs k = Some (Inr (Some k))"
      using next_cluster_successor [OF vol k] succ by simp
    ultimately have "wc fs visit fin ?buf k s1 = Some y'"
      using body eq by (simp add: cluster_entries)
    then show False
      using rec [of fs visit fin ?buf k s1 y'] eq cs fat.data_length [of fs c k] by simp
  qed
  then show False
    using len by simp
qed

lemma visit_all_stays:
  "\<forall>e \<in> set es. \<not> is_end e \<and> \<not> matches_name e name \<Longrightarrow>
   visit_all (\<lambda>_ e. if matches_name e name then Inr e else Inl ()) fin es () = Inl ()"
  by (induction es) (auto simp: visit_entry_def)

theorem cyclic_directory_never_ends:
  assumes "fat_volume fs c" and "valid_cluster fs k" and "successor fs c k = Inr (Some k)"
    and "\<forall>e \<in> set (dir_entries (cluster_bytes fs c k)). \<not> is_end e \<and> \<not> matches_name e name"
  shows "find_in_directory fs k name = None"
proof (rule ccontr)
  assume "find_in_directory fs k name \<noteq> None"
  moreover have "k \<noteq> 0"
    using assms(2) by (auto simp: valid_cluster_def)
  ultimately obtain y where y: "walk_chain fs (\<lambda>_ e. if matches_name e name then Inr e else Inl ())
      (Inl FatNotFound) (replicate DIR_BUFFER_SIZE 0) k () = Some y"
    by (auto simp: find_in_directory_def walk_directory_def)
  have "\<exists>s'. visit_all (\<lambda>_ e. if matches_name e name then Inr e else Inl ()) (Inl FatNotFound)
      (dir_entries (cluster_bytes fs c k)) s = Inl s'" for s
    using visit_all_stays [OF assms(4)] by simp
  then show False
    by (rule cyclic_walk_has_no_result [OF assms(1-3) _ y]) simp
qed

end
