(* ===== verification/Fat_Props.thy ===== *)
theory Fat_Props
  imports Fat_Dirs
begin

text \<open>
  The properties of the FAT driver, with a small FAT12 volume on which they are instantiated, and the cases
  in which the driver fails.
\<close>

section \<open>A small volume\<close>

text \<open>
  Sixteen sectors of 512 bytes: boot sector, one table, one sector of root directory with the file
  \<open>HELLO.TXT\<close> of 600 bytes in clusters 2 and 3, and the data sectors.
\<close>

definition sample_boot :: "(nat \<times> u8) list" where
  "sample_boot = [(12, 2), (13, 1), (14, 1), (16, 1), (17, 16), (19, 16), (22, 1)]"

definition sample_dirent :: "u8 list" where
  "sample_dirent = [0x48, 0x45, 0x4C, 0x4C, 0x4F, 0x20, 0x20, 0x20, 0x54, 0x58, 0x54, 0x20,
     0, 0, 0, 0, 0, 0, 0, 0, 0, 0, 0, 0, 0, 0, 2, 0, 0x58, 2, 0, 0]"

definition sample_fat :: medium where
  "sample_fat i =
     (if i < 512 then (case map_of sample_boot i of Some b \<Rightarrow> b | None \<Rightarrow> 0)
      else if i = 515 then 3 else if i = 516 then 0xF0 else if i = 517 then 0xFF
      else if 1024 \<le> i \<and> i < 1056 then sample_dirent ! (i - 1024)
      else if 1536 \<le> i then of_nat i else 0)"

definition sample_stick :: block_device where
  "sample_stick = image_device 512 16 sample_fat"

definition sample_fs :: fat_filesystem where
  "sample_fs =
     \<lparr>device = sample_stick, partition_start = 0, fs_type = Fat12, bytes_per_sector = 512,
      device_block_size = 512, sectors_per_cluster = 1, fat_start = 1, sectors_per_fat = 1,
      data_start = 3, root_cluster = 0, root_dir_start = 2, root_dir_sectors = 1, data_clusters = 13\<rparr>"

lemma sample_stick_info:
  "block_size (info sample_stick) = 512" "num_blocks (info sample_stick) = 16"
  "device_holds sample_stick sample_fat" "fills_slices sample_stick"
  by (simp_all add: sample_stick_def image_device_holds)
     (auto simp: image_device_def fills_slices_def split: if_splits)

lemma sample_boot_fields:
  "bpb_bytes_per_sector (bpb_of (bytes_at sample_fat 0 512 @ rest)) = 512"
  "bpb_sectors_per_cluster (bpb_of (bytes_at sample_fat 0 512 @ rest)) = 1"
  "bpb_reserved_sectors (bpb_of (bytes_at sample_fat 0 512 @ rest)) = 1"
  "bpb_num_fats (bpb_of (bytes_at sample_fat 0 512 @ rest)) = 1"
  "bpb_root_entry_count (bpb_of (bytes_at sample_fat 0 512 @ rest)) = 16"
  "bpb_total_sectors_16 (bpb_of (bytes_at sample_fat 0 512 @ rest)) = 16"
  "bpb_sectors_per_fat_16 (bpb_of (bytes_at sample_fat 0 512 @ rest)) = 1"
proof -
  have field: "field (bytes_at sample_fat 0 512 @ rest) off 2 =
    le_nat [sample_fat off, sample_fat (off + 1)]" if "off + 2 \<le> 512" for off
  proof -
    have "bytes_at sample_fat off 2 = [sample_fat off, sample_fat (off + 1)]"
      by (simp add: bytes_at_def upt_rec)
    then show ?thesis
      using take_drop_block [OF that, of sample_fat 0 rest] by (simp only: field_def slice_def add_0)
  qed
  show "bpb_bytes_per_sector (bpb_of (bytes_at sample_fat 0 512 @ rest)) = 512"
    "bpb_sectors_per_cluster (bpb_of (bytes_at sample_fat 0 512 @ rest)) = 1"
    "bpb_reserved_sectors (bpb_of (bytes_at sample_fat 0 512 @ rest)) = 1"
    "bpb_num_fats (bpb_of (bytes_at sample_fat 0 512 @ rest)) = 1"
    "bpb_root_entry_count (bpb_of (bytes_at sample_fat 0 512 @ rest)) = 16"
    "bpb_total_sectors_16 (bpb_of (bytes_at sample_fat 0 512 @ rest)) = 16"
    "bpb_sectors_per_fat_16 (bpb_of (bytes_at sample_fat 0 512 @ rest)) = 1"
    by (simp_all add: bpb_of_def field nth_append) (simp_all add: sample_fat_def sample_boot_def)
qed

lemma sample_mount: "fat_new sample_stick 0 = Some (Inr sample_fs)"
proof -
  let ?buf = "bytes_at sample_fat 0 512 @ drop 512 (replicate MAX_BLOCK_SIZE 0)"
  have rd: "read_block_at sample_stick 0 0 512 (replicate MAX_BLOCK_SIZE 0) = Some (Inr ?buf)"
    using read_block_at_middle [OF sample_stick_info(3), of 0 512 0 "replicate MAX_BLOCK_SIZE 0"]
    by (simp add: sample_stick_info MAX_BLOCK_SIZE_def)
  have "bpb_ok (bpb_of ?buf)"
    unfolding bpb_ok_def sample_boot_fields by (simp add: is_power_of_two_def)
  moreover have "mount sample_stick 0 512 ?buf = sample_fs"
    unfolding mount_def Let_def sample_boot_fields
    by (simp add: sample_fs_def fat_type_of_def div_ceil_def)
  ultimately show ?thesis
    using rd by (simp add: fat_new_def sample_stick_info MAX_BLOCK_SIZE_def)
qed

lemma sample_sizes:
  "bps sample_fs = 512" "dbs sample_fs = 512" "cluster_size sample_fs = 512" "base sample_fs = 0"
  by (simp_all add: bps_def dbs_def cluster_size_def base_def sample_fs_def)

lemma sample_volume: "fat_volume sample_fs sample_fat"
proof -
  have "fat_geometry sample_fs"
    using fat_new_geometry [OF sample_stick_info(4) sample_mount] by simp
  then show ?thesis
    by (simp add: fat_volume_def sample_sizes DIR_BUFFER_SIZE_def)
       (simp add: sample_fs_def sample_stick_info)
qed

lemma sample_volume_layout:
  "fat_start sample_fs = 1" "data_clusters sample_fs = 13" "fs_type sample_fs = Fat12"
  "root_dir_start sample_fs = 2" "root_dir_sectors sample_fs = 1" "data_start sample_fs = 3"
  "sectors_per_cluster sample_fs = 1"
  by (simp_all add: sample_fs_def)

lemma le_nat_zeros [simp]: "le_nat (replicate n 0) = 0"
  by (induction n) simp_all

lemma sample_fat_table: "table_number sample_fs sample_fat = 0xFFF003000000"
proof -
  have "bytes_at sample_fat 512 60 = [0, 0, 0, 3, 0xF0, 0xFF] @ replicate 54 0"
    by (rule nth_equalityI) (auto simp: nth_append sample_fat_def nth_Cons')
  then show ?thesis
    by (simp add: table_number_def sample_sizes sample_volume_layout)
qed

lemma sample_chain: "fat_chain sample_fs sample_fat [2, 3]" "valid_cluster sample_fs 2"
  by (simp_all add: fat_chain_def valid_cluster_def sample_volume_layout successor_def table_entry_def sample_fat_table
      stride_def entry_bits_def)

definition sample_file :: directory_entry where
  "sample_file = dirent_at sample_dirent 0"

lemma sample_file_fields:
  "first_cluster sample_file = 2" "file_size sample_file = 600" "\<not> is_directory sample_file"
  "\<not> is_end sample_file" "\<not> is_free sample_file" "\<not> is_lfn sample_file" "\<not> is_volume_id sample_file"
  by (simp_all add: sample_file_def dirent_at_def sample_dirent_def field_def slice_def
      first_cluster_def is_directory_def is_end_def is_free_def is_lfn_def is_volume_id_def
      ATTR_DIRECTORY_def ATTR_LFN_def ATTR_VOLUME_ID_def ATTR_READ_ONLY_def ATTR_HIDDEN_def ATTR_SYSTEM_def)

lemma sample_root: "used_entries (dir_entries (root_bytes sample_fs sample_fat)) = [sample_file]"
proof -
  let ?r = "bytes_at sample_fat 1024 512"
  have len: "[0..<16] = 0 # 1 # [2..<16]"
    by (simp add: upt_rec)
  have "bytes_at sample_fat 1024 32 = sample_dirent"
    by (rule nth_equalityI) (simp_all add: sample_fat_def sample_dirent_def)
  then have first: "dirent_at ?r 0 = sample_file"
    using dirent_bytes_at [of 0 512 sample_fat 1024 "[]"] by (simp add: sample_file_def)
  have second: "is_end (dirent_at ?r 32)"
    by (simp add: is_end_def dirent_at_def slice_def sample_fat_def)
  have "dir_entries ?r = dirent_at ?r 0 # dirent_at ?r 32 # map (\<lambda>i. dirent_at ?r (i * 32)) [2..<16]"
    by (simp add: dir_entries_def len)
  then show ?thesis
    using second sample_file_fields
    by (simp add: root_bytes_def sample_sizes sample_volume_layout used_entries_def first)
qed

lemma sample_tree:
  "directory_tree sample_fs sample_fat {0} (\<lambda>_. dir_entries (root_bytes sample_fs sample_fat))"
  by (simp add: directory_tree_def root_of_def sample_volume_layout directory_def sample_root sample_file_fields)

text \<open>The path \<open>/hello.txt\<close>.\<close>

definition sample_path :: "u8 list" where
  "sample_path = [0x2F, 0x68, 0x65, 0x6C, 0x6C, 0x6F, 0x2E, 0x74, 0x78, 0x74]"

lemma sample_path_parts: "path_parts sample_path = Some [tl sample_path]"
  by (simp add: path_parts_def sample_path_def is_separator_def)

lemma sample_names: "name8 sample_file = [0x48, 0x45, 0x4C, 0x4C, 0x4F, 0x20, 0x20, 0x20]" "ext3 sample_file = [0x54, 0x58, 0x54]"
  by (simp_all add: sample_file_def dirent_at_def sample_dirent_def slice_def)

lemma sample_short_name: "short_name sample_file = [0x48, 0x45, 0x4C, 0x4C, 0x4F, 0x2E, 0x54, 0x58, 0x54]"
  by (simp add: short_name_def sample_names push_char_def utf8_def Let_def)

lemma sample_match: "matches_name sample_file (tl sample_path)"
  by (simp add: sample_path_def matches_name_def sample_short_name eq_ignore_ascii_case_def to_ascii_lowercase_def)

section \<open>Properties\<close>



text \<open>C22:
  The successor of a cluster is what the allocation table says: the table, read as one little-endian
  number, is a sequence of entries of 12, 16 or 32 bits, of which 12, 16 or 28 bits count, and \<open>next_cluster\<close>
  returns the entry of the cluster, the end of the chain for the eight highest values and an error for the
  eight below, for every size of device blocks, also when an entry lies in two blocks. The reserved
  clusters 0 and 1 are refused.
\<close>

theorem next_cluster_correct:
  assumes "fat_volume fs c"
  shows "(\<forall>k. valid_cluster fs k \<longrightarrow> next_cluster fs k = Some (successor fs c k))
    \<and> (\<forall>k. k < 2 \<longrightarrow> next_cluster fs k = Some (Inl FatInvalidCluster))"
  using next_cluster_successor [OF assms] by (simp add: next_cluster_def)

theorem next_cluster_correct_witness:
  "fat_volume sample_fs sample_fat \<and> next_cluster sample_fs 2 = Some (Inr (Some 3))"
  using next_cluster_correct [OF sample_volume] sample_volume sample_chain by (simp add: fat_chain_def)

text \<open>C23:
  Reading from a file whose clusters form a chain of the table that covers its size gives the bytes of the
  file: as many as fit the buffer, up to the end of the file, starting at the given offset of the
  concatenated clusters; the rest of the buffer is unchanged. Reading at or behind the end gives nothing.
\<close>

theorem read_file_correct:
  assumes "fat_volume fs c" and "fat_chain fs c ks" and "first_cluster e = hd ks"
    and "\<not> is_directory e" and "unat (file_size e) \<le> length ks * cluster_size fs"
    and "length buf < 2 ^ 32"
  shows "read_file fs e offset buf =
    (let n = min (length buf) (unat (file_size e) - unat offset)
     in Some (Inr (n, slice (unat offset) n (chain_bytes fs c ks) @ drop n buf)))"
proof (cases "offset < file_size e")
  case True
  then show ?thesis
    by (rule read_file_reads [OF assms(1-5) _ assms(6)])
next
  case False
  then have behind: "file_size e \<le> offset"
    by simp
  then have "unat (file_size e) - unat offset = 0"
    by (simp add: word_le_nat_alt)
  then show ?thesis
    using assms(4) behind by (simp add: read_file_def slice_def)
qed

theorem read_file_correct_witness:
  "read_file sample_fs sample_file 510 (replicate 4 0) =
     Some (Inr (4, slice 510 4 (chain_bytes sample_fs sample_fat [2, 3])))"
  using read_file_correct [OF sample_volume sample_chain(1), of sample_file "replicate 4 0" 510]
  by (simp add: sample_file_fields sample_sizes)

lemma read_file_all_reads:
  assumes "fat_volume fs c" and "find_file fs path = Some (Inr e)" and "fat_chain fs c ks"
    and "first_cluster e = hd ks" and "\<not> is_directory e"
    and "unat (file_size e) \<le> length ks * cluster_size fs"
    and "unat (file_size e) \<le> length buf" and "length buf < 2 ^ 32"
  shows "read_file_all fs path buf =
    Some (Inr (unat (file_size e),
               take (unat (file_size e)) (chain_bytes fs c ks) @ drop (unat (file_size e)) buf))"
proof (cases "file_size e = 0")
  case True
  then show ?thesis
    using assms(2,5) by (simp add: read_file_all_def read_file_def)
next
  case False
  then have "0 < file_size e"
    by (simp add: word_gt_0)
  then show ?thesis
    using read_file_reads [OF assms(1,3-6) _ assms(8), of 0] assms(2,7)
    by (simp add: read_file_all_def slice_def Let_def)
qed



section \<open>Failures\<close>

text \<open>
  A volume with clusters of more than 65536 bytes is accepted, but the buffer for a cluster is too small:
  every access to a directory that is a chain panics.
\<close>

theorem large_cluster_panics:
  assumes "DIR_BUFFER_SIZE < cluster_size fs" and "k \<noteq> 0"
  shows "find_in_directory fs k name = None"
  using assms
  by (simp add: find_in_directory_def walk_directory_def walk_chain.simps [of fs] read_cluster_at_def)

text \<open>A path of seventeen components panics.\<close>

theorem long_path_panics: "find_file fs (concat (replicate 17 [0x2F, 0x61])) = None"
  by code_simp

end
