(* ===== verification/Coreboot_Tables.thy ===== *)
theory Coreboot_Tables
  imports Memory_Map
begin

text \<open>
  The coreboot table: \<open>src/src/coreboot/tables.rs\<close>, with the structure of
  \<open>src/src/coreboot/framebuffer.rs\<close> that it fills.

  The table is read from memory. A packed structure is decoded from the bytes of a record with \<open>field\<close>;
  \<open>read_from_prefix\<close> fails when there are fewer bytes than the structure has. Following a forward record
  calls the loop over records again, so the loop is a \<open>partial_function\<close> and \<^const>\<open>None\<close> is a parse that
  never returns.
\<close>

section \<open>Data\<close>

definition MAX_MEMORY_REGIONS :: nat where
  "MAX_MEMORY_REGIONS = 64"

definition CB_TAG_MEMORY :: u32 where "CB_TAG_MEMORY = 0x0001"
definition CB_TAG_VERSION :: u32 where "CB_TAG_VERSION = 0x0004"
definition CB_TAG_SERIAL :: u32 where "CB_TAG_SERIAL = 0x000f"
definition CB_TAG_FORWARD :: u32 where "CB_TAG_FORWARD = 0x0011"
definition CB_TAG_FRAMEBUFFER :: u32 where "CB_TAG_FRAMEBUFFER = 0x0012"
definition CB_TAG_CBMEM_CONSOLE :: u32 where "CB_TAG_CBMEM_CONSOLE = 0x0017"
definition CB_TAG_CBMEM_ENTRY :: u32 where "CB_TAG_CBMEM_ENTRY = 0x0031"
definition CB_TAG_ACPI_RSDP :: u32 where "CB_TAG_ACPI_RSDP = 0x0043"

lemmas cb_tags = CB_TAG_MEMORY_def CB_TAG_VERSION_def CB_TAG_SERIAL_def CB_TAG_FORWARD_def
  CB_TAG_FRAMEBUFFER_def CB_TAG_CBMEM_CONSOLE_def CB_TAG_CBMEM_ENTRY_def CB_TAG_ACPI_RSDP_def

definition CBMEM_ID_SMBIOS :: u32 where
  "CBMEM_ID_SMBIOS = 0x534d4254"

text \<open>The signature \<open>LBIO\<close>.\<close>

definition LBIO :: "u8 list" where
  "LBIO = [0x4C, 0x42, 0x49, 0x4F]"

record cb_header =
  cb_signature :: "u8 list"
  header_bytes :: u32
  header_checksum :: u32
  table_bytes :: u32
  table_checksum :: u32
  table_entries :: u32

definition cb_header_at :: "memory \<Rightarrow> u64 \<Rightarrow> cb_header" where
  "cb_header_at m a =
     \<lparr>cb_signature = read_bytes m a 4, header_bytes = read_u32 m (a + 4), header_checksum = read_u32 m (a + 8),
      table_bytes = read_u32 m (a + 12), table_checksum = read_u32 m (a + 16),
      table_entries = read_u32 m (a + 20)\<rparr>"

record serial_info =
  serial_type :: u32
  baseaddr :: u32
  baud :: u32
  regwidth :: u32
  input_hertz :: u32

record framebuffer_info =
  physical_address :: u64
  x_resolution :: u32
  y_resolution :: u32
  bytes_per_line :: u32
  bits_per_pixel :: u8
  red_mask_pos :: u8
  red_mask_size :: u8
  green_mask_pos :: u8
  green_mask_size :: u8
  blue_mask_pos :: u8
  blue_mask_size :: u8

record coreboot_info =
  cb_memory_map :: "memory_region list"
  cb_serial :: "serial_info option"
  cb_framebuffer :: "framebuffer_info option"
  cb_acpi_rsdp :: "u64 option"
  cb_version :: "u8 list option"
  cb_console :: "u64 option"
  cb_smbios :: "u64 option"

definition coreboot_info_new :: coreboot_info where
  "coreboot_info_new =
     \<lparr>cb_memory_map = [], cb_serial = None, cb_framebuffer = None, cb_acpi_rsdp = None,
      cb_version = None, cb_console = None, cb_smbios = None\<rparr>"

section \<open>Strings\<close>

definition trim_end_nul :: "u8 list \<Rightarrow> u8 list" where
  "trim_end_nul s = rev (dropWhile (\<lambda>b. b = 0) (rev s))"

section \<open>Records\<close>

definition cb_region_type :: "u32 \<Rightarrow> cb_memory_type" where
  "cb_region_type t =
     (if t = 1 then Ram else if t = 2 then Reserved else if t = 3 then AcpiReclaimable
      else if t = 4 then AcpiNvs else if t = 5 then Unusable else if t = 16 then Table else Reserved)"

function parse_ranges :: "u8 list \<Rightarrow> memory_region list \<Rightarrow> memory_region list" where
  "parse_ranges remaining regions =
     (if length remaining < 20 then regions
      else
        let region = \<lparr>region_start = of_nat (field remaining 0 8), region_size = of_nat (field remaining 8 8),
                      region_type = cb_region_type (of_nat (field remaining 16 4))\<rparr>
        in case vec_push MAX_MEMORY_REGIONS regions region of
             None \<Rightarrow> regions
           | Some regions' \<Rightarrow> parse_ranges (drop 20 remaining) regions')"
  by pat_completeness auto
termination
  by (relation "measure (\<lambda>(remaining, _). length remaining)") auto

declare parse_ranges.simps [simp del]

definition parse_memory :: "u8 list \<Rightarrow> coreboot_info \<Rightarrow> coreboot_info" where
  "parse_memory bs ci =
     (if length bs \<le> 8 then ci
      else ci\<lparr>cb_memory_map := parse_ranges (drop 8 bs) (cb_memory_map ci)\<rparr>)"

definition parse_serial :: "u8 list \<Rightarrow> coreboot_info \<Rightarrow> coreboot_info" where
  "parse_serial bs ci =
     (if length bs < 28 then ci
      else ci\<lparr>cb_serial := Some
        \<lparr>serial_type = of_nat (field bs 8 4), baseaddr = of_nat (field bs 12 4), baud = of_nat (field bs 16 4),
         regwidth = of_nat (field bs 20 4), input_hertz = of_nat (field bs 24 4)\<rparr>\<rparr>)"

definition parse_framebuffer :: "u8 list \<Rightarrow> coreboot_info \<Rightarrow> coreboot_info" where
  "parse_framebuffer bs ci =
     (if length bs < 37 then ci
      else ci\<lparr>cb_framebuffer := Some
        \<lparr>physical_address = of_nat (field bs 8 8), x_resolution = of_nat (field bs 16 4),
         y_resolution = of_nat (field bs 20 4), bytes_per_line = of_nat (field bs 24 4),
         bits_per_pixel = bs ! 28, red_mask_pos = bs ! 29, red_mask_size = bs ! 30,
         green_mask_pos = bs ! 31, green_mask_size = bs ! 32,
         blue_mask_pos = bs ! 33, blue_mask_size = bs ! 34\<rparr>\<rparr>)"

definition parse_acpi_rsdp :: "u8 list \<Rightarrow> coreboot_info \<Rightarrow> coreboot_info" where
  "parse_acpi_rsdp bs ci =
     (if length bs < 16 then ci else ci\<lparr>cb_acpi_rsdp := Some (of_nat (field bs 8 8))\<rparr>)"

definition parse_cbmem_console :: "u8 list \<Rightarrow> coreboot_info \<Rightarrow> coreboot_info" where
  "parse_cbmem_console bs ci =
     (if length bs < 16 then ci else ci\<lparr>cb_console := Some (of_nat (field bs 8 8))\<rparr>)"

definition parse_cbmem_entry :: "u8 list \<Rightarrow> coreboot_info \<Rightarrow> coreboot_info" where
  "parse_cbmem_entry bs ci =
     (if length bs < 24 then ci
      else if of_nat (field bs 20 4) = CBMEM_ID_SMBIOS
      then ci\<lparr>cb_smbios := Some (of_nat (field bs 8 8))\<rparr> else ci)"

definition parse_version :: "u8 list \<Rightarrow> coreboot_info \<Rightarrow> coreboot_info" where
  "parse_version bs ci =
     (if length bs > 8 \<and> utf8_ok (drop 8 bs)
      then ci\<lparr>cb_version := Some (trim_end_nul (drop 8 bs))\<rparr> else ci)"

text \<open>\<open>follow\<close> parses the table at the address of a forward record, \<open>parse_forward\<close>.\<close>

definition parse_record ::
    "(u64 \<Rightarrow> coreboot_info \<Rightarrow> coreboot_info option) \<Rightarrow> u8 list \<Rightarrow> coreboot_info \<Rightarrow> coreboot_info option" where
  "parse_record follow bs ci =
     (if length bs < 8 then Some ci
      else
        let tag = of_nat (field bs 0 4)
        in if tag = CB_TAG_MEMORY then Some (parse_memory bs ci)
           else if tag = CB_TAG_SERIAL then Some (parse_serial bs ci)
           else if tag = CB_TAG_FRAMEBUFFER then Some (parse_framebuffer bs ci)
           else if tag = CB_TAG_FORWARD then
             (if length bs < 16 then Some ci else follow (of_nat (field bs 8 8)) ci)
           else if tag = CB_TAG_ACPI_RSDP then Some (parse_acpi_rsdp bs ci)
           else if tag = CB_TAG_CBMEM_CONSOLE then Some (parse_cbmem_console bs ci)
           else if tag = CB_TAG_CBMEM_ENTRY then Some (parse_cbmem_entry bs ci)
           else if tag = CB_TAG_VERSION then Some (parse_version bs ci)
           else Some ci)"

section \<open>The table\<close>

function scan_from :: "memory \<Rightarrow> u64 \<Rightarrow> nat \<Rightarrow> nat \<Rightarrow> u64 option" where
  "scan_from m base sz off =
     (if off < sz then
        if read_bytes m (base + of_nat off) 4 = LBIO then Some (base + of_nat off)
        else scan_from m base sz (off + 16)
      else None)"
  by pat_completeness auto
termination
  by (relation "measure (\<lambda>(_, _, sz, off). sz - off)") auto

declare scan_from.simps [simp del]

definition scan_for_header_at :: "memory \<Rightarrow> u64 \<Rightarrow> nat \<Rightarrow> u64 option" where
  "scan_for_header_at m base sz = scan_from m base sz 0"

definition find_header :: "memory \<Rightarrow> u64 \<Rightarrow> u64 option" where
  "find_header m ptr =
     (if cb_signature (cb_header_at m ptr) = LBIO then Some ptr else scan_for_header_at m ptr 0x1000)"

text \<open>The first of the places that has a header.\<close>

definition scan_areas :: "(u64 \<times> nat) list" where
  "scan_areas = [(0, 0x1000), (0x9F000, 0x1000), (0xF0000, 0x10000),
     (0x7EE00000, 0x100000), (0x7FE00000, 0x100000), (0xCFF00000, 0x100000)]"

fun first_header :: "memory \<Rightarrow> (u64 \<times> nat) list \<Rightarrow> u64 option" where
  "first_header m [] = None"
| "first_header m ((base, sz) # areas) =
     (case scan_for_header_at m base sz of Some h \<Rightarrow> Some h | None \<Rightarrow> first_header m areas)"

definition scan_for_header :: "memory \<Rightarrow> u64 option" where
  "scan_for_header m = first_header m scan_areas"

lemma parse_record_mono [partial_function_mono]:
  assumes "\<And>a i. mono_option (\<lambda>f. F f a i)"
  shows "mono_option (\<lambda>f. parse_record (F f) bs ci)"
  using assms by (auto simp: parse_record_def Let_def monotone_def option.leq_refl)

text \<open>
  The loop over the records, which \<open>parse\<close> and \<open>parse_forward\<close> both contain. The offset is a \<open>u32\<close> and
  wraps.
\<close>

partial_function (option) parse_records ::
    "memory \<Rightarrow> u64 \<Rightarrow> u32 \<Rightarrow> u32 \<Rightarrow> coreboot_info \<Rightarrow> coreboot_info option" where
  "parse_records m table_start bytes off ci =
     (if off < bytes then
        let record_ptr = table_start + ucast off;
            record_size = read_u32 m (record_ptr + 4)
        in if record_size < 8 then Some ci
           else Option.bind
             (parse_record
                (\<lambda>addr i.
                   case find_header m addr of
                     None \<Rightarrow> Some i
                   | Some h \<Rightarrow>
                       if cb_signature (cb_header_at m h) \<noteq> LBIO then Some i
                       else parse_records m (h + ucast (header_bytes (cb_header_at m h)))
                              (table_bytes (cb_header_at m h)) 0 i)
                (read_bytes m record_ptr (unat record_size)) ci)
             (\<lambda>i. parse_records m table_start bytes (off + record_size) i)
      else Some ci)"

definition parse_table :: "memory \<Rightarrow> u64 \<Rightarrow> coreboot_info \<Rightarrow> coreboot_info option" where
  "parse_table m h ci =
     parse_records m (h + ucast (header_bytes (cb_header_at m h))) (table_bytes (cb_header_at m h)) 0 ci"

definition parse_forward :: "memory \<Rightarrow> u64 \<Rightarrow> coreboot_info \<Rightarrow> coreboot_info option" where
  "parse_forward m addr ci =
     (case find_header m addr of
        None \<Rightarrow> Some ci
      | Some h \<Rightarrow> if cb_signature (cb_header_at m h) \<noteq> LBIO then Some ci else parse_table m h ci)"

definition create_fallback_memory_map :: "coreboot_info \<Rightarrow> coreboot_info" where
  "create_fallback_memory_map ci =
     (let push = vec_push_ignore MAX_MEMORY_REGIONS;
          regions = push (push (cb_memory_map ci)
              \<lparr>region_start = 0x1000, region_size = 0x9F000, region_type = Ram\<rparr>)
              \<lparr>region_start = 0x200000, region_size = 0x1E000000, region_type = Ram\<rparr>
      in ci\<lparr>cb_memory_map := regions,
             cb_serial := Some \<lparr>serial_type = 1, baseaddr = 0x3f8, baud = 115200, regwidth = 1,
                                input_hertz = 1843200\<rparr>\<rparr>)"

definition parse :: "memory \<Rightarrow> u64 \<Rightarrow> coreboot_info option" where
  "parse m ptr =
     (case (if ptr = 0 then scan_for_header m else find_header m ptr) of
        None \<Rightarrow> Some (create_fallback_memory_map coreboot_info_new)
      | Some h \<Rightarrow>
          if cb_signature (cb_header_at m h) \<noteq> LBIO then Some (create_fallback_memory_map coreboot_info_new)
          else map_option
            (\<lambda>ci. if cb_memory_map ci = [] then create_fallback_memory_map ci else ci)
            (parse_table m h coreboot_info_new))"

end
