(* ===== verification/Coreboot_Correct.thy ===== *)
theory Coreboot_Correct
  imports Coreboot_Tables Allocator_Correct
begin

text \<open>
  What a coreboot table in memory says, and that the parser reads it: the records of a table as a datatype
  with their encoding, the layout of a table with the tables it forwards to, and the information that the
  records stand for.
\<close>

section \<open>Records and their encoding\<close>

datatype cb_entry =
    CbMemory "memory_region list"
  | CbSerial serial_info
  | CbFramebuffer framebuffer_info u8 u8
  | CbAcpiRsdp u64
  | CbConsole u64
  | CbCbmem u64 u32 u32
  | CbVersion "u8 list"
  | CbForward u64 "cb_entry list"
  | CbOther u32 "u8 list"

abbreviation bytes32 :: "u32 \<Rightarrow> u8 list" where
  "bytes32 w \<equiv> le_bytes 4 (unat w)"

abbreviation bytes64 :: "u64 \<Rightarrow> u8 list" where
  "bytes64 w \<equiv> le_bytes 8 (unat w)"

fun cb_region_code :: "cb_memory_type \<Rightarrow> u32" where
  "cb_region_code Ram = 1"
| "cb_region_code Reserved = 2"
| "cb_region_code AcpiReclaimable = 3"
| "cb_region_code AcpiNvs = 4"
| "cb_region_code Unusable = 5"
| "cb_region_code Table = 16"

definition encode_region :: "memory_region \<Rightarrow> u8 list" where
  "encode_region r = bytes64 (region_start r) @ bytes64 (region_size r) @ bytes32 (cb_region_code (region_type r))"

fun entry_tag :: "cb_entry \<Rightarrow> u32" where
  "entry_tag (CbMemory _) = CB_TAG_MEMORY"
| "entry_tag (CbSerial _) = CB_TAG_SERIAL"
| "entry_tag (CbFramebuffer _ _ _) = CB_TAG_FRAMEBUFFER"
| "entry_tag (CbAcpiRsdp _) = CB_TAG_ACPI_RSDP"
| "entry_tag (CbConsole _) = CB_TAG_CBMEM_CONSOLE"
| "entry_tag (CbCbmem _ _ _) = CB_TAG_CBMEM_ENTRY"
| "entry_tag (CbVersion _) = CB_TAG_VERSION"
| "entry_tag (CbForward _ _) = CB_TAG_FORWARD"
| "entry_tag (CbOther t _) = t"

fun entry_data :: "cb_entry \<Rightarrow> u8 list" where
  "entry_data (CbMemory rs) = concat (map encode_region rs)"
| "entry_data (CbSerial s) =
     bytes32 (serial_type s) @ bytes32 (baseaddr s) @ bytes32 (baud s) @ bytes32 (regwidth s) @
     bytes32 (input_hertz s)"
| "entry_data (CbFramebuffer f pos sz) =
     bytes64 (physical_address f) @ bytes32 (x_resolution f) @ bytes32 (y_resolution f) @
     bytes32 (bytes_per_line f) @
     [bits_per_pixel f, red_mask_pos f, red_mask_size f, green_mask_pos f, green_mask_size f,
      blue_mask_pos f, blue_mask_size f, pos, sz]"
| "entry_data (CbAcpiRsdp a) = bytes64 a"
| "entry_data (CbConsole a) = bytes64 a"
| "entry_data (CbCbmem a n i) = bytes64 a @ bytes32 n @ bytes32 i"
| "entry_data (CbVersion s) = s"
| "entry_data (CbForward a _) = bytes64 a"
| "entry_data (CbOther _ bs) = bs"

definition encode_entry :: "cb_entry \<Rightarrow> u8 list" where
  "encode_entry e = bytes32 (entry_tag e) @ le_bytes 4 (8 + length (entry_data e)) @ entry_data e"

definition encode_table :: "cb_entry list \<Rightarrow> u8 list" where
  "encode_table es = concat (map encode_entry es)"

text \<open>What a record may be: a record of another kind does not use one of the tags that are parsed.\<close>

fun entry_ok :: "cb_entry \<Rightarrow> bool" where
  "entry_ok (CbOther t _) \<longleftrightarrow>
     t \<notin> {CB_TAG_MEMORY, CB_TAG_SERIAL, CB_TAG_FRAMEBUFFER, CB_TAG_FORWARD, CB_TAG_ACPI_RSDP,
          CB_TAG_CBMEM_CONSOLE, CB_TAG_CBMEM_ENTRY, CB_TAG_VERSION}"
| "entry_ok _ \<longleftrightarrow> True"

section \<open>A table in memory\<close>

text \<open>
  \<open>table_at m addr es\<close>: at \<open>addr\<close> there is a header with the signature, followed at the distance it names by
  the records \<open>es\<close>, and the tables that they forward to are in memory in the same way.
\<close>

inductive table_at :: "memory \<Rightarrow> u64 \<Rightarrow> cb_entry list \<Rightarrow> bool" for m where
  table_at: "cb_signature (cb_header_at m addr) = LBIO \<Longrightarrow>
    unat (table_bytes (cb_header_at m addr)) = length (encode_table es) \<Longrightarrow>
    read_bytes m (addr + ucast (header_bytes (cb_header_at m addr))) (length (encode_table es)) =
      encode_table es \<Longrightarrow>
    (\<And>e. e \<in> set es \<Longrightarrow> entry_ok e) \<Longrightarrow>
    (\<And>a es'. CbForward a es' \<in> set es \<Longrightarrow> table_at m a es') \<Longrightarrow> table_at m addr es"

section \<open>What the records say\<close>

fun note_entry :: "cb_entry \<Rightarrow> coreboot_info \<Rightarrow> coreboot_info" where
  "note_entry (CbMemory rs) ci = ci\<lparr>cb_memory_map := take (max (length (cb_memory_map ci)) MAX_MEMORY_REGIONS) (cb_memory_map ci @ rs)\<rparr>"
| "note_entry (CbSerial s) ci = ci\<lparr>cb_serial := Some s\<rparr>"
| "note_entry (CbFramebuffer f _ _) ci = ci\<lparr>cb_framebuffer := Some f\<rparr>"
| "note_entry (CbAcpiRsdp a) ci = ci\<lparr>cb_acpi_rsdp := Some a\<rparr>"
| "note_entry (CbConsole a) ci = ci\<lparr>cb_console := Some a\<rparr>"
| "note_entry (CbCbmem a n i) ci = (if i = CBMEM_ID_SMBIOS then ci\<lparr>cb_smbios := Some a\<rparr> else ci)"
| "note_entry (CbVersion s) ci =
     (if s \<noteq> [] \<and> utf8_ok s then ci\<lparr>cb_version := Some (trim_end_nul s)\<rparr> else ci)"
| "note_entry (CbForward _ es) ci = fold note_entry es ci"
| "note_entry (CbOther _ _) ci = ci"

section \<open>Decoding\<close>

lemma field_encode:
  "of_nat (le_nat (bytes32 w)) = w" "of_nat (le_nat (bytes64 v)) = v"
  using unat_bound [of w] unat_bound [of v] by (simp_all add: le_nat_le_bytes)

lemmas field_simps_cb = field_append field_all field_encode

lemma length_encode_region [simp]: "length (encode_region r) = 20"
  by (simp add: encode_region_def)

lemma encode_region_not_Nil [simp]: "encode_region r \<noteq> []"
  using length_encode_region [of r] by (metis list.size(3) zero_neq_numeral)

lemma cb_region_type_code [simp]: "cb_region_type (cb_region_code t) = t"
  by (cases t) (simp_all add: cb_region_type_def)

lemma parse_ranges_encode:
  "parse_ranges (concat (map encode_region rs)) ms =
     take (max (length ms) MAX_MEMORY_REGIONS) (ms @ rs)"
proof (induction rs arbitrary: ms)
  case Nil
  then show ?case by (simp add: parse_ranges.simps)
next
  case (Cons r rs)
  have "field (encode_region r @ bs) 0 8 = le_nat (bytes64 (region_start r))"
    "field (encode_region r @ bs) 8 8 = le_nat (bytes64 (region_size r))"
    "field (encode_region r @ bs) 16 4 = le_nat (bytes32 (cb_region_code (region_type r)))" for bs
    by (simp_all add: encode_region_def field_simps_cb)
  then show ?case
    by (subst parse_ranges.simps) (simp add: field_encode Let_def vec_push_def Cons.IH max_def MAX_MEMORY_REGIONS_def take_Cons')
qed

lemma length_encode_entry: "length (encode_entry e) = 8 + length (entry_data e)"
  by (simp add: encode_entry_def)

lemma encode_tag: "of_nat (field (encode_entry e) 0 4) = entry_tag e"
  by (simp add: encode_entry_def field_simps_cb)

lemma encode_fields:
  "8 \<le> off \<Longrightarrow> field (encode_entry e) off n = field (entry_data e) (off - 8) n"
  "drop 8 (encode_entry e) = entry_data e"
  by (simp_all add: encode_entry_def field_append)

lemma encode_nth: "8 \<le> i \<Longrightarrow> i < length (encode_entry e) \<Longrightarrow> encode_entry e ! i = entry_data e ! (i - 8)"
  using nth_drop [of 8 "encode_entry e" "i - 8"] by (simp add: encode_fields length_encode_entry)

lemma encoded_size: "length (encode_entry e) < 2 ^ 32 \<Longrightarrow> field (encode_entry e) 4 4 = length (encode_entry e)"
  by (simp add: encode_entry_def field_simps_cb le_nat_le_bytes)

lemma parse_record_encode:
  assumes "entry_ok e" and "\<And>a es i. e = CbForward a es \<Longrightarrow> follow a i = Some (fold note_entry es i)"
  shows "parse_record follow (encode_entry e) ci = Some (note_entry e ci)"
proof (cases e)
  case (CbOther t bs)
  then show ?thesis
    using assms(1) by (simp add: parse_record_def Let_def encode_tag length_encode_entry)
next
  case (CbForward a es)
  then show ?thesis
    using assms(2) [OF CbForward]
    by (simp add: cb_tags  parse_record_def Let_def encode_tag length_encode_entry encode_fields field_simps_cb)
next
  case (CbFramebuffer f pos sz)
  then show ?thesis
    by (simp add: cb_tags  parse_record_def Let_def encode_tag length_encode_entry encode_fields encode_nth field_simps_cb
        parse_framebuffer_def nth_append)
qed (simp_all add: cb_tags parse_record_def Let_def encode_tag length_encode_entry encode_fields field_simps_cb
    parse_memory_def parse_serial_def parse_acpi_rsdp_def parse_cbmem_console_def parse_cbmem_entry_def
    parse_version_def parse_ranges_encode flip: ex_in_conv)

section \<open>Reading a table\<close>

lemma read_bytes_slice:
  "off + n \<le> k \<Longrightarrow> read_bytes m (a + of_nat off) n = slice off n (read_bytes m a k)"
  by (rule nth_equalityI) (simp_all add: read_bytes_def slice_def add.assoc)

lemma read_u32_slice:
  "off + 4 \<le> k \<Longrightarrow> read_u32 m (a + of_nat off) = of_nat (field (read_bytes m a k) off 4)"
  by (simp add: read_u32_def field_def read_bytes_slice)

lemma parse_forward_table:
  "cb_signature (cb_header_at m a) = LBIO \<Longrightarrow> parse_forward m a ci = parse_table m a ci"
  by (simp add: parse_forward_def find_header_def)

lemma parse_records_unfold:
  "parse_records m table_start bytes off ci =
     (if off < bytes then
        let record_ptr = table_start + ucast off; record_size = read_u32 m (record_ptr + 4)
        in if record_size < 8 then Some ci
           else Option.bind (parse_record (parse_forward m) (read_bytes m record_ptr (unat record_size)) ci)
             (\<lambda>i. parse_records m table_start bytes (off + record_size) i)
      else Some ci)"
  unfolding parse_forward_def [abs_def] parse_table_def by (rule parse_records.simps)

lemma parse_records_step:
  assumes "off < bytes" and "8 \<le> record_size" and "read_u32 m (table_start + ucast off + 4) = record_size"
    and "parse_record (parse_forward m) (read_bytes m (table_start + ucast off) (unat record_size)) ci = Some ci'"
  shows "parse_records m table_start bytes off ci = parse_records m table_start bytes (off + record_size) ci'"
  using assms by (subst parse_records_unfold) (simp add: Let_def leD)

lemma parse_records_end: "bytes \<le> off \<Longrightarrow> parse_records m table_start bytes off ci = Some ci"
  by (subst parse_records_unfold) (simp add: leD)

lemma encode_table_simps:
  "encode_table [] = []" "encode_table (e # es) = encode_entry e @ encode_table es"
  "encode_table (es @ es') = encode_table es @ encode_table es'"
  by (simp_all add: encode_table_def)

lemma parse_records_encode:
  assumes "read_bytes m start (length (encode_table (pre @ es))) = encode_table (pre @ es)"
    and "unat bytes = length (encode_table (pre @ es))"
    and "\<And>e. e \<in> set es \<Longrightarrow> entry_ok e"
    and "\<And>a es' i. CbForward a es' \<in> set es \<Longrightarrow> parse_forward m a i = Some (fold note_entry es' i)"
  shows "parse_records m start bytes (of_nat (length (encode_table pre))) ci = Some (fold note_entry es ci)"
  using assms
proof (induction es arbitrary: pre ci)
  case Nil
  have "of_nat (length (encode_table (pre @ []))) = bytes"
by (simp only: Nil.prems(2) [symmetric] of_nat_unat ucast_id)
  then show ?case
    by (simp add: parse_records_end)
next
  case (Cons e es)
  let ?off = "length (encode_table pre)" and ?len = "length (encode_entry e)"
  have total: "unat bytes = ?off + ?len + length (encode_table es)"
    using Cons.prems(2) by (simp add: encode_table_simps)
  then have fits: "?off + ?len < 2 ^ 32"
    using unat_bound [of bytes] by simp
  then have off: "unat (of_nat ?off :: u32) = ?off" "unat (of_nat ?len :: u32) = ?len"
    by (simp_all add: unat_of_nat )
  have ptr: "start + ucast (of_nat ?off :: u32) = start + of_nat ?off"
    by (metis of_nat_unat off(1))
  have "slice ?off ?len (encode_table (pre @ e # es)) = encode_entry e"
    by (simp add: encode_table_simps slice_def)
  then have bytes_e: "read_bytes m (start + of_nat ?off) ?len = encode_entry e"
    using read_bytes_slice [of ?off ?len "length (encode_table (pre @ e # es))" m start] Cons.prems(1)
    by (simp add: encode_table_simps)
  have "read_u32 m (start + of_nat ?off + 4) = of_nat ?len"
    using read_u32_slice [of 4 ?len m "start + of_nat ?off"] fits
    by (simp only: bytes_e) (simp add: encoded_size length_encode_entry [of e])
  moreover have "parse_record (parse_forward m) (encode_entry e) ci = Some (note_entry e ci)"
    using Cons.prems(3,4) by (intro parse_record_encode) auto
  ultimately have "parse_records m start bytes (of_nat ?off) ci =
      parse_records m start bytes (of_nat ?off + of_nat ?len) (note_entry e ci)"
    using total off bytes_e ptr length_encode_entry [of e]
    by (intro parse_records_step) (auto simp: word_less_nat_alt word_le_nat_alt)
  moreover have "of_nat ?off + of_nat ?len = (of_nat (length (encode_table (pre @ [e]))) :: u32)"
    by (simp add: encode_table_simps)
  ultimately show ?case
    using Cons.IH [of "pre @ [e]" "note_entry e ci"] Cons.prems by simp
qed

lemma parse_table_notes:
  assumes "table_at m addr es"
  shows "parse_forward m addr ci = Some (fold note_entry es ci)"
  using assms
proof (induction arbitrary: ci)
  case (table_at addr es)
  then show ?case
    using parse_records_encode [of m "addr + ucast (header_bytes (cb_header_at m addr))" "[]" es]
    by (simp add: parse_forward_table parse_table_def encode_table_simps)
qed

lemma parse_notes:
  assumes "table_at m addr es" and "addr \<noteq> 0"
  shows "parse m addr =
    (let ci = fold note_entry es coreboot_info_new
     in Some (if cb_memory_map ci = [] then create_fallback_memory_map ci else ci))"
proof -
  have sig: "cb_signature (cb_header_at m addr) = LBIO"
    using assms(1) by cases
  then show ?thesis
    using parse_table_notes [OF assms(1), of coreboot_info_new] assms(2)
    by (simp add: parse_def find_header_def parse_forward_table Let_def)
qed

end
