(* ===== verification/Coreboot_Props.thy ===== *)
theory Coreboot_Props
  imports Coreboot_Correct Allocator_Props
begin

text \<open>
  The properties of the coreboot table parser, alone and with the memory map that is built from its result,
  and a table on which it does not return.
\<close>

section \<open>Memory regions\<close>

fun entry_regions :: "cb_entry \<Rightarrow> memory_region list" where
  "entry_regions (CbMemory rs) = rs"
| "entry_regions (CbForward _ es) = concat (map entry_regions es)"
| "entry_regions _ = []"

definition table_regions :: "cb_entry list \<Rightarrow> memory_region list" where
  "table_regions es = concat (map entry_regions es)"

lemma note_all_regions:
  assumes "\<And>e ci. e \<in> set es \<Longrightarrow> length (cb_memory_map ci) \<le> MAX_MEMORY_REGIONS \<Longrightarrow>
      cb_memory_map (note_entry e ci) = take MAX_MEMORY_REGIONS (cb_memory_map ci @ entry_regions e)"
    and "length (cb_memory_map ci) \<le> MAX_MEMORY_REGIONS"
  shows "cb_memory_map (fold note_entry es ci) = take MAX_MEMORY_REGIONS (cb_memory_map ci @ table_regions es)"
  using assms
proof (induction es arbitrary: ci)
  case Nil
  then show ?case by (simp add: table_regions_def)
next
  case (Cons e es)
  have first: "cb_memory_map (note_entry e ci) = take MAX_MEMORY_REGIONS (cb_memory_map ci @ entry_regions e)"
    using Cons.prems by simp
  then have "cb_memory_map (fold note_entry es (note_entry e ci)) =
      take MAX_MEMORY_REGIONS (cb_memory_map (note_entry e ci) @ table_regions es)"
    using Cons.prems(1) by (intro Cons.IH) simp_all
  then show ?case
    by (simp add: first table_regions_def min_def)
qed

lemma note_entry_regions:
  "length (cb_memory_map ci) \<le> MAX_MEMORY_REGIONS \<Longrightarrow>
   cb_memory_map (note_entry e ci) = take MAX_MEMORY_REGIONS (cb_memory_map ci @ entry_regions e)"
proof (induction e arbitrary: ci)
  case (CbForward a es)
  then show ?case
    using note_all_regions [of es ci] by (simp add: table_regions_def)
qed (simp_all add: max_def)

lemma noted_regions:
  "cb_memory_map (fold note_entry es coreboot_info_new) = take MAX_MEMORY_REGIONS (table_regions es)"
  using note_all_regions [of es coreboot_info_new] note_entry_regions by (simp add: coreboot_info_new_def)

section \<open>A small table\<close>

text \<open>A table at 0x500 that forwards to one at 0x1000 with two regions of memory and an RSDP.\<close>

definition sample_high :: "cb_entry list" where
  "sample_high = [CbMemory sample_regions, CbAcpiRsdp 0xF0000]"

definition sample_low :: "cb_entry list" where
  "sample_low = [CbForward 0x1000 sample_high]"

lemma length_LBIO [simp]: "length LBIO = 4"
  by (simp add: LBIO_def)

definition cb_header_encode :: "nat \<Rightarrow> u8 list" where
  "cb_header_encode n = LBIO @ le_bytes 4 24 @ replicate 4 0 @ le_bytes 4 n @ replicate 8 0"

definition sample_cb_memory :: memory where
  "sample_cb_memory =
     write_bytes (write_bytes (\<lambda>_. 0) 0x500 (cb_header_encode 16 @ encode_table sample_low))
       0x1000 (cb_header_encode 64 @ encode_table sample_high)"

lemma read_bytes_apart:
  assumes "length bs \<le> unat (b - a)" and "unat (b - a) + n \<le> 2 ^ 64"
  shows "read_bytes (write_bytes m a bs) b n = read_bytes m b n"
proof (rule read_bytes_cong)
  fix i assume "i < n"
  then have i: "unat (of_nat i :: u64) = i"
    using assms(2) by (simp add: unat_of_nat)
  then have "unat (b - a + of_nat i) = unat (b - a) + i"
    using \<open>i < n\<close> assms(2) by (subst unat_plus_less) simp_all
  then show "write_bytes m a bs (b + of_nat i) = m (b + of_nat i)"
    using assms(1) by (intro write_bytes_outside) (simp add: algebra_simps)
qed

lemma table_imageI:
  assumes img: "read_bytes m addr (24 + n) = cb_header_encode n @ encode_table es" (is "?img = _")
    and n: "length (encode_table es) = n" "n < 2 ^ 32"
    and "\<And>e. e \<in> set es \<Longrightarrow> entry_ok e"
    and "\<And>a es'. CbForward a es' \<in> set es \<Longrightarrow> table_at m a es'"
  shows "table_at m addr es"
proof -
  have h: "cb_header_at m addr = \<lparr>cb_signature = slice 0 4 ?img, header_bytes = of_nat (field ?img 4 4),
      header_checksum = of_nat (field ?img 8 4), table_bytes = of_nat (field ?img 12 4),
      table_checksum = of_nat (field ?img 16 4), table_entries = of_nat (field ?img 20 4)\<rparr>"
    using read_u32_slice [of 4 "24 + n" m addr] read_u32_slice [of 8 "24 + n" m addr]
      read_u32_slice [of 12 "24 + n" m addr] read_u32_slice [of 16 "24 + n" m addr]
      read_u32_slice [of 20 "24 + n" m addr] read_bytes_slice [of 0 4 "24 + n" m addr]
    by (simp add: cb_header_at_def)
  have fields: "slice 0 4 ?img = LBIO" "field ?img 4 4 = 24" "field ?img 12 4 = n"
    unfolding img using n(2)
    by (simp_all add: cb_header_encode_def field_simps_cb le_nat_le_bytes slice_def)
  have "slice 24 n (cb_header_encode n @ encode_table es) = encode_table es"
    using n(1) by (simp add: slice_def cb_header_encode_def)
  then have "read_bytes m (addr + 24) n = encode_table es"
    using read_bytes_slice [of 24 n "24 + n" m addr] by (simp add: img)
  then show ?thesis
    using n fields assms(4,5) by (intro table_at.table_at [of m addr es]) (simp_all add: h unat_of_nat)
qed

lemma sample_high_at: "table_at sample_cb_memory 0x1000 sample_high"
proof (rule table_imageI)
  show n: "length (encode_table sample_high) = 64"
    by (simp add: sample_high_def sample_regions_def encode_table_simps length_encode_entry)
  show "read_bytes sample_cb_memory 0x1000 (24 + 64) = cb_header_encode 64 @ encode_table sample_high"
    using read_write_same [of "cb_header_encode 64 @ encode_table sample_high"] n
    by (simp add: sample_cb_memory_def cb_header_encode_def)
qed (auto simp: sample_high_def)

lemma sample_low_at: "table_at sample_cb_memory 0x500 sample_low"
proof (rule table_imageI)
  show n: "length (encode_table sample_low) = 16"
    by (simp add: sample_low_def encode_table_simps length_encode_entry)
  have "length (cb_header_encode 64 @ encode_table sample_high) = 88"
    by (simp add: sample_high_def sample_regions_def encode_table_simps length_encode_entry cb_header_encode_def)
  then show "read_bytes sample_cb_memory 0x500 (24 + 16) = cb_header_encode 16 @ encode_table sample_low"
    using read_write_same [of "cb_header_encode 16 @ encode_table sample_low"] n
    unfolding sample_cb_memory_def
    by (subst read_bytes_apart) (simp_all add: cb_header_encode_def)
qed (use sample_high_at in \<open>auto simp: sample_low_def\<close>)

section \<open>Properties\<close>

text \<open>C25:
  The parser reads the table: from a table in memory, with the tables it forwards to, it returns exactly the
  information that the records state in their order, later records of a kind replacing earlier ones; its
  memory map is the list of all memory regions up to the capacity, and the built-in map is used only when
  there is none.
\<close>

theorem parse_reads_table:
  assumes "table_at m addr es" and "addr \<noteq> 0"
  shows "parse m addr =
      (let ci = fold note_entry es coreboot_info_new
       in Some (if table_regions es = [] then create_fallback_memory_map ci else ci))
    \<and> cb_memory_map (fold note_entry es coreboot_info_new) = take MAX_MEMORY_REGIONS (table_regions es)"
  using parse_notes [OF assms] by (simp add: noted_regions MAX_MEMORY_REGIONS_def)

theorem parse_reads_table_witness:
  "parse sample_cb_memory 0x500 =
     Some (coreboot_info_new\<lparr>cb_memory_map := sample_regions, cb_acpi_rsdp := Some 0xF0000\<rparr>)"
  using parse_reads_table [OF sample_low_at]
  by (simp add: sample_low_def sample_high_def table_regions_def sample_regions_def coreboot_info_new_def
      MAX_MEMORY_REGIONS_def)

text \<open>C26:
  From coreboot to UEFI: when the regions that a table states are page-aligned, non-empty and disjoint, the
  memory map that the firmware starts with satisfies the allocator's invariant and gives every address the
  type of the region that the table puts it in.
\<close>

theorem coreboot_memory_map_correct:
  assumes "table_at m addr es" and "addr \<noteq> 0" and "table_regions es \<noteq> []"
    and "length (table_regions es) \<le> MAX_MEMORY_REGIONS"
    and "\<forall>r \<in> set (table_regions es). region_ok r" and "sorted_wrt regions_apart (table_regions es)"
  shows "\<exists>ci. parse m addr = Some ci \<and> alloc_inv (init_from_coreboot s (cb_memory_map ci)) \<and>
    (\<forall>a. alloc_map (init_from_coreboot s (cb_memory_map ci)) a =
      map_option (\<lambda>r. (as_u32 (cb_to_efi_memory_type (region_type r)),
                       default_attribute (cb_to_efi_memory_type (region_type r))))
        (find (\<lambda>r. region_contains r a) (table_regions es)))"
proof -
  have "length (table_regions es) \<le> MAX_MEMORY_ENTRIES"
    using assms(4) by (simp add: MAX_MEMORY_REGIONS_def MAX_MEMORY_ENTRIES_def)
  then show ?thesis
    using parse_notes [OF assms(1,2)] noted_regions [of es] init_from_coreboot_effect [OF assms(5,6), of s] assms(3,4)
    by (simp add: Let_def)
qed

theorem coreboot_memory_map_correct_witness:
  "\<exists>ci. parse sample_cb_memory 0x500 = Some ci \<and>
     alloc_map (init_from_coreboot new_allocator (cb_memory_map ci)) 0x100004 =
       Some (as_u32 ConventionalMemory, EFI_MEMORY_WB)"
proof -
  have "table_regions sample_low = sample_regions"
    by (simp add: sample_low_def sample_high_def table_regions_def)
  then show ?thesis
    using coreboot_memory_map_correct [OF sample_low_at, of new_allocator] sample_regions_ok
    by (auto simp: sample_regions_def region_contains_def region_end_def MAX_MEMORY_REGIONS_def)
qed

section \<open>A table that is read for ever\<close>

text \<open>A table whose first record forwards to the table itself: the parser never returns.\<close>

lemma self_forward_has_no_result:
  assumes sig: "cb_signature (cb_header_at m h) = LBIO"
    and start: "start = h + ucast (header_bytes (cb_header_at m h))"
    and bytes: "bytes = table_bytes (cb_header_at m h)" "0 < bytes"
    and rec: "read_bytes m start 16 = encode_entry (CbForward h es)"
    and run: "parse_records m start bytes 0 ci = Some y"
  shows False
proof -
  have sz: "read_u32 m (start + 4) = 16"
    using read_u32_slice [of 4 16 m start] encoded_size [of "CbForward h es"]
    by (simp add: rec length_encode_entry)
  have forward: "parse_record follow (encode_entry (CbForward h es)) i = follow h i" for follow i
    by (simp add: parse_record_def Let_def encode_tag length_encode_entry encode_fields field_simps_cb cb_tags)
  have "\<not> (m = m \<and> start = start \<and> bytes = bytes \<and> (0::u32) = 0)"
  proof (rule parse_records.raw_induct [OF _ run, of
        "\<lambda>m' start' bytes' off' _ _. \<not> (m' = m \<and> start' = start \<and> bytes' = bytes \<and> off' = 0)"], rule notI)
    fix f m' start' bytes' off' ci' y'
    assume ih: "\<And>m' start' bytes' off' ci' y'. f m' start' bytes' off' ci' = Some y' \<Longrightarrow>
        \<not> (m' = m \<and> start' = start \<and> bytes' = bytes \<and> off' = 0)"
      and body: "(if off' < bytes' then
        let record_ptr = start' + ucast off'; record_size = read_u32 m' (record_ptr + 4)
        in if record_size < 8 then Some ci'
           else Option.bind
             (parse_record
                (\<lambda>addr i.
                   case find_header m' addr of
                     None \<Rightarrow> Some i
                   | Some h \<Rightarrow>
                       if cb_signature (cb_header_at m' h) \<noteq> LBIO then Some i
                       else f m' (h + ucast (header_bytes (cb_header_at m' h)))
                              (table_bytes (cb_header_at m' h)) 0 i)
                (read_bytes m' record_ptr (unat record_size)) ci')
             (\<lambda>i. f m' start' bytes' (off' + record_size) i)
      else Some ci') = Some y'"
      and eq: "m' = m \<and> start' = start \<and> bytes' = bytes \<and> off' = 0"
    have "\<exists>z. f m start bytes 0 ci' = Some z"
      using body eq sz rec bytes sig start by (auto simp: forward find_header_def Let_def bind_eq_Some_conv)
    then show False
      using ih by blast
  qed
  then show False
    by simp
qed

theorem self_forward_never_returns:
  assumes "cb_signature (cb_header_at m h) = LBIO" and "0 < table_bytes (cb_header_at m h)" and "h \<noteq> 0"
    and "read_bytes m (h + ucast (header_bytes (cb_header_at m h))) 16 = encode_entry (CbForward h es)"
  shows "parse m h = None"
  using self_forward_has_no_result [OF assms(1) refl refl assms(2,4)] assms(1,3)
  by (cases "parse_table m h coreboot_info_new") (auto simp: parse_def find_header_def parse_table_def)

end
