(* ===== verification/Device_Path.thy ===== *)
theory Device_Path
  imports Pool
begin

text \<open>
  Construction of device paths: \<open>src/src/efi/protocols/device_path.rs\<close>.

  The structures are packed, so a structure is the concatenation of its fields and its size is the number of
  its bytes. The header types, the type codes and the structure \<open>HardDriveMedia\<close> come from the \<open>r_efi\<close>
  crate; \<open>r_dp\<close> is what the code uses of it.
\<close>

section \<open>Nodes\<close>

record dp_header =
  dp_type :: u8
  dp_sub_type :: u8
  dp_length :: "u8 list"

record hard_drive_media =
  hd_header :: dp_header
  hd_partition_number :: u32
  hd_partition_start :: u64
  hd_partition_size :: u64
  hd_partition_signature :: "u8 list"
  hd_partition_format :: u8
  hd_signature_type :: u8

record r_dp =
  r_TYPE_END :: u8
  r_TYPE_MEDIA :: u8
  r_SUBTYPE_ENTIRE :: u8
  r_SUBTYPE_HARDDRIVE :: u8
  r_SUBTYPE_FILE_PATH :: u8
  r_end_size :: nat
  r_end_encode :: "dp_header \<Rightarrow> u8 list"
  r_hd_size :: nat
  r_hd_encode :: "hard_drive_media \<Rightarrow> u8 list"

definition SIGNATURE_TYPE_GUID :: u8 where "SIGNATURE_TYPE_GUID = 0x02"
definition PARTITION_FORMAT_GPT :: u8 where "PARTITION_FORMAT_GPT = 0x02"
definition TYPE_MESSAGING :: u8 where "TYPE_MESSAGING = 0x03"
definition SUBTYPE_USB :: u8 where "SUBTYPE_USB = 0x05"
definition TYPE_ACPI :: u8 where "TYPE_ACPI = 0x02"
definition SUBTYPE_ACPI :: u8 where "SUBTYPE_ACPI = 0x01"
definition TYPE_HARDWARE :: u8 where "TYPE_HARDWARE = 0x01"
definition SUBTYPE_PCI :: u8 where "SUBTYPE_PCI = 0x01"
definition SUBTYPE_NVME :: u8 where "SUBTYPE_NVME = 0x17"
definition SUBTYPE_SATA :: u8 where "SUBTYPE_SATA = 0x12"
definition SUBTYPE_CDROM :: u8 where "SUBTYPE_CDROM = 0x02"

definition EISA_PNP_ID_PCI_ROOT :: u32 where
  "EISA_PNP_ID_PCI_ROOT = 0x0a0341d0"

lemmas dp_codes = SIGNATURE_TYPE_GUID_def PARTITION_FORMAT_GPT_def TYPE_MESSAGING_def SUBTYPE_USB_def
  TYPE_ACPI_def SUBTYPE_ACPI_def TYPE_HARDWARE_def SUBTYPE_PCI_def SUBTYPE_NVME_def SUBTYPE_SATA_def
  SUBTYPE_CDROM_def EISA_PNP_ID_PCI_ROOT_def

abbreviation le16 :: "u16 \<Rightarrow> u8 list" where "le16 w \<equiv> le_bytes 2 (unat w)"
abbreviation le32 :: "u32 \<Rightarrow> u8 list" where "le32 w \<equiv> le_bytes 4 (unat w)"
abbreviation le64 :: "u64 \<Rightarrow> u8 list" where "le64 w \<equiv> le_bytes 8 (unat w)"

record acpi_node =
  acpi_header :: dp_header
  acpi_hid :: u32
  acpi_uid :: u32

record pci_node =
  pci_header :: dp_header
  pci_function :: u8
  pci_device :: u8

record usb_node =
  usb_header :: dp_header
  usb_parent_port :: u8
  usb_interface :: u8

record nvme_node =
  nvme_header :: dp_header
  nvme_namespace_id :: u32
  nvme_eui64 :: "u8 list"

record sata_node =
  sata_header :: dp_header
  sata_hba_port :: u16
  sata_port_multiplier_port :: u16
  sata_lun :: u16

record cdrom_node =
  cdrom_header :: dp_header
  cdrom_boot_entry :: u32
  cdrom_partition_start :: u64
  cdrom_partition_size :: u64

text \<open>The layout of the structures. The first three fields of every node are the header.\<close>

definition header_bytes_of :: "dp_header \<Rightarrow> u8 list" where
  "header_bytes_of h = dp_type h # dp_sub_type h # dp_length h"

definition acpi_bytes :: "acpi_node \<Rightarrow> u8 list" where
  "acpi_bytes n = header_bytes_of (acpi_header n) @ le32 (acpi_hid n) @ le32 (acpi_uid n)"

definition pci_bytes :: "pci_node \<Rightarrow> u8 list" where
  "pci_bytes n = header_bytes_of (pci_header n) @ [pci_function n, pci_device n]"

definition usb_bytes :: "usb_node \<Rightarrow> u8 list" where
  "usb_bytes n = header_bytes_of (usb_header n) @ [usb_parent_port n, usb_interface n]"

definition nvme_bytes :: "nvme_node \<Rightarrow> u8 list" where
  "nvme_bytes n = header_bytes_of (nvme_header n) @ le32 (nvme_namespace_id n) @ nvme_eui64 n"

definition sata_bytes :: "sata_node \<Rightarrow> u8 list" where
  "sata_bytes n =
     header_bytes_of (sata_header n) @ le16 (sata_hba_port n) @ le16 (sata_port_multiplier_port n) @ le16 (sata_lun n)"

definition cdrom_bytes :: "cdrom_node \<Rightarrow> u8 list" where
  "cdrom_bytes n =
     header_bytes_of (cdrom_header n) @ le32 (cdrom_boot_entry n) @ le64 (cdrom_partition_start n) @
     le64 (cdrom_partition_size n)"

text \<open>The length field is \<open>(size_of::<Self>() as u16).to_le_bytes()\<close>.\<close>

definition length_field :: "nat \<Rightarrow> u8 list" where
  "length_field n = le16 (of_nat n)"

definition acpi_node_new :: "u32 \<Rightarrow> acpi_node" where
  "acpi_node_new uid =
     \<lparr>acpi_header = \<lparr>dp_type = TYPE_ACPI, dp_sub_type = SUBTYPE_ACPI, dp_length = length_field 12\<rparr>,
      acpi_hid = EISA_PNP_ID_PCI_ROOT, acpi_uid = uid\<rparr>"

definition pci_node_new :: "u8 \<Rightarrow> u8 \<Rightarrow> pci_node" where
  "pci_node_new device function =
     \<lparr>pci_header = \<lparr>dp_type = TYPE_HARDWARE, dp_sub_type = SUBTYPE_PCI, dp_length = length_field 6\<rparr>,
      pci_function = function, pci_device = device\<rparr>"

definition usb_node_new :: "u8 \<Rightarrow> u8 \<Rightarrow> usb_node" where
  "usb_node_new port interface =
     \<lparr>usb_header = \<lparr>dp_type = TYPE_MESSAGING, dp_sub_type = SUBTYPE_USB, dp_length = length_field 6\<rparr>,
      usb_parent_port = port, usb_interface = interface\<rparr>"

definition nvme_node_new :: "u32 \<Rightarrow> nvme_node" where
  "nvme_node_new namespace_id =
     \<lparr>nvme_header = \<lparr>dp_type = TYPE_MESSAGING, dp_sub_type = SUBTYPE_NVME, dp_length = length_field 16\<rparr>,
      nvme_namespace_id = namespace_id, nvme_eui64 = replicate 8 0\<rparr>"

definition sata_node_new :: "u16 \<Rightarrow> sata_node" where
  "sata_node_new port =
     \<lparr>sata_header = \<lparr>dp_type = TYPE_MESSAGING, dp_sub_type = SUBTYPE_SATA, dp_length = length_field 10\<rparr>,
      sata_hba_port = port, sata_port_multiplier_port = 0xFFFF, sata_lun = 0\<rparr>"

definition cdrom_node_new :: "r_dp \<Rightarrow> u32 \<Rightarrow> u64 \<Rightarrow> u64 \<Rightarrow> cdrom_node" where
  "cdrom_node_new r boot_entry partition_start partition_size =
     \<lparr>cdrom_header = \<lparr>dp_type = r_TYPE_MEDIA r, dp_sub_type = SUBTYPE_CDROM, dp_length = length_field 24\<rparr>,
      cdrom_boot_entry = boot_entry, cdrom_partition_start = partition_start,
      cdrom_partition_size = partition_size\<rparr>"

definition create_end_node :: "r_dp \<Rightarrow> u8 list" where
  "create_end_node r =
     r_end_encode r \<lparr>dp_type = r_TYPE_END r, dp_sub_type = r_SUBTYPE_ENTIRE r, dp_length = length_field (r_end_size r)\<rparr>"

definition create_hard_drive_node :: "r_dp \<Rightarrow> u32 \<Rightarrow> u64 \<Rightarrow> u64 \<Rightarrow> u8 list \<Rightarrow> u8 list" where
  "create_hard_drive_node r partition_number partition_start partition_size partition_guid =
     r_hd_encode r
       \<lparr>hd_header = \<lparr>dp_type = r_TYPE_MEDIA r, dp_sub_type = r_SUBTYPE_HARDDRIVE r,
                     dp_length = length_field (r_hd_size r)\<rparr>,
        hd_partition_number = partition_number, hd_partition_start = partition_start,
        hd_partition_size = partition_size, hd_partition_signature = partition_guid,
        hd_partition_format = PARTITION_FORMAT_GPT, hd_signature_type = SIGNATURE_TYPE_GUID\<rparr>"

section \<open>Paths\<close>

text \<open>
  Every constructor allocates the structure from the pool, writes it and returns the pointer, or a null
  pointer when the allocation fails.
\<close>

type_synonym dp_result = "(memory_allocator \<times> memory \<times> u64) may_panic"

definition place_path :: "memory_allocator \<Rightarrow> memory \<Rightarrow> u8 list \<Rightarrow> dp_result" where
  "place_path s m bs =
     (case allocate_pool s m BootServicesData (of_nat (length bs)) of
        None \<Rightarrow> None
      | Some (s', m', Err _) \<Rightarrow> Some (s', m', 0)
      | Some (s', m', Ok p) \<Rightarrow> Some (s', write_bytes m' p bs, p))"

definition create_hard_drive_device_path ::
    "r_dp \<Rightarrow> memory_allocator \<Rightarrow> memory \<Rightarrow> u32 \<Rightarrow> u64 \<Rightarrow> u64 \<Rightarrow> u8 list \<Rightarrow> dp_result" where
  "create_hard_drive_device_path r s m pnum pstart psize pguid =
     place_path s m (create_hard_drive_node r pnum pstart psize pguid @ create_end_node r)"

definition create_usb_device_path :: "r_dp \<Rightarrow> memory_allocator \<Rightarrow> memory \<Rightarrow> u8 \<Rightarrow> u8 \<Rightarrow> u8 \<Rightarrow> dp_result" where
  "create_usb_device_path r s m dev func usb_port =
     place_path s m
       (acpi_bytes (acpi_node_new 0) @ pci_bytes (pci_node_new dev func) @
        usb_bytes (usb_node_new usb_port 0) @ create_end_node r)"

definition create_usb_partition_device_path ::
    "r_dp \<Rightarrow> memory_allocator \<Rightarrow> memory \<Rightarrow> u8 \<Rightarrow> u8 \<Rightarrow> u8 \<Rightarrow> u32 \<Rightarrow> u64 \<Rightarrow> u64 \<Rightarrow> u8 list \<Rightarrow> dp_result" where
  "create_usb_partition_device_path r s m dev func usb_port pnum pstart psize pguid =
     place_path s m
       (acpi_bytes (acpi_node_new 0) @ pci_bytes (pci_node_new dev func) @
        usb_bytes (usb_node_new usb_port 0) @ create_hard_drive_node r pnum pstart psize pguid @
        create_end_node r)"

definition create_end_device_path :: "r_dp \<Rightarrow> memory_allocator \<Rightarrow> memory \<Rightarrow> dp_result" where
  "create_end_device_path r s m = place_path s m (create_end_node r)"

definition create_nvme_device_path :: "r_dp \<Rightarrow> memory_allocator \<Rightarrow> memory \<Rightarrow> u8 \<Rightarrow> u8 \<Rightarrow> u32 \<Rightarrow> dp_result" where
  "create_nvme_device_path r s m dev func namespace_id =
     place_path s m
       (acpi_bytes (acpi_node_new 0) @ pci_bytes (pci_node_new dev func) @
        nvme_bytes (nvme_node_new namespace_id) @ create_end_node r)"

definition create_nvme_partition_device_path ::
    "r_dp \<Rightarrow> memory_allocator \<Rightarrow> memory \<Rightarrow> u8 \<Rightarrow> u8 \<Rightarrow> u32 \<Rightarrow> u32 \<Rightarrow> u64 \<Rightarrow> u64 \<Rightarrow> u8 list \<Rightarrow> dp_result" where
  "create_nvme_partition_device_path r s m dev func namespace_id pnum pstart psize pguid =
     place_path s m
       (acpi_bytes (acpi_node_new 0) @ pci_bytes (pci_node_new dev func) @
        nvme_bytes (nvme_node_new namespace_id) @ create_hard_drive_node r pnum pstart psize pguid @
        create_end_node r)"

definition create_sata_device_path :: "r_dp \<Rightarrow> memory_allocator \<Rightarrow> memory \<Rightarrow> u8 \<Rightarrow> u8 \<Rightarrow> u16 \<Rightarrow> dp_result" where
  "create_sata_device_path r s m dev func port =
     place_path s m
       (acpi_bytes (acpi_node_new 0) @ pci_bytes (pci_node_new dev func) @
        sata_bytes (sata_node_new port) @ create_end_node r)"

definition create_sata_partition_device_path ::
    "r_dp \<Rightarrow> memory_allocator \<Rightarrow> memory \<Rightarrow> u8 \<Rightarrow> u8 \<Rightarrow> u16 \<Rightarrow> u32 \<Rightarrow> u64 \<Rightarrow> u64 \<Rightarrow> u8 list \<Rightarrow> dp_result" where
  "create_sata_partition_device_path r s m dev func port pnum pstart psize pguid =
     place_path s m
       (acpi_bytes (acpi_node_new 0) @ pci_bytes (pci_node_new dev func) @
        sata_bytes (sata_node_new port) @ create_hard_drive_node r pnum pstart psize pguid @
        create_end_node r)"

definition create_sata_cdrom_device_path ::
    "r_dp \<Rightarrow> memory_allocator \<Rightarrow> memory \<Rightarrow> u8 \<Rightarrow> u8 \<Rightarrow> u16 \<Rightarrow> u32 \<Rightarrow> u64 \<Rightarrow> u64 \<Rightarrow> dp_result" where
  "create_sata_cdrom_device_path r s m dev func port entry pstart psize =
     place_path s m
       (acpi_bytes (acpi_node_new 0) @ pci_bytes (pci_node_new dev func) @
        sata_bytes (sata_node_new port) @ cdrom_bytes (cdrom_node_new r entry pstart psize) @
        create_end_node r)"

definition create_video_device_path :: "r_dp \<Rightarrow> memory_allocator \<Rightarrow> memory \<Rightarrow> dp_result" where
  "create_video_device_path r s m = place_path s m (acpi_bytes (acpi_node_new 0) @ create_end_node r)"

section \<open>File paths\<close>

text \<open>
  A \<open>&str\<close> is the list of its characters as code points; its \<open>len()\<close> counts the bytes of its UTF-8
  encoding. The characters are stored as 16-bit units, one after the other, and the terminator at the
  position given by \<open>len()\<close>; the bytes in between keep what the memory held.
\<close>

definition utf8_length :: "u32 \<Rightarrow> nat" where
  "utf8_length c = (if c < 0x80 then 1 else if c < 0x800 then 2 else if c < 0x10000 then 3 else 4)"

definition str_len :: "u32 list \<Rightarrow> nat" where
  "str_len path = sum_list (map utf8_length path)"

definition path_char :: "u32 \<Rightarrow> u16" where
  "path_char c = ucast (if c = 0x2F then 0x5C else c)"

definition create_file_path_device_path :: "r_dp \<Rightarrow> memory_allocator \<Rightarrow> memory \<Rightarrow> u32 list \<Rightarrow> dp_result" where
  "create_file_path_device_path r s m path =
     (let path_size = (str_len path + 1) * 2;
          file_node_size = 4 + path_size;
          total_size = file_node_size + r_end_size r
      in case allocate_pool s m BootServicesData (of_nat total_size) of
           None \<Rightarrow> None
         | Some (s', m', Err _) \<Rightarrow> Some (s', m', 0)
         | Some (s', m', Ok p) \<Rightarrow>
             let m1 = write_bytes m' p ([r_TYPE_MEDIA r, r_SUBTYPE_FILE_PATH r] @ length_field file_node_size);
                 m2 = write_bytes m1 (p + 4) (concat (map (\<lambda>c. le16 (path_char c)) path));
                 m3 = write_u16 m2 (p + 4 + of_nat (2 * str_len path)) 0;
                 m4 = write_bytes m3 (p + of_nat file_node_size)
                        ([r_TYPE_END r, r_SUBTYPE_ENTIRE r] @ length_field (r_end_size r))
             in Some (s', m4, p))"

end
