(* ===== verification/Device_Path_Props.thy ===== *)
theory Device_Path_Props
  imports Device_Path Boot_Props
begin

text \<open>
  What the constructed device paths are: in memory they are the nodes that describe the device, followed by
  the end node, and a client that walks them, as \<open>locate_device_path\<close> does, arrives at that end node.
\<close>

section \<open>Paths in memory\<close>

text \<open>A node is its type, its subtype and the bytes behind the header.\<close>

type_synonym dp_node = "u8 \<times> u8 \<times> u8 list"

fun dp_path :: "memory \<Rightarrow> u64 \<Rightarrow> dp_node list \<Rightarrow> bool" where
  "dp_path m a [] \<longleftrightarrow> m a = 0x7F \<and> m (a + 1) = 0xFF \<and> read_u16 m (a + 2) = 4"
| "dp_path m a ((t, st, d) # ns) \<longleftrightarrow>
     m a = t \<and> m (a + 1) = st \<and> (t, st) \<noteq> (0x7F, 0xFF) \<and> 4 + length d < 2 ^ 16 \<and>
     read_u16 m (a + 2) = of_nat (4 + length d) \<and> read_bytes m (a + 4) (length d) = d \<and>
     dp_path m (a + of_nat (4 + length d)) ns"

definition node_size :: "dp_node \<Rightarrow> nat" where
  "node_size n = 4 + length (snd (snd n))"

lemma dp_path_nodes: "dp_path m a ns \<Longrightarrow> dp_nodes m a (map (of_nat \<circ> node_size) ns)"
proof (induction m a ns rule: dp_path.induct)
  case (2 m a t st d ns)
  have "unat (of_nat (4 + length d) :: u16) = 4 + length d"
    using 2(2) by (simp add: unat_of_nat del: of_nat_add)
  then have "ucast (of_nat (4 + length d) :: u16) = (of_nat (4 + length d) :: u64)"
    "(4::u16) \<le> of_nat (4 + length d)"
    by (metis of_nat_unat, simp add: word_le_nat_alt)
  then show ?case
    using 2 by (auto simp: node_size_def)
qed simp

lemma sum_list_of_nat_map: "sum_list (map (\<lambda>x. of_nat (f x)) xs) = of_nat (sum_list (map f xs))"
  by (induction xs) simp_all

text \<open>Walking such a path ends at its end node.\<close>

lemma dp_path_end:
  assumes "dp_path m a ns"
  shows "dp_end m a = Some (a + of_nat (sum_list (map node_size ns)))"
proof -
  have "unat (of_nat (node_size n) :: u16) = node_size n" if "n \<in> set ns" for n
    using assms that
  proof (induction m a ns rule: dp_path.induct)
    case (2 m a t st d ns)
    then show ?case
      by (auto simp: node_size_def unat_of_nat simp del: of_nat_add)
  qed simp
  then have "ucast (of_nat (node_size n) :: u16) = (of_nat (node_size n) :: u64)" if "n \<in> set ns" for n
    using that by (metis of_nat_unat)
  then have "map (ucast \<circ> ((of_nat :: nat \<Rightarrow> u16) \<circ> node_size)) ns = map (\<lambda>n. of_nat (node_size n) :: u64) ns"
    by simp
  then show ?thesis
    using dp_end_nodes [OF dp_path_nodes [OF assms]] by (simp only: map_map sum_list_of_nat_map)
qed

section \<open>Bytes of a path\<close>

definition node_bytes :: "dp_node \<Rightarrow> u8 list" where
  "node_bytes n = (case n of (t, st, d) \<Rightarrow> [t, st] @ length_field (4 + length d) @ d)"

definition path_bytes :: "dp_node list \<Rightarrow> u8 list" where
  "path_bytes ns = concat (map node_bytes ns) @ [0x7F, 0xFF, 4, 0]"

lemma length_length_field [simp]: "length (length_field n) = 2"
  by (simp add: length_field_def)

lemma length_node_bytes [simp]: "length (node_bytes n) = node_size n"
  by (auto simp: node_bytes_def node_size_def split: prod.split)

lemma read_bytes_Suc: "read_bytes m a (Suc n) = m a # read_bytes m (a + 1) n"
  by (simp add: read_bytes_def upt_conv_Cons map_Suc_upt [symmetric] del: upt_Suc)
     (simp add: comp_def algebra_simps)

lemma read_bytes_append: "read_bytes m a (k + n) = read_bytes m a k @ read_bytes m (a + of_nat k) n"
proof (induction k arbitrary: a)
  case 0
  then show ?case by (simp add: read_bytes_def)
next
  case (Suc k)
  then show ?case by (simp add: read_bytes_Suc algebra_simps)
qed

lemma read_bytes_4: "read_bytes m a (4 + n) = m a # m (a + 1) # read_bytes m (a + 2) 2 @ read_bytes m (a + 4) n"
proof -
  have "read_bytes m a 2 = [m a, m (a + 1)]"
    by (simp add: read_bytes_def numeral_2_eq_2)
  moreover have "read_bytes m a (4 + n) = read_bytes m a (2 + (2 + n))"
    by (simp only: numeral_plus_numeral semiring_norm flip: add.assoc)
  ultimately show ?thesis
    by (simp only: read_bytes_append) (simp add: add.assoc)
qed

definition node_ok :: "dp_node \<Rightarrow> bool" where
  "node_ok n \<longleftrightarrow> (fst n, fst (snd n)) \<noteq> (0x7F, 0xFF) \<and> node_size n < 2 ^ 16"

lemma path_in_memory:
  assumes "read_bytes m a (length (path_bytes ns)) = path_bytes ns" and "\<forall>n \<in> set ns. node_ok n"
  shows "dp_path m a ns"
  using assms
proof (induction ns arbitrary: a)
  case Nil
  then show ?case
    by (simp add: path_bytes_def read_bytes_Suc read_u16_def numeral_eq_Suc)
       (simp add: read_bytes_def add.commute [of a])
next
  case (Cons n ns)
  obtain t st d where n: "n = (t, st, d)"
    by (cases n)
  have "path_bytes (n # ns) = node_bytes n @ path_bytes ns"
    by (simp add: path_bytes_def)
  then have split: "read_bytes m a (node_size n) = node_bytes n"
    "read_bytes m (a + of_nat (node_size n)) (length (path_bytes ns)) = path_bytes ns"
    using Cons.prems(1) by (simp_all add: read_bytes_append)
  have "read_bytes m a (4 + length d) = t # st # length_field (4 + length d) @ d"
    using split(1) by (simp add: n node_size_def node_bytes_def)
  then have "m a = t" "m (a + 1) = st" "read_bytes m (a + 2) 2 = length_field (4 + length d)"
    "read_bytes m (a + 4) (length d) = d"
    by (simp_all add: read_bytes_4)
  moreover have "node_ok n"
    using Cons.prems(2) by simp
  ultimately show ?case
    using Cons.IH [OF split(2)] Cons.prems(2)
    by (auto simp: n node_ok_def node_size_def read_u16_def length_field_def le_nat_le_bytes unat_of_nat
        simp del: of_nat_add)
qed

section \<open>Requests\<close>

text \<open>What the firmware uses of the crate \<open>r_efi\<close>: the codes and the packed structures of the UEFI specification.\<close>

definition r_dp_ok :: "r_dp \<Rightarrow> bool" where
  "r_dp_ok r \<longleftrightarrow>
     r_TYPE_END r = 0x7F \<and> r_TYPE_MEDIA r = 4 \<and> r_SUBTYPE_ENTIRE r = 0xFF \<and> r_SUBTYPE_HARDDRIVE r = 1 \<and>
     r_SUBTYPE_FILE_PATH r = 4 \<and> r_end_size r = 4 \<and> (\<forall>h. r_end_encode r h = header_bytes_of h) \<and> r_hd_size r = 42 \<and>
     (\<forall>n. r_hd_encode r n = header_bytes_of (hd_header n) @ le32 (hd_partition_number n) @
        le64 (hd_partition_start n) @ le64 (hd_partition_size n) @ hd_partition_signature n @
        [hd_partition_format n, hd_signature_type n])"

datatype dp_device = NoDevice | UsbDevice u8 u8 u8 | NvmeDevice u8 u8 u32 | SataDevice u8 u8 u16

datatype dp_request =
    HardDrivePath u32 u64 u64 "u8 list"
  | DiskPath dp_device
  | PartitionPath dp_device u32 u64 u64 "u8 list"
  | CdromPath u8 u8 u16 u32 u64 u64
  | VideoPath
  | FilePath "u32 list"

fun create_path :: "r_dp \<Rightarrow> memory_allocator \<Rightarrow> memory \<Rightarrow> dp_request \<Rightarrow> dp_result" where
  "create_path r s m (HardDrivePath n a z g) = create_hard_drive_device_path r s m n a z g"
| "create_path r s m (DiskPath NoDevice) = create_end_device_path r s m"
| "create_path r s m (DiskPath (UsbDevice d f p)) = create_usb_device_path r s m d f p"
| "create_path r s m (DiskPath (NvmeDevice d f ns)) = create_nvme_device_path r s m d f ns"
| "create_path r s m (DiskPath (SataDevice d f p)) = create_sata_device_path r s m d f p"
| "create_path r s m (PartitionPath NoDevice n a z g) = create_hard_drive_device_path r s m n a z g"
| "create_path r s m (PartitionPath (UsbDevice d f p) n a z g) = create_usb_partition_device_path r s m d f p n a z g"
| "create_path r s m (PartitionPath (NvmeDevice d f ns) n a z g) = create_nvme_partition_device_path r s m d f ns n a z g"
| "create_path r s m (PartitionPath (SataDevice d f p) n a z g) = create_sata_partition_device_path r s m d f p n a z g"
| "create_path r s m (CdromPath d f p e a z) = create_sata_cdrom_device_path r s m d f p e a z"
| "create_path r s m VideoPath = create_video_device_path r s m"
| "create_path r s m (FilePath path) = create_file_path_device_path r s m path"

text \<open>The nodes of the UEFI specification for these requests.\<close>

definition acpi_root :: dp_node where
  "acpi_root = (2, 1, le32 0x0A0341D0 @ le32 0)"

fun device_nodes :: "dp_device \<Rightarrow> dp_node list" where
  "device_nodes NoDevice = []"
| "device_nodes (UsbDevice d f p) = [acpi_root, (1, 1, [f, d]), (3, 5, [p, 0])]"
| "device_nodes (NvmeDevice d f ns) = [acpi_root, (1, 1, [f, d]), (3, 0x17, le32 ns @ replicate 8 0)]"
| "device_nodes (SataDevice d f p) = [acpi_root, (1, 1, [f, d]), (3, 0x12, le16 p @ [0xFF, 0xFF, 0, 0])]"

definition gpt_node :: "u32 \<Rightarrow> u64 \<Rightarrow> u64 \<Rightarrow> u8 list \<Rightarrow> dp_node" where
  "gpt_node n a z g = (4, 1, le32 n @ le64 a @ le64 z @ g @ [2, 2])"

fun request_nodes :: "dp_request \<Rightarrow> dp_node list" where
  "request_nodes (HardDrivePath n a z g) = [gpt_node n a z g]"
| "request_nodes (DiskPath dev) = device_nodes dev"
| "request_nodes (PartitionPath dev n a z g) = device_nodes dev @ [gpt_node n a z g]"
| "request_nodes (CdromPath d f p e a z) = device_nodes (SataDevice d f p) @ [(4, 2, le32 e @ le64 a @ le64 z)]"
| "request_nodes VideoPath = [acpi_root]"
| "request_nodes (FilePath path) =
     [(4, 4, concat (map (\<lambda>c. le16 (if c = 0x2F then 0x5C else ucast c)) path) @ [0, 0])]"

text \<open>A partition GUID has sixteen bytes; a file path is ASCII and fits a node.\<close>

fun dp_request_ok :: "dp_request \<Rightarrow> bool" where
  "dp_request_ok (HardDrivePath n a z g) \<longleftrightarrow> length g = 16"
| "dp_request_ok (PartitionPath dev n a z g) \<longleftrightarrow> length g = 16"
| "dp_request_ok (FilePath path) \<longleftrightarrow> (\<forall>c \<in> set path. c < 0x80) \<and> 2 * length path + 6 < 2 ^ 16"
| "dp_request_ok _ \<longleftrightarrow> True"

lemma request_nodes_ok: "dp_request_ok req \<Longrightarrow> \<forall>n \<in> set (request_nodes req). node_ok n"
proof (cases req)
  case (DiskPath dev)
  then show ?thesis
    by (cases dev) (auto simp: node_ok_def node_size_def acpi_root_def)
next
  case (PartitionPath dev n a z g)
  moreover assume "dp_request_ok req"
  ultimately show ?thesis
    by (cases dev) (auto simp: node_ok_def node_size_def acpi_root_def gpt_node_def)
qed (auto simp: node_ok_def node_size_def acpi_root_def gpt_node_def length_concat comp_def sum_list_triv)

lemma length_path_bytes: "length (path_bytes ns) = sum_list (map node_size ns) + 4"
  by (induction ns) (simp_all add: path_bytes_def)

lemma request_size:
  assumes "dp_request_ok req"
  shows "length (path_bytes (request_nodes req)) < 2 ^ 32"
proof -
  have "sum_list (map node_size ns) \<le> length ns * 2 ^ 16" if "\<forall>n \<in> set ns. node_ok n" for ns
    using that by (induction ns) (auto simp: node_ok_def)
  from this [OF request_nodes_ok [OF assms]]
  have "sum_list (map node_size (request_nodes req)) \<le> length (request_nodes req) * 2 ^ 16" .
  moreover have "length (device_nodes dev) \<le> 3" for dev
    by (cases dev) simp_all
  then have "length (request_nodes req) \<le> 4"
    by (cases req) (simp_all add: le_trans [of _ 3])
  ultimately show ?thesis
    by (simp add: length_path_bytes)
qed

lemmas dp_struct_defs = header_bytes_of_def acpi_bytes_def pci_bytes_def usb_bytes_def nvme_bytes_def
  sata_bytes_def cdrom_bytes_def acpi_node_new_def pci_node_new_def usb_node_new_def nvme_node_new_def
  sata_node_new_def cdrom_node_new_def create_end_node_def create_hard_drive_node_def

lemma le_bytes_2: "le_bytes 2 n = [of_nat n, of_nat (n div 256)]"
  by (simp add: numeral_2_eq_2)

lemma le16_constants: "length_field 4 = [4, 0]" "le_bytes 2 65535 = [0xFF, 0xFF]" "le_bytes 2 0 = [0, 0]"
  by (simp_all add: length_field_def le_bytes_2)

lemma end_node_bytes: "r_dp_ok r \<Longrightarrow> create_end_node r = [0x7F, 0xFF, 4, 0]"
  by (simp add: r_dp_ok_def create_end_node_def header_bytes_of_def le16_constants)

lemma device_struct_bytes:
  "acpi_bytes (acpi_node_new 0) = node_bytes acpi_root"
  "pci_bytes (pci_node_new d f) = node_bytes (1, 1, [f, d])"
  "usb_bytes (usb_node_new p 0) = node_bytes (3, 5, [p, 0])"
  "nvme_bytes (nvme_node_new ns) = node_bytes (3, 0x17, le32 ns @ replicate 8 0)"
  "sata_bytes (sata_node_new q) = node_bytes (3, 0x12, le16 q @ [0xFF, 0xFF, 0, 0])"
  by (simp_all add: dp_struct_defs node_bytes_def acpi_root_def dp_codes le16_constants)

lemma media_struct_bytes:
  assumes "r_dp_ok r"
  shows "cdrom_bytes (cdrom_node_new r e a z) = node_bytes (4, 2, le32 e @ le64 a @ le64 z)"
    and "length g = 16 \<Longrightarrow> create_hard_drive_node r n a z g = node_bytes (gpt_node n a z g)"
  using assms by (simp_all add: dp_struct_defs node_bytes_def gpt_node_def dp_codes r_dp_ok_def)

lemma create_path_places:
  assumes "r_dp_ok r" and "dp_request_ok req" and "\<nexists>path. req = FilePath path"
  shows "create_path r s m req = place_path s m (path_bytes (request_nodes req))"
proof -
  have "create_path r s m (PartitionPath dev n a z g) =
      place_path s m (path_bytes (request_nodes (PartitionPath dev n a z g)))" if "length g = 16" for dev n a z g
    using that assms(1) media_struct_bytes(2) [OF assms(1) that]
    by (cases dev) (simp_all add: path_bytes_def create_hard_drive_device_path_def create_usb_partition_device_path_def
        create_nvme_partition_device_path_def create_sata_partition_device_path_def end_node_bytes device_struct_bytes)
  moreover have "create_path r s m (DiskPath dev) = place_path s m (path_bytes (request_nodes (DiskPath dev)))" for dev
    using assms(1)
    by (cases dev) (simp_all add: path_bytes_def create_end_device_path_def create_usb_device_path_def
        create_nvme_device_path_def create_sata_device_path_def end_node_bytes device_struct_bytes)
  ultimately show ?thesis
    using assms media_struct_bytes [OF assms(1)]
    by (cases req) (simp_all add: path_bytes_def create_hard_drive_device_path_def create_sata_cdrom_device_path_def
        create_video_device_path_def end_node_bytes device_struct_bytes)
qed

lemma write_bytes_append:
  assumes "length as + length bs < 2 ^ 64"
  shows "write_bytes (write_bytes m p as) (p + of_nat (length as)) bs = write_bytes m p (as @ bs)"
proof
  fix x
  have "unat (of_nat (length as) :: u64) = length as"
    using assms by (simp add: unat_of_nat)
  then have "unat (d - of_nat (length as)) =
      (if length as \<le> unat d then unat d - length as else unat d + 2 ^ 64 - length as)" for d :: u64
    by (simp add: unat_sub_if')
  from this [of "x - p"] have "unat (x - (p + of_nat (length as))) =
      (if length as \<le> unat (x - p) then unat (x - p) - length as else unat (x - p) + 2 ^ 64 - length as)"
    by (simp only: diff_diff_eq)
  then show "write_bytes (write_bytes m p as) (p + of_nat (length as)) bs x = write_bytes m p (as @ bs) x"
    using assms by (auto simp: write_bytes_def nth_append)
qed

lemma create_file_path_places:
  assumes r: "r_dp_ok r" and ok: "dp_request_ok (FilePath path)"
  shows "create_file_path_device_path r s m path = place_path s m (path_bytes (request_nodes (FilePath path)))"
proof -
  let ?chars = "concat (map (\<lambda>c. le16 (path_char c)) path)"
  let ?head = "[r_TYPE_MEDIA r, r_SUBTYPE_FILE_PATH r] @ length_field (4 + (length path + 1) * 2)"
  let ?fin = "[r_TYPE_END r, r_SUBTYPE_ENTIRE r] @ length_field (r_end_size r)"
  have len: "str_len path = length path"
    using ok unfolding str_len_def by (induction path) (auto simp: utf8_length_def)
  have lc: "length ?chars = 2 * length path"
    by (simp add: length_concat comp_def sum_list_triv)
  have chars: "concat (map (\<lambda>c. le16 (if c = 0x2F then 0x5C else ucast c)) path) = ?chars"
    by (auto simp: path_char_def intro!: arg_cong [where f = concat])
  have bytes: "path_bytes (request_nodes (FilePath path)) = ?head @ ?chars @ [0, 0] @ ?fin"
    using r lc by (simp add: path_bytes_def node_bytes_def chars le16_constants r_dp_ok_def mult.commute)
  have small: "length path < 2 ^ 16"
    using ok by simp
  have w: "write_bytes (write_u16 (write_bytes (write_bytes m' p ?head) (p + 4) ?chars)
        (p + 4 + of_nat (2 * length path)) 0) (p + of_nat (4 + (length path + 1) * 2)) ?fin =
      write_bytes m' p (?head @ ?chars @ [0, 0] @ ?fin)" for m' p
  proof -
    have "write_bytes (write_bytes m' p ?head) (p + 4) ?chars = write_bytes m' p (?head @ ?chars)"
      using write_bytes_append [of ?head ?chars m' p] small lc by simp
    moreover have "write_u16 (write_bytes m' p (?head @ ?chars)) (p + 4 + of_nat (2 * length path)) 0 =
        write_bytes m' p (?head @ ?chars @ [0, 0])"
      using write_bytes_append [of "?head @ ?chars" "[0, 0]" m' p] small lc
      by (simp add: write_u16_def le16_constants add.assoc)
    moreover have "write_bytes (write_bytes m' p (?head @ ?chars @ [0, 0])) (p + of_nat (4 + (length path + 1) * 2)) ?fin =
        write_bytes m' p (?head @ ?chars @ [0, 0] @ ?fin)"
      using write_bytes_append [of "?head @ ?chars @ [0, 0]" ?fin m' p] small lc by (simp add: mult.commute)
    ultimately show ?thesis
      by (simp only:)
  qed
  have total: "4 + (length path + 1) * 2 + r_end_size r = length (path_bytes (request_nodes (FilePath path)))"
    unfolding bytes using r by (simp add: lc r_dp_ok_def)
  show ?thesis
    unfolding create_file_path_device_path_def place_path_def Let_def len total w bytes ..
qed

section \<open>Placing a path\<close>

lemma pool_bytes:
  assumes inv: "alloc_inv s" and run: "allocate_pool s m t (of_nat k) = Some (s', m1, Ok p)" and k: "k < 2 ^ 32"
    and out: "same_outside p k m1 m'"
  shows "p \<noteq> 0" and "\<forall>x. (\<nexists>attr. alloc_map s x = Some (as_u32 ConventionalMemory, attr)) \<longrightarrow> m' x = m x"
proof -
  obtain n where n: "pool_pages (of_nat k) = Some n"
    and a: "allocate_pages s AllocateAnyPages t n 0 = Some (s', SUCCESS, p - 16)"
    and m1: "m1 = write_pool_header m (p - 16) n"
    using pages.pool_success [OF inv run [unfolded allocate_pool_def]] .
  note rg = pages.alloc_range [OF inv a]
  have fit: "16 + k \<le> 4096 * unat n"
    using pool_pages_SomeD(2) [OF n] k by (simp add: POOL_HEADER_SIZE_def unat_of_nat)
  show "p \<noteq> 0"
  proof
    assume "p = 0"
    then show False
      using rg fit by simp
  qed
  have "same_outside (p - 16) (16 + k) m m1"
    unfolding m1 same_outside_def by (simp add: write_pool_header_outside POOL_HEADER_SIZE_def)
  moreover have "same_outside (p - 16) (16 + k) m1 m'"
    unfolding same_outside_def
  proof (intro allI impI)
    fix x
    assume x: "16 + k \<le> unat (x - (p - 16))"
    have "unat (d - 16) = unat d - 16" if "16 \<le> unat d" for d :: u64
      using that by (simp add: unat_sub_le word_le_nat_alt)
    from this [of "x - (p - 16)"] have "unat (x - p) = unat (x - (p - 16)) - 16"
      using x by simp
    then show "m' x = m1 x"
      using x out by (simp add: same_outside_def)
  qed
  ultimately have "same_outside (p - 16) (16 + k) m m'"
    by (rule same_outside_trans)
  then show "\<forall>x. (\<nexists>attr. alloc_map s x = Some (as_u32 ConventionalMemory, attr)) \<longrightarrow> m' x = m x"
    using outside_pages [OF _ fit, of "p - 16" "alloc_map s"] rg by blast
qed

lemma place_path_effect:
  assumes inv: "alloc_inv s" and bs: "length bs < 2 ^ 32"
  shows "\<exists>s' m' p. place_path s m bs = Some (s', m', p) \<and> alloc_inv s' \<and>
    (p = 0 \<and> s' = s \<and> m' = m \<or>
     p \<noteq> 0 \<and> read_bytes m' p (length bs) = bs \<and>
     (\<forall>x. (\<nexists>attr. alloc_map s x = Some (as_u32 ConventionalMemory, attr)) \<longrightarrow> m' x = m x))"
proof -
  obtain s' m1 r where run: "allocate_pool s m BootServicesData (of_nat (length bs)) = Some (s', m1, r)"
    and inv': "alloc_inv s'" and err: "\<forall>e. r = Err e \<longrightarrow> s' = s \<and> m1 = m"
    using pages.pool_total [OF inv, of m BootServicesData "of_nat (length bs)"] unfolding allocate_pool_def by blast
  show ?thesis
  proof (cases r)
    case (Inl e)
    then show ?thesis
      using run inv' err by (simp add: place_path_def)
  next
    case (Inr p)
    have "same_outside p (length bs) m1 (write_bytes m1 p bs)"
      by (simp add: same_outside_def write_bytes_outside)
    note eff = pool_bytes [OF inv run [unfolded Inr] bs this]
    then show ?thesis
      using run Inr inv' bs by (auto simp: place_path_def read_write_same)
  qed
qed

section \<open>Properties\<close>

text \<open>C27:
  Device paths are what they claim to be: each constructor returns without panic, either a null pointer with
  nothing changed, or a new structure in memory that was free before, which is the sequence of nodes that the
  UEFI specification prescribes for the device, partition, boot image or file, closed by an end node; no memory
  that was in use is touched, and walking the path, as \<open>locate_device_path\<close> does, arrives at the end node.
\<close>

theorem device_paths_correct:
  assumes "r_dp_ok r" and "alloc_inv s" and "dp_request_ok req"
  shows "\<exists>s' m' p. create_path r s m req = Some (s', m', p) \<and> alloc_inv s' \<and>
    (p = 0 \<and> s' = s \<and> m' = m \<or>
     p \<noteq> 0 \<and> dp_path m' p (request_nodes req) \<and>
     dp_end m' p = Some (p + of_nat (sum_list (map node_size (request_nodes req)))) \<and>
     (\<forall>x. (\<nexists>attr. alloc_map s x = Some (as_u32 ConventionalMemory, attr)) \<longrightarrow> m' x = m x))"
proof -
  have "create_path r s m req = place_path s m (path_bytes (request_nodes req))"
    using create_path_places [OF assms(1,3)] create_file_path_places [OF assms(1)] assms(3)
    by (cases "\<exists>path. req = FilePath path") auto
  moreover have ok: "\<forall>n \<in> set (request_nodes req). node_ok n"
    by (rule request_nodes_ok [OF assms(3)])
  moreover obtain s' m' p where "place_path s m (path_bytes (request_nodes req)) = Some (s', m', p)" "alloc_inv s'"
    "p = 0 \<and> s' = s \<and> m' = m \<or>
     p \<noteq> 0 \<and> read_bytes m' p (length (path_bytes (request_nodes req))) = path_bytes (request_nodes req) \<and>
     (\<forall>x. (\<nexists>attr. alloc_map s x = Some (as_u32 ConventionalMemory, attr)) \<longrightarrow> m' x = m x)"
    using place_path_effect [OF assms(2) request_size [OF assms(3)]] by blast
  ultimately show ?thesis
    using path_in_memory [of m' p "request_nodes req"] dp_path_end [of m' p "request_nodes req"] by auto
qed

definition x64_dp :: r_dp where
  "x64_dp = \<lparr>r_TYPE_END = 0x7F, r_TYPE_MEDIA = 4, r_SUBTYPE_ENTIRE = 0xFF, r_SUBTYPE_HARDDRIVE = 1,
     r_SUBTYPE_FILE_PATH = 4, r_end_size = 4, r_end_encode = header_bytes_of, r_hd_size = 42,
     r_hd_encode = (\<lambda>n. header_bytes_of (hd_header n) @ le32 (hd_partition_number n) @
        le64 (hd_partition_start n) @ le64 (hd_partition_size n) @ hd_partition_signature n @
        [hd_partition_format n, hd_signature_type n])\<rparr>"

theorem device_paths_correct_witness:
  "\<exists>s' m' p. create_path x64_dp sample_allocator (\<lambda>_. 0) (FilePath [0x2F, 0x41]) = Some (s', m', p) \<and>
     (p = 0 \<or> dp_path m' p [(4, 4, [0x5C, 0, 0x41, 0, 0, 0])] \<and> dp_end m' p = Some (p + 10))"
proof -
  have "r_dp_ok x64_dp"
    by (simp add: r_dp_ok_def x64_dp_def)
  then show ?thesis
    using device_paths_correct [OF _ sample_inv, of x64_dp "FilePath [0x2F, 0x41]" "\<lambda>_. 0"]
    by (auto simp: node_size_def le_bytes_2 simp del: create_path.simps)
qed

end
