(* ===== verification/File_Protocol.thy ===== *)
theory File_Protocol
  imports Fat Variables
begin

text \<open>
  The file protocols: \<open>src/src/efi/protocols/simple_file_system.rs\<close>, with \<open>FilesystemState\<close> of
  \<open>src/src/state.rs\<close>.

  The protocol structures are fields of a static table of handles, so a pointer to one is the index of its
  handle; other pointers are indices behind the table, a null pointer is \<^const>\<open>None\<close>. The path of a handle
  is the used part of its array. A function returns \<^const>\<open>None\<close> when the file system code below it panics or
  does not return. What a failed read leaves in the buffer is not described.
\<close>

section \<open>State\<close>

definition MAX_PATH_LEN :: nat where "MAX_PATH_LEN = 256"
definition MAX_FILE_HANDLES :: nat where "MAX_FILE_HANDLES = 32"

record file_handle =
  fh_in_use :: bool
  fh_path :: "u8 list"
  fh_position :: u64
  fh_file_size :: u64
  fh_first_cluster :: u32
  fh_is_directory :: bool

definition empty_file_handle :: file_handle where
  "empty_file_handle = \<lparr>fh_in_use = False, fh_path = [], fh_position = 0, fh_file_size = 0,
     fh_first_cluster = 0, fh_is_directory = False\<rparr>"

record filesystem_state =
  fss_partition_start :: u64
  fss_fat_type :: u8
  fss_bytes_per_sector :: u16
  fss_device_block_size :: u32
  fss_sectors_per_cluster :: u8
  fss_fat_start :: u32
  fss_sectors_per_fat :: u32
  fss_data_start :: u32
  fss_root_cluster :: u32
  fss_root_dir_start :: u32
  fss_root_dir_sectors :: u32

record sfs_state =
  sfs_handles :: "file_handle list"
  sfs_filesystem :: "filesystem_state option"
  sfs_device :: "block_device option"

definition new_sfs_state :: sfs_state where
  "new_sfs_state = \<lparr>sfs_handles = replicate MAX_FILE_HANDLES empty_file_handle, sfs_filesystem = None,
     sfs_device = None\<rparr>"

text \<open>
  What the code uses of the crate \<open>r_efi\<close>: codes, GUIDs, and the structures that are filled in through the
  buffer pointer; \<open>r_info_put\<close> and \<open>r_system_info_put\<close> assign the fields.
\<close>

record file_info =
  fi_size :: u64
  fi_file_size :: u64
  fi_physical_size :: u64
  fi_attribute :: u64

record file_system_info =
  fsi_size :: u64
  fsi_read_only :: bool
  fsi_volume_size :: u64
  fsi_free_space :: u64
  fsi_block_size :: u32

record r_file =
  r_MODE_READ :: u64
  r_DIRECTORY :: u64
  r_INFO_ID :: guid
  r_SYSTEM_INFO_ID :: guid
  r_info_size :: nat
  r_info_put :: "file_info \<Rightarrow> u8 list \<Rightarrow> u8 list"
  r_system_info_size :: nat
  r_system_info_put :: "file_system_info \<Rightarrow> u8 list \<Rightarrow> u8 list"

section \<open>Helpers\<close>

definition find_handle_index :: "sfs_state \<Rightarrow> nat \<Rightarrow> nat option" where
  "find_handle_index st p =
     (if p < length (sfs_handles st) \<and> fh_in_use (sfs_handles st ! p) then Some p else None)"

definition free_slot :: "sfs_state \<Rightarrow> nat option" where
  "free_slot st = position (\<lambda>h. \<not> fh_in_use h) (sfs_handles st)"

definition set_handle :: "sfs_state \<Rightarrow> nat \<Rightarrow> file_handle \<Rightarrow> sfs_state" where
  "set_handle st i h = st\<lparr>sfs_handles := (sfs_handles st)[i := h]\<rparr>"

text \<open>\<open>utf16_to_utf8\<close> with its buffer of \<open>MAX_PATH_LEN\<close> bytes.\<close>

fun utf16_from :: "ucs2_ptr \<Rightarrow> nat \<Rightarrow> nat \<Rightarrow> u8 list" where
  "utf16_from src i 0 = []"
| "utf16_from src i (Suc n) =
     (if src i = 0 then []
      else (if src i < 128 then ucast (src i) else 0x3F) # utf16_from src (Suc i) n)"

definition utf16_to_utf8 :: "ucs2_ptr \<Rightarrow> u8 list" where
  "utf16_to_utf8 src = utf16_from src 0 (MAX_PATH_LEN - 1)"

text \<open>\<open>core::str::from_utf8(bytes).unwrap_or("")\<close>.\<close>

definition str_or_empty :: "u8 list \<Rightarrow> u8 list" where
  "str_or_empty bs = (if utf8_ok bs then bs else [])"

fun push_path :: "u8 list \<Rightarrow> u8 list \<Rightarrow> u8 list" where
  "push_path out [] = out"
| "push_path out (b # bs) =
     (if length out \<ge> MAX_PATH_LEN - 1 then out
      else push_path (out @ [if b = 0x5C then 0x2F else b]) bs)"

definition normalize_path :: "u8 list \<Rightarrow> u8 list" where
  "normalize_path path = (if path \<noteq> [] \<and> hd path = 0x2F then tl path else path)"

definition build_full_path :: "u8 list \<Rightarrow> u8 list \<Rightarrow> u8 list" where
  "build_full_path parent name =
     (let out =
        (if name \<noteq> [] \<and> (hd name = 0x5C \<or> hd name = 0x2F) then push_path [] name
         else
           let out = push_path [] (takeWhile (\<lambda>b. b \<noteq> 0) parent);
               out = (if out \<noteq> [] \<and> last out \<noteq> 0x2F \<and> length out < MAX_PATH_LEN - 1 then out @ [0x2F] else out)
           in push_path out name);
        out = (if length out > 1 \<and> last out = 0x2F then butlast out else out)
      in normalize_path out)"

text \<open>The bytes are put into a directory entry at their offsets and parsed again.\<close>

definition create_file_entry :: "u32 \<Rightarrow> u32 \<Rightarrow> directory_entry" where
  "create_file_entry cluster sz =
     (let hi = ucast (drop_bit 16 cluster) :: u16; lo = ucast cluster :: u16
      in dirent_at (replicate 20 0 @ le_bytes 2 (unat hi) @ replicate 4 0 @ le_bytes 2 (unat lo) @
                    le_bytes 4 (unat sz)) 0)"

text \<open>
  \<open>with_block_device_mut\<close> around a new \<open>FatFilesystem\<close>: \<open>Some None\<close> when there is no device, and both a
  failed mount and a failed operation are \<^term>\<open>Inl ()\<close>.
\<close>

definition with_fat ::
    "sfs_state \<Rightarrow> u64 \<Rightarrow> (fat_filesystem \<Rightarrow> (fat_error, 'a) outcome) \<Rightarrow> (unit + 'a) option option" where
  "with_fat st pstart f =
     (case sfs_device st of
        None \<Rightarrow> Some None
      | Some dev \<Rightarrow> map_option Some (map_err (\<lambda>_. ()) (and_then (fat_new dev pstart) f)))"

text \<open>The characters of a string in UTF-8.\<close>

fun utf8_chars :: "u8 list \<Rightarrow> u32 list" where
  "utf8_chars [] = []"
| "utf8_chars (b # bs) =
     (if b < 0x80 then ucast b # utf8_chars bs
      else if b < 0xE0 then
        (case bs of
           c # r \<Rightarrow> (push_bit 6 (ucast b AND 0x1F) OR (ucast c AND 0x3F)) # utf8_chars r
         | _ \<Rightarrow> [])
      else if b < 0xF0 then
        (case bs of
           c # d # r \<Rightarrow>
             (push_bit 12 (ucast b AND 0x0F) OR push_bit 6 (ucast c AND 0x3F) OR (ucast d AND 0x3F)) # utf8_chars r
         | _ \<Rightarrow> [])
      else
        (case bs of
           c # d # e # r \<Rightarrow>
             (push_bit 18 (ucast b AND 0x07) OR push_bit 12 (ucast c AND 0x3F) OR push_bit 6 (ucast d AND 0x3F)
              OR (ucast e AND 0x3F)) # utf8_chars r
         | _ \<Rightarrow> []))"

definition put_at :: "nat \<Rightarrow> u8 list \<Rightarrow> u8 list \<Rightarrow> u8 list" where
  "put_at off bs buf = take off buf @ bs @ drop (off + length bs) buf"

text \<open>The characters as 16-bit units from an offset on, and the terminator at the position \<open>len()\<close>.\<close>

definition put_name :: "nat \<Rightarrow> u8 list \<Rightarrow> u8 list \<Rightarrow> u8 list" where
  "put_name off name buf =
     put_at (off + 2 * length name) [0, 0]
       (put_at off (concat (map (\<lambda>c. le_bytes 2 (unat (ucast c :: u16))) (utf8_chars name))) buf)"

section \<open>Volume\<close>

definition sfs_init :: "block_device \<Rightarrow> u64 \<Rightarrow> sfs_state \<Rightarrow> (sfs_state \<times> bool) option" where
  "sfs_init dev pstart st =
     (case fat_new dev pstart of
        None \<Rightarrow> None
      | Some (Inl _) \<Rightarrow> Some (st, False)
      | Some (Inr fs) \<Rightarrow>
          Some (st\<lparr>sfs_filesystem := Some
                 \<lparr>fss_partition_start = pstart,
                  fss_fat_type = (case fs_type fs of Fat12 \<Rightarrow> 12 | Fat16 \<Rightarrow> 16 | Fat32 \<Rightarrow> 32),
                  fss_bytes_per_sector = 512, fss_device_block_size = block_size (info dev),
                  fss_sectors_per_cluster = 0, fss_fat_start = 0, fss_sectors_per_fat = 0, fss_data_start = 0,
                  fss_root_cluster = root_cluster fs, fss_root_dir_start = 0, fss_root_dir_sectors = 0\<rparr>,
               sfs_device := Some dev\<rparr>, True))"

definition sfs_open_volume :: "sfs_state \<Rightarrow> bool \<Rightarrow> sfs_state \<times> nat efi_result" where
  "sfs_open_volume st root_ok =
     (if \<not> root_ok then (st, Err INVALID_PARAMETER)
      else case free_slot st of
        None \<Rightarrow> (st, Err OUT_OF_RESOURCES)
      | Some i \<Rightarrow>
          (case sfs_filesystem st of
             None \<Rightarrow> (st, Err NOT_READY)
           | Some s \<Rightarrow>
               (set_handle st i
                  \<lparr>fh_in_use = True, fh_path = [], fh_position = 0, fh_file_size = 0,
                   fh_first_cluster = fss_root_cluster s, fh_is_directory = True\<rparr>, Ok i)))"

section \<open>Files\<close>

definition file_open ::
    "r_file \<Rightarrow> sfs_state \<Rightarrow> nat option \<Rightarrow> bool \<Rightarrow> ucs2_ptr option \<Rightarrow> u64 \<Rightarrow> (sfs_state \<times> nat efi_result) option" where
  "file_open r st this new_ok file_name open_mode =
     (case (this, file_name) of
        (Some p, Some src) \<Rightarrow>
          if \<not> new_ok then Some (st, Err INVALID_PARAMETER)
          else if open_mode \<noteq> r_MODE_READ r then Some (st, Err UNSUPPORTED)
          else (case find_handle_index st p of
                  None \<Rightarrow> Some (st, Err INVALID_PARAMETER)
                | Some parent \<Rightarrow>
                    let full_path = build_full_path (fh_path (sfs_handles st ! parent))
                                      (str_or_empty (utf16_to_utf8 src))
                    in case sfs_filesystem st of
                         None \<Rightarrow> Some (st, Err NOT_READY)
                       | Some s \<Rightarrow>
                           (case with_fat st (fss_partition_start s)
                                   (\<lambda>fs. find_file fs (str_or_empty full_path)) of
                              None \<Rightarrow> None
                            | Some None \<Rightarrow> Some (st, Err NOT_READY)
                            | Some (Some (Inl _)) \<Rightarrow> Some (st, Err NOT_FOUND)
                            | Some (Some (Inr entry)) \<Rightarrow>
                                (case free_slot st of
                                   None \<Rightarrow> Some (st, Err OUT_OF_RESOURCES)
                                 | Some i \<Rightarrow>
                                     Some (set_handle st i
                                       \<lparr>fh_in_use = True, fh_path = full_path, fh_position = 0,
                                        fh_file_size = ucast (file_size entry),
                                        fh_first_cluster = first_cluster entry,
                                        fh_is_directory = is_directory entry\<rparr>, Ok i))))
      | _ \<Rightarrow> Some (st, Err INVALID_PARAMETER))"

definition file_close :: "sfs_state \<Rightarrow> nat option \<Rightarrow> sfs_state \<times> efi_status" where
  "file_close st this =
     (case Option.bind this (find_handle_index st) of
        None \<Rightarrow> (st, INVALID_PARAMETER)
      | Some i \<Rightarrow>
          (set_handle st i ((sfs_handles st ! i)\<lparr>fh_in_use := False, fh_path := [], fh_position := 0\<rparr>), SUCCESS))"

text \<open>
  Reads return the status and what the size variable and the buffer hold afterwards. \<open>buf\<close> is the memory
  behind the buffer pointer, at least as long as the size says.
\<close>

type_synonym read_reply = "sfs_state \<times> efi_status \<times> nat \<times> u8 list option"

definition read_directory :: "r_file \<Rightarrow> sfs_state \<Rightarrow> nat \<Rightarrow> u8 list option \<Rightarrow> nat \<Rightarrow> read_reply option" where
  "read_directory r st requested_size buf i =
     (case sfs_filesystem st of
        None \<Rightarrow> Some (st, NOT_READY, requested_size, buf)
      | Some s \<Rightarrow>
          let h = sfs_handles st ! i
          in case with_fat st (fss_partition_start s)
                    (\<lambda>fs. get_directory_entry_at_position fs (fh_first_cluster h) (unat (fh_position h))) of
               None \<Rightarrow> None
             | Some (Some (Inr (Some entry))) \<Rightarrow>
                 let filename = short_name entry;
                     required_size = r_info_size r + (length filename + 1) * 2
                 in if requested_size < required_size then Some (st, BUFFER_TOO_SMALL, required_size, buf)
                    else (case buf of
                            None \<Rightarrow> Some (st, INVALID_PARAMETER, requested_size, buf)
                          | Some bs \<Rightarrow>
                              let fi = \<lparr>fi_size = of_nat required_size, fi_file_size = ucast (file_size entry),
                                        fi_physical_size = ucast (file_size entry),
                                        fi_attribute = (if is_directory entry then r_DIRECTORY r else 0)\<rparr>
                              in Some (set_handle st i (h\<lparr>fh_position := fh_position h + 1\<rparr>), SUCCESS, required_size,
                                       Some (put_name (r_info_size r) filename (r_info_put r fi bs))))
             | Some (Some (Inr None)) \<Rightarrow> Some (st, SUCCESS, 0, buf)
             | Some _ \<Rightarrow> Some (st, DEVICE_ERROR, requested_size, buf))"

definition file_read ::
    "r_file \<Rightarrow> sfs_state \<Rightarrow> nat option \<Rightarrow> nat option \<Rightarrow> u8 list option \<Rightarrow> read_reply option" where
  "file_read r st this buffer_size buf =
     (case (this, buffer_size) of
        (Some p, Some requested_size) \<Rightarrow>
          (case find_handle_index st p of
             None \<Rightarrow> Some (st, INVALID_PARAMETER, requested_size, buf)
           | Some i \<Rightarrow>
               let h = sfs_handles st ! i
               in if fh_is_directory h then read_directory r st requested_size buf i
                  else if buf = None \<and> requested_size > 0 then Some (st, INVALID_PARAMETER, requested_size, buf)
                  else if fh_position h \<ge> fh_file_size h then Some (st, SUCCESS, 0, buf)
                  else
                    let bytes_to_read = min requested_size (unat (fh_file_size h - fh_position h))
                    in if bytes_to_read = 0 then Some (st, SUCCESS, 0, buf)
                       else case sfs_filesystem st of
                              None \<Rightarrow> Some (st, NOT_READY, requested_size, buf)
                            | Some s \<Rightarrow>
                                (case with_fat st (fss_partition_start s)
                                        (\<lambda>fs. read_file fs
                                           (create_file_entry (fh_first_cluster h) (ucast (fh_file_size h)))
                                           (ucast (fh_position h)) (take bytes_to_read (the buf))) of
                                   None \<Rightarrow> None
                                 | Some None \<Rightarrow> Some (st, NOT_READY, requested_size, buf)
                                 | Some (Some (Inl _)) \<Rightarrow> Some (st, DEVICE_ERROR, requested_size, buf)
                                 | Some (Some (Inr (n, bs))) \<Rightarrow>
                                     Some (set_handle st i (h\<lparr>fh_position := fh_position h + of_nat n\<rparr>),
                                           SUCCESS, n, Some (bs @ drop bytes_to_read (the buf)))))
      | _ \<Rightarrow> Some (st, INVALID_PARAMETER, case_option 0 id buffer_size, buf))"

definition file_get_position :: "sfs_state \<Rightarrow> nat option \<Rightarrow> bool \<Rightarrow> u64 efi_result" where
  "file_get_position st this position_ok =
     (if \<not> position_ok then Err INVALID_PARAMETER
      else case Option.bind this (find_handle_index st) of
        None \<Rightarrow> Err INVALID_PARAMETER
      | Some i \<Rightarrow>
          if fh_is_directory (sfs_handles st ! i) then Err UNSUPPORTED else Ok (fh_position (sfs_handles st ! i)))"

definition file_set_position :: "sfs_state \<Rightarrow> nat option \<Rightarrow> u64 \<Rightarrow> sfs_state \<times> efi_status" where
  "file_set_position st this pos =
     (case Option.bind this (find_handle_index st) of
        None \<Rightarrow> (st, INVALID_PARAMETER)
      | Some i \<Rightarrow>
          let h = sfs_handles st ! i
          in if fh_is_directory h then
               (if pos \<noteq> 0 then (st, UNSUPPORTED) else (set_handle st i (h\<lparr>fh_position := 0\<rparr>), SUCCESS))
             else if pos = - 1 then (set_handle st i (h\<lparr>fh_position := fh_file_size h\<rparr>), SUCCESS)
             else (set_handle st i (h\<lparr>fh_position := pos\<rparr>), SUCCESS))"

text \<open>\<open>path.rsplit(['/', '\\']).next()\<close>.\<close>

definition last_component :: "u8 list \<Rightarrow> u8 list" where
  "last_component path = rev (takeWhile (\<lambda>b. \<not> is_separator b) (rev path))"

definition file_get_info ::
    "r_file \<Rightarrow> sfs_state \<Rightarrow> nat option \<Rightarrow> guid option \<Rightarrow> nat option \<Rightarrow> u8 list option \<Rightarrow>
       efi_status \<times> nat \<times> u8 list option" where
  "file_get_info r st this info_type buffer_size buf =
     (case (Option.bind this (find_handle_index st), info_type, buffer_size) of
        (Some i, Some g, Some requested_size) \<Rightarrow>
          let h = sfs_handles st ! i
          in if g = r_INFO_ID r then
               let filename = last_component (str_or_empty (fh_path h));
                   required_size = r_info_size r + (length filename + 1) * 2
               in if requested_size < required_size then (BUFFER_TOO_SMALL, required_size, buf)
                  else (case buf of
                          None \<Rightarrow> (INVALID_PARAMETER, requested_size, buf)
                        | Some bs \<Rightarrow>
                            let fi = \<lparr>fi_size = of_nat required_size, fi_file_size = fh_file_size h,
                                      fi_physical_size = fh_file_size h,
                                      fi_attribute = (if fh_is_directory h then r_DIRECTORY r else 0)\<rparr>
                            in (SUCCESS, required_size,
                                Some (put_name (r_info_size r) filename (r_info_put r fi bs))))
             else if g = r_SYSTEM_INFO_ID r then
               let label = [0x45, 0x46, 0x49];
                   required_size = r_system_info_size r + (length label + 1) * 2
               in if requested_size < required_size then (BUFFER_TOO_SMALL, required_size, buf)
                  else (case (buf, sfs_filesystem st) of
                          (None, _) \<Rightarrow> (INVALID_PARAMETER, requested_size, buf)
                        | (Some bs, None) \<Rightarrow> (NOT_READY, requested_size, buf)
                        | (Some bs, Some s) \<Rightarrow>
                            let si = \<lparr>fsi_size = of_nat required_size, fsi_read_only = True, fsi_volume_size = 0,
                                      fsi_free_space = 0, fsi_block_size = fss_device_block_size s\<rparr>
                            in (SUCCESS, required_size,
                                Some (put_name (r_system_info_size r) label (r_system_info_put r si bs))))
             else (UNSUPPORTED, requested_size, buf)
      | _ \<Rightarrow> (INVALID_PARAMETER, case_option 0 id buffer_size, buf))"

text \<open>The operations that a read-only file system refuses, and \<open>flush\<close>.\<close>

definition file_delete :: efi_status where "file_delete = UNSUPPORTED"
definition file_write :: efi_status where "file_write = UNSUPPORTED"
definition file_set_info :: efi_status where "file_set_info = UNSUPPORTED"
definition file_flush :: efi_status where "file_flush = SUCCESS"

end
