(* ===== verification/File_Props.thy ===== *)
theory File_Props
  imports File_Protocol Fat_Props
begin

text \<open>
  The file protocol against the FAT volume below it: a file that is opened by its path and read in pieces
  yields the bytes of its clusters, a directory that is read entry by entry yields its used entries; and what
  the protocol does with the root directory and with deep paths.
\<close>

section \<open>Handles\<close>

lemma set_handle_simps [simp]:
  "sfs_handles (set_handle st i h) = (sfs_handles st)[i := h]"
  "sfs_filesystem (set_handle st i h) = sfs_filesystem st"
  "sfs_device (set_handle st i h) = sfs_device st"
  by (simp_all add: set_handle_def)

definition open_handle :: "sfs_state \<Rightarrow> nat \<Rightarrow> file_handle \<Rightarrow> bool" where
  "open_handle st i h \<longleftrightarrow> i < length (sfs_handles st) \<and> sfs_handles st ! i = h \<and> fh_in_use h"

lemma open_handle_find: "open_handle st i h \<Longrightarrow> find_handle_index st i = Some i"
  by (simp add: open_handle_def find_handle_index_def)

lemma open_handle_set [simp]: "i < length (sfs_handles st) \<Longrightarrow> open_handle (set_handle st i h) i h' \<longleftrightarrow> h' = h \<and> fh_in_use h"
  by (auto simp: open_handle_def)

lemma free_slot_SomeD:
  assumes "free_slot st = Some i"
  shows "i < length (sfs_handles st)" and "\<not> fh_in_use (sfs_handles st ! i)"
  using position_SomeD [OF assms [unfolded free_slot_def]] by auto

text \<open>The state of a machine with a mounted volume.\<close>

definition sfs_mounted :: "sfs_state \<Rightarrow> fat_filesystem \<Rightarrow> medium \<Rightarrow> bool" where
  "sfs_mounted st fs c \<longleftrightarrow>
     (\<exists>s dev. sfs_filesystem st = Some s \<and> sfs_device st = Some dev \<and>
        fat_new dev (fss_partition_start s) = Some (Inr fs) \<and> fss_root_cluster s = root_of fs) \<and> fat_volume fs c"

lemma sfs_mounted_set [simp]: "sfs_mounted (set_handle st i h) fs c = sfs_mounted st fs c"
  by (simp add: sfs_mounted_def)

lemma mountedE:
  assumes "sfs_mounted st fs c"
  obtains s where "sfs_filesystem st = Some s" and "fss_root_cluster s = root_of fs" and "fat_volume fs c"
  using assms by (auto simp: sfs_mounted_def)

lemma with_fat_mounted:
  "sfs_mounted st fs c \<Longrightarrow> sfs_filesystem st = Some s \<Longrightarrow>
   with_fat st (fss_partition_start s) f = map_option Some (map_err (\<lambda>_. ()) (f fs))"
  by (auto simp: sfs_mounted_def with_fat_def)

section \<open>Reading a file\<close>

lemma create_file_entry_fields:
  "first_cluster (create_file_entry k n) = k" "file_size (create_file_entry k n) = n"
  "\<not> is_directory (create_file_entry k n)"
proof -
  have halves: "push_bit 16 (ucast (ucast (drop_bit 16 k) :: u16)) OR ucast (ucast k :: u16) = k"
    by (rule bit_word_eqI) (auto simp: bit_simps)
  have word: "of_nat (le_nat (le_bytes 2 (unat w))) = w" "of_nat (le_nat (le_bytes 4 (unat v))) = v" for w :: u16 and v :: u32
    using unat_bound [of w] unat_bound [of v] by (simp_all add: le_nat_le_bytes)
  show "first_cluster (create_file_entry k n) = k" "file_size (create_file_entry k n) = n"
    by (simp_all add: create_file_entry_def Let_def dirent_at_def first_cluster_def field_append field_all word halves)
  show "\<not> is_directory (create_file_entry k n)"
    by (simp add: create_file_entry_def Let_def dirent_at_def is_directory_def nth_append)
qed

text \<open>\<open>file_on\<close>: the handle stands for a file whose bytes are the given ones.\<close>

definition file_on :: "fat_filesystem \<Rightarrow> medium \<Rightarrow> file_handle \<Rightarrow> u8 list \<Rightarrow> bool" where
  "file_on fs c h bs \<longleftrightarrow>
     \<not> fh_is_directory h \<and> unat (fh_file_size h) < 2 ^ 32 \<and>
     (\<exists>ks. fat_chain fs c ks \<and> fh_first_cluster h = hd ks \<and> unat (fh_file_size h) \<le> length ks * cluster_size fs \<and>
        bs = take (unat (fh_file_size h)) (chain_bytes fs c ks))"

lemma file_on_position [simp]: "file_on fs c (h\<lparr>fh_position := p\<rparr>) bs = file_on fs c h bs"
  by (simp add: file_on_def)

lemma file_on_length: "file_on fs c h bs \<Longrightarrow> length bs = unat (fh_file_size h)"
  by (auto simp: file_on_def length_chain_bytes)

lemma file_read_bytes:
  assumes m: "sfs_mounted st fs c" and h: "open_handle st i h" and f: "file_on fs c h bs"
    and buf: "n \<le> length buf" and pos: "unat (fh_position h) < length bs" and n: "0 < n"
  shows "file_read r st (Some i) (Some n) (Some buf) =
    (let k = min n (length bs - unat (fh_position h))
     in Some (set_handle st i (h\<lparr>fh_position := fh_position h + of_nat k\<rparr>), SUCCESS, k,
              Some (slice (unat (fh_position h)) k bs @ drop k buf)))"
proof -
  obtain s where s: "sfs_filesystem st = Some s" and vol: "fat_volume fs c"
    using m by (rule mountedE)
  let ?pos = "unat (fh_position h)" and ?size = "unat (fh_file_size h)"
  obtain ks where ks: "fat_chain fs c ks" "fh_first_cluster h = hd ks" "?size \<le> length ks * cluster_size fs"
    "bs = take ?size (chain_bytes fs c ks)"
    using f by (auto simp: file_on_def)
  have size: "?size < 2 ^ 32" and len: "length bs = ?size" and dir: "\<not> fh_is_directory h"
    using f file_on_length [OF f] by (simp_all add: file_on_def)
  let ?e = "create_file_entry (fh_first_cluster h) (ucast (fh_file_size h))"
  let ?k = "min n (?size - ?pos)"
  have sz: "unat (ucast (fh_file_size h) :: u32) = ?size" "unat (ucast (fh_position h) :: u32) = ?pos"
    using size pos len by (simp_all add: unsigned_ucast_eq take_bit_nat_eq_self_iff)
  have diff: "unat (fh_file_size h - fh_position h) = ?size - ?pos"
    using pos len by (simp add: unat_sub_le word_le_nat_alt)
  have "read_file fs ?e (ucast (fh_position h)) (take ?k buf) =
      (let n = min (length (take ?k buf)) (?size - ?pos)
       in Some (Inr (n, slice ?pos n (chain_bytes fs c ks) @ drop n (take ?k buf))))"
    using read_file_reads [OF vol ks(1), of ?e "ucast (fh_position h)" "take ?k buf"] ks sz pos len buf size
    by (simp add: create_file_entry_fields word_less_nat_alt)
  then have "read_file fs ?e (ucast (fh_position h)) (take ?k buf) = Some (Inr (?k, slice ?pos ?k bs))"
    using buf ks(4) pos len by (simp add: slice_def drop_take Let_def)
  moreover have "?k \<noteq> 0" "\<not> fh_file_size h \<le> fh_position h"
    using pos n len by (simp_all add: word_le_nat_alt)
  ultimately show ?thesis
    using open_handle_find [OF h] h s dir len diff
    by (simp add: file_read_def open_handle_def Let_def with_fat_mounted [OF m s]) (simp add: min_def)
qed

lemma file_read_at_end:
  assumes "open_handle st i h" and "\<not> fh_is_directory h" and "fh_file_size h \<le> fh_position h \<or> n = 0"
  shows "file_read r st (Some i) (Some n) (Some buf) = Some (st, SUCCESS, 0, Some buf)"
  using open_handle_find [OF assms(1)] assms by (auto simp: file_read_def open_handle_def Let_def)

text \<open>A client that reads with a fresh buffer for each of the given sizes and keeps what it gets.\<close>

fun read_pieces :: "r_file \<Rightarrow> sfs_state \<Rightarrow> nat \<Rightarrow> nat list \<Rightarrow> (sfs_state \<times> u8 list) option" where
  "read_pieces r st i [] = Some (st, [])"
| "read_pieces r st i (n # ns) =
     (case file_read r st (Some i) (Some n) (Some (replicate n 0)) of
        Some (st', SUCCESS, k, Some buf) \<Rightarrow> map_option (map_prod id ((@) (take k buf))) (read_pieces r st' i ns)
      | _ \<Rightarrow> None)"

lemma slice_append: "slice a k xs @ slice (a + k) l xs = slice a (k + l) xs"
  by (simp add: slice_def take_add add.commute)

lemma slice_prefix: "slice 0 (min n (length xs)) xs = take n xs"
  by (cases "n \<le> length xs") (simp_all add: slice_def)

lemma read_pieces_stream:
  assumes "sfs_mounted st fs c" and "open_handle st i h" and "file_on fs c h bs"
    and "unat (fh_position h) \<le> length bs"
  shows "\<exists>st'. read_pieces r st i ns =
      Some (st', slice (unat (fh_position h)) (min (sum_list ns) (length bs - unat (fh_position h))) bs)"
  using assms
proof (induction ns arbitrary: st h)
  case Nil
  then show ?case by (simp add: slice_def)
next
  case (Cons n ns)
  let ?pos = "unat (fh_position h)"
  have len: "length bs = unat (fh_file_size h)" "length bs < 2 ^ 32" and dir: "\<not> fh_is_directory h"
    using Cons.prems(3) file_on_length [OF Cons.prems(3)] by (simp_all add: file_on_def)
  show ?case
  proof (cases "0 < n \<and> ?pos < length bs")
    case True
    let ?k = "min n (length bs - ?pos)"
    let ?h = "h\<lparr>fh_position := fh_position h + of_nat ?k\<rparr>"
    have pos': "unat (fh_position ?h) = ?pos + ?k"
      using len(2) Cons.prems(4) by (simp add: unat_plus_less unat_of_nat)
    have i: "i < length (sfs_handles st)" "fh_in_use h"
      using Cons.prems(2) by (simp_all add: open_handle_def)
    then have "\<exists>st'. read_pieces r (set_handle st i ?h) i ns =
        Some (st', slice (?pos + ?k) (min (sum_list ns) (length bs - (?pos + ?k))) bs)"
      using Cons.IH [of "set_handle st i ?h" ?h] Cons.prems pos' by simp
    moreover have "file_read r st (Some i) (Some n) (Some (replicate n 0)) =
        Some (set_handle st i ?h, SUCCESS, ?k, Some (slice ?pos ?k bs @ drop ?k (replicate n 0)))"
      using file_read_bytes [OF Cons.prems(1-3), of n "replicate n 0" r] True by (simp add: Let_def)
    moreover have "slice ?pos ?k bs @ slice (?pos + ?k) (min (sum_list ns) (length bs - (?pos + ?k))) bs =
        slice ?pos (min (n + sum_list ns) (length bs - ?pos)) bs"
      unfolding slice_append by (rule arg_cong [where f = "\<lambda>l. slice ?pos l bs"]) (auto simp: min_def)
    moreover have "length (slice ?pos ?k bs) = ?k"
      using True by (simp add: slice_def)
    ultimately show ?thesis
      by auto
  next
    case False
    then have "file_read r st (Some i) (Some n) (Some (replicate n 0)) = Some (st, SUCCESS, 0, Some (replicate n 0))"
      using len(1) dir by (intro file_read_at_end [OF Cons.prems(2)]) (auto simp: word_le_nat_alt)
    moreover have "slice ?pos (min (n + sum_list ns) (length bs - ?pos)) bs =
        slice ?pos (min (sum_list ns) (length bs - ?pos)) bs"
      using False by (auto simp: slice_def)
    ultimately show ?thesis
      using Cons.IH [OF Cons.prems] by auto
  qed
qed

section \<open>Opening\<close>

definition name_bytes :: "sfs_state \<Rightarrow> nat \<Rightarrow> ucs2_ptr \<Rightarrow> u8 list" where
  "name_bytes st p src =
     str_or_empty (build_full_path (fh_path (sfs_handles st ! p)) (str_or_empty (utf16_to_utf8 src)))"

lemma file_open_resolves:
  assumes m: "sfs_mounted st fs c" and tree: "directory_tree fs c D dirs"
    and p: "open_handle st p h" and ns: "path_parts (name_bytes st p src) = Some ns"
  shows "file_open r st (Some p) True (Some src) (r_MODE_READ r) =
    (case resolve dirs ns (root_of fs) of
       Inl _ \<Rightarrow> Some (st, Err NOT_FOUND)
     | Inr e \<Rightarrow>
         (case free_slot st of
            None \<Rightarrow> Some (st, Err OUT_OF_RESOURCES)
          | Some i \<Rightarrow>
              Some (set_handle st i
                \<lparr>fh_in_use = True, fh_path = build_full_path (fh_path h) (str_or_empty (utf16_to_utf8 src)),
                 fh_position = 0, fh_file_size = ucast (file_size e), fh_first_cluster = first_cluster e,
                 fh_is_directory = is_directory e\<rparr>, Ok i)))"
proof -
  obtain s where s: "sfs_filesystem st = Some s" and vol: "fat_volume fs c"
    using m by (rule mountedE)
  have "sfs_handles st ! p = h"
    using p by (simp add: open_handle_def)
  then show ?thesis
    using find_file_resolve [OF vol tree ns] s open_handle_find [OF p]
    by (simp add: file_open_def name_bytes_def Let_def with_fat_mounted [OF m s] split: sum.split)
qed

section \<open>Directories\<close>

lemma directory_read:
  assumes m: "sfs_mounted st fs c" and tree: "directory_tree fs c D dirs" and h: "open_handle st i h"
    and dir: "fh_is_directory h" "fh_first_cluster h \<in> D" and es: "es = used_entries (dirs (fh_first_cluster h))"
  shows "file_read r st (Some i) (Some n) (Some buf) =
    (if unat (fh_position h) < length es then
       let e = es ! unat (fh_position h); required = r_info_size r + (length (short_name e) + 1) * 2
       in if n < required then Some (st, BUFFER_TOO_SMALL, required, Some buf)
          else Some (set_handle st i (h\<lparr>fh_position := fh_position h + 1\<rparr>), SUCCESS, required,
                 Some (put_name (r_info_size r) (short_name e)
                   (r_info_put r \<lparr>fi_size = of_nat required, fi_file_size = ucast (file_size e),
                      fi_physical_size = ucast (file_size e),
                      fi_attribute = (if is_directory e then r_DIRECTORY r else 0)\<rparr> buf)))
     else Some (st, SUCCESS, 0, Some buf))"
proof -
  obtain s where s: "sfs_filesystem st = Some s" and vol: "fat_volume fs c"
    using m by (rule mountedE)
  have "directory fs c (fh_first_cluster h) (dirs (fh_first_cluster h))"
    using tree dir(2) by (simp add: directory_tree_def)
  from get_directory_entry_nth [OF vol this] show ?thesis
    using open_handle_find [OF h] h s dir(1)
    by (simp add: file_read_def open_handle_def read_directory_def Let_def with_fat_mounted [OF m s] es)
qed

section \<open>From the device to the client\<close>

lemma fat_new_root: "fat_new dev p = Some (Inr fs) \<Longrightarrow> root_cluster fs = root_of fs"
  by (auto simp: fat_new_def mount_def root_of_def Let_def and_then_Ok_iff split: if_splits)

text \<open>Initialising the protocol and opening the volume give the handle of the root directory.\<close>

lemma init_and_open_volume:
  assumes "fat_new dev p = Some (Inr fs)" and "fat_volume fs c"
  obtains st0 st1 where "sfs_init dev p new_sfs_state = Some (st0, True)" and "sfs_open_volume st0 True = (st1, Ok 0)"
    and "sfs_mounted st1 fs c"
    and "open_handle st1 0 \<lparr>fh_in_use = True, fh_path = [], fh_position = 0, fh_file_size = 0,
      fh_first_cluster = root_of fs, fh_is_directory = True\<rparr>"
    and "free_slot st1 = Some 1"
proof -
  obtain st0 where st0: "sfs_init dev p new_sfs_state = Some (st0, True)"
    using assms(1) by (simp add: sfs_init_def)
  have handles: "sfs_handles st0 = replicate MAX_FILE_HANDLES empty_file_handle"
    and m: "sfs_mounted st0 fs c"
    using st0 assms fat_new_root [OF assms(1)]
    by (auto simp: sfs_init_def sfs_mounted_def new_sfs_state_def)
  have free: "free_slot st0 = Some 0"
    by (simp add: free_slot_def handles MAX_FILE_HANDLES_def empty_file_handle_def numeral_eq_Suc)
  obtain s where s: "sfs_filesystem st0 = Some s" "fss_root_cluster s = root_of fs"
    using m by (rule mountedE)
  show thesis
  proof (rule that [OF st0])
    show "sfs_open_volume st0 True = (set_handle st0 0
        \<lparr>fh_in_use = True, fh_path = [], fh_position = 0, fh_file_size = 0,
         fh_first_cluster = root_of fs, fh_is_directory = True\<rparr>, Ok 0)"
      using free s by (simp add: sfs_open_volume_def)
  qed (use m in \<open>simp_all add: handles open_handle_def free_slot_def MAX_FILE_HANDLES_def empty_file_handle_def numeral_eq_Suc\<close>)
qed

section \<open>Properties\<close>


text \<open>The name \<open>hello.txt\<close>.\<close>

definition sample_name :: ucs2_ptr where
  "sample_name i = (if i < 9 then ucast (sample_path ! Suc i) else 0)"

lemma utf16_from_string:
  assumes "\<forall>j < length bs. src (i + j) = ucast (bs ! j) \<and> bs ! j \<noteq> 0 \<and> bs ! j < 0x80" and "src (i + length bs) = 0"
    and "length bs < n"
  shows "utf16_from src i n = bs"
  using assms
proof (induction bs arbitrary: i n)
  case Nil
  then show ?case
    by (cases n) simp_all
next
  case (Cons b bs)
  have b: "src i = ucast b" "b \<noteq> 0" "b < 0x80"
    using Cons.prems(1) by (simp_all add: All_less_Suc2)
  have unat: "unat (ucast b :: u16) = unat b"
    by (simp add: unat_ucast_widen)
  have "(ucast b :: u16) \<noteq> 0"
    using b(2) unat by (metis unat_0 unat_eq_zero)
  moreover have "(ucast b :: u16) < 0x80"
    using b(3) by (simp add: word_less_nat_alt unat)
  moreover have "ucast (ucast b :: u16) = b"
    by (rule bit_word_eqI) (auto simp: bit_simps)
  moreover obtain n' where n: "n = Suc n'"
    using Cons.prems(3) by (cases n) simp_all
  moreover have "utf16_from src (Suc i) n' = bs"
    using Cons.prems n by (intro Cons.IH) (auto simp: All_less_Suc2)
  ultimately show ?case
    using b(1) by simp
qed

lemma sample_name_bytes: "str_or_empty (utf16_to_utf8 sample_name) = tl sample_path"
proof -
  have "\<forall>j < 9. sample_path ! Suc j \<noteq> 0 \<and> sample_path ! Suc j < 0x80"
    by code_simp
  then have "utf16_to_utf8 sample_name = tl sample_path"
    unfolding utf16_to_utf8_def MAX_PATH_LEN_def
    by (intro utf16_from_string) (simp_all add: sample_name_def sample_path_def)
  then show ?thesis
    by (simp add: str_or_empty_def sample_path_def)
qed

lemma sample_full_path: "path_parts (str_or_empty (build_full_path [] (tl sample_path))) = Some [tl sample_path]"
  by code_simp

definition sample_r_file :: r_file where
  "sample_r_file = \<lparr>r_MODE_READ = 1, r_DIRECTORY = 0x10, r_INFO_ID = Guid 0 0 0 0 0 [], r_SYSTEM_INFO_ID = Guid 0 0 0 0 0 [],
     r_info_size = 80, r_info_put = (\<lambda>_ bs. bs), r_system_info_size = 40, r_system_info_put = (\<lambda>_ bs. bs)\<rparr>"


section \<open>Failures\<close>

lemma open_absolute:
  assumes m: "sfs_mounted st fs c" and p: "open_handle st p h"
    and src: "str_or_empty (utf16_to_utf8 src) = name" and name: "name \<noteq> []" "hd name = 0x5C"
  shows "file_open r st (Some p) True (Some src) (r_MODE_READ r) =
    (case find_file fs (str_or_empty (build_full_path [] name)) of
       None \<Rightarrow> None
     | Some (Inl _) \<Rightarrow> Some (st, Err NOT_FOUND)
     | Some (Inr entry) \<Rightarrow>
         (case free_slot st of
            None \<Rightarrow> Some (st, Err OUT_OF_RESOURCES)
          | Some i \<Rightarrow>
              Some (set_handle st i
                \<lparr>fh_in_use = True, fh_path = build_full_path [] name, fh_position = 0,
                 fh_file_size = ucast (file_size entry), fh_first_cluster = first_cluster entry,
                 fh_is_directory = is_directory entry\<rparr>, Ok i)))"
proof -
  obtain s where s: "sfs_filesystem st = Some s"
    using m by (rule mountedE)
  have path: "build_full_path (fh_path (sfs_handles st ! p)) name = build_full_path [] name"
    using name by (simp add: build_full_path_def)
  show ?thesis
    using s open_handle_find [OF p]
    by (cases "find_file fs (str_or_empty (build_full_path [] name))")
       (auto simp: file_open_def src path Let_def with_fat_mounted [OF m s] split: sum.split)
qed

text \<open>The root directory cannot be opened by its name, a single backslash, although \<open>open_volume\<close> has it.\<close>

theorem root_by_name_not_found:
  assumes "sfs_mounted st fs c" and "open_handle st p h"
  shows "file_open r st (Some p) True (Some (\<lambda>i. if i = 0 then 0x5C else 0)) (r_MODE_READ r) =
    Some (st, Err NOT_FOUND)"
proof -
  have "utf16_to_utf8 (\<lambda>i. if i = 0 then 0x5C else 0) = [0x5C]"
    unfolding utf16_to_utf8_def MAX_PATH_LEN_def by (rule utf16_from_string) simp_all
  moreover have "path_parts (str_or_empty (build_full_path [] [0x5C])) = Some []"
    by code_simp
  ultimately show ?thesis
    by (subst open_absolute [OF assms, of _ "[0x5C]"]) (simp_all add: str_or_empty_def find_file_def)
qed

text \<open>A path of more than sixteen components makes the firmware panic.\<close>

theorem deep_path_panics:
  assumes "sfs_mounted st fs c" and "open_handle st p h"
  shows "file_open r st (Some p) True (Some (\<lambda>i. if i < 34 then if even i then 0x5C else 0x61 else 0)) (r_MODE_READ r) =
    None"
proof -
  let ?name = "concat (replicate 17 [0x5C, 0x61]) :: u8 list"
  let ?src = "\<lambda>i. if i < 34 then if even i then 0x5C else 0x61 else 0 :: u16"
  have len: "length ?name = 34"
    by code_simp
  have "\<forall>j < 34. ?src j = ucast (?name ! j) \<and> ?name ! j \<noteq> 0 \<and> ?name ! j < 0x80"
    by code_simp
  then have "utf16_to_utf8 ?src = ?name"
    unfolding utf16_to_utf8_def MAX_PATH_LEN_def by (intro utf16_from_string) (simp_all add: len)
  moreover have "utf8_ok ?name" "path_parts (str_or_empty (build_full_path [] ?name)) = None" "?name \<noteq> []" "hd ?name = 0x5C"
    by code_simp+
  ultimately show ?thesis
    by (subst open_absolute [OF assms, of _ ?name]) (simp_all add: str_or_empty_def find_file_def)
qed

end
