(* ===== verification/Time_Base.thy ===== *)
theory Time_Base
  imports Block_Device
begin

text \<open>
  Time: \<open>src/src/time.rs\<close>.

  The counters of the machine are the arguments \<open>tsc\<close> and \<open>inl\<close> of the record \<open>timer\<close>: what the time stamp
  counter and an I/O port show at each instant. Every read of a counter happens at an instant of its own;
  \<open>instant\<close> counts them. The other fields are the atomics of the module. The loops wait for a counter to
  move and are \<open>partial_function\<close>s: \<^const>\<open>None\<close> is waiting for ever (or the division by zero of the
  calibration).
\<close>

section \<open>Counters\<close>

record timer =
  tsc :: "nat \<Rightarrow> u64"
  inl :: "u16 \<Rightarrow> nat \<Rightarrow> u32"
  instant :: nat
  TSC_FREQ_HZ :: u64
  TSC_CYCLES_PER_US :: u64
  PM_TIMER_PORT :: u64
  PM_TIMER_32BIT :: u64

definition new_timer :: "(nat \<Rightarrow> u64) \<Rightarrow> (u16 \<Rightarrow> nat \<Rightarrow> u32) \<Rightarrow> timer" where
  "new_timer counter port =
     \<lparr>tsc = counter, inl = port, instant = 0, TSC_FREQ_HZ = 2000000000, TSC_CYCLES_PER_US = 2000,
      PM_TIMER_PORT = 0, PM_TIMER_32BIT = 0\<rparr>"

definition PM_TIMER_FREQ :: u64 where
  "PM_TIMER_FREQ = 3579545"

definition rdtsc :: "timer \<Rightarrow> u64 \<times> timer" where
  "rdtsc t = (tsc t (instant t), t\<lparr>instant := Suc (instant t)\<rparr>)"

definition read_pm_timer :: "timer \<Rightarrow> u32 \<times> timer" where
  "read_pm_timer t =
     (let port = ucast (PM_TIMER_PORT t) :: u16
      in if port = 0 then (0, t) else (inl t port (instant t), t\<lparr>instant := Suc (instant t)\<rparr>))"

section \<open>The power management timer\<close>

text \<open>
  Packed ACPI structures are read at their offsets: \<open>AcpiRsdp\<close> (revision at 15, RSDT at 16, XSDT at 24),
  \<open>AcpiSdtHeader\<close> (36 bytes, length at 4) and \<open>AcpiFadt\<close> (timer block at 76, flags at 112).
\<close>

definition ACPI_SDT_HEADER_SIZE :: nat where
  "ACPI_SDT_HEADER_SIZE = 36"

definition RSDP_SIGNATURE :: "u8 list" where
  "RSDP_SIGNATURE = [0x52, 0x53, 0x44, 0x20, 0x50, 0x54, 0x52, 0x20]"

definition FADT_SIGNATURE :: "u8 list" where
  "FADT_SIGNATURE = [0x46, 0x41, 0x43, 0x50]"

definition sdt_entry :: "memory \<Rightarrow> u64 \<Rightarrow> bool \<Rightarrow> nat \<Rightarrow> u64" where
  "sdt_entry m base is_xsdt i =
     (if is_xsdt then read_u64 m (base + of_nat (i * 8)) else ucast (read_u32 m (base + of_nat (i * 4))))"

definition fadt_timer :: "memory \<Rightarrow> u64 \<Rightarrow> (u16 \<times> bool) option" where
  "fadt_timer m addr =
     (if addr = 0 then None
      else if read_bytes m addr 4 = FADT_SIGNATURE then
        (let pm_tmr_blk = read_u32 m (addr + 76); flags = read_u32 m (addr + 112)
         in if pm_tmr_blk \<noteq> 0 then Some (ucast pm_tmr_blk, flags AND 0x100 \<noteq> 0) else None)
      else None)"

text \<open>The loop over the entries; \<open>n\<close> entries are left from index \<open>i\<close> on.\<close>

fun find_fadt :: "memory \<Rightarrow> u64 \<Rightarrow> bool \<Rightarrow> nat \<Rightarrow> nat \<Rightarrow> (u16 \<times> bool) option" where
  "find_fadt m base is_xsdt i 0 = None"
| "find_fadt m base is_xsdt i (Suc n) =
     (case fadt_timer m (sdt_entry m base is_xsdt i) of
        Some r \<Rightarrow> Some r
      | None \<Rightarrow> find_fadt m base is_xsdt (Suc i) n)"

definition find_pm_timer_port :: "memory \<Rightarrow> u64 \<Rightarrow> (u16 \<times> bool) option" where
  "find_pm_timer_port m rsdp_addr =
     (if read_bytes m rsdp_addr 8 \<noteq> RSDP_SIGNATURE then None
      else
        (let xsdt_address = read_u64 m (rsdp_addr + 24);
             is_xsdt = (m (rsdp_addr + 15) \<ge> 2 \<and> xsdt_address \<noteq> 0);
             table_addr = (if is_xsdt then xsdt_address else ucast (read_u32 m (rsdp_addr + 16)))
         in if table_addr = 0 then None
            else
              (let table_len = ucast (read_u32 m (table_addr + 4)) :: usize;
                   entry_size = (if is_xsdt then 8 else 4) :: usize;
                   num_entries = (table_len - of_nat ACPI_SDT_HEADER_SIZE) div entry_size
               in find_fadt m (table_addr + of_nat ACPI_SDT_HEADER_SIZE) is_xsdt 0 (unat num_entries))))"

section \<open>Calibration\<close>

definition CALIBRATION_TICKS :: u32 where
  "CALIBRATION_TICKS = 178977"

definition timer_mask :: "timer \<Rightarrow> u32" where
  "timer_mask t = (if PM_TIMER_32BIT t \<noteq> 0 then 0xFFFFFFFF else 0x00FFFFFF)"

text \<open>The two waiting loops: until the timer moves, and until it has moved by the calibration ticks.\<close>

partial_function (option) wait_tick :: "u32 \<Rightarrow> u32 \<Rightarrow> timer \<Rightarrow> timer option" where
  "wait_tick msk prev t =
     (let (raw, t1) = read_pm_timer t; current = raw AND msk
      in if current \<noteq> prev then Some t1 else wait_tick msk current t1)"

partial_function (option) wait_ticks :: "u32 \<Rightarrow> u32 \<Rightarrow> timer \<Rightarrow> timer option" where
  "wait_ticks msk pm_start t =
     (let (raw, t1) = read_pm_timer t; pm_elapsed = ((raw AND msk) - pm_start) AND msk
      in if pm_elapsed \<ge> CALIBRATION_TICKS then Some t1 else wait_ticks msk pm_start t1)"

definition calibrate_tsc_with_pm_timer :: "timer \<Rightarrow> (u64 option \<times> timer) option" where
  "calibrate_tsc_with_pm_timer t =
     (if (ucast (PM_TIMER_PORT t) :: u16) = 0 then Some (None, t)
      else
        (let msk = timer_mask t; (raw0, t0) = read_pm_timer t
         in Option.bind (wait_tick msk (raw0 AND msk) t0) (\<lambda>t1.
              let (raw1, t2) = read_pm_timer t1; pm_start = raw1 AND msk; (tsc_start, t3) = rdtsc t2
              in Option.bind (wait_ticks msk pm_start t3) (\<lambda>t4.
                   let (tsc_end, t5) = rdtsc t4; (raw2, t6) = read_pm_timer t5;
                       pm_elapsed = ((raw2 AND msk) - pm_start) AND msk;
                       tsc_elapsed = tsc_end - tsc_start
                   in if pm_elapsed = 0 then None
                      else Some (Some (of_nat (unat tsc_elapsed * unat PM_TIMER_FREQ div unat pm_elapsed)), t6)))))"

definition time_init :: "memory \<Rightarrow> u64 option \<Rightarrow> timer \<Rightarrow> timer option" where
  "time_init m acpi_rsdp t =
     (case Option.bind acpi_rsdp (find_pm_timer_port m) of
        None \<Rightarrow> Some t
      | Some (port, is_32bit) \<Rightarrow>
          (let t1 = t\<lparr>PM_TIMER_PORT := ucast port, PM_TIMER_32BIT := if is_32bit then 1 else 0\<rparr>
           in Option.bind (calibrate_tsc_with_pm_timer t1) (\<lambda>(r, t2).
                case r of
                  None \<Rightarrow> Some t2
                | Some freq \<Rightarrow> Some (t2\<lparr>TSC_FREQ_HZ := freq, TSC_CYCLES_PER_US := freq div 1000000\<rparr>))))"

section \<open>Delays and timeouts\<close>

partial_function (option) delay_loop :: "u64 \<Rightarrow> u64 \<Rightarrow> timer \<Rightarrow> timer option" where
  "delay_loop start cycles t =
     (let (now, t1) = rdtsc t in if now - start < cycles then delay_loop start cycles t1 else Some t1)"

definition delay_us :: "u64 \<Rightarrow> timer \<Rightarrow> timer option" where
  "delay_us us t = (let (start, t1) = rdtsc t in delay_loop start (us * TSC_CYCLES_PER_US t) t1)"

definition delay_ms :: "u64 \<Rightarrow> timer \<Rightarrow> timer option" where
  "delay_ms ms t = delay_us (ms * 1000) t"

record timeout =
  deadline :: u64

definition from_us :: "u64 \<Rightarrow> timer \<Rightarrow> timeout \<times> timer" where
  "from_us us t = (let (now, t1) = rdtsc t in (\<lparr>deadline = now + us * TSC_CYCLES_PER_US t\<rparr>, t1))"

definition from_ms :: "u64 \<Rightarrow> timer \<Rightarrow> timeout \<times> timer" where
  "from_ms ms t = from_us (ms * 1000) t"

definition is_expired :: "timeout \<Rightarrow> timer \<Rightarrow> bool \<times> timer" where
  "is_expired d t = (let (now, t1) = rdtsc t in (sint (deadline d - now) \<le> 0, t1))"

text \<open>
  \<open>wait_for\<close> and \<open>wait_for_with\<close>: the closures read or drive a device, so they work on a state \<open>'s\<close>
  (an \<open>Fn\<close> closure may still see the device change); checking takes the instant of the last read.
\<close>

partial_function (option) wait_loop ::
    "('s \<Rightarrow> nat \<Rightarrow> bool \<times> 's) \<Rightarrow> timeout \<Rightarrow> 's \<Rightarrow> timer \<Rightarrow> (bool \<times> 's \<times> timer) option" where
  "wait_loop condition d s t =
     (let (expired, t1) = is_expired d t
      in if expired then Some (False, s, t1)
         else (let (c, s1) = condition s (instant t1)
               in if c then Some (True, s1, t1) else wait_loop condition d s1 t1))"

definition wait_for ::
    "u64 \<Rightarrow> ('s \<Rightarrow> nat \<Rightarrow> bool \<times> 's) \<Rightarrow> 's \<Rightarrow> timer \<Rightarrow> (bool \<times> 's \<times> timer) option" where
  "wait_for timeout_ms condition s t =
     (let (d, t1) = from_ms timeout_ms t in wait_loop condition d s t1)"

definition wait_for_with ::
    "u64 \<Rightarrow> ('s \<Rightarrow> nat \<Rightarrow> 's) \<Rightarrow> ('s \<Rightarrow> nat \<Rightarrow> bool \<times> 's) \<Rightarrow> 's \<Rightarrow> timer \<Rightarrow> (bool \<times> 's \<times> timer) option" where
  "wait_for_with timeout_ms action condition s t =
     (let (d, t1) = from_ms timeout_ms t
      in wait_loop (\<lambda>s k. condition (action s k) k) d s t1)"

end
