(* ===== verification/Time_Props.thy ===== *)
theory Time_Props
  imports Time_Base
begin

text \<open>
  Properties of the timing functions, for counters that run: the time stamp counter shows a strictly
  growing count \<open>T\<close> modulo \<open>2^64\<close>, and the power management timer a growing count \<open>P\<close> in its lower bits.
\<close>

section \<open>Timeouts\<close>

text \<open>The counter runs, and no two consecutive reads are more than \<open>2^62\<close> cycles (decades) apart.\<close>

definition tsc_runs :: "timer \<Rightarrow> (nat \<Rightarrow> nat) \<Rightarrow> bool" where
  "tsc_runs t T \<longleftrightarrow> (\<forall>n. tsc t n = of_nat (T n) \<and> T n < T (Suc n) \<and> T (Suc n) \<le> T n + 2 ^ 62)"

lemma tsc_runs_instant [simp]: "tsc_runs (t\<lparr>instant := n\<rparr>) T \<longleftrightarrow> tsc_runs t T"
  by (simp add: tsc_runs_def)

lemma rdtsc_runs: "tsc_runs t T \<Longrightarrow> rdtsc t = (of_nat (T (instant t)), t\<lparr>instant := Suc (instant t)\<rparr>)"
  by (simp add: rdtsc_def tsc_runs_def)

text \<open>The signed comparison of \<open>is_expired\<close> sees through the wrap-around of the counter.\<close>

lemma sint_of_nat_diff:
  assumes "a < b + 2 ^ 63" and "b \<le> a + 2 ^ 63"
  shows "sint (of_nat a - of_nat b :: u64) = int a - int b"
proof -
  have w: "of_nat a - of_nat b = (word_of_int (int a - int b) :: u64)"
    by simp
  have "(int a - int b + 2 ^ 63) mod 2 ^ 64 = int a - int b + 2 ^ 63"
    using assms by (intro mod_pos_pos_trivial) auto
  then show ?thesis
    unfolding w int_word_sint by simp
qed

lemma is_expired_runs:
  assumes "tsc_runs t T" and "deadline d = of_nat D"
    and "D < T (instant t) + 2 ^ 63" and "T (instant t) \<le> D + 2 ^ 63"
  shows "is_expired d t = (D \<le> T (instant t), t\<lparr>instant := Suc (instant t)\<rparr>)"
  using assms sint_of_nat_diff [of D "T (instant t)"] by (simp add: is_expired_def rdtsc_runs)

text \<open>The state of the polled device after \<open>i\<close> checks, the first at instant \<open>k\<close>.\<close>

primrec polled :: "('s \<Rightarrow> nat \<Rightarrow> bool \<times> 's) \<Rightarrow> 's \<Rightarrow> nat \<Rightarrow> nat \<Rightarrow> 's" where
  "polled condition s k 0 = s"
| "polled condition s k (Suc i) = snd (condition (polled condition s k i) (k + i))"

lemma polled_shift: "polled condition (snd (condition s k)) (Suc k) i = polled condition s k (Suc i)"
  by (induction i) auto

text \<open>How a wait ends: after \<open>j\<close> checks in vain, either the deadline has passed or the next check succeeds.\<close>

definition wait_outcome ::
    "('s \<Rightarrow> nat \<Rightarrow> bool \<times> 's) \<Rightarrow> (nat \<Rightarrow> nat) \<Rightarrow> nat \<Rightarrow> 's \<Rightarrow> timer \<Rightarrow> nat \<Rightarrow> bool \<times> 's \<times> timer \<Rightarrow> bool" where
  "wait_outcome condition T D s t j r \<longleftrightarrow>
     (let k = instant t; st = polled condition s (Suc k)
      in (\<forall>i < j. T (k + i) < D \<and> \<not> fst (condition (st i) (Suc (k + i)))) \<and>
         (if D \<le> T (k + j) then r = (False, st j, t\<lparr>instant := Suc (k + j)\<rparr>)
          else fst (condition (st j) (Suc (k + j))) \<and>
               r = (True, st (Suc j), t\<lparr>instant := Suc (k + j)\<rparr>)))"

lemma wait_loop_outcome:
  assumes "tsc_runs t T" and "deadline d = of_nat D"
    and "D < T (instant t) + 2 ^ 63" and "T (instant t) \<le> D + 2 ^ 62"
  shows "\<exists>j r. wait_loop condition d s t = Some r \<and> wait_outcome condition T D s t j r"
  using assms
proof (induction "D - T (instant t)" arbitrary: s t rule: less_induct)
  case less
  let ?k = "instant t"
  let ?t1 = "t\<lparr>instant := Suc ?k\<rparr>"
  have ex: "is_expired d t = (D \<le> T ?k, ?t1)"
    using less.prems by (intro is_expired_runs) auto
  obtain c s1 where cs: "condition s (Suc ?k) = (c, s1)"
    by (cases "condition s (Suc ?k)")
  consider "D \<le> T ?k" | "T ?k < D" "c" | "T ?k < D" "\<not> c"
    by linarith
  then show ?case
  proof cases
    case 1
    then have "wait_loop condition d s t = Some (False, s, ?t1)"
      by (simp add: wait_loop.simps [of _ d s t] ex)
    moreover have "wait_outcome condition T D s t 0 (False, s, ?t1)"
      using 1 by (simp add: wait_outcome_def)
    ultimately show ?thesis
      by blast
  next
    case 2
    then have "wait_loop condition d s t = Some (True, s1, ?t1)"
      by (simp add: wait_loop.simps [of _ d s t] ex cs)
    moreover have "wait_outcome condition T D s t 0 (True, s1, ?t1)"
      using 2 by (simp add: wait_outcome_def cs)
    ultimately show ?thesis
      by blast
  next
    case 3
    have step: "T ?k < T (Suc ?k)" "T (Suc ?k) \<le> T ?k + 2 ^ 62"
      using less.prems(1) by (simp_all add: tsc_runs_def)
    have "\<exists>j r. wait_loop condition d s1 ?t1 = Some r \<and> wait_outcome condition T D s1 ?t1 j r"
      using less.prems step 3 by (intro less.hyps) auto
    then obtain j r where r: "wait_loop condition d s1 ?t1 = Some r"
      and out: "wait_outcome condition T D s1 ?t1 j r"
      by blast
    have "wait_loop condition d s t = Some r"
      using 3 r by (simp add: wait_loop.simps [of _ d s t] ex cs)
    moreover have "wait_outcome condition T D s t (Suc j) r"
    proof -
      have sh: "polled condition s1 (Suc (Suc ?k)) i = polled condition s (Suc ?k) (Suc i)" for i
        using polled_shift [of condition s "Suc ?k" i] by (simp add: cs)
      show ?thesis
        using out 3 unfolding wait_outcome_def
        by (auto simp: sh Let_def cs All_less_Suc2 split: if_splits simp del: polled.simps(2))
    qed
    ultimately show ?thesis
      by blast
  qed
qed

text \<open>C29: \<open>wait_for\<close> always returns while the counter runs. It returns \<open>true\<close> at the first check that succeeds
  before the deadline, and \<open>false\<close> when the deadline passes first, whether or not the counter wraps around
  meanwhile; the deadline is \<open>timeout_ms\<close> milliseconds of counter cycles after the call.\<close>

theorem wait_for_correct:
  fixes condition :: "'s \<Rightarrow> nat \<Rightarrow> bool \<times> 's"
  assumes "tsc_runs t T" and "D = T (instant t) + unat timeout_ms * 1000 * unat (TSC_CYCLES_PER_US t)"
    and "unat timeout_ms * 1000 * unat (TSC_CYCLES_PER_US t) < 2 ^ 63"
  shows "\<exists>j r. wait_for timeout_ms condition s t = Some r \<and>
    wait_outcome condition T D s (t\<lparr>instant := Suc (instant t)\<rparr>) j r"
proof -
  have "from_ms timeout_ms t = (\<lparr>deadline = of_nat D\<rparr>, t\<lparr>instant := Suc (instant t)\<rparr>)"
    using assms(1,2) by (simp add: from_ms_def from_us_def rdtsc_runs)
  moreover have "T (instant t) < T (Suc (instant t))" "T (Suc (instant t)) \<le> T (instant t) + 2 ^ 62"
    using assms(1) by (simp_all add: tsc_runs_def)
  ultimately show ?thesis
    using wait_loop_outcome [of "t\<lparr>instant := Suc (instant t)\<rparr>" T "\<lparr>deadline = of_nat D\<rparr>" D condition s]
      assms by (simp add: wait_for_def)
qed

theorem wait_for_correct_witness:
  "\<exists>j r. wait_for 1 (\<lambda>s k. (k = 7, s)) () (new_timer (\<lambda>n. of_nat (2 ^ 64 - 5000 + 1000 * n)) (\<lambda>p n. 0)) = Some r \<and>
    wait_outcome (\<lambda>s k. (k = 7, s)) (\<lambda>n. 2 ^ 64 - 5000 + 1000 * n) (2 ^ 64 - 5000 + 2000000) ()
      (new_timer (\<lambda>n. of_nat (2 ^ 64 - 5000 + 1000 * n)) (\<lambda>p n. 0)\<lparr>instant := Suc 0\<rparr>) j r"
proof -
  have "tsc_runs (new_timer (\<lambda>n. of_nat (2 ^ 64 - 5000 + 1000 * n)) (\<lambda>p n. 0)) (\<lambda>n. 2 ^ 64 - 5000 + 1000 * n)"
    by (simp add: tsc_runs_def new_timer_def)
  then show ?thesis
    using wait_for_correct [where t = "new_timer (\<lambda>n. of_nat (2 ^ 64 - 5000 + 1000 * n)) (\<lambda>p n. 0)"
        and timeout_ms = 1 and s = "()" and condition = "\<lambda>s k. (k = 7, s)"
        and D = "2 ^ 64 - 5000 + 2000000"]
    by (simp add: new_timer_def)
qed

section \<open>Calibration\<close>

text \<open>
  The two counters run together: the power management timer shows the lower 24 or 32 bits of a count \<open>P\<close>
  that grows without bound, by at most \<open>g\<close> ticks between consecutive instants, and the time stamp counter
  runs at \<open>F\<close> Hz against the 3.579545 MHz of the timer, up to one tick of each.
\<close>

definition timer_bits :: "timer \<Rightarrow> nat" where
  "timer_bits t = (if PM_TIMER_32BIT t \<noteq> 0 then 32 else 24)"

definition pm_runs :: "nat \<Rightarrow> timer \<Rightarrow> (nat \<Rightarrow> nat) \<Rightarrow> bool" where
  "pm_runs g t P \<longleftrightarrow>
     (\<forall>n. take_bit (timer_bits t) (inl t (ucast (PM_TIMER_PORT t)) n) = of_nat (P n mod 2 ^ timer_bits t) \<and>
          P n \<le> P (Suc n) \<and> P (Suc n) \<le> P n + g) \<and>
     (\<forall>b. \<exists>n. b \<le> P n)"

definition rate :: "nat \<Rightarrow> (nat \<Rightarrow> nat) \<Rightarrow> (nat \<Rightarrow> nat) \<Rightarrow> bool" where
  "rate F T P \<longleftrightarrow>
     (\<forall>m n. m \<le> n \<longrightarrow> T m \<le> T n \<and>
        (T n - T m) * 3579545 \<le> F * (P n - P m) + F + 3579545 \<and>
        F * (P n - P m) \<le> (T n - T m) * 3579545 + F + 3579545)"

lemma timer_mask_bits: "timer_mask t = mask (timer_bits t)"
  by (simp add: timer_mask_def timer_bits_def mask_eq_exp_minus_1)

lemma pm_runs_instant [simp]:
  "timer_bits (t\<lparr>instant := n\<rparr>) = timer_bits t" "pm_runs g (t\<lparr>instant := n\<rparr>) P \<longleftrightarrow> pm_runs g t P"
  by (simp_all add: pm_runs_def timer_bits_def)

lemma pm_runs_mono: "pm_runs g t P \<Longrightarrow> m \<le> n \<Longrightarrow> P m \<le> P n"
  by (simp add: pm_runs_def lift_Suc_mono_le)

lemma pm_runs_unbounded: "pm_runs g t P \<Longrightarrow> \<exists>n. b \<le> P n"
  unfolding pm_runs_def by blast

text \<open>The masked difference of two readings is the number of ticks between them.\<close>

lemma masked_elapsed:
  assumes "w \<le> 32" and "a \<le> b" and "b < a + 2 ^ w"
  shows "unat (((of_nat (b mod 2 ^ w) :: u32) - of_nat (a mod 2 ^ w)) AND mask w) = b - a"
proof -
  have "((of_nat (b mod 2 ^ w) :: u32) - of_nat (a mod 2 ^ w)) AND mask w =
      take_bit w (of_int (int (b mod 2 ^ w) - int (a mod 2 ^ w)))"
    by (simp add: take_bit_eq_mask)
  also have "\<dots> = of_int (take_bit w (int (b mod 2 ^ w) - int (a mod 2 ^ w)))"
    by (rule take_bit_of_int)
  also have "take_bit w (int (b mod 2 ^ w) - int (a mod 2 ^ w)) = (int b - int a) mod 2 ^ w"
    by (simp add: take_bit_eq_mod of_nat_mod mod_diff_eq)
  also have "\<dots> = int (b - a)"
  proof -
    have "int b < int (a + 2 ^ w)"
      using assms(3) by (simp only: of_nat_less_iff)
    then show ?thesis
      using assms(2) by (simp add: of_nat_diff)
  qed
  finally have eq: "((of_nat (b mod 2 ^ w) :: u32) - of_nat (a mod 2 ^ w)) AND mask w = of_nat (b - a)"
    by (simp only: of_int_of_nat_eq)
  have "b - a < 2 ^ w"
    using assms(2,3) by simp
  also have "(2 :: nat) ^ w \<le> 2 ^ 32"
    using assms(1) by (rule power_increasing) simp
  finally have "unat (of_nat (b - a) :: u32) = b - a"
    by (simp add: unat_of_nat)
  then show ?thesis
    by (simp only: eq)
qed

lemma timer_bits_le: "timer_bits t \<le> 32" "24 \<le> timer_bits t"
  by (simp_all add: timer_bits_def)

lemma elapsed_ticks:
  assumes "a \<le> b" and "b < a + 2 ^ 24"
  shows "unat (((of_nat (b mod 2 ^ timer_bits t) :: u32) - of_nat (a mod 2 ^ timer_bits t)) AND
           mask (timer_bits t)) = b - a"
proof (rule masked_elapsed [OF timer_bits_le(1) assms(1)])
  have "(2 :: nat) ^ 24 \<le> 2 ^ timer_bits t"
    using timer_bits_le(2) by (rule power_increasing) simp
  then show "b < a + 2 ^ timer_bits t"
    using assms(2) by linarith
qed

lemma read_pm_timer_runs:
  assumes "pm_runs g t P" and "(ucast (PM_TIMER_PORT t) :: u16) \<noteq> 0"
  obtains raw where "read_pm_timer t = (raw, t\<lparr>instant := Suc (instant t)\<rparr>)"
    and "raw AND mask (timer_bits t) = of_nat (P (instant t) mod 2 ^ timer_bits t)"
  using assms by (auto simp: read_pm_timer_def pm_runs_def Let_def take_bit_eq_mask)

text \<open>Equal readings less than a full turn apart are equal counts.\<close>

lemma reading_inj:
  assumes "a \<le> b" and "b < a + 2 ^ 24"
    and "(of_nat (b mod 2 ^ timer_bits t) :: u32) = of_nat (a mod 2 ^ timer_bits t)"
  shows "b = a"
  using elapsed_ticks [OF assms(1,2), of t] assms(1,3) by simp

lemma wait_tick_returns:
  assumes "pm_runs g t P" and "g \<le> 2 ^ 20" and "(ucast (PM_TIMER_PORT t) :: u16) \<noteq> 0"
    and "P k \<le> P (instant t)" and "P (instant t) \<le> P k + g" and "P k < P N"
  shows "\<exists>n \<ge> instant t. wait_tick (mask (timer_bits t)) (of_nat (P k mod 2 ^ timer_bits t)) t =
    Some (t\<lparr>instant := Suc n\<rparr>)"
  using assms
proof (induction "N - instant t" arbitrary: t)
  case 0
  then have "P N \<le> P (instant t)"
    by (simp add: pm_runs_mono)
  obtain raw where raw: "read_pm_timer t = (raw, t\<lparr>instant := Suc (instant t)\<rparr>)"
    "raw AND mask (timer_bits t) = of_nat (P (instant t) mod 2 ^ timer_bits t)"
    using 0 by (auto elim: read_pm_timer_runs)
  then have "raw AND mask (timer_bits t) \<noteq> of_nat (P k mod 2 ^ timer_bits t)"
    using 0 \<open>P N \<le> P (instant t)\<close> reading_inj [of "P k" "P (instant t)" t] by auto
  then show ?case
    by (intro exI [of _ "instant t"]) (simp add: wait_tick.simps [of _ _ t] raw(1))
next
  case (Suc j)
  obtain raw where raw: "read_pm_timer t = (raw, t\<lparr>instant := Suc (instant t)\<rparr>)"
    "raw AND mask (timer_bits t) = of_nat (P (instant t) mod 2 ^ timer_bits t)"
    using Suc.prems by (auto elim: read_pm_timer_runs)
  show ?case
  proof (cases "P (instant t) = P k")
    case True
    have "P (Suc (instant t)) \<le> P (instant t) + g" "P (instant t) \<le> P (Suc (instant t))"
      using Suc.prems(1) by (simp_all add: pm_runs_def)
    then have "\<exists>n \<ge> Suc (instant t). wait_tick (mask (timer_bits t)) (of_nat (P k mod 2 ^ timer_bits t))
        (t\<lparr>instant := Suc (instant t)\<rparr>) = Some (t\<lparr>instant := Suc n\<rparr>)"
      using Suc.hyps(1) [of "t\<lparr>instant := Suc (instant t)\<rparr>"] Suc.hyps(2) Suc.prems True by simp
    then show ?thesis
      using raw True by (auto simp: wait_tick.simps [of _ _ t] Let_def intro: Suc_leD)
  next
    case False
    then have "raw AND mask (timer_bits t) \<noteq> of_nat (P k mod 2 ^ timer_bits t)"
      using Suc.prems raw(2) reading_inj [of "P k" "P (instant t)" t] by auto
    then show ?thesis
      by (intro exI [of _ "instant t"]) (simp add: wait_tick.simps [of _ _ t] raw(1))
  qed
qed

lemma wait_ticks_returns:
  assumes "pm_runs g t P" and "g \<le> 2 ^ 20" and "(ucast (PM_TIMER_PORT t) :: u16) \<noteq> 0"
    and "P a \<le> P (instant t)" and "P (instant t) \<le> P a + 178977 + 2 * g" and "P a + 178977 \<le> P N"
  shows "\<exists>n \<ge> instant t. wait_ticks (mask (timer_bits t)) (of_nat (P a mod 2 ^ timer_bits t)) t =
    Some (t\<lparr>instant := Suc n\<rparr>) \<and> P a + 178977 \<le> P n \<and> P n \<le> P a + 178977 + 2 * g"
  using assms
proof (induction "N - instant t" arbitrary: t rule: less_induct)
  case less
  obtain raw where raw: "read_pm_timer t = (raw, t\<lparr>instant := Suc (instant t)\<rparr>)"
    "raw AND mask (timer_bits t) = of_nat (P (instant t) mod 2 ^ timer_bits t)"
    using less.prems by (auto elim: read_pm_timer_runs)
  have el: "unat (((raw AND mask (timer_bits t)) - of_nat (P a mod 2 ^ timer_bits t)) AND mask (timer_bits t)) =
      P (instant t) - P a"
    unfolding raw(2) using less.prems by (intro elapsed_ticks) auto
  show ?case
  proof (cases "P a + 178977 \<le> P (instant t)")
    case True
    then have "CALIBRATION_TICKS \<le> ((raw AND mask (timer_bits t)) - of_nat (P a mod 2 ^ timer_bits t)) AND mask (timer_bits t)"
      unfolding word_le_nat_alt el by (simp add: CALIBRATION_TICKS_def)
    then show ?thesis
      using True less.prems by (intro exI [of _ "instant t"]) (simp add: wait_ticks.simps [of _ _ t] raw(1))
  next
    case False
    then have "\<not> CALIBRATION_TICKS \<le> ((raw AND mask (timer_bits t)) - of_nat (P a mod 2 ^ timer_bits t)) AND mask (timer_bits t)"
      unfolding word_le_nat_alt el using less.prems by (simp add: CALIBRATION_TICKS_def)
    then have step: "wait_ticks (mask (timer_bits t)) (of_nat (P a mod 2 ^ timer_bits t)) t =
        wait_ticks (mask (timer_bits t)) (of_nat (P a mod 2 ^ timer_bits t)) (t\<lparr>instant := Suc (instant t)\<rparr>)"
      by (simp add: wait_ticks.simps [of _ _ t] raw(1))
    have "instant t < N"
      using False less.prems pm_runs_mono [OF less.prems(1), of N "instant t"] by (cases "N \<le> instant t") auto
    moreover have "P (Suc (instant t)) \<le> P (instant t) + g" "P (instant t) \<le> P (Suc (instant t))"
      using less.prems(1) by (simp_all add: pm_runs_def)
    ultimately have "\<exists>n \<ge> Suc (instant t). wait_ticks (mask (timer_bits t)) (of_nat (P a mod 2 ^ timer_bits t))
        (t\<lparr>instant := Suc (instant t)\<rparr>) = Some (t\<lparr>instant := Suc n\<rparr>) \<and>
        P a + 178977 \<le> P n \<and> P n \<le> P a + 178977 + 2 * g"
      using less.hyps [of "t\<lparr>instant := Suc (instant t)\<rparr>"] less.prems False by simp
    then show ?thesis
      unfolding step by (auto intro: Suc_leD)
  qed
qed

text \<open>What the calibration measures, over any running timer.\<close>

lemma calibrate_measures:
  assumes pm: "pm_runs g t P" "g \<le> 2 ^ 20" and port: "(ucast (PM_TIMER_PORT t) :: u16) \<noteq> 0"
  shows "\<exists>a n. a < n \<and> P a + 178977 \<le> P n \<and> P (n + 2) < P a + 2 ^ 24 \<and>
    calibrate_tsc_with_pm_timer t =
      Some (Some (of_nat (unat (tsc t (Suc n) - tsc t (Suc a)) * 3579545 div (P (n + 2) - P a))),
            t\<lparr>instant := n + 3\<rparr>)"
proof -
  let ?w = "timer_bits t"
  have pm': "pm_runs g (t\<lparr>instant := i\<rparr>) P" for i
    using pm(1) by simp
  have step: "P i \<le> P (Suc i)" "P (Suc i) \<le> P i + g" for i
    using pm(1) by (simp_all add: pm_runs_def)
  have port': "(ucast (PM_TIMER_PORT (t\<lparr>instant := i\<rparr>)) :: u16) \<noteq> 0" for i
    using port by simp
  obtain r0 where r0: "read_pm_timer t = (r0, t\<lparr>instant := Suc (instant t)\<rparr>)"
    "r0 AND mask ?w = of_nat (P (instant t) mod 2 ^ ?w)"
    using pm port by (auto elim: read_pm_timer_runs)
  obtain N where "P (instant t) < P N"
    using pm_runs_unbounded [OF pm(1), of "Suc (P (instant t))"] by (auto simp: Suc_le_eq)
  then obtain k where k: "wait_tick (mask ?w) (of_nat (P (instant t) mod 2 ^ ?w)) (t\<lparr>instant := Suc (instant t)\<rparr>) =
      Some (t\<lparr>instant := Suc k\<rparr>)"
    using wait_tick_returns [OF pm' pm(2) port', of "instant t" "Suc (instant t)" N] step [of "instant t"] by auto
  let ?a = "Suc k"
  obtain r1 where r1: "read_pm_timer (t\<lparr>instant := ?a\<rparr>) = (r1, t\<lparr>instant := Suc ?a\<rparr>)"
    "r1 AND mask ?w = of_nat (P ?a mod 2 ^ ?w)"
    using read_pm_timer_runs [OF pm' port', of ?a] by auto
  obtain M where "P ?a + 178977 \<le> P M"
    using pm_runs_unbounded [OF pm(1)] by blast
  then obtain n where n: "Suc (Suc ?a) \<le> n" "P ?a + 178977 \<le> P n" "P n \<le> P ?a + 178977 + 2 * g"
    "wait_ticks (mask ?w) (of_nat (P ?a mod 2 ^ ?w)) (t\<lparr>instant := Suc (Suc ?a)\<rparr>) = Some (t\<lparr>instant := Suc n\<rparr>)"
    using wait_ticks_returns [OF pm' pm(2) port', of ?a "Suc (Suc ?a)" M] step [of ?a] step [of "Suc ?a"] by auto
  obtain r2 where r2: "read_pm_timer (t\<lparr>instant := Suc (Suc n)\<rparr>) = (r2, t\<lparr>instant := Suc (Suc (Suc n))\<rparr>)"
    "r2 AND mask ?w = of_nat (P (Suc (Suc n)) mod 2 ^ ?w)"
    using read_pm_timer_runs [OF pm' port', of "Suc (Suc n)"] by auto
  have n2: "P (n + 2) = P (Suc (Suc n))"
    by simp
  have lim: "P (n + 2) < P ?a + 2 ^ 24" "P ?a + 178977 \<le> P (n + 2)"
    using step [of n] step [of "Suc n"] n(2,3) pm(2) unfolding n2 by simp_all
  have el: "unat ((r2 AND mask ?w) - (r1 AND mask ?w) AND mask ?w) = P (n + 2) - P ?a"
    unfolding r1(2) r2(2) n2 using lim [unfolded n2] by (intro elapsed_ticks) simp_all
  then have nz: "((r2 AND mask ?w) - (r1 AND mask ?w)) AND mask ?w \<noteq> 0"
    using lim by (auto simp del: unat_0 simp: unat_eq_0 [symmetric])
  have "calibrate_tsc_with_pm_timer t =
      Some (Some (of_nat (unat (tsc t (Suc n) - tsc t (Suc ?a)) * 3579545 div (P (n + 2) - P ?a))), t\<lparr>instant := n + 3\<rparr>)"
    using port r0 k r1 n(4) r2 nz el
    by (simp add: calibrate_tsc_with_pm_timer_def timer_mask_bits rdtsc_def PM_TIMER_FREQ_def numeral_3_eq_3
        split: if_splits)
  then show ?thesis
    using n lim by (intro exI [of _ ?a] exI [of _ n]) simp
qed

text \<open>The quotient of the measured intervals is close to the frequency.\<close>

lemma quotient_accurate:
  fixes pm :: nat
  assumes "pm \<ge> 178977" and "d \<le> pm" and "pm \<le> d + 2 * g"
    and up: "x \<le> F * d + F + 3579545" and down: "F * d \<le> x + F + 3579545"
  shows "(x div pm - F) * 178977 \<le> F + 3579545"
    and "(F - x div pm - 1) * 178977 \<le> F * (2 * g + 1) + 3579545"
proof -
  let ?f = "x div pm"
  have x: "?f * pm \<le> x" "x < (?f + 1) * pm"
    using assms(1) dividend_less_div_times [of pm x] by (simp_all add: algebra_simps)
  have "(?f - F) * 178977 \<le> (?f - F) * pm"
    using assms(1) by (rule mult_le_mono2)
  also have "\<dots> \<le> F + 3579545"
  proof -
    have "F * d \<le> F * pm"
      using assms(2) by (rule mult_le_mono2)
    then show ?thesis
      unfolding diff_mult_distrib using x(1) up by linarith
  qed
  finally show "(?f - F) * 178977 \<le> F + 3579545" .
  have "(F - ?f - 1) * 178977 \<le> (F - ?f - 1) * pm"
    using assms(1) by (rule mult_le_mono2)
  also have "\<dots> \<le> F * (2 * g + 1) + 3579545"
  proof -
    have "F * pm \<le> F * (d + 2 * g)"
      using assms(3) by (rule mult_le_mono2)
    then have "F * pm \<le> F * d + F * (2 * g)"
      by (simp add: distrib_left)
    then have "F * pm \<le> (?f + 1) * pm + F * (2 * g) + F + 3579545"
      using x(2) down by linarith
    then show ?thesis
      by (simp add: diff_mult_distrib distrib_left distrib_right)
  qed
  finally show "(F - ?f - 1) * 178977 \<le> F * (2 * g + 1) + 3579545" .
qed

text \<open>C30: Calibration of the time stamp counter. When the firmware finds the power management timer and both
  counters run, \<open>init\<close> returns and stores a frequency within \<open>(2g + 1) / 178977\<close> of the true one, where \<open>g\<close>
  bounds the timer ticks that one read takes, and the cycles per microsecond that follow from it; the timer
  may have 24 or 32 bits and may wrap around during the measurement.\<close>

theorem time_init_accurate:
  assumes "find_pm_timer_port m rsdp = Some (port, is_32bit)" and "port \<noteq> 0"
    and "t1 = t\<lparr>PM_TIMER_PORT := ucast port, PM_TIMER_32BIT := if is_32bit then 1 else 0\<rparr>"
    and "pm_runs g t1 P" and "g \<le> 2 ^ 20" and "\<forall>n. tsc t n = of_nat (T n)" and "rate F T P" and "F < 2 ^ 40"
  shows "\<exists>t' f. time_init m (Some rsdp) t = Some t' \<and>
    TSC_FREQ_HZ t' = f \<and> TSC_CYCLES_PER_US t' = f div 1000000 \<and>
    (unat f - F) * 178977 \<le> F + 3579545 \<and>
    (F - unat f - 1) * 178977 \<le> F * (2 * g + 1) + 3579545"
proof -
  have port: "(ucast (PM_TIMER_PORT t1) :: u16) \<noteq> 0"
  proof -
    have "(ucast (ucast port :: u64) :: u16) = port"
      by (rule bit_word_eqI) (simp add: bit_simps)
    then show ?thesis
      using assms(2,3) by simp
  qed
  obtain a n where an: "a < n" "P a + 178977 \<le> P n" "P (n + 2) < P a + 2 ^ 24"
    and cal: "calibrate_tsc_with_pm_timer t1 =
      Some (Some (of_nat (unat (tsc t1 (Suc n) - tsc t1 (Suc a)) * 3579545 div (P (n + 2) - P a))),
            t1\<lparr>instant := n + 3\<rparr>)"
    using calibrate_measures [OF assms(4,5) port] by blast
  define x where "x = (T (Suc n) - T (Suc a)) * 3579545"
  have step: "P i \<le> P (Suc i)" "P (Suc i) \<le> P i + g" for i
    using assms(4) by (simp_all add: pm_runs_def)
  let ?d = "P (Suc n) - P (Suc a)"
  let ?pm = "P (n + 2) - P a"
  have rt: "x \<le> F * ?d + F + 3579545" "F * ?d \<le> x + F + 3579545" "T (Suc a) \<le> T (Suc n)"
    using assms(7) an(1) by (simp_all add: rate_def x_def)
  have bounds: "178977 \<le> ?pm" "?d \<le> ?pm" "?pm \<le> ?d + 2 * g"
    using step [of n] step [of "Suc n"] step [of a] an pm_runs_mono [OF assms(4), of "Suc a" "Suc n"]
    by auto
  note acc = quotient_accurate [OF bounds rt(1,2)]
  have "F * ?d \<le> 2 ^ 40 * 2 ^ 24"
    using assms(8) bounds(2) an(3) by (intro mult_mono) auto
  then have "T (Suc n) - T (Suc a) < 2 ^ 64"
    using rt(1) assms(8) by (simp add: x_def)
  moreover have "tsc t1 (Suc n) - tsc t1 (Suc a) = of_nat (T (Suc n) - T (Suc a))"
    using rt(3) assms(3,6) by (simp add: of_nat_diff)
  ultimately have el: "unat (tsc t1 (Suc n) - tsc t1 (Suc a)) * 3579545 = x"
    by (simp add: x_def unat_of_nat)
  have "x div ?pm \<le> 2 ^ 63"
    using acc(1) assms(8) by simp
  then have "unat (of_nat (x div ?pm) :: u64) = x div ?pm"
    by (simp add: unat_of_nat)
  then show ?thesis
    using cal [unfolded el] acc assms(1,3) by (simp add: time_init_def Let_def)
qed

text \<open>ACPI tables with the timer at port \<open>0x608\<close>, and counters at 3.579545 and 357.9545 MHz.\<close>

definition sample_acpi :: memory where
  "sample_acpi a =
     (case map_of [(0, 0x52), (1, 0x53), (2, 0x44), (3, 0x20), (4, 0x50), (5, 0x54), (6, 0x52), (7, 0x20),
        (16, 64), (68, 40), (100, 128), (128, 0x46), (129, 0x41), (130, 0x43), (131, 0x50),
        (204, 8), (205, 6), (241, 1)] a of Some b \<Rightarrow> b | None \<Rightarrow> 0)"

definition sample_timer :: timer where
  "sample_timer = new_timer (\<lambda>n. of_nat (400 * n)) (\<lambda>p n. of_nat (4 * n))"

lemma sample_acpi_port: "find_pm_timer_port sample_acpi 0 = Some (0x608, True)"
  by (simp add: find_pm_timer_port_def fadt_timer_def sdt_entry_def read_bytes_numeral read_u64_def read_u32_def
      RSDP_SIGNATURE_def FADT_SIGNATURE_def ACPI_SDT_HEADER_SIZE_def sample_acpi_def)

theorem time_init_accurate_witness:
  "\<exists>t' f. time_init sample_acpi (Some 0) sample_timer = Some t' \<and>
    TSC_FREQ_HZ t' = f \<and> TSC_CYCLES_PER_US t' = f div 1000000 \<and>
    (unat f - 357954500) * 178977 \<le> 357954500 + 3579545 \<and>
    (357954500 - unat f - 1) * 178977 \<le> 357954500 * (2 * 4 + 1) + 3579545"
proof (rule time_init_accurate [OF sample_acpi_port])
  let ?t1 = "sample_timer\<lparr>PM_TIMER_PORT := ucast (0x608 :: u16), PM_TIMER_32BIT := if True then 1 else 0\<rparr>"
  show "(0x608 :: u16) \<noteq> 0" and "?t1 = ?t1"
    by simp_all
  have "\<exists>n. b \<le> 4 * n" for b :: nat
    by (rule exI [of _ b]) simp
  moreover have "take_bit 32 (of_nat (4 * n)) = (of_nat (4 * n mod 2 ^ 32) :: u32)" for n
    by (subst take_bit_of_nat) (simp only: take_bit_eq_mod)
  ultimately show "pm_runs 4 ?t1 (\<lambda>n. 4 * n)"
    by (simp add: pm_runs_def timer_bits_def sample_timer_def new_timer_def del: of_nat_mult of_nat_numeral)
  show "\<forall>n. tsc sample_timer n = of_nat (400 * n)"
    by (simp add: sample_timer_def new_timer_def)
  show "rate 357954500 (\<lambda>n. 400 * n) (\<lambda>n. 4 * n)"
    by (auto simp: rate_def diff_mult_distrib2)
qed simp_all

end
