(* ===== verification/Usb_Core.thy ===== *)
theory Usb_Core
  imports Crab_Prelude
begin

text \<open>
  The USB core: \<open>src/src/drivers/usb/controller.rs\<close>.

  Descriptors are packed structures, read from their bytes; arrays with a count (\<open>interfaces\<close> with
  \<open>num_interfaces\<close>, \<open>endpoints\<close> with \<open>num_endpoints\<close>) are the list of their used entries. The trait
  \<open>UsbController\<close> is the record \<open>usb_controller\<close> of its methods over the state \<open>'s\<close> of a controller with the
  devices behind it; a transfer returns the buffer after it, next to the number of bytes or the error.
\<close>

section \<open>Speeds and endpoints\<close>

datatype usb_speed = Low | Full | High | Super | SuperPlus

definition default_max_packet_size :: "usb_speed \<Rightarrow> u16" where
  "default_max_packet_size s =
     (case s of Low \<Rightarrow> 8 | Full \<Rightarrow> 8 | High \<Rightarrow> 64 | Super \<Rightarrow> 512 | SuperPlus \<Rightarrow> 512)"

definition speed_from_xhci :: "u8 \<Rightarrow> usb_speed option" where
  "speed_from_xhci speed =
     (if speed = 1 then Some Full else if speed = 2 then Some Low else if speed = 3 then Some High
      else if speed = 4 then Some Super else if speed = 5 then Some SuperPlus else None)"

definition speed_from_ehci :: "bool \<Rightarrow> usb_speed" where
  "speed_from_ehci is_low_speed = (if is_low_speed then Low else High)"

definition speed_from_ohci :: "bool \<Rightarrow> usb_speed" where
  "speed_from_ohci is_low_speed = (if is_low_speed then Low else Full)"

datatype endpoint_type = Control | Isochronous | Bulk | Interrupt

datatype direction = Out | In | Setup

text \<open>The four values of \<open>attr & 0x03\<close>; the fifth arm of the match is unreachable.\<close>

definition from_attributes :: "u8 \<Rightarrow> endpoint_type" where
  "from_attributes attr =
     (let k = attr AND 3
      in if k = 0 then Control else if k = 1 then Isochronous else if k = 2 then Bulk else Interrupt)"

section \<open>Setup packets and descriptors\<close>

record setup_packet =
  sp_request_type :: u8
  sp_request :: u8
  sp_value :: u16
  sp_index :: u16
  sp_length :: u16

definition setup_packet_new :: "u8 \<Rightarrow> u8 \<Rightarrow> u16 \<Rightarrow> u16 \<Rightarrow> u16 \<Rightarrow> setup_packet" where
  "setup_packet_new request_type request value index len =
     \<lparr>sp_request_type = request_type, sp_request = request, sp_value = value, sp_index = index, sp_length = len\<rparr>"

definition setup_as_bytes :: "setup_packet \<Rightarrow> u8 list" where
  "setup_as_bytes p =
     [sp_request_type p, sp_request p] @ le_bytes 2 (unat (sp_value p)) @ le_bytes 2 (unat (sp_index p)) @
     le_bytes 2 (unat (sp_length p))"

definition DESC_DEVICE :: u8 where "DESC_DEVICE = 1"
definition DESC_CONFIGURATION :: u8 where "DESC_CONFIGURATION = 2"
definition DESC_INTERFACE :: u8 where "DESC_INTERFACE = 4"
definition DESC_ENDPOINT :: u8 where "DESC_ENDPOINT = 5"

record device_descriptor =
  dd_length :: u8
  dd_type :: u8
  dd_bcd_usb :: u16
  dd_class :: u8
  dd_subclass :: u8
  dd_protocol :: u8
  dd_max_packet_size0 :: u8
  dd_vendor_id :: u16
  dd_product_id :: u16
  dd_bcd_device :: u16
  dd_manufacturer :: u8
  dd_product :: u8
  dd_serial_number :: u8
  dd_num_configurations :: u8

definition default_device_descriptor :: device_descriptor where
  "default_device_descriptor =
     \<lparr>dd_length = 0, dd_type = 0, dd_bcd_usb = 0, dd_class = 0, dd_subclass = 0, dd_protocol = 0,
      dd_max_packet_size0 = 0, dd_vendor_id = 0, dd_product_id = 0, dd_bcd_device = 0, dd_manufacturer = 0,
      dd_product = 0, dd_serial_number = 0, dd_num_configurations = 0\<rparr>"

text \<open>Fields of a packed structure by offset; the callers have checked the length.\<close>

definition byte_at :: "u8 list \<Rightarrow> nat \<Rightarrow> u8" where
  "byte_at bs i = bs ! i"

definition u16_at :: "u8 list \<Rightarrow> nat \<Rightarrow> u16" where
  "u16_at bs i = of_nat (field bs i 2)"

definition read_device_descriptor :: "u8 list \<Rightarrow> device_descriptor" where
  "read_device_descriptor bs =
     \<lparr>dd_length = byte_at bs 0, dd_type = byte_at bs 1, dd_bcd_usb = u16_at bs 2, dd_class = byte_at bs 4,
      dd_subclass = byte_at bs 5, dd_protocol = byte_at bs 6, dd_max_packet_size0 = byte_at bs 7,
      dd_vendor_id = u16_at bs 8, dd_product_id = u16_at bs 10, dd_bcd_device = u16_at bs 12,
      dd_manufacturer = byte_at bs 14, dd_product = byte_at bs 15, dd_serial_number = byte_at bs 16,
      dd_num_configurations = byte_at bs 17\<rparr>"

record configuration_descriptor =
  cd_length :: u8
  cd_type :: u8
  cd_total_length :: u16
  cd_num_interfaces :: u8
  cd_configuration_value :: u8
  cd_configuration :: u8
  cd_attributes :: u8
  cd_max_power :: u8

definition read_configuration_descriptor :: "u8 list \<Rightarrow> configuration_descriptor option" where
  "read_configuration_descriptor bs =
     (if length bs < 9 then None
      else Some \<lparr>cd_length = byte_at bs 0, cd_type = byte_at bs 1, cd_total_length = u16_at bs 2,
        cd_num_interfaces = byte_at bs 4, cd_configuration_value = byte_at bs 5, cd_configuration = byte_at bs 6,
        cd_attributes = byte_at bs 7, cd_max_power = byte_at bs 8\<rparr>)"

record interface_descriptor =
  id_length :: u8
  id_type :: u8
  id_interface_number :: u8
  id_alternate_setting :: u8
  id_num_endpoints :: u8
  id_class :: u8
  id_subclass :: u8
  id_protocol :: u8
  id_interface :: u8

definition read_interface_descriptor :: "u8 list \<Rightarrow> interface_descriptor option" where
  "read_interface_descriptor bs =
     (if length bs < 9 then None
      else Some \<lparr>id_length = byte_at bs 0, id_type = byte_at bs 1, id_interface_number = byte_at bs 2,
        id_alternate_setting = byte_at bs 3, id_num_endpoints = byte_at bs 4, id_class = byte_at bs 5,
        id_subclass = byte_at bs 6, id_protocol = byte_at bs 7, id_interface = byte_at bs 8\<rparr>)"

record endpoint_descriptor =
  ed_length :: u8
  ed_type :: u8
  endpoint_address :: u8
  ed_attributes :: u8
  ed_max_packet_size :: u16
  ed_interval :: u8

definition read_endpoint_descriptor :: "u8 list \<Rightarrow> endpoint_descriptor option" where
  "read_endpoint_descriptor bs =
     (if length bs < 7 then None
      else Some \<lparr>ed_length = byte_at bs 0, ed_type = byte_at bs 1, endpoint_address = byte_at bs 2,
        ed_attributes = byte_at bs 3, ed_max_packet_size = u16_at bs 4, ed_interval = byte_at bs 6\<rparr>)"

definition endpoint_number :: "endpoint_descriptor \<Rightarrow> u8" where
  "endpoint_number d = endpoint_address d AND 0x0F"

definition endpoint_is_in :: "endpoint_descriptor \<Rightarrow> bool" where
  "endpoint_is_in d \<longleftrightarrow> endpoint_address d AND 0x80 \<noteq> 0"

definition endpoint_transfer_type :: "endpoint_descriptor \<Rightarrow> endpoint_type" where
  "endpoint_transfer_type d = from_attributes (ed_attributes d)"

section \<open>Requests\<close>

definition DIR_OUT :: u8 where "DIR_OUT = 0x00"
definition DIR_IN :: u8 where "DIR_IN = 0x80"
definition TYPE_STANDARD :: u8 where "TYPE_STANDARD = 0x00"
definition TYPE_CLASS :: u8 where "TYPE_CLASS = 0x20"
definition RCPT_DEVICE :: u8 where "RCPT_DEVICE = 0x00"
definition RCPT_INTERFACE :: u8 where "RCPT_INTERFACE = 0x01"
definition SET_ADDRESS :: u8 where "SET_ADDRESS = 0x05"
definition GET_DESCRIPTOR :: u8 where "GET_DESCRIPTOR = 0x06"
definition SET_CONFIGURATION :: u8 where "SET_CONFIGURATION = 0x09"
definition GET_REPORT :: u8 where "GET_REPORT = 0x01"
definition SET_REPORT :: u8 where "SET_REPORT = 0x09"
definition SET_IDLE :: u8 where "SET_IDLE = 0x0A"
definition SET_PROTOCOL :: u8 where "SET_PROTOCOL = 0x0B"
definition CLASS_HID :: u8 where "CLASS_HID = 0x03"
definition CLASS_MASS_STORAGE :: u8 where "CLASS_MASS_STORAGE = 0x08"
definition CLASS_HUB :: u8 where "CLASS_HUB = 0x09"

section \<open>Devices and controllers\<close>

record endpoint_info =
  ep_number :: u8
  ep_direction :: direction
  ep_transfer_type :: endpoint_type
  ep_max_packet_size :: u16
  ep_interval :: u8
  ep_toggle :: bool

definition endpoint_from_descriptor :: "endpoint_descriptor \<Rightarrow> endpoint_info" where
  "endpoint_from_descriptor d =
     \<lparr>ep_number = endpoint_number d, ep_direction = (if endpoint_is_in d then In else Out),
      ep_transfer_type = endpoint_transfer_type d, ep_max_packet_size = ed_max_packet_size d,
      ep_interval = ed_interval d, ep_toggle = False\<rparr>"

definition control_ep0 :: "u16 \<Rightarrow> endpoint_info" where
  "control_ep0 max_packet_size =
     \<lparr>ep_number = 0, ep_direction = Setup, ep_transfer_type = Control, ep_max_packet_size = max_packet_size,
      ep_interval = 0, ep_toggle = False\<rparr>"

datatype usb_error =
    UsbNotReady | UsbTimeout | UsbNoFreeSlots | UsbCommandFailed u32 | UsbAllocationFailed
  | UsbDeviceNotFound | UsbTransferFailed u32 | UsbInvalidParameter | UsbTransactionError | UsbStall
  | UsbToggleError | UsbCrcError | UsbBabble | UsbNak | UsbDisconnected

record interface_info =
  if_number :: u8
  if_alternate_setting :: u8
  if_class :: u8
  if_subclass :: u8
  if_protocol :: u8
  if_endpoints :: "endpoint_info list"

record configuration_info =
  configuration_value :: u8
  interfaces :: "interface_info list"

definition default_configuration :: configuration_info where
  "default_configuration = \<lparr>configuration_value = 0, interfaces = []\<rparr>"

record usb_device =
  ud_address :: u8
  ud_port :: u8
  ud_speed :: usb_speed
  ud_device_desc :: device_descriptor
  ud_config_info :: configuration_info
  ud_is_mass_storage :: bool
  ud_is_hid_keyboard :: bool
  ud_is_hub :: bool
  ud_num_hub_ports :: u8
  ud_bulk_in :: "endpoint_info option"
  ud_bulk_out :: "endpoint_info option"
  ud_interrupt_in :: "endpoint_info option"
  ud_ep0_max_packet :: u16
  ud_bulk_in_toggle :: bool
  ud_bulk_out_toggle :: bool
  ud_hub_addr :: u8
  ud_hub_port :: u8

definition usb_device_new :: "u8 \<Rightarrow> u8 \<Rightarrow> usb_speed \<Rightarrow> usb_device" where
  "usb_device_new address port speed =
     \<lparr>ud_address = address, ud_port = port, ud_speed = speed, ud_device_desc = default_device_descriptor,
      ud_config_info = default_configuration, ud_is_mass_storage = False, ud_is_hid_keyboard = False,
      ud_is_hub = False, ud_num_hub_ports = 0, ud_bulk_in = None, ud_bulk_out = None, ud_interrupt_in = None,
      ud_ep0_max_packet = default_max_packet_size speed, ud_bulk_in_toggle = False, ud_bulk_out_toggle = False,
      ud_hub_addr = 0, ud_hub_port = 0\<rparr>"

definition usb_device_new_on_hub :: "u8 \<Rightarrow> u8 \<Rightarrow> usb_speed \<Rightarrow> u8 \<Rightarrow> u8 \<Rightarrow> usb_device" where
  "usb_device_new_on_hub address port speed hub_addr hub_port =
     (usb_device_new address port speed)\<lparr>ud_hub_addr := hub_addr, ud_hub_port := hub_port\<rparr>"

record device_info =
  di_address :: u8
  di_speed :: usb_speed
  di_vendor_id :: u16
  di_product_id :: u16
  di_device_class :: u8
  di_is_mass_storage :: bool
  di_is_hid :: bool
  di_is_keyboard :: bool
  di_is_hub :: bool

definition usb_device_info :: "usb_device \<Rightarrow> device_info" where
  "usb_device_info d =
     \<lparr>di_address = ud_address d, di_speed = ud_speed d, di_vendor_id = dd_vendor_id (ud_device_desc d),
      di_product_id = dd_product_id (ud_device_desc d), di_device_class = dd_class (ud_device_desc d),
      di_is_mass_storage = ud_is_mass_storage d, di_is_hid = ud_is_hid_keyboard d,
      di_is_keyboard = ud_is_hid_keyboard d, di_is_hub = ud_is_hub d\<rparr>"

record 's usb_controller =
  control_transfer ::
    "'s \<Rightarrow> u8 \<Rightarrow> u8 \<Rightarrow> u8 \<Rightarrow> u16 \<Rightarrow> u16 \<Rightarrow> u8 list option \<Rightarrow> 's \<times> (usb_error + nat) \<times> u8 list"
  bulk_transfer :: "'s \<Rightarrow> u8 \<Rightarrow> u8 \<Rightarrow> bool \<Rightarrow> u8 list \<Rightarrow> 's \<times> (usb_error + nat) \<times> u8 list"
  find_mass_storage :: "'s \<Rightarrow> u8 option"
  find_hid_keyboard :: "'s \<Rightarrow> u8 option"
  get_device_info :: "'s \<Rightarrow> u8 \<Rightarrow> device_info option"
  get_bulk_endpoints :: "'s \<Rightarrow> u8 \<Rightarrow> (endpoint_info \<times> endpoint_info) option"
  get_interrupt_endpoint :: "'s \<Rightarrow> u8 \<Rightarrow> endpoint_info option"

section \<open>Interrupt queues\<close>

text \<open>A ring of \<open>num_buffers\<close> packets in one buffer; indices are taken modulo their number, which panics at 0.\<close>

record interrupt_queue =
  iq_device :: u8
  iq_endpoint :: u8
  iq_is_in :: bool
  iq_max_packet :: u16
  iq_buffer :: "u8 list"
  iq_buffer_size :: nat
  iq_num_buffers :: nat
  iq_read_index :: nat
  iq_write_index :: nat

text \<open>The argument \<open>allocate\<close> is \<open>efi::allocate_pages\<close>: whether that many pages are there.\<close>

definition interrupt_queue_new ::
    "(nat \<Rightarrow> bool) \<Rightarrow> u8 \<Rightarrow> u8 \<Rightarrow> bool \<Rightarrow> u16 \<Rightarrow> nat \<Rightarrow> interrupt_queue option" where
  "interrupt_queue_new allocate device endpoint is_in max_packet n =
     (let bytes = unat max_packet * n; pages = (bytes + 4095) div 4096
      in if allocate pages
         then Some \<lparr>iq_device = device, iq_endpoint = endpoint, iq_is_in = is_in, iq_max_packet = max_packet,
                iq_buffer = replicate (pages * 4096) 0, iq_buffer_size = unat max_packet, iq_num_buffers = n,
                iq_read_index = 0, iq_write_index = 0\<rparr>
         else None)"

text \<open>Storing a packet in the slice that \<open>write_buffer\<close> hands out.\<close>

definition iq_write_buffer :: "interrupt_queue \<Rightarrow> u8 list \<Rightarrow> interrupt_queue" where
  "iq_write_buffer q packet =
     (let offset = iq_write_index q * iq_buffer_size q
      in q\<lparr>iq_buffer := take offset (iq_buffer q) @ packet @ drop (offset + length packet) (iq_buffer q)\<rparr>)"

definition iq_advance_write :: "interrupt_queue \<Rightarrow> interrupt_queue option" where
  "iq_advance_write q =
     (if iq_num_buffers q = 0 then None
      else Some (q\<lparr>iq_write_index := (iq_write_index q + 1) mod iq_num_buffers q\<rparr>))"

definition iq_has_data :: "interrupt_queue \<Rightarrow> bool" where
  "iq_has_data q \<longleftrightarrow> iq_read_index q \<noteq> iq_write_index q"

definition iq_read :: "interrupt_queue \<Rightarrow> u8 list \<Rightarrow> (interrupt_queue \<times> u8 list \<times> nat option) option" where
  "iq_read q dest =
     (if \<not> iq_has_data q then Some (q, dest, None)
      else if iq_num_buffers q = 0 then None
      else
        (let offset = iq_read_index q * iq_buffer_size q; len = min (length dest) (iq_buffer_size q)
         in Some (q\<lparr>iq_read_index := (iq_read_index q + 1) mod iq_num_buffers q\<rparr>,
                  slice offset len (iq_buffer q) @ drop len dest, Some len)))"

section \<open>Configurations\<close>

definition next_descriptor :: "u8 list \<Rightarrow> nat \<Rightarrow> ((u8 \<times> u8 list) \<times> nat) option" where
  "next_descriptor data off =
     (if off \<ge> length data then None
      else
        (let len = unat (data ! off)
         in if len < 2 \<or> off + len > length data then None
            else Some ((data ! (off + 1), slice off len data), off + len)))"

lemma next_descriptor_grows: "next_descriptor data off = Some (d, off') \<Longrightarrow> off < off' \<and> off' \<le> length data"
  by (auto simp: next_descriptor_def Let_def split: if_splits)

text \<open>All that \<open>DescriptorIterator\<close> yields from an offset on.\<close>

function descriptors :: "u8 list \<Rightarrow> nat \<Rightarrow> (u8 \<times> u8 list) list" where
  "descriptors data off =
     (case next_descriptor data off of None \<Rightarrow> [] | Some (d, off') \<Rightarrow> d # descriptors data off')"
  by pat_completeness auto
termination
  by (relation "measure (\<lambda>(data, off). length data - off)") (auto dest: next_descriptor_grows)

declare descriptors.simps [simp del]

definition MAX_INTERFACES :: nat where "MAX_INTERFACES = 8"
definition MAX_ENDPOINTS :: nat where "MAX_ENDPOINTS = 4"

definition save_interface :: "configuration_info \<Rightarrow> interface_info option \<Rightarrow> configuration_info" where
  "save_interface info current =
     (case current of
        None \<Rightarrow> info
      | Some i \<Rightarrow> info\<lparr>interfaces := vec_push_ignore MAX_INTERFACES (interfaces info) i\<rparr>)"

definition parse_descriptor ::
    "u8 \<times> u8 list \<Rightarrow> configuration_info \<times> interface_info option \<Rightarrow> configuration_info \<times> interface_info option" where
  "parse_descriptor d st =
     (case (d, st) of
        ((desc_type, desc_data), (info, current)) \<Rightarrow>
          if desc_type = DESC_INTERFACE then
            (save_interface info current,
             (case read_interface_descriptor desc_data of
                None \<Rightarrow> None
              | Some i \<Rightarrow> Some \<lparr>if_number = id_interface_number i, if_alternate_setting = id_alternate_setting i,
                  if_class = id_class i, if_subclass = id_subclass i, if_protocol = id_protocol i,
                  if_endpoints = []\<rparr>))
          else if desc_type = DESC_ENDPOINT then
            (info,
             (case current of
                None \<Rightarrow> None
              | Some i \<Rightarrow>
                  (case read_endpoint_descriptor desc_data of
                     None \<Rightarrow> Some i
                   | Some e \<Rightarrow> Some (i\<lparr>if_endpoints :=
                       vec_push_ignore MAX_ENDPOINTS (if_endpoints i) (endpoint_from_descriptor e)\<rparr>))))
          else (info, current))"

definition parse_configuration :: "u8 list \<Rightarrow> configuration_info" where
  "parse_configuration config_data =
     (if length config_data < 9 then default_configuration
      else
        (case read_configuration_descriptor config_data of
           None \<Rightarrow> default_configuration
         | Some config \<Rightarrow>
             (case fold parse_descriptor (descriptors config_data 0)
                     (default_configuration\<lparr>configuration_value := cd_configuration_value config\<rparr>, None) of
                (info, current) \<Rightarrow> save_interface info current)))"

definition if_is_mass_storage :: "interface_info \<Rightarrow> bool" where
  "if_is_mass_storage i \<longleftrightarrow> if_class i = CLASS_MASS_STORAGE \<and> if_protocol i = 0x50"

definition if_is_hid_keyboard :: "interface_info \<Rightarrow> bool" where
  "if_is_hid_keyboard i \<longleftrightarrow> if_class i = CLASS_HID \<and> if_subclass i = 0x01 \<and> if_protocol i = 0x01"

definition find_bulk_in :: "interface_info \<Rightarrow> endpoint_info option" where
  "find_bulk_in i = find (\<lambda>ep. ep_transfer_type ep = Bulk \<and> ep_direction ep = In) (if_endpoints i)"

definition find_bulk_out :: "interface_info \<Rightarrow> endpoint_info option" where
  "find_bulk_out i = find (\<lambda>ep. ep_transfer_type ep = Bulk \<and> ep_direction ep = Out) (if_endpoints i)"

definition find_interrupt_in :: "interface_info \<Rightarrow> endpoint_info option" where
  "find_interrupt_in i = find (\<lambda>ep. ep_transfer_type ep = Interrupt \<and> ep_direction ep = In) (if_endpoints i)"

section \<open>Enumeration\<close>

text \<open>
  \<open>do_control\<close> is the controller's control transfer, on its state \<open>'s\<close>. Waiting two milliseconds after
  \<open>SET_ADDRESS\<close> changes nothing the function sees.
\<close>

type_synonym 's do_control =
  "'s \<Rightarrow> usb_device \<Rightarrow> u8 \<Rightarrow> u8 \<Rightarrow> u16 \<Rightarrow> u16 \<Rightarrow> u8 list option \<Rightarrow> 's \<times> (usb_error + nat) \<times> u8 list"

definition classify_interface :: "interface_info \<Rightarrow> usb_device \<Rightarrow> usb_device" where
  "classify_interface i d =
     (if if_is_mass_storage i
      then d\<lparr>ud_is_mass_storage := True, ud_bulk_in := find_bulk_in i, ud_bulk_out := find_bulk_out i\<rparr>
      else if if_is_hid_keyboard i
      then d\<lparr>ud_is_hid_keyboard := True, ud_interrupt_in := find_interrupt_in i\<rparr>
      else if if_class i = CLASS_HUB then d\<lparr>ud_is_hub := True\<rparr>
      else d)"

definition classify_device :: "usb_device \<Rightarrow> usb_device" where
  "classify_device d =
     (let d1 = (if dd_class (ud_device_desc d) = CLASS_HUB then d\<lparr>ud_is_hub := True\<rparr> else d)
      in fold classify_interface (interfaces (ud_config_info d1)) d1)"

definition get_descriptor ::
    "'s do_control \<Rightarrow> 's \<Rightarrow> usb_device \<Rightarrow> u8 \<Rightarrow> nat \<Rightarrow> 's \<times> (usb_error + nat) \<times> u8 list" where
  "get_descriptor do_control s d desc n =
     do_control s d (DIR_IN OR TYPE_STANDARD OR RCPT_DEVICE) GET_DESCRIPTOR (push_bit 8 (ucast desc)) 0
       (Some (replicate n 0))"

definition enumerate_device :: "'s do_control \<Rightarrow> 's \<Rightarrow> usb_device \<Rightarrow> u8 \<Rightarrow> 's \<times> (usb_error + usb_device)" where
  "enumerate_device do_control s device address =
     (if address \<ge> 128 then (s, Inl UsbNoFreeSlots)
      else
        (case get_descriptor do_control s device DESC_DEVICE 8 of
           (s1, Inl e, _) \<Rightarrow> (s1, Inl e)
         | (s1, Inr _, desc_buf) \<Rightarrow>
        (let d1 = device\<lparr>ud_ep0_max_packet := ucast (max (desc_buf ! 7) 8)\<rparr>
         in case do_control s1 d1 (DIR_OUT OR TYPE_STANDARD OR RCPT_DEVICE) SET_ADDRESS (ucast address) 0 None of
           (s2, Inl e, _) \<Rightarrow> (s2, Inl e)
         | (s2, Inr _, _) \<Rightarrow>
        (let d2 = d1\<lparr>ud_address := address\<rparr>
         in case get_descriptor do_control s2 d2 DESC_DEVICE 18 of
           (s3, Inl e, _) \<Rightarrow> (s3, Inl e)
         | (s3, Inr _, desc_buf) \<Rightarrow>
        (let d3 = d2\<lparr>ud_device_desc := read_device_descriptor desc_buf\<rparr>
         in case get_descriptor do_control s3 d3 DESC_CONFIGURATION 9 of
           (s4, Inl e, _) \<Rightarrow> (s4, Inl e)
         | (s4, Inr _, header) \<Rightarrow>
        (let total_len = min (field header 2 2) 256
         in case get_descriptor do_control s4 d3 DESC_CONFIGURATION total_len of
           (s5, Inl e, _) \<Rightarrow> (s5, Inl e)
         | (s5, Inr _, config_buf) \<Rightarrow>
        (let d4 = classify_device (d3\<lparr>ud_config_info := parse_configuration config_buf\<rparr>)
         in if configuration_value (ud_config_info d4) > 0 then
              (case do_control s5 d4 (DIR_OUT OR TYPE_STANDARD OR RCPT_DEVICE) SET_CONFIGURATION
                      (ucast (configuration_value (ud_config_info d4))) 0 None of
                 (s6, Inl e, _) \<Rightarrow> (s6, Inl e)
               | (s6, Inr _, _) \<Rightarrow> (s6, Inr d4))
            else (s5, Inr d4))))))))"

end
