(* ===== verification/Usb_Storage.thy ===== *)
theory Usb_Storage
  imports Usb_Core Block_Device
begin

text \<open>
  USB mass storage: \<open>src/src/drivers/usb/mass_storage.rs\<close>, the bulk-only transport with its SCSI commands.

  The functions work on the device record and on the state \<open>'s\<close> of the controller behind the trait object.
  A buffer that is filled comes back next to the result; \<^const>\<open>None\<close> is the panic of a slice out of range.
\<close>

section \<open>Wrappers\<close>

definition be_bytes :: "nat \<Rightarrow> nat \<Rightarrow> u8 list" where
  "be_bytes k n = rev (le_bytes k n)"

definition be_nat :: "u8 list \<Rightarrow> nat" where
  "be_nat bs = le_nat (rev bs)"

definition TEST_UNIT_READY :: u8 where "TEST_UNIT_READY = 0x00"
definition INQUIRY :: u8 where "INQUIRY = 0x12"
definition READ_CAPACITY_10 :: u8 where "READ_CAPACITY_10 = 0x25"
definition READ_10 :: u8 where "READ_10 = 0x28"
definition READ_CAPACITY_16 :: u8 where "READ_CAPACITY_16 = 0x9E"

definition CBW_SIGNATURE :: u32 where "CBW_SIGNATURE = 0x43425355"
definition CSW_SIGNATURE :: u32 where "CSW_SIGNATURE = 0x53425355"

record command_block_wrapper =
  cbw_signature :: u32
  cbw_tag :: u32
  cbw_data_transfer_length :: u32
  cbw_flags :: u8
  cbw_lun :: u8
  cbw_cb_length :: u8
  cbw_cb :: "u8 list"

definition cbw_bytes :: "command_block_wrapper \<Rightarrow> u8 list" where
  "cbw_bytes c =
     le_bytes 4 (unat (cbw_signature c)) @ le_bytes 4 (unat (cbw_tag c)) @
     le_bytes 4 (unat (cbw_data_transfer_length c)) @ [cbw_flags c, cbw_lun c, cbw_cb_length c] @ cbw_cb c"

record command_status_wrapper =
  csw_signature :: u32
  csw_tag :: u32
  csw_data_residue :: u32
  csw_status :: u8

definition read_csw :: "u8 list \<Rightarrow> command_status_wrapper option" where
  "read_csw bs =
     (if length bs < 13 then None
      else Some \<lparr>csw_signature = of_nat (field bs 0 4), csw_tag = of_nat (field bs 4 4),
        csw_data_residue = of_nat (field bs 8 4), csw_status = bs ! 12\<rparr>)"

definition CSW_PASSED :: u8 where "CSW_PASSED = 0"
definition CSW_FAILED :: u8 where "CSW_FAILED = 1"
definition CSW_PHASE_ERROR :: u8 where "CSW_PHASE_ERROR = 2"

section \<open>Devices\<close>

record usb_mass_storage =
  ms_device_addr :: u8
  ms_bulk_in :: u8
  ms_bulk_out :: u8
  ms_max_packet :: u16
  ms_lun :: u8
  ms_tag :: u32
  ms_num_blocks :: u64
  ms_block_size :: u32
  ms_vendor :: "u8 list"
  ms_product :: "u8 list"

datatype mass_storage_error =
  MsUsb usb_error | InvalidCsw | MsCommandFailed | MsPhaseError | MsNotReady | MsInvalidParameter

text \<open>A step of the driver: device, controller, result and the caller's buffer.\<close>

type_synonym ('s, 'a) ms_step = "usb_mass_storage \<times> 's \<times> (mass_storage_error + 'a) \<times> u8 list"

definition next_tag :: "usb_mass_storage \<Rightarrow> u32 \<times> usb_mass_storage" where
  "next_tag d = (ms_tag d, d\<lparr>ms_tag := ms_tag d + 1\<rparr>)"

definition build_cbw :: "u32 \<Rightarrow> u8 \<Rightarrow> nat \<Rightarrow> u8 list \<Rightarrow> bool \<Rightarrow> command_block_wrapper" where
  "build_cbw tag lun data_len cdb is_read =
     \<lparr>cbw_signature = CBW_SIGNATURE, cbw_tag = tag, cbw_data_transfer_length = of_nat data_len,
      cbw_flags = (if is_read then 0x80 else 0x00), cbw_lun = lun,
      cbw_cb_length = of_nat (min (length cdb) 16),
      cbw_cb = take 16 cdb @ replicate (16 - min (length cdb) 16) 0\<rparr>"

definition check_csw :: "u32 \<Rightarrow> nat \<Rightarrow> u8 list \<Rightarrow> mass_storage_error + nat" where
  "check_csw tag transferred csw_buf =
     (case read_csw csw_buf of
        None \<Rightarrow> Inl InvalidCsw
      | Some csw \<Rightarrow>
          if csw_signature csw \<noteq> CSW_SIGNATURE then Inl InvalidCsw
          else if csw_tag csw \<noteq> tag then Inl InvalidCsw
          else if csw_status csw = CSW_PASSED then Inr transferred
          else if csw_status csw = CSW_FAILED then Inl MsCommandFailed
          else if csw_status csw = CSW_PHASE_ERROR then Inl MsPhaseError
          else Inl InvalidCsw)"

definition data_phase ::
    "'s usb_controller \<Rightarrow> usb_mass_storage \<Rightarrow> 's \<Rightarrow> u8 list option \<Rightarrow> bool \<Rightarrow> 's \<times> (usb_error + nat) \<times> u8 list" where
  "data_phase ctl d s data is_read =
     (case data of
        None \<Rightarrow> (s, Inr 0, [])
      | Some buf \<Rightarrow> bulk_transfer ctl s (ms_device_addr d) (if is_read then ms_bulk_in d else ms_bulk_out d) is_read buf)"

definition scsi_command ::
    "'s usb_controller \<Rightarrow> usb_mass_storage \<Rightarrow> 's \<Rightarrow> u8 list \<Rightarrow> u8 list option \<Rightarrow> bool \<Rightarrow> ('s, nat) ms_step" where
  "scsi_command ctl d s cdb data is_read =
     (let data_len = (case data of None \<Rightarrow> 0 | Some b \<Rightarrow> length b);
          buf = (case data of None \<Rightarrow> [] | Some b \<Rightarrow> b);
          (tag, d) = next_tag d;
          cbw = build_cbw tag (ms_lun d) data_len cdb is_read
      in case bulk_transfer ctl s (ms_device_addr d) (ms_bulk_out d) False (cbw_bytes cbw) of
           (s1, Inl e, _) \<Rightarrow> (d, s1, Inl (MsUsb e), buf)
         | (s1, Inr _, _) \<Rightarrow>
             (case data_phase ctl d s1 data is_read of
                (s2, Inl e, buf) \<Rightarrow> (d, s2, Inl (MsUsb e), buf)
              | (s2, Inr transferred, buf) \<Rightarrow>
                  (case bulk_transfer ctl s2 (ms_device_addr d) (ms_bulk_in d) True (replicate 13 0) of
                     (s3, Inl e, _) \<Rightarrow> (d, s3, Inl (MsUsb e), buf)
                   | (s3, Inr _, csw_buf) \<Rightarrow> (d, s3, check_csw tag transferred csw_buf, buf))))"

definition execute_scsi_command ::
    "'s usb_controller \<Rightarrow> usb_mass_storage \<Rightarrow> 's \<Rightarrow> u8 list \<Rightarrow> u8 list option \<Rightarrow> bool \<Rightarrow> ('s, nat) ms_step" where
  "execute_scsi_command ctl d s cdb data is_read = scsi_command ctl d s cdb data is_read"

section \<open>Commands\<close>

definition test_unit_ready ::
    "'s usb_controller \<Rightarrow> usb_mass_storage \<Rightarrow> 's \<Rightarrow> usb_mass_storage \<times> 's \<times> (mass_storage_error + unit)" where
  "test_unit_ready ctl d s =
     (case scsi_command ctl d s [TEST_UNIT_READY, 0, 0, 0, 0, 0] None False of
        (d1, s1, Inl e, _) \<Rightarrow> (d1, s1, Inl e)
      | (d1, s1, Inr _, _) \<Rightarrow> (d1, s1, Inr ()))"

definition inquiry ::
    "'s usb_controller \<Rightarrow> usb_mass_storage \<Rightarrow> 's \<Rightarrow> usb_mass_storage \<times> 's \<times> (mass_storage_error + unit)" where
  "inquiry ctl d s =
     (case scsi_command ctl d s [INQUIRY, 0, 0, 0, 36, 0] (Some (replicate 36 0)) True of
        (d1, s1, Inl e, _) \<Rightarrow> (d1, s1, Inl e)
      | (d1, s1, Inr _, response) \<Rightarrow>
          (if length response < 36 then d1
           else d1\<lparr>ms_vendor := slice 8 8 response, ms_product := slice 16 16 response\<rparr>, s1, Inr ()))"

definition read_capacity_16 ::
    "'s usb_controller \<Rightarrow> usb_mass_storage \<Rightarrow> 's \<Rightarrow> usb_mass_storage \<times> 's \<times> (mass_storage_error + unit)" where
  "read_capacity_16 ctl d s =
     (case scsi_command ctl d s ([READ_CAPACITY_16, 0x10] @ replicate 11 0 @ [32, 0, 0]) (Some (replicate 32 0)) True of
        (d1, s1, Inl e, _) \<Rightarrow> (d1, s1, Inl e)
      | (d1, s1, Inr _, response) \<Rightarrow>
          (d1\<lparr>ms_num_blocks := of_nat (be_nat (slice 0 8 response)) + 1,
              ms_block_size := of_nat (be_nat (slice 8 4 response))\<rparr>, s1, Inr ()))"

definition read_capacity ::
    "'s usb_controller \<Rightarrow> usb_mass_storage \<Rightarrow> 's \<Rightarrow> usb_mass_storage \<times> 's \<times> (mass_storage_error + unit)" where
  "read_capacity ctl d s =
     (case scsi_command ctl d s (READ_CAPACITY_10 # replicate 9 0) (Some (replicate 8 0)) True of
        (d1, s1, Inl e, _) \<Rightarrow> (d1, s1, Inl e)
      | (d1, s1, Inr _, response) \<Rightarrow>
          if length response < 8 then (d1, s1, Inl MsInvalidParameter)
          else
            (let last_lba = of_nat (be_nat (slice 0 4 response)) :: u32;
                 block_len = of_nat (be_nat (slice 4 4 response)) :: u32;
                 d2 = d1\<lparr>ms_num_blocks := ucast last_lba + 1, ms_block_size := block_len\<rparr>
             in if last_lba = 0xFFFFFFFF then read_capacity_16 ctl d2 s1 else (d2, s1, Inr ())))"

definition read_10 ::
    "'s usb_controller \<Rightarrow> usb_mass_storage \<Rightarrow> 's \<Rightarrow> u32 \<Rightarrow> u16 \<Rightarrow> u8 list \<Rightarrow> ('s, unit) ms_step option" where
  "read_10 ctl d s lba count buffer =
     (let cdb = [READ_10, 0] @ be_bytes 4 (unat lba) @ [0] @ be_bytes 2 (unat count) @ [0];
          transfer_len = unat count * unat (ms_block_size d)
      in if transfer_len > length buffer then None
         else
           (case scsi_command ctl d s cdb (Some (take transfer_len buffer)) True of
              (d1, s1, Inl e, buf) \<Rightarrow> Some (d1, s1, Inl e, buf @ drop transfer_len buffer)
            | (d1, s1, Inr _, buf) \<Rightarrow> Some (d1, s1, Inr (), buf @ drop transfer_len buffer)))"

definition read_16 ::
    "'s usb_controller \<Rightarrow> usb_mass_storage \<Rightarrow> 's \<Rightarrow> u64 \<Rightarrow> u32 \<Rightarrow> u8 list \<Rightarrow> ('s, unit) ms_step option" where
  "read_16 ctl d s lba count buffer =
     (let cdb = [0x88, 0] @ be_bytes 8 (unat lba) @ be_bytes 4 (unat count) @ [0, 0];
          transfer_len = unat count * unat (ms_block_size d)
      in if transfer_len > length buffer then None
         else
           (case scsi_command ctl d s cdb (Some (take transfer_len buffer)) True of
              (d1, s1, Inl e, buf) \<Rightarrow> Some (d1, s1, Inl e, buf @ drop transfer_len buffer)
            | (d1, s1, Inr _, buf) \<Rightarrow> Some (d1, s1, Inr (), buf @ drop transfer_len buffer)))"

definition read_sectors_generic ::
    "'s usb_controller \<Rightarrow> usb_mass_storage \<Rightarrow> 's \<Rightarrow> u64 \<Rightarrow> u32 \<Rightarrow> u8 list \<Rightarrow> ('s, unit) ms_step option" where
  "read_sectors_generic ctl d s start_lba num_sectors buffer =
     (if length buffer < unat num_sectors * unat (ms_block_size d)
      then Some (d, s, Inl MsInvalidParameter, buffer)
      else if start_lba + ucast num_sectors \<le> 0xFFFFFFFF
      then read_10 ctl d s (ucast start_lba) (ucast num_sectors) buffer
      else read_16 ctl d s start_lba num_sectors buffer)"

definition security_protocol_in ::
    "'s usb_controller \<Rightarrow> usb_mass_storage \<Rightarrow> 's \<Rightarrow> u8 \<Rightarrow> u16 \<Rightarrow> u8 list \<Rightarrow> ('s, nat) ms_step" where
  "security_protocol_in ctl d s protocol_id sp_specific buffer =
     (let alloc_len = min (length buffer) 0xFFFFFFFF;
          cdb = [0xA2, protocol_id] @ be_bytes 2 (unat sp_specific) @ [0x80, 0] @ be_bytes 4 alloc_len @ [0, 0]
      in scsi_command ctl d s cdb (Some buffer) True)"

definition security_protocol_out ::
    "'s usb_controller \<Rightarrow> usb_mass_storage \<Rightarrow> 's \<Rightarrow> u8 \<Rightarrow> u16 \<Rightarrow> u8 list \<Rightarrow>
     usb_mass_storage \<times> 's \<times> (mass_storage_error + unit)" where
  "security_protocol_out ctl d s protocol_id sp_specific data =
     (let transfer_len = min (length data) 0xFFFFFFFF;
          cdb = [0xB5, protocol_id] @ be_bytes 2 (unat sp_specific) @ [0x80, 0] @ be_bytes 4 transfer_len @ [0, 0]
      in case scsi_command ctl d s cdb (Some (take 4096 data)) False of
           (d1, s1, Inl e, _) \<Rightarrow> (d1, s1, Inl e)
         | (d1, s1, Inr _, _) \<Rightarrow> (d1, s1, Inr ()))"

section \<open>Initialisation\<close>

text \<open>Up to five attempts, with a delay in between that the driver does not observe.\<close>

fun wait_unit_ready :: "nat \<Rightarrow> 's usb_controller \<Rightarrow> usb_mass_storage \<Rightarrow> 's \<Rightarrow> usb_mass_storage \<times> 's" where
  "wait_unit_ready 0 ctl d s = (d, s)"
| "wait_unit_ready (Suc n) ctl d s =
     (case test_unit_ready ctl d s of
        (d1, s1, Inr _) \<Rightarrow> (d1, s1)
      | (d1, s1, Inl _) \<Rightarrow> wait_unit_ready n ctl d1 s1)"

definition ms_init ::
    "'s usb_controller \<Rightarrow> usb_mass_storage \<Rightarrow> 's \<Rightarrow> usb_mass_storage \<times> 's \<times> (mass_storage_error + unit)" where
  "ms_init ctl d s =
     (case wait_unit_ready 5 ctl d s of
        (d1, s1) \<Rightarrow>
          (case inquiry ctl d1 s1 of
             (d2, s2, Inl e) \<Rightarrow> (d2, s2, Inl e)
           | (d2, s2, Inr _) \<Rightarrow> read_capacity ctl d2 s2))"

definition usb_mass_storage_new ::
    "'s usb_controller \<Rightarrow> 's \<Rightarrow> u8 \<Rightarrow> 's \<times> (mass_storage_error + usb_mass_storage)" where
  "usb_mass_storage_new ctl s addr =
     (case get_device_info ctl s addr of
        None \<Rightarrow> (s, Inl MsNotReady)
      | Some di \<Rightarrow>
          if \<not> di_is_mass_storage di then (s, Inl MsNotReady)
          else
            (case get_bulk_endpoints ctl s addr of
               None \<Rightarrow> (s, Inl MsNotReady)
             | Some (bulk_in_ep, bulk_out_ep) \<Rightarrow>
                 (let d = \<lparr>ms_device_addr = addr, ms_bulk_in = ep_number bulk_in_ep,
                        ms_bulk_out = ep_number bulk_out_ep, ms_max_packet = ep_max_packet_size bulk_in_ep,
                        ms_lun = 0, ms_tag = 1, ms_num_blocks = 0, ms_block_size = 512,
                        ms_vendor = replicate 8 0, ms_product = replicate 16 0\<rparr>
                  in case ms_init ctl d s of
                       (d1, s1, Inl e) \<Rightarrow> (s1, Inl e)
                     | (d1, s1, Inr _) \<Rightarrow> (s1, Inr d1))))"

section \<open>The global device\<close>

text \<open>
  \<open>GLOBAL_USB_STATE\<close> holds the device and its controller; a read leaves the device (its tag) and the
  controller changed.
\<close>

record 's usb_global =
  ug_device :: usb_mass_storage
  ug_controller :: "'s usb_controller"
  ug_state :: 's

definition usb_global_read_sector ::
    "'s usb_global option \<Rightarrow> u64 \<Rightarrow> u8 list \<Rightarrow> ('s usb_global option \<times> (unit + unit) \<times> u8 list) option" where
  "usb_global_read_sector g lba buffer =
     (case g of
        None \<Rightarrow> Some (None, Inl (), buffer)
      | Some u \<Rightarrow>
          map_option (\<lambda>(d, s, r, buf).
              (Some (u\<lparr>ug_device := d, ug_state := s\<rparr>), (case r of Inl _ \<Rightarrow> Inl () | Inr _ \<Rightarrow> Inr ()), buf))
            (read_sectors_generic (ug_controller u) (ug_device u) (ug_state u) lba 1 buffer))"

end
