(* ===== verification/Fifo.thy ===== *)
theory Fifo
  imports Crab_Prelude
begin

text \<open>
  Queues in ring buffers: the contract the firmware's queues keep, and the arithmetic of a ring.

  The locale \<open>fifo\<close> is a queue that takes elements while it has room; \<open>bounded_fifo\<close> adds that a full queue
  drops the new element. The lemma in it says what a client sees over any sequence of operations.
\<close>

section \<open>Rings\<close>

text \<open>The elements from the read index \<open>r\<close> up to the write index \<open>w\<close> of a ring of \<open>n\<close> slots.\<close>

definition ring_count :: "nat \<Rightarrow> nat \<Rightarrow> nat \<Rightarrow> nat" where
  "ring_count n r w = (w + n - r) mod n"

definition ring :: "(nat \<Rightarrow> 'a) \<Rightarrow> nat \<Rightarrow> nat \<Rightarrow> nat \<Rightarrow> 'a list" where
  "ring slot n r w = map (\<lambda>i. slot ((r + i) mod n)) [0..<ring_count n r w]"

lemma length_ring [simp]: "length (ring slot n r w) = ring_count n r w"
  by (simp add: ring_def)

lemma ring_count_0_iff: "r < n \<Longrightarrow> w < n \<Longrightarrow> ring_count n r w = 0 \<longleftrightarrow> r = w"
proof -
  assume "r < n" and "w < n"
  then show ?thesis
    by (cases "r \<le> w") (auto simp: ring_count_def le_mod_geq)
qed

lemma ring_count_less: "0 < n \<Longrightarrow> ring_count n r w < n"
  by (simp add: ring_count_def)

lemma ring_add_count: "r < n \<Longrightarrow> w < n \<Longrightarrow> (r + ring_count n r w) mod n = w"
  by (cases "r \<le> w") (auto simp: ring_count_def le_mod_geq)

lemma ring_count_write:
  assumes "r < n" and "w < n" and "(w + 1) mod n \<noteq> r"
  shows "ring_count n r ((w + 1) mod n) = Suc (ring_count n r w)"
  using assms by (cases "r \<le> w"; cases "w + 1 = n") (auto simp: ring_count_def le_mod_geq)

lemma ring_count_full:
  assumes "r < n" and "w < n"
  shows "(w + 1) mod n = r \<longleftrightarrow> ring_count n r w = n - 1"
  using assms by (cases "r \<le> w"; cases "w + 1 = n") (auto simp: ring_count_def le_mod_geq)

lemma ring_count_read:
  assumes "r < n" and "w < n" and "r \<noteq> w"
  shows "Suc (ring_count n ((r + 1) mod n) w) = ring_count n r w"
  using assms by (cases "r \<le> w"; cases "r + 1 = n") (auto simp: ring_count_def le_mod_geq)

lemma ring_empty_iff: "r < n \<Longrightarrow> w < n \<Longrightarrow> ring slot n r w = [] \<longleftrightarrow> r = w"
  by (simp add: ring_def ring_count_0_iff)

lemma mod_shift_neq: "i < c \<Longrightarrow> c < n \<Longrightarrow> r < n \<Longrightarrow> (r + i) mod n = (r + c) mod n \<Longrightarrow> False"
  for i c n r :: nat
  by (cases "r + i < n"; cases "r + c < n") (auto simp: le_mod_geq)

text \<open>Writing the slot at the write index and moving it on appends an element.\<close>

lemma ring_write:
  assumes "r < n" and "w < n" and "(w + 1) mod n \<noteq> r"
    and "slot' w = x" and "\<And>i. i < n \<Longrightarrow> i \<noteq> w \<Longrightarrow> slot' i = slot i"
  shows "ring slot' n r ((w + 1) mod n) = ring slot n r w @ [x]"
proof -
  have "(r + i) mod n \<noteq> w" if "i < ring_count n r w" for i
  proof
    assume "(r + i) mod n = w"
    then have "(r + i) mod n = (r + ring_count n r w) mod n"
      using ring_add_count [OF assms(1,2)] by simp
    moreover have "ring_count n r w < n"
      using assms(1) by (intro ring_count_less) simp
    ultimately show False
      using that assms(1) by (intro mod_shift_neq [of i "ring_count n r w" n r]) auto
  qed
  then show ?thesis
    using assms(1,4,5) ring_add_count [OF assms(1,2)] ring_count_write [OF assms(1-3)] by (simp add: ring_def)
qed

lemma ring_read:
  assumes "r < n" and "w < n" and "r \<noteq> w"
  shows "ring slot n r w = slot r # ring slot n ((r + 1) mod n) w"
proof -
  have "(r + Suc i) mod n = ((r + 1) mod n + i) mod n" for i
    by (simp add: mod_simps)
  then show ?thesis
    using assms ring_count_read [OF assms, symmetric]
    by (simp add: ring_def upt_conv_Cons map_Suc_upt [symmetric] del: upt_Suc)
qed

section \<open>The contract\<close>

locale fifo =
  fixes good :: "'s \<Rightarrow> bool"
    and item :: "'s \<Rightarrow> 'a \<Rightarrow> bool"
    and content :: "'s \<Rightarrow> 'a list"
    and cap :: "'s \<Rightarrow> nat"
    and enq :: "'s \<Rightarrow> 'a \<Rightarrow> 's"
    and deq :: "'s \<Rightarrow> ('a \<times> 's) option"
  assumes good_enq: "good s \<Longrightarrow> item s x \<Longrightarrow> good (enq s x)"
    and cap_enq: "good s \<Longrightarrow> cap (enq s x) = cap s"
    and enq_room: "good s \<Longrightarrow> item s x \<Longrightarrow> length (content s) < cap s \<Longrightarrow> content (enq s x) = content s @ [x]"
    and deq_None: "good s \<Longrightarrow> deq s = None \<longleftrightarrow> content s = []"
    and deq_Some: "good s \<Longrightarrow> deq s = Some (x, s') \<Longrightarrow> content s = x # content s' \<and> good s' \<and> cap s' = cap s"

text \<open>
  A client's requests, \<open>Some x\<close> to put \<open>x\<close> and \<open>None\<close> to take an element: the queue afterwards, what was
  taken and what was accepted.
\<close>

primrec fifo_final :: "('s \<Rightarrow> 'a \<Rightarrow> 's) \<Rightarrow> ('s \<Rightarrow> ('a \<times> 's) option) \<Rightarrow> 'a option list \<Rightarrow> 's \<Rightarrow> 's" where
  "fifo_final enq deq [] s = s"
| "fifo_final enq deq (r # rs) s =
     fifo_final enq deq rs
       (case r of None \<Rightarrow> (case deq s of Some (x, s') \<Rightarrow> s' | None \<Rightarrow> s) | Some x \<Rightarrow> enq s x)"

primrec fifo_taken :: "('s \<Rightarrow> 'a \<Rightarrow> 's) \<Rightarrow> ('s \<Rightarrow> ('a \<times> 's) option) \<Rightarrow> 'a option list \<Rightarrow> 's \<Rightarrow> 'a list" where
  "fifo_taken enq deq [] s = []"
| "fifo_taken enq deq (r # rs) s =
     (case r of
        None \<Rightarrow> (case deq s of Some (x, s') \<Rightarrow> x # fifo_taken enq deq rs s' | None \<Rightarrow> fifo_taken enq deq rs s)
      | Some x \<Rightarrow> fifo_taken enq deq rs (enq s x))"

text \<open>The reference: a list of at most \<open>k\<close> elements that drops what does not fit.\<close>

primrec list_queue :: "nat \<Rightarrow> 'a option list \<Rightarrow> 'a list \<Rightarrow> 'a list \<times> 'a list" where
  "list_queue k [] xs = ([], xs)"
| "list_queue k (r # rs) xs =
     (case r of
        None \<Rightarrow> (case xs of [] \<Rightarrow> list_queue k rs [] | x # ys \<Rightarrow> apfst (Cons x) (list_queue k rs ys))
      | Some x \<Rightarrow> list_queue k rs (if length xs < k then xs @ [x] else xs))"

locale bounded_fifo = fifo +
  assumes enq_full: "good s \<Longrightarrow> cap s \<le> length (content s) \<Longrightarrow> content (enq s x) = content s"
    and any_item: "item s x"
begin

lemma run_fifo:
  "good s \<Longrightarrow> cap s = k \<Longrightarrow>
    list_queue k rs (content s) = (fifo_taken enq deq rs s, content (fifo_final enq deq rs s)) \<and>
    good (fifo_final enq deq rs s)"
proof (induction rs arbitrary: s)
  case Nil
  then show ?case
    by simp
next
  case (Cons r rs)
  show ?case
  proof (cases r)
    case None
    show ?thesis
    proof (cases "deq s")
      case None
      with \<open>r = None\<close> Cons.IH [of s] Cons.prems deq_None [of s] show ?thesis
        by simp
    next
      case (Some p)
      obtain x s' where p: "p = (x, s')"
        by fastforce
      have "content s = x # content s' \<and> good s' \<and> cap s' = cap s"
        using Cons.prems(1) Some p by (intro deq_Some) simp_all
      with Some p \<open>r = None\<close> Cons.IH [of s'] Cons.prems show ?thesis
        by simp
    qed
  next
    case (Some x)
    have "good (enq s x)" "cap (enq s x) = k"
      using Cons.prems any_item by (simp_all add: good_enq cap_enq)
    with Cons.IH [of "enq s x"] Some Cons.prems enq_room [OF Cons.prems(1) any_item, of x] enq_full [OF Cons.prems(1), of x]
    show ?thesis
      by (cases "length (content s) < k") auto
  qed
qed

end

end
