(* ===== verification/Usb_Correct.thy ===== *)
theory Usb_Correct
  imports Usb_Core Fifo
begin

text \<open>
  Lemmas about the USB core: interrupt queues are queues, descriptor lists are read back from their bytes,
  and what enumeration makes of them.
\<close>

section \<open>Interrupt queues\<close>

definition iq_put :: "interrupt_queue \<Rightarrow> u8 list \<Rightarrow> interrupt_queue" where
  "iq_put q packet = (case iq_advance_write (iq_write_buffer q packet) of Some q' \<Rightarrow> q' | None \<Rightarrow> q)"

definition iq_take :: "interrupt_queue \<Rightarrow> (u8 list \<times> interrupt_queue) option" where
  "iq_take q =
     (case iq_read q (replicate (iq_buffer_size q) 0) of
        Some (q', packet, Some n) \<Rightarrow> Some (packet, q') | _ \<Rightarrow> None)"

definition iq_good :: "interrupt_queue \<Rightarrow> bool" where
  "iq_good q \<longleftrightarrow>
     iq_read_index q < iq_num_buffers q \<and> iq_write_index q < iq_num_buffers q \<and>
     iq_num_buffers q * iq_buffer_size q \<le> length (iq_buffer q)"

definition iq_packet :: "interrupt_queue \<Rightarrow> nat \<Rightarrow> u8 list" where
  "iq_packet q i = slice (i * iq_buffer_size q) (iq_buffer_size q) (iq_buffer q)"

definition iq_content :: "interrupt_queue \<Rightarrow> u8 list list" where
  "iq_content q = ring (iq_packet q) (iq_num_buffers q) (iq_read_index q) (iq_write_index q)"

lemma slot_inside: "i < n \<Longrightarrow> i * b + b \<le> n * b" for i n b :: nat
  by (metis Suc_leI add.commute mult_Suc mult_le_mono1)

lemma slots_apart: "i \<noteq> j \<Longrightarrow> i * b + b \<le> j * b \<or> j * b + b \<le> i * b" for i j b :: nat
  by (metis slot_inside linorder_neqE_nat)

lemma slice_replaced:
  assumes "off + length p \<le> length xs"
  shows "slice off (length p) (take off xs @ p @ drop (off + length p) xs) = p"
  using assms by (simp add: slice_def)

lemma slice_untouched:
  assumes "off + length p \<le> length xs" and "a + n \<le> off \<or> off + length p \<le> a"
  shows "slice a n (take off xs @ p @ drop (off + length p) xs) = slice a n xs"
  using assms(2)
proof
  assume "a + n \<le> off"
  then show ?thesis
    using assms(1) by (auto simp: slice_def drop_take min_def)
next
  assume "off + length p \<le> a"
  then show ?thesis
    using assms(1) by (simp add: slice_def min_def)
qed

lemma iq_put_packets:
  assumes "iq_good q" and "length p = iq_buffer_size q" and "i < iq_num_buffers q"
  shows "iq_packet (iq_put q p) i = (if i = iq_write_index q then p else iq_packet q i)"
proof -
  let ?b = "iq_buffer_size q"
  have w: "iq_write_index q * ?b + ?b \<le> length (iq_buffer q)"
    using assms(1) slot_inside [of "iq_write_index q" "iq_num_buffers q" ?b] by (auto simp: iq_good_def)
  have "iq_num_buffers q \<noteq> 0"
    using assms(1) by (auto simp: iq_good_def)
  then have "iq_packet (iq_put q p) i = slice (i * ?b) ?b
      (take (iq_write_index q * ?b) (iq_buffer q) @ p @ drop (iq_write_index q * ?b + length p) (iq_buffer q))"
    by (simp add: iq_packet_def iq_put_def iq_advance_write_def iq_write_buffer_def Let_def)
  then show ?thesis
    using w assms(2) slice_replaced [of "iq_write_index q * ?b" p "iq_buffer q"]
      slice_untouched [of "iq_write_index q * ?b" p "iq_buffer q" "i * ?b" ?b] slots_apart [of i "iq_write_index q" ?b]
    by (auto simp: iq_packet_def)
qed

lemma iq_put_fields:
  assumes "iq_good q"
  shows "iq_num_buffers (iq_put q p) = iq_num_buffers q" "iq_buffer_size (iq_put q p) = iq_buffer_size q"
    "iq_read_index (iq_put q p) = iq_read_index q"
    "iq_write_index (iq_put q p) = (iq_write_index q + 1) mod iq_num_buffers q"
  using assms by (auto simp: iq_put_def iq_advance_write_def iq_write_buffer_def iq_good_def Let_def)

interpretation iq: fifo iq_good "\<lambda>q p. length p = iq_buffer_size q" iq_content "\<lambda>q. iq_num_buffers q - 1" iq_put iq_take
proof unfold_locales
  fix q p
  assume good: "iq_good q"
  then show "iq_num_buffers (iq_put q p) - 1 = iq_num_buffers q - 1"
    by (simp add: iq_put_fields)
  assume len: "length p = iq_buffer_size q"
  have "iq_write_index q * iq_buffer_size q + iq_buffer_size q \<le> length (iq_buffer q)"
    using good slot_inside [of "iq_write_index q" "iq_num_buffers q" "iq_buffer_size q"] by (auto simp: iq_good_def)
  then have "length (iq_buffer (iq_put q p)) = length (iq_buffer q)"
    using good len by (auto simp: iq_put_def iq_advance_write_def iq_write_buffer_def iq_good_def Let_def)
  then show "iq_good (iq_put q p)"
    using good by (auto simp: iq_good_def iq_put_fields)
  assume "length (iq_content q) < iq_num_buffers q - 1"
  then have room: "(iq_write_index q + 1) mod iq_num_buffers q \<noteq> iq_read_index q"
    using good ring_count_full [of "iq_read_index q" "iq_num_buffers q" "iq_write_index q"]
    by (auto simp: iq_content_def iq_good_def)
  show "iq_content (iq_put q p) = iq_content q @ [p]"
    unfolding iq_content_def iq_put_fields [OF good]
    using good room iq_put_packets [OF good len] by (intro ring_write) (auto simp: iq_good_def)
next
  fix q
  assume good: "iq_good q"
  then show "iq_take q = None \<longleftrightarrow> iq_content q = []"
    by (auto simp: iq_take_def iq_read_def iq_content_def ring_empty_iff iq_good_def iq_has_data_def Let_def)
  fix p q'
  assume t: "iq_take q = Some (p, q')"
  then have ne: "iq_read_index q \<noteq> iq_write_index q"
    by (auto simp: iq_take_def iq_read_def iq_has_data_def)
  have "iq_read_index q * iq_buffer_size q + iq_buffer_size q \<le> length (iq_buffer q)"
    using good slot_inside [of "iq_read_index q" "iq_num_buffers q" "iq_buffer_size q"] by (auto simp: iq_good_def)
  then have q': "q' = q\<lparr>iq_read_index := (iq_read_index q + 1) mod iq_num_buffers q\<rparr>"
    and p: "p = iq_packet q (iq_read_index q)"
    using t good ne by (auto simp: iq_take_def iq_read_def iq_has_data_def iq_good_def iq_packet_def Let_def)
  have "iq_packet q' = iq_packet q"
    by (auto simp: q' iq_packet_def)
  then show "iq_content q = p # iq_content q' \<and> iq_good q' \<and> iq_num_buffers q' - 1 = iq_num_buffers q - 1"
    using good ne ring_read [of "iq_read_index q" "iq_num_buffers q" "iq_write_index q" "iq_packet q"]
    by (auto simp: iq_content_def iq_good_def q' p)
qed

text \<open>Writing into a full ring makes it look empty.\<close>

lemma iq_put_full:
  assumes "iq_good q" and "length (iq_content q) = iq_num_buffers q - 1"
  shows "iq_content (iq_put q p) = []"
proof -
  have "(iq_write_index q + 1) mod iq_num_buffers q = iq_read_index q"
    using assms ring_count_full [of "iq_read_index q" "iq_num_buffers q" "iq_write_index q"]
    by (simp add: iq_content_def iq_good_def)
  then show ?thesis
    using assms(1) by (simp add: iq_content_def iq_put_fields ring_empty_iff iq_good_def)
qed


section \<open>Configurations and their bytes\<close>

text \<open>
  A configuration as a device describes it: interfaces, each followed by its endpoints and by class
  descriptors of other types, which the parser skips.
\<close>

datatype usb_item =
    EndpointItem u8 u8 u16 u8
  | OtherItem u8 "u8 list"

record usb_interface =
  ui_number :: u8
  ui_alternate :: u8
  ui_class :: u8
  ui_subclass :: u8
  ui_protocol :: u8
  ui_string :: u8
  ui_items :: "usb_item list"

record usb_configuration =
  uc_value :: u8
  uc_string :: u8
  uc_attributes :: u8
  uc_power :: u8
  uc_items :: "usb_item list"
  uc_interfaces :: "usb_interface list"

fun item_ok :: "usb_item \<Rightarrow> bool" where
  "item_ok (EndpointItem a t m i) = True"
| "item_ok (OtherItem ty bs) = (length bs + 2 < 256 \<and> ty \<noteq> 4 \<and> ty \<noteq> 5)"

definition config_ok :: "usb_configuration \<Rightarrow> bool" where
  "config_ok c \<longleftrightarrow> list_all item_ok (uc_items c) \<and> list_all (\<lambda>i. list_all item_ok (ui_items i)) (uc_interfaces c)"

fun item_type :: "usb_item \<Rightarrow> u8" where
  "item_type (EndpointItem a t m i) = 5"
| "item_type (OtherItem ty bs) = ty"

fun item_bytes :: "usb_item \<Rightarrow> u8 list" where
  "item_bytes (EndpointItem a t m i) = [7, 5, a, t] @ le_bytes 2 (unat m) @ [i]"
| "item_bytes (OtherItem ty bs) = [of_nat (length bs + 2), ty] @ bs"

fun item_endpoint :: "usb_item \<Rightarrow> endpoint_info list" where
  "item_endpoint (EndpointItem a t m i) =
     [\<lparr>ep_number = a AND 0x0F, ep_direction = (if a AND 0x80 \<noteq> 0 then In else Out),
       ep_transfer_type = from_attributes t, ep_max_packet_size = m, ep_interval = i, ep_toggle = False\<rparr>]"
| "item_endpoint (OtherItem ty bs) = []"

definition interface_header :: "usb_interface \<Rightarrow> u8 list" where
  "interface_header i =
     [9, 4, ui_number i, ui_alternate i, of_nat (length (concat (map item_endpoint (ui_items i)))),
      ui_class i, ui_subclass i, ui_protocol i, ui_string i]"

definition interface_chunks :: "usb_interface \<Rightarrow> (u8 \<times> u8 list) list" where
  "interface_chunks i = (4, interface_header i) # map (\<lambda>x. (item_type x, item_bytes x)) (ui_items i)"

definition body_chunks :: "usb_configuration \<Rightarrow> (u8 \<times> u8 list) list" where
  "body_chunks c =
     map (\<lambda>x. (item_type x, item_bytes x)) (uc_items c) @ concat (map interface_chunks (uc_interfaces c))"

definition config_length :: "usb_configuration \<Rightarrow> nat" where
  "config_length c = 9 + length (concat (map snd (body_chunks c)))"

definition config_header :: "usb_configuration \<Rightarrow> u8 list" where
  "config_header c =
     [9, 2] @ le_bytes 2 (config_length c) @
     [of_nat (length (uc_interfaces c)), uc_value c, uc_string c, uc_attributes c, uc_power c]"

definition config_bytes :: "usb_configuration \<Rightarrow> u8 list" where
  "config_bytes c = config_header c @ concat (map snd (body_chunks c))"

text \<open>What the firmware keeps of it: the first eight interfaces, each with its first four endpoints.\<close>

definition interface_of :: "usb_interface \<Rightarrow> interface_info" where
  "interface_of i =
     \<lparr>if_number = ui_number i, if_alternate_setting = ui_alternate i, if_class = ui_class i,
      if_subclass = ui_subclass i, if_protocol = ui_protocol i,
      if_endpoints = take MAX_ENDPOINTS (concat (map item_endpoint (ui_items i)))\<rparr>"

text \<open>A chunk is read back when its first byte is its length and its second its type.\<close>

definition chunk_ok :: "u8 \<times> u8 list \<Rightarrow> bool" where
  "chunk_ok d \<longleftrightarrow> 2 \<le> length (snd d) \<and> unat (snd d ! 0) = length (snd d) \<and> snd d ! 1 = fst d"

lemma descriptors_end: "length data \<le> off \<Longrightarrow> descriptors data off = []"
  by (simp add: descriptors.simps [of data off] next_descriptor_def)

lemma descriptors_chunk:
  assumes "chunk_ok d" and "data = xs @ snd d @ ys"
  shows "descriptors data (length xs) = d # descriptors data (length xs + length (snd d))"
proof -
  have len: "2 \<le> length (snd d)" "unat (snd d ! 0) = length (snd d)" "snd d ! 1 = fst d"
    using assms(1) by (simp_all add: chunk_ok_def)
  have "0 < length (snd d)" "1 < length (snd d)"
    using len(1) by linarith+
  then have at: "data ! length xs = snd d ! 0" "data ! (length xs + 1) = snd d ! 1"
    using nth_append_length_plus [of xs "snd d @ ys" 0] nth_append_length_plus [of xs "snd d @ ys" 1]
    by (simp_all add: assms(2) nth_append)
  have "slice (length xs) (length (snd d)) data = snd d"
    by (simp add: assms(2) slice_def)
  then have "next_descriptor data (length xs) = Some (d, length xs + length (snd d))"
    using len at \<open>0 < length (snd d)\<close> by (auto simp: next_descriptor_def assms(2))
  then show ?thesis
    by (simp add: descriptors.simps [of data "length xs"])
qed

lemma descriptors_chunks:
  "list_all chunk_ok ds \<Longrightarrow> descriptors (xs @ concat (map snd ds)) (length xs) = ds"
proof (induction ds arbitrary: xs)
  case Nil
  then show ?case
    by (simp add: descriptors_end)
next
  case (Cons d ds)
  have "descriptors ((xs @ snd d) @ concat (map snd ds)) (length (xs @ snd d)) = ds"
    using Cons.prems by (intro Cons.IH) simp
  then show ?case
    using descriptors_chunk [of d "xs @ concat (map snd (d # ds))" xs "concat (map snd ds)"] Cons.prems by simp
qed

lemma item_chunk_ok: "item_ok x \<Longrightarrow> chunk_ok (item_type x, item_bytes x)"
proof (cases x)
  case (OtherItem ty bs)
  moreover assume "item_ok x"
  ultimately have "unat (of_nat (length bs + 2) :: u8) = length bs + 2"
    by (simp only: unat_of_nat item_ok.simps) simp
  then show ?thesis
    by (simp add: OtherItem chunk_ok_def)
qed (simp add: chunk_ok_def)

lemma interface_chunks_ok: "list_all item_ok (ui_items i) \<Longrightarrow> list_all chunk_ok (interface_chunks i)"
  by (auto simp: interface_chunks_def interface_header_def list_all_iff item_chunk_ok)
     (simp add: chunk_ok_def)

lemma body_chunks_ok: "config_ok c \<Longrightarrow> list_all chunk_ok (body_chunks c)"
  using interface_chunks_ok by (fastforce simp: body_chunks_def config_ok_def list_all_iff item_chunk_ok)


lemma vec_push_ignore_take:
  "vec_push_ignore cap (take cap xs) x = take cap (xs @ [x])"
  by (cases "length xs < cap") auto

text \<open>One item of an interface, and all of them.\<close>

lemma parse_item:
  assumes "item_ok x"
  shows "parse_descriptor (item_type x, item_bytes x) (info, None) = (info, None)"
    and "parse_descriptor (item_type x, item_bytes x) (info, Some (i\<lparr>if_endpoints := take MAX_ENDPOINTS es\<rparr>)) =
      (info, Some (i\<lparr>if_endpoints := take MAX_ENDPOINTS (es @ item_endpoint x)\<rparr>))"
proof -
  show "parse_descriptor (item_type x, item_bytes x) (info, None) = (info, None)"
    using assms by (cases x) (auto simp: parse_descriptor_def DESC_INTERFACE_def DESC_ENDPOINT_def)
  show "parse_descriptor (item_type x, item_bytes x) (info, Some (i\<lparr>if_endpoints := take MAX_ENDPOINTS es\<rparr>)) =
      (info, Some (i\<lparr>if_endpoints := take MAX_ENDPOINTS (es @ item_endpoint x)\<rparr>))"
  proof (cases x)
    case (EndpointItem a t m j)
    have "of_nat (field ([7, 5, a, t] @ le_bytes 2 (unat m) @ [j]) 4 2) = m"
      using unat_bound [of m] by (simp add: field_def slice_def le_nat_le_bytes)
    then show ?thesis
      by (simp add: EndpointItem parse_descriptor_def DESC_INTERFACE_def DESC_ENDPOINT_def
          read_endpoint_descriptor_def endpoint_from_descriptor_def endpoint_number_def endpoint_is_in_def
          endpoint_transfer_type_def byte_at_def u16_at_def vec_push_ignore_take nth_append)
  next
    case (OtherItem ty bs)
    then show ?thesis
      using assms by (simp add: parse_descriptor_def DESC_INTERFACE_def DESC_ENDPOINT_def)
  qed
qed

lemma parse_items_none:
  "list_all item_ok xs \<Longrightarrow>
    fold parse_descriptor (map (\<lambda>x. (item_type x, item_bytes x)) xs) (info, None) = (info, None)"
  by (induction xs) (simp_all add: parse_item(1))

lemma parse_items_some:
  "list_all item_ok xs \<Longrightarrow>
    fold parse_descriptor (map (\<lambda>x. (item_type x, item_bytes x)) xs)
      (info, Some (i\<lparr>if_endpoints := take MAX_ENDPOINTS es\<rparr>)) =
    (info, Some (i\<lparr>if_endpoints := take MAX_ENDPOINTS (es @ concat (map item_endpoint xs))\<rparr>))"
  by (induction xs arbitrary: es) (simp_all add: parse_item(2) del: take_append)

lemma parse_interface:
  assumes "list_all item_ok (ui_items i)"
  shows "fold parse_descriptor (interface_chunks i) (info, current) =
    (save_interface info current, Some (interface_of i))"
proof -
  let ?new = "\<lparr>if_number = ui_number i, if_alternate_setting = ui_alternate i, if_class = ui_class i,
      if_subclass = ui_subclass i, if_protocol = ui_protocol i, if_endpoints = []\<rparr>"
  have "parse_descriptor (4, interface_header i) (info, current) =
      (save_interface info current, Some (?new\<lparr>if_endpoints := take MAX_ENDPOINTS []\<rparr>))"
    by (simp add: parse_descriptor_def DESC_INTERFACE_def interface_header_def read_interface_descriptor_def byte_at_def)
  moreover have "fold parse_descriptor (map (\<lambda>x. (item_type x, item_bytes x)) (ui_items i))
      (save_interface info current, Some (?new\<lparr>if_endpoints := take MAX_ENDPOINTS []\<rparr>)) =
      (save_interface info current, Some (interface_of i))"
    unfolding parse_items_some [OF assms] by (simp add: interface_of_def)
  ultimately show ?thesis
    by (simp only: interface_chunks_def fold_simps)
qed

lemma save_interface_take:
  "save_interface \<lparr>configuration_value = v, interfaces = take MAX_INTERFACES xs\<rparr> current =
    \<lparr>configuration_value = v,
     interfaces = take MAX_INTERFACES (xs @ (case current of None \<Rightarrow> [] | Some i \<Rightarrow> [i]))\<rparr>"
  by (cases current) (simp_all add: save_interface_def vec_push_ignore_take del: take_append)

lemma parse_interfaces:
  "list_all (\<lambda>i. list_all item_ok (ui_items i)) is \<Longrightarrow>
    (case fold parse_descriptor (concat (map interface_chunks is))
        (\<lparr>configuration_value = v, interfaces = take MAX_INTERFACES xs\<rparr>, current) of
       (info, cur) \<Rightarrow> save_interface info cur) =
    \<lparr>configuration_value = v,
     interfaces = take MAX_INTERFACES (xs @ (case current of None \<Rightarrow> [] | Some i \<Rightarrow> [i]) @ map interface_of is)\<rparr>"
  by (induction "is" arbitrary: xs current)
     (simp_all add: save_interface_take parse_interface del: take_append)

lemma length_config_header: "length (config_header c) = 9"
  by (simp add: config_header_def)

lemma length_config_bytes: "length (config_bytes c) = config_length c"
  by (simp add: config_bytes_def config_length_def length_config_header)

lemma parse_config_bytes:
  assumes "config_ok c"
  shows "parse_configuration (config_bytes c) =
    \<lparr>configuration_value = uc_value c, interfaces = take MAX_INTERFACES (map interface_of (uc_interfaces c))\<rparr>"
proof -
  have "chunk_ok (2, config_header c)"
    by (simp add: chunk_ok_def config_header_def)
  then have ds: "descriptors (config_bytes c) 0 = (2, config_header c) # body_chunks c"
    using descriptors_chunks [of "(2, config_header c) # body_chunks c" "[]"] body_chunks_ok [OF assms]
    by (simp add: config_bytes_def)
  have cfg: "map_option cd_configuration_value (read_configuration_descriptor (config_bytes c)) = Some (uc_value c)"
    by (simp add: read_configuration_descriptor_def config_bytes_def config_header_def byte_at_def nth_append)
  then obtain d where d: "read_configuration_descriptor (config_bytes c) = Some d" "cd_configuration_value d = uc_value c"
    by auto
  have first: "parse_descriptor (2, config_header c) st = st" for st
    by (simp add: parse_descriptor_def DESC_INTERFACE_def DESC_ENDPOINT_def split: prod.splits)
  have "9 \<le> length (config_bytes c)"
    by (simp add: length_config_bytes config_length_def)
  then show ?thesis
    using d parse_interfaces [of "uc_interfaces c" "uc_value c" "[]" None] assms
    by (simp add: parse_configuration_def ds first body_chunks_def config_ok_def parse_items_none
        default_configuration_def)
qed

end
