(* ===== verification/Usb_Props.thy ===== *)
theory Usb_Props
  imports Usb_Storage Usb_Correct Block_Reader
begin

text \<open>
  Properties of the USB stack. Devices are described by the USB and SCSI documents: a device answers
  descriptor requests with its descriptors (\<open>answers\<close>), and a disk answers bulk-only commands
  (\<open>bot_target\<close> over \<open>disk_respond\<close>).
\<close>

section \<open>Big-endian numbers\<close>

lemma length_be_bytes [simp]: "length (be_bytes k n) = k"
  by (simp add: be_bytes_def)

lemma be_nat_be_bytes: "be_nat (be_bytes k n) = n mod 256 ^ k"
  by (simp add: be_nat_def be_bytes_def le_nat_le_bytes)

lemma le_bytes_4: "le_bytes 4 n = [of_nat n, of_nat (n div 256), of_nat (n div 256 div 256), of_nat (n div 256 div 256 div 256)]"
  by (simp only: le_bytes.simps numeral_eq_Suc [of "num.Bit0 (num.Bit0 num.One)"] pred_numeral_simps BitM.simps
      numeral_One One_nat_def numeral_eq_Suc [of "num.Bit1 num.One"] numeral_eq_Suc [of "num.Bit0 num.One"])

section \<open>Bulk-only commands\<close>

text \<open>The wrappers of the bulk-only transport as the specification lays them out.\<close>

definition bot_command :: "nat \<Rightarrow> nat \<Rightarrow> u8 \<Rightarrow> u8 \<Rightarrow> u8 list \<Rightarrow> u8 list" where
  "bot_command tag n flags lun cdb =
     [0x55, 0x53, 0x42, 0x43] @ le_bytes 4 tag @ le_bytes 4 n @ [flags, lun, of_nat (length cdb)] @
     cdb @ replicate (16 - length cdb) 0"

definition bot_status :: "nat \<Rightarrow> nat \<Rightarrow> u8 \<Rightarrow> u8 list" where
  "bot_status tag residue status = [0x55, 0x53, 0x42, 0x53] @ le_bytes 4 tag @ le_bytes 4 residue @ [status]"

text \<open>
  A target that serves commands: it takes the command, sends the data the command asks for and reports
  success, after which it is ready again. \<open>respond cdb n\<close> is the data of a command that the target
  serves with a transfer of \<open>n\<close> bytes.
\<close>

definition bot_target ::
    "'s usb_controller \<Rightarrow> u8 \<Rightarrow> u8 \<Rightarrow> u8 \<Rightarrow> ('s \<Rightarrow> bool) \<Rightarrow> (u8 list \<Rightarrow> nat \<Rightarrow> u8 list option) \<Rightarrow> bool" where
  "bot_target ctl addr ep_in ep_out ready respond \<longleftrightarrow>
     (\<forall>s tag flags cdb n data. ready s \<longrightarrow> length cdb \<le> 16 \<longrightarrow> n < 2 ^ 32 \<longrightarrow> tag < 2 ^ 32 \<longrightarrow>
        respond cdb n = Some data \<longrightarrow> (0 < n \<longrightarrow> flags = 0x80) \<longrightarrow>
        (\<exists>s1 s2 s3 b.
           bulk_transfer ctl s addr ep_out False (bot_command tag n flags 0 cdb) = (s1, Inr 31, b) \<and>
           (0 < n \<longrightarrow> (\<forall>buf. length buf = n \<longrightarrow> bulk_transfer ctl s1 addr ep_in True buf = (s2, Inr n, data))) \<and>
           (n = 0 \<longrightarrow> s2 = s1) \<and>
           bulk_transfer ctl s2 addr ep_in True (replicate 13 0) = (s3, Inr 13, bot_status tag 0 0) \<and>
           ready s3))"

lemma bot_targetD:
  assumes "bot_target ctl addr ep_in ep_out ready respond"
    and "ready s" "length cdb \<le> 16" "n < 2 ^ 32" "tag < 2 ^ 32" "respond cdb n = Some data" "0 < n \<longrightarrow> flags = 0x80"
  shows "\<exists>s1 s2 s3 b.
    bulk_transfer ctl s addr ep_out False (bot_command tag n flags 0 cdb) = (s1, Inr 31, b) \<and>
    (0 < n \<longrightarrow> (\<forall>buf. length buf = n \<longrightarrow> bulk_transfer ctl s1 addr ep_in True buf = (s2, Inr n, data))) \<and>
    (n = 0 \<longrightarrow> s2 = s1) \<and>
    bulk_transfer ctl s2 addr ep_in True (replicate 13 0) = (s3, Inr 13, bot_status tag 0 0) \<and> ready s3"
  using assms unfolding bot_target_def by simp

text \<open>What a disk of \<open>N\<close> blocks of \<open>b\<close> bytes with the content \<open>c\<close> answers, by the SCSI block commands.\<close>

definition disk_respond :: "u8 list \<Rightarrow> medium \<Rightarrow> nat \<Rightarrow> nat \<Rightarrow> u8 list \<Rightarrow> nat \<Rightarrow> u8 list option" where
  "disk_respond inq c N b cdb n =
     (if cdb = [0, 0, 0, 0, 0, 0] \<and> n = 0 then Some []
      else if cdb = [0x12, 0, 0, 0, 36, 0] \<and> n = 36 then Some inq
      else if cdb = [0x25, 0, 0, 0, 0, 0, 0, 0, 0, 0] \<and> n = 8
      then Some (be_bytes 4 (min (N - 1) 0xFFFFFFFF) @ be_bytes 4 b)
      else if cdb = [0x9E, 0x10, 0, 0, 0, 0, 0, 0, 0, 0, 0, 0, 0, 32, 0, 0] \<and> n = 32
      then Some (be_bytes 8 (N - 1) @ be_bytes 4 b @ replicate 20 0)
      else if length cdb = 10 \<and> cdb ! 0 = 0x28 then
        (let lba = be_nat (slice 2 4 cdb); k = be_nat (slice 7 2 cdb)
         in if lba + k \<le> N \<and> n = k * b then Some (bytes_at c (lba * b) n) else None)
      else if length cdb = 16 \<and> cdb ! 0 = 0x88 then
        (let lba = be_nat (slice 2 8 cdb); k = be_nat (slice 10 4 cdb)
         in if lba + k \<le> N \<and> n = k * b then Some (bytes_at c (lba * b) n) else None)
      else None)"

lemma cbw_bytes_command:
  assumes "length cdb \<le> 16" and "n < 2 ^ 32"
  shows "cbw_bytes (build_cbw tag lun n cdb is_read) =
    bot_command (unat tag) n (if is_read then 0x80 else 0) lun cdb"
proof -
  have "le_bytes 4 (unat CBW_SIGNATURE) = [0x55, 0x53, 0x42, 0x43]"
    by (simp add: CBW_SIGNATURE_def le_bytes_4)
  moreover have "unat (of_nat n :: u32) = n"
    using assms(2) by (simp add: unat_of_nat)
  ultimately show ?thesis
    using assms(1) by (simp add: cbw_bytes_def build_cbw_def bot_command_def)
qed

lemma check_csw_status: "check_csw tag k (bot_status (unat tag) 0 0) = Inr k"
proof -
  have len: "length (le_bytes 4 (unat tag)) = 4"
    by simp
  have "field (bot_status (unat tag) 0 0) 4 4 = unat tag"
    using unat_bound [of tag] by (simp add: bot_status_def field_def slice_def le_nat_le_bytes)
  moreover have "field (bot_status (unat tag) 0 0) 0 4 = unat CSW_SIGNATURE"
    by (simp add: bot_status_def field_def slice_def CSW_SIGNATURE_def)
  moreover have "bot_status (unat tag) 0 0 ! 12 = 0" "length (bot_status (unat tag) 0 0) = 13"
    by (simp_all add: bot_status_def nth_append)
  ultimately show ?thesis
    by (simp add: check_csw_def read_csw_def CSW_PASSED_def)
qed

text \<open>A command that the target serves succeeds, delivers its data and leaves the target ready.\<close>

lemma scsi_command_served:
  assumes target: "bot_target ctl (ms_device_addr d) (ms_bulk_in d) (ms_bulk_out d) ready respond"
    and "ready s" and "ms_lun d = 0" and "length cdb \<le> 16" and "length buf < 2 ^ 32"
    and "respond cdb (length buf) = Some data"
    and "d' = d\<lparr>ms_tag := ms_tag d + 1\<rparr>"
  shows "0 < length buf \<Longrightarrow>
      \<exists>s'. scsi_command ctl d s cdb (Some buf) True = (d', s', Inr (length buf), data) \<and> ready s'"
    and "buf = [] \<Longrightarrow> \<exists>s'. scsi_command ctl d s cdb None False = (d', s', Inr 0, []) \<and> ready s'"
proof -
  have tag: "unat (ms_tag d) < 2 ^ 32"
    using unat_bound [of "ms_tag d"] by simp
  {
    assume "0 < length buf"
    then obtain s1 s2 s3 b where
      "bulk_transfer ctl s (ms_device_addr d) (ms_bulk_out d) False
        (bot_command (unat (ms_tag d)) (length buf) 0x80 0 cdb) = (s1, Inr 31, b)"
      "bulk_transfer ctl s1 (ms_device_addr d) (ms_bulk_in d) True buf = (s2, Inr (length buf), data)"
      "bulk_transfer ctl s2 (ms_device_addr d) (ms_bulk_in d) True (replicate 13 0) =
        (s3, Inr 13, bot_status (unat (ms_tag d)) 0 0)" "ready s3"
      using bot_targetD [OF target assms(2,4,5) tag assms(6), where flags = "0x80"] by blast
    then show "\<exists>s'. scsi_command ctl d s cdb (Some buf) True = (d', s', Inr (length buf), data) \<and> ready s'"
      using assms(3,4,5,7)
      by (simp add: scsi_command_def next_tag_def data_phase_def cbw_bytes_command check_csw_status)
  next
    assume "buf = []"
    then obtain s1 s3 b where
      "bulk_transfer ctl s (ms_device_addr d) (ms_bulk_out d) False
        (bot_command (unat (ms_tag d)) 0 0 0 cdb) = (s1, Inr 31, b)"
      "bulk_transfer ctl s1 (ms_device_addr d) (ms_bulk_in d) True (replicate 13 0) =
        (s3, Inr 13, bot_status (unat (ms_tag d)) 0 0)" "ready s3"
      using bot_targetD [OF target assms(2,4,5) tag assms(6), where flags = "0"] by auto
    then show "\<exists>s'. scsi_command ctl d s cdb None False = (d', s', Inr 0, []) \<and> ready s'"
      using assms(3,4,7) cbw_bytes_command [of cdb 0 "ms_tag d" 0 False]
      by (simp add: scsi_command_def next_tag_def data_phase_def check_csw_status)
  }
qed


section \<open>Disks\<close>

definition disk_ok :: "u8 list \<Rightarrow> nat \<Rightarrow> nat \<Rightarrow> bool" where
  "disk_ok inq N b \<longleftrightarrow> length inq = 36 \<and> 0 < N \<and> N < 2 ^ 64 \<and> 0 < b \<and> b < 2 ^ 32"

text \<open>The driver's record describes the disk behind it.\<close>

definition disk_attached ::
    "'s usb_controller \<Rightarrow> ('s \<Rightarrow> bool) \<Rightarrow> u8 list \<Rightarrow> medium \<Rightarrow> nat \<Rightarrow> nat \<Rightarrow> usb_mass_storage \<Rightarrow> 's \<Rightarrow> bool" where
  "disk_attached ctl ready inq c N b d s \<longleftrightarrow>
     bot_target ctl (ms_device_addr d) (ms_bulk_in d) (ms_bulk_out d) ready (disk_respond inq c N b) \<and>
     ready s \<and> ms_lun d = 0 \<and> ms_num_blocks d = of_nat N \<and> ms_block_size d = of_nat b \<and> disk_ok inq N b"

lemma respond_read_10:
  assumes "lba < 2 ^ 32" "k < 2 ^ 16" "lba + k \<le> N"
  shows "disk_respond inq c N b ([READ_10, 0] @ be_bytes 4 lba @ [0] @ be_bytes 2 k @ [0]) (k * b) =
    Some (bytes_at c (lba * b) (k * b))"
proof -
  let ?cdb = "[READ_10, 0] @ be_bytes 4 lba @ [0] @ be_bytes 2 k @ [0]"
  have "be_nat (slice 2 4 ?cdb) = lba" "be_nat (slice 7 2 ?cdb) = k"
    using assms(1,2) by (simp_all add: slice_def be_nat_be_bytes)
  moreover have "length ?cdb = 10" "?cdb ! 0 = 0x28"
    by (simp_all add: READ_10_def)
  moreover have "?cdb \<noteq> 0 # xs" "?cdb \<noteq> 0x12 # xs" "?cdb \<noteq> 0x25 # xs" "?cdb \<noteq> 0x9E # xs" for xs
    by (simp_all add: READ_10_def)
  ultimately show ?thesis
    using assms(3) unfolding disk_respond_def by (simp only: Let_def) simp
qed

lemma respond_read_16:
  assumes "lba < 2 ^ 64" "k < 2 ^ 32" "lba + k \<le> N"
  shows "disk_respond inq c N b ([0x88, 0] @ be_bytes 8 lba @ be_bytes 4 k @ [0, 0]) (k * b) =
    Some (bytes_at c (lba * b) (k * b))"
proof -
  let ?cdb = "[0x88, 0] @ be_bytes 8 lba @ be_bytes 4 k @ [0, 0]"
  have "be_nat (slice 2 8 ?cdb) = lba" "be_nat (slice 10 4 ?cdb) = k"
    using assms(1,2) by (simp_all add: slice_def be_nat_be_bytes)
  moreover have "length ?cdb = 16" "?cdb ! 0 = 0x88"
    by simp_all
  ultimately show ?thesis
    using assms(3) unfolding disk_respond_def by (simp only: Let_def) simp
qed

lemma scsi_read_attached:
  assumes "disk_attached ctl ready inq c N b d s" and "length cdb \<le> 16"
    and "disk_respond inq c N b cdb (length buf) = Some data" and "0 < length buf" and "length buf < 2 ^ 32"
  shows "\<exists>s'. scsi_command ctl d s cdb (Some buf) True = (d\<lparr>ms_tag := ms_tag d + 1\<rparr>, s', Inr (length buf), data) \<and>
    disk_attached ctl ready inq c N b (d\<lparr>ms_tag := ms_tag d + 1\<rparr>) s'"
  using assms scsi_command_served(1) [of ctl d ready "disk_respond inq c N b" s cdb buf data]
  by (auto simp: disk_attached_def)

lemma read_sectors_attached:
  assumes "disk_attached ctl ready inq c N b d s"
    and "unat lba + unat count \<le> N" and "0 < unat count"
    and "unat lba + unat count < 2 ^ 32 \<Longrightarrow> unat count < 2 ^ 16"
    and "unat count * b \<le> length buf" and "unat count * b < 2 ^ 32"
  shows "\<exists>s'. read_sectors_generic ctl d s lba count buf =
      Some (d\<lparr>ms_tag := ms_tag d + 1\<rparr>, s', Inr (),
            bytes_at c (unat lba * b) (unat count * b) @ drop (unat count * b) buf) \<and>
    disk_attached ctl ready inq c N b (d\<lparr>ms_tag := ms_tag d + 1\<rparr>) s'"
proof -
  have b: "unat (ms_block_size d) = b" "0 < b" and N: "N < 2 ^ 64"
    using assms(1) by (auto simp: disk_attached_def disk_ok_def unat_of_nat)
  have sum: "unat (lba + ucast count) = unat lba + unat count"
    using assms(2) N unat_ucast_widen [where 'b = 64, of count] by (subst unat_plus_less) auto
  let ?n = "unat count * b"
  define front where "front = take ?n buf"
  have len: "length front = ?n" "0 < ?n"
    using assms(3,5) b by (simp_all add: front_def)
  show ?thesis
  proof (cases "unat lba + unat count < 2 ^ 32")
    case True
    let ?cdb = "[READ_10, 0] @ be_bytes 4 (unat lba) @ [0] @ be_bytes 2 (unat count) @ [0]"
    have cnt: "unat (ucast count :: u16) = unat count" and l: "unat (ucast lba :: u32) = unat lba"
      using True assms(3) assms(4) [OF True] by (simp_all add: unsigned_ucast_eq take_bit_nat_eq_self_iff)
    have "disk_respond inq c N b ?cdb (length front) = Some (bytes_at c (unat lba * b) ?n)"
      unfolding len(1) using True assms(2,3) assms(4) [OF True] by (intro respond_read_10) auto
    then obtain s' where "scsi_command ctl d s ?cdb (Some front) True =
        (d\<lparr>ms_tag := ms_tag d + 1\<rparr>, s', Inr ?n, bytes_at c (unat lba * b) ?n)"
      "disk_attached ctl ready inq c N b (d\<lparr>ms_tag := ms_tag d + 1\<rparr>) s'"
      using scsi_read_attached [OF assms(1), of ?cdb front] len assms(6) by auto
    moreover have "lba + ucast count \<le> 0xFFFFFFFF"
      using True by (simp add: word_le_nat_alt sum)
    ultimately show ?thesis
      using assms(5) b cnt l by (simp add: read_sectors_generic_def read_10_def front_def Let_def)
  next
    case False
    let ?cdb = "[0x88, 0] @ be_bytes 8 (unat lba) @ be_bytes 4 (unat count) @ [0, 0]"
    have "disk_respond inq c N b ?cdb (length front) = Some (bytes_at c (unat lba * b) ?n)"
      unfolding len(1) using assms(2) unat_bound [of lba] unat_bound [of count] by (intro respond_read_16) auto
    then obtain s' where "scsi_command ctl d s ?cdb (Some front) True =
        (d\<lparr>ms_tag := ms_tag d + 1\<rparr>, s', Inr ?n, bytes_at c (unat lba * b) ?n)"
      "disk_attached ctl ready inq c N b (d\<lparr>ms_tag := ms_tag d + 1\<rparr>) s'"
      using scsi_read_attached [OF assms(1), of ?cdb front] len assms(6) by auto
    moreover have "\<not> lba + ucast count \<le> 0xFFFFFFFF"
      using False by (simp add: word_le_nat_alt sum)
    ultimately show ?thesis
      using assms(5) b by (simp add: read_sectors_generic_def read_16_def front_def Let_def)
  qed
qed

lemma read_sectors_generic_1:
  assumes "disk_attached ctl ready inq c N b d s" and "unat lba < N" and "b \<le> length buf"
  shows "\<exists>s'. read_sectors_generic ctl d s lba 1 buf =
    Some (d\<lparr>ms_tag := ms_tag d + 1\<rparr>, s', Inr (), bytes_at c (unat lba * b) b @ drop b buf)"
  using read_sectors_attached [OF assms(1), of lba 1 buf] assms by (auto simp: disk_attached_def disk_ok_def)

text \<open>C32: Reading from a USB disk. On a device whose target serves the SCSI commands of a disk, a read of blocks
  that exist returns their bytes at the front of the buffer and leaves the rest of it alone, by READ(10)
  for up to 65535 blocks below 2 TiB and by READ(16) beyond, and the device stays usable with the next tag.\<close>

theorem read_sectors_correct:
  assumes "disk_attached ctl ready inq c N b d s"
    and "unat lba + unat count \<le> N" and "0 < unat count"
    and "unat lba + unat count < 2 ^ 32 \<Longrightarrow> unat count < 2 ^ 16"
    and "unat count * b \<le> length buf" and "unat count * b < 2 ^ 32"
  shows "\<exists>s'. read_sectors_generic ctl d s lba count buf =
      Some (d\<lparr>ms_tag := ms_tag d + 1\<rparr>, s', Inr (),
            bytes_at c (unat lba * b) (unat count * b) @ drop (unat count * b) buf) \<and>
    disk_attached ctl ready inq c N b (d\<lparr>ms_tag := ms_tag d + 1\<rparr>) s'"
  using assms by (rule read_sectors_attached)


lemma served_commands:
  assumes "disk_ok inq N b"
  shows "disk_respond inq c N b [TEST_UNIT_READY, 0, 0, 0, 0, 0] 0 = Some []"
    and "disk_respond inq c N b [INQUIRY, 0, 0, 0, 36, 0] 36 = Some inq"
    and "disk_respond inq c N b (READ_CAPACITY_10 # replicate 9 0) 8 =
      Some (be_bytes 4 (min (N - 1) 0xFFFFFFFF) @ be_bytes 4 b)"
    and "disk_respond inq c N b ([READ_CAPACITY_16, 0x10] @ replicate 11 0 @ [32, 0, 0]) 32 =
      Some (be_bytes 8 (N - 1) @ be_bytes 4 b @ replicate 20 0)"
proof -
  have r: "replicate 9 (0 :: u8) = [0, 0, 0, 0, 0, 0, 0, 0, 0]"
    "replicate 11 (0 :: u8) = [0, 0, 0, 0, 0, 0, 0, 0, 0, 0, 0]"
    by (simp_all add: numeral_eq_Suc)
  show "disk_respond inq c N b [TEST_UNIT_READY, 0, 0, 0, 0, 0] 0 = Some []"
    and "disk_respond inq c N b [INQUIRY, 0, 0, 0, 36, 0] 36 = Some inq"
    by (simp_all add: disk_respond_def TEST_UNIT_READY_def INQUIRY_def)
  show "disk_respond inq c N b (READ_CAPACITY_10 # replicate 9 0) 8 =
      Some (be_bytes 4 (min (N - 1) 0xFFFFFFFF) @ be_bytes 4 b)"
    and "disk_respond inq c N b ([READ_CAPACITY_16, 0x10] @ replicate 11 0 @ [32, 0, 0]) 32 =
      Some (be_bytes 8 (N - 1) @ be_bytes 4 b @ replicate 20 0)"
    by (simp_all add: disk_respond_def r READ_CAPACITY_10_def READ_CAPACITY_16_def)
qed

lemma read_capacity_16_correct:
  assumes target: "bot_target ctl (ms_device_addr d) (ms_bulk_in d) (ms_bulk_out d) ready (disk_respond inq c N b)"
    and "ready s" and "ms_lun d = 0" and ok: "disk_ok inq N b"
  shows "\<exists>s' d'. read_capacity_16 ctl d s = (d', s', Inr ()) \<and> disk_attached ctl ready inq c N b d' s' \<and>
    ms_vendor d' = ms_vendor d \<and> ms_product d' = ms_product d"
proof -
  define p where "p = N - 1"
  have b: "b < 2 ^ 32" and N: "0 < N" "N < 2 ^ 64"
    using ok by (simp_all add: disk_ok_def)
  let ?d1 = "d\<lparr>ms_tag := ms_tag d + 1\<rparr>"
  obtain s1 where c16: "scsi_command ctl d s ([READ_CAPACITY_16, 0x10] @ replicate 11 0 @ [32, 0, 0])
      (Some (replicate 32 0)) True = (?d1, s1, Inr 32, be_bytes 8 p @ be_bytes 4 b @ replicate 20 0)" "ready s1"
    using scsi_command_served(1) [OF target assms(2,3), of "[READ_CAPACITY_16, 0x10] @ replicate 11 0 @ [32, 0, 0]"
        "replicate 32 0" "be_bytes 8 p @ be_bytes 4 b @ replicate 20 0" ?d1]
      served_commands(4) [OF ok, folded p_def] by auto
  have resp: "be_nat (slice 0 8 (be_bytes 8 p @ be_bytes 4 b @ replicate 20 0)) = p"
    "be_nat (slice 8 4 (be_bytes 8 p @ be_bytes 4 b @ replicate 20 0)) = b"
    using b N by (simp_all add: slice_def be_nat_be_bytes p_def)
  have "of_nat p + 1 = (of_nat N :: u64)"
    using N by (simp add: p_def of_nat_diff)
  then show ?thesis
    unfolding read_capacity_16_def c16(1) using c16(2) target assms(3) ok by (simp add: resp disk_attached_def)
qed

lemma read_capacity_correct:
  assumes target: "bot_target ctl (ms_device_addr d) (ms_bulk_in d) (ms_bulk_out d) ready (disk_respond inq c N b)"
    and "ready s" and "ms_lun d = 0" and ok: "disk_ok inq N b"
  shows "\<exists>s' d'. read_capacity ctl d s = (d', s', Inr ()) \<and> disk_attached ctl ready inq c N b d' s' \<and>
    ms_vendor d' = ms_vendor d \<and> ms_product d' = ms_product d"
proof -
  define top where "top = min (N - 1) 0xFFFFFFFF"
  let ?d1 = "d\<lparr>ms_tag := ms_tag d + 1\<rparr>"
  have b: "b < 2 ^ 32" and N: "0 < N" "N < 2 ^ 64"
    using ok by (simp_all add: disk_ok_def)
  obtain s1 where c10: "scsi_command ctl d s (READ_CAPACITY_10 # replicate 9 0) (Some (replicate 8 0)) True =
      (?d1, s1, Inr 8, be_bytes 4 top @ be_bytes 4 b)" "ready s1"
    using scsi_command_served(1) [OF target assms(2,3), of "READ_CAPACITY_10 # replicate 9 0" "replicate 8 0"
        "be_bytes 4 top @ be_bytes 4 b" ?d1]
      served_commands(3) [OF ok] by (auto simp: top_def)
  have resp: "be_nat (slice 0 4 (be_bytes 4 top @ be_bytes 4 b)) = top"
    "be_nat (slice 4 4 (be_bytes 4 top @ be_bytes 4 b)) = b"
    using b by (simp_all add: slice_def be_nat_be_bytes top_def)
  let ?d2 = "?d1\<lparr>ms_num_blocks := ucast (of_nat top :: u32) + 1, ms_block_size := of_nat b\<rparr>"
  have cap: "read_capacity ctl d s =
      (if (of_nat top :: u32) = 0xFFFFFFFF then read_capacity_16 ctl ?d2 s1 else (?d2, s1, Inr ()))"
    by (simp add: read_capacity_def c10(1) resp Let_def)
  show ?thesis
  proof (cases "N - 1 < 0xFFFFFFFF")
    case True
    then have u: "unat (of_nat top :: u32) = N - 1"
      by (simp add: unat_of_nat top_def)
    then have "(of_nat top :: u32) \<noteq> 0xFFFFFFFF"
      using True by (auto simp: word_unat_eq_iff)
    moreover have "ucast (of_nat top :: u32) + 1 = (of_nat N :: u64)"
    proof -
      have "(ucast (of_nat top :: u32) :: u64) = of_nat (unat (of_nat top :: u32))"
        by simp
      then show ?thesis
        unfolding u using N by (simp add: of_nat_diff)
    qed
    ultimately show ?thesis
      using cap c10(2) target assms(3) ok by (simp add: disk_attached_def)
  next
    case False
    then have m: "top = 0xFFFFFFFF"
      by (simp add: top_def)
    then show ?thesis
      using cap read_capacity_16_correct [of ctl ?d2 ready inq c N b s1] target c10(2) assms(3) ok by simp
  qed
qed

text \<open>Opening a USB disk. For a mass storage device whose target serves the commands of a disk,
  \<open>UsbMassStorage::new\<close> succeeds and learns the number and size of its blocks, also beyond 2 TiB, where READ
  CAPACITY(10) saturates, and the vendor and product of its inquiry data.\<close>

theorem usb_mass_storage_new_correct:
  assumes "bot_target ctl addr (ep_number ein) (ep_number eout) ready (disk_respond inq c N b)"
    and "ready s" and "disk_ok inq N b"
    and "get_device_info ctl s addr = Some di" and "di_is_mass_storage di"
    and "get_bulk_endpoints ctl s addr = Some (ein, eout)"
  shows "\<exists>s' d. usb_mass_storage_new ctl s addr = (s', Inr d) \<and> disk_attached ctl ready inq c N b d s' \<and>
    ms_vendor d = slice 8 8 inq \<and> ms_product d = slice 16 16 inq"
proof -
  define d where "d = \<lparr>ms_device_addr = addr, ms_bulk_in = ep_number ein, ms_bulk_out = ep_number eout,
      ms_max_packet = ep_max_packet_size ein, ms_lun = 0, ms_tag = 1, ms_num_blocks = 0, ms_block_size = 512,
      ms_vendor = replicate 8 0, ms_product = replicate 16 0\<rparr>"
  have fields: "ms_device_addr d = addr" "ms_bulk_in d = ep_number ein" "ms_bulk_out d = ep_number eout" "ms_lun d = 0"
    by (simp_all add: d_def)
  define d1 where "d1 = d\<lparr>ms_tag := ms_tag d + 1\<rparr>"
  define d2 where "d2 = d1\<lparr>ms_tag := ms_tag d1 + 1\<rparr>"
  obtain s1 where tur: "scsi_command ctl d s [TEST_UNIT_READY, 0, 0, 0, 0, 0] None False = (d1, s1, Inr 0, [])" "ready s1"
    using scsi_command_served(2) [of ctl d ready "disk_respond inq c N b" s "[TEST_UNIT_READY, 0, 0, 0, 0, 0]" "[]" "[]" d1]
      assms(1,2) served_commands(1) [OF assms(3)] by (auto simp: fields d1_def)
  obtain s2 where inq: "scsi_command ctl d1 s1 [INQUIRY, 0, 0, 0, 36, 0] (Some (replicate 36 0)) True =
      (d2, s2, Inr 36, inq)" "ready s2"
    using scsi_command_served(1) [of ctl d1 ready "disk_respond inq c N b" s1 "[INQUIRY, 0, 0, 0, 36, 0]" "replicate 36 0" inq d2]
      assms(1) tur(2) served_commands(2) [OF assms(3)] by (auto simp: fields d1_def d2_def)
  define d3 where "d3 = d2\<lparr>ms_vendor := slice 8 8 inq, ms_product := slice 16 16 inq\<rparr>"
  have d3: "ms_device_addr d3 = addr" "ms_bulk_in d3 = ep_number ein" "ms_bulk_out d3 = ep_number eout" "ms_lun d3 = 0"
    "ms_vendor d3 = slice 8 8 inq" "ms_product d3 = slice 16 16 inq"
    by (simp_all add: d3_def d2_def d1_def fields)
  have "wait_unit_ready 5 ctl d s = (d1, s1)"
    using wait_unit_ready.simps(2) [of 4 ctl d s] by (simp add: test_unit_ready_def tur(1))
  then have "ms_init ctl d s = read_capacity ctl d3 s2"
    using assms(3) by (simp add: ms_init_def inquiry_def inq(1) d3_def disk_ok_def)
  moreover obtain s' d' where "read_capacity ctl d3 s2 = (d', s', Inr ())" "disk_attached ctl ready inq c N b d' s'"
    "ms_vendor d' = ms_vendor d3" "ms_product d' = ms_product d3"
    using read_capacity_correct [of ctl d3 ready inq c N b s2] assms(1,3) inq(2) d3 by auto
  ultimately show ?thesis
    using assms(4-6) d3(5,6) by (simp add: usb_mass_storage_new_def flip: d_def)
qed


section \<open>A disk that keeps the promise\<close>

text \<open>A controller with one disk, for the witnesses: idle, with data to send, or with a status to send.\<close>

datatype disk_phase = Idle | SendData nat "u8 list" | SendStatus nat

definition sim_command :: "(u8 list \<Rightarrow> nat \<Rightarrow> u8 list option) \<Rightarrow> u8 list \<Rightarrow> disk_phase" where
  "sim_command respond cbw =
     (let tag = field cbw 4 4; n = field cbw 8 4; cdb = slice 15 (unat (cbw ! 14)) cbw
      in case respond cdb n of
           Some data \<Rightarrow> (if n = 0 then SendStatus tag else SendData tag data)
         | None \<Rightarrow> Idle)"

definition sim_bulk ::
    "(u8 list \<Rightarrow> nat \<Rightarrow> u8 list option) \<Rightarrow> disk_phase \<Rightarrow> u8 \<Rightarrow> u8 \<Rightarrow> bool \<Rightarrow> u8 list \<Rightarrow>
     disk_phase \<times> (usb_error + nat) \<times> u8 list" where
  "sim_bulk respond s addr ep is_in buf =
     (case s of
        Idle \<Rightarrow> (sim_command respond buf, Inr 31, buf)
      | SendData tag data \<Rightarrow> (SendStatus tag, Inr (length buf), data)
      | SendStatus tag \<Rightarrow> (Idle, Inr 13, bot_status tag 0 0))"

definition sim_endpoint :: "u8 \<Rightarrow> direction \<Rightarrow> endpoint_info" where
  "sim_endpoint n dir =
     \<lparr>ep_number = n, ep_direction = dir, ep_transfer_type = Bulk, ep_max_packet_size = 512, ep_interval = 0,
      ep_toggle = False\<rparr>"

definition sim_info :: device_info where
  "sim_info = \<lparr>di_address = 1, di_speed = High, di_vendor_id = 0, di_product_id = 0, di_device_class = 0,
     di_is_mass_storage = True, di_is_hid = False, di_is_keyboard = False, di_is_hub = False\<rparr>"

definition sim_controller :: "(u8 list \<Rightarrow> nat \<Rightarrow> u8 list option) \<Rightarrow> disk_phase usb_controller" where
  "sim_controller respond =
     \<lparr>control_transfer = (\<lambda>s a r q v i d. (s, Inl UsbStall, [])),
      bulk_transfer = sim_bulk respond,
      find_mass_storage = (\<lambda>s. Some 1), find_hid_keyboard = (\<lambda>s. None),
      get_device_info = (\<lambda>s a. Some sim_info),
      get_bulk_endpoints = (\<lambda>s a. Some (sim_endpoint 1 In, sim_endpoint 2 Out)),
      get_interrupt_endpoint = (\<lambda>s a. None)\<rparr>"

lemma sim_command_served:
  assumes "length cdb \<le> 16" "n < 2 ^ 32" "tag < 2 ^ 32" "respond cdb n = Some data"
  shows "sim_command respond (bot_command tag n flags 0 cdb) = (if n = 0 then SendStatus tag else SendData tag data)"
proof -
  have "field (bot_command tag n flags 0 cdb) 4 4 = tag" "field (bot_command tag n flags 0 cdb) 8 4 = n"
    using assms(2,3) by (simp_all add: bot_command_def field_def slice_def le_nat_le_bytes)
  moreover have "bot_command tag n flags 0 cdb ! 14 = of_nat (length cdb)"
    by (simp add: bot_command_def nth_append)
  moreover have "unat (of_nat (length cdb) :: u8) = length cdb"
    using assms(1) by (simp add: unat_of_nat)
  moreover have "slice 15 (length cdb) (bot_command tag n flags 0 cdb) = cdb"
    by (simp add: bot_command_def slice_def)
  ultimately show ?thesis
    using assms(4) by (simp add: sim_command_def)
qed

lemma sim_target:
  "bot_target (sim_controller respond) addr ep_in ep_out (\<lambda>s. s = Idle) respond"
  unfolding bot_target_def by (auto simp: sim_controller_def sim_bulk_def sim_command_served)

definition sample_inquiry :: "u8 list" where
  "sample_inquiry = replicate 36 0x41"

definition sample_disk :: "disk_phase usb_controller" where
  "sample_disk = sim_controller (disk_respond sample_inquiry of_nat (2 ^ 33) 512)"

definition sample_device :: usb_mass_storage where
  "sample_device = \<lparr>ms_device_addr = 1, ms_bulk_in = 1, ms_bulk_out = 2, ms_max_packet = 512, ms_lun = 0,
     ms_tag = 4, ms_num_blocks = 2 ^ 33, ms_block_size = 512, ms_vendor = [], ms_product = []\<rparr>"

lemma sample_attached: "disk_attached sample_disk (\<lambda>s. s = Idle) sample_inquiry of_nat (2 ^ 33) 512 sample_device Idle"
  by (simp add: disk_attached_def sample_disk_def sample_device_def sim_target disk_ok_def sample_inquiry_def)

theorem read_sectors_correct_witness:
  "\<exists>s'. read_sectors_generic sample_disk sample_device Idle (2 ^ 32) 2 (replicate 1100 7) =
      Some (sample_device\<lparr>ms_tag := 5\<rparr>, s', Inr (), bytes_at of_nat (2 ^ 32 * 512) 1024 @ replicate 76 7) \<and>
    disk_attached sample_disk (\<lambda>s. s = Idle) sample_inquiry of_nat (2 ^ 33) 512 (sample_device\<lparr>ms_tag := 5\<rparr>) s'"
proof -
  have tag: "sample_device\<lparr>ms_tag := ms_tag sample_device + 1\<rparr> = sample_device\<lparr>ms_tag := 5\<rparr>"
    by (simp add: sample_device_def)
  show ?thesis
    using read_sectors_correct [OF sample_attached, of "2 ^ 32" 2 "replicate 1100 7"] by (simp add: tag)
qed

theorem usb_mass_storage_new_correct_witness:
  "\<exists>s' d. usb_mass_storage_new sample_disk Idle 1 = (s', Inr d) \<and>
    disk_attached sample_disk (\<lambda>s. s = Idle) sample_inquiry of_nat (2 ^ 33) 512 d s' \<and>
    ms_vendor d = replicate 8 0x41 \<and> ms_product d = replicate 16 0x41"
proof -
  have sl: "slice 8 8 sample_inquiry = replicate 8 0x41" "slice 16 16 sample_inquiry = replicate 16 0x41"
    by (simp_all add: slice_def sample_inquiry_def)
  show ?thesis
    unfolding sample_disk_def
    using usb_mass_storage_new_correct [where ctl = "sim_controller (disk_respond sample_inquiry of_nat (2 ^ 33) 512)"
        and addr = 1 and ein = "sim_endpoint 1 In" and eout = "sim_endpoint 2 Out" and ready = "\<lambda>s. s = Idle"
        and inq = sample_inquiry and c = of_nat and N = "2 ^ 33" and b = 512 and s = Idle and di = sim_info, OF sim_target]
    by (simp add: disk_ok_def sl) (simp add: sim_controller_def sim_info_def sample_inquiry_def)
qed


text \<open>More than 65535 blocks below 2 TiB: the count is cut to 16 bits, and the read still succeeds.\<close>

theorem read_10_truncates:
  "\<exists>s'. read_sectors_generic sample_disk sample_device Idle 0 65537 (replicate (65537 * 512) 7) =
    Some (sample_device\<lparr>ms_tag := 5\<rparr>, s', Inr (), bytes_at of_nat 0 512 @ replicate (65536 * 512) 7)"
proof -
  let ?cdb = "[READ_10, 0] @ be_bytes 4 0 @ [0] @ be_bytes 2 1 @ [0]"
  have tag: "sample_device\<lparr>ms_tag := ms_tag sample_device + 1\<rparr> = sample_device\<lparr>ms_tag := 5\<rparr>"
    by (simp add: sample_device_def)
  have "disk_respond sample_inquiry of_nat (2 ^ 33) 512 ?cdb (length (replicate 512 (7 :: u8))) = Some (bytes_at of_nat 0 512)"
    using respond_read_10 [of 0 1 "2 ^ 33" sample_inquiry of_nat 512] by simp
  then obtain s' where "scsi_command sample_disk sample_device Idle ?cdb (Some (replicate 512 7)) True =
      (sample_device\<lparr>ms_tag := 5\<rparr>, s', Inr 512, bytes_at of_nat 0 512)"
    using scsi_read_attached [OF sample_attached, of ?cdb "replicate 512 7" "bytes_at of_nat 0 512"]
    by (auto simp: tag)
  then show ?thesis
    by (simp add: read_sectors_generic_def read_10_def sample_device_def Let_def)
qed

section \<open>The USB device under the file systems\<close>

definition usb_sector_fn :: "'s usb_global \<Rightarrow> u64 \<Rightarrow> u8 list \<Rightarrow> (unit, u8 list) outcome" where
  "usb_sector_fn u lba buf =
     map_option (\<lambda>(g, r, bs). case r of Inl _ \<Rightarrow> Inl () | Inr _ \<Rightarrow> Inr bs) (usb_global_read_sector (Some u) lba buf)"

text \<open>The USB driver keeps the contract of block devices. When the stored device is attached to a disk, the
  USB block device of \<open>block.rs\<close> over \<open>global_read_sector\<close> holds the disk's content, so every result about
  partition tables and file systems on a block device applies to it.\<close>

theorem usb_block_device_holds:
  assumes "disk_attached (ug_controller u) ready inq c N b (ug_device u) (ug_state u)"
    and "usb_sector drv = Some (usb_sector_fn u)"
    and "num_blocks (usb_info dev) = of_nat N" and "block_size (usb_info dev) = of_nat b"
  shows "any_holds drv (Usb dev) c \<and> device_holds (dyn_device drv (Usb dev)) c"
proof -
  have ok: "0 < b" "b < 2 ^ 32" "N < 2 ^ 64"
    using assms(1) by (simp_all add: disk_attached_def disk_ok_def)
  have ub: "unat (of_nat b :: u32) = b" and uN: "unat (of_nat N :: u64) = N"
    using ok by (simp_all add: unat_of_nat)
  have "usb_sector_fn u lba buf = Some (Inr (bytes_at c (unat lba * b) b @ drop b buf))"
    if l: "unat lba < N" and bl: "b \<le> length buf" for lba buf
  proof -
    obtain s' where "read_sectors_generic (ug_controller u) (ug_device u) (ug_state u) lba 1 buf =
        Some ((ug_device u)\<lparr>ms_tag := ms_tag (ug_device u) + 1\<rparr>, s', Inr (), bytes_at c (unat lba * b) b @ drop b buf)"
      using read_sectors_generic_1 [OF assms(1) l bl] by blast
    then show ?thesis
      by (simp add: usb_sector_fn_def usb_global_read_sector_def)
  qed
  then have "any_holds drv (Usb dev) c"
    using assms ok ub uN by (simp add: any_holds_def usb_sectors_hold_def)
  then show ?thesis
    using dyn_device_holds by blast
qed


definition sample_usb :: "disk_phase usb_global" where
  "sample_usb = \<lparr>ug_device = sample_device, ug_controller = sample_disk, ug_state = Idle\<rparr>"

definition sample_usb_drivers :: drivers where
  "sample_usb_drivers = \<lparr>nvme_controllers = [], ahci_controllers = [], sdhci_controllers = [],
     usb_sector = Some (usb_sector_fn sample_usb)\<rparr>"

theorem usb_block_device_holds_witness:
  "any_holds sample_usb_drivers (Usb (usb_block_device_new 0 1 (2 ^ 33) 512 0)) of_nat \<and>
   device_holds (dyn_device sample_usb_drivers (Usb (usb_block_device_new 0 1 (2 ^ 33) 512 0))) of_nat"
  using usb_block_device_holds [of sample_usb "\<lambda>s. s = Idle" sample_inquiry of_nat "2 ^ 33" 512 sample_usb_drivers
      "usb_block_device_new 0 1 (2 ^ 33) 512 0"] sample_attached
  by (simp add: sample_usb_def sample_usb_drivers_def usb_block_device_new_def)

section \<open>Enumeration\<close>

text \<open>
  A device that answers the requests of enumeration, as the USB specification asks: a descriptor request
  of \<open>n\<close> bytes returns the first \<open>n\<close> bytes of the descriptor, and the address and the configuration are
  accepted. \<open>alive\<close> is the set of states in which it does.
\<close>

definition answers :: "('s \<Rightarrow> bool) \<Rightarrow> 's do_control \<Rightarrow> u8 list \<Rightarrow> u8 list \<Rightarrow> bool" where
  "answers alive ctl dev cfg \<longleftrightarrow>
     (\<forall>s d. alive s \<longrightarrow>
        (\<forall>n buf. n \<le> length dev \<longrightarrow> length buf = n \<longrightarrow>
           (\<exists>s'. ctl s d 0x80 6 0x100 0 (Some buf) = (s', Inr n, take n dev) \<and> alive s')) \<and>
        (\<forall>n buf. n \<le> length cfg \<longrightarrow> length buf = n \<longrightarrow>
           (\<exists>s'. ctl s d 0x80 6 0x200 0 (Some buf) = (s', Inr n, take n cfg) \<and> alive s')) \<and>
        (\<forall>a. \<exists>s' b. ctl s d 0 5 a 0 None = (s', Inr 0, b) \<and> alive s') \<and>
        (\<forall>v. \<exists>s' b. ctl s d 0 9 v 0 None = (s', Inr 0, b) \<and> alive s'))"

lemma get_descriptor_device:
  assumes "answers alive ctl dev cfg" and "alive s" and "n \<le> length dev"
  obtains s' where "get_descriptor ctl s d DESC_DEVICE n = (s', Inr n, take n dev)" and "alive s'"
proof -
  have "(push_bit 8 (ucast DESC_DEVICE) :: u16) = 0x100" "DIR_IN OR TYPE_STANDARD OR RCPT_DEVICE = 0x80"
    by (simp_all add: DESC_DEVICE_def DIR_IN_def TYPE_STANDARD_def RCPT_DEVICE_def push_bit_eq_mult)
  moreover have "\<exists>s'. ctl s d 0x80 6 0x100 0 (Some (replicate n 0)) = (s', Inr n, take n dev) \<and> alive s'"
    using assms by (simp add: answers_def)
  ultimately show thesis
    using that by (auto simp: get_descriptor_def GET_DESCRIPTOR_def)
qed

lemma get_descriptor_configuration:
  assumes "answers alive ctl dev cfg" and "alive s" and "n \<le> length cfg"
  obtains s' where "get_descriptor ctl s d DESC_CONFIGURATION n = (s', Inr n, take n cfg)" and "alive s'"
proof -
  have "(push_bit 8 (ucast DESC_CONFIGURATION) :: u16) = 0x200" "DIR_IN OR TYPE_STANDARD OR RCPT_DEVICE = 0x80"
    by (simp_all add: DESC_CONFIGURATION_def DIR_IN_def TYPE_STANDARD_def RCPT_DEVICE_def push_bit_eq_mult)
  moreover have "\<exists>s'. ctl s d 0x80 6 0x200 0 (Some (replicate n 0)) = (s', Inr n, take n cfg) \<and> alive s'"
    using assms by (simp add: answers_def)
  ultimately show thesis
    using that by (auto simp: get_descriptor_def GET_DESCRIPTOR_def)
qed

text \<open>What the loop over the interfaces leaves in the device.\<close>

lemma interface_kinds_apart:
  "if_is_mass_storage i \<Longrightarrow> \<not> if_is_hid_keyboard i" "if_is_mass_storage i \<Longrightarrow> if_class i \<noteq> CLASS_HUB"
  "if_is_hid_keyboard i \<Longrightarrow> if_class i \<noteq> CLASS_HUB"
  by (auto simp: if_is_mass_storage_def if_is_hid_keyboard_def CLASS_MASS_STORAGE_def CLASS_HID_def CLASS_HUB_def)

lemma classify_interface_fields:
  "ud_is_mass_storage (classify_interface i d) = (if_is_mass_storage i \<or> ud_is_mass_storage d)"
  "ud_bulk_in (classify_interface i d) = (if if_is_mass_storage i then find_bulk_in i else ud_bulk_in d)"
  "ud_bulk_out (classify_interface i d) = (if if_is_mass_storage i then find_bulk_out i else ud_bulk_out d)"
  "ud_is_hid_keyboard (classify_interface i d) = (if_is_hid_keyboard i \<or> ud_is_hid_keyboard d)"
  "ud_interrupt_in (classify_interface i d) = (if if_is_hid_keyboard i then find_interrupt_in i else ud_interrupt_in d)"
  "ud_is_hub (classify_interface i d) = (if_class i = CLASS_HUB \<or> ud_is_hub d)"
  "ud_address (classify_interface i d) = ud_address d" "ud_device_desc (classify_interface i d) = ud_device_desc d"
  "ud_config_info (classify_interface i d) = ud_config_info d" "ud_ep0_max_packet (classify_interface i d) = ud_ep0_max_packet d"
  using interface_kinds_apart [of i] by (simp_all add: classify_interface_def)

lemma classify_fold:
  "ud_is_mass_storage (fold classify_interface is d) = (ud_is_mass_storage d \<or> list_ex if_is_mass_storage is)"
  "ud_bulk_in (fold classify_interface is d) =
     (if list_ex if_is_mass_storage is then find_bulk_in (last (filter if_is_mass_storage is)) else ud_bulk_in d)"
  "ud_bulk_out (fold classify_interface is d) =
     (if list_ex if_is_mass_storage is then find_bulk_out (last (filter if_is_mass_storage is)) else ud_bulk_out d)"
  "ud_is_hid_keyboard (fold classify_interface is d) = (ud_is_hid_keyboard d \<or> list_ex if_is_hid_keyboard is)"
  "ud_interrupt_in (fold classify_interface is d) =
     (if list_ex if_is_hid_keyboard is then find_interrupt_in (last (filter if_is_hid_keyboard is)) else ud_interrupt_in d)"
  "ud_is_hub (fold classify_interface is d) = (ud_is_hub d \<or> list_ex (\<lambda>i. if_class i = CLASS_HUB) is)"
  "ud_address (fold classify_interface is d) = ud_address d" "ud_device_desc (fold classify_interface is d) = ud_device_desc d"
  "ud_config_info (fold classify_interface is d) = ud_config_info d"
  "ud_ep0_max_packet (fold classify_interface is d) = ud_ep0_max_packet d"
  by (induction "is" rule: rev_induct) (auto simp: classify_interface_fields)

text \<open>C31: Enumeration of a USB device. A device that answers descriptor requests with its descriptors is given the
  address and recorded with its device descriptor and the first eight interfaces of its configuration, each
  with its first four endpoints; it is recognised as a disk or a keyboard by its interfaces, with the
  endpoints of the last such interface, and as a hub by its class or an interface.\<close>

theorem enumerate_device_correct:
  assumes "answers alive ctl dev (config_bytes c)" and "alive s" and "length dev = 18" and "config_ok c"
    and "config_length c \<le> 256" and "address < 128" and "d0 = usb_device_new 0 port speed"
    and "is = take MAX_INTERFACES (map interface_of (uc_interfaces c))"
    and "disks = filter if_is_mass_storage is" and "keyboards = filter if_is_hid_keyboard is"
  shows "\<exists>s' d. enumerate_device ctl s d0 address = (s', Inr d) \<and> alive s' \<and>
    ud_address d = address \<and> ud_device_desc d = read_device_descriptor dev \<and>
    ud_config_info d = \<lparr>configuration_value = uc_value c, interfaces = is\<rparr> \<and>
    ud_ep0_max_packet d = ucast (max (dev ! 7) 8) \<and>
    ud_is_mass_storage d = (disks \<noteq> []) \<and>
    (disks \<noteq> [] \<longrightarrow> ud_bulk_in d = find_bulk_in (last disks) \<and> ud_bulk_out d = find_bulk_out (last disks)) \<and>
    ud_is_hid_keyboard d = (keyboards \<noteq> []) \<and>
    (keyboards \<noteq> [] \<longrightarrow> ud_interrupt_in d = find_interrupt_in (last keyboards)) \<and>
    ud_is_hub d = (dd_class (read_device_descriptor dev) = CLASS_HUB \<or> (\<exists>i \<in> set is. if_class i = CLASS_HUB))"
proof -
  let ?cfg = "config_bytes c"
  have len: "length ?cfg = config_length c" "9 \<le> config_length c"
    by (simp_all add: length_config_bytes config_length_def)
  have hdr: "field (take 9 ?cfg) 2 2 = config_length c"
    using assms(5) by (simp add: config_bytes_def config_header_def field_def slice_def le_nat_le_bytes)
  obtain s1 where g1: "get_descriptor ctl s d0 DESC_DEVICE 8 = (s1, Inr 8, take 8 dev)" "alive s1"
    using get_descriptor_device [OF assms(1,2), of 8] assms(3) by auto
  define d1 where "d1 = d0\<lparr>ud_ep0_max_packet := ucast (max (take 8 dev ! 7) 8)\<rparr>"
  obtain s2 b2 where g2: "ctl s1 d1 0 5 (ucast address) 0 None = (s2, Inr 0, b2)" "alive s2"
    using assms(1) g1(2) unfolding answers_def by blast
  define d2 where "d2 = d1\<lparr>ud_address := address\<rparr>"
  obtain s3 where g3: "get_descriptor ctl s2 d2 DESC_DEVICE 18 = (s3, Inr 18, dev)" "alive s3"
    using get_descriptor_device [OF assms(1) g2(2), of 18] assms(3) by auto
  define d3 where "d3 = d2\<lparr>ud_device_desc := read_device_descriptor dev\<rparr>"
  obtain s4 where g4: "get_descriptor ctl s3 d3 DESC_CONFIGURATION 9 = (s4, Inr 9, take 9 ?cfg)" "alive s4"
    using get_descriptor_configuration [OF assms(1) g3(2), of 9] len by auto
  obtain s5 where g5: "get_descriptor ctl s4 d3 DESC_CONFIGURATION (config_length c) = (s5, Inr (config_length c), ?cfg)" "alive s5"
    using get_descriptor_configuration [OF assms(1) g4(2), of "config_length c"] len by auto
  define d4 where "d4 = classify_device (d3\<lparr>ud_config_info := parse_configuration ?cfg\<rparr>)"
  have cfg: "parse_configuration ?cfg = \<lparr>configuration_value = uc_value c, interfaces = is\<rparr>"
    using assms(4,8) by (simp add: parse_config_bytes)
  obtain s6 b6 where g6: "ctl s5 d4 0 9 (ucast (uc_value c)) 0 None = (s6, Inr 0, b6)" "alive s6"
    using assms(1) g5(2) unfolding answers_def by blast
  have out: "DIR_OUT OR TYPE_STANDARD OR RCPT_DEVICE = 0"
    by (simp add: DIR_OUT_def TYPE_STANDARD_def RCPT_DEVICE_def)
  have d4: "ud_address d4 = address" "ud_device_desc d4 = read_device_descriptor dev"
    "ud_config_info d4 = \<lparr>configuration_value = uc_value c, interfaces = is\<rparr>"
    "ud_ep0_max_packet d4 = ucast (max (dev ! 7) 8)"
    by (simp_all add: d4_def classify_device_def classify_fold Let_def d3_def d2_def d1_def cfg)
  have "\<exists>s'. enumerate_device ctl s d0 address = (s', Inr d4) \<and> alive s'"
  proof -
    have cond: "(128 \<le> address) = False" "min (config_length c) 256 = config_length c"
      using assms(5,6) by (auto simp: not_le)
    have "enumerate_device ctl s d0 address =
        (if 0 < configuration_value (ud_config_info d4) then (s6, Inr d4) else (s5, Inr d4))"
      by (simp only: enumerate_device_def cond if_False g1(1) prod.case sum.case Let_def out SET_ADDRESS_def
          d1_def [symmetric] g2(1) d2_def [symmetric] g3(1) d3_def [symmetric] g4(1) hdr g5(1)
          d4_def [symmetric] d4(3) configuration_info.simps SET_CONFIGURATION_def g6(1))
    then show ?thesis
      using g5(2) g6(2) by simp
  qed
  moreover have "list_ex P is \<longleftrightarrow> filter P is \<noteq> []" for P
    by (auto simp: list_ex_iff filter_empty_conv)
  ultimately show ?thesis
    using d4 assms(7,9,10)
    by (auto simp: d4_def classify_device_def classify_fold Let_def d3_def d2_def d1_def cfg usb_device_new_def list_ex_iff)
qed


definition sample_config :: usb_configuration where
  "sample_config =
     \<lparr>uc_value = 1, uc_string = 0, uc_attributes = 0x80, uc_power = 50, uc_items = [OtherItem 11 [0, 1]],
      uc_interfaces = [\<lparr>ui_number = 0, ui_alternate = 0, ui_class = 8, ui_subclass = 6, ui_protocol = 0x50, ui_string = 0,
        ui_items = [EndpointItem 0x81 2 512 0, EndpointItem 0x02 2 512 0]\<rparr>]\<rparr>"

definition sample_descriptor :: "u8 list" where
  "sample_descriptor = [18, 1, 0, 2, 0, 0, 0, 64, 0x81, 0x07, 0x67, 0x55, 0, 1, 1, 2, 3, 1]"

definition sample_control :: "unit do_control" where
  "sample_control s d request_type request value index data =
     (case data of
        None \<Rightarrow> (s, Inr 0, [])
      | Some buf \<Rightarrow>
          (s, Inr (length buf),
           take (length buf) (if value = 0x100 then sample_descriptor else config_bytes sample_config)))"

theorem enumerate_device_correct_witness:
  "\<exists>d. enumerate_device sample_control () (usb_device_new 0 0 High) 5 = ((), Inr d) \<and>
    ud_address d = 5 \<and> ud_is_mass_storage d \<and> \<not> ud_is_hid_keyboard d \<and> \<not> ud_is_hub d \<and>
    map_option ep_number (ud_bulk_in d) = Some 1 \<and> map_option ep_number (ud_bulk_out d) = Some 2"
proof -
  have len: "length sample_descriptor = 18"
    by (simp add: sample_descriptor_def)
  have ok: "config_ok sample_config" "config_length sample_config \<le> 256"
    by (simp_all add: config_ok_def sample_config_def config_length_def body_chunks_def interface_chunks_def
        interface_header_def)
  have ans: "answers (\<lambda>_. True) sample_control sample_descriptor (config_bytes sample_config)"
    by (simp add: answers_def sample_control_def)
  have ifs: "take MAX_INTERFACES (map interface_of (uc_interfaces sample_config)) =
      [\<lparr>if_number = 0, if_alternate_setting = 0, if_class = 8, if_subclass = 6, if_protocol = 0x50,
        if_endpoints = [sim_endpoint 1 In, sim_endpoint 2 Out]\<rparr>]"
    by (simp add: sample_config_def interface_of_def MAX_INTERFACES_def MAX_ENDPOINTS_def sim_endpoint_def
        from_attributes_def)
  show ?thesis
    using enumerate_device_correct [OF ans TrueI len ok, of 5 _ 0 High, OF _ refl refl refl refl]
    by (auto simp: ifs if_is_mass_storage_def if_is_hid_keyboard_def CLASS_MASS_STORAGE_def CLASS_HID_def CLASS_HUB_def
        find_bulk_in_def find_bulk_out_def sim_endpoint_def read_device_descriptor_def byte_at_def sample_descriptor_def)
qed

end
