(* ===== verification/Hid_Keyboard.thy ===== *)
theory Hid_Keyboard
  imports Usb_Core Time_Base
begin

text \<open>
  The USB keyboard: \<open>src/src/drivers/usb/hid_keyboard.rs\<close>.

  A report is a record of its modifier byte and six key codes. Reading the time moves the \<open>timer\<close> of
  \<open>Time_Base\<close>, which the functions that start or check a timeout pass on.
\<close>

section \<open>Reports\<close>

record keyboard_report =
  kr_modifiers :: u8
  kr_reserved :: u8
  kr_keys :: "u8 list"

definition default_report :: keyboard_report where
  "default_report = \<lparr>kr_modifiers = 0, kr_reserved = 0, kr_keys = [0, 0, 0, 0, 0, 0]\<rparr>"

definition MOD_LEFT_CTRL :: u8 where "MOD_LEFT_CTRL = 0x01"
definition MOD_LEFT_SHIFT :: u8 where "MOD_LEFT_SHIFT = 0x02"
definition MOD_LEFT_ALT :: u8 where "MOD_LEFT_ALT = 0x04"
definition MOD_RIGHT_CTRL :: u8 where "MOD_RIGHT_CTRL = 0x10"
definition MOD_RIGHT_SHIFT :: u8 where "MOD_RIGHT_SHIFT = 0x20"
definition MOD_RIGHT_ALT :: u8 where "MOD_RIGHT_ALT = 0x40"

definition shift_pressed :: "keyboard_report \<Rightarrow> bool" where
  "shift_pressed r \<longleftrightarrow> kr_modifiers r AND (MOD_LEFT_SHIFT OR MOD_RIGHT_SHIFT) \<noteq> 0"

definition ctrl_pressed :: "keyboard_report \<Rightarrow> bool" where
  "ctrl_pressed r \<longleftrightarrow> kr_modifiers r AND (MOD_LEFT_CTRL OR MOD_RIGHT_CTRL) \<noteq> 0"

definition alt_pressed :: "keyboard_report \<Rightarrow> bool" where
  "alt_pressed r \<longleftrightarrow> kr_modifiers r AND (MOD_LEFT_ALT OR MOD_RIGHT_ALT) \<noteq> 0"

definition is_key_pressed :: "keyboard_report \<Rightarrow> u8 \<Rightarrow> bool" where
  "is_key_pressed r keycode = list_ex (\<lambda>k. k = keycode \<and> k \<noteq> 0) (kr_keys r)"

definition new_keys :: "keyboard_report \<Rightarrow> keyboard_report \<Rightarrow> u8 list" where
  "new_keys r prev = filter (\<lambda>k. k \<noteq> 0 \<and> k \<notin> set (kr_keys prev)) (kr_keys r)"

section \<open>Keyboards\<close>

definition REPEAT_INITIAL_DELAY_MS :: u64 where "REPEAT_INITIAL_DELAY_MS = 500"
definition REPEAT_INTERVAL_MS :: u64 where "REPEAT_INTERVAL_MS = 30"
definition KEY_BUFFER_SIZE :: nat where "KEY_BUFFER_SIZE = 16"

record usb_hid_keyboard =
  hk_controller_idx :: nat
  hk_device_address :: u8
  hk_endpoint :: u8
  hk_max_packet :: u16
  hk_interval :: u8
  prev_report :: keyboard_report
  caps_lock :: bool
  num_lock :: bool
  key_buffer :: "u16 list"
  read_idx :: nat
  write_idx :: nat
  last_key :: u16
  repeat_delay_timeout :: "timeout option"
  repeat_interval_timeout :: "timeout option"

definition usb_hid_keyboard_new :: "nat \<Rightarrow> u8 \<Rightarrow> u8 \<Rightarrow> u16 \<Rightarrow> u8 \<Rightarrow> usb_hid_keyboard" where
  "usb_hid_keyboard_new controller_idx device_address endpoint max_packet interval =
     \<lparr>hk_controller_idx = controller_idx, hk_device_address = device_address, hk_endpoint = endpoint,
      hk_max_packet = max_packet, hk_interval = interval, prev_report = default_report, caps_lock = False,
      num_lock = False, key_buffer = replicate KEY_BUFFER_SIZE 0, read_idx = 0, write_idx = 0, last_key = 0,
      repeat_delay_timeout = None, repeat_interval_timeout = None\<rparr>"

definition set_boot_protocol ::
    "'s usb_controller \<Rightarrow> usb_hid_keyboard \<Rightarrow> 's \<Rightarrow> 's \<times> (usb_error + unit)" where
  "set_boot_protocol ctl kb s =
     (case control_transfer ctl s (hk_device_address kb) (DIR_OUT OR TYPE_CLASS OR RCPT_INTERFACE) SET_PROTOCOL 0 0 None of
        (s1, Inl e, _) \<Rightarrow> (s1, Inl e) | (s1, Inr _, _) \<Rightarrow> (s1, Inr ()))"

definition set_idle :: "'s usb_controller \<Rightarrow> usb_hid_keyboard \<Rightarrow> 's \<Rightarrow> u8 \<Rightarrow> 's \<times> (usb_error + unit)" where
  "set_idle ctl kb s rate_ms =
     (let duration = rate_ms div 4
      in case control_transfer ctl s (hk_device_address kb) (DIR_OUT OR TYPE_CLASS OR RCPT_INTERFACE) SET_IDLE
                (push_bit 8 (ucast duration)) 0 None of
           (s1, Inl e, _) \<Rightarrow> (s1, Inl e) | (s1, Inr _, _) \<Rightarrow> (s1, Inr ()))"

definition set_leds :: "'s usb_controller \<Rightarrow> usb_hid_keyboard \<Rightarrow> 's \<Rightarrow> 's \<times> (usb_error + unit)" where
  "set_leds ctl kb s =
     (let led_byte = (if num_lock kb then 1 else 0) OR (if caps_lock kb then 2 else 0)
      in case control_transfer ctl s (hk_device_address kb) (DIR_OUT OR TYPE_CLASS OR RCPT_INTERFACE) SET_REPORT
                0x0200 0 (Some [led_byte]) of
           (s1, Inl e, _) \<Rightarrow> (s1, Inl e) | (s1, Inr _, _) \<Rightarrow> (s1, Inr ()))"

section \<open>The key buffer\<close>

definition enqueue_key :: "usb_hid_keyboard \<Rightarrow> u16 \<Rightarrow> usb_hid_keyboard" where
  "enqueue_key kb key =
     (let next_write = (write_idx kb + 1) mod length (key_buffer kb)
      in if next_write \<noteq> read_idx kb
         then kb\<lparr>key_buffer := (key_buffer kb)[write_idx kb := key], write_idx := next_write\<rparr>
         else kb)"

definition hid_has_key :: "usb_hid_keyboard \<Rightarrow> bool" where
  "hid_has_key kb \<longleftrightarrow> read_idx kb \<noteq> write_idx kb"

definition hid_get_key :: "usb_hid_keyboard \<Rightarrow> (u16 \<times> usb_hid_keyboard) option" where
  "hid_get_key kb =
     (if read_idx kb = write_idx kb then None
      else Some (key_buffer kb ! read_idx kb, kb\<lparr>read_idx := (read_idx kb + 1) mod length (key_buffer kb)\<rparr>))"

section \<open>Translation\<close>

text \<open>
  The arms of the match in \<open>translate_keycode\<close>: keys with a scan code, plain and shifted characters by key
  code, and the keypad, whose keys are digits or scan codes by the Num Lock state.
\<close>

definition hid_scan_codes :: "(u8 \<times> u16) list" where
  "hid_scan_codes =
     [(0x29, 0x17), (0x3A, 0x0B), (0x3B, 0x0C), (0x3C, 0x0D), (0x3D, 0x0E), (0x3E, 0x0F), (0x3F, 0x10),
      (0x40, 0x11), (0x41, 0x12), (0x42, 0x13), (0x43, 0x14), (0x44, 0x15), (0x45, 0x16), (0x49, 0x07),
      (0x4A, 0x05), (0x4B, 0x09), (0x4C, 0x08), (0x4D, 0x06), (0x4E, 0x0A), (0x4F, 0x03), (0x50, 0x04),
      (0x51, 0x02), (0x52, 0x01)]"

definition hid_characters :: "(u8 \<times> u8 \<times> u8) list" where
  "hid_characters =
     [(0x1E, 0x31, 0x21), (0x1F, 0x32, 0x40), (0x20, 0x33, 0x23), (0x21, 0x34, 0x24), (0x22, 0x35, 0x25),
      (0x23, 0x36, 0x5E), (0x24, 0x37, 0x26), (0x25, 0x38, 0x2A), (0x26, 0x39, 0x28), (0x27, 0x30, 0x29),
      (0x28, 0x0D, 0x0D), (0x2A, 0x08, 0x08), (0x2B, 0x09, 0x09), (0x2C, 0x20, 0x20), (0x2D, 0x2D, 0x5F),
      (0x2E, 0x3D, 0x2B), (0x2F, 0x5B, 0x7B), (0x30, 0x5D, 0x7D), (0x31, 0x5C, 0x7C), (0x33, 0x3B, 0x3A),
      (0x34, 0x27, 0x22), (0x35, 0x60, 0x7E), (0x36, 0x2C, 0x3C), (0x37, 0x2E, 0x3E), (0x38, 0x2F, 0x3F),
      (0x54, 0x2F, 0x2F), (0x55, 0x2A, 0x2A), (0x56, 0x2D, 0x2D), (0x57, 0x2B, 0x2B), (0x58, 0x0D, 0x0D)]"

definition hid_keypad :: "(u8 \<times> u8 \<times> u16 option) list" where
  "hid_keypad =
     [(0x59, 0x31, Some 0x06), (0x5A, 0x32, Some 0x02), (0x5B, 0x33, Some 0x0A), (0x5C, 0x34, Some 0x04),
      (0x5D, 0x35, None), (0x5E, 0x36, Some 0x03), (0x5F, 0x37, Some 0x05), (0x60, 0x38, Some 0x01),
      (0x61, 0x39, Some 0x09), (0x62, 0x30, Some 0x07), (0x63, 0x2E, Some 0x08)]"

definition translate_keycode :: "usb_hid_keyboard \<Rightarrow> u8 \<Rightarrow> keyboard_report \<Rightarrow> u16 option" where
  "translate_keycode kb keycode report =
     (let shift = (shift_pressed report \<noteq> caps_lock kb); ctrl = ctrl_pressed report
      in case map_of hid_scan_codes keycode of
           Some scan \<Rightarrow> Some (push_bit 8 scan)
         | None \<Rightarrow>
             if 0x04 \<le> keycode \<and> keycode \<le> 0x1D then
               (let base = 0x61 + (keycode - 0x04)
                in Some (ucast (if ctrl then base - 0x61 + 1 else if shift then base - 0x20 else base)))
             else
               (case map_of hid_characters keycode of
                  Some (plain, shifted) \<Rightarrow> Some (ucast (if shift then shifted else plain))
                | None \<Rightarrow>
                    (case map_of hid_keypad keycode of
                       Some (digit, scan) \<Rightarrow>
                         if num_lock kb then Some (ucast digit) else map_option (push_bit 8) scan
                     | None \<Rightarrow> None)))"

section \<open>Reports and repeats\<close>

definition press_key :: "keyboard_report \<Rightarrow> u8 \<Rightarrow> usb_hid_keyboard \<times> timer \<Rightarrow> usb_hid_keyboard \<times> timer" where
  "press_key report keycode st =
     (case st of
        (kb, t) \<Rightarrow>
          (case translate_keycode kb keycode report of
             None \<Rightarrow> (kb, t)
           | Some efi_key \<Rightarrow>
               (let kb1 = enqueue_key kb efi_key;
                    kb2 = (if keycode = 0x39 then kb1\<lparr>caps_lock := \<not> caps_lock kb1\<rparr>
                           else if keycode = 0x53 then kb1\<lparr>num_lock := \<not> num_lock kb1\<rparr> else kb1);
                    (d, t1) = from_ms REPEAT_INITIAL_DELAY_MS t
                in (kb2\<lparr>last_key := efi_key, repeat_delay_timeout := Some d, repeat_interval_timeout := None\<rparr>, t1))))"

definition process_report :: "usb_hid_keyboard \<Rightarrow> keyboard_report \<Rightarrow> timer \<Rightarrow> usb_hid_keyboard \<times> timer" where
  "process_report kb report t =
     (let (kb1, t1) = fold (press_key report) (new_keys report (prev_report kb)) (kb, t);
          kb2 = (if list_ex (\<lambda>k. k \<noteq> 0) (kr_keys report) then kb1
                 else kb1\<lparr>last_key := 0, repeat_delay_timeout := None, repeat_interval_timeout := None\<rparr>)
      in (kb2\<lparr>prev_report := report\<rparr>, t1))"

definition handle_repeat :: "usb_hid_keyboard \<Rightarrow> timer \<Rightarrow> usb_hid_keyboard \<times> timer" where
  "handle_repeat kb t =
     (if last_key kb = 0 then (kb, t)
      else
        (case repeat_delay_timeout kb of
           Some d \<Rightarrow>
             (let (expired, t1) = is_expired d t
              in if \<not> expired then (kb, t1)
                 else
                   (let (i, t2) = from_ms REPEAT_INTERVAL_MS t1
                    in (enqueue_key (kb\<lparr>repeat_delay_timeout := None, repeat_interval_timeout := Some i\<rparr>) (last_key kb), t2)))
         | None \<Rightarrow>
             (case repeat_interval_timeout kb of
                Some i \<Rightarrow>
                  (let (expired, t1) = is_expired i t
                   in if expired
                      then (let (j, t2) = from_ms REPEAT_INTERVAL_MS t1
                            in ((enqueue_key kb (last_key kb))\<lparr>repeat_interval_timeout := Some j\<rparr>, t2))
                      else (kb, t1))
              | None \<Rightarrow> (kb, t))))"

section \<open>The global keyboard\<close>

definition MIN_POLL_INTERVAL_MS :: u64 where "MIN_POLL_INTERVAL_MS = 8"

record usb_keyboard_state =
  USB_KEYBOARD :: "usb_hid_keyboard option"
  NEXT_POLL_TIMEOUT :: "timeout option"

definition init_keyboard ::
    "'s usb_controller \<Rightarrow> 's \<Rightarrow> nat \<Rightarrow> usb_keyboard_state \<Rightarrow> 's \<times> usb_keyboard_state \<times> (usb_error + unit)" where
  "init_keyboard ctl s controller_idx g =
     (case find_hid_keyboard ctl s of
        None \<Rightarrow> (s, g, Inl UsbDeviceNotFound)
      | Some addr \<Rightarrow>
          (case get_interrupt_endpoint ctl s addr of
             None \<Rightarrow> (s, g, Inl UsbDeviceNotFound)
           | Some ep \<Rightarrow>
               (let kb = usb_hid_keyboard_new controller_idx addr (ep_number ep) (ep_max_packet_size ep) (ep_interval ep);
                    (s1, _) = set_boot_protocol ctl kb s;
                    (s2, _) = set_idle ctl kb s1 30
                in (s2, g\<lparr>USB_KEYBOARD := Some kb\<rparr>, Inr ()))))"

definition usb_has_key :: "usb_keyboard_state \<Rightarrow> bool" where
  "usb_has_key g = (case USB_KEYBOARD g of Some k \<Rightarrow> hid_has_key k | None \<Rightarrow> False)"

definition usb_get_key :: "usb_keyboard_state \<Rightarrow> (u16 \<times> u16) option \<times> usb_keyboard_state" where
  "usb_get_key g =
     (case USB_KEYBOARD g of
        None \<Rightarrow> (None, g)
      | Some kb \<Rightarrow>
          (case hid_get_key kb of
             None \<Rightarrow> (None, g)
           | Some (key, kb1) \<Rightarrow>
               (Some (drop_bit 8 key AND 0xFF, key AND 0xFF), g\<lparr>USB_KEYBOARD := Some kb1\<rparr>)))"

definition decode_report :: "u8 list \<Rightarrow> keyboard_report" where
  "decode_report buf = \<lparr>kr_modifiers = buf ! 0, kr_reserved = buf ! 1, kr_keys = slice 2 6 buf\<rparr>"

definition on_keyboard ::
    "(usb_hid_keyboard \<Rightarrow> timer \<Rightarrow> usb_hid_keyboard \<times> timer) \<Rightarrow> usb_keyboard_state \<Rightarrow> timer \<Rightarrow> usb_keyboard_state \<times> timer" where
  "on_keyboard f g t =
     (case USB_KEYBOARD g of
        None \<Rightarrow> (g, t)
      | Some kb \<Rightarrow> (let (kb1, t1) = f kb t in (g\<lparr>USB_KEYBOARD := Some kb1\<rparr>, t1)))"

definition poll_now ::
    "'s usb_controller \<Rightarrow> 's \<Rightarrow> usb_keyboard_state \<Rightarrow> timer \<Rightarrow> 's \<times> usb_keyboard_state \<times> timer" where
  "poll_now ctl s g t =
     (let (d, t1) = from_ms MIN_POLL_INTERVAL_MS t; g1 = g\<lparr>NEXT_POLL_TIMEOUT := Some d\<rparr>
      in case USB_KEYBOARD g1 of
           None \<Rightarrow> (s, g1, t1)
         | Some kb \<Rightarrow>
             (case control_transfer ctl s (hk_device_address kb) (DIR_IN OR TYPE_CLASS OR RCPT_INTERFACE) GET_REPORT
                     0x0100 0 (Some (replicate 8 0)) of
                (s1, r, report_buf) \<Rightarrow>
                  (let (kb1, t2) = (case r of Inr _ \<Rightarrow> process_report kb (decode_report report_buf) t1 | Inl _ \<Rightarrow> (kb, t1));
                       (kb2, t3) = handle_repeat kb1 t2
                   in (s1, g1\<lparr>USB_KEYBOARD := Some kb2\<rparr>, t3))))"

definition poll ::
    "'s usb_controller \<Rightarrow> 's \<Rightarrow> usb_keyboard_state \<Rightarrow> timer \<Rightarrow> 's \<times> usb_keyboard_state \<times> timer" where
  "poll ctl s g t =
     (case NEXT_POLL_TIMEOUT g of
        None \<Rightarrow> poll_now ctl s g t
      | Some d \<Rightarrow>
          (let (expired, t1) = is_expired d t
           in if expired then poll_now ctl s g t1
              else (let (g1, t2) = on_keyboard handle_repeat g t1 in (s, g1, t2))))"

definition is_available :: "usb_keyboard_state \<Rightarrow> bool" where
  "is_available g \<longleftrightarrow> USB_KEYBOARD g \<noteq> None"

definition keyboard_controller_idx :: "usb_keyboard_state \<Rightarrow> nat option" where
  "keyboard_controller_idx g = map_option hk_controller_idx (USB_KEYBOARD g)"

end
