(* ===== verification/Ps2_Keyboard.thy ===== *)
theory Ps2_Keyboard
  imports Hid_Keyboard
begin

text \<open>
  The PS/2 keyboard and the common keyboard interface: \<open>src/src/drivers/keyboard.rs\<close>, with the keyboard part
  of \<open>src/src/drivers/usb/mod.rs\<close>.

  The controller behind the ports is the record \<open>ps2_ports\<close> over its state \<open>'h\<close>: what a read of the status
  and of the data port returns and does, and what a write does. The USB controllers are the list of their
  states.
\<close>

section \<open>Ports\<close>

record 'h ps2_ports =
  read_status :: "'h \<Rightarrow> u8 \<times> 'h"
  read_data :: "'h \<Rightarrow> u8 \<times> 'h"
  write_command :: "'h \<Rightarrow> u8 \<Rightarrow> 'h"
  write_data :: "'h \<Rightarrow> u8 \<Rightarrow> 'h"

definition READ_CONFIG :: u8 where "READ_CONFIG = 0x20"
definition WRITE_CONFIG :: u8 where "WRITE_CONFIG = 0x60"
definition DISABLE_AUX :: u8 where "DISABLE_AUX = 0xA7"
definition SELF_TEST :: u8 where "SELF_TEST = 0xAA"
definition TEST_KB :: u8 where "TEST_KB = 0xAB"
definition DISABLE_KB :: u8 where "DISABLE_KB = 0xAD"
definition ENABLE_KB :: u8 where "ENABLE_KB = 0xAE"
definition KB_ENABLE :: u8 where "KB_ENABLE = 0xF4"
definition KB_ACK :: u8 where "KB_ACK = 0xFA"
definition MASK_OUTPUT_FULL :: u8 where "MASK_OUTPUT_FULL = 0x01"
definition MASK_INPUT_FULL :: u8 where "MASK_INPUT_FULL = 0x02"
definition MASK_AUX_DATA :: u8 where "MASK_AUX_DATA = 0x20"
definition MASK_KB_INT :: u8 where "MASK_KB_INT = 0x01"
definition MASK_AUX_INT :: u8 where "MASK_AUX_INT = 0x02"
definition MASK_TRANSLATION :: u8 where "MASK_TRANSLATION = 0x40"

record modifiers =
  mod_shift :: bool
  mod_ctrl :: bool
  mod_alt :: bool
  mod_caps_lock :: bool

record keyboard_state =
  initialized :: bool
  kb_modifiers :: modifiers
  kb_extended :: bool

definition new_keyboard_state :: keyboard_state where
  "new_keyboard_state =
     \<lparr>initialized = False,
      kb_modifiers = \<lparr>mod_shift = False, mod_ctrl = False, mod_alt = False, mod_caps_lock = False\<rparr>,
      kb_extended = False\<rparr>"

text \<open>The waiting loops, with the number of attempts that are left.\<close>

fun wait_input :: "'h ps2_ports \<Rightarrow> nat \<Rightarrow> 'h \<Rightarrow> bool \<times> 'h" where
  "wait_input p 0 h = (False, h)"
| "wait_input p (Suc n) h =
     (let (status, h1) = read_status p h
      in if status AND MASK_INPUT_FULL = 0 then (True, h1) else wait_input p n h1)"

fun wait_output :: "'h ps2_ports \<Rightarrow> nat \<Rightarrow> 'h \<Rightarrow> bool \<times> 'h" where
  "wait_output p 0 h = (False, h)"
| "wait_output p (Suc n) h =
     (let (status, h1) = read_status p h
      in if status AND MASK_OUTPUT_FULL \<noteq> 0 then (True, h1) else wait_output p n h1)"

definition wait_input_ready :: "'h ps2_ports \<Rightarrow> 'h \<Rightarrow> bool \<times> 'h" where
  "wait_input_ready p h = wait_input p 10000 h"

definition wait_output_ready :: "'h ps2_ports \<Rightarrow> 'h \<Rightarrow> bool \<times> 'h" where
  "wait_output_ready p h = wait_output p 10000 h"

definition send_controller_cmd :: "'h ps2_ports \<Rightarrow> 'h \<Rightarrow> u8 \<Rightarrow> bool \<times> 'h" where
  "send_controller_cmd p h command =
     (let (ok, h1) = wait_input_ready p h
      in if \<not> ok then (False, h1) else wait_input_ready p (write_command p h1 command))"

definition send_keyboard_cmd :: "'h ps2_ports \<Rightarrow> 'h \<Rightarrow> u8 \<Rightarrow> bool \<times> 'h" where
  "send_keyboard_cmd p h command =
     (let (ok, h1) = wait_input_ready p h
      in if \<not> ok then (False, h1)
         else
           (let (ok2, h2) = wait_output_ready p (write_data p h1 command)
            in if \<not> ok2 then (False, h2)
               else (let (answer, h3) = read_data p h2 in (answer = KB_ACK, h3))))"

fun flush_loop :: "'h ps2_ports \<Rightarrow> nat \<Rightarrow> 'h \<Rightarrow> 'h" where
  "flush_loop p 0 h = h"
| "flush_loop p (Suc n) h =
     (let (status, h1) = read_status p h
      in if status AND MASK_OUTPUT_FULL = 0 then h1 else flush_loop p n (snd (read_data p h1)))"

definition flush_output :: "'h ps2_ports \<Rightarrow> 'h \<Rightarrow> 'h" where
  "flush_output p h = flush_loop p 100 h"

definition has_data :: "'h ps2_ports \<Rightarrow> 'h \<Rightarrow> bool \<times> 'h" where
  "has_data p h =
     (let (status, h1) = read_status p h
      in (status AND MASK_OUTPUT_FULL \<noteq> 0 \<and> status AND MASK_AUX_DATA = 0, h1))"

section \<open>Initialisation and hand-over\<close>

text \<open>A command whose answer the controller puts into the output buffer; \<open>None\<close> when it or the answer fails.\<close>

definition query_controller :: "'h ps2_ports \<Rightarrow> 'h \<Rightarrow> u8 \<Rightarrow> u8 option \<times> 'h" where
  "query_controller p h command =
     (let (ok, h1) = send_controller_cmd p h command
      in if \<not> ok then (None, h1)
         else
           (let (ok2, h2) = wait_output_ready p h1
            in if \<not> ok2 then (None, h2) else (let (answer, h3) = read_data p h2 in (Some answer, h3))))"

text \<open>Writing the configuration byte, the end of \<open>init\<close> and of \<open>cleanup\<close>.\<close>

definition write_config :: "'h ps2_ports \<Rightarrow> 'h \<Rightarrow> u8 \<Rightarrow> bool \<times> 'h" where
  "write_config p h config_byte =
     (let (ok, h1) = send_controller_cmd p h WRITE_CONFIG
      in if \<not> ok then (False, h1)
         else
           (let (ok2, h2) = wait_input_ready p h1
            in if \<not> ok2 then (False, h2) else (True, write_data p h2 config_byte)))"

definition kb_init :: "'h ps2_ports \<Rightarrow> keyboard_state \<Rightarrow> 'h \<Rightarrow> keyboard_state \<times> 'h" where
  "kb_init p kb h =
     (if initialized kb then (kb, h)
      else
        (let (status, h1) = read_status p h
         in if status = 0xFF then (kb, h1)
            else
              (let (_, h2) = send_controller_cmd p h1 DISABLE_KB;
                   (_, h3) = send_controller_cmd p h2 DISABLE_AUX;
                   h4 = flush_output p h3;
                   (self_test, h5) = query_controller p h4 SELF_TEST
               in if self_test \<noteq> Some 0x55 then (kb, h5)
                  else
                    (let (kb_test, h6) = query_controller p h5 TEST_KB
                     in if kb_test \<noteq> Some 0x00 then (kb, h6)
                        else
                          (let (_, h7) = send_controller_cmd p h6 ENABLE_KB;
                               (config, h8) = query_controller p h7 READ_CONFIG
                           in case config of
                                None \<Rightarrow> (kb, h8)
                              | Some config_byte \<Rightarrow>
                                  (let (ok, h9) = write_config p h8
                                         ((config_byte OR MASK_TRANSLATION) AND NOT MASK_KB_INT AND NOT MASK_AUX_INT)
                                   in if \<not> ok then (kb, h9)
                                      else
                                        (let (_, h10) = send_keyboard_cmd p h9 KB_ENABLE
                                         in (kb\<lparr>initialized := True\<rparr>, h10))))))))"

definition kb_cleanup :: "'h ps2_ports \<Rightarrow> keyboard_state \<Rightarrow> 'h \<Rightarrow> 'h" where
  "kb_cleanup p kb h =
     (if \<not> initialized kb then h
      else
        (let (config, h1) = query_controller p h READ_CONFIG
         in case config of
              None \<Rightarrow> h1
            | Some config_byte \<Rightarrow> snd (write_config p h1 (config_byte OR MASK_KB_INT))))"

section \<open>Scancodes\<close>

definition extended_scan_codes :: "(u8 \<times> u16) list" where
  "extended_scan_codes =
     [(0x48, 0x01), (0x50, 0x02), (0x4D, 0x03), (0x4B, 0x04), (0x47, 0x05), (0x4F, 0x06), (0x52, 0x07),
      (0x53, 0x08), (0x49, 0x09), (0x51, 0x0A)]"

definition scancode_to_efi_extended :: "u8 \<Rightarrow> (u16 \<times> u16) option" where
  "scancode_to_efi_extended code = map_option (\<lambda>s. (s, 0)) (map_of extended_scan_codes code)"

definition function_scan_codes :: "(u8 \<times> u16) list" where
  "function_scan_codes =
     [(0x01, 0x17), (0x3B, 0x0B), (0x3C, 0x0C), (0x3D, 0x0D), (0x3E, 0x0E), (0x3F, 0x0F), (0x40, 0x10),
      (0x41, 0x11), (0x42, 0x12), (0x43, 0x13), (0x44, 0x14), (0x57, 0x15), (0x58, 0x16)]"

definition UNSHIFTED :: "u8 list" where
  "UNSHIFTED =
     [0,    0x1B, 0x31, 0x32, 0x33, 0x34, 0x35, 0x36,
      0x37, 0x38, 0x39, 0x30, 0x2D, 0x3D, 0x08, 0x09,
      0x71, 0x77, 0x65, 0x72, 0x74, 0x79, 0x75, 0x69,
      0x6F, 0x70, 0x5B, 0x5D, 0x0D, 0,    0x61, 0x73,
      0x64, 0x66, 0x67, 0x68, 0x6A, 0x6B, 0x6C, 0x3B,
      0x27, 0x60, 0,    0x5C, 0x7A, 0x78, 0x63, 0x76,
      0x62, 0x6E, 0x6D, 0x2C, 0x2E, 0x2F, 0,    0x2A,
      0,    0x20, 0,    0,    0,    0,    0,    0,
      0,    0,    0,    0,    0,    0,    0,    0x37,
      0x38, 0x39, 0x2D, 0x34, 0x35, 0x36, 0x2B, 0x31,
      0x32, 0x33, 0x30, 0x2E, 0,    0,    0,    0,
      0]"

definition SHIFTED :: "u8 list" where
  "SHIFTED =
     [0,    0x1B, 0x21, 0x40, 0x23, 0x24, 0x25, 0x5E,
      0x26, 0x2A, 0x28, 0x29, 0x5F, 0x2B, 0x08, 0x09,
      0x51, 0x57, 0x45, 0x52, 0x54, 0x59, 0x55, 0x49,
      0x4F, 0x50, 0x7B, 0x7D, 0x0D, 0,    0x41, 0x53,
      0x44, 0x46, 0x47, 0x48, 0x4A, 0x4B, 0x4C, 0x3A,
      0x22, 0x7E, 0,    0x7C, 0x5A, 0x58, 0x43, 0x56,
      0x42, 0x4E, 0x4D, 0x3C, 0x3E, 0x3F, 0,    0x2A,
      0,    0x20, 0,    0,    0,    0,    0,    0,
      0,    0,    0,    0,    0,    0,    0,    0x37,
      0x38, 0x39, 0x2D, 0x34, 0x35, 0x36, 0x2B, 0x31,
      0x32, 0x33, 0x30, 0x2E, 0,    0,    0,    0,
      0]"

definition is_ascii_upper :: "u8 \<Rightarrow> bool" where
  "is_ascii_upper ch \<longleftrightarrow> 0x41 \<le> ch \<and> ch \<le> 0x5A"

definition is_ascii_lower :: "u8 \<Rightarrow> bool" where
  "is_ascii_lower ch \<longleftrightarrow> 0x61 \<le> ch \<and> ch \<le> 0x7A"

definition is_ascii_alphabetic :: "u8 \<Rightarrow> bool" where
  "is_ascii_alphabetic ch \<longleftrightarrow> is_ascii_upper ch \<or> is_ascii_lower ch"

definition to_ascii_lowercase :: "u8 \<Rightarrow> u8" where
  "to_ascii_lowercase ch = (if is_ascii_upper ch then ch + 0x20 else ch)"

definition to_ascii_uppercase :: "u8 \<Rightarrow> u8" where
  "to_ascii_uppercase ch = (if is_ascii_lower ch then ch - 0x20 else ch)"

definition scancode_to_efi_normal :: "modifiers \<Rightarrow> u8 \<Rightarrow> (u16 \<times> u16) option" where
  "scancode_to_efi_normal mods code =
     (case map_of function_scan_codes code of
        Some scan_code \<Rightarrow> Some (scan_code, 0)
      | None \<Rightarrow>
          if length UNSHIFTED \<le> unat code then None
          else
            (let ch = (if mod_shift mods then SHIFTED ! unat code else UNSHIFTED ! unat code)
             in if ch = 0 then None
                else
                  (let ch1 = (if mod_caps_lock mods \<and> is_ascii_alphabetic ch
                              then (if mod_shift mods then to_ascii_lowercase ch else to_ascii_uppercase ch) else ch);
                       ch2 = (if mod_ctrl mods \<and> is_ascii_alphabetic ch1 then to_ascii_lowercase ch1 - 0x61 + 1 else ch1)
                   in Some (0, ucast ch2))))"

definition process_scancode :: "keyboard_state \<Rightarrow> u8 \<Rightarrow> (u16 \<times> u16) option \<times> keyboard_state" where
  "process_scancode kb scancode =
     (if scancode = 0xE0 then (None, kb\<lparr>kb_extended := True\<rparr>)
      else
        (let is_release = (scancode AND 0x80 \<noteq> 0); code = scancode AND 0x7F; extended = kb_extended kb;
             kb1 = kb\<lparr>kb_extended := False\<rparr>; m = kb_modifiers kb1
         in if \<not> extended \<and> (code = 0x2A \<or> code = 0x36) then (None, kb1\<lparr>kb_modifiers := m\<lparr>mod_shift := \<not> is_release\<rparr>\<rparr>)
            else if \<not> extended \<and> code = 0x1D then (None, kb1\<lparr>kb_modifiers := m\<lparr>mod_ctrl := \<not> is_release\<rparr>\<rparr>)
            else if \<not> extended \<and> code = 0x38 then (None, kb1\<lparr>kb_modifiers := m\<lparr>mod_alt := \<not> is_release\<rparr>\<rparr>)
            else if \<not> extended \<and> code = 0x3A \<and> \<not> is_release
            then (None, kb1\<lparr>kb_modifiers := m\<lparr>mod_caps_lock := \<not> mod_caps_lock m\<rparr>\<rparr>)
            else if extended \<and> code = 0x1D then (None, kb1\<lparr>kb_modifiers := m\<lparr>mod_ctrl := \<not> is_release\<rparr>\<rparr>)
            else if extended \<and> code = 0x38 then (None, kb1\<lparr>kb_modifiers := m\<lparr>mod_alt := \<not> is_release\<rparr>\<rparr>)
            else if is_release then (None, kb1)
            else if extended then (scancode_to_efi_extended code, kb1)
            else (scancode_to_efi_normal m code, kb1)))"

section \<open>Both keyboards\<close>

record ('s, 'h) input_state =
  in_controllers :: "'s list"
  in_usb :: usb_keyboard_state
  in_timer :: timer
  in_ps2 :: keyboard_state
  in_ports :: 'h

definition poll_keyboards :: "'s usb_controller \<Rightarrow> ('s, 'h) input_state \<Rightarrow> ('s, 'h) input_state" where
  "poll_keyboards ctl w =
     (case keyboard_controller_idx (in_usb w) of
        None \<Rightarrow> w
      | Some i \<Rightarrow>
          if i < length (in_controllers w)
          then (let (s, g, t) = poll ctl (in_controllers w ! i) (in_usb w) (in_timer w)
                in w\<lparr>in_controllers := (in_controllers w)[i := s], in_usb := g, in_timer := t\<rparr>)
          else w)"

fun init_keyboards_from :: "'s usb_controller \<Rightarrow> nat \<Rightarrow> 's list \<Rightarrow> usb_keyboard_state \<Rightarrow> 's list \<times> usb_keyboard_state" where
  "init_keyboards_from ctl idx [] g = ([], g)"
| "init_keyboards_from ctl idx (s # ss) g =
     (let (s1, g1, _) = init_keyboard ctl s idx g; (ss1, g2) = init_keyboards_from ctl (Suc idx) ss g1
      in (s1 # ss1, g2))"

definition init_keyboards :: "'s usb_controller \<Rightarrow> 's list \<Rightarrow> usb_keyboard_state \<Rightarrow> 's list \<times> usb_keyboard_state" where
  "init_keyboards ctl ss g = init_keyboards_from ctl 0 ss g"

definition kb_has_key :: "'s usb_controller \<Rightarrow> 'h ps2_ports \<Rightarrow> ('s, 'h) input_state \<Rightarrow> bool \<times> ('s, 'h) input_state" where
  "kb_has_key ctl p w =
     (let w1 = poll_keyboards ctl w
      in if usb_has_key (in_usb w1) then (True, w1)
         else if \<not> initialized (in_ps2 w1) then (False, w1)
         else (let (r, h) = has_data p (in_ports w1) in (r, w1\<lparr>in_ports := h\<rparr>)))"

definition try_read_ps2 :: "'h ps2_ports \<Rightarrow> keyboard_state \<Rightarrow> 'h \<Rightarrow> (u16 \<times> u16) option \<times> keyboard_state \<times> 'h" where
  "try_read_ps2 p kb h =
     (if \<not> initialized kb then (None, kb, h)
      else
        (let (status, h1) = read_status p h
         in if status AND MASK_OUTPUT_FULL = 0 then (None, kb, h1)
            else if status AND MASK_AUX_DATA \<noteq> 0 then (None, kb, snd (read_data p h1))
            else
              (let (scancode, h2) = read_data p h1; (key, kb1) = process_scancode kb scancode in (key, kb1, h2))))"

definition try_read_key ::
    "'s usb_controller \<Rightarrow> 'h ps2_ports \<Rightarrow> ('s, 'h) input_state \<Rightarrow> (u16 \<times> u16) option \<times> ('s, 'h) input_state" where
  "try_read_key ctl p w =
     (let w1 = poll_keyboards ctl w; (key, g) = usb_get_key (in_usb w1); w2 = w1\<lparr>in_usb := g\<rparr>
      in case key of
           Some k \<Rightarrow> (Some k, w2)
         | None \<Rightarrow>
             (let (k, kb, h) = try_read_ps2 p (in_ps2 w2) (in_ports w2) in (k, w2\<lparr>in_ps2 := kb, in_ports := h\<rparr>)))"

end
