(* ===== verification/Keyboard_Props.thy ===== *)
theory Keyboard_Props
  imports Ps2_Keyboard Fifo
begin

text \<open>Properties of the keyboards: the queue of USB keys, the effect of reports, and the decoding of scancodes.\<close>

section \<open>The queue of the USB keyboard\<close>

definition hid_good :: "usb_hid_keyboard \<Rightarrow> bool" where
  "hid_good kb \<longleftrightarrow> length (key_buffer kb) = 16 \<and> read_idx kb < 16 \<and> write_idx kb < 16"

definition hid_content :: "usb_hid_keyboard \<Rightarrow> u16 list" where
  "hid_content kb = ring (nth (key_buffer kb)) 16 (read_idx kb) (write_idx kb)"

lemma enqueue_key_fields:
  "read_idx (enqueue_key kb x) = read_idx kb" "length (key_buffer (enqueue_key kb x)) = length (key_buffer kb)"
  "caps_lock (enqueue_key kb x) = caps_lock kb" "num_lock (enqueue_key kb x) = num_lock kb"
  "prev_report (enqueue_key kb x) = prev_report kb" "last_key (enqueue_key kb x) = last_key kb"
  "repeat_delay_timeout (enqueue_key kb x) = repeat_delay_timeout kb"
  "repeat_interval_timeout (enqueue_key kb x) = repeat_interval_timeout kb"
  by (simp_all add: enqueue_key_def Let_def)

interpretation hidq: bounded_fifo hid_good "\<lambda>_ _. True" hid_content "\<lambda>_. 15" enqueue_key hid_get_key
proof unfold_locales
  fix kb x
  assume good: "hid_good kb"
  then show "hid_good (enqueue_key kb x)"
    by (auto simp: hid_good_def enqueue_key_def Let_def)
  have full: "(write_idx kb + 1) mod 16 = read_idx kb \<longleftrightarrow> length (hid_content kb) = 15"
    using good ring_count_full [of "read_idx kb" 16 "write_idx kb"] by (simp add: hid_good_def hid_content_def)
  show "hid_content (enqueue_key kb x) = hid_content kb @ [x]" if "length (hid_content kb) < 15"
  proof -
    have room: "(write_idx kb + 1) mod 16 \<noteq> read_idx kb"
      using full that by auto
    then have "enqueue_key kb x =
        kb\<lparr>key_buffer := (key_buffer kb)[write_idx kb := x], write_idx := (write_idx kb + 1) mod 16\<rparr>"
      using good by (simp add: enqueue_key_def hid_good_def)
    moreover have "ring (nth ((key_buffer kb)[write_idx kb := x])) 16 (read_idx kb) ((write_idx kb + 1) mod 16) =
        ring (nth (key_buffer kb)) 16 (read_idx kb) (write_idx kb) @ [x]"
      using good room by (intro ring_write) (auto simp: hid_good_def)
    ultimately show ?thesis
      by (simp add: hid_content_def)
  qed
  show "hid_content (enqueue_key kb x) = hid_content kb" if "15 \<le> length (hid_content kb)"
  proof -
    have "ring_count 16 (read_idx kb) (write_idx kb) < 16"
      by (rule ring_count_less) simp
    then have "(write_idx kb + 1) mod 16 = read_idx kb"
      using full that by (simp add: hid_content_def)
    then show ?thesis
      using good by (simp add: enqueue_key_def hid_good_def)
  qed
next
  fix kb
  assume good: "hid_good kb"
  show "hid_get_key kb = None \<longleftrightarrow> hid_content kb = []"
    using good by (simp add: hid_get_key_def hid_content_def ring_empty_iff hid_good_def)
  fix x kb'
  assume "hid_get_key kb = Some (x, kb')"
  then have ne: "read_idx kb \<noteq> write_idx kb" and x: "x = key_buffer kb ! read_idx kb"
    and kb': "kb' = kb\<lparr>read_idx := (read_idx kb + 1) mod 16\<rparr>"
    using good by (auto simp: hid_get_key_def hid_good_def split: if_splits)
  show "hid_content kb = x # hid_content kb' \<and> hid_good kb' \<and> (15 :: nat) = 15"
    using good ne ring_read [of "read_idx kb" 16 "write_idx kb" "nth (key_buffer kb)"]
    by (simp add: hid_content_def x kb' hid_good_def)
qed simp_all

text \<open>The key buffer of the USB keyboard is a queue. For every sequence of insertions and removals, the keys
  taken out and the keys left are those of a list that drops what exceeds fifteen keys.\<close>

theorem key_buffer_refines:
  assumes "hid_good kb"
  shows "list_queue 15 rs (hid_content kb) =
    (fifo_taken enqueue_key hid_get_key rs kb, hid_content (fifo_final enqueue_key hid_get_key rs kb))"
  using hidq.run_fifo [OF assms refl] by blast

lemma new_keyboard_good: "hid_good (usb_hid_keyboard_new i a e m n)" "hid_content (usb_hid_keyboard_new i a e m n) = []"
  by (simp_all add: hid_good_def usb_hid_keyboard_new_def KEY_BUFFER_SIZE_def hid_content_def ring_empty_iff)

theorem key_buffer_refines_witness:
  "fifo_taken enqueue_key hid_get_key [Some 1, Some 2, None, Some 3, None, None, None] (usb_hid_keyboard_new 0 1 1 8 10) =
    [1, 2, 3]"
  using key_buffer_refines [OF new_keyboard_good(1), of "[Some 1, Some 2, None, Some 3, None, None, None]" 0 1 1 8 10]
  by (simp add: new_keyboard_good(2))

section \<open>Reports\<close>

lemma lock_keys_untranslated: "translate_keycode kb 0x39 r = None" "translate_keycode kb 0x53 r = None"
  by (simp_all add: translate_keycode_def hid_scan_codes_def hid_characters_def hid_keypad_def)

text \<open>Pressing a key: what it adds to the queue, and what it leaves alone.\<close>

lemma press_key_effect:
  assumes "hid_good kb"
  shows "hid_good (fst (press_key r k (kb, t)))"
    and "hid_content (fst (press_key r k (kb, t))) =
      take 15 (hid_content kb @ (case translate_keycode kb k r of None \<Rightarrow> [] | Some key \<Rightarrow> [key]))"
    and "caps_lock (fst (press_key r k (kb, t))) = caps_lock kb" "num_lock (fst (press_key r k (kb, t))) = num_lock kb"
    and "prev_report (fst (press_key r k (kb, t))) = prev_report kb"
proof -
  have le: "length (hid_content kb) \<le> 15"
    using ring_count_less [of 16 "read_idx kb" "write_idx kb"] by (simp add: hid_content_def)
  have same: "hid_good (kb\<lparr>last_key := x, repeat_delay_timeout := y, repeat_interval_timeout := z\<rparr>) = hid_good kb"
    "hid_content (kb\<lparr>last_key := x, repeat_delay_timeout := y, repeat_interval_timeout := z\<rparr>) = hid_content kb" for kb x y z
    by (simp_all add: hid_good_def hid_content_def)
  have lock: "translate_keycode kb k r = Some key \<Longrightarrow> k \<noteq> 0x39 \<and> k \<noteq> 0x53" for key
    using lock_keys_untranslated by auto
  show "hid_good (fst (press_key r k (kb, t)))"
    using hidq.good_enq [OF assms] lock
    by (auto simp: press_key_def same assms Let_def split: option.splits prod.splits)
  show "hid_content (fst (press_key r k (kb, t))) =
      take 15 (hid_content kb @ (case translate_keycode kb k r of None \<Rightarrow> [] | Some key \<Rightarrow> [key]))"
    using hidq.enq_room [OF assms] hidq.enq_full [OF assms] lock le
    by (cases "length (hid_content kb) < 15") (auto simp: press_key_def same Let_def split: option.splits prod.splits)
  show "caps_lock (fst (press_key r k (kb, t))) = caps_lock kb" "num_lock (fst (press_key r k (kb, t))) = num_lock kb"
    "prev_report (fst (press_key r k (kb, t))) = prev_report kb"
    using lock by (auto simp: press_key_def enqueue_key_fields Let_def split: option.splits prod.splits)
qed

lemma translate_keycode_cong:
  "caps_lock kb = caps_lock kb' \<Longrightarrow> num_lock kb = num_lock kb' \<Longrightarrow> translate_keycode kb k r = translate_keycode kb' k r"
  unfolding translate_keycode_def by (simp only:)

definition keys_of :: "usb_hid_keyboard \<Rightarrow> keyboard_report \<Rightarrow> u8 list \<Rightarrow> u16 list" where
  "keys_of kb r ks = List.map_filter (\<lambda>k. translate_keycode kb k r) ks"

lemma hid_content_le: "length (hid_content kb) \<le> 15"
  using ring_count_less [of 16 "read_idx kb" "write_idx kb"] by (simp add: hid_content_def)

lemma press_keys_effect:
  assumes "hid_good kb"
  shows "hid_good (fst (fold (press_key r) ks (kb, t))) \<and>
    hid_content (fst (fold (press_key r) ks (kb, t))) = take 15 (hid_content kb @ keys_of kb r ks) \<and>
    caps_lock (fst (fold (press_key r) ks (kb, t))) = caps_lock kb \<and>
    num_lock (fst (fold (press_key r) ks (kb, t))) = num_lock kb"
  using assms
proof (induction ks arbitrary: kb t)
  case Nil
  then show ?case
    using hid_content_le by (simp add: keys_of_def map_filter_simps)
next
  case (Cons k ks)
  obtain kb1 t1 where st: "press_key r k (kb, t) = (kb1, t1)"
    by (cases "press_key r k (kb, t)")
  note eff = press_key_effect [OF Cons.prems, of r k t, unfolded st fst_conv]
  have same: "keys_of kb1 r ks = keys_of kb r ks"
    unfolding keys_of_def using translate_keycode_cong [OF eff(3,4)] by simp
  have "hid_content (fst (fold (press_key r) ks (kb1, t1))) = take 15 (hid_content kb @ keys_of kb r (k # ks))"
    using Cons.IH [OF eff(1), of t1] eff(2) unfolding same
    by (cases "translate_keycode kb k r")
      (simp_all add: take_take_append keys_of_def map_filter_simps del: take_append)
  then show ?case
    using Cons.IH [OF eff(1), of t1] eff(3,4) by (simp add: st)
qed



text \<open>What can happen to a keyboard: a report arrives, a repeat is due, a key is taken.\<close>

inductive hid_step :: "usb_hid_keyboard \<Rightarrow> usb_hid_keyboard \<Rightarrow> bool" where
  hid_report: "hid_step kb (fst (process_report kb r t))"
| hid_repeat: "hid_step kb (fst (handle_repeat kb t))"
| hid_take: "hid_get_key kb = Some (x, kb') \<Longrightarrow> hid_step kb kb'"

lemma handle_repeat_effect:
  assumes "hid_good kb"
  shows "hid_good (fst (handle_repeat kb t))"
    and "caps_lock (fst (handle_repeat kb t)) = caps_lock kb" and "num_lock (fst (handle_repeat kb t)) = num_lock kb"
proof -
  have same: "hid_good (kb\<lparr>repeat_delay_timeout := y\<rparr>) = hid_good kb"
    "hid_good (kb\<lparr>repeat_interval_timeout := z\<rparr>) = hid_good kb" for kb y z
    by (simp_all add: hid_good_def)
  have "hid_good (enqueue_key (kb\<lparr>repeat_delay_timeout := y, repeat_interval_timeout := z\<rparr>) x)" "hid_good (enqueue_key kb x)"
    for x y z
    using assms by (simp_all add: hidq.good_enq same)
  then show "hid_good (fst (handle_repeat kb t))"
    using assms by (auto simp: handle_repeat_def same Let_def split: option.splits prod.splits)
  show "caps_lock (fst (handle_repeat kb t)) = caps_lock kb" "num_lock (fst (handle_repeat kb t)) = num_lock kb"
    by (auto simp: handle_repeat_def enqueue_key_fields Let_def split: option.splits prod.splits)
qed

text \<open>Whatever the keyboard reports, its Caps Lock and Num Lock stay off: the lock keys have no translation, and
  only a translated key reaches the code that toggles them. The ring's indices stay within its sixteen slots.
\<close>

theorem hid_locks_never_engage:
  assumes "hid_step\<^sup>*\<^sup>* (usb_hid_keyboard_new i a e m n) kb"
  shows "hid_good kb \<and> \<not> caps_lock kb \<and> \<not> num_lock kb"
  using assms
proof (induction rule: rtranclp_induct)
  case base
  show ?case
    using new_keyboard_good(1) by (simp add: usb_hid_keyboard_new_def)
next
  case (step y z)
  from step.hyps(2) step.IH show ?case
  proof (cases rule: hid_step.cases)
    case (hid_report r t)
    have "hid_good z \<and> caps_lock z = caps_lock y \<and> num_lock z = num_lock y"
    proof -
      obtain kb1 t1 where st: "fold (press_key r) (new_keys r (prev_report y)) (y, t) = (kb1, t1)"
        by fastforce
      then show ?thesis
        using press_keys_effect [of y r "new_keys r (prev_report y)" t] step.IH
        by (auto simp: hid_report process_report_def hid_good_def Let_def)
    qed
    with step.IH show ?thesis
      by simp
  next
    case (hid_repeat t)
    with step.IH handle_repeat_effect [of y t] show ?thesis
      by simp
  next
    case (hid_take x)
    with step.IH hidq.deq_Some [of y x z] show ?thesis
      by (auto simp: hid_get_key_def split: if_splits)
  qed
qed

theorem hid_locks_never_engage_witness:
  "\<not> caps_lock (fst (process_report (usb_hid_keyboard_new 0 1 1 8 10)
      \<lparr>kr_modifiers = 0, kr_reserved = 0, kr_keys = [0x39, 0, 0, 0, 0, 0]\<rparr> (new_timer (\<lambda>_. 0) (\<lambda>_ _. 0))))"
  by (rule hid_locks_never_engage [of 0 1 1 8 10, THEN conjunct2, THEN conjunct1]) (rule r_into_rtranclp, rule hid_report)

text \<open>
  With A and B down and B released, B is still the key that repeats: a release is noticed only when no key is
  down.
\<close>

theorem released_key_still_repeats:
  "last_key (fst (process_report (fst (process_report kb
      \<lparr>kr_modifiers = 0, kr_reserved = 0, kr_keys = [0x04, 0x05, 0, 0, 0, 0]\<rparr> t))
      \<lparr>kr_modifiers = 0, kr_reserved = 0, kr_keys = [0x04, 0, 0, 0, 0, 0]\<rparr> t')) = 0x62"
  if "prev_report kb = default_report" and "\<not> caps_lock kb"
  using that
  by (simp add: process_report_def new_keys_def default_report_def press_key_def translate_keycode_def hid_scan_codes_def
      shift_pressed_def ctrl_pressed_def MOD_LEFT_SHIFT_def MOD_RIGHT_SHIFT_def MOD_LEFT_CTRL_def MOD_RIGHT_CTRL_def
      enqueue_key_fields case_prod_beta Let_def)

section \<open>Scancodes\<close>

text \<open>
  What happens at the keyboard: a key, given by its set 1 code and whether it has the extended prefix, goes
  down or up. The keyboard sends the prefix, and the code with the top bit set for a release.
\<close>

datatype ps2_event = Key_down bool u8 | Key_up bool u8

primrec event_bytes :: "ps2_event \<Rightarrow> u8 list" where
  "event_bytes (Key_down e c) = (if e then [0xE0] else []) @ [c]"
| "event_bytes (Key_up e c) = (if e then [0xE0] else []) @ [c OR 0x80]"

text \<open>The codes of set 1: seven bits, and no release looks like the prefix.\<close>

primrec event_ok :: "ps2_event \<Rightarrow> bool" where
  "event_ok (Key_down e c) \<longleftrightarrow> c AND 0x80 = 0"
| "event_ok (Key_up e c) \<longleftrightarrow> c AND 0x80 = 0 \<and> c \<noteq> 0x60"

text \<open>The modifiers after a history of events: the last event of a group of keys decides whether it is held.\<close>

primrec held :: "(bool \<times> u8) list \<Rightarrow> bool \<Rightarrow> ps2_event list \<Rightarrow> bool" where
  "held ks b [] = b"
| "held ks b (ev # evs) =
     held ks (case ev of Key_down e c \<Rightarrow> b \<or> (e, c) \<in> set ks | Key_up e c \<Rightarrow> b \<and> (e, c) \<notin> set ks) evs"

definition shift_keys :: "(bool \<times> u8) list" where "shift_keys = [(False, 0x2A), (False, 0x36)]"
definition ctrl_keys :: "(bool \<times> u8) list" where "ctrl_keys = [(False, 0x1D), (True, 0x1D)]"
definition alt_keys :: "(bool \<times> u8) list" where "alt_keys = [(False, 0x38), (True, 0x38)]"

definition mods_after :: "ps2_event list \<Rightarrow> modifiers" where
  "mods_after evs =
     \<lparr>mod_shift = held shift_keys False evs, mod_ctrl = held ctrl_keys False evs, mod_alt = held alt_keys False evs,
      mod_caps_lock = odd (length (filter (\<lambda>ev. ev = Key_down False 0x3A) evs))\<rparr>"

definition typed :: "ps2_event list \<Rightarrow> ps2_event \<Rightarrow> (u16 \<times> u16) option" where
  "typed hist ev =
     (case ev of
        Key_up e c \<Rightarrow> None
      | Key_down e c \<Rightarrow>
          if (e, c) \<in> set (shift_keys @ ctrl_keys @ alt_keys) \<union> {(False, 0x3A)} then None
          else if e then scancode_to_efi_extended c else scancode_to_efi_normal (mods_after hist) c)"

primrec all_typed :: "ps2_event list \<Rightarrow> ps2_event list \<Rightarrow> (u16 \<times> u16) list" where
  "all_typed hist [] = []"
| "all_typed hist (ev # evs) =
     (case typed hist ev of None \<Rightarrow> [] | Some k \<Rightarrow> [k]) @ all_typed (hist @ [ev]) evs"

lemma held_append: "held ks b (xs @ ys) = held ks (held ks b xs) ys"
  by (induction xs arbitrary: b) simp_all

lemma release_bits: "c AND 0x80 = 0 \<Longrightarrow> c AND 0x7F = c" "c AND 0x80 = 0 \<Longrightarrow> (c OR 0x80) AND 0x80 \<noteq> 0"
  "c AND 0x80 = 0 \<Longrightarrow> (c OR 0x80) AND 0x7F = c" "c AND 0x80 = 0 \<Longrightarrow> c \<noteq> 0xE0"
  "c AND 0x80 = 0 \<Longrightarrow> c \<noteq> 0x60 \<Longrightarrow> c OR 0x80 \<noteq> 0xE0" for c :: u8
proof -
  have "(0xFF :: u8) = -1"
    by simp
  then have "c AND 0xFF = c"
    by (metis and.right_neutral)
  then have split: "(c AND 0x7F) OR (c AND 0x80) = c"
    by (simp add: bit.conj_disj_distrib [symmetric])
  then show low: "c AND 0x80 = 0 \<Longrightarrow> c AND 0x7F = c"
    by simp
  show "c AND 0x80 = 0 \<Longrightarrow> (c OR 0x80) AND 0x80 \<noteq> 0"
    by (simp add: bit.conj_disj_distrib2)
  show rel: "c AND 0x80 = 0 \<Longrightarrow> (c OR 0x80) AND 0x7F = c"
    using low by (simp add: bit.conj_disj_distrib2)
  show "c AND 0x80 = 0 \<Longrightarrow> c \<noteq> 0xE0"
    by auto
  show "c AND 0x80 = 0 \<Longrightarrow> c \<noteq> 0x60 \<Longrightarrow> c OR 0x80 \<noteq> 0xE0"
    using rel by auto
qed

text \<open>The bytes of an event: the modifiers follow the history, and the key that was typed comes out.\<close>

definition feed :: "u8 list \<Rightarrow> keyboard_state \<Rightarrow> keyboard_state" where
  "feed bs kb = fold (\<lambda>b kb. snd (process_scancode kb b)) bs kb"

primrec decoded :: "u8 list \<Rightarrow> keyboard_state \<Rightarrow> (u16 \<times> u16) list" where
  "decoded [] kb = []"
| "decoded (b # bs) kb =
     (case fst (process_scancode kb b) of None \<Rightarrow> [] | Some k \<Rightarrow> [k]) @ decoded bs (snd (process_scancode kb b))"

lemma decoded_append: "decoded (xs @ ys) kb = decoded xs kb @ decoded ys (feed xs kb)"
  by (induction xs arbitrary: kb) (simp_all add: feed_def)

lemma feed_append: "feed (xs @ ys) kb = feed ys (feed xs kb)"
  by (simp add: feed_def)

lemma extended_lock: "scancode_to_efi_extended 0x2A = None" "scancode_to_efi_extended 0x36 = None"
  "scancode_to_efi_extended 0x3A = None"
  by (simp_all add: scancode_to_efi_extended_def extended_scan_codes_def)

lemmas modifier_keys_defs = shift_keys_def ctrl_keys_def alt_keys_def

lemma mods_after_snoc:
  "mods_after (hist @ [ev]) =
    (case ev of
       Key_down e c \<Rightarrow>
         \<lparr>mod_shift = mod_shift (mods_after hist) \<or> (e, c) \<in> set shift_keys,
          mod_ctrl = mod_ctrl (mods_after hist) \<or> (e, c) \<in> set ctrl_keys,
          mod_alt = mod_alt (mods_after hist) \<or> (e, c) \<in> set alt_keys,
          mod_caps_lock = (mod_caps_lock (mods_after hist) \<noteq> (\<not> e \<and> c = 0x3A))\<rparr>
     | Key_up e c \<Rightarrow>
         \<lparr>mod_shift = mod_shift (mods_after hist) \<and> (e, c) \<notin> set shift_keys,
          mod_ctrl = mod_ctrl (mods_after hist) \<and> (e, c) \<notin> set ctrl_keys,
          mod_alt = mod_alt (mods_after hist) \<and> (e, c) \<notin> set alt_keys,
          mod_caps_lock = mod_caps_lock (mods_after hist)\<rparr>)"
  by (auto simp: mods_after_def held_append split: ps2_event.split)

lemma process_code:
  assumes "kb_modifiers kb = mods_after hist" and "event_ok ev" and "kb_extended kb = (case ev of Key_down e c \<Rightarrow> e | Key_up e c \<Rightarrow> e)"
  shows "process_scancode kb (last (event_bytes ev)) =
    (typed hist ev, kb\<lparr>kb_extended := False, kb_modifiers := mods_after (hist @ [ev])\<rparr>)"
proof (cases ev)
  case (Key_down e c)
  then show ?thesis
    using assms release_bits [of c] extended_lock
    by (auto simp: process_scancode_def typed_def mods_after_snoc modifier_keys_defs Let_def)
next
  case (Key_up e c)
  then show ?thesis
    using assms release_bits [of c]
    by (auto simp: process_scancode_def typed_def mods_after_snoc modifier_keys_defs Let_def)
qed

lemma event_effect:
  assumes "kb_modifiers kb = mods_after hist" and "\<not> kb_extended kb" and "event_ok ev"
  shows "feed (event_bytes ev) kb = kb\<lparr>kb_modifiers := mods_after (hist @ [ev])\<rparr>"
    and "decoded (event_bytes ev) kb = (case typed hist ev of None \<Rightarrow> [] | Some k \<Rightarrow> [k])"
proof -
  have pre: "process_scancode kb 0xE0 = (None, kb\<lparr>kb_extended := True\<rparr>)"
    by (simp add: process_scancode_def)
  show "feed (event_bytes ev) kb = kb\<lparr>kb_modifiers := mods_after (hist @ [ev])\<rparr>"
    using process_code [OF _ assms(3), of _ hist] assms pre by (cases ev) (simp_all add: feed_def)
  show "decoded (event_bytes ev) kb = (case typed hist ev of None \<Rightarrow> [] | Some k \<Rightarrow> [k])"
    using process_code [OF _ assms(3), of _ hist] assms pre by (cases ev) simp_all
qed

lemma events_decoded:
  "kb_modifiers kb = mods_after hist \<Longrightarrow> \<not> kb_extended kb \<Longrightarrow> list_all event_ok evs \<Longrightarrow>
    decoded (concat (map event_bytes evs)) kb = all_typed hist evs"
proof (induction evs arbitrary: kb hist)
  case (Cons ev evs)
  then show ?case
    using event_effect [of kb hist ev] by (simp add: decoded_append)
qed simp

text \<open>A controller that has bytes from the keyboard waiting, and a client that polls it.\<close>

fun delivers :: "'h ps2_ports \<Rightarrow> u8 list \<Rightarrow> 'h \<Rightarrow> bool" where
  "delivers p [] h \<longleftrightarrow> True"
| "delivers p (b # bs) h \<longleftrightarrow>
     (let (status, h1) = read_status p h; (d, h2) = read_data p h1
      in status AND MASK_OUTPUT_FULL \<noteq> 0 \<and> status AND MASK_AUX_DATA = 0 \<and> d = b \<and> delivers p bs h2)"

fun poll_keys :: "'h ps2_ports \<Rightarrow> nat \<Rightarrow> keyboard_state \<Rightarrow> 'h \<Rightarrow> (u16 \<times> u16) list" where
  "poll_keys p 0 kb h = []"
| "poll_keys p (Suc n) kb h =
     (let (k, kb1, h1) = try_read_ps2 p kb h
      in (case k of None \<Rightarrow> [] | Some x \<Rightarrow> [x]) @ poll_keys p n kb1 h1)"

lemma process_scancode_initialized: "initialized (snd (process_scancode kb b)) = initialized kb"
  by (simp add: process_scancode_def Let_def)

lemma poll_keys_decoded: "delivers p bs h \<Longrightarrow> initialized kb \<Longrightarrow> poll_keys p (length bs) kb h = decoded bs kb"
proof (induction bs arbitrary: kb h)
  case (Cons b bs)
  then show ?case
    using process_scancode_initialized [of kb b]
    by (auto simp: try_read_ps2_def Let_def split: prod.splits)
qed simp

text \<open>C34: Polling the PS/2 keyboard types what was pressed. For every sequence of key presses and releases, with
  the extended prefix or not, polling once for each byte the keyboard sent returns the keys of the press
  events in order, each translated under the modifiers its history gives: Shift, Ctrl and Alt are held from a
  press of one of their keys to a release of one, Caps Lock is on after an odd number of presses.
\<close>

theorem ps2_decode_correct:
  assumes "list_all event_ok evs" and "delivers p (concat (map event_bytes evs)) h" and "initialized kb"
    and "kb_modifiers kb = kb_modifiers new_keyboard_state" and "\<not> kb_extended kb"
  shows "poll_keys p (length (concat (map event_bytes evs))) kb h = all_typed [] evs"
proof -
  have "kb_modifiers kb = mods_after []"
    using assms(4) by (simp add: mods_after_def new_keyboard_state_def)
  then show ?thesis
    using events_decoded [OF _ assms(5,1)] poll_keys_decoded [OF assms(2,3)] by simp
qed

definition byte_ports :: "u8 list ps2_ports" where
  "byte_ports = \<lparr>read_status = (\<lambda>h. (if h = [] then 0 else 1, h)), read_data = (\<lambda>h. (hd h, tl h)),
     write_command = (\<lambda>h _. h), write_data = (\<lambda>h _. h)\<rparr>"

text \<open>Shift with A, then the extended up arrow, then a plain A.\<close>

theorem ps2_decode_correct_witness:
  "poll_keys byte_ports 8 (new_keyboard_state\<lparr>initialized := True\<rparr>) [0x2A, 0x1E, 0x9E, 0xAA, 0xE0, 0x48, 0x1E, 0x9E] =
    [(0, 0x41), (1, 0), (0, 0x61)]"
proof -
  define evs where "evs = [Key_down False 0x2A, Key_down False 0x1E, Key_up False 0x1E, Key_up False 0x2A,
    Key_down True 0x48, Key_down False 0x1E, Key_up False 0x1E]"
  have bytes: "concat (map event_bytes evs) = [0x2A, 0x1E, 0x9E, 0xAA, 0xE0, 0x48, 0x1E, 0x9E]"
    by (simp add: evs_def)
  have "list_all event_ok evs"
    by (simp add: evs_def)
  moreover have "delivers byte_ports (concat (map event_bytes evs)) (concat (map event_bytes evs))"
    unfolding bytes by (simp add: byte_ports_def MASK_OUTPUT_FULL_def MASK_AUX_DATA_def)
  ultimately have "poll_keys byte_ports (length (concat (map event_bytes evs))) (new_keyboard_state\<lparr>initialized := True\<rparr>)
      (concat (map event_bytes evs)) = all_typed [] evs"
    by (rule ps2_decode_correct) (simp_all add: new_keyboard_state_def)
  moreover have "all_typed [] evs = [(0, 0x41), (1, 0), (0, 0x61)]"
    by (simp add: evs_def typed_def modifier_keys_defs mods_after_def scancode_to_efi_normal_def function_scan_codes_def
        SHIFTED_def UNSHIFTED_def scancode_to_efi_extended_def extended_scan_codes_def)
  moreover have "length (concat (map event_bytes evs)) = 8"
    unfolding bytes by simp
  ultimately show ?thesis
    by (simp only: bytes)
qed

section \<open>The two layouts agree\<close>

text \<open>
  The keys that both keyboards have, by HID usage and by set 1 code: letters, digits, punctuation and the
  control keys of the main block, the function keys, and the navigation keys with the extended prefix.
\<close>

definition same_key :: "(u8 \<times> bool \<times> u8) list" where
  "same_key =
     [(0x04, False, 0x1E), (0x05, False, 0x30), (0x06, False, 0x2E), (0x07, False, 0x20), (0x08, False, 0x12),
      (0x09, False, 0x21), (0x0A, False, 0x22), (0x0B, False, 0x23), (0x0C, False, 0x17), (0x0D, False, 0x24),
      (0x0E, False, 0x25), (0x0F, False, 0x26), (0x10, False, 0x32), (0x11, False, 0x31), (0x12, False, 0x18),
      (0x13, False, 0x19), (0x14, False, 0x10), (0x15, False, 0x13), (0x16, False, 0x1F), (0x17, False, 0x14),
      (0x18, False, 0x16), (0x19, False, 0x2F), (0x1A, False, 0x11), (0x1B, False, 0x2D), (0x1C, False, 0x15),
      (0x1D, False, 0x2C), (0x1E, False, 0x02), (0x1F, False, 0x03), (0x20, False, 0x04), (0x21, False, 0x05),
      (0x22, False, 0x06), (0x23, False, 0x07), (0x24, False, 0x08), (0x25, False, 0x09), (0x26, False, 0x0A),
      (0x27, False, 0x0B), (0x28, False, 0x1C), (0x29, False, 0x01), (0x2A, False, 0x0E), (0x2B, False, 0x0F),
      (0x2C, False, 0x39), (0x2D, False, 0x0C), (0x2E, False, 0x0D), (0x2F, False, 0x1A), (0x30, False, 0x1B),
      (0x31, False, 0x2B), (0x33, False, 0x27), (0x34, False, 0x28), (0x35, False, 0x29), (0x36, False, 0x33),
      (0x37, False, 0x34), (0x38, False, 0x35), (0x3A, False, 0x3B), (0x3B, False, 0x3C), (0x3C, False, 0x3D),
      (0x3D, False, 0x3E), (0x3E, False, 0x3F), (0x3F, False, 0x40), (0x40, False, 0x41), (0x41, False, 0x42),
      (0x42, False, 0x43), (0x43, False, 0x44), (0x44, False, 0x57), (0x45, False, 0x58), (0x49, True, 0x52),
      (0x4A, True, 0x47), (0x4B, True, 0x49), (0x4C, True, 0x53), (0x4D, True, 0x4F), (0x4E, True, 0x51),
      (0x4F, True, 0x4D), (0x50, True, 0x4B), (0x51, True, 0x50), (0x52, True, 0x48)]"

definition ps2_pressed :: "keyboard_state \<Rightarrow> bool \<Rightarrow> u8 \<Rightarrow> (u16 \<times> u16) option" where
  "ps2_pressed kb extended code = fst (process_scancode (kb\<lparr>kb_extended := extended\<rparr>) code)"

text \<open>The key a client of \<open>usb_get_key\<close> sees, out of the packed value in the queue.\<close>

definition unpack_key :: "u16 \<Rightarrow> u16 \<times> u16" where
  "unpack_key key = (drop_bit 8 key AND 0xFF, key AND 0xFF)"

definition same_translation :: "bool \<Rightarrow> bool \<Rightarrow> u8 \<times> bool \<times> u8 \<Rightarrow> bool" where
  "same_translation shift ctrl k \<longleftrightarrow>
     (case k of (usage, extended, code) \<Rightarrow>
       map_option unpack_key
         (translate_keycode (usb_hid_keyboard_new 0 0 0 0 0) usage
            \<lparr>kr_modifiers = (if shift then 2 else 0) OR (if ctrl then 1 else 0), kr_reserved = 0, kr_keys = []\<rparr>) =
       ps2_pressed (new_keyboard_state\<lparr>kb_modifiers :=
           \<lparr>mod_shift = shift, mod_ctrl = ctrl, mod_alt = False, mod_caps_lock = False\<rparr>\<rparr>) extended code)"

lemma same_translation_plain: "list_all (same_translation False False) same_key"
  by code_simp

lemma same_translation_ctrl: "list_all (same_translation False True) same_key"
  by code_simp

lemma same_translation_shift: "list_all (same_translation True False) same_key"
  by code_simp

lemma same_translation_both: "list_all (same_translation True True) same_key"
  by code_simp

lemma same_translation_all: "list_all (same_translation shift ctrl) same_key"
  using same_translation_plain same_translation_ctrl same_translation_shift same_translation_both
  by (cases shift; cases ctrl) simp_all

lemma translate_keycode_depends:
  "(shift_pressed r \<noteq> caps_lock kb) = (shift_pressed r' \<noteq> caps_lock kb') \<Longrightarrow> ctrl_pressed r = ctrl_pressed r' \<Longrightarrow>
    num_lock kb = num_lock kb' \<Longrightarrow> translate_keycode kb k r = translate_keycode kb' k r'"
  unfolding translate_keycode_def by (simp only:)

lemma modifier_byte:
  fixes shift ctrl :: bool
  defines "r \<equiv> \<lparr>kr_modifiers = (if shift then 2 else 0) OR (if ctrl then 1 else 0), kr_reserved = 0, kr_keys = []\<rparr>"
  shows "shift_pressed r = shift" "ctrl_pressed r = ctrl"
  by (simp_all add: r_def shift_pressed_def ctrl_pressed_def MOD_LEFT_SHIFT_def MOD_RIGHT_SHIFT_def MOD_LEFT_CTRL_def
      MOD_RIGHT_CTRL_def)

lemma ps2_pressed_depends:
  assumes "mod_shift (kb_modifiers kb) = mod_shift (kb_modifiers kb')"
    and "mod_ctrl (kb_modifiers kb) = mod_ctrl (kb_modifiers kb')"
    and "mod_caps_lock (kb_modifiers kb) = mod_caps_lock (kb_modifiers kb')"
  shows "ps2_pressed kb e c = ps2_pressed kb' e c"
  using assms by (simp add: ps2_pressed_def process_scancode_def scancode_to_efi_normal_def Let_def split: option.split)

text \<open>The same key on the two keyboards is the same key to the caller. For every key of the main block, the
  function keys and the navigation keys, and for every state of Shift and Ctrl, the scan code and the
  character that come out of the USB keyboard's queue are those of the PS/2 keyboard.
\<close>

theorem keyboards_agree:
  assumes "(usage, extended, code) \<in> set same_key" and "\<not> caps_lock kb" and "\<not> num_lock kb"
    and "mod_shift (kb_modifiers ps2) = shift_pressed r" and "mod_ctrl (kb_modifiers ps2) = ctrl_pressed r"
    and "\<not> mod_caps_lock (kb_modifiers ps2)"
  shows "map_option unpack_key (translate_keycode kb usage r) = ps2_pressed ps2 extended code"
proof -
  define r0 where "r0 = \<lparr>kr_modifiers = (if shift_pressed r then 2 else 0) OR (if ctrl_pressed r then 1 else 0),
    kr_reserved = 0, kr_keys = []\<rparr>"
  have "translate_keycode kb usage r = translate_keycode (usb_hid_keyboard_new 0 0 0 0 0) usage r0"
    using assms(2,3) modifier_byte [of "shift_pressed r" "ctrl_pressed r"]
    by (intro translate_keycode_depends) (simp_all add: r0_def usb_hid_keyboard_new_def)
  moreover have "ps2_pressed ps2 extended code =
      ps2_pressed (new_keyboard_state\<lparr>kb_modifiers := \<lparr>mod_shift = shift_pressed r, mod_ctrl = ctrl_pressed r,
        mod_alt = False, mod_caps_lock = False\<rparr>\<rparr>) extended code"
    using assms(4-6) by (intro ps2_pressed_depends) simp_all
  moreover have "same_translation (shift_pressed r) (ctrl_pressed r) (usage, extended, code)"
    using same_translation_all assms(1) by (auto simp: list_all_iff)
  ultimately show ?thesis
    by (simp add: same_translation_def r0_def)
qed

text \<open>Ctrl-C on both.\<close>

theorem keyboards_agree_witness:
  "map_option unpack_key (translate_keycode (usb_hid_keyboard_new 0 1 1 8 10) 0x06
     \<lparr>kr_modifiers = 0x10, kr_reserved = 0, kr_keys = [0x06, 0, 0, 0, 0, 0]\<rparr>) = Some (0, 3)"
proof -
  define r where "r = \<lparr>kr_modifiers = 0x10, kr_reserved = 0, kr_keys = [0x06, 0, 0, 0, 0, 0]\<rparr>"
  define ps2 where "ps2 = new_keyboard_state\<lparr>kb_modifiers := \<lparr>mod_shift = False, mod_ctrl = True, mod_alt = False,
    mod_caps_lock = False\<rparr>\<rparr>"
  have "map_option unpack_key (translate_keycode (usb_hid_keyboard_new 0 1 1 8 10) 0x06 r) = ps2_pressed ps2 False 0x2E"
    by (rule keyboards_agree)
      (simp_all add: r_def ps2_def usb_hid_keyboard_new_def shift_pressed_def ctrl_pressed_def MOD_LEFT_SHIFT_def
        MOD_RIGHT_SHIFT_def MOD_LEFT_CTRL_def MOD_RIGHT_CTRL_def same_key_def)
  also have "\<dots> = Some (0, 3)"
    unfolding ps2_def by code_simp
  finally show ?thesis
    by (simp add: r_def)
qed

end
