(* ===== verification/Storage_Stack.thy ===== *)
theory Storage_Stack
  imports Allocator Block_Reader Usb_Storage
begin

text \<open>
  The registry of storage devices and what it reads from: \<open>src/src/drivers/storage.rs\<close>, the global devices of
  \<open>src/src/drivers/nvme/mod.rs\<close>, \<open>ahci/mod.rs\<close> and \<open>sdhci/mod.rs\<close>, and the disk wrappers of
  \<open>src/src/drivers/block.rs\<close>.

  The global devices are structs without a fixed layout, in pages that the drivers take from the allocator with
  the functions of \<open>src/src/efi/mod.rs\<close>; their values are fields of the record \<open>global_devices\<close> here.
\<close>

section \<open>The registry\<close>

definition MAX_STORAGE_DEVICES :: nat where "MAX_STORAGE_DEVICES = 8"

datatype storage_type =
  UsbStorage u8 | NvmeStorage nat u32 | AhciStorage nat nat | SdhciStorage nat

record storage_device =
  sd_type :: storage_type
  sd_blocks :: u64
  sd_bsize :: u32
  sd_id :: u32

record storage_registry =
  reg_devices :: "storage_device option list"
  next_id :: u32

definition storage_registry_new :: storage_registry where
  "storage_registry_new = \<lparr>reg_devices = replicate MAX_STORAGE_DEVICES None, next_id = 0\<rparr>"

definition register_device ::
    "storage_registry \<Rightarrow> storage_type \<Rightarrow> u64 \<Rightarrow> u32 \<Rightarrow> storage_registry \<times> u32 option" where
  "register_device reg device_type nblocks bsize =
     (case position (\<lambda>slot. slot = None) (reg_devices reg) of
        None \<Rightarrow> (reg, None)
      | Some slot_idx \<Rightarrow>
          (let device_id = next_id reg;
               dev = \<lparr>sd_type = device_type, sd_blocks = nblocks, sd_bsize = bsize, sd_id = device_id\<rparr>
           in (reg\<lparr>reg_devices := (reg_devices reg)[slot_idx := Some dev], next_id := next_id reg + 1\<rparr>,
               Some device_id)))"

fun first_with_id :: "storage_device option list \<Rightarrow> u32 \<Rightarrow> storage_device option" where
  "first_with_id [] device_id = None"
| "first_with_id (slot # slots) device_id =
     (case slot of
        None \<Rightarrow> first_with_id slots device_id
      | Some dev \<Rightarrow> if sd_id dev = device_id then Some dev else first_with_id slots device_id)"

definition get_device :: "storage_registry \<Rightarrow> u32 \<Rightarrow> storage_device option" where
  "get_device reg device_id = first_with_id (reg_devices reg) device_id"

section \<open>Global devices\<close>

record global_devices =
  GLOBAL_NVME_DEVICE :: "(nat \<times> u32) option"
  GLOBAL_AHCI_DEVICE :: "(nat \<times> nat) option"
  GLOBAL_SDHCI_DEVICE :: "nat option"

definition no_global_devices :: global_devices where
  "no_global_devices = \<lparr>GLOBAL_NVME_DEVICE = None, GLOBAL_AHCI_DEVICE = None, GLOBAL_SDHCI_DEVICE = None\<rparr>"

text \<open>A slice of whole pages is given by its address and size.\<close>

definition efi_allocate_pages :: "memory_allocator \<Rightarrow> u64 \<Rightarrow> (memory_allocator \<times> (u64 \<times> usize) option) may_panic" where
  "efi_allocate_pages s num_pages =
     map_option (\<lambda>(s1, status, addr). (s1, if status = SUCCESS then Some (addr, num_pages * PAGE_SIZE) else None))
       (allocate_pages s AllocateAnyPages BootServicesData num_pages 0)"

definition efi_allocate_pages_below_4g ::
    "memory_allocator \<Rightarrow> u64 \<Rightarrow> (memory_allocator \<times> (u64 \<times> usize) option) may_panic" where
  "efi_allocate_pages_below_4g s num_pages =
     map_option (\<lambda>(s1, status, addr). (s1, if status = SUCCESS then Some (addr, num_pages * PAGE_SIZE) else None))
       (allocate_pages s AllocateMaxAddress BootServicesData num_pages 0xFFFFFFFF)"

definition efi_free_pages :: "memory_allocator \<Rightarrow> u64 \<Rightarrow> u64 \<Rightarrow> memory_allocator" where
  "efi_free_pages s addr num_pages = fst (free_pages s addr num_pages)"

text \<open>The structs fit into one page.\<close>

definition nvme_store_global_device ::
    "memory_allocator \<Rightarrow> global_devices \<Rightarrow> nat \<Rightarrow> u32 \<Rightarrow> (memory_allocator \<times> global_devices \<times> bool) may_panic" where
  "nvme_store_global_device s g controller_index ns_id =
     map_option (\<lambda>(s1, mem).
         case mem of
           Some _ \<Rightarrow> (s1, g\<lparr>GLOBAL_NVME_DEVICE := Some (controller_index, ns_id)\<rparr>, True)
         | None \<Rightarrow> (s1, g, False))
       (efi_allocate_pages s 1)"

definition ahci_store_global_device ::
    "memory_allocator \<Rightarrow> global_devices \<Rightarrow> nat \<Rightarrow> nat \<Rightarrow> (memory_allocator \<times> global_devices \<times> bool) may_panic" where
  "ahci_store_global_device s g controller_index port_index =
     map_option (\<lambda>(s1, mem).
         case mem of
           Some _ \<Rightarrow> (s1, g\<lparr>GLOBAL_AHCI_DEVICE := Some (controller_index, port_index)\<rparr>, True)
         | None \<Rightarrow> (s1, g, False))
       (efi_allocate_pages s 1)"

definition sdhci_store_global_device ::
    "memory_allocator \<Rightarrow> global_devices \<Rightarrow> nat \<Rightarrow> (memory_allocator \<times> global_devices \<times> bool) may_panic" where
  "sdhci_store_global_device s g controller_index =
     map_option (\<lambda>(s1, mem).
         case mem of
           Some _ \<Rightarrow> (s1, g\<lparr>GLOBAL_SDHCI_DEVICE := Some controller_index\<rparr>, True)
         | None \<Rightarrow> (s1, g, False))
       (efi_allocate_pages s 1)"

definition nvme_read_sector ::
    "nvme_controller \<Rightarrow> u32 \<Rightarrow> u64 \<Rightarrow> u8 list \<Rightarrow> (nvme_error, u8 list) outcome" where
  "nvme_read_sector c ns_id lba buf =
     (case get_namespace c ns_id of
        None \<Rightarrow> Some (Inl NvmeInvalidNamespace)
      | Some ns \<Rightarrow>
          if length buf < unat (ns_block_size ns) then Some (Inl NvmeInvalidParameter)
          else deliver buf (nvme_read_sectors c ns_id lba 1))"

definition sdhci_read_sector :: "sdhci_controller \<Rightarrow> u64 \<Rightarrow> u8 list \<Rightarrow> (sdhci_error, u8 list) outcome" where
  "sdhci_read_sector c lba buf =
     (if length buf < unat SD_BLOCK_SIZE then Some (Inl SdhciInvalidParameter)
      else deliver buf (sdhci_read_sectors c lba 1))"

definition nvme_global_read_sector ::
    "drivers \<Rightarrow> global_devices \<Rightarrow> u64 \<Rightarrow> u8 list \<Rightarrow> (unit, u8 list) outcome" where
  "nvme_global_read_sector drv g lba buf =
     (case GLOBAL_NVME_DEVICE g of
        None \<Rightarrow> Some (Inl ())
      | Some (controller_index, ns_id) \<Rightarrow>
          (case get_controller (nvme_controllers drv) controller_index of
             None \<Rightarrow> Some (Inl ())
           | Some c \<Rightarrow> map_err (\<lambda>_. ()) (nvme_read_sector c ns_id lba buf)))"

definition nvme_global_sector_size :: "drivers \<Rightarrow> global_devices \<Rightarrow> u32 option" where
  "nvme_global_sector_size drv g =
     Option.bind (GLOBAL_NVME_DEVICE g) (\<lambda>(controller_index, ns_id).
     Option.bind (get_controller (nvme_controllers drv) controller_index) (\<lambda>c.
     Option.bind (get_namespace c ns_id) (\<lambda>ns. Some (ns_block_size ns))))"

definition ahci_global_read_sector ::
    "drivers \<Rightarrow> global_devices \<Rightarrow> u64 \<Rightarrow> u8 list \<Rightarrow> (unit, u8 list) outcome" where
  "ahci_global_read_sector drv g lba buf =
     (case GLOBAL_AHCI_DEVICE g of
        None \<Rightarrow> Some (Inl ())
      | Some (controller_index, port_index) \<Rightarrow>
          (case get_controller (ahci_controllers drv) controller_index of
             None \<Rightarrow> Some (Inl ())
           | Some c \<Rightarrow> map_err (\<lambda>_. ()) (deliver buf (ahci_read_sectors c port_index lba 1))))"

definition ahci_global_sector_size :: "drivers \<Rightarrow> global_devices \<Rightarrow> u32 option" where
  "ahci_global_sector_size drv g =
     Option.bind (GLOBAL_AHCI_DEVICE g) (\<lambda>(controller_index, port_index).
     Option.bind (get_controller (ahci_controllers drv) controller_index) (\<lambda>c.
     Option.bind (get_controller (ahci_ports c) port_index) (\<lambda>p. Some (sector_size p))))"

definition sdhci_global_read_sector ::
    "drivers \<Rightarrow> global_devices \<Rightarrow> u64 \<Rightarrow> u8 list \<Rightarrow> (unit, u8 list) outcome" where
  "sdhci_global_read_sector drv g lba buf =
     (case GLOBAL_SDHCI_DEVICE g of
        None \<Rightarrow> Some (Inl ())
      | Some controller_index \<Rightarrow>
          (case get_controller (sdhci_controllers drv) controller_index of
             None \<Rightarrow> Some (Inl ())
           | Some c \<Rightarrow> map_err (\<lambda>_. ()) (sdhci_read_sector c lba buf)))"

definition storage_read_sectors ::
    "drivers \<Rightarrow> global_devices \<Rightarrow> storage_registry \<Rightarrow> u32 \<Rightarrow> u64 \<Rightarrow> u8 list \<Rightarrow> (unit, u8 list) outcome" where
  "storage_read_sectors drv g reg device_id lba buf =
     (case get_device reg device_id of
        None \<Rightarrow> Some (Inl ())
      | Some dev \<Rightarrow>
          (case sd_type dev of
             UsbStorage _ \<Rightarrow> global_read_sector drv lba buf
           | NvmeStorage controller_id ns_id \<Rightarrow>
               (case get_controller (nvme_controllers drv) controller_id of
                  Some c \<Rightarrow> map_err (\<lambda>_. ()) (nvme_read_sector c ns_id lba buf)
                | None \<Rightarrow> Some (Inl ()))
           | AhciStorage _ _ \<Rightarrow> ahci_global_read_sector drv g lba buf
           | SdhciStorage _ \<Rightarrow> sdhci_global_read_sector drv g lba buf))"

section \<open>Disk wrappers\<close>

text \<open>Block devices over a borrowed controller. A disk that is not there has no blocks.\<close>

definition absent_info :: block_device_info where
  "absent_info = \<lparr>num_blocks = 0, block_size = 512, media_id = 0, removable = False, read_only = True\<rparr>"

definition nvme_disk :: "nvme_controller \<Rightarrow> u32 \<Rightarrow> block_device" where
  "nvme_disk c ns_id =
     \<lparr>info = (case get_namespace c ns_id of
          Some ns \<Rightarrow> \<lparr>num_blocks = ns_num_blocks ns, block_size = ns_block_size ns, media_id = 0, removable = False,
            read_only = False\<rparr>
        | None \<Rightarrow> absent_info),
      read_blocks = (\<lambda>lba count buf. map_err block_error_of_nvme (deliver buf (nvme_read_sectors c ns_id lba count)))\<rparr>"

definition ahci_disk :: "ahci_controller \<Rightarrow> nat \<Rightarrow> block_device" where
  "ahci_disk c port =
     \<lparr>info = (case get_controller (ahci_ports c) port of
          Some p \<Rightarrow> \<lparr>num_blocks = sector_count p, block_size = sector_size p, media_id = 0, removable = False,
            read_only = False\<rparr>
        | None \<Rightarrow> absent_info),
      read_blocks = (\<lambda>lba count buf. map_err block_error_of_ahci (deliver buf (ahci_read_sectors c port lba count)))\<rparr>"

definition sdhci_disk :: "sdhci_controller \<Rightarrow> block_device" where
  "sdhci_disk c =
     \<lparr>info = \<lparr>num_blocks = sd_num_blocks c, block_size = sd_block_size c, media_id = 0, removable = True,
        read_only = False\<rparr>,
      read_blocks = (\<lambda>lba count buf. map_err block_error_of_sdhci (deliver buf (sdhci_read_sectors c lba count)))\<rparr>"

fun block_error_of_usb :: "mass_storage_error \<Rightarrow> block_error" where
  "block_error_of_usb MsNotReady = NoMedia"
| "block_error_of_usb MsInvalidParameter = InvalidParameter"
| "block_error_of_usb _ = DeviceError"

text \<open>Reading a USB disk changes the device and the state of its controller.\<close>

definition usb_disk_info :: "usb_mass_storage \<Rightarrow> block_device_info" where
  "usb_disk_info d = \<lparr>num_blocks = ms_num_blocks d, block_size = ms_block_size d, media_id = 0, removable = True,
     read_only = False\<rparr>"

definition usb_disk_read_blocks ::
    "'s usb_controller \<Rightarrow> usb_mass_storage \<Rightarrow> 's \<Rightarrow> u64 \<Rightarrow> u32 \<Rightarrow> u8 list \<Rightarrow>
     (usb_mass_storage \<times> 's \<times> (block_error + unit) \<times> u8 list) option" where
  "usb_disk_read_blocks ctl d s lba count buf =
     map_option (\<lambda>(d1, s1, r, buf1). (d1, s1, map_sum block_error_of_usb id r, buf1))
       (read_sectors_generic ctl d s lba count buf)"

end
