(* ===== verification/Block_Io.thy ===== *)
theory Block_Io
  imports Storage_Stack Device_Path Boot_Services
begin

text \<open>
  The block I/O protocol: \<open>src/src/efi/protocols/block_io.rs\<close>.

  The protocol and media structures live in pool memory and are written at their offsets; the addresses of the
  protocol's functions are an argument. The caller's buffer is a range of the memory.
\<close>

section \<open>State\<close>

definition BLOCK_IO_REVISION :: u64 where "BLOCK_IO_REVISION = 0x00010000"
definition MAX_BLOCK_IO_INSTANCES :: nat where "MAX_BLOCK_IO_INSTANCES = 16"

record block_io_context =
  ctx_media_id :: u32
  ctx_storage_device_id :: u32
  ctx_start_lba :: u64
  ctx_num_blocks :: u64
  ctx_block_size :: u32

record block_io_state =
  BLOCK_IO_CONTEXTS :: "block_io_context option list"
  PROTOCOL_TO_CONTEXT :: "u64 option list"

definition new_block_io_state :: block_io_state where
  "new_block_io_state =
     \<lparr>BLOCK_IO_CONTEXTS = replicate MAX_BLOCK_IO_INSTANCES None,
      PROTOCOL_TO_CONTEXT = replicate MAX_BLOCK_IO_INSTANCES None\<rparr>"

definition find_context_index :: "block_io_state \<Rightarrow> u64 \<Rightarrow> nat option" where
  "find_context_index st protocol = position (\<lambda>p. p = Some protocol) (PROTOCOL_TO_CONTEXT st)"

section \<open>Structures\<close>

record block_io_media =
  bm_media_id :: u32
  bm_removable_media :: bool
  bm_media_present :: bool
  bm_logical_partition :: bool
  bm_read_only :: bool
  bm_write_caching :: bool
  bm_block_size :: u32
  bm_io_align :: u32
  bm_pad :: u32
  bm_last_block :: u64

definition bool_byte :: "bool \<Rightarrow> u8" where
  "bool_byte b = (if b then 1 else 0)"

text \<open>\<open>repr(C)\<close>: three bytes of padding before the block size.\<close>

definition block_io_media_bytes :: "block_io_media \<Rightarrow> u8 list" where
  "block_io_media_bytes b =
     le32 (bm_media_id b) @
     map bool_byte [bm_removable_media b, bm_media_present b, bm_logical_partition b, bm_read_only b, bm_write_caching b] @
     [0, 0, 0] @ le32 (bm_block_size b) @ le32 (bm_io_align b) @ le32 (bm_pad b) @ le64 (bm_last_block b)"

record block_io_functions =
  fn_reset :: u64
  fn_read_blocks :: u64
  fn_write_blocks :: u64
  fn_flush_blocks :: u64

record block_io_protocol =
  bp_revision :: u64
  bp_media :: u64
  bp_functions :: block_io_functions

definition block_io_protocol_bytes :: "block_io_protocol \<Rightarrow> u8 list" where
  "block_io_protocol_bytes p =
     le64 (bp_revision p) @ le64 (bp_media p) @ le64 (fn_reset (bp_functions p)) @
     le64 (fn_read_blocks (bp_functions p)) @ le64 (fn_write_blocks (bp_functions p)) @
     le64 (fn_flush_blocks (bp_functions p))"

text \<open>Their sizes, \<open>size_of\<close> in \<open>allocate_protocol\<close>.\<close>

definition BLOCK_IO_MEDIA_SIZE :: nat where "BLOCK_IO_MEDIA_SIZE = 32"
definition BLOCK_IO_PROTOCOL_SIZE :: nat where "BLOCK_IO_PROTOCOL_SIZE = 48"

section \<open>Operations\<close>

definition block_io_reset :: efi_status where
  "block_io_reset = SUCCESS"

definition block_io_write_blocks :: efi_status where
  "block_io_write_blocks = WRITE_PROTECTED"

definition block_io_flush_blocks :: efi_status where
  "block_io_flush_blocks = SUCCESS"

text \<open>The loop over the blocks: \<open>n\<close> blocks are left from index \<open>i\<close> on.\<close>

fun read_each_block ::
    "(u64 \<Rightarrow> u8 list \<Rightarrow> ('e, u8 list) outcome) \<Rightarrow> u64 \<Rightarrow> nat \<Rightarrow> u64 \<Rightarrow> nat \<Rightarrow> nat \<Rightarrow> memory \<Rightarrow> (efi_status \<times> memory) option" where
  "read_each_block read first bsize buffer i 0 m = Some (SUCCESS, m)"
| "read_each_block read first bsize buffer i (Suc n) m =
     (let absolute_lba = first + of_nat i; at = buffer + of_nat (i * bsize)
      in case read absolute_lba (read_bytes m at bsize) of
           None \<Rightarrow> None
         | Some (Inl _) \<Rightarrow> Some (DEVICE_ERROR, m)
         | Some (Inr bs) \<Rightarrow> read_each_block read first bsize buffer (Suc i) n (write_bytes m at bs))"

definition block_io_read_blocks ::
    "drivers \<Rightarrow> global_devices \<Rightarrow> storage_registry \<Rightarrow> block_io_state \<Rightarrow> memory \<Rightarrow>
     u64 \<Rightarrow> u32 \<Rightarrow> u64 \<Rightarrow> usize \<Rightarrow> u64 \<Rightarrow> (efi_status \<times> memory) option" where
  "block_io_read_blocks drv g reg st m this mid lba buffer_size buffer =
     (if this = 0 \<or> buffer = 0 then Some (INVALID_PARAMETER, m)
      else
        (case find_context_index st this of
           None \<Rightarrow> Some (INVALID_PARAMETER, m)
         | Some ctx_idx \<Rightarrow>
             (case BLOCK_IO_CONTEXTS st ! ctx_idx of
                None \<Rightarrow> Some (INVALID_PARAMETER, m)
              | Some ctx \<Rightarrow>
                  if mid \<noteq> ctx_media_id ctx then Some (MEDIA_CHANGED, m)
                  else
                    (let bsize = ucast (ctx_block_size ctx) :: usize
                     in if (if bsize = 0 then buffer_size \<noteq> 0 else buffer_size mod bsize \<noteq> 0)
                        then Some (BAD_BUFFER_SIZE, m)
                        else if bsize = 0 then None
                        else
                          (let n = buffer_size div bsize
                           in if lba + n > ctx_num_blocks ctx then Some (INVALID_PARAMETER, m)
                              else
                                read_each_block (storage_read_sectors drv g reg (ctx_storage_device_id ctx))
                                  (ctx_start_lba ctx + lba) (unat bsize) buffer 0 (unat n) m)))))"

text \<open>\<^const>\<open>None\<close> is a panic of the allocator; a null pointer is 0.\<close>

definition create_block_io_internal ::
    "block_io_functions \<Rightarrow> block_io_state \<Rightarrow> memory_allocator \<Rightarrow> memory \<Rightarrow> u32 \<Rightarrow> u32 \<Rightarrow> u64 \<Rightarrow> u64 \<Rightarrow> u32 \<Rightarrow> bool \<Rightarrow>
     (block_io_state \<times> memory_allocator \<times> memory \<times> u64) may_panic" where
  "create_block_io_internal fns st s m storage_device_id mid start_lba nblocks bsize is_partition =
     (case position (\<lambda>slot. slot = None) (BLOCK_IO_CONTEXTS st) of
        None \<Rightarrow> Some (st, s, m, 0)
      | Some ctx_idx \<Rightarrow>
          (case allocate_protocol s m BLOCK_IO_MEDIA_SIZE
                  (block_io_media_bytes
                     \<lparr>bm_media_id = mid, bm_removable_media = True, bm_media_present = True,
                      bm_logical_partition = is_partition, bm_read_only = True, bm_write_caching = False,
                      bm_block_size = bsize, bm_io_align = 0, bm_pad = 0,
                      bm_last_block = (if nblocks = 0 then 0 else nblocks - 1)\<rparr>) of
             None \<Rightarrow> None
           | Some (s1, m1, media_ptr) \<Rightarrow>
               if media_ptr = 0 then Some (st, s1, m1, 0)
               else
                 (case allocate_protocol s1 m1 BLOCK_IO_PROTOCOL_SIZE
                         (block_io_protocol_bytes
                            \<lparr>bp_revision = BLOCK_IO_REVISION, bp_media = media_ptr, bp_functions = fns\<rparr>) of
                    None \<Rightarrow> None
                  | Some (s2, m2, protocol_ptr) \<Rightarrow>
                      if protocol_ptr = 0 then Some (st, s2, m2, 0)
                      else
                        Some (st\<lparr>BLOCK_IO_CONTEXTS := (BLOCK_IO_CONTEXTS st)[ctx_idx :=
                                   Some \<lparr>ctx_media_id = mid, ctx_storage_device_id = storage_device_id,
                                     ctx_start_lba = start_lba, ctx_num_blocks = nblocks, ctx_block_size = bsize\<rparr>],
                                 PROTOCOL_TO_CONTEXT := (PROTOCOL_TO_CONTEXT st)[ctx_idx := Some protocol_ptr]\<rparr>,
                              s2, m2, protocol_ptr))))"

definition create_disk_block_io ::
    "block_io_functions \<Rightarrow> block_io_state \<Rightarrow> memory_allocator \<Rightarrow> memory \<Rightarrow> u32 \<Rightarrow> u64 \<Rightarrow> u32 \<Rightarrow>
     (block_io_state \<times> memory_allocator \<times> memory \<times> u64) may_panic" where
  "create_disk_block_io fns st s m storage_device_id nblocks bsize =
     create_block_io_internal fns st s m storage_device_id 0 0 nblocks bsize False"

definition create_partition_block_io ::
    "block_io_functions \<Rightarrow> block_io_state \<Rightarrow> memory_allocator \<Rightarrow> memory \<Rightarrow> u32 \<Rightarrow> u32 \<Rightarrow> u64 \<Rightarrow> u64 \<Rightarrow> u32 \<Rightarrow>
     (block_io_state \<times> memory_allocator \<times> memory \<times> u64) may_panic" where
  "create_partition_block_io fns st s m storage_device_id partition_num start_lba nblocks bsize =
     create_block_io_internal fns st s m storage_device_id partition_num start_lba nblocks bsize True"

end
