(* ===== verification/Block_Io_Props.thy ===== *)
theory Block_Io_Props
  imports Block_Io Device_Path_Props
begin

text \<open>
  Properties of the registry and of the block I/O protocol. The locale \<open>sector_source\<close> is the contract between
  them: what reads single sectors of a medium.
\<close>

section \<open>The registry\<close>

definition registry_ok :: "storage_registry \<Rightarrow> bool" where
  "registry_ok reg \<longleftrightarrow> length (reg_devices reg) = 8 \<and>
     unat (next_id reg) = length (filter (\<lambda>s. s \<noteq> None) (reg_devices reg)) \<and>
     (\<forall>d. Some d \<in> set (reg_devices reg) \<longrightarrow> sd_id d < next_id reg)"

lemma first_with_id_SomeD: "first_with_id ds k = Some d \<Longrightarrow> Some d \<in> set ds \<and> sd_id d = k"
  by (induction ds) (auto split: option.splits if_splits)

lemma first_with_id_None: "(\<forall>d. Some d \<in> set ds \<longrightarrow> sd_id d \<noteq> k) \<Longrightarrow> first_with_id ds k = None"
  by (induction ds) (auto split: option.splits)

text \<open>Filling an empty slot with an identifier that no device has.\<close>

lemma first_with_id_fill:
  assumes "\<forall>d'. Some d' \<in> set ds \<longrightarrow> sd_id d' \<noteq> sd_id d" and "i < length ds" and "ds ! i = None"
  shows "first_with_id (ds[i := Some d]) k = (if k = sd_id d then Some d else first_with_id ds k)"
  using assms
proof (induction ds arbitrary: i)
  case (Cons x ds)
  show ?case
  proof (cases i)
    case 0
    then show ?thesis
      using Cons.prems by (auto simp: first_with_id_None)
  next
    case (Suc j)
    then show ?thesis
      using Cons.IH [of j] Cons.prems by (auto split: option.splits)
  qed
qed simp

lemma filled_update:
  "i < length ds \<Longrightarrow> ds ! i = None \<Longrightarrow>
    length (filter (\<lambda>s. s \<noteq> None) (ds[i := Some d])) = Suc (length (filter (\<lambda>s. s \<noteq> None) ds))"
proof (induction ds arbitrary: i)
  case (Cons x ds)
  then show ?case
    by (cases i) auto
qed simp

lemma registry_new_ok: "registry_ok storage_registry_new"
  by (simp add: registry_ok_def storage_registry_new_def MAX_STORAGE_DEVICES_def)

text \<open>The registry is a map from identifiers to devices. Registering either finds all eight slots taken and
  changes nothing, or adds exactly one entry under an identifier that was not in use and that no earlier
  registration was given.
\<close>

theorem register_device_refines:
  assumes "registry_ok reg" and "register_device reg ty n b = (reg', r)"
  shows "registry_ok reg' \<and>
    (case r of
       None \<Rightarrow> reg' = reg \<and> None \<notin> set (reg_devices reg)
     | Some k \<Rightarrow> k = next_id reg \<and> next_id reg' = next_id reg + 1 \<and> unat (next_id reg') = Suc (unat (next_id reg)) \<and>
         get_device reg k = None \<and>
         get_device reg' = (get_device reg)(k \<mapsto> \<lparr>sd_type = ty, sd_blocks = n, sd_bsize = b, sd_id = k\<rparr>))"
proof (cases "position (\<lambda>slot. slot = None) (reg_devices reg)")
  case None
  then have "None \<notin> set (reg_devices reg)"
    by (auto simp: position_None_iff)
  then show ?thesis
    using assms None by (auto simp: register_device_def)
next
  case (Some i)
  let ?d = "\<lparr>sd_type = ty, sd_blocks = n, sd_bsize = b, sd_id = next_id reg\<rparr>"
  have i: "i < length (reg_devices reg)" "reg_devices reg ! i = None"
    using position_SomeD [OF Some] by auto
  have reg': "reg' = reg\<lparr>reg_devices := (reg_devices reg)[i := Some ?d], next_id := next_id reg + 1\<rparr>"
    and r: "r = Some (next_id reg)"
    using assms(2) Some by (simp_all add: register_device_def Let_def)
  have "length (filter (\<lambda>s. s \<noteq> None) (reg_devices reg)) \<le> 8"
    using assms(1) length_filter_le [of _ "reg_devices reg"] by (simp add: registry_ok_def)
  then have "unat (next_id reg) \<le> 8"
    using assms(1) by (simp add: registry_ok_def)
  then have nxt: "unat (next_id reg + 1) = Suc (unat (next_id reg))"
    by (subst unat_plus_less) auto
  have fresh: "\<forall>d'. Some d' \<in> set (reg_devices reg) \<longrightarrow> sd_id d' \<noteq> sd_id ?d"
    using assms(1) by (auto simp: registry_ok_def)
  have below: "sd_id d < next_id reg + 1" if "Some d \<in> set (reg_devices reg')" for d
    using that assms(1) nxt set_update_subset_insert [of "reg_devices reg" i "Some ?d"]
    by (fastforce simp: reg' registry_ok_def word_less_nat_alt)
  have "registry_ok reg'"
    using below assms(1) nxt filled_update [OF i] by (simp add: registry_ok_def reg')
  moreover have "get_device reg' = (get_device reg)(next_id reg \<mapsto> ?d)"
    using first_with_id_fill [OF fresh i] by (auto simp: get_device_def reg' fun_eq_iff)
  moreover have "get_device reg (next_id reg) = None"
    using fresh by (simp add: get_device_def first_with_id_None)
  ultimately show ?thesis
    using nxt by (simp add: r reg')
qed

theorem register_device_refines_witness:
  "get_device (fst (register_device storage_registry_new (UsbStorage 1) 100 512)) 0 =
    Some \<lparr>sd_type = UsbStorage 1, sd_blocks = 100, sd_bsize = 512, sd_id = 0\<rparr>"
proof -
  have new: "snd (register_device storage_registry_new (UsbStorage 1) 100 512) = Some 0"
    by (simp add: register_device_def storage_registry_new_def MAX_STORAGE_DEVICES_def numeral_eq_Suc)
  obtain reg' r where run: "register_device storage_registry_new (UsbStorage 1) 100 512 = (reg', r)"
    by fastforce
  show ?thesis
    using register_device_refines [OF registry_new_ok run] new by (simp add: run)
qed

section \<open>Sources of sectors\<close>

locale sector_source =
  fixes read_sector :: "'d \<Rightarrow> u64 \<Rightarrow> u8 list \<Rightarrow> ('e, u8 list) outcome"
    and holds :: "'d \<Rightarrow> nat \<Rightarrow> nat \<Rightarrow> medium \<Rightarrow> bool"
  assumes sector: "holds d b n c \<Longrightarrow> unat lba < n \<Longrightarrow> length buf = b \<Longrightarrow>
      read_sector d lba buf = Some (Inr (bytes_at c (unat lba * b) b))"
    and sector_size: "holds d b n c \<Longrightarrow> 0 < b \<and> b < 2 ^ 32"

text \<open>The devices of \<open>block.rs\<close>, read one block at a time.\<close>

definition any_sectors :: "drivers \<times> any_block_device \<Rightarrow> nat \<Rightarrow> nat \<Rightarrow> medium \<Rightarrow> bool" where
  "any_sectors d b n c \<longleftrightarrow> any_holds (fst d) (snd d) c \<and> unat (block_size (any_info (snd d))) = b \<and>
     b \<le> 2 ^ 22 \<and> n = unat (num_blocks (any_info (snd d)))"

lemma any_sector:
  assumes "any_sectors (drv, d) b n c" and "unat lba < n" and "length buf = b"
  shows "any_read_blocks drv d lba 1 buf = Some (Inr (bytes_at c (unat lba * b) b))"
proof -
  have "request_ok (any_info d) lba 1"
    using assms(1,2) by (simp add: request_ok_def any_sectors_def)
  then show ?thesis
    using assms any.reads [of drv d c lba 1 buf] by (auto simp: any_sectors_def)
qed

interpretation any_source: sector_source "\<lambda>d lba buf. any_read_blocks (fst d) (snd d) lba 1 buf" any_sectors
proof unfold_locales
  fix d b n c
  assume h: "any_sectors d b n c"
  then show "any_read_blocks (fst d) (snd d) lba 1 buf = Some (Inr (bytes_at c (unat lba * b) b))"
    if "unat lba < n" "length buf = b" for lba buf
    using that any_sector [of "fst d" "snd d" b n c lba buf] by simp
  show "0 < b \<and> b < 2 ^ 32"
    using h any.size_pos [of "fst d" "snd d" c] by (auto simp: any_sectors_def)
qed

text \<open>
  A registered device holds a medium when the device it names does. The drivers of the SATA, SD and USB devices
  read the device that is stored globally, so it has to be that one.
\<close>

definition storage_sectors ::
    "drivers \<times> global_devices \<times> storage_registry \<times> u32 \<Rightarrow> nat \<Rightarrow> nat \<Rightarrow> medium \<Rightarrow> bool" where
  "storage_sectors d b n c \<longleftrightarrow>
     (case d of (drv, g, reg, device_id) \<Rightarrow>
       (case get_device reg device_id of
          None \<Rightarrow> False
        | Some dev \<Rightarrow>
            (case sd_type dev of
               UsbStorage _ \<Rightarrow> any_sectors (drv, Usb (usb_block_device_new 0 0 (sd_blocks dev) (sd_bsize dev) 0)) b n c
             | NvmeStorage i ns \<Rightarrow>
                 any_sectors (drv, Nvme (nvme_block_device_new i ns (sd_blocks dev) (sd_bsize dev) 0)) b n c
             | AhciStorage i p \<Rightarrow> GLOBAL_AHCI_DEVICE g = Some (i, p) \<and>
                 any_sectors (drv, Ahci (ahci_block_device_new i p (sd_blocks dev) (sd_bsize dev) 0)) b n c
             | SdhciStorage i \<Rightarrow> GLOBAL_SDHCI_DEVICE g = Some i \<and>
                 any_sectors (drv, Sdhci (sdhci_block_device_new i (sd_blocks dev) (sd_bsize dev) 0)) b n c)))"

lemma storage_sector:
  assumes h: "storage_sectors (drv, g, reg, k) b n c" and lba: "unat lba < n" and buf: "length buf = b"
  shows "storage_read_sectors drv g reg k lba buf = Some (Inr (bytes_at c (unat lba * b) b))"
proof -
  obtain dev where dev: "get_device reg k = Some dev"
    using h by (auto simp: storage_sectors_def split: option.splits)
  show ?thesis
  proof (cases "sd_type dev")
    case (UsbStorage x)
    then have "any_sectors (drv, Usb (usb_block_device_new 0 0 (sd_blocks dev) (sd_bsize dev) 0)) b n c"
      using h dev by (simp add: storage_sectors_def)
    from any_sector [OF this lba buf] show ?thesis
      using dev UsbStorage
      by (auto simp: storage_read_sectors_def any_read_blocks_def usb_read_blocks_def and_then_Ok_iff map_err_Ok_iff)
  next
    case (NvmeStorage i ns)
    then have a: "any_sectors (drv, Nvme (nvme_block_device_new i ns (sd_blocks dev) (sd_bsize dev) 0)) b n c"
      using h dev by (simp add: storage_sectors_def)
    then obtain ctl nsp where "get_controller (nvme_controllers drv) i = Some ctl" "get_namespace ctl ns = Some nsp"
      "unat (ns_block_size nsp) = b"
      by (auto simp: any_sectors_def any_holds_def nvme_block_device_new_def any_info_def)
    with any_sector [OF a lba buf] show ?thesis
      using dev NvmeStorage buf
      by (auto simp: storage_read_sectors_def any_read_blocks_def nvme_read_blocks_def nvme_read_sector_def map_err_Ok_iff
          nvme_block_device_new_def)
  next
    case (AhciStorage i p)
    then have a: "any_sectors (drv, Ahci (ahci_block_device_new i p (sd_blocks dev) (sd_bsize dev) 0)) b n c"
      and "GLOBAL_AHCI_DEVICE g = Some (i, p)"
      using h dev by (simp_all add: storage_sectors_def)
    with any_sector [OF a lba buf] show ?thesis
      using dev AhciStorage
      by (auto simp: storage_read_sectors_def any_read_blocks_def ahci_read_blocks_def ahci_global_read_sector_def
          map_err_Ok_iff ahci_block_device_new_def split: option.splits)
  next
    case (SdhciStorage i)
    then have a: "any_sectors (drv, Sdhci (sdhci_block_device_new i (sd_blocks dev) (sd_bsize dev) 0)) b n c"
      and "GLOBAL_SDHCI_DEVICE g = Some i"
      using h dev by (simp_all add: storage_sectors_def)
    moreover have "unat SD_BLOCK_SIZE = b"
      using a by (auto simp: any_sectors_def any_holds_def sdhci_block_device_new_def any_info_def)
    ultimately show ?thesis
      using any_sector [OF a lba buf] dev SdhciStorage buf
      by (auto simp: storage_read_sectors_def any_read_blocks_def sdhci_read_blocks_def sdhci_global_read_sector_def
          sdhci_read_sector_def map_err_Ok_iff sdhci_block_device_new_def split: option.splits)
  qed
qed

lemma storage_sector_size:
  assumes "storage_sectors d b n c"
  shows "0 < b \<and> b < 2 ^ 32"
proof -
  obtain drv g reg k where d: "d = (drv, g, reg, k)"
    by (cases d)
  obtain dev where dev: "get_device reg k = Some dev"
    using assms by (auto simp: storage_sectors_def d split: option.splits)
  obtain a where "any_sectors (drv, a) b n c"
    using assms dev by (cases "sd_type dev") (auto simp: storage_sectors_def d)
  then show ?thesis
    by (rule any_source.sector_size)
qed

interpretation storage_source: sector_source
  "\<lambda>d. storage_read_sectors (fst d) (fst (snd d)) (fst (snd (snd d))) (snd (snd (snd d)))" storage_sectors
  by unfold_locales (auto simp: storage_sector storage_sector_size dest: storage_sector_size)

context sector_source
begin

lemma read_each:
  assumes h: "holds d b n c"
  shows "unat first + i + k \<le> n \<Longrightarrow> unat first + i + k \<le> 2 ^ 64 \<Longrightarrow> k * b < 2 ^ 64 \<Longrightarrow>
    read_each_block (read_sector d) first b buffer i k m =
      Some (SUCCESS, write_bytes m (buffer + of_nat (i * b)) (bytes_at c ((unat first + i) * b) (k * b)))"
proof (induction k arbitrary: i m)
  case 0
  then show ?case
    by (simp add: write_bytes_def)
next
  case (Suc k)
  have "unat (first + of_nat i) = unat first + i"
    using Suc.prems by (simp add: unat_word_ariths unat_of_nat)
  then have rd: "read_sector d (first + of_nat i) (read_bytes m (buffer + of_nat (i * b)) b) =
      Some (Inr (bytes_at c ((unat first + i) * b) b))"
    using Suc.prems sector [OF h, of "first + of_nat i"] by simp
  have "write_bytes (write_bytes m (buffer + of_nat (i * b)) (bytes_at c ((unat first + i) * b) b))
      (buffer + of_nat (Suc i * b)) (bytes_at c ((unat first + Suc i) * b) (k * b)) =
    write_bytes m (buffer + of_nat (i * b)) (bytes_at c ((unat first + i) * b) (Suc k * b))"
    using write_bytes_append [of "bytes_at c ((unat first + i) * b) b" "bytes_at c ((unat first + Suc i) * b) (k * b)" m
        "buffer + of_nat (i * b)"] bytes_at_append [of c "(unat first + i) * b" b "k * b"] Suc.prems(3)
    by (simp add: algebra_simps)
  then show ?case
    using Suc.IH [of "Suc i"] Suc.prems rd by (simp add: Let_def)
qed

end

section \<open>Reading blocks\<close>

text \<open>The context of a protocol instance.\<close>

definition instance_of :: "block_io_state \<Rightarrow> u64 \<Rightarrow> block_io_context option" where
  "instance_of st p = Option.bind (find_context_index st p) (\<lambda>i. BLOCK_IO_CONTEXTS st ! i)"


text \<open>A USB disk of a hundred blocks behind a registry, and a partition of it.\<close>

definition disk_drivers :: "medium \<Rightarrow> drivers" where
  "disk_drivers c = \<lparr>nvme_controllers = [], ahci_controllers = [], sdhci_controllers = [],
     usb_sector = Some (\<lambda>lba buf. Some (Inr (bytes_at c (unat lba * 512) 512 @ drop 512 buf)))\<rparr>"

definition disk_registry :: storage_registry where
  "disk_registry = fst (register_device storage_registry_new (UsbStorage 1) 100 512)"

definition disk_state :: "u64 \<Rightarrow> u64 \<Rightarrow> block_io_state" where
  "disk_state start n =
     \<lparr>BLOCK_IO_CONTEXTS = [Some \<lparr>ctx_media_id = 1, ctx_storage_device_id = 0, ctx_start_lba = start, ctx_num_blocks = n,
        ctx_block_size = 512\<rparr>],
      PROTOCOL_TO_CONTEXT = [Some 0x5000]\<rparr>"

lemma disk_sectors: "storage_sectors (disk_drivers c, no_global_devices, disk_registry, 0) 512 100 c"
proof -
  have "get_device disk_registry 0 = Some \<lparr>sd_type = UsbStorage 1, sd_blocks = 100, sd_bsize = 512, sd_id = 0\<rparr>"
    by (simp add: disk_registry_def register_device_def storage_registry_new_def MAX_STORAGE_DEVICES_def numeral_eq_Suc
        get_device_def)
  then show ?thesis
    by (simp add: storage_sectors_def any_sectors_def any_holds_def disk_drivers_def usb_sectors_hold_def any_info_def
        usb_block_device_new_def)
qed

lemma disk_instance:
  "instance_of (disk_state start n) 0x5000 = Some \<lparr>ctx_media_id = 1, ctx_storage_device_id = 0, ctx_start_lba = start,
     ctx_num_blocks = n, ctx_block_size = 512\<rparr>"
  by (simp add: instance_of_def find_context_index_def disk_state_def)

definition ramp :: medium where
  "ramp = of_nat"


text \<open>
  The bounds check adds two 64-bit numbers and wraps: a read of the last block number delivers the block in front of
  the partition.
\<close>

theorem read_wraps_in_front_of_partition:
  "block_io_read_blocks (disk_drivers c) no_global_devices disk_registry (disk_state 10 20) m 0x5000 1 (- 1) 512 0x9000 =
     Some (SUCCESS, write_bytes m 0x9000 (bytes_at c (9 * 512) 512))"
proof -
  have "storage_read_sectors (disk_drivers c) no_global_devices disk_registry 0 9 (read_bytes m 0x9000 512) =
      Some (Inr (bytes_at c (9 * 512) 512))"
    using storage_sector [OF disk_sectors, of 9 "read_bytes m 0x9000 512" c] by simp
  then show ?thesis
    by (simp add: block_io_read_blocks_def disk_state_def find_context_index_def Let_def)
qed

text \<open>Every SATA device of the registry reads the device that is stored globally.\<close>

theorem sata_devices_read_alike:
  assumes "get_device reg j = Some d" and "sd_type d = AhciStorage i p"
    and "get_device reg k = Some d'" and "sd_type d' = AhciStorage i' p'"
  shows "storage_read_sectors drv g reg j = storage_read_sectors drv g reg k"
  using assms by (intro ext) (simp add: storage_read_sectors_def)

section \<open>Creating instances\<close>

definition free_at :: "memory_allocator \<Rightarrow> u64 \<Rightarrow> bool" where
  "free_at s x \<longleftrightarrow> (\<exists>attr. alloc_map s x = Some (as_u32 ConventionalMemory, attr))"

text \<open>A structure is placed in memory that was free and is not free any more; what was in use stays as it is.\<close>

lemma allocate_protocol_effect:
  assumes inv: "alloc_inv s" and bs: "length bs < 2 ^ 32"
  shows "\<exists>s' m' p. allocate_protocol s m (length bs) bs = Some (s', m', p) \<and> alloc_inv s' \<and>
    (p = 0 \<and> s' = s \<and> m' = m \<or>
     p \<noteq> 0 \<and> read_bytes m' p (length bs) = bs \<and> (\<forall>x. \<not> free_at s x \<longrightarrow> m' x = m x \<and> \<not> free_at s' x) \<and>
     (\<forall>i < length bs. free_at s (p + of_nat i) \<and> \<not> free_at s' (p + of_nat i)))"
proof -
  have over: "write_bytes (write_bytes m' p (replicate (length bs) 0)) p bs = write_bytes m' p bs" for m' p
    by (auto simp: write_bytes_def)
  have place: "allocate_protocol s m (length bs) bs = place_path s m bs"
    by (simp add: allocate_protocol_def place_path_def over split: option.split sum.split)
  obtain s' m1 r where run: "allocate_pool s m BootServicesData (of_nat (length bs)) = Some (s', m1, r)"
    using pages.pool_total [OF inv, of m BootServicesData "of_nat (length bs)"] unfolding allocate_pool_def by blast
  obtain s1 m' p where pl: "place_path s m bs = Some (s1, m', p)" "alloc_inv s1"
    and eff: "p = 0 \<and> s1 = s \<and> m' = m \<or>
     p \<noteq> 0 \<and> read_bytes m' p (length bs) = bs \<and>
     (\<forall>x. (\<nexists>attr. alloc_map s x = Some (as_u32 ConventionalMemory, attr)) \<longrightarrow> m' x = m x)"
    using place_path_effect [OF inv bs, of m] by blast
  show ?thesis
  proof (cases "p = 0")
    case True
    then show ?thesis
      using place pl eff by auto
  next
    case False
    then have ok: "r = Ok p" "s1 = s'"
      using pl(1) run by (auto simp: place_path_def split: sum.splits)
    obtain n where n: "pool_pages (of_nat (length bs)) = Some n"
      and a: "allocate_pages s AllocateAnyPages BootServicesData n 0 = Some (s', SUCCESS, p - 16)"
      using pages.pool_success [OF inv run [unfolded allocate_pool_def ok(1)]] .
    note rg = pages.alloc_range [OF inv a]
    have fit: "16 + length bs \<le> 4096 * unat n"
      using pool_pages_SomeD(2) [OF n] bs by (simp add: POOL_HEADER_SIZE_def unat_of_nat)
    have inside: "p + of_nat i \<in> page_range (p - 16) n" if "i < length bs" for i
    proof -
      have "p + of_nat i = (p - 16) + of_nat (16 + i)"
        by simp
      moreover have "unat ((p - 16) + of_nat (16 + i)) = unat (p - 16) + (16 + i)"
        using that fit rg by (subst unat_plus_less) (auto simp: unat_of_nat simp del: of_nat_add)
      ultimately show ?thesis
        using that fit rg by (auto simp: page_range_def)
    qed
    have "as_u32 BootServicesData \<noteq> as_u32 ConventionalMemory"
      by simp
    then have map': "\<not> free_at s' x" if "x \<in> page_range (p - 16) n \<or> \<not> free_at s x" for x
      using that rg by (auto simp: free_at_def retype_def split: if_splits option.splits)
    show ?thesis
      using place pl eff False ok(2) inside map' rg by (fastforce simp: free_at_def)
  qed
qed

text \<open>The table of instances: every pointer in it is to memory that is in use.\<close>

definition io_ok :: "memory_allocator \<Rightarrow> block_io_state \<Rightarrow> bool" where
  "io_ok s st \<longleftrightarrow> length (BLOCK_IO_CONTEXTS st) = length (PROTOCOL_TO_CONTEXT st) \<and>
     (\<forall>i < length (BLOCK_IO_CONTEXTS st). BLOCK_IO_CONTEXTS st ! i = None \<longleftrightarrow> PROTOCOL_TO_CONTEXT st ! i = None) \<and>
     (\<forall>p. Some p \<in> set (PROTOCOL_TO_CONTEXT st) \<longrightarrow> \<not> free_at s p)"

lemma position_update_other:
  "x \<noteq> k \<Longrightarrow> i < length xs \<Longrightarrow> xs ! i \<noteq> Some x \<Longrightarrow>
    position (\<lambda>p. p = Some x) (xs[i := Some k]) = position (\<lambda>p. p = Some x) xs"
proof (induction xs arbitrary: i)
  case (Cons y xs)
  then show ?case
    by (cases i) auto
qed simp

lemma position_update_new:
  "i < length xs \<Longrightarrow> Some k \<notin> set xs \<Longrightarrow> position (\<lambda>p. p = Some k) (xs[i := Some k]) = Some i"
proof (induction xs arbitrary: i)
  case (Cons y xs)
  then show ?case
    by (cases i) auto
qed simp

lemma instance_of_add:
  assumes ok: "io_ok s st" and fresh: "Some p \<notin> set (PROTOCOL_TO_CONTEXT st)"
    and slot: "position (\<lambda>slot. slot = None) (BLOCK_IO_CONTEXTS st) = Some i"
    and st': "st' = st\<lparr>BLOCK_IO_CONTEXTS := (BLOCK_IO_CONTEXTS st)[i := Some ctx],
      PROTOCOL_TO_CONTEXT := (PROTOCOL_TO_CONTEXT st)[i := Some p]\<rparr>"
  shows "instance_of st' = (instance_of st)(p \<mapsto> ctx)"
proof
  fix q
  have i: "i < length (PROTOCOL_TO_CONTEXT st)" "i < length (BLOCK_IO_CONTEXTS st)" "PROTOCOL_TO_CONTEXT st ! i = None"
    using position_SomeD [OF slot] ok by (auto simp: io_ok_def)
  show "instance_of st' q = ((instance_of st)(p \<mapsto> ctx)) q"
  proof (cases "q = p")
    case True
    then show ?thesis
      using position_update_new [OF i(1) fresh] i by (simp add: instance_of_def find_context_index_def st')
  next
    case False
    have "j \<noteq> i" if "position (\<lambda>x. x = Some q) (PROTOCOL_TO_CONTEXT st) = Some j" for j
      using position_SomeD [OF that] i by auto
    then show ?thesis
      using position_update_other [OF False i(1)] i False
      by (auto simp: instance_of_def find_context_index_def st' bind_eq_None_conv split: bind_splits)
  qed
qed

lemma length_structures [simp]:
  "length (block_io_media_bytes b) = BLOCK_IO_MEDIA_SIZE" "length (block_io_protocol_bytes p) = BLOCK_IO_PROTOCOL_SIZE"
  by (simp_all add: block_io_media_bytes_def block_io_protocol_bytes_def BLOCK_IO_MEDIA_SIZE_def BLOCK_IO_PROTOCOL_SIZE_def)

text \<open>Creating an instance of the protocol returns without panic. Either it gives a null pointer and the table
  of instances is unchanged, or it gives a pointer to a protocol structure with a media structure behind it that
  describe the partition, in memory that was free; the new pointer has its context, every other instance keeps
  its own, and no memory that was in use changes.
\<close>

theorem create_block_io_correct:
  assumes inv: "alloc_inv s" and ok: "io_ok s st"
  shows "\<exists>st' s' m' p. create_block_io_internal fns st s m dev mid start n b part = Some (st', s', m', p) \<and>
    alloc_inv s' \<and> io_ok s' st' \<and> (\<forall>x. \<not> free_at s x \<longrightarrow> m' x = m x \<and> \<not> free_at s' x) \<and>
    (p = 0 \<and> st' = st \<or>
     p \<noteq> 0 \<and> free_at s p \<and>
     instance_of st' = (instance_of st)(p \<mapsto> \<lparr>ctx_media_id = mid, ctx_storage_device_id = dev, ctx_start_lba = start,
       ctx_num_blocks = n, ctx_block_size = b\<rparr>) \<and>
     (\<exists>q. read_bytes m' p 48 =
            block_io_protocol_bytes \<lparr>bp_revision = 0x10000, bp_media = q, bp_functions = fns\<rparr> \<and>
          read_bytes m' q 32 =
            block_io_media_bytes \<lparr>bm_media_id = mid, bm_removable_media = True, bm_media_present = True,
              bm_logical_partition = part, bm_read_only = True, bm_write_caching = False, bm_block_size = b,
              bm_io_align = 0, bm_pad = 0, bm_last_block = (if n = 0 then 0 else n - 1)\<rparr>))"
proof (cases "position (\<lambda>slot. slot = None) (BLOCK_IO_CONTEXTS st)")
  case None
  then show ?thesis
    using inv ok by (simp add: create_block_io_internal_def)
next
  case (Some i)
  let ?media = "block_io_media_bytes \<lparr>bm_media_id = mid, bm_removable_media = True, bm_media_present = True,
    bm_logical_partition = part, bm_read_only = True, bm_write_caching = False, bm_block_size = b,
    bm_io_align = 0, bm_pad = 0, bm_last_block = (if n = 0 then 0 else n - 1)\<rparr>"
  let ?ctx = "\<lparr>ctx_media_id = mid, ctx_storage_device_id = dev, ctx_start_lba = start, ctx_num_blocks = n, ctx_block_size = b\<rparr>"
  obtain s1 m1 q where a1: "allocate_protocol s m BLOCK_IO_MEDIA_SIZE ?media = Some (s1, m1, q)" "alloc_inv s1"
    and e1: "q = 0 \<and> s1 = s \<and> m1 = m \<or> q \<noteq> 0 \<and> read_bytes m1 q 32 = ?media \<and>
      (\<forall>x. \<not> free_at s x \<longrightarrow> m1 x = m x \<and> \<not> free_at s1 x) \<and> (\<forall>j < 32. free_at s (q + of_nat j) \<and> \<not> free_at s1 (q + of_nat j))"
    using allocate_protocol_effect [OF inv, of ?media m] by (auto simp: BLOCK_IO_MEDIA_SIZE_def)
  show ?thesis
  proof (cases "q = 0")
    case True
    then show ?thesis
      using Some a1 e1 ok by (simp add: create_block_io_internal_def)
  next
    case q: False
    let ?prot = "block_io_protocol_bytes \<lparr>bp_revision = BLOCK_IO_REVISION, bp_media = q, bp_functions = fns\<rparr>"
    have io1: "io_ok s1 st"
      using ok e1 q by (auto simp: io_ok_def)
    obtain s2 m2 p where a2: "allocate_protocol s1 m1 BLOCK_IO_PROTOCOL_SIZE ?prot = Some (s2, m2, p)" "alloc_inv s2"
      and e2: "p = 0 \<and> s2 = s1 \<and> m2 = m1 \<or> p \<noteq> 0 \<and> read_bytes m2 p 48 = ?prot \<and>
        (\<forall>x. \<not> free_at s1 x \<longrightarrow> m2 x = m1 x \<and> \<not> free_at s2 x) \<and> (\<forall>j < 48. free_at s1 (p + of_nat j) \<and> \<not> free_at s2 (p + of_nat j))"
      using allocate_protocol_effect [OF a1(2), of ?prot m1] by (auto simp: BLOCK_IO_PROTOCOL_SIZE_def)
    show ?thesis
    proof (cases "p = 0")
      case True
      then show ?thesis
        using Some a1 a2 e1 e2 q io1 by (simp add: create_block_io_internal_def)
    next
      case p: False
      define st' where "st' = st\<lparr>BLOCK_IO_CONTEXTS := (BLOCK_IO_CONTEXTS st)[i := Some ?ctx],
        PROTOCOL_TO_CONTEXT := (PROTOCOL_TO_CONTEXT st)[i := Some p]\<rparr>"
      have run: "create_block_io_internal fns st s m dev mid start n b part = Some (st', s2, m2, p)"
        using Some a1 a2 q p by (simp add: create_block_io_internal_def st'_def)
      have "\<forall>j < 48. free_at s1 (p + of_nat j) \<and> \<not> free_at s2 (p + of_nat j)"
        using e2 p by simp
      from this [rule_format, of 0] have new: "free_at s1 p" "\<not> free_at s2 p"
        by simp_all
      then have fresh: "Some p \<notin> set (PROTOCOL_TO_CONTEXT st)"
        using io1 by (auto simp: io_ok_def)
      have "read_bytes m2 q 32 = read_bytes m1 q 32"
        using e1 e2 q p by (intro read_bytes_cong) auto
      then have media: "read_bytes m2 q 32 = ?media"
        using e1 q by simp
      have io2: "io_ok s2 st'"
        using io1 e2 p new(2) position_SomeD [OF Some]
        by (auto simp: io_ok_def st'_def nth_list_update dest!: subsetD [OF set_update_subset_insert])
      have "free_at s p"
        using new(1) e1 q by auto
      moreover have "\<forall>x. \<not> free_at s x \<longrightarrow> m2 x = m x \<and> \<not> free_at s2 x"
        using e1 e2 q p by auto
      moreover have "read_bytes m2 p 48 =
          block_io_protocol_bytes \<lparr>bp_revision = 0x10000, bp_media = q, bp_functions = fns\<rparr>"
        using e2 p by (simp add: BLOCK_IO_REVISION_def)
      ultimately show ?thesis
        using run a2(2) io2 p media instance_of_add [OF ok fresh Some st'_def]
        by (intro exI [of _ st'] exI [of _ s2] exI [of _ m2] exI [of _ p] conjI disjI2 exI [of _ q])
    qed
  qed
qed

lemma new_io_ok: "io_ok s new_block_io_state"
  by (simp add: io_ok_def new_block_io_state_def)

theorem create_block_io_correct_witness:
  "\<exists>st' s' m' p. create_block_io_internal \<lparr>fn_reset = 1, fn_read_blocks = 2, fn_write_blocks = 3, fn_flush_blocks = 4\<rparr>
      new_block_io_state sample_allocator (\<lambda>_. 0) 0 1 2048 1000 512 True = Some (st', s', m', p) \<and>
    (p = 0 \<or> map_option ctx_start_lba (instance_of st' p) = Some 2048)"
  using create_block_io_correct [OF sample_inv new_io_ok, of "\<lparr>fn_reset = 1, fn_read_blocks = 2, fn_write_blocks = 3, fn_flush_blocks = 4\<rparr>"
      "\<lambda>_. 0" 0 1 2048 1000 512 True]
  by auto

end
