(* ===== verification/Unicode_Collation.thy ===== *)
theory Unicode_Collation
  imports Crab_Prelude
begin

text \<open>
  The collation protocol of \<open>src/src/efi/protocols/unicode_collation.rs\<close>: comparison, pattern matching, case
  conversion and names of FAT files, over strings in memory.

  Strings end with a zero; what happens without one depends on the memory behind them, so the loops are
  \<open>partial_function\<close>s and \<^const>\<open>None\<close> is a loop that does not end.
\<close>

section \<open>Characters\<close>

definition char_to_upper :: "u16 \<Rightarrow> u16" where
  "char_to_upper c = (if c \<ge> 0x61 \<and> c \<le> 0x7A then c - 32 else c)"

definition char_to_lower :: "u16 \<Rightarrow> u16" where
  "char_to_lower c = (if c \<ge> 0x41 \<and> c \<le> 0x5A then c + 32 else c)"

section \<open>Comparison\<close>

text \<open>A result of type \<open>isize\<close>; the difference of two characters is far from its bounds.\<close>

partial_function (option) stri_coll_from :: "memory \<Rightarrow> u64 \<Rightarrow> u64 \<Rightarrow> int option" where
  [code]: "stri_coll_from m p1 p2 =
     (let c1 = char_to_upper (read_u16 m p1);
          c2 = char_to_upper (read_u16 m p2)
      in if c1 \<noteq> c2 then Some (uint c1 - uint c2)
         else if c1 = 0 then Some 0
         else stri_coll_from m (p1 + 2) (p2 + 2))"

definition stri_coll :: "memory \<Rightarrow> u64 \<Rightarrow> u64 \<Rightarrow> int option" where
  "stri_coll m s1 s2 = (if s1 = 0 \<or> s2 = 0 then Some 0 else stri_coll_from m s1 s2)"

section \<open>Pattern matching\<close>

text \<open>
  \<open>metai_match\<close> calls itself from within its loops. The mode says where the function is: at its entry, at the head
  of the loop over the characters, or at the head of the loop over the positions that a star may end at.
\<close>

datatype metai_mode = Entry | Characters | Positions

partial_function (option) metai_run :: "memory \<Rightarrow> metai_mode \<Rightarrow> u64 \<Rightarrow> u64 \<Rightarrow> bool option" where
  [code]: "metai_run m mode ps pp =
     (case mode of
        Entry \<Rightarrow> if ps = 0 \<or> pp = 0 then Some False else metai_run m Characters ps pp
      | Characters \<Rightarrow>
          (let cs = char_to_lower (read_u16 m ps);
               cp = char_to_lower (read_u16 m pp)
           in if cp = 0 then Some (cs = 0)
              else if cp = 0x2A then
                (if read_u16 m (pp + 2) = 0 then Some True else metai_run m Positions ps (pp + 2))
              else if cp = 0x3F \<and> cs = 0 then Some False
              else if cp \<noteq> 0x3F \<and> cs \<noteq> cp then Some False
              else if cs = 0 then Some True
              else metai_run m Characters (ps + 2) (pp + 2))
      | Positions \<Rightarrow>
          if read_u16 m ps \<noteq> 0 then
            Option.bind (metai_run m Entry ps pp) (\<lambda>found.
              if found then Some True else metai_run m Positions (ps + 2) pp)
          else metai_run m Entry ps pp)"

definition metai_match :: "memory \<Rightarrow> u64 \<Rightarrow> u64 \<Rightarrow> bool option" where
  "metai_match m str pat = metai_run m Entry str pat"

section \<open>Case conversion\<close>

partial_function (option) convert_from :: "(u16 \<Rightarrow> u16) \<Rightarrow> memory \<Rightarrow> u64 \<Rightarrow> memory option" where
  [code]: "convert_from f m p =
     (if read_u16 m p \<noteq> 0 then convert_from f (write_u16 m p (f (read_u16 m p))) (p + 2) else Some m)"

definition str_lwr :: "memory \<Rightarrow> u64 \<Rightarrow> memory option" where
  "str_lwr m str = (if str = 0 then Some m else convert_from char_to_lower m str)"

definition str_upr :: "memory \<Rightarrow> u64 \<Rightarrow> memory option" where
  "str_upr m str = (if str = 0 then Some m else convert_from char_to_upper m str)"

section \<open>Names of FAT files\<close>

text \<open>\<open>fat_to_str\<close> copies characters up to a zero or the end; \<open>n\<close> is how many are left.\<close>

fun fat_to_str_from :: "memory \<Rightarrow> u64 \<Rightarrow> u64 \<Rightarrow> nat \<Rightarrow> nat \<Rightarrow> memory" where
  "fat_to_str_from m fat str i 0 = m"
| "fat_to_str_from m fat str i (Suc n) =
     (let c = m (fat + of_nat i)
      in if c = 0 then write_u16 m (str + 2 * of_nat i) 0
         else fat_to_str_from (write_u16 m (str + 2 * of_nat i) (ucast c)) fat str (Suc i) n)"

definition fat_to_str :: "memory \<Rightarrow> usize \<Rightarrow> u64 \<Rightarrow> u64 \<Rightarrow> memory" where
  "fat_to_str m fat_size fat str =
     (if fat = 0 \<or> str = 0 then m
      else write_u16 (fat_to_str_from m fat str 0 (unat fat_size)) (str + 2 * fat_size) 0)"

text \<open>The characters \<open>+,<=>:;"/\|?*[]\<close> and delete.\<close>

definition fat_illegal :: "u8 list" where
  "fat_illegal = [0x2B, 0x2C, 0x3C, 0x3D, 0x3E, 0x3A, 0x3B, 0x22, 0x2F, 0x5C, 0x7C, 0x3F, 0x2A, 0x5B, 0x5D, 0x7F]"

partial_function (option) str_to_fat_from ::
    "memory \<Rightarrow> usize \<Rightarrow> u64 \<Rightarrow> usize \<Rightarrow> u64 \<Rightarrow> bool \<Rightarrow> (memory \<times> usize \<times> bool) option" where
  [code]: "str_to_fat_from m fat_size fat i ps has_illegal =
     (if i < fat_size \<and> read_u16 m ps \<noteq> 0 then
        (let c = ucast (read_u16 m ps) :: u32
         in if c = 0x20 \<or> c = 0x2E then str_to_fat_from m fat_size fat i (ps + 2) has_illegal
            else
              (let c = (if c \<ge> 0x61 \<and> c \<le> 0x7A then c - 32 else c)
               in if \<not> (0x20 \<le> c \<and> c < 128) \<or> (ucast c :: u8) \<in> set fat_illegal
                  then str_to_fat_from (write_bytes m (fat + i) [0x5F]) fat_size fat (i + 1) (ps + 2) True
                  else str_to_fat_from (write_bytes m (fat + i) [ucast c]) fat_size fat (i + 1) (ps + 2) has_illegal))
      else Some (m, i, has_illegal))"

definition str_to_fat :: "memory \<Rightarrow> u64 \<Rightarrow> usize \<Rightarrow> u64 \<Rightarrow> (memory \<times> bool) option" where
  "str_to_fat m str fat_size fat =
     (if str = 0 \<or> fat = 0 then Some (m, False)
      else map_option (\<lambda>(m1, i, has_illegal).
               (if i < fat_size then write_bytes m1 (fat + i) [0] else m1, has_illegal))
             (str_to_fat_from m fat_size fat 0 str False))"

end
