(* ===== verification/Collation_Props.thy ===== *)
theory Collation_Props
  imports Unicode_Collation Device_Path_Props
begin

text \<open>
  The collation protocol on zero-terminated strings: every loop ends, patterns match as the decomposition of a
  string into pieces says, comparison is the lexicographic order of the upper-case strings, and names of FAT files
  survive the conversion in both directions.
\<close>

section \<open>Strings in memory\<close>

text \<open>A string without zeros, terminated by one; no character is at the null pointer.\<close>

fun str_at :: "memory \<Rightarrow> u64 \<Rightarrow> u16 list \<Rightarrow> bool" where
  "str_at m p [] \<longleftrightarrow> p \<noteq> 0 \<and> read_u16 m p = 0"
| "str_at m p (c # s) \<longleftrightarrow> p \<noteq> 0 \<and> read_u16 m p = c \<and> c \<noteq> 0 \<and> str_at m (p + 2) s"

lemma str_at_not_null: "str_at m p s \<Longrightarrow> p \<noteq> 0"
  by (cases s) auto

lemma str_at_first: "str_at m p s \<Longrightarrow> read_u16 m p = (case s of [] \<Rightarrow> 0 | c # _ \<Rightarrow> c)"
  by (cases s) auto

section \<open>Characters\<close>

lemma char_to_lower_special:
  "char_to_lower c = 0 \<longleftrightarrow> c = 0" "char_to_lower c = 0x2A \<longleftrightarrow> c = 0x2A" "char_to_lower c = 0x3F \<longleftrightarrow> c = 0x3F"
  by (auto simp: char_to_lower_def word_le_nat_alt word_unat_eq_iff unat_word_ariths split: if_splits)

lemma zero_lower: "char_to_lower 0 = 0" "0 = char_to_lower c \<longleftrightarrow> c = 0"
  using char_to_lower_special(1) [of c] by (auto simp: char_to_lower_def)

lemma char_to_upper_zero: "char_to_upper c = 0 \<longleftrightarrow> c = 0"
  by (auto simp: char_to_upper_def word_le_nat_alt unat_sub word_unat_eq_iff split: if_splits)

lemma zero_upper: "char_to_upper 0 = 0" "0 = char_to_upper c \<longleftrightarrow> c = 0"
  using char_to_upper_zero [of c] by (auto simp: char_to_upper_def)

section \<open>Pattern matching\<close>

text \<open>What a character of a pattern may stand for, and the strings that a pattern matches.\<close>

definition piece :: "u16 \<Rightarrow> u16 list \<Rightarrow> bool" where
  "piece c a \<longleftrightarrow> (if c = 0x2A then True else if c = 0x3F then length a = 1
     else (\<exists>x. a = [x] \<and> char_to_lower x = char_to_lower c))"

definition matches :: "u16 list \<Rightarrow> u16 list \<Rightarrow> bool" where
  "matches pat s \<longleftrightarrow> (\<exists>pieces. concat pieces = s \<and> list_all2 piece pat pieces)"

lemma matches_Nil: "matches [] s \<longleftrightarrow> s = []"
  by (auto simp: matches_def)

lemma matches_Cons: "matches (c # pat) s \<longleftrightarrow> (\<exists>a b. s = a @ b \<and> piece c a \<and> matches pat b)"
proof
  assume "matches (c # pat) s"
  then show "\<exists>a b. s = a @ b \<and> piece c a \<and> matches pat b"
    by (auto simp: matches_def list_all2_Cons1) blast
next
  assume "\<exists>a b. s = a @ b \<and> piece c a \<and> matches pat b"
  then obtain a pieces where "s = concat (a # pieces)" "list_all2 piece (c # pat) (a # pieces)"
    by (auto simp: matches_def)
  then show "matches (c # pat) s"
    unfolding matches_def by metis
qed

lemma matches_star:
  "matches (0x2A # pat) [] \<longleftrightarrow> matches pat []"
  "matches (0x2A # pat) (x # s) \<longleftrightarrow> matches pat (x # s) \<or> matches (0x2A # pat) s"
  by (auto simp: matches_Cons piece_def Cons_eq_append_conv)

lemma matches_all: "matches [0x2A] s"
  by (simp add: matches_Cons matches_Nil piece_def)

lemma matches_one:
  assumes "c \<noteq> 0x2A"
  shows "matches (c # pat) s \<longleftrightarrow>
    (case s of [] \<Rightarrow> False | x # r \<Rightarrow> (c = 0x3F \<or> char_to_lower x = char_to_lower c) \<and> matches pat r)"
proof -
  have one: "piece c a \<longleftrightarrow> (\<exists>x. a = [x] \<and> (c = 0x3F \<or> char_to_lower x = char_to_lower c))" for a
    using assms by (auto simp: piece_def length_Suc_conv)
  have "matches (c # pat) s \<longleftrightarrow>
      (\<exists>x b. s = [x] @ b \<and> (c = 0x3F \<or> char_to_lower x = char_to_lower c) \<and> matches pat b)"
    unfolding matches_Cons one by blast
  then show ?thesis
    by (cases s) auto
qed

lemma positions_match:
  assumes IH: "\<And>ps s. str_at m ps s \<Longrightarrow> metai_run m Entry ps pp = Some (matches pat s)"
  shows "str_at m ps s \<Longrightarrow> metai_run m Positions ps pp = Some (matches (0x2A # pat) s)"
proof (induction s arbitrary: ps)
  case Nil
  then show ?case
    using IH [of ps "[]"] by (subst metai_run.simps) (simp add: matches_star)
next
  case (Cons x s)
  then show ?case
    using IH [of ps "x # s"] by (subst metai_run.simps) (auto simp: matches_star)
qed

lemma characters_match:
  "str_at m ps s \<Longrightarrow> str_at m pp pat \<Longrightarrow> metai_run m Characters ps pp = Some (matches pat s)"
proof (induction pat arbitrary: ps pp s)
  case Nil
  then show ?case
    using str_at_first [of m ps s]
    by (subst metai_run.simps) (auto simp: char_to_lower_special matches_Nil split: list.splits)
next
  case (Cons c pat)
  have pat: "read_u16 m pp = c" "c \<noteq> 0" "str_at m (pp + 2) pat"
    using Cons.prems(2) by auto
  have entry: "metai_run m Entry ps' (pp + 2) = Some (matches pat s')" if "str_at m ps' s'" for ps' s'
    using Cons.IH [OF that pat(3)] str_at_not_null [OF that] str_at_not_null [OF pat(3)]
    by (subst metai_run.simps) simp
  show ?case
  proof (cases "c = 0x2A")
    case True
    show ?thesis
    proof (cases pat)
      case Nil
      then show ?thesis
        using True pat by (subst metai_run.simps) (simp add: char_to_lower_special matches_all)
    next
      case (Cons d rest)
      then show ?thesis
        using True pat positions_match [OF entry Cons.prems(1)] Cons.prems(1)
        by (subst metai_run.simps) (auto simp: char_to_lower_special)
    qed
  next
    case False
    show ?thesis
      using False pat Cons.prems(1) Cons.IH [OF _ pat(3), of "ps + 2" "tl s"]
      by (subst metai_run.simps)
        (cases s; auto simp: char_to_lower_special zero_lower matches_one Let_def)
  qed
qed


lemma read_u16_bytes: "read_u16 m a = of_nat (unat (m a) + 256 * unat (m (a + 1)))"
  by (simp add: read_u16_def read_bytes_def numeral_2_eq_2)

text \<open>The string \<open>Grub.EFI\<close> and the pattern \<open>g*.e?i\<close>.\<close>

definition sample_strings :: memory where
  "sample_strings = write_bytes (write_bytes (\<lambda>_. 0)
     0x1000 [0x47, 0, 0x72, 0, 0x75, 0, 0x62, 0, 0x2E, 0, 0x45, 0, 0x46, 0, 0x49, 0, 0, 0])
     0x2000 [0x67, 0, 0x2A, 0, 0x2E, 0, 0x65, 0, 0x3F, 0, 0x69, 0, 0, 0]"


section \<open>Comparison\<close>

lemma uint_pos_iff: "0 < uint w \<longleftrightarrow> w \<noteq> 0"
  using uint_nonnegative [of w] uint_0_iff [of w] by linarith

lemma stri_coll_from_correct:
  assumes "str_at m p1 s1" and "str_at m p2 s2"
  shows "\<exists>r. stri_coll_from m p1 p2 = Some r \<and>
    (r = 0 \<longleftrightarrow> map char_to_upper s1 = map char_to_upper s2) \<and>
    (r < 0 \<longleftrightarrow> ord_class.lexordp (map char_to_upper s1) (map char_to_upper s2))"
  using assms
proof (induction s1 arbitrary: s2 p1 p2)
  case Nil
  then show ?case
    using str_at_first [of m p2 s2]
    by (subst stri_coll_from.simps)
      (cases s2; auto simp: char_to_upper_zero zero_upper uint_pos_iff uint_0_iff)
next
  case (Cons c s1)
  show ?case
  proof (cases s2)
    case Nil
    then show ?thesis
      using Cons.prems by (subst stri_coll_from.simps) (auto simp: char_to_upper_zero zero_upper uint_0_iff uint_pos_iff)
  next
    case (Cons d r)
    then have c: "read_u16 m p1 = c" "c \<noteq> 0" "read_u16 m p2 = d" "d \<noteq> 0"
      and rest: "str_at m (p1 + 2) s1" "str_at m (p2 + 2) r"
      using Cons.prems by auto
    show ?thesis
    proof (cases "char_to_upper c = char_to_upper d")
      case True
      then show ?thesis
        using c Cons Cons.IH [OF rest] by (subst stri_coll_from.simps) (simp add: char_to_upper_zero)
    next
      case False
      then show ?thesis
        using c Cons word_uint_eq_iff [of "char_to_upper c" "char_to_upper d"]
        by (subst stri_coll_from.simps) (auto simp: word_less_def)
    qed
  qed
qed

lemma stri_coll_correct:
  assumes "str_at m p1 s1" and "str_at m p2 s2"
  shows "\<exists>r. stri_coll m p1 p2 = Some r \<and>
    (r = 0 \<longleftrightarrow> map char_to_upper s1 = map char_to_upper s2) \<and>
    (r < 0 \<longleftrightarrow> ord_class.lexordp (map char_to_upper s1) (map char_to_upper s2))"
  using stri_coll_from_correct [OF assms] assms [THEN str_at_not_null] by (simp add: stri_coll_def)

section \<open>Strings and writes\<close>

text \<open>The bytes of the range from \<open>a\<close> are outside the range of \<open>k\<close> bytes from \<open>b\<close>.\<close>

definition apart :: "u64 \<Rightarrow> nat \<Rightarrow> u64 \<Rightarrow> nat \<Rightarrow> bool" where
  "apart a n b k \<longleftrightarrow> (\<forall>i < n. k \<le> unat (a + of_nat i - b))"

lemma read_u16_cong: "m a = m' a \<Longrightarrow> m (a + 1) = m' (a + 1) \<Longrightarrow> read_u16 m a = read_u16 m' a"
  by (simp add: read_u16_def read_bytes_def numeral_2_eq_2)

lemma apart_below:
  assumes "unat a + n \<le> unat b" and "unat b + k \<le> 2 ^ 64"
  shows "apart a n b k"
  unfolding apart_def
proof (intro allI impI)
  fix i
  assume "i < n"
  then have i: "unat (of_nat i :: u64) = i" "unat a + i < unat b"
    using assms unat_u64_bound [of b] by (auto intro!: unat_of_nat_u64)
  then have "unat (a + of_nat i) = unat a + i"
    using unat_u64_bound [of b] by (subst unat_plus_less) auto
  then show "k \<le> unat (a + of_nat i - b)"
    using assms(2) i unat_sub_if' [of "a + of_nat i" b] by simp
qed

lemma read_bytes_none: "read_bytes m a 0 = []"
  by (simp add: read_bytes_def)

lemma str_at_cong:
  "(\<And>i. i < 2 * length s + 2 \<Longrightarrow> m (p + of_nat i) = m' (p + of_nat i)) \<Longrightarrow> str_at m p s = str_at m' p s"
proof (induction s arbitrary: p)
  case Nil
  then show ?case
    using Nil [of 0] Nil [of 1] read_u16_cong [of m p m'] by simp
next
  case (Cons c s)
  have "str_at m (p + 2) s = str_at m' (p + 2) s"
    using Cons.prems [of "_ + 2"] by (intro Cons.IH) (simp add: algebra_simps)
  moreover have "read_u16 m p = read_u16 m' p"
    using Cons.prems [of 0] Cons.prems [of 1] by (intro read_u16_cong) auto
  ultimately show ?case by simp
qed

lemma unat_wrap_two: "unat (p - (p + 2) :: u64) = 2 ^ 64 - 2" "unat (p + 1 - (p + 2) :: u64) = 2 ^ 64 - 1"
proof -
  have "p - (p + 2) = 0xFFFFFFFFFFFFFFFE" "p + 1 - (p + 2) = 0xFFFFFFFFFFFFFFFF"
    by simp_all
  then show "unat (p - (p + 2)) = 2 ^ 64 - 2" "unat (p + 1 - (p + 2)) = 2 ^ 64 - 1"
    by (simp_all only:) simp_all
qed

text \<open>The bytes of a string.\<close>

definition char_bytes :: "u16 list \<Rightarrow> u8 list" where
  "char_bytes s = concat (map (\<lambda>c. le_bytes 2 (unat c)) s)"

lemma length_char_bytes [simp]: "length (char_bytes s) = 2 * length s"
  by (induction s) (auto simp: char_bytes_def)

lemma char_bytes_simps [simp]: "char_bytes [] = []" "char_bytes (c # s) = le_bytes 2 (unat c) @ char_bytes s"
  by (simp_all add: char_bytes_def)

lemma char_bytes_append: "char_bytes (s @ t) = char_bytes s @ char_bytes t"
  by (simp add: char_bytes_def)

lemma str_at_write:
  assumes "0 \<notin> set s" and "p \<noteq> 0" and "unat p + 2 * length s + 2 \<le> 2 ^ 64"
  shows "str_at (write_bytes m p (char_bytes (s @ [0]))) p s"
  using assms
proof (induction s arbitrary: p m)
  case Nil
  then show ?case
    using read_write_u16 [of m p 0] by (simp add: write_u16_def)
next
  case (Cons c s)
  have p2: "unat (p + 2) = unat p + 2"
    using Cons.prems(3) by (subst unat_plus_less) auto
  have split: "write_bytes m p (char_bytes ((c # s) @ [0])) =
      write_bytes (write_u16 m p c) (p + 2) (char_bytes (s @ [0]))"
    using Cons.prems(2,3) unat_gt_0 [of p] write_bytes_append [of "le_bytes 2 (unat c)" "char_bytes (s @ [0])" m p]
    by (simp add: write_u16_def)
  have "str_at (write_bytes m p (char_bytes ((c # s) @ [0]))) (p + 2) s"
    unfolding split using Cons.prems p2 by (intro Cons.IH) auto
  moreover have "read_u16 (write_bytes m p (char_bytes ((c # s) @ [0]))) p = read_u16 (write_u16 m p c) p"
    unfolding split using Cons.prems(3)
    by (intro read_u16_cong write_bytes_outside) (simp_all only: unat_wrap_two, simp_all)
  ultimately show ?case
    using Cons.prems by auto
qed

lemma unat_diff_ahead:
  fixes x p :: u64
  shows "k \<le> unat (x - p) \<Longrightarrow> unat (x - (p + of_nat k)) = unat (x - p) - k"
  using unat_u64_bound [of "x - p"] unat_sub [of "of_nat k" "x - p"]
  by (simp add: word_le_nat_alt unat_of_nat diff_diff_eq)

section \<open>Case conversion\<close>

lemma convert_from_correct:
  assumes "str_at m p s" and "2 * length s + 2 \<le> 2 ^ 64" and f: "\<And>c. c \<noteq> 0 \<Longrightarrow> f c \<noteq> 0"
  shows "\<exists>m'. convert_from f m p = Some m' \<and> str_at m' p (map f s) \<and>
    (\<forall>x. 2 * length s \<le> unat (x - p) \<longrightarrow> m' x = m x)"
  using assms(1,2)
proof (induction s arbitrary: m p)
  case Nil
  then show ?case
    by (subst convert_from.simps) simp
next
  case (Cons c s)
  let ?m = "write_u16 m p (f c)"
  have c: "read_u16 m p = c" "c \<noteq> 0" "str_at m (p + 2) s"
    using Cons.prems(1) by auto
  have out: "?m x = m x" if "2 \<le> unat (x - p)" for x
    using that by (simp add: write_u16_def write_bytes_outside)
  have "?m (p + 2 + of_nat i) = m (p + 2 + of_nat i)" if "i < 2 * length s + 2" for i
  proof (rule out)
    have "unat (of_nat (2 + i) :: u64) = 2 + i"
      using that Cons.prems(2) by (intro unat_of_nat_u64) simp
    then show "2 \<le> unat (p + 2 + of_nat i - p)"
      by simp
  qed
  then have "str_at ?m (p + 2) s"
    using c(3) str_at_cong [of s ?m "p + 2" m] by simp
  then obtain m' where m': "convert_from f ?m (p + 2) = Some m'" "str_at m' (p + 2) (map f s)"
      and frame: "\<And>x. 2 * length s \<le> unat (x - (p + 2)) \<Longrightarrow> m' x = ?m x"
    using Cons.IH [of ?m "p + 2"] Cons.prems(2) by auto
  have "read_u16 m' p = f c"
    using Cons.prems(2) read_u16_cong [of m' p ?m] frame [of p] frame [of "p + 1"]
    unfolding unat_wrap_two by simp
  moreover have "m' x = m x" if "2 * length (c # s) \<le> unat (x - p)" for x
    using that frame [of x] out [of x] unat_diff_ahead [of 2 x p] by simp
  ultimately show ?case
    using Cons.prems(1) m' c f [OF c(2)] by (subst convert_from.simps) auto
qed

lemma str_lwr_correct:
  assumes "str_at m p s" and "2 * length s + 2 \<le> 2 ^ 64"
  shows "\<exists>m'. str_lwr m p = Some m' \<and> str_at m' p (map char_to_lower s) \<and>
    (\<forall>x. 2 * length s \<le> unat (x - p) \<longrightarrow> m' x = m x)"
  using convert_from_correct [OF assms, of char_to_lower] str_at_not_null [OF assms(1)]
  by (simp add: str_lwr_def char_to_lower_special)

lemma str_upr_correct:
  assumes "str_at m p s" and "2 * length s + 2 \<le> 2 ^ 64"
  shows "\<exists>m'. str_upr m p = Some m' \<and> str_at m' p (map char_to_upper s) \<and>
    (\<forall>x. 2 * length s \<le> unat (x - p) \<longrightarrow> m' x = m x)"
  using convert_from_correct [OF assms, of char_to_upper] str_at_not_null [OF assms(1)]
  by (simp add: str_upr_def char_to_upper_zero)

section \<open>Names of FAT files\<close>

text \<open>What one character becomes, and whether it was illegal. Spaces and periods are left out.\<close>

definition fat_char :: "u16 \<Rightarrow> u8 \<times> bool" where
  "fat_char c =
     (let u = char_to_upper c
      in if 0x20 \<le> u \<and> u < 128 \<and> (ucast u :: u8) \<notin> set fat_illegal then (ucast u, False) else (0x5F, True))"

definition fat_chars :: "u16 list \<Rightarrow> (u8 \<times> bool) list" where
  "fat_chars s = map fat_char (filter (\<lambda>c. c \<noteq> 0x20 \<and> c \<noteq> 0x2E) s)"

lemma fat_chars_simps [simp]:
  "fat_chars [] = []"
  "fat_chars (c # s) = (if c = 0x20 \<or> c = 0x2E then fat_chars s else fat_char c # fat_chars s)"
  by (simp_all add: fat_chars_def)

lemma wide_char:
  fixes c :: u16
  shows "unat (ucast c :: u32) = unat c" "(ucast (ucast c :: u32) :: u8) = ucast c"
proof -
  show u: "unat (ucast c :: u32) = unat c"
    by (rule unat_ucast_widen) simp
  show "(ucast (ucast c :: u32) :: u8) = ucast c"
    by (rule bit_word_eqI) (auto simp: bit_unsigned_iff)
qed

lemma fat_char_wide:
  fixes c :: u16
  shows "(if (ucast c :: u32) \<ge> 0x61 \<and> (ucast c :: u32) \<le> 0x7A then ucast c - 32 else ucast c) = (ucast (char_to_upper c) :: u32)"
  by (auto simp: char_to_upper_def word_le_nat_alt word_unat_eq_iff unat_sub wide_char)

lemma wide_compare:
  fixes c :: u16
  shows "(ucast c :: u32) = 0x20 \<longleftrightarrow> c = 0x20" "(ucast c :: u32) = 0x2E \<longleftrightarrow> c = 0x2E"
    "0x20 \<le> (ucast c :: u32) \<longleftrightarrow> 0x20 \<le> c" "(ucast c :: u32) < 128 \<longleftrightarrow> c < 128"
  by (simp_all add: word_le_nat_alt word_less_nat_alt word_unat_eq_iff wide_char)

lemma str_to_fat_step:
  assumes "read_u16 m ps = c" and "c \<noteq> 0" and "i < fat_size"
  shows "str_to_fat_from m fat_size fat i ps h =
    (if c = 0x20 \<or> c = 0x2E then str_to_fat_from m fat_size fat i (ps + 2) h
     else str_to_fat_from (write_bytes m (fat + i) [fst (fat_char c)]) fat_size fat (i + 1) (ps + 2) (h \<or> snd (fat_char c)))"
  using assms
  by (subst str_to_fat_from.simps)
    (simp only: Let_def fat_char_wide wide_compare, auto simp: fat_char_def Let_def wide_char)

lemma str_to_fat_from_correct:
  assumes "str_at m ps s" and "i \<le> fat_size" and "apart ps (2 * length s + 2) fat (unat fat_size)"
  defines "out \<equiv> take (unat fat_size - unat i) (fat_chars s)"
  shows "str_to_fat_from m fat_size fat i ps h =
    Some (write_bytes m (fat + i) (map fst out), i + of_nat (length out), h \<or> (\<exists>x \<in> set out. snd x))"
  using assms(1-3) unfolding out_def
proof (induction s arbitrary: m ps i h)
  case Nil
  then show ?case
    by (subst str_to_fat_from.simps) (simp add: write_bytes_def)
next
  case (Cons c s)
  have c: "read_u16 m ps = c" "c \<noteq> 0" "str_at m (ps + 2) s"
    using Cons.prems(1) by auto
  have ap: "apart (ps + 2) (2 * length s + 2) fat (unat fat_size)"
    using Cons.prems(3) unfolding apart_def by (auto simp: algebra_simps dest: spec [of _ "_ + 2"])
  show ?case
  proof (cases "i = fat_size")
    case True
    then show ?thesis
      by (subst str_to_fat_from.simps) (simp add: write_bytes_def)
  next
    case False
    then have lt: "i < fat_size"
      using Cons.prems(2) by simp
    show ?thesis
    proof (cases "c = 0x20 \<or> c = 0x2E")
      case True
      then show ?thesis
        using Cons.IH [OF c(3) Cons.prems(2) ap] str_to_fat_step [OF c(1,2) lt] by simp
    next
      case keep: False
      let ?m = "write_bytes m (fat + i) [fst (fat_char c)]"
      have i1: "unat (i + 1) = unat i + 1"
        using lt unat_u64_bound [of fat_size] by (subst unat_plus_less) (auto simp: word_less_nat_alt)
      have "ps + 2 + of_nat k \<noteq> fat + i" if "k < 2 * length s + 2" for k
        using that ap lt by (auto simp: apart_def word_less_nat_alt dest!: spec [of _ k])
      then have "?m (ps + 2 + of_nat k) = m (ps + 2 + of_nat k)" if "k < 2 * length s + 2" for k
        using that by (auto simp: write_bytes_def unat_eq_zero)
      then have "str_at ?m (ps + 2) s"
        using c(3) str_at_cong [of s ?m "ps + 2" m] by simp
      note IH = Cons.IH [OF this _ ap, of "i + 1"]
      obtain n where n: "unat fat_size - unat i = Suc n" "unat fat_size - unat (i + 1) = n" "n < 2 ^ 64 - 1"
        using lt i1 unat_u64_bound [of fat_size] by (cases "unat fat_size - unat i") (auto simp: word_less_nat_alt)
      have join: "write_bytes ?m (fat + (i + 1)) bs = write_bytes m (fat + i) (fst (fat_char c) # bs)" if "length bs \<le> n" for bs
        using that n(3) write_bytes_append [of "[fst (fat_char c)]" bs m "fat + i"] by (simp add: add.assoc)
      show ?thesis
        using IH i1 lt keep n str_to_fat_step [OF c(1,2) lt] join [of "map fst (take n (fat_chars s))"]
        by (simp add: word_le_nat_alt word_less_nat_alt disj_assoc algebra_simps)
    qed
  qed
qed

lemma str_to_fat_correct:
  assumes "str_at m p s" and "fat \<noteq> 0" and "apart p (2 * length s + 2) fat (unat fat_size)"
  defines "out \<equiv> take (unat fat_size) (fat_chars s)"
  shows "str_to_fat m p fat_size fat =
    Some (write_bytes m fat (map fst out @ (if length out < unat fat_size then [0] else [])), \<exists>x \<in> set out. snd x)"
proof -
  have len: "length out \<le> unat fat_size"
    by (simp add: out_def)
  then have u: "unat (of_nat (length out) :: u64) = length out"
    using unat_u64_bound [of fat_size] by (intro unat_of_nat_u64) simp
  have "write_bytes (write_bytes m fat (map fst out)) (fat + of_nat (length out)) [0] = write_bytes m fat (map fst out @ [0])"
    if "length out < unat fat_size"
    using that write_bytes_append [of "map fst out" "[0]" m fat] unat_u64_bound [of fat_size] by simp
  then show ?thesis
    using str_to_fat_from_correct [OF assms(1) _ assms(3), of 0 False] assms(2) str_at_not_null [OF assms(1)] u
    by (simp add: str_to_fat_def out_def [symmetric] word_less_nat_alt del: of_nat_unat)
qed

text \<open>The characters that \<open>fat_to_str\<close> stores, up to and including a zero.\<close>

fun copied :: "u8 list \<Rightarrow> u16 list" where
  "copied [] = []"
| "copied (b # bs) = (if b = 0 then [0] else ucast b # copied bs)"

lemma length_copied: "length (copied bs) \<le> length bs"
  by (induction bs) auto

lemma copied_takeWhile:
  "copied bs = map ucast (takeWhile (\<lambda>b. b \<noteq> 0) bs) @ (if 0 \<in> set bs then [0] else [])"
  by (induction bs) auto

lemma fat_to_str_from_correct:
  assumes "apart (fat + of_nat i) n (str + 2 * of_nat i) (2 * n)" and "2 * n < 2 ^ 64"
  shows "fat_to_str_from m fat str i n =
    write_bytes m (str + 2 * of_nat i) (char_bytes (copied (read_bytes m (fat + of_nat i) n)))"
  using assms
proof (induction n arbitrary: m i)
  case 0
  then show ?case
    by (simp add: read_bytes_def write_bytes_def)
next
  case (Suc n)
  let ?c = "m (fat + of_nat i)"
  let ?s = "str + 2 * of_nat i"
  let ?m = "write_u16 m ?s (ucast ?c)"
  have bs: "read_bytes m (fat + of_nat i) (Suc n) = ?c # read_bytes m (fat + of_nat (Suc i)) n"
    by (simp add: read_bytes_Suc algebra_simps)
  show ?case
  proof (cases "?c = 0")
    case True
    then show ?thesis
      unfolding bs by (simp add: write_u16_def)
  next
    case False
    have far: "2 * Suc n \<le> unat (fat + of_nat (Suc i) + of_nat k - ?s)" if "k < n" for k
      using that Suc.prems(1) by (auto simp: apart_def algebra_simps dest!: spec [of _ "Suc k"])
    have "apart (fat + of_nat (Suc i)) n (str + 2 * of_nat (Suc i)) (2 * n)"
      unfolding apart_def
    proof (intro allI impI)
      fix k
      assume "k < n"
      from far [OF this] unat_diff_ahead [of 2 "fat + of_nat (Suc i) + of_nat k" ?s]
      show "2 * n \<le> unat (fat + of_nat (Suc i) + of_nat k - (str + 2 * of_nat (Suc i)))"
        by (simp add: algebra_simps)
    qed
    moreover have "read_bytes ?m (fat + of_nat (Suc i)) n = read_bytes m (fat + of_nat (Suc i)) n"
      using far by (intro read_bytes_cong) (force simp: write_u16_def write_bytes_outside)
    ultimately have "fat_to_str_from ?m fat str (Suc i) n =
        write_bytes ?m (?s + 2) (char_bytes (copied (read_bytes m (fat + of_nat (Suc i)) n)))"
      using Suc.IH [of "Suc i" ?m] Suc.prems(2) by (simp add: algebra_simps)
    also have "\<dots> = write_bytes m ?s (char_bytes (ucast ?c # copied (read_bytes m (fat + of_nat (Suc i)) n)))"
      using Suc.prems(2) length_copied [of "read_bytes m (fat + of_nat (Suc i)) n"]
        write_bytes_append [of "le_bytes 2 (unat (ucast ?c :: u16))"
          "char_bytes (copied (read_bytes m (fat + of_nat (Suc i)) n))" m ?s]
      by (simp add: write_u16_def)
    finally show ?thesis
      using False by (simp add: bs Let_def)
  qed
qed

lemma takeWhile_stops: "x \<in> set xs \<Longrightarrow> length (takeWhile (\<lambda>y. y \<noteq> x) xs) < length xs"
  by (induction xs) auto

lemma fat_to_str_correct:
  assumes "fat \<noteq> 0" and "str \<noteq> 0" and "unat str + 2 * unat n + 2 \<le> 2 ^ 64"
    and "apart fat (unat n) str (2 * unat n + 2)"
  shows "str_at (fat_to_str m n fat str) str (map ucast (takeWhile (\<lambda>b. b \<noteq> 0) (read_bytes m fat (unat n))))"
proof -
  let ?bs = "read_bytes m fat (unat n)"
  let ?s = "map ucast (takeWhile (\<lambda>b. b \<noteq> 0) ?bs) :: u16 list"
  have "apart fat (unat n) str (2 * unat n)"
    using assms(4) by (force simp: apart_def)
  moreover have small: "2 * unat n + 2 < 2 ^ 64"
    using assms(2,3) unat_gt_0 [of str] by simp
  ultimately have from_0: "fat_to_str_from m fat str 0 (unat n) = write_bytes m str (char_bytes (copied ?bs))"
    using fat_to_str_from_correct [of fat 0 "unat n" str m] by simp
  have un: "unat (ucast b :: u16) = unat b" for b :: u8
    by (rule unat_ucast_widen) simp
  have s: "0 \<notin> set ?s" "length ?s \<le> unat n"
    using length_takeWhile_le [of "\<lambda>b. b \<noteq> 0" ?bs] un by (auto simp: word_unat_eq_iff dest: set_takeWhileD)
  note written = str_at_write [OF s(1) assms(2), of m]
  show ?thesis
  proof (cases "0 \<in> set ?bs")
    case True
    then have lt: "length ?s < unat n"
      using takeWhile_stops [of 0 ?bs] by simp
    have "str_at (write_bytes m str (char_bytes (copied ?bs))) str ?s"
      using True written assms(3) lt by (simp add: copied_takeWhile)
    moreover have "fat_to_str m n fat str (str + of_nat i) = write_bytes m str (char_bytes (copied ?bs)) (str + of_nat i)"
      if "i < 2 * length ?s + 2" for i
    proof -
      have "2 \<le> unat (str + of_nat i - (str + 2 * n))"
      proof (rule ccontr)
        let ?y = "str + of_nat i - (str + 2 * n)"
        assume "\<not> 2 \<le> unat ?y"
        then have y: "unat ?y < 2" by simp
        have "(of_nat i :: u64) = of_nat (2 * unat n + unat ?y)"
          by simp
        then have "i = 2 * unat n + unat ?y"
          using unat_of_nat_u64 [of i] unat_of_nat_u64 [of "2 * unat n + unat ?y"] that lt small y by simp
        then show False
          using that lt by simp
      qed
      then show ?thesis
        using assms(1,2) by (simp add: fat_to_str_def from_0 write_u16_def write_bytes_outside)
    qed
    ultimately show ?thesis
      using str_at_cong [of ?s "fat_to_str m n fat str" str "write_bytes m str (char_bytes (copied ?bs))"] by blast
  next
    case False
    then have all: "takeWhile (\<lambda>b. b \<noteq> 0) ?bs = ?bs"
      by (auto simp: takeWhile_eq_all_conv)
    have len: "copied ?bs = ?s" "length ?s = unat n"
      using False by (simp_all add: copied_takeWhile arg_cong [OF all, of length])
    have "fat_to_str m n fat str = write_bytes m str (char_bytes (?s @ [0]))"
      using assms(1,2) small len write_bytes_append [of "char_bytes ?s" "le_bytes 2 0" m str]
      by (simp add: fat_to_str_def from_0 write_u16_def char_bytes_append)
    then show ?thesis
      using written assms(3) len by simp
  qed
qed

lemma unat_narrow_char:
  fixes u :: u16
  shows "u < 128 \<Longrightarrow> unat (ucast u :: u8) = unat u"
  by (simp add: unsigned_ucast_eq take_bit_nat_eq_self_iff word_less_nat_alt)

lemma fat_char_not_zero: "fst (fat_char c) \<noteq> 0"
proof (cases "snd (fat_char c)")
  case True
  then show ?thesis by (auto simp: fat_char_def Let_def split: if_splits)
next
  case False
  then have "0x20 \<le> char_to_upper c" "char_to_upper c < 128" "fst (fat_char c) = ucast (char_to_upper c)"
    by (auto simp: fat_char_def Let_def split: if_splits)
  then have "unat (fst (fat_char c)) \<noteq> 0"
    using unat_narrow_char [of "char_to_upper c"] by (simp add: word_le_nat_alt)
  then show ?thesis by (metis unat_0)
qed

lemma fat_chars_not_zero: "x \<in> set (fat_chars s) \<Longrightarrow> fst x \<noteq> 0"
  by (induction s) (auto simp: fat_char_not_zero split: if_splits)

lemma fat_char_legal:
  assumes "\<not> snd (fat_char c)"
  shows "ucast (fst (fat_char c)) = char_to_upper c"
proof -
  have u: "char_to_upper c < 128" "fst (fat_char c) = ucast (char_to_upper c)"
    using assms by (auto simp: fat_char_def Let_def split: if_splits)
  have "unat (ucast (ucast (char_to_upper c) :: u8) :: u16) = unat (char_to_upper c)"
    using unat_narrow_char [OF u(1)] by (subst unat_ucast_widen) auto
  then show ?thesis
    unfolding u(2) by (rule word_unat_eq_iff [THEN iffD2])
qed

text \<open>Converting a string to a FAT name and back gives the characters that fit, in upper case and without
  spaces and periods, with an underscore for every character that a FAT name cannot have; the conversion reports
  exactly when there was one. When there was none, the result is the name in upper case.
\<close>

theorem fat_name_roundtrip:
  assumes str: "str_at m p s" and fat: "fat \<noteq> 0" "apart p (2 * length s + 2) fat (unat n)"
    and buf: "q \<noteq> 0" "unat q + 2 * unat n + 2 \<le> 2 ^ 64" "apart fat (unat n) q (2 * unat n + 2)"
  shows "\<exists>m' illegal. str_to_fat m p n fat = Some (m', illegal) \<and>
    (illegal \<longleftrightarrow> (\<exists>x \<in> set (take (unat n) (fat_chars s)). snd x)) \<and>
    str_at (fat_to_str m' n fat q) q (map (\<lambda>x. ucast (fst x)) (take (unat n) (fat_chars s))) \<and>
    (\<not> illegal \<longrightarrow>
      str_at (fat_to_str m' n fat q) q
        (take (unat n) (map char_to_upper (filter (\<lambda>c. c \<noteq> 0x20 \<and> c \<noteq> 0x2E) s))))"
proof -
  let ?out = "take (unat n) (fat_chars s)"
  let ?bytes = "map fst ?out @ (if length ?out < unat n then [0] else [])"
  let ?m = "write_bytes m fat ?bytes"
  have nz: "takeWhile (\<lambda>b. b \<noteq> 0) (map fst ?out @ r) = map fst ?out @ takeWhile (\<lambda>b. b \<noteq> 0) r" for r
  proof (rule takeWhile_append2)
    fix b
    assume "b \<in> set (map fst ?out)"
    then obtain x where x: "x \<in> set ?out" "b = fst x"
      unfolding set_map by blast
    show "b \<noteq> 0"
      using fat_chars_not_zero [OF in_set_takeD [OF x(1)]] x(2) by simp
  qed
  have len: "length ?bytes \<le> unat n" "length ?bytes \<le> 2 ^ 64"
    using unat_u64_bound [of n] by auto
  have "read_bytes ?m fat (unat n) = ?bytes @ read_bytes ?m (fat + of_nat (length ?bytes)) (unat n - length ?bytes)"
    using len read_bytes_append [of ?m fat "length ?bytes" "unat n - length ?bytes"] read_write_same [OF len(2), of m fat]
    by simp
  then have "takeWhile (\<lambda>b. b \<noteq> 0) (read_bytes ?m fat (unat n)) = map fst ?out"
    using nz [of "[]"] nz by (auto simp: min_def read_bytes_none split: if_splits)
  then have returned: "str_at (fat_to_str ?m n fat q) q (map (\<lambda>x. ucast (fst x)) ?out)"
    using fat_to_str_correct [OF fat(1) buf, of ?m] by (simp add: comp_def)
  have legal: "map (\<lambda>x. ucast (fst x)) ?out = take (unat n) (map char_to_upper (filter (\<lambda>c. c \<noteq> 0x20 \<and> c \<noteq> 0x2E) s))"
    if "\<not> (\<exists>x \<in> set ?out. snd x)"
    using that by (auto simp: fat_chars_def take_map fat_char_legal)
  show ?thesis
    by (intro exI conjI impI) (rule str_to_fat_correct [OF str fat], rule refl, rule returned, subst legal [symmetric],
      assumption, rule returned)
qed

theorem fat_name_roundtrip_witness:
  "\<exists>m'. str_to_fat sample_strings 0x1000 11 0x3000 = Some (m', False) \<and>
    str_at (fat_to_str m' 11 0x3000 0x4000) 0x4000 [0x47, 0x52, 0x55, 0x42, 0x45, 0x46, 0x49]"
proof -
  have s: "str_at sample_strings 0x1000 [0x47, 0x72, 0x75, 0x62, 0x2E, 0x45, 0x46, 0x49]"
    by (simp add: sample_strings_def write_bytes_def read_u16_bytes)
  have a: "apart 0x1000 (2 * length [0x47, 0x72, 0x75, 0x62, 0x2E, 0x45, 0x46, 0x49 :: u16] + 2) 0x3000 (unat (11 :: u64))"
    by (rule apart_below) simp_all
  have b: "apart 0x3000 (unat (11 :: u64)) 0x4000 (2 * unat (11 :: u64) + 2)"
    by (rule apart_below) simp_all
  have out: "take (unat (11 :: u64)) (fat_chars [0x47, 0x72, 0x75, 0x62, 0x2E, 0x45, 0x46, 0x49]) =
      [(0x47, False), (0x52, False), (0x55, False), (0x42, False), (0x45, False), (0x46, False), (0x49, False)]"
    by (simp add: fat_char_def char_to_upper_def fat_illegal_def)
  show ?thesis
    using fat_name_roundtrip [OF s _ a _ _ b] unfolding out by auto
qed

end
