(* ===== verification/Boot_Menu.thy ===== *)
theory Boot_Menu
  imports Block_Io Gpt Iso9660 File_Protocol Time_Base
    "HOL-Library.Monad_Syntax"
begin

text \<open>
  The boot menu, \<open>src/src/menu.rs\<close>: the entries, their discovery on the disks, and the loop that lets a user
  choose. What the functions draw is output and has no counterpart.

  The state of the firmware while it looks for something to boot is the record \<open>boot_world\<close>. The record
  \<open>firmware\<close> holds what does not change and is not code of these files: the drivers and the addresses of their
  devices, constants of the crate \<open>r_efi\<close>, addresses of functions, and entering an image.
\<close>

section \<open>State\<close>

text \<open>
  A USB disk is the device together with its controller; what they read is a block device. Reading changes
  nothing in them that a later read depends on.
\<close>

record usb_view =
  uv_slot :: u8
  uv_disk :: block_device

record boot_world =
  w_efi :: efi_state
  w_io :: block_io_state
  w_registry :: storage_registry
  w_global :: global_devices
  w_usb :: "usb_view option"
  w_sfs :: sfs_state

record pci_address =
  pci_device :: u8
  pci_function :: u8

record firmware =
  fw_efi :: r_efi
  fw_dp :: r_dp
  fw_functions :: block_io_functions
  fw_drivers :: drivers
  fw_sfs_guid :: guid
  fw_sfs_protocol :: u64
  fw_nvme_pci :: "nat \<Rightarrow> pci_address"
  fw_ahci_pci :: "nat \<Rightarrow> pci_address"
  fw_sdhci_pci :: "nat \<Rightarrow> pci_address"
  fw_usb_found :: "(nat \<times> u8) option"
  fw_usb_controller :: "nat \<Rightarrow> bool"
  fw_usb_open :: "nat \<Rightarrow> u8 \<Rightarrow> usb_view option"
  fw_usb_type :: "nat \<Rightarrow> string"
  fw_run :: "u64 \<Rightarrow> u64 \<Rightarrow> boot_world \<Rightarrow> boot_world \<times> efi_status"

text \<open>The drivers with the USB device that is stored globally.\<close>

definition drivers_of :: "firmware \<Rightarrow> boot_world \<Rightarrow> drivers" where
  "drivers_of fw w = (fw_drivers fw)\<lparr>usb_sector :=
     map_option (\<lambda>u lba buf. map_err (\<lambda>_. ()) (read_blocks (uv_disk u) lba 1 buf)) (w_usb w)\<rparr>"

abbreviation w_alloc :: "boot_world \<Rightarrow> memory_allocator" where
  "w_alloc w \<equiv> st_allocator (w_efi w)"

abbreviation w_mem :: "boot_world \<Rightarrow> memory" where
  "w_mem w \<equiv> st_memory (w_efi w)"

abbreviation w_db :: "boot_world \<Rightarrow> handle_db" where
  "w_db w \<equiv> st_handles (w_efi w)"

definition set_alloc :: "memory_allocator \<Rightarrow> boot_world \<Rightarrow> boot_world" where
  "set_alloc s w = w\<lparr>w_efi := (w_efi w)\<lparr>st_allocator := s\<rparr>\<rparr>"

definition set_heap :: "memory_allocator \<Rightarrow> memory \<Rightarrow> boot_world \<Rightarrow> boot_world" where
  "set_heap s m w = w\<lparr>w_efi := (w_efi w)\<lparr>st_allocator := s, st_memory := m\<rparr>\<rparr>"

definition set_db :: "handle_db \<Rightarrow> boot_world \<Rightarrow> boot_world" where
  "set_db db w = w\<lparr>w_efi := (w_efi w)\<lparr>st_handles := db\<rparr>\<rparr>"

section \<open>Entries\<close>

definition MAX_BOOT_ENTRIES :: nat where "MAX_BOOT_ENTRIES = 8"
definition DEFAULT_TIMEOUT_SECONDS :: u32 where "DEFAULT_TIMEOUT_SECONDS = 5"

datatype device_type =
  OnNvme nat u32 | OnAhci nat nat | OnUsb nat u8 | OnSdhci nat

fun description :: "device_type \<Rightarrow> string" where
  "description (OnNvme _ _) = ''NVMe''"
| "description (OnAhci _ _) = ''SATA''"
| "description (OnUsb _ _) = ''USB''"
| "description (OnSdhci _) = ''SD''"

record menu_entry =
  be_name :: string
  be_path :: "u8 list"
  be_device :: device_type
  be_partition_num :: u32
  be_partition :: gpt_partition
  be_pci :: pci_address

text \<open>\<open>push_str\<close> of a string with room for \<open>cap\<close> bytes appends all or nothing; the texts are ASCII.\<close>

definition push_str :: "nat \<Rightarrow> 'a list \<Rightarrow> 'a list \<Rightarrow> 'a list" where
  "push_str cap s t = (if length s + length t \<le> cap then s @ t else s)"

definition boot_entry_new ::
    "string \<Rightarrow> u8 list \<Rightarrow> device_type \<Rightarrow> u32 \<Rightarrow> gpt_partition \<Rightarrow> pci_address \<Rightarrow> menu_entry" where
  "boot_entry_new name path dev pnum part pci =
     \<lparr>be_name = push_str 64 [] name, be_path = push_str 128 [] path, be_device = dev, be_partition_num = pnum,
      be_partition = part, be_pci = pci\<rparr>"

fun decimal :: "nat \<Rightarrow> string" where
  "decimal n = (if n < 10 then [char_of (48 + n)] else decimal (n div 10) @ [char_of (48 + n mod 10)])"

declare decimal.simps [simp del]

text \<open>A formatted write stops at the first piece that does not fit.\<close>

fun write_pieces :: "nat \<Rightarrow> string \<Rightarrow> string list \<Rightarrow> string" where
  "write_pieces cap s [] = s"
| "write_pieces cap s (t # ts) = (if length s + length t \<le> cap then write_pieces cap (s @ t) ts else s)"

definition format_description :: "menu_entry \<Rightarrow> string" where
  "format_description e =
     write_pieces 128 [] [be_name e, '' ('', description (be_device e), '', partition '',
       decimal (unat (be_partition_num e)), '')'']"

record boot_menu =
  entries :: "menu_entry list"
  selected :: nat
  timeout_seconds :: u32

definition boot_menu_new :: boot_menu where
  "boot_menu_new = \<lparr>entries = [], selected = 0, timeout_seconds = DEFAULT_TIMEOUT_SECONDS\<rparr>"

definition add_entry :: "boot_menu \<Rightarrow> menu_entry \<Rightarrow> boot_menu \<times> bool" where
  "add_entry menu e =
     (if length (entries menu) < MAX_BOOT_ENTRIES then (menu\<lparr>entries := entries menu @ [e]\<rparr>, True)
      else (menu, False))"

definition entry_count :: "boot_menu \<Rightarrow> nat" where
  "entry_count menu = length (entries menu)"

definition get_entry :: "boot_menu \<Rightarrow> nat \<Rightarrow> menu_entry option" where
  "get_entry menu i = (if i < length (entries menu) then Some (entries menu ! i) else None)"

definition selected_entry :: "boot_menu \<Rightarrow> menu_entry option" where
  "selected_entry menu = get_entry menu (selected menu)"

definition select_previous :: "boot_menu \<Rightarrow> boot_menu" where
  "select_previous menu = (if selected menu > 0 then menu\<lparr>selected := selected menu - 1\<rparr> else menu)"

definition select_next :: "boot_menu \<Rightarrow> boot_menu" where
  "select_next menu = (if selected menu + 1 < length (entries menu) then menu\<lparr>selected := selected menu + 1\<rparr> else menu)"

definition set_timeout :: "boot_menu \<Rightarrow> u32 \<Rightarrow> boot_menu" where
  "set_timeout menu seconds = menu\<lparr>timeout_seconds := seconds\<rparr>"

section \<open>Discovery\<close>

text \<open>\<open>EFI\BOOT\BOOTX64.EFI\<close>\<close>

definition BOOT_PATH :: "u8 list" where
  "BOOT_PATH = [0x45, 0x46, 0x49, 0x5C, 0x42, 0x4F, 0x4F, 0x54, 0x5C, 0x42, 0x4F, 0x4F, 0x54, 0x58, 0x36, 0x34,
     0x2E, 0x45, 0x46, 0x49]"

definition is_potential_esp :: "gpt_partition \<Rightarrow> bool" where
  "is_potential_esp p =
     (let size_mb = size_bytes p div (1024 * 1024) in size_mb > 0 \<and> size_mb < 512 \<and> p_first_lba p > 0)"

text \<open>\<^const>\<open>None\<close> is a panic or a loop of the file system driver that does not end.\<close>

definition check_bootloader_exists :: "block_device \<Rightarrow> u64 \<Rightarrow> bool option" where
  "check_bootloader_exists disk pstart =
     (case fat_new disk pstart of
        None \<Rightarrow> None
      | Some (Inl _) \<Rightarrow> Some False
      | Some (Inr fat) \<Rightarrow>
          (case file_size_of_path fat BOOT_PATH of
             None \<Rightarrow> None
           | Some (Inl _) \<Rightarrow> Some False
           | Some (Inr sz) \<Rightarrow> Some (sz > 0)))"

text \<open>The partitions of a disk; the inner \<^const>\<open>None\<close> is an error of one of the two steps.\<close>

definition gpt_partitions :: "block_device \<Rightarrow> gpt_partition list option option" where
  "gpt_partitions disk =
     (case read_gpt_header disk of
        None \<Rightarrow> None
      | Some (Inl _) \<Rightarrow> Some None
      | Some (Inr header) \<Rightarrow>
          (case read_partitions disk header of
             None \<Rightarrow> None
           | Some (Inl _) \<Rightarrow> Some None
           | Some (Inr ps) \<Rightarrow> Some (Some ps)))"

text \<open>
  The loop over the partitions of a disk. The result says whether the menu was found full; the loop of the USB
  devices ignores that.
\<close>

fun add_bootable ::
    "block_device \<Rightarrow> (u32 \<Rightarrow> gpt_partition \<Rightarrow> menu_entry) \<Rightarrow> bool \<Rightarrow> nat \<Rightarrow> gpt_partition list \<Rightarrow> boot_menu \<Rightarrow>
     (boot_menu \<times> bool) option" where
  "add_bootable disk mk stop i [] menu = Some (menu, False)"
| "add_bootable disk mk stop i (p # ps) menu =
     (if p_is_esp p \<or> is_potential_esp p
      then do {
        found \<leftarrow> check_bootloader_exists disk (p_first_lba p);
        (if found
         then (case add_entry menu (mk (of_nat (i + 1)) p) of
                 (menu1, added) \<Rightarrow>
                   if \<not> added \<and> stop then Some (menu1, True) else add_bootable disk mk stop (i + 1) ps menu1)
         else add_bootable disk mk stop (i + 1) ps menu)
      }
      else add_bootable disk mk stop (i + 1) ps menu)"

definition default_namespace :: "nvme_controller \<Rightarrow> nvme_namespace option" where
  "default_namespace c = (case namespaces c of [] \<Rightarrow> None | ns # _ \<Rightarrow> Some ns)"

definition discover_nvme_entries :: "firmware \<Rightarrow> boot_world \<Rightarrow> boot_menu \<Rightarrow> (boot_world \<times> boot_menu) option" where
  "discover_nvme_entries fw w menu =
     (case Option.bind (get_controller (nvme_controllers (drivers_of fw w)) 0)
             (\<lambda>c. map_option (Pair c) (default_namespace c)) of
        None \<Rightarrow> Some (w, menu)
      | Some (c, ns) \<Rightarrow> do {
          (s, g, stored) \<leftarrow> nvme_store_global_device (w_alloc w) (w_global w) 0 (nsid ns);
          (let w1 = (set_alloc s w)\<lparr>w_global := g\<rparr>;
               disk = nvme_disk c (nsid ns)
           in if \<not> stored then Some (w1, menu)
              else do {
                r \<leftarrow> gpt_partitions disk;
                (case r of
                   None \<Rightarrow> Some (w1, menu)
                 | Some ps \<Rightarrow> do {
                     (menu1, _) \<leftarrow> add_bootable disk
                       (\<lambda>n p. boot_entry_new (''Boot Entry (NVMe ns'' @ decimal (unat (nsid ns)) @ '')'') BOOT_PATH
                          (OnNvme 0 (nsid ns)) n p (fw_nvme_pci fw 0)) True 0 ps menu;
                     Some (w1, menu1)
                   })
              })
        })"

text \<open>The image of a bootable CD is shown as a partition without a number.\<close>

definition iso_partition :: "efi_boot_image \<Rightarrow> u32 \<Rightarrow> gpt_partition" where
  "iso_partition img bsize =
     \<lparr>p_type_guid = replicate 16 0, p_partition_guid = replicate 16 0, p_first_lba = start_sector img,
      p_last_lba = start_sector img + ucast (boot_sector_count img) - 1, p_attributes = 0, p_is_esp = True,
      p_block_size = bsize\<rparr>"

definition discover_iso_entry :: "firmware \<Rightarrow> block_device \<Rightarrow> nat \<Rightarrow> boot_menu \<Rightarrow> (boot_menu \<times> bool) option" where
  "discover_iso_entry fw disk port menu =
     (case find_efi_boot_image disk of
        None \<Rightarrow> None
      | Some (Inl _) \<Rightarrow> Some (menu, False)
      | Some (Inr img) \<Rightarrow> do {
          found \<leftarrow> check_bootloader_exists disk (start_sector img);
          (if found
           then (case add_entry menu (boot_entry_new (''ISO Boot (SATA port '' @ decimal port @ '')'') BOOT_PATH
                        (OnAhci 0 port) 0 (iso_partition img (block_size (info disk))) (fw_ahci_pci fw 0)) of
                   (menu1, added) \<Rightarrow> Some (menu1, \<not> added))
           else Some (menu, False))
        })"

text \<open>One port of the controller: the table of partitions, or else a bootable CD.\<close>

definition discover_ahci_port ::
    "firmware \<Rightarrow> ahci_controller \<Rightarrow> nat \<Rightarrow> boot_world \<Rightarrow> boot_menu \<Rightarrow> (boot_world \<times> boot_menu \<times> bool) option" where
  "discover_ahci_port fw c port w menu = do {
     (s, g, stored) \<leftarrow> ahci_store_global_device (w_alloc w) (w_global w) 0 port;
     (let w1 = (set_alloc s w)\<lparr>w_global := g\<rparr>;
          disk = ahci_disk c port
      in if \<not> stored then Some (w1, menu, False)
         else do {
           r \<leftarrow> gpt_partitions disk;
           (menu1, full) \<leftarrow> (case r of
               Some ps \<Rightarrow> add_bootable disk
                 (\<lambda>n p. boot_entry_new (''Boot Entry (SATA port '' @ decimal port @ '')'') BOOT_PATH (OnAhci 0 port) n p
                    (fw_ahci_pci fw 0)) True 0 ps menu
             | None \<Rightarrow> discover_iso_entry fw disk port menu);
           Some (w1, menu1, full)
         })
   }"

fun discover_ahci_ports ::
    "firmware \<Rightarrow> ahci_controller \<Rightarrow> nat list \<Rightarrow> boot_world \<Rightarrow> boot_menu \<Rightarrow> (boot_world \<times> boot_menu) option" where
  "discover_ahci_ports fw c [] w menu = Some (w, menu)"
| "discover_ahci_ports fw c (port # ports) w menu = do {
     (w1, menu1, full) \<leftarrow> discover_ahci_port fw c port w menu;
     (if full then Some (w1, menu1) else discover_ahci_ports fw c ports w1 menu1)
   }"

definition discover_ahci_entries :: "firmware \<Rightarrow> boot_world \<Rightarrow> boot_menu \<Rightarrow> (boot_world \<times> boot_menu) option" where
  "discover_ahci_entries fw w menu =
     (case get_controller (ahci_controllers (drivers_of fw w)) 0 of
        None \<Rightarrow> Some (w, menu)
      | Some c \<Rightarrow> discover_ahci_ports fw c [0..<length (ahci_ports c)] w menu)"

text \<open>The device and the pointer to its controller are stored in a page of their own.\<close>

definition usb_store_global_device :: "usb_view \<Rightarrow> boot_world \<Rightarrow> (boot_world \<times> bool) option" where
  "usb_store_global_device u w = do {
     (s, mem) \<leftarrow> efi_allocate_pages (w_alloc w) 1;
     (case mem of
        Some _ \<Rightarrow> Some ((set_alloc s w)\<lparr>w_usb := Some u\<rparr>, True)
      | None \<Rightarrow> Some (set_alloc s w, False))
   }"

definition discover_usb_entries :: "firmware \<Rightarrow> boot_world \<Rightarrow> boot_menu \<Rightarrow> (boot_world \<times> boot_menu) option" where
  "discover_usb_entries fw w menu =
     (case fw_usb_found fw of
        None \<Rightarrow> Some (w, menu)
      | Some (cid, addr) \<Rightarrow>
          if \<not> fw_usb_controller fw cid then Some (w, menu)
          else
            (case fw_usb_open fw cid addr of
               None \<Rightarrow> Some (w, menu)
             | Some u \<Rightarrow> do {
                 (w1, stored) \<leftarrow> usb_store_global_device u w;
                 (if \<not> stored then Some (w1, menu)
                  else do {
                    r \<leftarrow> gpt_partitions (uv_disk u);
                    (case r of
                       None \<Rightarrow> Some (w1, menu)
                     | Some ps \<Rightarrow> do {
                         (menu1, _) \<leftarrow> add_bootable (uv_disk u)
                           (\<lambda>n p. boot_entry_new (write_pieces 64 [] [''Boot Entry ('', fw_usb_type fw cid, '' USB)'']) BOOT_PATH
                              (OnUsb cid addr) n p \<lparr>pci_device = 0, pci_function = 0\<rparr>) False 0 ps menu;
                         Some (w1, menu1)
                       })
                  })
               }))"

definition discover_sdhci_controller ::
    "firmware \<Rightarrow> nat \<Rightarrow> boot_world \<Rightarrow> boot_menu \<Rightarrow> (boot_world \<times> boot_menu \<times> bool) option" where
  "discover_sdhci_controller fw cid w menu =
     (case get_controller (sdhci_controllers (drivers_of fw w)) cid of
        None \<Rightarrow> Some (w, menu, False)
      | Some c \<Rightarrow>
          if \<not> (card_present c \<and> card_initialized c) then Some (w, menu, False)
          else do {
            (s, g, stored) \<leftarrow> sdhci_store_global_device (w_alloc w) (w_global w) cid;
            (let w1 = (set_alloc s w)\<lparr>w_global := g\<rparr>;
                 disk = sdhci_disk c
             in if \<not> stored then Some (w1, menu, False)
                else do {
                  r \<leftarrow> gpt_partitions disk;
                  (case r of
                     None \<Rightarrow> Some (w1, menu, False)
                   | Some ps \<Rightarrow> do {
                       (menu1, full) \<leftarrow> add_bootable disk
                         (\<lambda>n p. boot_entry_new ''Boot Entry (SD card)'' BOOT_PATH (OnSdhci cid) n p
                            (fw_sdhci_pci fw cid)) True 0 ps menu;
                       Some (w1, menu1, full)
                     })
                })
          })"

fun discover_sdhci_controllers ::
    "firmware \<Rightarrow> nat list \<Rightarrow> boot_world \<Rightarrow> boot_menu \<Rightarrow> (boot_world \<times> boot_menu) option" where
  "discover_sdhci_controllers fw [] w menu = Some (w, menu)"
| "discover_sdhci_controllers fw (cid # cids) w menu = do {
     (w1, menu1, full) \<leftarrow> discover_sdhci_controller fw cid w menu;
     (if full then Some (w1, menu1) else discover_sdhci_controllers fw cids w1 menu1)
   }"

definition discover_sdhci_entries :: "firmware \<Rightarrow> boot_world \<Rightarrow> boot_menu \<Rightarrow> (boot_world \<times> boot_menu) option" where
  "discover_sdhci_entries fw w menu =
     discover_sdhci_controllers fw [0..<length (sdhci_controllers (drivers_of fw w))] w menu"

definition discover_boot_entries :: "firmware \<Rightarrow> boot_world \<Rightarrow> (boot_world \<times> boot_menu) option" where
  "discover_boot_entries fw w = do {
     (w1, menu1) \<leftarrow> discover_nvme_entries fw w boot_menu_new;
     (w2, menu2) \<leftarrow> discover_ahci_entries fw w1 menu1;
     (w3, menu3) \<leftarrow> discover_usb_entries fw w2 menu2;
     discover_sdhci_entries fw w3 menu3
   }"

section \<open>Choosing an entry\<close>

datatype key_press = KeyUp | KeyDown | KeyEnter | KeyEscape | KeyChar u8

text \<open>
  The keyboard and the serial port are polled; the functions give the next state of the devices and what was
  there. \<^const>\<open>None\<close> is a delay that does not end.
\<close>

record 'i menu_input =
  try_read_key :: "'i \<Rightarrow> 'i \<times> (u16 \<times> u16) option"
  try_read_serial :: "'i \<Rightarrow> 'i \<times> u8 option"

definition key_of_scan :: "u16 \<Rightarrow> u16 \<Rightarrow> key_press option" where
  "key_of_scan scan_code unicode_char =
     (if scan_code = 0x01 then Some KeyUp
      else if scan_code = 0x02 then Some KeyDown
      else if scan_code = 0x17 then Some KeyEscape
      else if scan_code = 0 \<and> unicode_char = 0x0D then Some KeyEnter
      else if scan_code = 0 \<and> unicode_char > 0 then Some (KeyChar (ucast unicode_char))
      else None)"

definition read_key :: "'i menu_input \<Rightarrow> 'i \<Rightarrow> timer \<Rightarrow> ('i \<times> key_press option \<times> timer) option" where
  "read_key io i t =
     (case try_read_key io i of
        (i1, Some (scan_code, unicode_char)) \<Rightarrow> Some (i1, key_of_scan scan_code unicode_char, t)
      | (i1, None) \<Rightarrow>
          (case try_read_serial io i1 of
             (i2, None) \<Rightarrow> Some (i2, None, t)
           | (i2, Some byte) \<Rightarrow>
               if byte = 0x1B then do {
                 t1 \<leftarrow> delay_ms 10 t;
                 (case try_read_serial io i2 of
                    (i3, Some c) \<Rightarrow>
                      if c = 0x5B then
                        (case try_read_serial io i3 of
                           (i4, d) \<Rightarrow>
                             Some (i4, Some (if d = Some 0x41 then KeyUp else if d = Some 0x42 then KeyDown else KeyEscape), t1))
                      else Some (i3, Some KeyEscape, t1)
                  | (i3, None) \<Rightarrow> Some (i3, Some KeyEscape, t1))
               }
               else if byte = 0x0D \<or> byte = 0x0A then Some (i2, Some KeyEnter, t)
               else Some (i2, Some (KeyChar byte), t)))"

text \<open>The menu after a key, and whether the selection is made.\<close>

definition handle_key :: "boot_menu \<Rightarrow> key_press \<Rightarrow> boot_menu \<times> bool" where
  "handle_key menu key =
     (case key of
        KeyUp \<Rightarrow> (select_previous menu, False)
      | KeyDown \<Rightarrow> (select_next menu, False)
      | KeyEnter \<Rightarrow> (menu, True)
      | KeyEscape \<Rightarrow> (menu, False)
      | KeyChar c \<Rightarrow>
          if c = 0x6B then (select_previous menu, False)
          else if c = 0x6A then (select_next menu, False)
          else if 0x30 \<le> c \<and> c \<le> 0x39 then
            (let num = unat (c - 0x30)
             in if num > 0 \<and> num \<le> entry_count menu then (menu\<lparr>selected := num - 1\<rparr>, False) else (menu, False))
          else (menu, False))"

text \<open>The check at the head of the loop: what remains of the countdown, and whether it is over.\<close>

definition count_down :: "u32 \<Rightarrow> timeout \<Rightarrow> timer \<Rightarrow> u32 \<times> timeout \<times> timer \<times> bool" where
  "count_down remaining check t =
     (if remaining > 0 then
        (case is_expired check t of
           (expired, t1) \<Rightarrow>
             if expired then
               (case from_ms 1000 t1 of (check1, t2) \<Rightarrow> (remaining - 1, check1, t2, remaining - 1 = 0))
             else (remaining, check, t1, False))
      else (remaining, check, t, False))"

partial_function (option) menu_loop ::
    "'i menu_input \<Rightarrow> boot_menu \<Rightarrow> u32 \<Rightarrow> timeout \<Rightarrow> 'i \<Rightarrow> timer \<Rightarrow> (boot_menu \<times> 'i \<times> timer) option" where
  "menu_loop io menu remaining check i t =
     (case count_down remaining check t of
        (remaining1, check1, t1, over) \<Rightarrow>
          if over then Some (menu, i, t1)
          else Option.bind (read_key io i t1) (\<lambda>(i1, key, t2).
            case key of
              None \<Rightarrow> Option.bind (delay_ms 10 t2) (\<lambda>t3. menu_loop io menu remaining1 check1 i1 t3)
            | Some k \<Rightarrow>
                (case handle_key menu k of
                   (menu1, chosen) \<Rightarrow>
                     if chosen then Some (menu1, i1, t2)
                     else Option.bind (delay_ms 10 t2) (\<lambda>t3. menu_loop io menu1 (timeout_seconds menu) check1 i1 t3))))"

definition show_menu ::
    "'i menu_input \<Rightarrow> boot_menu \<Rightarrow> 'i \<Rightarrow> timer \<Rightarrow> (nat option \<times> boot_menu \<times> 'i \<times> timer) option" where
  "show_menu io menu i t =
     (if entry_count menu = 0 then Some (None, menu, i, t)
      else
        (case from_ms 0 t of
           (check, t1) \<Rightarrow>
             map_option (\<lambda>(menu1, i1, t2). (Some (selected menu1), menu1, i1, t2))
               (menu_loop io menu (timeout_seconds menu) check i t1)))"

end
