(* ===== verification/Boot_Flow.thy ===== *)
theory Boot_Flow
  imports Boot_Menu
begin

text \<open>
  Booting an entry, \<open>src/src/lib.rs\<close>: publishing a disk and its partitions as block devices, mounting the system
  partition, loading the boot loader and entering it. The four kinds of disks have functions of their own in the
  source that differ in the device paths and in what they register; they are instances of common definitions.

  \<^const>\<open>None\<close> is a panic, or a loop over a file system that does not end.
\<close>

section \<open>Steps\<close>

text \<open>The services of the firmware on the whole state.\<close>

definition new_handle :: "boot_world \<Rightarrow> boot_world \<times> u64 option" where
  "new_handle w = (case create_handle (w_db w) of (db, h) \<Rightarrow> (set_db db w, h))"

definition install :: "u64 \<Rightarrow> guid \<Rightarrow> u64 \<Rightarrow> boot_world \<Rightarrow> boot_world \<times> efi_status" where
  "install h g p w = (case install_protocol (w_db w) h g p of (db, status) \<Rightarrow> (set_db db w, status))"

definition make_path :: "(memory_allocator \<Rightarrow> memory \<Rightarrow> dp_result) \<Rightarrow> boot_world \<Rightarrow> (boot_world \<times> u64) option" where
  "make_path mk w = map_option (\<lambda>(s, m, p). (set_heap s m w, p)) (mk (w_alloc w) (w_mem w))"

definition make_block_io ::
    "(block_io_state \<Rightarrow> memory_allocator \<Rightarrow> memory \<Rightarrow> (block_io_state \<times> memory_allocator \<times> memory \<times> u64) may_panic) \<Rightarrow>
     boot_world \<Rightarrow> (boot_world \<times> u64) option" where
  "make_block_io mk w =
     map_option (\<lambda>(io, s, m, p). ((set_heap s m w)\<lparr>w_io := io\<rparr>, p)) (mk (w_io w) (w_alloc w) (w_mem w))"

definition register :: "storage_type \<Rightarrow> u64 \<Rightarrow> u32 \<Rightarrow> boot_world \<Rightarrow> boot_world \<times> u32 option" where
  "register ty nblocks bsize w =
     (case register_device (w_registry w) ty nblocks bsize of (reg, k) \<Rightarrow> (w\<lparr>w_registry := reg\<rparr>, k))"

definition BLOCK_IO_PROTOCOL_GUID :: guid where
  "BLOCK_IO_PROTOCOL_GUID = Guid 0x964e5b21 0x6459 0x11d2 0x8e 0x39 [0x00, 0xa0, 0xc9, 0x69, 0x72, 0x3b]"

definition FIRMWARE_HANDLE :: u64 where "FIRMWARE_HANDLE = 0xF1F1F1F1"

section \<open>Publishing a disk\<close>

text \<open>A block device on a handle of its own, with its device path. The status of an installation is only logged.\<close>

definition publish ::
    "firmware \<Rightarrow> u64 \<Rightarrow> (memory_allocator \<Rightarrow> memory \<Rightarrow> dp_result) \<Rightarrow> boot_world \<Rightarrow> boot_world option" where
  "publish fw block_io mk w =
     (if block_io = 0 then Some w
      else
        (case new_handle w of
           (w1, None) \<Rightarrow> Some w1
         | (w1, Some h) \<Rightarrow> do {
             let w2 = fst (install h BLOCK_IO_PROTOCOL_GUID block_io w1);
             (w3, path) \<leftarrow> make_path mk w2;
             Some (if path = 0 then w3 else fst (install h (r_device_path_guid (fw_efi fw)) path w3))
           }))"

definition publish_disk ::
    "firmware \<Rightarrow> (memory_allocator \<Rightarrow> memory \<Rightarrow> dp_result) \<Rightarrow> u32 \<Rightarrow> u64 \<Rightarrow> u32 \<Rightarrow> boot_world \<Rightarrow> boot_world option" where
  "publish_disk fw mk storage_id nblocks bsize w = do {
     (w1, block_io) \<leftarrow> make_block_io (\<lambda>io s m. create_disk_block_io (fw_functions fw) io s m storage_id nblocks bsize) w;
     publish fw block_io mk w1
   }"

type_synonym partition_path = "u32 \<Rightarrow> gpt_partition \<Rightarrow> memory_allocator \<Rightarrow> memory \<Rightarrow> dp_result"

definition publish_partition ::
    "firmware \<Rightarrow> partition_path \<Rightarrow> u32 \<Rightarrow> u32 \<Rightarrow> u32 \<Rightarrow> gpt_partition \<Rightarrow> boot_world \<Rightarrow> boot_world option" where
  "publish_partition fw mk storage_id bsize n p w = do {
     (w1, block_io) \<leftarrow> make_block_io
       (\<lambda>io s m. create_partition_block_io (fw_functions fw) io s m storage_id n (p_first_lba p) (size_sectors p) bsize) w;
     publish fw block_io (mk n p) w1
   }"

text \<open>The last partition of the type of a system partition, and up to eight others that may be one.\<close>

type_synonym esp_choice = "(u32 \<times> gpt_partition) option \<times> (u32 \<times> gpt_partition) list"

definition remember :: "u32 \<Rightarrow> gpt_partition \<Rightarrow> esp_choice \<Rightarrow> esp_choice" where
  "remember n p c =
     (if p_is_esp p then (Some (n, p), snd c)
      else
        (let size_mb = size_bytes p div (1024 * 1024)
         in if size_mb > 0 \<and> size_mb < 512 \<and> p_first_lba p > 0 then (fst c, vec_push_ignore 8 (snd c) (n, p)) else c))"

fun publish_partitions ::
    "firmware \<Rightarrow> partition_path \<Rightarrow> u32 \<Rightarrow> u32 \<Rightarrow> nat \<Rightarrow> gpt_partition list \<Rightarrow> esp_choice \<Rightarrow> boot_world \<Rightarrow>
     (boot_world \<times> esp_choice) option" where
  "publish_partitions fw mk storage_id bsize i [] c w = Some (w, c)"
| "publish_partitions fw mk storage_id bsize i (p # ps) c w = do {
     w1 \<leftarrow> publish_partition fw mk storage_id bsize (of_nat (i + 1)) p w;
     publish_partitions fw mk storage_id bsize (i + 1) ps (remember (of_nat (i + 1)) p c) w1
   }"

text \<open>
  Slices of this size are sorted by insertion, which keeps the order of equal keys. The function for SD cards has
  a loop of its own that exchanges elements.
\<close>

definition sort_partitions_by_size :: "(u32 \<times> gpt_partition) list \<Rightarrow> (u32 \<times> gpt_partition) list" where
  "sort_partitions_by_size = sort_key (\<lambda>c. size_bytes (snd c))"

definition exchange_at :: "('a \<Rightarrow> 'k::linorder) \<Rightarrow> nat \<Rightarrow> 'a list \<Rightarrow> nat \<Rightarrow> 'a list" where
  "exchange_at key i xs j = (if key (xs ! j) < key (xs ! i) then xs[i := xs ! j, j := xs ! i] else xs)"

definition exchange_from :: "('a \<Rightarrow> 'k::linorder) \<Rightarrow> 'a list \<Rightarrow> nat \<Rightarrow> 'a list" where
  "exchange_from key xs i = foldl (exchange_at key i) xs [i + 1..<length xs]"

definition exchange_sort :: "('a \<Rightarrow> 'k::linorder) \<Rightarrow> 'a list \<Rightarrow> 'a list" where
  "exchange_sort key xs = foldl (exchange_from key) xs [0..<length xs]"

definition choose_esp ::
    "((u32 \<times> gpt_partition) list \<Rightarrow> (u32 \<times> gpt_partition) list) \<Rightarrow> esp_choice \<Rightarrow> (u32 \<times> gpt_partition) option" where
  "choose_esp order c =
     (case fst c of
        Some e \<Rightarrow> Some e
      | None \<Rightarrow> (case order (snd c) of [] \<Rightarrow> None | e # _ \<Rightarrow> Some e))"

definition install_block_io ::
    "firmware \<Rightarrow> ((u32 \<times> gpt_partition) list \<Rightarrow> (u32 \<times> gpt_partition) list) \<Rightarrow>
     (memory_allocator \<Rightarrow> memory \<Rightarrow> dp_result) \<Rightarrow> partition_path \<Rightarrow> block_device \<Rightarrow> u32 \<Rightarrow> u32 \<Rightarrow> u64 \<Rightarrow> boot_world \<Rightarrow>
     (boot_world \<times> (u32 \<times> gpt_partition) option) option" where
  "install_block_io fw order disk_path part_path disk storage_id bsize nblocks w = do {
     w1 \<leftarrow> publish_disk fw disk_path storage_id nblocks bsize w;
     r \<leftarrow> gpt_partitions disk;
     (case r of
        None \<Rightarrow> Some (w1, None)
      | Some ps \<Rightarrow> do {
          (w2, c) \<leftarrow> publish_partitions fw part_path storage_id bsize 0 ps (None, []) w1;
          Some (w2, choose_esp order c)
        })
   }"

definition install_block_io_for_disk ::
    "firmware \<Rightarrow> block_device \<Rightarrow> u32 \<Rightarrow> u32 \<Rightarrow> u64 \<Rightarrow> pci_address \<Rightarrow> u8 \<Rightarrow> boot_world \<Rightarrow>
     (boot_world \<times> (u32 \<times> gpt_partition) option) option" where
  "install_block_io_for_disk fw disk storage_id bsize nblocks pci usb_port =
     install_block_io fw sort_partitions_by_size
       (\<lambda>s m. create_usb_device_path (fw_dp fw) s m (pci_device pci) (pci_function pci) usb_port)
       (\<lambda>n p s m. create_usb_partition_device_path (fw_dp fw) s m (pci_device pci) (pci_function pci) usb_port n
          (p_first_lba p) (size_sectors p) (p_partition_guid p))
       disk storage_id bsize nblocks"

definition install_block_io_for_nvme_disk ::
    "firmware \<Rightarrow> block_device \<Rightarrow> u32 \<Rightarrow> u32 \<Rightarrow> u64 \<Rightarrow> pci_address \<Rightarrow> u32 \<Rightarrow> boot_world \<Rightarrow>
     (boot_world \<times> (u32 \<times> gpt_partition) option) option" where
  "install_block_io_for_nvme_disk fw disk storage_id bsize nblocks pci namespace_id =
     install_block_io fw sort_partitions_by_size
       (\<lambda>s m. create_nvme_device_path (fw_dp fw) s m (pci_device pci) (pci_function pci) namespace_id)
       (\<lambda>n p s m. create_nvme_partition_device_path (fw_dp fw) s m (pci_device pci) (pci_function pci) namespace_id n
          (p_first_lba p) (size_sectors p) (p_partition_guid p))
       disk storage_id bsize nblocks"

definition install_block_io_for_ahci_disk ::
    "firmware \<Rightarrow> block_device \<Rightarrow> u32 \<Rightarrow> u32 \<Rightarrow> u64 \<Rightarrow> pci_address \<Rightarrow> u16 \<Rightarrow> boot_world \<Rightarrow>
     (boot_world \<times> (u32 \<times> gpt_partition) option) option" where
  "install_block_io_for_ahci_disk fw disk storage_id bsize nblocks pci port =
     install_block_io fw sort_partitions_by_size
       (\<lambda>s m. create_sata_device_path (fw_dp fw) s m (pci_device pci) (pci_function pci) port)
       (\<lambda>n p s m. create_sata_partition_device_path (fw_dp fw) s m (pci_device pci) (pci_function pci) port n
          (p_first_lba p) (size_sectors p) (p_partition_guid p))
       disk storage_id bsize nblocks"

definition install_block_io_for_sdhci_disk ::
    "firmware \<Rightarrow> block_device \<Rightarrow> u32 \<Rightarrow> u32 \<Rightarrow> u64 \<Rightarrow> pci_address \<Rightarrow> boot_world \<Rightarrow>
     (boot_world \<times> (u32 \<times> gpt_partition) option) option" where
  "install_block_io_for_sdhci_disk fw disk storage_id bsize nblocks pci =
     install_block_io fw (exchange_sort (\<lambda>c. size_bytes (snd c)))
       (\<lambda>s m. create_usb_device_path (fw_dp fw) s m (pci_device pci) (pci_function pci) 0)
       (\<lambda>n p s m. create_usb_partition_device_path (fw_dp fw) s m (pci_device pci) (pci_function pci) 0 n
          (p_first_lba p) (size_sectors p) (p_partition_guid p))
       disk storage_id bsize nblocks"

section \<open>Loading the boot loader\<close>

definition unload :: "loaded_image \<Rightarrow> boot_world \<Rightarrow> boot_world" where
  "unload img w = set_alloc (fst (unload_image (w_alloc w) img)) w"

definition release :: "u64 \<Rightarrow> boot_world \<Rightarrow> boot_world" where
  "release p w = set_alloc (fst (free_pool (w_alloc w) (w_mem w) p)) w"

text \<open>
  The file in a buffer of the pool, the image that is made from it and the release of the buffer. When reading
  fails, what was read so far is in a buffer that is released at once and is left out.
\<close>

definition load_bootloader ::
    "fat_filesystem \<Rightarrow> u8 list \<Rightarrow> u32 \<Rightarrow> boot_world \<Rightarrow> (boot_world \<times> loaded_image efi_result) option" where
  "load_bootloader fat path fsize w =
     (case allocate_pool (w_alloc w) (w_mem w) LoaderData (ucast fsize) of
        None \<Rightarrow> None
      | Some (s, m, Err _) \<Rightarrow> Some (set_heap s m w, Err OUT_OF_RESOURCES)
      | Some (s, m, Ok buf) \<Rightarrow>
          (case read_file_all fat path (read_bytes m buf (unat fsize)) of
             None \<Rightarrow> None
           | Some (Inl _) \<Rightarrow> Some (release buf (set_heap s m w), Err DEVICE_ERROR)
           | Some (Inr (n, bytes)) \<Rightarrow>
               (case load_image s (write_bytes m buf bytes) (take n bytes) of
                  None \<Rightarrow> None
                | Some (s1, m1, Err status) \<Rightarrow> Some (release buf (set_heap s1 m1 w), Err status)
                | Some (s1, m1, Ok img) \<Rightarrow> Some (release buf (set_heap s1 m1 w), Ok img))))"

text \<open>The handle of the image with its description; a failure to make a handle leaves the image loaded.\<close>

definition describe_image ::
    "firmware \<Rightarrow> loaded_image \<Rightarrow> u8 list \<Rightarrow> u64 \<Rightarrow> boot_world \<Rightarrow> (boot_world \<times> u64 efi_result) option" where
  "describe_image fw img path device_handle w =
     (case new_handle w of
        (w1, None) \<Rightarrow> Some (w1, Err OUT_OF_RESOURCES)
      | (w1, Some h) \<Rightarrow> do {
          (w2, protocol) \<leftarrow> make_path (\<lambda>s m. create_loaded_image_protocol (fw_efi fw) s m FIRMWARE_HANDLE device_handle
            (li_image_base img) (li_image_size img)) w1;
          (if protocol = 0 then Some (unload img w2, Err OUT_OF_RESOURCES)
           else do {
             (w3, file_path) \<leftarrow> make_path (\<lambda>s m. create_file_path_device_path (fw_dp fw) s m (map ucast path)) w2;
             let w4 = (if file_path = 0 then w3
                       else set_heap (w_alloc w3) (set_file_path (fw_efi fw) (w_mem w3) protocol file_path) w3);
             (case install h (r_loaded_image_guid (fw_efi fw)) protocol w4 of
                (w5, status) \<Rightarrow>
                  if status \<noteq> SUCCESS then Some (unload img w5, Err status) else Some (w5, Ok h))
           })
        })"

definition load_and_execute_bootloader ::
    "firmware \<Rightarrow> fat_filesystem \<Rightarrow> u8 list \<Rightarrow> u32 \<Rightarrow> u64 \<Rightarrow> boot_world \<Rightarrow> (boot_world \<times> unit efi_result) option" where
  "load_and_execute_bootloader fw fat path fsize device_handle w = do {
     (w1, r) \<leftarrow> load_bootloader fat path fsize w;
     (case r of
        Err status \<Rightarrow> Some (w1, Err status)
      | Ok img \<Rightarrow> do {
          (w2, r2) \<leftarrow> describe_image fw img path device_handle w1;
          (case r2 of
             Err status \<Rightarrow> Some (w2, Err status)
           | Ok h \<Rightarrow>
               (case fw_run fw (li_entry_point img) h w2 of
                  (w3, status) \<Rightarrow> Some (unload img w3, if status = SUCCESS then Ok () else Err status)))
        })
   }"

section \<open>Booting from a system partition\<close>

text \<open>
  The common part of the four functions: \<open>dev\<close> is the device behind the file system protocol, \<open>disk\<close> the disk that
  the boot loader is read from, \<open>reg\<close> what is registered as storage, when the driver has it.
\<close>

definition install_volume ::
    "firmware \<Rightarrow> (storage_type \<times> u64 \<times> u32) option \<Rightarrow> gpt_partition \<Rightarrow> u32 \<Rightarrow> u64 \<Rightarrow> boot_world \<Rightarrow> boot_world option" where
  "install_volume fw reg esp pnum h w =
     (case reg of
        None \<Rightarrow> Some w
      | Some (ty, nblocks, bsize) \<Rightarrow>
          (case register ty nblocks bsize w of
             (w1, None) \<Rightarrow> Some w1
           | (w1, Some storage_id) \<Rightarrow> do {
               (w2, block_io) \<leftarrow> make_block_io (\<lambda>io s m. create_partition_block_io (fw_functions fw) io s m storage_id pnum
                 (p_first_lba esp) (size_sectors esp) bsize) w1;
               Some (if block_io = 0 then w2 else fst (install h BLOCK_IO_PROTOCOL_GUID block_io w2))
             }))"

definition try_boot_from_esp ::
    "firmware \<Rightarrow> any_block_device \<Rightarrow> block_device \<Rightarrow> (storage_type \<times> u64 \<times> u32) option \<Rightarrow>
     (memory_allocator \<Rightarrow> memory \<Rightarrow> dp_result) \<Rightarrow> gpt_partition \<Rightarrow> u32 \<Rightarrow> boot_world \<Rightarrow> (boot_world \<times> bool) option" where
  "try_boot_from_esp fw dev disk reg mk esp pnum w = do {
     (sfs, mounted) \<leftarrow> sfs_init (dyn_device (drivers_of fw w) dev) (p_first_lba esp) (w_sfs w);
     let w1 = w\<lparr>w_sfs := sfs\<rparr>;
     (if \<not> mounted then Some (w1, False)
      else
        (case fat_new disk (p_first_lba esp) of
           None \<Rightarrow> None
         | Some (Inl _) \<Rightarrow> Some (w1, False)
         | Some (Inr fat) \<Rightarrow>
             (case new_handle w1 of
                (w2, None) \<Rightarrow> Some (w2, False)
              | (w2, Some h) \<Rightarrow> do {
                  (w3, path) \<leftarrow> make_path mk w2;
                  let w4 = (if path = 0 then w3 else fst (install h (r_device_path_guid (fw_efi fw)) path w3));
                  w5 \<leftarrow> install_volume fw reg esp pnum h w4;
                  (case install h (fw_sfs_guid fw) (fw_sfs_protocol fw) w5 of
                     (w6, status) \<Rightarrow>
                       if status \<noteq> SUCCESS then Some (w6, False)
                       else
                         (case file_size_of_path fat BOOT_PATH of
                            None \<Rightarrow> None
                          | Some (Inl _) \<Rightarrow> Some (w6, False)
                          | Some (Inr fsize) \<Rightarrow>
                              map_option (\<lambda>(w7, r). (w7, r = Ok ()))
                                (load_and_execute_bootloader fw fat BOOT_PATH fsize h w6)))
                })))
   }"

definition try_boot_from_esp_usb ::
    "firmware \<Rightarrow> block_device \<Rightarrow> gpt_partition \<Rightarrow> u32 \<Rightarrow> pci_address \<Rightarrow> u8 \<Rightarrow> boot_world \<Rightarrow> (boot_world \<times> bool) option" where
  "try_boot_from_esp_usb fw disk esp pnum pci usb_port w =
     (case w_usb w of
        None \<Rightarrow> Some (w, False)
      | Some u \<Rightarrow>
          (let nblocks = num_blocks (info (uv_disk u));
               bsize = block_size (info (uv_disk u))
           in try_boot_from_esp fw (Usb (usb_block_device_new 0 (uv_slot u) nblocks bsize 0)) disk
                (Some (UsbStorage (uv_slot u), nblocks, bsize))
                (\<lambda>s m. create_usb_partition_device_path (fw_dp fw) s m (pci_device pci) (pci_function pci) usb_port pnum
                   (p_first_lba esp) (size_sectors esp) (p_partition_guid esp))
                esp pnum w))"

definition try_boot_from_esp_nvme ::
    "firmware \<Rightarrow> block_device \<Rightarrow> gpt_partition \<Rightarrow> u32 \<Rightarrow> pci_address \<Rightarrow> u32 \<Rightarrow> boot_world \<Rightarrow> (boot_world \<times> bool) option" where
  "try_boot_from_esp_nvme fw disk esp pnum pci namespace_id w =
     try_boot_from_esp fw
       (Nvme (nvme_block_device_new 0 namespace_id (num_blocks (info disk)) (block_size (info disk)) 0)) disk
       (Option.bind (get_controller (nvme_controllers (drivers_of fw w)) 0) (\<lambda>c.
          map_option (\<lambda>ns. (NvmeStorage 0 namespace_id, ns_num_blocks ns, ns_block_size ns)) (default_namespace c)))
       (\<lambda>s m. create_nvme_partition_device_path (fw_dp fw) s m (pci_device pci) (pci_function pci) namespace_id pnum
          (p_first_lba esp) (size_sectors esp) (p_partition_guid esp))
       esp pnum w"

definition try_boot_from_esp_ahci ::
    "firmware \<Rightarrow> block_device \<Rightarrow> gpt_partition \<Rightarrow> u32 \<Rightarrow> pci_address \<Rightarrow> u16 \<Rightarrow> boot_world \<Rightarrow> (boot_world \<times> bool) option" where
  "try_boot_from_esp_ahci fw disk esp pnum pci port w =
     try_boot_from_esp fw
       (Ahci (ahci_block_device_new 0 (unat port) (num_blocks (info disk)) (block_size (info disk)) 0)) disk
       (Option.bind (get_controller (ahci_controllers (drivers_of fw w)) 0) (\<lambda>c.
          map_option (\<lambda>p. (AhciStorage 0 (unat port), sector_count p, sector_size p))
            (get_controller (ahci_ports c) (unat port))))
       (if pnum = 0
        then (\<lambda>s m. create_sata_cdrom_device_path (fw_dp fw) s m (pci_device pci) (pci_function pci) port 0
                (p_first_lba esp) (size_sectors esp))
        else (\<lambda>s m. create_sata_partition_device_path (fw_dp fw) s m (pci_device pci) (pci_function pci) port pnum
                (p_first_lba esp) (size_sectors esp) (p_partition_guid esp)))
       esp pnum w"

definition try_boot_from_esp_sdhci ::
    "firmware \<Rightarrow> block_device \<Rightarrow> gpt_partition \<Rightarrow> u32 \<Rightarrow> pci_address \<Rightarrow> boot_world \<Rightarrow> (boot_world \<times> bool) option" where
  "try_boot_from_esp_sdhci fw disk esp pnum pci w =
     try_boot_from_esp fw
       (Sdhci (sdhci_block_device_new 0 (num_blocks (info disk)) (block_size (info disk)) 0)) disk
       (map_option (\<lambda>c. (SdhciStorage 0, sd_num_blocks c, sd_block_size c))
          (get_controller (sdhci_controllers (drivers_of fw w)) 0))
       (\<lambda>s m. create_usb_partition_device_path (fw_dp fw) s m (pci_device pci) (pci_function pci) 0 pnum
          (p_first_lba esp) (size_sectors esp) (p_partition_guid esp))
       esp pnum w"

section \<open>Booting an entry\<close>

definition boot_nvme_entry :: "firmware \<Rightarrow> menu_entry \<Rightarrow> nat \<Rightarrow> u32 \<Rightarrow> boot_world \<Rightarrow> boot_world option" where
  "boot_nvme_entry fw e cid ns_id w = do {
     (s, g, stored) \<leftarrow> nvme_store_global_device (w_alloc w) (w_global w) cid ns_id;
     let w1 = (set_alloc s w)\<lparr>w_global := g\<rparr>;
     (if \<not> stored then Some w1
      else
        (case get_controller (nvme_controllers (drivers_of fw w1)) cid of
           None \<Rightarrow> Some w1
         | Some c \<Rightarrow>
             (case default_namespace c of
                None \<Rightarrow> Some w1
              | Some ns \<Rightarrow>
                  (case register (NvmeStorage cid ns_id) (ns_num_blocks ns) (ns_block_size ns) w1 of
                     (w2, None) \<Rightarrow> Some w2
                   | (w2, Some storage_id) \<Rightarrow> do {
                       (w3, _) \<leftarrow> install_block_io_for_nvme_disk fw (nvme_disk c ns_id) storage_id (ns_block_size ns)
                         (ns_num_blocks ns) (fw_nvme_pci fw cid) ns_id w2;
                       (w4, _) \<leftarrow> try_boot_from_esp_nvme fw (nvme_disk c ns_id) (be_partition e) (be_partition_num e)
                         (be_pci e) ns_id w3;
                       Some w4
                     }))))
   }"

definition boot_ahci_entry :: "firmware \<Rightarrow> menu_entry \<Rightarrow> nat \<Rightarrow> nat \<Rightarrow> boot_world \<Rightarrow> boot_world option" where
  "boot_ahci_entry fw e cid port w = do {
     (s, g, stored) \<leftarrow> ahci_store_global_device (w_alloc w) (w_global w) cid port;
     let w1 = (set_alloc s w)\<lparr>w_global := g\<rparr>;
     (if \<not> stored then Some w1
      else
        (case get_controller (ahci_controllers (drivers_of fw w1)) cid of
           None \<Rightarrow> Some w1
         | Some c \<Rightarrow>
             (case get_controller (ahci_ports c) port of
                None \<Rightarrow> Some w1
              | Some p \<Rightarrow>
                  (case register (AhciStorage cid port) (sector_count p) (sector_size p) w1 of
                     (w2, None) \<Rightarrow> Some w2
                   | (w2, Some storage_id) \<Rightarrow> do {
                       (w3, _) \<leftarrow> install_block_io_for_ahci_disk fw (ahci_disk c port) storage_id (sector_size p)
                         (sector_count p) (fw_ahci_pci fw cid) (of_nat port) w2;
                       (w4, _) \<leftarrow> try_boot_from_esp_ahci fw (ahci_disk c port) (be_partition e) (be_partition_num e)
                         (be_pci e) (of_nat port) w3;
                       Some w4
                     }))))
   }"

definition boot_usb_entry :: "firmware \<Rightarrow> menu_entry \<Rightarrow> nat \<Rightarrow> boot_world \<Rightarrow> boot_world option" where
  "boot_usb_entry fw e cid w =
     (if \<not> fw_usb_controller fw cid then Some w
      else
        (case w_usb w of
           None \<Rightarrow> Some w
         | Some u \<Rightarrow>
             (let nblocks = num_blocks (info (uv_disk u));
                  bsize = block_size (info (uv_disk u))
              in case register (UsbStorage 0) nblocks bsize w of
                   (w1, None) \<Rightarrow> Some w1
                 | (w1, Some storage_id) \<Rightarrow> do {
                     (w2, _) \<leftarrow> install_block_io_for_disk fw (uv_disk u) storage_id bsize nblocks (be_pci e) 0 w1;
                     (w3, _) \<leftarrow> try_boot_from_esp_usb fw (uv_disk u) (be_partition e) (be_partition_num e) (be_pci e) 0 w2;
                     Some w3
                   })))"

definition boot_sdhci_entry :: "firmware \<Rightarrow> menu_entry \<Rightarrow> nat \<Rightarrow> boot_world \<Rightarrow> boot_world option" where
  "boot_sdhci_entry fw e cid w = do {
     (s, g, stored) \<leftarrow> sdhci_store_global_device (w_alloc w) (w_global w) cid;
     let w1 = (set_alloc s w)\<lparr>w_global := g\<rparr>;
     (if \<not> stored then Some w1
      else
        (case get_controller (sdhci_controllers (drivers_of fw w1)) cid of
           None \<Rightarrow> Some w1
         | Some c \<Rightarrow>
             (case register (SdhciStorage cid) (sd_num_blocks c) (sd_block_size c) w1 of
                (w2, None) \<Rightarrow> Some w2
              | (w2, Some storage_id) \<Rightarrow> do {
                  (w3, _) \<leftarrow> install_block_io_for_sdhci_disk fw (sdhci_disk c) storage_id (sd_block_size c)
                    (sd_num_blocks c) (fw_sdhci_pci fw cid) w2;
                  (w4, _) \<leftarrow> try_boot_from_esp_sdhci fw (sdhci_disk c) (be_partition e) (be_partition_num e)
                    (be_pci e) w3;
                  Some w4
                })))
   }"

definition boot_selected_entry :: "firmware \<Rightarrow> menu_entry \<Rightarrow> boot_world \<Rightarrow> boot_world option" where
  "boot_selected_entry fw e =
     (case be_device e of
        OnNvme cid ns_id \<Rightarrow> boot_nvme_entry fw e cid ns_id
      | OnAhci cid port \<Rightarrow> boot_ahci_entry fw e cid port
      | OnUsb cid _ \<Rightarrow> boot_usb_entry fw e cid
      | OnSdhci cid \<Rightarrow> boot_sdhci_entry fw e cid)"

text \<open>The end of \<open>init_storage\<close>, once the drivers are there.\<close>

definition find_and_boot :: "firmware \<Rightarrow> 'i menu_input \<Rightarrow> 'i \<Rightarrow> timer \<Rightarrow> boot_world \<Rightarrow> boot_world option" where
  "find_and_boot fw io i t w = do {
     (w1, menu) \<leftarrow> discover_boot_entries fw w;
     (if entry_count menu = 0 then Some w1
      else do {
        (choice, menu1, _, _) \<leftarrow> show_menu io menu i t;
        (case Option.bind choice (get_entry menu1) of
           None \<Rightarrow> Some w1
         | Some e \<Rightarrow> boot_selected_entry fw e w1)
      })
   }"

end
