(* ===== verification/Flow_Sort.thy ===== *)
theory Flow_Sort
  imports Boot_Flow "HOL-Library.Multiset"
begin

text \<open>
  The loop in \<open>install_block_io_for_sdhci_disk\<close> that puts the smallest candidate first sorts the whole list.
\<close>

section \<open>The exchange sort\<close>

lemma exchange_at_effect:
  fixes key :: "'a \<Rightarrow> 'k::linorder"
  assumes "i < j" and "j < length xs"
  shows "length (exchange_at key i xs j) = length xs"
    "take i (exchange_at key i xs j) = take i xs"
    "mset (drop i (exchange_at key i xs j)) = mset (drop i xs)"
    "key (exchange_at key i xs j ! i) = min (key (xs ! i)) (key (xs ! j))"
    "key (exchange_at key i xs j ! i) \<le> key (exchange_at key i xs j ! j)"
    "\<And>k. i < k \<Longrightarrow> k \<noteq> j \<Longrightarrow> exchange_at key i xs j ! k = xs ! k"
proof -
  have "drop i (xs[i := xs ! j, j := xs ! i]) = (drop i xs)[0 := drop i xs ! (j - i), j - i := drop i xs ! 0]"
    using assms by (simp add: drop_update_swap)
  moreover have "mset ((drop i xs)[0 := drop i xs ! (j - i), j - i := drop i xs ! 0]) = mset (drop i xs)"
    using assms by (intro mset_swap) auto
  ultimately show "mset (drop i (exchange_at key i xs j)) = mset (drop i xs)"
    by (simp add: exchange_at_def)
qed (use assms in \<open>auto simp: exchange_at_def nth_list_update min_def\<close>)

lemma exchange_from_effect:
  fixes key :: "'a \<Rightarrow> 'k::linorder"
  assumes "j \<le> length xs" and "i < j"
  shows "length (foldl (exchange_at key i) xs [i + 1..<j]) = length xs \<and>
    take i (foldl (exchange_at key i) xs [i + 1..<j]) = take i xs \<and>
    mset (drop i (foldl (exchange_at key i) xs [i + 1..<j])) = mset (drop i xs) \<and>
    (\<forall>k. i < k \<and> k < j \<longrightarrow>
      key (foldl (exchange_at key i) xs [i + 1..<j] ! i) \<le> key (foldl (exchange_at key i) xs [i + 1..<j] ! k))"
  using assms
proof (induction j)
  case (Suc j)
  show ?case
  proof (cases "j = i")
    case False
    let ?ys = "foldl (exchange_at key i) xs [i + 1..<j]"
    have ij: "i < j" "[i + 1..<Suc j] = [i + 1..<j] @ [j]"
      using False Suc.prems by auto
    then have IH: "length ?ys = length xs" "take i ?ys = take i xs" "mset (drop i ?ys) = mset (drop i xs)"
        "\<And>k. i < k \<Longrightarrow> k < j \<Longrightarrow> key (?ys ! i) \<le> key (?ys ! k)"
      using Suc.IH Suc.prems by auto
    note eff = exchange_at_effect [where xs = ?ys and key = key, OF ij(1)]
    have "key (exchange_at key i ?ys j ! i) \<le> key (exchange_at key i ?ys j ! k)" if "i < k" "k < Suc j" for k
    proof (cases "k = j")
      case True
      then show ?thesis
        using eff(5) IH(1) Suc.prems by simp
    next
      case neq: False
      then show ?thesis
        using eff(4) eff(6) [of k] IH(1) IH(4) [of k] Suc.prems that by (simp add: min.coboundedI1)
    qed
    then show ?thesis
      using eff IH Suc.prems unfolding ij(2) by simp
  qed auto
qed simp

text \<open>The elements before position \<open>i\<close> are in order and not larger than what follows them.\<close>

lemma exchange_sort_steps:
  fixes key :: "'a \<Rightarrow> 'k::linorder"
  assumes "i \<le> length xs"
  shows "length (foldl (exchange_from key) xs [0..<i]) = length xs \<and>
    mset (foldl (exchange_from key) xs [0..<i]) = mset xs \<and>
    (\<forall>a b. a < i \<and> a < b \<and> b < length xs \<longrightarrow>
      key (foldl (exchange_from key) xs [0..<i] ! a) \<le> key (foldl (exchange_from key) xs [0..<i] ! b))"
  using assms
proof (induction i)
  case (Suc i)
  let ?ys = "foldl (exchange_from key) xs [0..<i]"
  let ?zs = "exchange_from key ?ys i"
  have IH: "length ?ys = length xs" "mset ?ys = mset xs"
      "\<And>a b. a < i \<Longrightarrow> a < b \<Longrightarrow> b < length xs \<Longrightarrow> key (?ys ! a) \<le> key (?ys ! b)"
    using Suc.IH Suc.prems by auto
  have z: "length ?zs = length xs" "take i ?zs = take i ?ys" "mset (drop i ?zs) = mset (drop i ?ys)"
      "\<And>k. i < k \<Longrightarrow> k < length xs \<Longrightarrow> key (?zs ! i) \<le> key (?zs ! k)"
    using exchange_from_effect [of "length xs" ?ys i key] IH(1) Suc.prems by (auto simp: exchange_from_def)
  have "mset ?zs = mset (take i ?zs) + mset (drop i ?zs)"
    by (metis append_take_drop_id mset_append)
  also have "\<dots> = mset (take i ?ys) + mset (drop i ?ys)"
    using z(2,3) by simp
  also have "\<dots> = mset ?ys"
    by (metis append_take_drop_id mset_append)
  finally have "mset ?zs = mset xs"
    using IH(2) by simp
  moreover have "key (?zs ! a) \<le> key (?zs ! b)" if "a < Suc i" "a < b" "b < length xs" for a b
  proof (cases "a = i")
    case True
    then show ?thesis
      using z(4) that by simp
  next
    case False
    then have a: "a < i" "?zs ! a = ?ys ! a"
      using that arg_cong [OF z(2), of "\<lambda>l. l ! a"] z(1) IH(1) by auto
    show ?thesis
    proof (cases "b < i")
      case True
      then show ?thesis
        using a IH(3) [of a b] that arg_cong [OF z(2), of "\<lambda>l. l ! b"] by simp
    next
      case False
      then have "drop i ?zs ! (b - i) = ?zs ! b"
        using that z(1) by simp
      moreover have "drop i ?zs ! (b - i) \<in> set (drop i ?zs)"
        using False that z(1) by (intro nth_mem) simp
      ultimately have "?zs ! b \<in> set (drop i ?ys)"
        using z(3) by (metis set_mset_mset)
      then obtain m where m: "m < length (drop i ?ys)" "drop i ?ys ! m = ?zs ! b"
        by (auto simp only: in_set_conv_nth)
      then have "i + m < length xs" "?ys ! (i + m) = ?zs ! b"
        using IH(1) Suc.prems by auto
      then show ?thesis
        using a IH(3) [of a "i + m"] by simp
    qed
  qed
  ultimately show ?case
    using z(1) by simp
qed simp

lemma exchange_sort_sorts:
  fixes key :: "'a \<Rightarrow> 'k::linorder"
  shows "mset (exchange_sort key xs) = mset xs" "sorted (map key (exchange_sort key xs))"
  using exchange_sort_steps [of "length xs" xs key]
  by (auto simp: exchange_sort_def sorted_iff_nth_mono_less)

end
