(* ===== verification/Flow_Correct.thy ===== *)
theory Flow_Correct
  imports Flow_Sort Block_Io_Props Boot_Props Device_Path_Props
begin

text \<open>
  What publishing a disk does to the state. The view of it is \<open>volumes\<close>: the handles that carry the block I/O
  protocol, with the part of a disk each of them stands for. The locale \<open>heap_user\<close> is the contract of the
  functions that put a structure into the pool.
\<close>

section \<open>The choice of a system partition\<close>

definition numbered :: "nat \<Rightarrow> gpt_partition list \<Rightarrow> (u32 \<times> gpt_partition) list" where
  "numbered i ps = map (\<lambda>k. (of_nat (i + k + 1), ps ! k)) [0..<length ps]"

lemma numbered_Cons: "numbered i (p # ps) = (of_nat (i + 1), p) # numbered (i + 1) ps"
  by (simp add: numbered_def upt_conv_Cons map_Suc_upt [symmetric] del: upt_Suc)

lemma numbered_Nil: "numbered i [] = []"
  by (simp add: numbered_def)

definition esps :: "(u32 \<times> gpt_partition) list \<Rightarrow> (u32 \<times> gpt_partition) list" where
  "esps nps = filter (\<lambda>e. p_is_esp (snd e)) nps"

definition candidates :: "(u32 \<times> gpt_partition) list \<Rightarrow> (u32 \<times> gpt_partition) list" where
  "candidates nps = take 8 (filter (\<lambda>e. \<not> p_is_esp (snd e) \<and> is_potential_esp (snd e)) nps)"

definition chosen_esp :: "(u32 \<times> gpt_partition) list \<Rightarrow> (u32 \<times> gpt_partition) option \<Rightarrow> bool" where
  "chosen_esp nps e \<longleftrightarrow>
     (if esps nps \<noteq> [] then e = Some (last (esps nps))
      else
        (case e of
           None \<Rightarrow> candidates nps = []
         | Some x \<Rightarrow> x \<in> set (candidates nps) \<and> (\<forall>y \<in> set (candidates nps). size_bytes (snd x) \<le> size_bytes (snd y))))"

lemma remember_eq:
  "remember n p c =
    (if p_is_esp p then (Some (n, p), snd c)
     else if is_potential_esp p then (fst c, vec_push_ignore 8 (snd c) (n, p)) else c)"
  by (simp add: remember_def is_potential_esp_def Let_def)

definition remember_all :: "esp_choice \<Rightarrow> (u32 \<times> gpt_partition) list \<Rightarrow> esp_choice" where
  "remember_all c nps = foldl (\<lambda>c e. remember (fst e) (snd e) c) c nps"

lemma remember_all_simps [simp]:
  "remember_all c [] = c" "remember_all c (e # nps) = remember_all (remember (fst e) (snd e) c) nps"
  by (simp_all add: remember_all_def)

lemma remember_all_eq:
  assumes "length (snd c) \<le> 8"
  shows "remember_all c nps =
    ((if esps nps = [] then fst c else Some (last (esps nps))),
     take 8 (snd c @ filter (\<lambda>e. \<not> p_is_esp (snd e) \<and> is_potential_esp (snd e)) nps))"
  using assms
proof (induction nps arbitrary: c)
  case Nil
  then show ?case
    by (simp add: esps_def)
next
  case (Cons e nps)
  have "length (snd (remember (fst e) (snd e) c)) \<le> 8"
    using Cons.prems by (auto simp: remember_eq vec_push_ignore_def vec_push_def)
  from Cons.IH [OF this] show ?case
    using Cons.prems by (auto simp: remember_eq esps_def vec_push_ignore_def vec_push_def take_Cons')
qed

lemma publish_partitions_choice:
  "publish_partitions fw mk k b i ps c w = Some (w', c') \<Longrightarrow> c' = remember_all c (numbered i ps)"
proof (induction ps arbitrary: i c w)
  case Nil
  then show ?case
    by (simp add: numbered_Nil)
next
  case (Cons p ps)
  then obtain w1 where "publish_partitions fw mk k b (i + 1) ps (remember (of_nat (i + 1)) p c) w1 = Some (w', c')"
    by (auto simp: bind_eq_Some_conv)
  from Cons.IH [OF this] show ?case
    by (simp add: numbered_Cons)
qed

text \<open>Both ways to put the smallest candidate first.\<close>

definition orders_by_size :: "((u32 \<times> gpt_partition) list \<Rightarrow> (u32 \<times> gpt_partition) list) \<Rightarrow> bool" where
  "orders_by_size order \<longleftrightarrow>
     (\<forall>xs. mset (order xs) = mset xs \<and> sorted (map (\<lambda>c. size_bytes (snd c)) (order xs)))"

lemma library_sort_orders: "orders_by_size sort_partitions_by_size"
  by (simp add: orders_by_size_def sort_partitions_by_size_def)

lemma exchange_sort_orders: "orders_by_size (exchange_sort (\<lambda>c. size_bytes (snd c)))"
  by (simp add: orders_by_size_def exchange_sort_sorts)

lemma choose_esp_correct:
  assumes "orders_by_size order"
  shows "chosen_esp nps (choose_esp order (remember_all (None, []) nps))"
proof (cases "esps nps = []")
  case True
  let ?cs = "candidates nps"
  have "mset (order ?cs) = mset ?cs" and srt: "sorted (map (\<lambda>c. size_bytes (snd c)) (order ?cs))"
    using assms by (simp_all add: orders_by_size_def)
  then have set: "set (order ?cs) = set ?cs"
    by (intro mset_eq_setD)
  have fold: "remember_all (None, []) nps = (None, ?cs)"
    using True by (simp add: remember_all_eq candidates_def)
  show ?thesis
  proof (cases "order ?cs")
    case Nil
    then show ?thesis
      using True set by (simp add: chosen_esp_def fold choose_esp_def)
  next
    case (Cons x xs)
    have "size_bytes (snd x) \<le> size_bytes (snd y)" if "y \<in> set ?cs" for y
      using that set srt by (auto simp: Cons)
    then show ?thesis
      using True set by (auto simp: chosen_esp_def fold choose_esp_def Cons)
  qed
next
  case False
  then show ?thesis
    by (simp add: chosen_esp_def remember_all_eq choose_esp_def)
qed

section \<open>Structures in the pool\<close>

text \<open>Memory that was in use keeps its bytes and stays in use.\<close>

definition heap_grows :: "memory_allocator \<Rightarrow> memory \<Rightarrow> memory_allocator \<Rightarrow> memory \<Rightarrow> bool" where
  "heap_grows s m s' m' \<longleftrightarrow> alloc_inv s' \<and> (\<forall>x. \<not> free_at s x \<longrightarrow> m' x = m x \<and> \<not> free_at s' x)"

lemma heap_grows_refl: "alloc_inv s \<Longrightarrow> heap_grows s m s m"
  by (simp add: heap_grows_def)

lemma heap_grows_trans: "heap_grows s m s' m' \<Longrightarrow> heap_grows s' m' s'' m'' \<Longrightarrow> heap_grows s m s'' m''"
  by (simp add: heap_grows_def)

locale heap_user =
  fixes mk :: "memory_allocator \<Rightarrow> memory \<Rightarrow> dp_result"
  assumes returns: "alloc_inv s \<Longrightarrow> \<exists>s' m' p. mk s m = Some (s', m', p) \<and> heap_grows s m s' m'"

lemma allocate_protocol_grows:
  assumes "length bs < 2 ^ 32"
  shows "heap_user (\<lambda>s m. allocate_protocol s m (length bs) bs)"
proof
  fix s m
  assume "alloc_inv s"
  from allocate_protocol_effect [OF this assms, of m]
  show "\<exists>s' m' p. allocate_protocol s m (length bs) bs = Some (s', m', p) \<and> heap_grows s m s' m'"
    by (auto simp: heap_grows_def)
qed

lemma place_path_eq: "place_path s m bs = allocate_protocol s m (length bs) bs"
proof -
  have "write_bytes (write_bytes m' p (replicate (length bs) 0)) p bs = write_bytes m' p bs" for m' p
    by (auto simp: write_bytes_def)
  then show ?thesis
    by (simp add: allocate_protocol_def place_path_def split: option.split sum.split)
qed

lemma place_path_grows: "length bs < 2 ^ 32 \<Longrightarrow> heap_user (\<lambda>s m. place_path s m bs)"
  unfolding place_path_eq by (rule allocate_protocol_grows)

lemma device_path_lengths:
  assumes "r_dp_ok r"
  shows "length (create_end_node r) = 4" "length (create_hard_drive_node r n a b g) = 26 + length g"
    "length (acpi_bytes (acpi_node_new u)) = 12" "length (pci_bytes (pci_node_new d f)) = 6"
    "length (usb_bytes (usb_node_new q i)) = 6" "length (nvme_bytes (nvme_node_new ns)) = 16"
    "length (sata_bytes (sata_node_new port)) = 10" "length (cdrom_bytes (cdrom_node_new r en a b)) = 24"
  using assms
  by (simp_all add: dp_struct_defs r_dp_ok_def header_bytes_of_def create_end_node_def create_hard_drive_node_def
      length_field_def)

text \<open>Every device path of a disk, of a partition or of a bootable image on a CD is such a structure.\<close>

lemma disk_path_users:
  assumes "r_dp_ok r"
  shows "heap_user (\<lambda>s m. create_usb_device_path r s m d f q)"
    "heap_user (\<lambda>s m. create_nvme_device_path r s m d f ns)"
    "heap_user (\<lambda>s m. create_sata_device_path r s m d f port)"
    "heap_user (\<lambda>s m. create_sata_cdrom_device_path r s m d f port en a b)"
  by (simp_all add: create_usb_device_path_def create_nvme_device_path_def create_sata_device_path_def
      create_sata_cdrom_device_path_def place_path_grows device_path_lengths [OF assms])

lemma partition_path_users:
  assumes "r_dp_ok r" and "length g \<le> 16"
  shows "heap_user (\<lambda>s m. create_usb_partition_device_path r s m d f q n a b g)"
    "heap_user (\<lambda>s m. create_nvme_partition_device_path r s m d f ns n a b g)"
    "heap_user (\<lambda>s m. create_sata_partition_device_path r s m d f port n a b g)"
  using assms(2)
  by (simp_all add: create_usb_partition_device_path_def create_nvme_partition_device_path_def
      create_sata_partition_device_path_def place_path_grows device_path_lengths [OF assms(1)])

lemma x64_dp_ok: "r_dp_ok x64_dp"
  by (simp add: r_dp_ok_def x64_dp_def)

interpretation usb_path: heap_user "\<lambda>s m. create_usb_device_path x64_dp s m d f q" for d f q
  by (rule disk_path_users(1) [OF x64_dp_ok])

section \<open>Identifiers of partitions\<close>

definition guids_ok :: "gpt_partition list \<Rightarrow> bool" where
  "guids_ok ps \<longleftrightarrow> (\<forall>p \<in> set ps. length (p_partition_guid p) \<le> 16)"

lemma process_entry_guids:
  assumes "gpt_entry_of bs = Some e" and "guids_ok (parts s)"
  shows "case process_entry bsize e s of Inl s' \<Rightarrow> guids_ok (parts s') | Inr s' \<Rightarrow> guids_ok (parts s')"
proof -
  have "length (partition_guid e) \<le> 16"
    using assms(1) by (auto simp: gpt_entry_of_def slice_def split: if_splits)
  then show ?thesis
    using assms(2) by (auto simp: process_entry_def guids_ok_def Let_def vec_push_def partition_of_def)
qed

lemma block_entries_guids:
  "block_entries bsize esize n buf pos s = (s', pos', stop) \<Longrightarrow> guids_ok (parts s) \<Longrightarrow> guids_ok (parts s')"
proof (induction bsize esize n buf pos s rule: block_entries.induct)
  case (1 bsize esize n buf pos s)
  show ?case
  proof (cases "pos + esize \<le> bsize \<and> entry_index s < n")
    case False
    with "1.prems" show ?thesis
      by (subst (asm) block_entries.simps) auto
  next
    case True
    show ?thesis
    proof (cases "gpt_entry_of (drop pos buf)")
      case None
      with True "1.prems" show ?thesis
        by (subst (asm) block_entries.simps) simp
    next
      case (Some e)
      note g = process_entry_guids [OF Some "1.prems"(2), of bsize]
      show ?thesis
      proof (cases "process_entry bsize e s")
        case (Inl s1)
        with True Some "1.prems" g show ?thesis
          by (subst (asm) block_entries.simps) simp
      next
        case (Inr s1)
        have "block_entries bsize esize n buf (pos + esize) (advance esize s1) = (s', pos', stop)"
          using True Some Inr "1.prems"(1) by (subst (asm) block_entries.simps) simp
        moreover have "guids_ok (parts (advance esize s1))"
          using g Inr by (simp add: advance_def)
        ultimately show ?thesis
          using "1.IH" [OF True Some Inr] by blast
      qed
    qed
  qed
qed

lemma read_entries_guids: "read_entries dev h buf s = Some (Inr s') \<Longrightarrow> guids_ok (parts s) \<Longrightarrow> guids_ok (parts s')"
proof (induction dev h buf s rule: read_entries.induct)
  case (1 dev h buf s)
  let ?b = "scan_block_size dev" and ?z = "unat (partition_entry_size h)" and ?n = "unat (num_partition_entries h)"
  let ?cur = "(entries_byte_offset dev h + bytes_read s) mod 2 ^ 64"
  show ?case
  proof (cases "bytes_read s < ?n * ?z")
    case False
    with "1.prems" show ?thesis
      by (subst (asm) read_entries.simps) (simp add: Let_def)
  next
    case True
    show ?thesis
    proof (cases "read_block_at dev (of_nat (?cur div ?b)) 0 ?b buf")
      case None
      with True "1.prems" show ?thesis
        by (subst (asm) read_entries.simps) (simp add: Let_def)
    next
      case (Some r)
      show ?thesis
      proof (cases r)
        case (Inl e)
        with True Some "1.prems" show ?thesis
          by (subst (asm) read_entries.simps) (auto simp: Let_def split: if_splits)
      next
        case (Inr buf')
        obtain s1 pos stop where b: "block_entries ?b ?z ?n buf' (?cur mod ?b) s = (s1, pos, stop)"
          by (cases "block_entries ?b ?z ?n buf' (?cur mod ?b) s")
        note g = block_entries_guids [OF b "1.prems"(2)]
        show ?thesis
        proof (cases stop)
          case stop: True
          then have "s' = s1"
            using True Some Inr b "1.prems"(1) by (subst (asm) read_entries.simps) (simp add: Let_def)
          then show ?thesis
            using g by simp
        next
          case go: False
          have "read_entries dev h buf' (skip_block ?b (?cur mod ?b) pos s1) = Some (Inr s')"
            using True Some Inr b go "1.prems"(1) by (subst (asm) read_entries.simps) (simp add: Let_def)
          moreover have "guids_ok (parts (skip_block ?b (?cur mod ?b) pos s1))"
            using g by (simp add: skip_block_def)
          ultimately show ?thesis
            using "1.IH" [OF refl refl refl True refl refl Some Inr b [symmetric] refl go] by blast
        qed
      qed
    qed
  qed
qed

lemma gpt_partitions_guids: "gpt_partitions disk = Some (Some ps) \<Longrightarrow> guids_ok ps"
  using read_entries_guids [of disk _ _ "\<lparr>parts = [], entry_index = 0, consecutive_empty = 0, bytes_read = 0\<rparr>"]
  by (auto simp: gpt_partitions_def read_partitions_def and_then_Ok_iff guids_ok_def split: option.splits sum.splits if_splits)

section \<open>Volumes\<close>

definition volumes :: "boot_world \<Rightarrow> u64 \<rightharpoonup> block_io_context" where
  "volumes w h = Option.bind (hdb_lookup (w_db w) (h, BLOCK_IO_PROTOCOL_GUID)) (instance_of (w_io w))"

text \<open>Every block I/O protocol in the database is an instance of the table.\<close>

definition world_ok :: "boot_world \<Rightarrow> bool" where
  "world_ok w \<longleftrightarrow> alloc_inv (w_alloc w) \<and> io_ok (w_alloc w) (w_io w) \<and> hdb_inv (w_db w) \<and> registry_ok (w_registry w) \<and>
     (\<forall>h p. hdb_lookup (w_db w) (h, BLOCK_IO_PROTOCOL_GUID) = Some p \<longrightarrow> instance_of (w_io w) p \<noteq> None)"

definition grows :: "boot_world \<Rightarrow> boot_world \<Rightarrow> bool" where
  "grows w w' \<longleftrightarrow> world_ok w' \<and> heap_grows (w_alloc w) (w_mem w) (w_alloc w') (w_mem w') \<and>
     w_global w' = w_global w \<and> w_usb w' = w_usb w \<and> w_sfs w' = w_sfs w \<and>
     hdb_lookup (w_db w) \<subseteq>\<^sub>m hdb_lookup (w_db w') \<and> known_handles (w_db w) \<subseteq> known_handles (w_db w') \<and>
     get_device (w_registry w) \<subseteq>\<^sub>m get_device (w_registry w') \<and> volumes w \<subseteq>\<^sub>m volumes w'"

lemma grows_refl: "world_ok w \<Longrightarrow> grows w w"
  by (simp add: grows_def world_ok_def heap_grows_refl)

lemma grows_trans: "grows w w' \<Longrightarrow> grows w' w'' \<Longrightarrow> grows w w''"
  unfolding grows_def
  by (intro conjI; elim conjE) (assumption | erule (1) heap_grows_trans | erule (1) map_le_trans | simp | blast)+

lemma grows_ok: "grows w w' \<Longrightarrow> world_ok w'"
  by (simp add: grows_def)

lemma world_simps [simp]:
  "w_efi (set_db db w) = (w_efi w)\<lparr>st_handles := db\<rparr>" "w_io (set_db db w) = w_io w"
  "w_registry (set_db db w) = w_registry w" "w_global (set_db db w) = w_global w" "w_usb (set_db db w) = w_usb w"
  "w_sfs (set_db db w) = w_sfs w"
  "w_efi (set_heap s m w) = (w_efi w)\<lparr>st_allocator := s, st_memory := m\<rparr>" "w_io (set_heap s m w) = w_io w"
  "w_registry (set_heap s m w) = w_registry w" "w_global (set_heap s m w) = w_global w" "w_usb (set_heap s m w) = w_usb w"
  "w_sfs (set_heap s m w) = w_sfs w"
  "w_efi (set_alloc s w) = (w_efi w)\<lparr>st_allocator := s\<rparr>" "w_io (set_alloc s w) = w_io w"
  "w_registry (set_alloc s w) = w_registry w" "w_global (set_alloc s w) = w_global w" "w_usb (set_alloc s w) = w_usb w"
  "w_sfs (set_alloc s w) = w_sfs w"
  by (simp_all add: set_db_def set_heap_def set_alloc_def)

lemma lookup_known: "hdb_inv db \<Longrightarrow> hdb_lookup db (h, g) = Some p \<Longrightarrow> h \<in> known_handles db"
  by (auto simp: hdb_lookup_def known_handles_def dest!: find_SomeD split: option.splits)

lemma volumes_cong: "hdb_lookup (w_db w') = hdb_lookup (w_db w) \<Longrightarrow> w_io w' = w_io w \<Longrightarrow> volumes w' = volumes w"
  by (simp add: volumes_def fun_eq_iff)

lemma io_ok_heap: "io_ok s st \<Longrightarrow> heap_grows s m s' m' \<Longrightarrow> io_ok s' st"
  by (auto simp: io_ok_def heap_grows_def)

text \<open>A structure in the pool.\<close>

context heap_user
begin

lemma make_path_grows:
  assumes "world_ok w"
  shows "\<exists>w' p. make_path mk w = Some (w', p) \<and> grows w w' \<and> w_db w' = w_db w \<and> w_io w' = w_io w \<and>
    w_registry w' = w_registry w"
proof -
  obtain s m p where mk: "mk (w_alloc w) (w_mem w) = Some (s, m, p)" and g: "heap_grows (w_alloc w) (w_mem w) s m"
    using returns [of "w_alloc w" "w_mem w"] assms by (auto simp: world_ok_def)
  then have "grows w (set_heap s m w)"
    using assms io_ok_heap [OF _ g] volumes_cong [of "set_heap s m w" w]
    by (auto simp: grows_def world_ok_def heap_grows_def)
  then show ?thesis
    using mk by (simp add: make_path_def)
qed

end

text \<open>A new handle, and a protocol on a handle.\<close>

lemma new_handle_cases:
  assumes w: "world_ok w"
  obtains (err) "new_handle w = (w, None)" "length (handles (w_db w)) = MAX_HANDLES"
  | (ok) w' h where "new_handle w = (w', Some h)" "grows w w'" "h \<noteq> 0" "h \<notin> known_handles (w_db w)"
      "known_handles (w_db w') = insert h (known_handles (w_db w))" "hdb_lookup (w_db w') = hdb_lookup (w_db w)"
      "w' = set_db (w_db w') w"
proof -
  have inv: "hdb_inv (w_db w)"
    using w by (simp add: world_ok_def)
  show ?thesis
  proof (cases rule: create_handle_cases [OF inv])
    case 1
    then show ?thesis
      using err by (simp add: new_handle_def set_db_def)
  next
    case (2 db' h)
    have "grows w (set_db db' w)"
      using 2 w volumes_cong [of "set_db db' w" w] by (auto simp: grows_def world_ok_def heap_grows_refl)
    then show ?thesis
      using 2 ok [of "set_db db' w" h] by (simp add: new_handle_def)
  qed
qed

lemma position_snoc: "\<forall>x \<in> set xs. \<not> P x \<Longrightarrow> P y \<Longrightarrow> position P (xs @ [y]) = Some (length xs)"
  by (induction xs) auto

text \<open>A handle that was just made takes every protocol.\<close>

lemma fresh_install:
  assumes w: "world_ok w" and new: "new_handle w = (w', Some h)" and run: "install h g p w' = (w'', status)"
  shows "status = SUCCESS"
proof -
  let ?e = "\<lparr>entry_handle = h, entry_protocols = []\<rparr>"
  have db: "w' = set_db (w_db w') w" "handles (w_db w') = handles (w_db w) @ [?e]" "h = next_handle (w_db w)"
    using new by (auto simp: new_handle_def create_handle_def split: if_splits)
  have "h \<notin> known_handles (w_db w)"
  proof (cases rule: new_handle_cases [OF w])
    case (2 v k)
    then show ?thesis
      using new by simp
  qed (use new in simp)
  then have "position (\<lambda>e. entry_handle e = h) (handles (w_db w')) = Some (length (handles (w_db w)))"
    unfolding db(2) by (intro position_snoc) (auto simp: known_handles_def)
  then show ?thesis
    using run unfolding install_def install_protocol_def db(2)
    by (auto simp: add_protocol_def MAX_PROTOCOLS_PER_HANDLE_def)
qed

lemma install_grows:
  assumes ok: "world_ok w" and g: "g = BLOCK_IO_PROTOCOL_GUID \<Longrightarrow> instance_of (w_io w) p \<noteq> None"
    and h: "h \<in> known_handles (w_db w)" and run: "install h g p w = (w', status)"
  shows "grows w w' \<and> w' = set_db (w_db w') w \<and> known_handles (w_db w') = known_handles (w_db w) \<and>
    (status = SUCCESS \<longrightarrow> hdb_lookup (w_db w) (h, g) = None \<and> hdb_lookup (w_db w') = (hdb_lookup (w_db w))((h, g) \<mapsto> p)) \<and>
    (status \<noteq> SUCCESS \<longrightarrow> w' = w)"
proof -
  have inv: "hdb_inv (w_db w)"
    using ok by (simp add: world_ok_def)
  show ?thesis
  proof (cases rule: install_protocol_cases [OF inv, of h g p])
    case (1 st)
    then show ?thesis
      using run grows_refl [OF ok] by (auto simp: install_def set_db_def)
  next
    case (2 db')
    have w': "w' = set_db db' w" "status = SUCCESS"
      using 2 run by (auto simp: install_def)
    have le: "hdb_lookup (w_db w) \<subseteq>\<^sub>m hdb_lookup db'"
      using 2 by (auto simp: map_le_def)
    moreover have "volumes w \<subseteq>\<^sub>m volumes w'"
      using le by (auto simp: map_le_def volumes_def w' bind_eq_Some_conv) force
    moreover have "world_ok w'"
      using 2 ok g by (auto simp: world_ok_def w' split: if_splits)
    ultimately show ?thesis
      using 2 ok by (auto simp: grows_def w' heap_grows_refl world_ok_def)
  qed
qed

text \<open>A new instance of the block I/O protocol that no handle has yet.\<close>

lemma instance_used:
  assumes "io_ok s st" and "instance_of st p \<noteq> None"
  shows "\<not> free_at s p"
proof -
  obtain i where "position (\<lambda>q. q = Some p) (PROTOCOL_TO_CONTEXT st) = Some i"
    using assms(2) by (auto simp: instance_of_def find_context_index_def split: bind_splits)
  from position_SomeD [OF this] have "Some p \<in> set (PROTOCOL_TO_CONTEXT st)"
    using nth_mem [of i "PROTOCOL_TO_CONTEXT st"] by simp
  then show ?thesis
    using assms(1) by (simp add: io_ok_def)
qed

definition context_of :: "u32 \<Rightarrow> u32 \<Rightarrow> u64 \<Rightarrow> u64 \<Rightarrow> u32 \<Rightarrow> block_io_context" where
  "context_of dev mid start n b =
     \<lparr>ctx_media_id = mid, ctx_storage_device_id = dev, ctx_start_lba = start, ctx_num_blocks = n, ctx_block_size = b\<rparr>"

lemma make_block_io_effect:
  fixes dev mid :: u32 and start n :: u64 and b :: u32
  assumes w: "world_ok w"
  shows "\<exists>w' p. make_block_io (\<lambda>io s m. create_block_io_internal fns io s m dev mid start n b part) w = Some (w', p) \<and>
    grows w w' \<and> w_db w' = w_db w \<and> w_registry w' = w_registry w \<and> volumes w' = volumes w \<and>
    (p \<noteq> 0 \<longrightarrow> instance_of (w_io w') p = Some (context_of dev mid start n b) \<and> (\<forall>h. hdb_lookup (w_db w) (h, BLOCK_IO_PROTOCOL_GUID) \<noteq> Some p))"
proof -
  have inv: "alloc_inv (w_alloc w)" and io: "io_ok (w_alloc w) (w_io w)"
    and bound: "\<And>h p. hdb_lookup (w_db w) (h, BLOCK_IO_PROTOCOL_GUID) = Some p \<Longrightarrow> instance_of (w_io w) p \<noteq> None"
    using w by (auto simp: world_ok_def)
  obtain st' s' m' p where run: "create_block_io_internal fns (w_io w) (w_alloc w) (w_mem w) dev mid start n b part = Some (st', s', m', p)"
    and eff: "alloc_inv s'" "io_ok s' st'" "\<And>x. \<not> free_at (w_alloc w) x \<Longrightarrow> m' x = w_mem w x \<and> \<not> free_at s' x"
    and p: "p = 0 \<and> st' = w_io w \<or> free_at (w_alloc w) p \<and> instance_of st' = (instance_of (w_io w))(p \<mapsto> context_of dev mid start n b)"
    using create_block_io_correct [OF inv io, of fns "w_mem w" dev mid start n b part] unfolding context_of_def by blast
  let ?w = "(set_heap s' m' w)\<lparr>w_io := st'\<rparr>"
  have hp: "heap_grows (w_alloc w) (w_mem w) s' m'"
    using eff by (simp add: heap_grows_def)
  have other: "instance_of st' q = instance_of (w_io w) q" if "hdb_lookup (w_db w) (h, BLOCK_IO_PROTOCOL_GUID) = Some q" for h q
    using p bound [OF that] instance_used [OF io] by auto
  then have vol: "volumes ?w = volumes w"
    by (auto simp: volumes_def fun_eq_iff split: bind_splits)
  have "grows w ?w"
    using w hp eff bound other vol by (auto simp: grows_def world_ok_def)
  moreover have "instance_of st' p = Some (context_of dev mid start n b) \<and> (\<forall>h. hdb_lookup (w_db w) (h, BLOCK_IO_PROTOCOL_GUID) \<noteq> Some p)" if "p \<noteq> 0"
    using p that bound instance_used [OF io] by auto
  ultimately show ?thesis
    using run vol by (simp add: make_block_io_def)
qed

context heap_user
begin

lemma publish_effect:
  assumes w: "world_ok w" and guid: "r_device_path_guid (fw_efi fw) \<noteq> BLOCK_IO_PROTOCOL_GUID"
    and p: "p \<noteq> 0 \<Longrightarrow> instance_of (w_io w) p = Some ctx"
  shows "\<exists>w'. publish fw p mk w = Some w' \<and> grows w w' \<and> w_registry w' = w_registry w \<and>
    (volumes w' = volumes w \<and> (p = 0 \<or> length (handles (w_db w)) = MAX_HANDLES) \<or>
     (\<exists>h. h \<notin> known_handles (w_db w) \<and> volumes w' = (volumes w)(h \<mapsto> ctx)))"
proof (cases "p = 0")
  case True
  then show ?thesis
    using grows_refl [OF w] by (simp add: publish_def)
next
  case False
  show ?thesis
  proof (cases rule: new_handle_cases [OF w])
    case 1
    then show ?thesis
      using False grows_refl [OF w] by (simp add: publish_def)
  next
    case (2 w1 h)
    have inst: "instance_of (w_io w1) p = Some ctx"
      using p [OF False] 2(7) by (metis world_simps(2))
    obtain w2 st where i2: "install h BLOCK_IO_PROTOCOL_GUID p w1 = (w2, st)"
      by fastforce
    have none: "hdb_lookup (w_db w1) (h, g) = None" for g
      using 2 lookup_known [of "w_db w" h g] w by (cases "hdb_lookup (w_db w1) (h, g)") (auto simp: world_ok_def)
    have known: "h \<in> known_handles (w_db w1)"
      using 2 by simp
    have g2: "grows w1 w2" and known2: "h \<in> known_handles (w_db w2)" and w2: "w2 = set_db (w_db w2) w1"
      and look2: "hdb_lookup (w_db w2) = (hdb_lookup (w_db w1))((h, BLOCK_IO_PROTOCOL_GUID) \<mapsto> p)"
      using install_grows [OF grows_ok [OF 2(2)] _ known i2] inst known fresh_install [OF w 2(1) i2] by auto
    obtain w3 path where m3: "make_path mk w2 = Some (w3, path)" and g3: "grows w2 w3" "w_db w3 = w_db w2" "w_io w3 = w_io w2"
        "w_registry w3 = w_registry w2"
      using make_path_grows [OF grows_ok [OF g2]] by blast
    obtain w4 st4 where i4: "install h (r_device_path_guid (fw_efi fw)) path w3 = (w4, st4)"
      by fastforce
    have g4: "grows w3 w4" and w4: "w4 = set_db (w_db w4) w3"
      and look4: "hdb_lookup (w_db w4) (x, BLOCK_IO_PROTOCOL_GUID) = hdb_lookup (w_db w3) (x, BLOCK_IO_PROTOCOL_GUID)" for x
      using install_grows [OF grows_ok [OF g3(1)] _ _ i4] guid known2 g3(2) by auto
    define w' where "w' = (if path = 0 then w3 else w4)"
    have run: "publish fw p mk w = Some w'"
      using False 2(1) i2 m3 i4 by (simp add: publish_def w'_def)
    have "grows w w'"
      using grows_trans [OF grows_trans [OF grows_trans [OF 2(2) g2] g3(1)] g4]
        grows_trans [OF grows_trans [OF 2(2) g2] g3(1)] by (simp add: w'_def)
    moreover have io: "w_io w' = w_io w" "w_registry w' = w_registry w"
      using 2(7) w2 g3 w4 unfolding w'_def by (metis world_simps(2,3))+
    moreover have "volumes w' = (volumes w)(h \<mapsto> ctx)"
    proof
      fix x
      have "hdb_lookup (w_db w') (x, BLOCK_IO_PROTOCOL_GUID) =
          (if x = h then Some p else hdb_lookup (w_db w) (x, BLOCK_IO_PROTOCOL_GUID))"
        using look4 [of x] g3(2) look2 2(6) by (auto simp: w'_def)
      then show "volumes w' x = ((volumes w)(h \<mapsto> ctx)) x"
        using p [OF False] by (simp add: volumes_def io)
    qed
    ultimately show ?thesis
      using run 2(4) by blast
  qed
qed

end

section \<open>A disk and its partitions\<close>

text \<open>
  What is published: the disk, and each of its partitions. A partition is missing only when its instance could not
  be made or no handle was left.
\<close>

definition disk_context :: "u32 \<Rightarrow> u64 \<Rightarrow> u32 \<Rightarrow> block_io_context" where
  "disk_context dev n b = context_of dev 0 0 n b"

definition partition_context :: "u32 \<Rightarrow> u32 \<Rightarrow> u32 \<times> gpt_partition \<Rightarrow> block_io_context" where
  "partition_context dev b e = context_of dev (fst e) (p_first_lba (snd e)) (size_sectors (snd e)) b"

definition exhausted :: "block_io_functions \<Rightarrow> bool \<Rightarrow> block_io_context \<Rightarrow> boot_world \<Rightarrow> bool" where
  "exhausted fns part ctx w \<longleftrightarrow> length (handles (w_db w)) = MAX_HANDLES \<or>
     (\<exists>io s m. create_block_io_internal fns (w_io w) (w_alloc w) (w_mem w) (ctx_storage_device_id ctx) (ctx_media_id ctx)
       (ctx_start_lba ctx) (ctx_num_blocks ctx) (ctx_block_size ctx) part = Some (io, s, m, 0))"

text \<open>From \<open>w\<close> to \<open>w'\<close> only volumes of \<open>C\<close> are added, and all of them unless something ran out.\<close>

definition published :: "block_io_functions \<Rightarrow> bool \<Rightarrow> block_io_context set \<Rightarrow> boot_world \<Rightarrow> boot_world \<Rightarrow> bool" where
  "published fns part C w w' \<longleftrightarrow> grows w w' \<and> w_registry w' = w_registry w \<and>
     (\<forall>h ctx. volumes w' h = Some ctx \<longrightarrow> volumes w h = Some ctx \<or> h \<notin> known_handles (w_db w) \<and> ctx \<in> C) \<and>
     (\<forall>ctx \<in> C. (\<exists>h. h \<notin> known_handles (w_db w) \<and> volumes w' h = Some ctx) \<or>
        (\<exists>v. grows w v \<and> grows v w' \<and> exhausted fns part ctx v))"

context heap_user
begin

lemma publish_context:
  assumes w: "world_ok w" and guid: "r_device_path_guid (fw_efi fw) \<noteq> BLOCK_IO_PROTOCOL_GUID"
    and ctx: "ctx = context_of dev mid start n b"
  shows "\<exists>w'. Option.bind (make_block_io (\<lambda>io s m. create_block_io_internal (fw_functions fw) io s m dev mid start n b part) w)
      (\<lambda>(w1, p). publish fw p mk w1) = Some w' \<and> published (fw_functions fw) part {ctx} w w'"
proof -
  let ?mk = "\<lambda>io s m. create_block_io_internal (fw_functions fw) io s m dev mid start n b part"
  obtain w1 p where m1: "make_block_io ?mk w = Some (w1, p)" and g1: "grows w w1" "w_db w1 = w_db w"
      "w_registry w1 = w_registry w" "volumes w1 = volumes w" and p: "p \<noteq> 0 \<Longrightarrow> instance_of (w_io w1) p = Some ctx"
    using make_block_io_effect [OF w, of "fw_functions fw" dev mid start n b part] unfolding ctx by blast
  obtain w' where pub: "publish fw p mk w1 = Some w'" "grows w1 w'" "w_registry w' = w_registry w1"
      and vol: "volumes w' = volumes w1 \<and> (p = 0 \<or> length (handles (w_db w1)) = MAX_HANDLES) \<or>
        (\<exists>h. h \<notin> known_handles (w_db w1) \<and> volumes w' = (volumes w1)(h \<mapsto> ctx))"
    using publish_effect [OF grows_ok [OF g1(1)] guid p] by blast
  have "grows w w'"
    using grows_trans [OF g1(1) pub(2)] .
  moreover have "volumes w' h = Some c \<Longrightarrow> volumes w h = Some c \<or> h \<notin> known_handles (w_db w) \<and> c = ctx" for h c
    using vol g1(2,4) by (auto split: if_splits)
  moreover have "(\<exists>h. h \<notin> known_handles (w_db w) \<and> volumes w' h = Some ctx) \<or> exhausted (fw_functions fw) part ctx w"
    using vol
  proof (elim disjE)
    assume "volumes w' = volumes w1 \<and> (p = 0 \<or> length (handles (w_db w1)) = MAX_HANDLES)"
    then show ?thesis
      using m1 g1(2) by (auto simp: exhausted_def make_block_io_def ctx context_of_def)
  next
    assume "\<exists>h. h \<notin> known_handles (w_db w1) \<and> volumes w' = (volumes w1)(h \<mapsto> ctx)"
    then show ?thesis
      using g1(2) by auto
  qed
  ultimately have "published (fw_functions fw) part {ctx} w w'"
    using g1(3) pub(3) grows_refl [OF w] unfolding published_def by auto
  then show ?thesis
    using m1 pub(1) by auto
qed

end

lemma map_le_Some: "f \<subseteq>\<^sub>m g \<Longrightarrow> f x = Some y \<Longrightarrow> g x = Some y"
  by (metis domI map_le_def)

lemma published_trans:
  assumes "published fns part C w w'" and "published fns part D w' w''"
  shows "published fns part (C \<union> D) w w''"
proof -
  have g: "grows w w'" "grows w' w''"
    using assms by (auto simp: published_def)
  have vol: "volumes w' \<subseteq>\<^sub>m volumes w''" and known: "known_handles (w_db w) \<subseteq> known_handles (w_db w')"
    using g by (auto simp: grows_def)
  note le = map_le_Some [OF vol] known
  have "volumes w h = Some c \<or> h \<notin> known_handles (w_db w) \<and> c \<in> C \<union> D" if "volumes w'' h = Some c" for h c
  proof -
    from that assms(2) consider "volumes w' h = Some c" | "h \<notin> known_handles (w_db w')" "c \<in> D"
      unfolding published_def by blast
    then show ?thesis
      using assms(1) le(2) unfolding published_def by cases blast+
  qed
  moreover have "(\<exists>h. h \<notin> known_handles (w_db w) \<and> volumes w'' h = Some c) \<or>
      (\<exists>v. grows w v \<and> grows v w'' \<and> exhausted fns part c v)" if "c \<in> C" for c
  proof -
    from that assms(1) consider h where "h \<notin> known_handles (w_db w)" "volumes w' h = Some c"
      | v where "grows w v" "grows v w'" "exhausted fns part c v"
      unfolding published_def by blast
    then show ?thesis
      using le(1) grows_trans [OF _ g(2)] by cases blast+
  qed
  moreover have "(\<exists>h. h \<notin> known_handles (w_db w) \<and> volumes w'' h = Some c) \<or>
      (\<exists>v. grows w v \<and> grows v w'' \<and> exhausted fns part c v)" if "c \<in> D" for c
  proof -
    from that assms(2) consider h where "h \<notin> known_handles (w_db w')" "volumes w'' h = Some c"
      | v where "grows w' v" "grows v w''" "exhausted fns part c v"
      unfolding published_def by blast
    then show ?thesis
      using le(2) grows_trans [OF g(1)] by cases blast+
  qed
  moreover have "w_registry w'' = w_registry w"
    using assms by (simp add: published_def)
  ultimately show ?thesis
    using grows_trans [OF g] unfolding published_def by blast
qed

lemma published_none: "world_ok w \<Longrightarrow> published fns part {} w w"
  by (simp add: published_def grows_refl)

lemma publish_disk_effect:
  assumes "world_ok w" and "r_device_path_guid (fw_efi fw) \<noteq> BLOCK_IO_PROTOCOL_GUID" and "heap_user mk"
  shows "\<exists>w'. publish_disk fw mk k n b w = Some w' \<and> published (fw_functions fw) False {disk_context k n b} w w'"
  using heap_user.publish_context [OF assms(3,1,2), of "disk_context k n b" k 0 0 n b False]
  by (simp add: publish_disk_def create_disk_block_io_def disk_context_def)

lemma publish_partition_effect:
  assumes "world_ok w" and "r_device_path_guid (fw_efi fw) \<noteq> BLOCK_IO_PROTOCOL_GUID" and "heap_user (mk n p)"
  shows "\<exists>w'. publish_partition fw mk k b n p w = Some w' \<and>
    published (fw_functions fw) True {partition_context k b (n, p)} w w'"
  using heap_user.publish_context [OF assms(3,1,2), of "partition_context k b (n, p)" k n "p_first_lba p" "size_sectors p" b True]
  by (simp add: publish_partition_def create_partition_block_io_def partition_context_def)

lemma publish_partitions_effect:
  assumes "world_ok w" and guid: "r_device_path_guid (fw_efi fw) \<noteq> BLOCK_IO_PROTOCOL_GUID"
    and "\<And>n p. p \<in> set ps \<Longrightarrow> heap_user (mk n p)"
  shows "\<exists>w' c'. publish_partitions fw mk k b i ps c w = Some (w', c') \<and>
    published (fw_functions fw) True (partition_context k b ` set (numbered i ps)) w w'"
  using assms(1,3)
proof (induction ps arbitrary: i c w)
  case Nil
  then show ?case
    using published_none by (simp add: numbered_Nil)
next
  case (Cons p ps)
  obtain w1 where w1: "publish_partition fw mk k b (of_nat (i + 1)) p w = Some w1"
      "published (fw_functions fw) True {partition_context k b (of_nat (i + 1), p)} w w1"
    using publish_partition_effect [OF Cons.prems(1) guid, of mk "of_nat (i + 1)" p k b] Cons.prems(2) by auto
  have ok: "world_ok w1"
    using w1(2) by (auto simp: published_def grows_def)
  obtain w' c' where "publish_partitions fw mk k b (i + 1) ps (remember (of_nat (i + 1)) p c) w1 = Some (w', c')"
      "published (fw_functions fw) True (partition_context k b ` set (numbered (i + 1) ps)) w1 w'"
    using Cons.IH [OF ok, of "i + 1" "remember (of_nat (i + 1)) p c"] Cons.prems(2) by auto
  then show ?case
    using w1 published_trans [OF w1(2)] by (auto simp: numbered_Cons)
qed

text \<open>The whole function, for every kind of disk.\<close>

lemma install_block_io_effect:
  assumes w: "world_ok w" and guid: "r_device_path_guid (fw_efi fw) \<noteq> BLOCK_IO_PROTOCOL_GUID"
    and order: "orders_by_size order" and dpath: "heap_user dpath"
    and ppath: "\<And>n p. length (p_partition_guid p) \<le> 16 \<Longrightarrow> heap_user (ppath n p)"
    and disk: "gpt_partitions disk = Some (Some ps)"
  shows "\<exists>w' w1 e. install_block_io fw order dpath ppath disk k b n w = Some (w', e) \<and>
    published (fw_functions fw) False {disk_context k n b} w w1 \<and>
    published (fw_functions fw) True (partition_context k b ` set (numbered 0 ps)) w1 w' \<and> chosen_esp (numbered 0 ps) e"
proof -
  obtain w1 where w1: "publish_disk fw dpath k n b w = Some w1" "published (fw_functions fw) False {disk_context k n b} w w1"
    using publish_disk_effect [OF w guid dpath] by blast
  have ok: "world_ok w1"
    using w1(2) by (auto simp: published_def grows_def)
  have "\<And>n p. p \<in> set ps \<Longrightarrow> heap_user (ppath n p)"
    using ppath gpt_partitions_guids [OF disk] by (simp add: guids_ok_def)
  then obtain w' c where w': "publish_partitions fw ppath k b 0 ps (None, []) w1 = Some (w', c)"
      "published (fw_functions fw) True (partition_context k b ` set (numbered 0 ps)) w1 w'"
    using publish_partitions_effect [OF ok guid] by blast
  have "chosen_esp (numbered 0 ps) (choose_esp order c)"
    using choose_esp_correct [OF order, of "numbered 0 ps"] publish_partitions_choice [OF w'(1)] by simp
  then show ?thesis
    using w1 w' disk by (auto simp: install_block_io_def)
qed

end
