(* ===== verification/Menu_Props.thy ===== *)
theory Menu_Props
  imports Boot_Flow Time_Props
begin

text \<open>
  The boot menu: what is listed can be booted, and the loop that lets a user choose ends with an entry of the list.
\<close>

section \<open>Delays\<close>

text \<open>The counter runs, two consecutive reads are at most \<open>2^60\<close> cycles apart, and its frequency is below \<open>2^60\<close> Hz.\<close>

definition steady :: "timer \<Rightarrow> (nat \<Rightarrow> nat) \<Rightarrow> bool" where
  "steady t T \<longleftrightarrow> (\<forall>n. tsc t n = of_nat (T n) \<and> T n < T (Suc n) \<and> T (Suc n) \<le> T n + 2 ^ 60) \<and>
     unat (TSC_CYCLES_PER_US t) < 2 ^ 40"

lemma steady_instant [simp]: "steady (t\<lparr>instant := n\<rparr>) T \<longleftrightarrow> steady t T"
  by (simp add: steady_def)

lemma steady_runs: "steady t T \<Longrightarrow> tsc_runs t T"
  by (auto simp: steady_def tsc_runs_def intro: order_trans)

lemma steady_step: "steady t T \<Longrightarrow> T n < T (Suc n) \<and> T (Suc n) \<le> T n + 2 ^ 60"
  by (simp add: steady_def)

lemma steady_mono: "steady t T \<Longrightarrow> m < n \<Longrightarrow> T m < T n"
  by (rule lift_Suc_mono_less [of T]) (simp_all add: steady_def)

lemma unat_cycles:
  assumes "steady t T" and "unat us < 2 ^ 20"
  shows "unat (us * TSC_CYCLES_PER_US t) < 2 ^ 60"
proof -
  have "unat us * unat (TSC_CYCLES_PER_US t) < 2 ^ 20 * 2 ^ 40"
    using assms by (intro mult_strict_mono) (simp_all add: steady_def)
  moreover have "unat (us * TSC_CYCLES_PER_US t) \<le> unat us * unat (TSC_CYCLES_PER_US t)"
    by (simp add: unat_word_ariths)
  ultimately show ?thesis
    by simp
qed

lemma delay_loop_returns:
  assumes "steady t T" and "S \<le> T (instant t)" and "T (instant t) < S + 2 ^ 62" and "unat c < 2 ^ 60"
  shows "\<exists>n > instant t. delay_loop (of_nat S) c t = Some (t\<lparr>instant := n\<rparr>) \<and>
    T n \<le> max (T (instant t)) (S + unat c + 2 ^ 60) + 2 ^ 60"
  using assms(1-3)
proof (induction "S + unat c - T (instant t)" arbitrary: t rule: less_induct)
  case less
  let ?k = "instant t"
  have rd: "rdtsc t = (of_nat (T ?k), t\<lparr>instant := Suc ?k\<rparr>)"
    using steady_runs [OF less.prems(1)] by (rule rdtsc_runs)
  have el: "unat (of_nat (T ?k) - of_nat S :: u64) = T ?k - S"
    using less.prems by (intro unat_ahead) auto
  note step = steady_step [OF less.prems(1), of ?k]
  show ?case
  proof (cases "T ?k - S < unat c")
    case False
    then show ?thesis
      using rd el step by (intro exI [of _ "Suc ?k"]) (simp add: delay_loop.simps [of _ _ t] word_less_nat_alt max_def)
  next
    case True
    have lt: "T ?k < S + unat c"
      using True less.prems(2) by (simp add: less_diff_conv2 add.commute)
    have "\<exists>n > Suc ?k. delay_loop (of_nat S) c (t\<lparr>instant := Suc ?k\<rparr>) = Some (t\<lparr>instant := n\<rparr>) \<and>
        T n \<le> max (T (Suc ?k)) (S + unat c + 2 ^ 60) + 2 ^ 60"
    proof -
      have "T (Suc ?k) < S + 2 ^ 62" and "S + unat c - T (Suc ?k) < S + unat c - T ?k"
        using lt conjunct1 [OF step] conjunct2 [OF step] assms(4) by (simp, intro diff_less_mono2)
      then show ?thesis
        using less.hyps [of "t\<lparr>instant := Suc ?k\<rparr>"] less.prems(1,2) step by simp
    qed
    then obtain n where n: "n > Suc ?k" "delay_loop (of_nat S) c (t\<lparr>instant := Suc ?k\<rparr>) = Some (t\<lparr>instant := n\<rparr>)"
        "T n \<le> max (T (Suc ?k)) (S + unat c + 2 ^ 60) + 2 ^ 60"
      by blast
    moreover have "T (Suc ?k) \<le> S + unat c + 2 ^ 60"
      using lt conjunct2 [OF step] by linarith
    ultimately show ?thesis
      using rd el True by (intro exI [of _ n]) (simp add: delay_loop.simps [of _ _ t] word_less_nat_alt)
  qed
qed

lemma delay_10ms_returns:
  assumes "steady t T"
  shows "\<exists>n > instant t. delay_ms 10 t = Some (t\<lparr>instant := n\<rparr>) \<and> T n \<le> T (instant t) + 3 * 2 ^ 60"
proof -
  let ?k = "instant t"
  have c: "unat (10000 * TSC_CYCLES_PER_US t) < 2 ^ 60"
    using unat_cycles [OF assms, of 10000] by simp
  note step = steady_step [OF assms, of ?k]
  obtain n where "n > Suc ?k" "delay_loop (of_nat (T ?k)) (10000 * TSC_CYCLES_PER_US t) (t\<lparr>instant := Suc ?k\<rparr>) = Some (t\<lparr>instant := n\<rparr>)"
      "T n \<le> max (T (Suc ?k)) (T ?k + unat (10000 * TSC_CYCLES_PER_US t) + 2 ^ 60) + 2 ^ 60"
    using delay_loop_returns [of "t\<lparr>instant := Suc ?k\<rparr>" T "T ?k"] assms step c by auto
  then show ?thesis
    using step c rdtsc_runs [OF steady_runs [OF assms]]
    by (intro exI [of _ n]) (simp add: delay_ms_def delay_us_def)
qed

section \<open>The loop\<close>

text \<open>The user presses finitely many keys: \<open>f\<close> bounds how many are still to come.\<close>

definition keys_end :: "'i menu_input \<Rightarrow> ('i \<Rightarrow> nat) \<Rightarrow> bool" where
  "keys_end io f \<longleftrightarrow> (\<forall>i t i' key t'. read_key io i t = Some (i', key, t') \<longrightarrow>
     (if key = None then f i' \<le> f i else f i' < f i))"

lemma read_key_returns:
  assumes "steady t T"
  shows "\<exists>i' key n. read_key io i t = Some (i', key, t\<lparr>instant := n\<rparr>) \<and> instant t \<le> n \<and> T n \<le> T (instant t) + 3 * 2 ^ 60"
proof -
  obtain n where n: "instant t < n" "delay_ms 10 t = Some (t\<lparr>instant := n\<rparr>)" "T n \<le> T (instant t) + 3 * 2 ^ 60"
    using delay_10ms_returns [OF assms] by blast
  have "\<exists>i' key. read_key io i t = Some (i', key, t) \<or> read_key io i t = Some (i', key, t\<lparr>instant := n\<rparr>)"
    unfolding read_key_def by (auto simp: n(2) split: prod.split option.split)
  then obtain i' key where "read_key io i t = Some (i', key, t) \<or> read_key io i t = Some (i', key, t\<lparr>instant := n\<rparr>)"
    by blast
  then show ?thesis
  proof
    assume "read_key io i t = Some (i', key, t)"
    then show ?thesis
      by (intro exI [of _ i'] exI [of _ key] exI [of _ "instant t"]) simp
  next
    assume "read_key io i t = Some (i', key, t\<lparr>instant := n\<rparr>)"
    then show ?thesis
      using n(1,3) by (intro exI [of _ i'] exI [of _ key] exI [of _ n]) simp
  qed
qed

definition menu_ok :: "boot_menu \<Rightarrow> bool" where
  "menu_ok menu \<longleftrightarrow> selected menu < entry_count menu \<and> timeout_seconds menu > 0"

lemma handle_key_ok:
  assumes "menu_ok menu" and "handle_key menu key = (menu', chosen)"
  shows "menu_ok menu' \<and> entries menu' = entries menu"
  using assms
  by (auto simp: handle_key_def menu_ok_def entry_count_def select_previous_def select_next_def Let_def
      split: key_press.splits if_splits)

text \<open>The state of the loop: the deadline of the countdown is near in both directions.\<close>

definition deadline_near :: "(nat \<Rightarrow> nat) \<Rightarrow> timer \<Rightarrow> timeout \<Rightarrow> nat \<Rightarrow> bool" where
  "deadline_near T t check D \<longleftrightarrow> deadline check = of_nat D \<and> D < T (instant t) + 2 ^ 62 \<and> T (instant t) \<le> D + 7 * 2 ^ 60"

lemma count_down_cases:
  assumes t: "steady t T" and near: "deadline_near T t check D" and "remaining > 0"
  shows "\<exists>r check' D' n over. count_down remaining check t = (r, check', t\<lparr>instant := n\<rparr>, over) \<and> instant t < n \<and>
    deadline check' = of_nat D' \<and> D' < T n + 2 ^ 62 \<and> T n \<le> D' + 2 ^ 60 \<and> (\<not> over \<longrightarrow> r > 0) \<and>
    (unat r < unat remaining \<or> r = remaining \<and> D' = D \<and> T (instant t) < D)"
proof -
  let ?k = "instant t"
  have ex: "is_expired check t = (D \<le> T ?k, t\<lparr>instant := Suc ?k\<rparr>)"
    using near by (intro is_expired_runs [OF steady_runs [OF t]]) (auto simp: deadline_near_def)
  note step = steady_step [OF t, of ?k] and step' = steady_step [OF t, of "Suc ?k"]
  show ?thesis
  proof (cases "D \<le> T ?k")
    case False
    then show ?thesis
      using assms(3) near ex step unfolding deadline_near_def
      by (intro exI [of _ remaining] exI [of _ check] exI [of _ D] exI [of _ "Suc ?k"] exI [of _ False])
        (simp add: count_down_def)
  next
    case True
    let ?c = "1000000 * TSC_CYCLES_PER_US t"
    have c: "unat ?c < 2 ^ 60"
      using unat_cycles [OF t, of 1000000] by simp
    have "unat (remaining - 1) < unat remaining"
      using assms(3) by (simp add: unat_minus_one word_gt_0 unat_gt_0)
    moreover have "of_nat (T (Suc ?k)) + ?c = of_nat (T (Suc ?k) + unat ?c)"
      by simp
    moreover have "remaining - 1 \<noteq> 0 \<Longrightarrow> remaining - 1 > 0"
      by (simp add: word_gt_0)
    ultimately show ?thesis
      using assms(3) ex step step' True c rdtsc_runs [OF steady_runs, of "t\<lparr>instant := Suc ?k\<rparr>" T] t
      by (intro exI [of _ "remaining - 1"] exI [of _ "\<lparr>deadline = of_nat (T (Suc ?k)) + ?c\<rparr>"]
          exI [of _ "T (Suc ?k) + unat ?c"] exI [of _ "Suc (Suc ?k)"] exI [of _ "remaining - 1 = 0"])
        (simp add: count_down_def from_ms_def from_us_def)
  qed
qed

lemma wf_countdown: "wf (less_than <*lex*> less_than <*lex*> less_than)"
  by (intro wf_lex_prod wf_less_than)

lemma menu_loop_returns:
  assumes "keys_end io f" and "steady t T" and "deadline_near T t check D" and "remaining > 0" and "menu_ok menu"
  shows "\<exists>menu' i' t'. menu_loop io menu remaining check i t = Some (menu', i', t') \<and> entries menu' = entries menu \<and>
    menu_ok menu' \<and> (f i = 0 \<longrightarrow> menu' = menu)"
  using assms(2-)
proof (induction "(f i, unat remaining, D - T (instant t))" arbitrary: menu remaining check D i t
    rule: wf_induct_rule [OF wf_countdown, case_names less])
  case (less remaining D i t menu check)
  let ?k = "instant t"
  obtain r check' D' n over where cd: "count_down remaining check t = (r, check', t\<lparr>instant := n\<rparr>, over)" "?k < n"
      and near: "deadline check' = of_nat D'" "D' < T n + 2 ^ 62" "T n \<le> D' + 2 ^ 60"
      and r: "\<not> over \<longrightarrow> r > 0" "unat r < unat remaining \<or> r = remaining \<and> D' = D \<and> T ?k < D"
    using count_down_cases [OF less.prems(1-3)] by blast
  obtain i1 key n1 where rk: "read_key io i (t\<lparr>instant := n\<rparr>) = Some (i1, key, t\<lparr>instant := n1\<rparr>)" "n \<le> n1" "T n1 \<le> T n + 3 * 2 ^ 60"
    using read_key_returns [of "t\<lparr>instant := n\<rparr>" T io i] less.prems(1) by auto
  have fewer: "if key = None then f i1 \<le> f i else f i1 < f i"
    using assms(1) rk(1) unfolding keys_end_def by blast
  obtain n2 where dl: "delay_ms 10 (t\<lparr>instant := n1\<rparr>) = Some (t\<lparr>instant := n2\<rparr>)" "n1 < n2" "T n2 \<le> T n1 + 3 * 2 ^ 60"
    using delay_10ms_returns [of "t\<lparr>instant := n1\<rparr>" T] less.prems(1) by auto
  have "T n < T n2" "T ?k < T n2"
    using steady_mono [OF less.prems(1)] cd(2) rk(2) dl(2) by auto
  then have near2: "deadline_near T (t\<lparr>instant := n2\<rparr>) check' D'"
    using near rk(3) dl(3) by (simp add: deadline_near_def)
  show ?case
  proof (cases over)
    case True
    then show ?thesis
      using cd less.prems(4) by (subst menu_loop.simps) simp
  next
    case go: False
    show ?thesis
    proof (cases key)
      case None
      have "\<exists>menu' i' t'. menu_loop io menu r check' i1 (t\<lparr>instant := n2\<rparr>) = Some (menu', i', t') \<and> entries menu' = entries menu \<and>
          menu_ok menu' \<and> (f i1 = 0 \<longrightarrow> menu' = menu)"
        using None fewer r go near2 less.prems \<open>T ?k < T n2\<close> by (intro less.hyps(1)) auto
      moreover have "menu_loop io menu remaining check i t = menu_loop io menu r check' i1 (t\<lparr>instant := n2\<rparr>)"
        using None cd(1) rk(1) dl(1) go by (subst menu_loop.simps) simp
      ultimately show ?thesis
        using None fewer by auto
    next
      case (Some k)
      obtain menu1 chosen where hk: "handle_key menu k = (menu1, chosen)"
        by fastforce
      note ok = handle_key_ok [OF less.prems(4) hk]
      show ?thesis
      proof (cases chosen)
        case True
        then show ?thesis
          using Some cd(1) rk(1) go hk ok fewer by (subst menu_loop.simps) simp
      next
        case False
        have "\<exists>menu' i' t'. menu_loop io menu1 (timeout_seconds menu) check' i1 (t\<lparr>instant := n2\<rparr>) = Some (menu', i', t') \<and>
            entries menu' = entries menu1 \<and> menu_ok menu' \<and> (f i1 = 0 \<longrightarrow> menu' = menu1)"
          using Some fewer near2 less.prems ok by (intro less.hyps(1)) (auto simp: menu_ok_def)
        moreover have "menu_loop io menu remaining check i t =
            menu_loop io menu1 (timeout_seconds menu) check' i1 (t\<lparr>instant := n2\<rparr>)"
          using Some cd(1) rk(1) dl(1) go hk False by (subst menu_loop.simps) simp
        ultimately show ?thesis
          using Some fewer ok by auto
      qed
    qed
  qed
qed

lemma show_menu_returns:
  assumes "keys_end io f" and "steady t T" and "menu_ok menu"
  shows "\<exists>k menu' i' t'. show_menu io menu i t = Some (Some k, menu', i', t') \<and> k < entry_count menu \<and>
    entries menu' = entries menu \<and> (f i = 0 \<longrightarrow> k = selected menu)"
proof -
  let ?k = "instant t"
  let ?check = "\<lparr>deadline = of_nat (T ?k)\<rparr>" and ?t = "t\<lparr>instant := Suc ?k\<rparr>"
  have from_ms: "from_ms 0 t = (?check, ?t)"
    using rdtsc_runs [OF steady_runs [OF assms(2)]] by (simp add: from_ms_def from_us_def)
  have "deadline_near T ?t ?check (T ?k)"
    using steady_step [OF assms(2), of ?k] by (simp add: deadline_near_def)
  then obtain menu' i' t' where "menu_loop io menu (timeout_seconds menu) ?check i ?t = Some (menu', i', t')"
      "entries menu' = entries menu" "menu_ok menu'" "f i = 0 \<longrightarrow> menu' = menu"
    using menu_loop_returns [OF assms(1), of ?t T ?check "T ?k" "timeout_seconds menu" menu i] assms(2,3)
    by (auto simp: menu_ok_def)
  then show ?thesis
    using assms(3) from_ms by (auto simp: show_menu_def menu_ok_def entry_count_def)
qed

section \<open>Discovery\<close>

text \<open>Storing a disk takes a page; \<open>n\<close> pages can be allocated one after the other.\<close>

fun pages_left :: "nat \<Rightarrow> memory_allocator \<Rightarrow> bool" where
  "pages_left 0 s \<longleftrightarrow> True"
| "pages_left (Suc n) s \<longleftrightarrow> (case efi_allocate_pages s 1 of Some (s', Some _) \<Rightarrow> pages_left n s' | _ \<Rightarrow> False)"

lemma pages_leftE:
  assumes "pages_left (Suc n) s"
  obtains s' a where "efi_allocate_pages s 1 = Some (s', Some a)" and "pages_left n s'"
  using assms by (auto split: option.splits)

lemma pages_left_less: "pages_left (Suc n) s \<Longrightarrow> pages_left n s"
proof (induction n arbitrary: s)
  case (Suc n)
  from Suc.prems obtain s' a where "efi_allocate_pages s 1 = Some (s', Some a)" "pages_left (Suc n) s'"
    by (rule pages_leftE)
  then show ?case
    using Suc.IH by simp
qed simp

lemma pages_left_mono: "pages_left n s \<Longrightarrow> m \<le> n \<Longrightarrow> pages_left m s"
proof (induction n)
  case (Suc n)
  then show ?case
    using pages_left_less [of n s] by (cases "m = Suc n") (simp_all del: pages_left.simps)
qed simp

lemma alloc_of [simp]: "w_alloc (set_alloc s w) = s"
  by (simp add: set_alloc_def)

lemma store_global_device:
  assumes "pages_left (Suc n) (w_alloc w)"
  shows "\<exists>s g'. nvme_store_global_device (w_alloc w) g c ns = Some (s, g', True) \<and> pages_left n s"
    "\<exists>s g'. ahci_store_global_device (w_alloc w) g c port = Some (s, g', True) \<and> pages_left n s"
    "\<exists>s g'. sdhci_store_global_device (w_alloc w) g c = Some (s, g', True) \<and> pages_left n s"
    "\<exists>w'. usb_store_global_device u w = Some (w', True) \<and> pages_left n (w_alloc w')"
proof -
  obtain s a where "efi_allocate_pages (w_alloc w) 1 = Some (s, Some a)" "pages_left n s"
    using assms by (rule pages_leftE)
  then show "\<exists>s g'. nvme_store_global_device (w_alloc w) g c ns = Some (s, g', True) \<and> pages_left n s"
    "\<exists>s g'. ahci_store_global_device (w_alloc w) g c port = Some (s, g', True) \<and> pages_left n s"
    "\<exists>s g'. sdhci_store_global_device (w_alloc w) g c = Some (s, g', True) \<and> pages_left n s"
    "\<exists>w'. usb_store_global_device u w = Some (w', True) \<and> pages_left n (w_alloc w')"
    by (simp_all add: nvme_store_global_device_def ahci_store_global_device_def sdhci_store_global_device_def
        usb_store_global_device_def)
qed

text \<open>What a disk contributes: the partitions that have a boot loader, with their numbers.\<close>

definition bootable :: "block_device \<Rightarrow> gpt_partition \<Rightarrow> bool" where
  "bootable disk p \<longleftrightarrow> (p_is_esp p \<or> is_potential_esp p) \<and> check_bootloader_exists disk (p_first_lba p) = Some True"

fun bootable_entries :: "block_device \<Rightarrow> (u32 \<Rightarrow> gpt_partition \<Rightarrow> menu_entry) \<Rightarrow> nat \<Rightarrow> gpt_partition list \<Rightarrow> menu_entry list" where
  "bootable_entries disk mk i [] = []"
| "bootable_entries disk mk i (p # ps) =
     (if bootable disk p then [mk (of_nat (i + 1)) p] else []) @ bootable_entries disk mk (i + 1) ps"

text \<open>The file system and partition drivers return on the disk.\<close>

definition answers :: "block_device \<Rightarrow> bool" where
  "answers disk \<longleftrightarrow> gpt_partitions disk \<noteq> None \<and> find_efi_boot_image disk \<noteq> None \<and>
     (\<forall>lba. check_bootloader_exists disk lba \<noteq> None)"

definition add_to :: "boot_menu \<Rightarrow> menu_entry list \<Rightarrow> boot_menu" where
  "add_to menu es = menu\<lparr>entries := take MAX_BOOT_ENTRIES (entries menu @ es)\<rparr>"

definition menu_fits :: "boot_menu \<Rightarrow> bool" where
  "menu_fits menu \<longleftrightarrow> length (entries menu) \<le> MAX_BOOT_ENTRIES"

lemma add_to_simps [simp]:
  "menu_fits menu \<Longrightarrow> add_to menu [] = menu" "add_to (add_to menu es) es' = add_to menu (es @ es')"
  "length (entries menu) = MAX_BOOT_ENTRIES \<Longrightarrow> add_to menu es = menu"
  using take_take_append [of MAX_BOOT_ENTRIES "entries menu @ es" es']
  by (simp_all add: add_to_def menu_fits_def del: take_append) simp

lemma add_to_fits [simp]: "menu_fits (add_to menu es)"
  by (simp add: add_to_def menu_fits_def del: take_append)

lemma add_entry_eq:
  "menu_fits menu \<Longrightarrow> add_entry menu e = (add_to menu [e], length (entries menu) < MAX_BOOT_ENTRIES)"
  by (auto simp: add_entry_def add_to_def menu_fits_def)

lemma add_bootable_eq:
  assumes "answers disk" and "menu_fits menu"
  shows "\<exists>full. add_bootable disk mk stop i ps menu = Some (add_to menu (bootable_entries disk mk i ps), full) \<and>
    (full \<longrightarrow> length (entries (add_to menu (bootable_entries disk mk i ps))) = MAX_BOOT_ENTRIES)"
  using assms(2)
proof (induction ps arbitrary: i menu)
  case Nil
  then show ?case
    by (intro exI [of _ False]) simp
next
  case (Cons p ps)
  let ?e = "mk (of_nat (i + 1)) p"
  obtain b where b: "check_bootloader_exists disk (p_first_lba p) = Some b"
    using assms(1) by (auto simp: answers_def)
  consider "\<not> bootable disk p" | "bootable disk p" "length (entries menu) < MAX_BOOT_ENTRIES \<or> \<not> stop"
    | "bootable disk p" "length (entries menu) = MAX_BOOT_ENTRIES" "stop"
    using Cons.prems by (fastforce simp: menu_fits_def)
  then show ?case
  proof cases
    case 1
    then show ?thesis
      using Cons.IH [OF Cons.prems, of "i + 1"] b by (auto simp: bootable_def)
  next
    case 2
    then have "add_bootable disk mk stop i (p # ps) menu = add_bootable disk mk stop (i + 1) ps (add_to menu [?e])"
      using b Cons.prems by (auto simp: bootable_def add_entry_eq)
    then show ?thesis
      using Cons.IH [of "add_to menu [?e]" "i + 1"] 2(1) by simp
  next
    case 3
    then have "add_bootable disk mk stop i (p # ps) menu = Some (menu, True)"
      using b Cons.prems by (auto simp: bootable_def add_entry_eq)
    then show ?thesis
      using 3(2) by (intro exI [of _ True]) simp
  qed
qed

section \<open>The entries of every disk\<close>

definition disk_entries :: "block_device \<Rightarrow> (u32 \<Rightarrow> gpt_partition \<Rightarrow> menu_entry) \<Rightarrow> menu_entry list" where
  "disk_entries disk mk =
     (case gpt_partitions disk of Some (Some ps) \<Rightarrow> bootable_entries disk mk 0 ps | _ \<Rightarrow> [])"

definition nvme_entries :: "firmware \<Rightarrow> menu_entry list" where
  "nvme_entries fw =
     (case get_controller (nvme_controllers (fw_drivers fw)) 0 of
        None \<Rightarrow> []
      | Some c \<Rightarrow>
          (case default_namespace c of
             None \<Rightarrow> []
           | Some ns \<Rightarrow> disk_entries (nvme_disk c (nsid ns))
               (\<lambda>n p. boot_entry_new (''Boot Entry (NVMe ns'' @ decimal (unat (nsid ns)) @ '')'') BOOT_PATH
                  (OnNvme 0 (nsid ns)) n p (fw_nvme_pci fw 0))))"

definition iso_entries :: "firmware \<Rightarrow> block_device \<Rightarrow> nat \<Rightarrow> menu_entry list" where
  "iso_entries fw disk port =
     (case find_efi_boot_image disk of
        Some (Inr img) \<Rightarrow>
          if check_bootloader_exists disk (start_sector img) = Some True
          then [boot_entry_new (''ISO Boot (SATA port '' @ decimal port @ '')'') BOOT_PATH (OnAhci 0 port) 0
                  (iso_partition img (block_size (info disk))) (fw_ahci_pci fw 0)]
          else []
      | _ \<Rightarrow> [])"

definition port_entries :: "firmware \<Rightarrow> ahci_controller \<Rightarrow> nat \<Rightarrow> menu_entry list" where
  "port_entries fw c port =
     (case gpt_partitions (ahci_disk c port) of
        Some (Some ps) \<Rightarrow> bootable_entries (ahci_disk c port)
          (\<lambda>n p. boot_entry_new (''Boot Entry (SATA port '' @ decimal port @ '')'') BOOT_PATH (OnAhci 0 port) n p
             (fw_ahci_pci fw 0)) 0 ps
      | _ \<Rightarrow> iso_entries fw (ahci_disk c port) port)"

definition ahci_entries :: "firmware \<Rightarrow> menu_entry list" where
  "ahci_entries fw =
     (case get_controller (ahci_controllers (fw_drivers fw)) 0 of
        None \<Rightarrow> []
      | Some c \<Rightarrow> concat (map (port_entries fw c) [0..<length (ahci_ports c)]))"

definition usb_entries :: "firmware \<Rightarrow> menu_entry list" where
  "usb_entries fw =
     (case fw_usb_found fw of
        None \<Rightarrow> []
      | Some (cid, addr) \<Rightarrow>
          (case fw_usb_open fw cid addr of
             Some u \<Rightarrow>
               if fw_usb_controller fw cid
               then disk_entries (uv_disk u)
                 (\<lambda>n p. boot_entry_new (write_pieces 64 [] [''Boot Entry ('', fw_usb_type fw cid, '' USB)'']) BOOT_PATH (OnUsb cid addr) n p
                    \<lparr>pci_device = 0, pci_function = 0\<rparr>)
               else []
           | None \<Rightarrow> []))"

definition card_entries :: "firmware \<Rightarrow> nat \<Rightarrow> menu_entry list" where
  "card_entries fw cid =
     (case get_controller (sdhci_controllers (fw_drivers fw)) cid of
        None \<Rightarrow> []
      | Some c \<Rightarrow>
          if card_present c \<and> card_initialized c
          then disk_entries (sdhci_disk c)
            (\<lambda>n p. boot_entry_new ''Boot Entry (SD card)'' BOOT_PATH (OnSdhci cid) n p (fw_sdhci_pci fw cid))
          else [])"

definition sdhci_entries :: "firmware \<Rightarrow> menu_entry list" where
  "sdhci_entries fw = concat (map (card_entries fw) [0..<length (sdhci_controllers (fw_drivers fw))])"

text \<open>The drivers return on every disk of the machine.\<close>

definition disks_answer :: "firmware \<Rightarrow> bool" where
  "disks_answer fw \<longleftrightarrow>
     (\<forall>c \<in> set (nvme_controllers (fw_drivers fw)). \<forall>ns. answers (nvme_disk c ns)) \<and>
     (\<forall>c \<in> set (ahci_controllers (fw_drivers fw)). \<forall>port. answers (ahci_disk c port)) \<and>
     (\<forall>cid addr u. fw_usb_open fw cid addr = Some u \<longrightarrow> answers (uv_disk u)) \<and>
     (\<forall>c \<in> set (sdhci_controllers (fw_drivers fw)). answers (sdhci_disk c))"

lemma drivers_of_simps [simp]:
  "nvme_controllers (drivers_of fw w) = nvme_controllers (fw_drivers fw)"
  "ahci_controllers (drivers_of fw w) = ahci_controllers (fw_drivers fw)"
  "sdhci_controllers (drivers_of fw w) = sdhci_controllers (fw_drivers fw)"
  by (simp_all add: drivers_of_def)

lemma get_controller_set: "get_controller cs i = Some c \<Longrightarrow> c \<in> set cs"
  by (auto simp: get_controller_def split: if_splits)

lemma disk_menu:
  assumes "answers disk" and "menu_fits menu"
  shows "\<exists>r. gpt_partitions disk = Some r \<and>
    (case r of None \<Rightarrow> add_to menu (disk_entries disk mk) = menu
     | Some ps \<Rightarrow> \<exists>full. add_bootable disk mk stop 0 ps menu = Some (add_to menu (disk_entries disk mk), full) \<and>
         (full \<longrightarrow> length (entries (add_to menu (disk_entries disk mk))) = MAX_BOOT_ENTRIES))"
  using assms add_bootable_eq [OF assms] by (auto simp: answers_def disk_entries_def split: option.split)

lemma discover_nvme_eq:
  assumes "disks_answer fw" and "menu_fits menu" and "pages_left (Suc n) (w_alloc w)"
  shows "\<exists>w'. discover_nvme_entries fw w menu = Some (w', add_to menu (nvme_entries fw)) \<and> pages_left n (w_alloc w')"
proof (cases "Option.bind (get_controller (nvme_controllers (fw_drivers fw)) 0) (\<lambda>c. map_option (Pair c) (default_namespace c))")
  case None
  then have "nvme_entries fw = []"
    by (auto simp: nvme_entries_def split: option.split)
  then show ?thesis
    using None assms(2) pages_left_less [OF assms(3)] by (simp add: discover_nvme_entries_def)
next
  case (Some cn)
  then obtain c ns where c: "get_controller (nvme_controllers (fw_drivers fw)) 0 = Some c" "default_namespace c = Some ns"
    by (auto simp: bind_eq_Some_conv)
  have "answers (nvme_disk c (nsid ns))"
    using assms(1) get_controller_set [OF c(1)] by (simp add: disks_answer_def)
  note disk = disk_menu [OF this assms(2)]
  obtain s g where "nvme_store_global_device (w_alloc w) (w_global w) 0 (nsid ns) = Some (s, g, True)" "pages_left n s"
    using store_global_device(1) [OF assms(3)] by blast
  then show ?thesis
    using disk [of "\<lambda>n p. boot_entry_new (''Boot Entry (NVMe ns'' @ decimal (unat (nsid ns)) @ '')'') BOOT_PATH
        (OnNvme 0 (nsid ns)) n p (fw_nvme_pci fw 0)" True]
    by (auto simp: discover_nvme_entries_def nvme_entries_def c Let_def split: option.splits)
qed

lemma discover_iso_eq:
  assumes "answers disk" and "menu_fits menu"
  shows "\<exists>full. discover_iso_entry fw disk port menu = Some (add_to menu (iso_entries fw disk port), full) \<and>
    (full \<longrightarrow> length (entries (add_to menu (iso_entries fw disk port))) = MAX_BOOT_ENTRIES)"
proof -
  obtain r where r: "find_efi_boot_image disk = Some r"
    using assms(1) by (auto simp: answers_def)
  show ?thesis
  proof (cases r)
    case (Inl e)
    then show ?thesis
      using r assms(2) by (intro exI [of _ False]) (simp add: discover_iso_entry_def iso_entries_def)
  next
    case (Inr img)
    obtain b where b: "check_bootloader_exists disk (start_sector img) = Some b"
      using assms(1) by (auto simp: answers_def)
    have full: "length (entries menu) \<ge> MAX_BOOT_ENTRIES \<Longrightarrow> length (entries menu) = MAX_BOOT_ENTRIES"
      using assms(2) by (simp add: menu_fits_def)
    show ?thesis
      using Inr r b assms(2) full
      by (cases b) (auto simp: discover_iso_entry_def iso_entries_def add_entry_eq not_less simp del: append.simps)
  qed
qed

lemma discover_port_eq:
  assumes "answers (ahci_disk c port)" and "menu_fits menu" and "pages_left (Suc n) (w_alloc w)"
  shows "\<exists>w' full. discover_ahci_port fw c port w menu = Some (w', add_to menu (port_entries fw c port), full) \<and>
    pages_left n (w_alloc w') \<and> (full \<longrightarrow> length (entries (add_to menu (port_entries fw c port))) = MAX_BOOT_ENTRIES)"
proof -
  obtain s g where store: "ahci_store_global_device (w_alloc w) (w_global w) 0 port = Some (s, g, True)" "pages_left n s"
    using store_global_device(2) [OF assms(3)] by blast
  obtain r where r: "gpt_partitions (ahci_disk c port) = Some r"
    using assms(1) by (auto simp: answers_def)
  show ?thesis
  proof (cases r)
    case None
    then show ?thesis
      using store r discover_iso_eq [OF assms(1,2), of fw port]
      by (auto simp: discover_ahci_port_def port_entries_def Let_def)
  next
    case (Some ps)
    define mk where "mk = (\<lambda>n p. boot_entry_new (''Boot Entry (SATA port '' @ decimal port @ '')'') BOOT_PATH (OnAhci 0 port) n p
      (fw_ahci_pci fw 0))"
    obtain full where "add_bootable (ahci_disk c port) mk True 0 ps menu = Some (add_to menu (bootable_entries (ahci_disk c port) mk 0 ps), full)"
        "full \<longrightarrow> length (entries (add_to menu (bootable_entries (ahci_disk c port) mk 0 ps))) = MAX_BOOT_ENTRIES"
      using add_bootable_eq [OF assms(1,2)] by blast
    then show ?thesis
      using store r Some unfolding discover_ahci_port_def port_entries_def mk_def by (simp del: append.simps)
  qed
qed

lemma discover_ports_eq:
  assumes "\<And>port. answers (ahci_disk c port)" and "menu_fits menu" and "pages_left (length ports + n) (w_alloc w)"
  shows "\<exists>w'. discover_ahci_ports fw c ports w menu = Some (w', add_to menu (concat (map (port_entries fw c) ports))) \<and>
    pages_left n (w_alloc w')"
  using assms(2-)
proof (induction ports arbitrary: menu w)
  case (Cons port ports)
  obtain w1 full where step: "discover_ahci_port fw c port w menu = Some (w1, add_to menu (port_entries fw c port), full)"
      "pages_left (length ports + n) (w_alloc w1)"
      "full \<longrightarrow> length (entries (add_to menu (port_entries fw c port))) = MAX_BOOT_ENTRIES"
    using discover_port_eq [OF assms(1) Cons.prems(1), of "length ports + n"] Cons.prems(2)
    unfolding list.size add_Suc_right add_Suc add_0_right by blast
  show ?case
  proof (cases full)
    case True
    then have "add_to (add_to menu (port_entries fw c port)) (concat (map (port_entries fw c) ports)) = add_to menu (port_entries fw c port)"
      using step(3) by (intro add_to_simps(3)) simp
    then show ?thesis
      using step True pages_left_mono [OF step(2), of n] by simp
  next
    case False
    then show ?thesis
      using step Cons.IH [of "add_to menu (port_entries fw c port)" w1] by simp
  qed
qed simp

lemma discover_ahci_eq:
  assumes "disks_answer fw" and "menu_fits menu" and "pages_left (ports + n) (w_alloc w)"
    and "\<forall>c \<in> set (ahci_controllers (fw_drivers fw)). length (ahci_ports c) \<le> ports"
  shows "\<exists>w'. discover_ahci_entries fw w menu = Some (w', add_to menu (ahci_entries fw)) \<and> pages_left n (w_alloc w')"
proof (cases "get_controller (ahci_controllers (fw_drivers fw)) 0")
  case None
  then show ?thesis
    using assms(2) pages_left_mono [OF assms(3), of n] by (simp add: discover_ahci_entries_def ahci_entries_def)
next
  case (Some c)
  note c = get_controller_set [OF Some]
  have "pages_left (length [0..<length (ahci_ports c)] + n) (w_alloc w)"
    using assms(4) c by (intro pages_left_mono [OF assms(3)]) auto
  then show ?thesis
    using discover_ports_eq [OF _ assms(2)] assms(1) c Some
    by (simp add: discover_ahci_entries_def ahci_entries_def disks_answer_def)
qed

lemma discover_usb_eq:
  assumes "disks_answer fw" and "menu_fits menu" and "pages_left (Suc n) (w_alloc w)"
  shows "\<exists>w'. discover_usb_entries fw w menu = Some (w', add_to menu (usb_entries fw)) \<and> pages_left n (w_alloc w')"
proof (cases "\<exists>cid addr u. fw_usb_found fw = Some (cid, addr) \<and> fw_usb_controller fw cid \<and> fw_usb_open fw cid addr = Some u")
  case False
  then have "discover_usb_entries fw w menu = Some (w, menu)" and "usb_entries fw = []"
    by (auto simp: discover_usb_entries_def usb_entries_def split: option.split)
  then show ?thesis
    using assms(2) pages_left_less [OF assms(3)] by simp
next
  case True
  then obtain cid addr u where u: "fw_usb_found fw = Some (cid, addr)" "fw_usb_controller fw cid" "fw_usb_open fw cid addr = Some u"
    by blast
  define mk where "mk = (\<lambda>n p. boot_entry_new (write_pieces 64 [] [''Boot Entry ('', fw_usb_type fw cid, '' USB)'']) BOOT_PATH (OnUsb cid addr) n p
    \<lparr>pci_device = 0, pci_function = 0\<rparr>)"
  have "answers (uv_disk u)"
    using assms(1) u(3) by (auto simp: disks_answer_def)
  from disk_menu [OF this assms(2), of mk False] store_global_device(4) [OF assms(3), of u] u
  show ?thesis
    unfolding discover_usb_entries_def usb_entries_def mk_def
    by (auto simp del: append.simps split: option.splits)
qed

lemma discover_card_eq:
  assumes "disks_answer fw" and "menu_fits menu" and "pages_left (Suc n) (w_alloc w)"
  shows "\<exists>w' full. discover_sdhci_controller fw cid w menu = Some (w', add_to menu (card_entries fw cid), full) \<and>
    pages_left n (w_alloc w') \<and> (full \<longrightarrow> length (entries (add_to menu (card_entries fw cid))) = MAX_BOOT_ENTRIES)"
proof (cases "\<exists>c. get_controller (sdhci_controllers (fw_drivers fw)) cid = Some c \<and> card_present c \<and> card_initialized c")
  case False
  then have "discover_sdhci_controller fw cid w menu = Some (w, menu, False)" and "card_entries fw cid = []"
    by (auto simp: discover_sdhci_controller_def card_entries_def split: option.split)
  then show ?thesis
    using assms(2) pages_left_less [OF assms(3)] by (intro exI [of _ w] exI [of _ False]) simp
next
  case True
  then obtain c where c: "get_controller (sdhci_controllers (fw_drivers fw)) cid = Some c" "card_present c" "card_initialized c"
    by blast
  obtain s g where store: "sdhci_store_global_device (w_alloc w) (w_global w) cid = Some (s, g, True)" "pages_left n s"
    using store_global_device(3) [OF assms(3)] by blast
  define mk where "mk = (\<lambda>n p. boot_entry_new ''Boot Entry (SD card)'' BOOT_PATH (OnSdhci cid) n p (fw_sdhci_pci fw cid))"
  have mine: "card_entries fw cid = disk_entries (sdhci_disk c) mk"
    using c by (simp add: card_entries_def mk_def)
  have "answers (sdhci_disk c)"
    using assms(1) get_controller_set [OF c(1)] by (simp add: disks_answer_def)
  then obtain r where r: "gpt_partitions (sdhci_disk c) = Some r"
      "case r of None \<Rightarrow> add_to menu (disk_entries (sdhci_disk c) mk) = menu
       | Some ps \<Rightarrow> \<exists>full. add_bootable (sdhci_disk c) mk True 0 ps menu = Some (add_to menu (disk_entries (sdhci_disk c) mk), full) \<and>
           (full \<longrightarrow> length (entries (add_to menu (disk_entries (sdhci_disk c) mk))) = MAX_BOOT_ENTRIES)"
    using disk_menu [OF _ assms(2)] by blast
  show ?thesis
  proof (cases r)
    case None
    then show ?thesis
      using r store c unfolding mine
      by (intro exI [of _ "(set_alloc s w)\<lparr>w_global := g\<rparr>"] exI [of _ False]) (simp add: discover_sdhci_controller_def)
  next
    case (Some ps)
    then obtain full where "add_bootable (sdhci_disk c) mk True 0 ps menu = Some (add_to menu (disk_entries (sdhci_disk c) mk), full)"
        "full \<longrightarrow> length (entries (add_to menu (disk_entries (sdhci_disk c) mk))) = MAX_BOOT_ENTRIES"
      using r(2) by auto
    then show ?thesis
      using Some r(1) store c unfolding mine
      by (intro exI [of _ "(set_alloc s w)\<lparr>w_global := g\<rparr>"] exI [of _ full])
        (simp add: discover_sdhci_controller_def mk_def)
  qed
qed

lemma discover_cards_eq:
  assumes "disks_answer fw" and "menu_fits menu" and "pages_left (length cids) (w_alloc w)"
  shows "\<exists>w'. discover_sdhci_controllers fw cids w menu = Some (w', add_to menu (concat (map (card_entries fw) cids)))"
  using assms(2-)
proof (induction cids arbitrary: menu w)
  case (Cons cid cids)
  obtain w1 full where step: "discover_sdhci_controller fw cid w menu = Some (w1, add_to menu (card_entries fw cid), full)"
      "pages_left (length cids) (w_alloc w1)"
      "full \<longrightarrow> length (entries (add_to menu (card_entries fw cid))) = MAX_BOOT_ENTRIES"
    using discover_card_eq [OF assms(1) Cons.prems(1), of "length cids"] Cons.prems(2)
    unfolding list.size add_Suc_right add_0_right by blast
  show ?case
  proof (cases full)
    case True
    then have "add_to (add_to menu (card_entries fw cid)) (concat (map (card_entries fw) cids)) = add_to menu (card_entries fw cid)"
      using step(3) by (intro add_to_simps(3)) simp
    then show ?thesis
      using step True by simp
  next
    case False
    then show ?thesis
      using step Cons.IH [of "add_to menu (card_entries fw cid)" w1] by simp
  qed
qed simp

definition all_entries :: "firmware \<Rightarrow> menu_entry list" where
  "all_entries fw = nvme_entries fw @ ahci_entries fw @ usb_entries fw @ sdhci_entries fw"

definition disk_pages :: "firmware \<Rightarrow> nat" where
  "disk_pages fw = 2 + sum_list (map (\<lambda>c. length (ahci_ports c)) (ahci_controllers (fw_drivers fw))) +
     length (sdhci_controllers (fw_drivers fw))"

lemma discover_eq:
  assumes "disks_answer fw" and "pages_left (disk_pages fw) (w_alloc w)"
  shows "\<exists>w'. discover_boot_entries fw w = Some (w', add_to boot_menu_new (all_entries fw))"
proof -
  let ?cards = "length (sdhci_controllers (fw_drivers fw))"
  let ?ports = "sum_list (map (\<lambda>c. length (ahci_ports c)) (ahci_controllers (fw_drivers fw)))"
  have new: "menu_fits boot_menu_new"
    by (simp add: menu_fits_def boot_menu_new_def)
  have ports: "\<forall>c \<in> set (ahci_controllers (fw_drivers fw)). length (ahci_ports c) \<le> ?ports"
    by (auto intro: member_le_sum_list)
  have "pages_left (Suc (?ports + Suc ?cards)) (w_alloc w)"
    using assms(2) by (simp add: disk_pages_def del: pages_left.simps)
  then obtain w1 where w1: "discover_nvme_entries fw w boot_menu_new = Some (w1, add_to boot_menu_new (nvme_entries fw))"
      "pages_left (?ports + Suc ?cards) (w_alloc w1)"
    using discover_nvme_eq [OF assms(1) new] by blast
  obtain w2 where w2: "discover_ahci_entries fw w1 (add_to boot_menu_new (nvme_entries fw)) =
      Some (w2, add_to boot_menu_new (nvme_entries fw @ ahci_entries fw))" "pages_left (Suc ?cards) (w_alloc w2)"
    using discover_ahci_eq [OF assms(1) add_to_fits w1(2) ports] unfolding add_to_simps(2) by blast
  obtain w3 where w3: "discover_usb_entries fw w2 (add_to boot_menu_new (nvme_entries fw @ ahci_entries fw)) =
      Some (w3, add_to boot_menu_new (nvme_entries fw @ ahci_entries fw @ usb_entries fw))" "pages_left ?cards (w_alloc w3)"
    using discover_usb_eq [OF assms(1) add_to_fits w2(2)] unfolding add_to_simps(2) by (metis append_assoc)
  obtain w4 where "discover_sdhci_entries fw w3 (add_to boot_menu_new (nvme_entries fw @ ahci_entries fw @ usb_entries fw)) =
      Some (w4, add_to boot_menu_new (all_entries fw))"
    using discover_cards_eq [OF assms(1) add_to_fits, of "[0..<?cards]" w3 boot_menu_new
        "nvme_entries fw @ ahci_entries fw @ usb_entries fw"] w3(2)
    by (auto simp: discover_sdhci_entries_def sdhci_entries_def all_entries_def)
  then show ?thesis
    using w1 w2 w3 by (simp add: discover_boot_entries_def)
qed

end
