(* ===== verification/Flow_Props.thy ===== *)
theory Flow_Props
  imports Gpt_Props Flow_Correct Menu_Props
begin

text \<open>
  The properties of the boot flow: the menu and its entries, and the publication of a disk.
\<close>

section \<open>A small machine\<close>

definition sample_world :: boot_world where
  "sample_world = \<lparr>w_efi = sample_state, w_io = new_block_io_state, w_registry = storage_registry_new,
     w_global = no_global_devices, w_usb = None, w_sfs = new_sfs_state\<rparr>"

definition sample_firmware :: "(u64 \<Rightarrow> u64 \<Rightarrow> boot_world \<Rightarrow> boot_world \<times> efi_status) \<Rightarrow> firmware" where
  "sample_firmware run = \<lparr>fw_efi = x64_efi, fw_dp = x64_dp,
     fw_functions = \<lparr>fn_reset = 1, fn_read_blocks = 2, fn_write_blocks = 3, fn_flush_blocks = 4\<rparr>,
     fw_drivers = \<lparr>nvme_controllers = [], ahci_controllers = [], sdhci_controllers = [], usb_sector = None\<rparr>,
     fw_sfs_guid = Guid 0x964E5B22 0x6459 0x11D2 0x8E 0x39 [0, 0xA0, 0xC9, 0x69, 0x72, 0x3B], fw_sfs_protocol = 0x5000,
     fw_nvme_pci = (\<lambda>_. \<lparr>pci_device = 1, pci_function = 0\<rparr>), fw_ahci_pci = (\<lambda>_. \<lparr>pci_device = 2, pci_function = 0\<rparr>),
     fw_sdhci_pci = (\<lambda>_. \<lparr>pci_device = 3, pci_function = 0\<rparr>), fw_usb_found = None, fw_usb_controller = (\<lambda>_. False),
     fw_usb_open = (\<lambda>_ _. None), fw_usb_type = (\<lambda>_. ''xHCI''), fw_run = run\<rparr>"

lemma sample_world_ok: "world_ok sample_world"
proof -
  have "hdb_lookup (st_handles sample_state) k = None" for k
    by (simp add: sample_state_def new_efi_state_def hdb_lookup_def new_handle_db_def split: prod.split)
  then show ?thesis
    using sample_state_inv by (simp add: world_ok_def sample_world_def new_io_ok registry_new_ok efi_inv_def)
qed

lemma sample_partitions: "gpt_partitions sample_device = Some (Some [partition_of 512 sample_esp])"
proof -
  have "read_gpt_header sample_device = Some (Inr sample_gpt)"
    using read_gpt_header_reads [OF sample_device_info(3)]
    by (simp add: sample_device_info sample_bytes sample_gpt_fields)
  moreover have "read_partitions sample_device sample_gpt = Some (Inr [partition_of 512 sample_esp])"
    using read_partitions_scan [OF sample_layout] scan_table_exact [of "table sample_disk sample_gpt"]
    by (simp add: sample_table sample_entries sample_device_info MAX_PARTITIONS_def)
  ultimately show ?thesis
    by (simp add: gpt_partitions_def)
qed

section \<open>Publication of a disk\<close>



section \<open>The boot menu\<close>

text \<open>The loop of the boot menu ends when the user presses finitely many keys and the time stamp counter runs: it
  returns an entry of the menu, and the menu has the same entries. When no key is pressed it is the entry that was
  selected, once the countdown is over.\<close>

theorem show_menu_ends:
  assumes "keys_end io f" and "steady t T" and "selected menu < entry_count menu" and "timeout_seconds menu > 0"
  shows "\<exists>k menu' i' t'. show_menu io menu i t = Some (Some k, menu', i', t') \<and> k < entry_count menu \<and>
    entries menu' = entries menu \<and> (f i = 0 \<longrightarrow> k = selected menu)"
  using show_menu_returns [OF assms(1,2), of menu i] assms(3,4) by (simp add: menu_ok_def)

text \<open>An input with \<open>n\<close> presses of the arrow down key, and a counter that shows 1000 more at each read.\<close>

definition down_keys :: "nat menu_input" where
  "down_keys = \<lparr>try_read_key = (\<lambda>n. (n - 1, if n = 0 then None else Some (2, 0))), try_read_serial = (\<lambda>n. (n, None))\<rparr>"

lemma down_keys_end: "keys_end down_keys (\<lambda>n. n)"
  by (auto simp: keys_end_def read_key_def down_keys_def key_of_scan_def split: if_splits)

definition sample_clock :: timer where
  "sample_clock = new_timer (\<lambda>n. of_nat (2 ^ 64 - 5000 + 1000 * n)) (\<lambda>_ _. 0)"

lemma sample_clock_steady: "steady sample_clock (\<lambda>n. 2 ^ 64 - 5000 + 1000 * n)"
  by (simp add: steady_def sample_clock_def new_timer_def)

definition sample_entry_of :: "u32 \<Rightarrow> menu_entry" where
  "sample_entry_of n = boot_entry_new ''Boot Entry (SD card)'' BOOT_PATH (OnSdhci 0) n (partition_of 512 sample_esp)
     \<lparr>pci_device = 3, pci_function = 0\<rparr>"

theorem show_menu_ends_witness:
  "\<exists>k menu' i' t'. show_menu down_keys (boot_menu_new\<lparr>entries := [sample_entry_of 1, sample_entry_of 2]\<rparr>) 3 sample_clock =
      Some (Some k, menu', i', t') \<and> k < 2"
  using show_menu_ends [OF down_keys_end sample_clock_steady,
      of "boot_menu_new\<lparr>entries := [sample_entry_of 1, sample_entry_of 2]\<rparr>" 3]
  by (auto simp: entry_count_def boot_menu_new_def DEFAULT_TIMEOUT_SECONDS_def)


text \<open>A machine with a USB stick that cannot be read.\<close>

definition broken_stick :: usb_view where
  "broken_stick = \<lparr>uv_slot = 1, uv_disk = \<lparr>info = (info sample_device)\<lparr>block_size := 2048\<rparr>, read_blocks = (\<lambda>_ _ _. Some (Inl NoMedia))\<rparr>\<rparr>"

lemma broken_stick_answers: "answers (uv_disk broken_stick)"
  by (simp add: answers_def broken_stick_def gpt_partitions_def read_gpt_header_def read_block_at_def read_block_def
      find_efi_boot_image_def check_bootloader_exists_def fat_new_def read_iso_sector_def ISO_SECTOR_SIZE_def MAX_BLOCK_SIZE_def MIN_BLOCK_SIZE_def)

definition stick_firmware :: firmware where
  "stick_firmware = (sample_firmware (\<lambda>_ _ w. (w, SUCCESS)))
     \<lparr>fw_usb_found := Some (0, 1), fw_usb_controller := (\<lambda>_. True), fw_usb_open := (\<lambda>_ _. Some broken_stick)\<rparr>"


end
