(* ===== verification/Graphics_Output.thy ===== *)
theory Graphics_Output
  imports Coreboot_Tables Block_Io
begin

text \<open>
  The graphics output protocol, \<open>src/src/efi/protocols/graphics_output.rs\<close>, and the pixels of the framebuffer,
  \<open>src/src/coreboot/framebuffer.rs\<close>.

  The framebuffer and the buffers of the caller are ranges of the memory. Shifts by a variable amount use the amount
  modulo the width of the value, as the release build does. The addresses of the protocol's functions are an argument.
\<close>

section \<open>Pixels\<close>

record blt_pixel =
  blue :: u8
  green :: u8
  red :: u8
  reserved :: u8

definition blt_pixel_default :: blt_pixel where
  "blt_pixel_default = \<lparr>blue = 0, green = 0, red = 0, reserved = 0\<rparr>"

definition shl32 :: "u32 \<Rightarrow> u8 \<Rightarrow> u32" where
  "shl32 v n = push_bit (unat n mod 32) v"

definition shr32 :: "u32 \<Rightarrow> u8 \<Rightarrow> u32" where
  "shr32 v n = drop_bit (unat n mod 32) v"

definition shl16 :: "u16 \<Rightarrow> u8 \<Rightarrow> u16" where
  "shl16 v n = push_bit (unat n mod 16) v"

definition shr16 :: "u16 \<Rightarrow> u8 \<Rightarrow> u16" where
  "shr16 v n = drop_bit (unat n mod 16) v"

definition pixel_address :: "framebuffer_info \<Rightarrow> usize \<Rightarrow> usize \<Rightarrow> u64" where
  "pixel_address fb x y =
     physical_address fb + (y * ucast (bytes_per_line fb) + x * ucast (bits_per_pixel fb div 8))"

definition write_pixel_to_fb :: "memory \<Rightarrow> framebuffer_info \<Rightarrow> usize \<Rightarrow> usize \<Rightarrow> blt_pixel \<Rightarrow> memory" where
  "write_pixel_to_fb m fb x y p =
     (let ptr = pixel_address fb x y
      in if bits_per_pixel fb = 32 then
           write_u32 m ptr
             (shl32 (ucast (red p)) (red_mask_pos fb) OR shl32 (ucast (green p)) (green_mask_pos fb) OR
              shl32 (ucast (blue p)) (blue_mask_pos fb))
         else if bits_per_pixel fb = 24 then
           (if blue_mask_pos fb < red_mask_pos fb then write_bytes m ptr [blue p, green p, red p]
            else write_bytes m ptr [red p, green p, blue p])
         else if bits_per_pixel fb = 16 then
           write_u16 m ptr
             (push_bit 11 (ucast (drop_bit 3 (red p))) OR push_bit 5 (ucast (drop_bit 2 (green p))) OR
              ucast (drop_bit 3 (blue p)))
         else m)"

definition read_pixel_from_fb :: "memory \<Rightarrow> framebuffer_info \<Rightarrow> usize \<Rightarrow> usize \<Rightarrow> blt_pixel" where
  "read_pixel_from_fb m fb x y =
     (let ptr = pixel_address fb x y
      in if bits_per_pixel fb = 32 then
           (let v = read_u32 m ptr
            in \<lparr>blue = ucast (shr32 v (blue_mask_pos fb) AND 0xFF), green = ucast (shr32 v (green_mask_pos fb) AND 0xFF),
                red = ucast (shr32 v (red_mask_pos fb) AND 0xFF), reserved = 0\<rparr>)
         else if bits_per_pixel fb = 24 then
           (if blue_mask_pos fb < red_mask_pos fb
            then \<lparr>blue = m ptr, green = m (ptr + 1), red = m (ptr + 2), reserved = 0\<rparr>
            else \<lparr>blue = m (ptr + 2), green = m (ptr + 1), red = m ptr, reserved = 0\<rparr>)
         else if bits_per_pixel fb = 16 then
           (let v = read_u16 m ptr
            in \<lparr>blue = ucast (push_bit 3 (v AND 0x1F)), green = ucast (push_bit 2 (drop_bit 5 v AND 0x3F)),
                red = ucast (push_bit 3 (drop_bit 11 v)), reserved = 0\<rparr>)
         else blt_pixel_default)"

text \<open>The pixels of the caller's buffer.\<close>

definition BLT_PIXEL_SIZE :: nat where "BLT_PIXEL_SIZE = 4"

definition buffer_pixel :: "memory \<Rightarrow> u64 \<Rightarrow> usize \<Rightarrow> blt_pixel" where
  "buffer_pixel m buf i =
     (let ptr = buf + of_nat BLT_PIXEL_SIZE * i
      in \<lparr>blue = m ptr, green = m (ptr + 1), red = m (ptr + 2), reserved = m (ptr + 3)\<rparr>)"

definition set_buffer_pixel :: "memory \<Rightarrow> u64 \<Rightarrow> usize \<Rightarrow> blt_pixel \<Rightarrow> memory" where
  "set_buffer_pixel m buf i p = write_bytes m (buf + of_nat BLT_PIXEL_SIZE * i) [blue p, green p, red p, reserved p]"

section \<open>Block transfers\<close>

datatype blt_operation = VideoFill | VideoToBltBuffer | BufferToVideo | VideoToVideo

text \<open>Two nested loops over a rectangle, upwards and downwards.\<close>

definition for_rectangle :: "usize \<Rightarrow> usize \<Rightarrow> (usize \<Rightarrow> usize \<Rightarrow> memory \<Rightarrow> memory) \<Rightarrow> memory \<Rightarrow> memory" where
  "for_rectangle width height f m =
     foldl (\<lambda>m y. foldl (\<lambda>m x. f (of_nat x) (of_nat y) m) m [0..<unat width]) m [0..<unat height]"

definition for_rectangle_rev :: "usize \<Rightarrow> usize \<Rightarrow> (usize \<Rightarrow> usize \<Rightarrow> memory \<Rightarrow> memory) \<Rightarrow> memory \<Rightarrow> memory" where
  "for_rectangle_rev width height f m =
     foldl (\<lambda>m y. foldl (\<lambda>m x. f (of_nat x) (of_nat y) m) m (rev [0..<unat width])) m (rev [0..<unat height])"

definition outside_fb :: "framebuffer_info \<Rightarrow> usize \<Rightarrow> usize \<Rightarrow> usize \<Rightarrow> usize \<Rightarrow> bool" where
  "outside_fb fb x y width height \<longleftrightarrow>
     x + width > ucast (x_resolution fb) \<or> y + height > ucast (y_resolution fb)"

definition gop_blt ::
    "framebuffer_info option \<Rightarrow> memory \<Rightarrow> u64 \<Rightarrow> u64 \<Rightarrow> blt_operation \<Rightarrow> usize \<Rightarrow> usize \<Rightarrow> usize \<Rightarrow> usize \<Rightarrow> usize \<Rightarrow> usize \<Rightarrow>
     usize \<Rightarrow> memory \<times> efi_status" where
  "gop_blt gop_framebuffer m this buf op sx sy dx dy width height delta =
     (if this = 0 then (m, INVALID_PARAMETER)
      else
        (case gop_framebuffer of
           None \<Rightarrow> (m, DEVICE_ERROR)
         | Some fb \<Rightarrow>
             (let line = (if delta \<noteq> 0 then delta div of_nat BLT_PIXEL_SIZE else width)
              in case op of
                   VideoFill \<Rightarrow>
                     if buf = 0 then (m, INVALID_PARAMETER)
                     else if outside_fb fb dx dy width height then (m, INVALID_PARAMETER)
                     else
                       (let p = buffer_pixel m buf 0
                        in (for_rectangle width height (\<lambda>x y m. write_pixel_to_fb m fb (dx + x) (dy + y) p) m, SUCCESS))
                 | VideoToBltBuffer \<Rightarrow>
                     if buf = 0 then (m, INVALID_PARAMETER)
                     else if outside_fb fb sx sy width height then (m, INVALID_PARAMETER)
                     else
                       (for_rectangle width height (\<lambda>x y m.
                          set_buffer_pixel m buf ((dy + y) * line + (dx + x)) (read_pixel_from_fb m fb (sx + x) (sy + y))) m,
                        SUCCESS)
                 | BufferToVideo \<Rightarrow>
                     if buf = 0 then (m, INVALID_PARAMETER)
                     else if outside_fb fb dx dy width height then (m, INVALID_PARAMETER)
                     else
                       (for_rectangle width height (\<lambda>x y m.
                          write_pixel_to_fb m fb (dx + x) (dy + y) (buffer_pixel m buf ((sy + y) * line + (sx + x)))) m,
                        SUCCESS)
                 | VideoToVideo \<Rightarrow>
                     if outside_fb fb sx sy width height then (m, INVALID_PARAMETER)
                     else if outside_fb fb dx dy width height then (m, INVALID_PARAMETER)
                     else
                       (let copy_forward = (dy < sy \<or> dy = sy \<and> dx \<le> sx);
                            copy = (\<lambda>x y m. write_pixel_to_fb m fb (dx + x) (dy + y) (read_pixel_from_fb m fb (sx + x) (sy + y)))
                        in (if copy_forward then for_rectangle width height copy m
                            else for_rectangle_rev width height copy m, SUCCESS)))))"

section \<open>Modes\<close>

datatype pixel_format = RedGreenBlueReserved8BitPerColor | BlueGreenRedReserved8BitPerColor | BitMask | BltOnly

fun pixel_format_u32 :: "pixel_format \<Rightarrow> u32" where
  "pixel_format_u32 RedGreenBlueReserved8BitPerColor = 0"
| "pixel_format_u32 BlueGreenRedReserved8BitPerColor = 1"
| "pixel_format_u32 BitMask = 2"
| "pixel_format_u32 BltOnly = 3"

record pixel_bitmask =
  red_mask :: u32
  green_mask :: u32
  blue_mask :: u32
  reserved_mask :: u32

definition pixel_bitmask_default :: pixel_bitmask where
  "pixel_bitmask_default = \<lparr>red_mask = 0, green_mask = 0, blue_mask = 0, reserved_mask = 0\<rparr>"

record gop_mode_info =
  mi_version :: u32
  mi_horizontal_resolution :: u32
  mi_vertical_resolution :: u32
  mi_pixel_format :: pixel_format
  mi_pixel_information :: pixel_bitmask
  mi_pixels_per_scan_line :: u32

definition gop_mode_info_bytes :: "gop_mode_info \<Rightarrow> u8 list" where
  "gop_mode_info_bytes i =
     le32 (mi_version i) @ le32 (mi_horizontal_resolution i) @ le32 (mi_vertical_resolution i) @
     le32 (pixel_format_u32 (mi_pixel_format i)) @ le32 (red_mask (mi_pixel_information i)) @
     le32 (green_mask (mi_pixel_information i)) @ le32 (blue_mask (mi_pixel_information i)) @
     le32 (reserved_mask (mi_pixel_information i)) @ le32 (mi_pixels_per_scan_line i)"

definition GOP_MODE_INFO_SIZE :: nat where "GOP_MODE_INFO_SIZE = 36"

record gop_mode =
  gm_max_mode :: u32
  gm_mode :: u32
  gm_info :: u64
  gm_size_of_info :: usize
  gm_frame_buffer_base :: u64
  gm_frame_buffer_size :: usize

definition gop_mode_bytes :: "gop_mode \<Rightarrow> u8 list" where
  "gop_mode_bytes g =
     le32 (gm_max_mode g) @ le32 (gm_mode g) @ le64 (gm_info g) @ le64 (gm_size_of_info g) @
     le64 (gm_frame_buffer_base g) @ le64 (gm_frame_buffer_size g)"

definition GOP_MODE_SIZE :: nat where "GOP_MODE_SIZE = 40"

record gop_functions =
  fn_query_mode :: u64
  fn_set_mode :: u64
  fn_blt :: u64

definition gop_protocol_bytes :: "gop_functions \<Rightarrow> u64 \<Rightarrow> u8 list" where
  "gop_protocol_bytes fns mode = le64 (fn_query_mode fns) @ le64 (fn_set_mode fns) @ le64 (fn_blt fns) @ le64 mode"

definition GOP_PROTOCOL_SIZE :: nat where "GOP_PROTOCOL_SIZE = 32"

text \<open>The pointers of the caller and the structures are read and written in memory.\<close>

definition gop_query_mode ::
    "memory_allocator \<Rightarrow> memory \<Rightarrow> u64 \<Rightarrow> u32 \<Rightarrow> u64 \<Rightarrow> u64 \<Rightarrow> (memory_allocator \<times> memory \<times> efi_status) may_panic" where
  "gop_query_mode s m this mode_number size_of_info info_out =
     (if this = 0 \<or> size_of_info = 0 \<or> info_out = 0 then Some (s, m, INVALID_PARAMETER)
      else if mode_number \<noteq> 0 then Some (s, m, INVALID_PARAMETER)
      else
        (let mode = read_u64 m (this + 24)
         in if mode = 0 then Some (s, m, DEVICE_ERROR)
            else
              (case allocate_pool s m BootServicesData (of_nat GOP_MODE_INFO_SIZE) of
                 None \<Rightarrow> None
               | Some (s1, m1, Err _) \<Rightarrow> Some (s1, m1, OUT_OF_RESOURCES)
               | Some (s1, m1, Ok p) \<Rightarrow>
                   (let m2 = write_bytes m1 p (read_bytes m1 (read_u64 m1 (mode + 8)) GOP_MODE_INFO_SIZE);
                        m3 = write_u64 m2 size_of_info (of_nat GOP_MODE_INFO_SIZE)
                    in Some (s1, write_u64 m3 info_out p, SUCCESS)))))"

definition gop_set_mode :: "u64 \<Rightarrow> u32 \<Rightarrow> efi_status" where
  "gop_set_mode this mode_number =
     (if this = 0 then INVALID_PARAMETER else if mode_number \<noteq> 0 then UNSUPPORTED else SUCCESS)"

definition framebuffer_size :: "framebuffer_info \<Rightarrow> u64" where
  "framebuffer_size fb = ucast (bytes_per_line fb) * ucast (y_resolution fb)"

definition gop_pixel_format :: "framebuffer_info \<Rightarrow> pixel_format \<times> pixel_bitmask" where
  "gop_pixel_format fb =
     (if bits_per_pixel fb = 32 then
        (if red_mask_pos fb = 16 \<and> green_mask_pos fb = 8 \<and> blue_mask_pos fb = 0
         then (BlueGreenRedReserved8BitPerColor, pixel_bitmask_default)
         else if red_mask_pos fb = 0 \<and> green_mask_pos fb = 8 \<and> blue_mask_pos fb = 16
         then (RedGreenBlueReserved8BitPerColor, pixel_bitmask_default)
         else
           (BitMask, \<lparr>red_mask = shl32 0xFF (red_mask_pos fb), green_mask = shl32 0xFF (green_mask_pos fb),
              blue_mask = shl32 0xFF (blue_mask_pos fb), reserved_mask = 0\<rparr>))
      else
        (BitMask, \<lparr>red_mask = shl32 (shl32 1 (red_mask_size fb) - 1) (red_mask_pos fb),
           green_mask = shl32 (shl32 1 (green_mask_size fb) - 1) (green_mask_pos fb),
           blue_mask = shl32 (shl32 1 (blue_mask_size fb) - 1) (blue_mask_pos fb), reserved_mask = 0\<rparr>))"

text \<open>A framebuffer with less than eight bits per pixel is a division by zero while the first structure is filled.\<close>

definition create_gop ::
    "gop_functions \<Rightarrow> framebuffer_info option \<Rightarrow> memory_allocator \<Rightarrow> memory \<Rightarrow> framebuffer_info \<Rightarrow>
     (framebuffer_info option \<times> memory_allocator \<times> memory \<times> u64) may_panic" where
  "create_gop fns gop_framebuffer s m fb =
     (case allocate_protocol s m GOP_MODE_INFO_SIZE
             (gop_mode_info_bytes \<lparr>mi_version = 0, mi_horizontal_resolution = x_resolution fb,
                mi_vertical_resolution = y_resolution fb, mi_pixel_format = fst (gop_pixel_format fb),
                mi_pixel_information = snd (gop_pixel_format fb),
                mi_pixels_per_scan_line = bytes_per_line fb div (ucast (bits_per_pixel fb) div 8)\<rparr>) of
        None \<Rightarrow> None
      | Some (s1, m1, mode_info) \<Rightarrow>
          if mode_info = 0 then Some (gop_framebuffer, s1, m1, 0)
          else if bits_per_pixel fb div 8 = 0 then None
          else
            (case allocate_protocol s1 m1 GOP_MODE_SIZE
                    (gop_mode_bytes \<lparr>gm_max_mode = 1, gm_mode = 0, gm_info = mode_info,
                       gm_size_of_info = of_nat GOP_MODE_INFO_SIZE, gm_frame_buffer_base = physical_address fb,
                       gm_frame_buffer_size = framebuffer_size fb\<rparr>) of
               None \<Rightarrow> None
             | Some (s2, m2, mode) \<Rightarrow>
                 if mode = 0 then Some (gop_framebuffer, s2, m2, 0)
                 else
                   (case allocate_protocol s2 m2 GOP_PROTOCOL_SIZE (gop_protocol_bytes fns mode) of
                      None \<Rightarrow> None
                    | Some (s3, m3, protocol) \<Rightarrow>
                        if protocol = 0 then Some (gop_framebuffer, s3, m3, 0)
                        else Some (Some fb, s3, m3, protocol))))"

section \<open>Pixels of the firmware's own output\<close>

text \<open>Coordinates are 32 bits wide here, and the product may wrap around.\<close>

definition pixel_offset :: "framebuffer_info \<Rightarrow> u32 \<Rightarrow> u32 \<Rightarrow> usize" where
  "pixel_offset fb x y = ucast (y * bytes_per_line fb + x * (ucast (bits_per_pixel fb) div 8))"

definition encode_pixel_32 :: "framebuffer_info \<Rightarrow> u8 \<Rightarrow> u8 \<Rightarrow> u8 \<Rightarrow> u32" where
  "encode_pixel_32 fb r g b =
     shl32 (ucast r) (red_mask_pos fb) OR shl32 (ucast g) (green_mask_pos fb) OR shl32 (ucast b) (blue_mask_pos fb)"

definition encode_pixel_16 :: "framebuffer_info \<Rightarrow> u8 \<Rightarrow> u8 \<Rightarrow> u8 \<Rightarrow> u16" where
  "encode_pixel_16 fb r g b =
     shl16 (shr16 (ucast r) (8 - red_mask_size fb)) (red_mask_pos fb) OR
     shl16 (shr16 (ucast g) (8 - green_mask_size fb)) (green_mask_pos fb) OR
     shl16 (shr16 (ucast b) (8 - blue_mask_size fb)) (blue_mask_pos fb)"

definition write_pixel :: "framebuffer_info \<Rightarrow> u32 \<Rightarrow> u32 \<Rightarrow> u8 \<Rightarrow> u8 \<Rightarrow> u8 \<Rightarrow> memory \<Rightarrow> memory" where
  "write_pixel fb x y r g b m =
     (if x \<ge> x_resolution fb \<or> y \<ge> y_resolution fb then m
      else
        (let ptr = physical_address fb + pixel_offset fb x y
         in if bits_per_pixel fb = 32 then write_u32 m ptr (encode_pixel_32 fb r g b)
            else if bits_per_pixel fb = 24 then
              (if blue_mask_pos fb < red_mask_pos fb then write_bytes m ptr [b, g, r] else write_bytes m ptr [r, g, b])
            else if bits_per_pixel fb = 16 then write_u16 m ptr (encode_pixel_16 fb r g b)
            else m))"

definition clear :: "framebuffer_info \<Rightarrow> u8 \<Rightarrow> u8 \<Rightarrow> u8 \<Rightarrow> memory \<Rightarrow> memory" where
  "clear fb r g b m =
     foldl (\<lambda>m y. foldl (\<lambda>m x. write_pixel fb (of_nat x) (of_nat y) r g b m) m [0..<unat (x_resolution fb)]) m
       [0..<unat (y_resolution fb)]"

end
