(* ===== verification/Graphics_Props.thy ===== *)
theory Graphics_Props
  imports Graphics_Output
begin

text \<open>
  Block transfers as operations on pictures. The locale \<open>pixel_store\<close> is the contract of the framebuffer and of the
  caller's buffer: what was stored at a place is read there, and nothing else changes.
\<close>

definition ramp_memory :: memory where
  "ramp_memory a = ucast a"

section \<open>Rectangles\<close>

definition cells :: "nat \<Rightarrow> nat \<Rightarrow> (nat \<times> nat) list" where
  "cells w h = concat (map (\<lambda>y. map (\<lambda>x. (x, y)) [0..<w]) [0..<h])"

lemma cells_Suc: "cells w (Suc h) = cells w h @ map (\<lambda>x. (x, h)) [0..<w]"
  by (simp add: cells_def)

lemma set_cells: "set (cells w h) = {..<w} \<times> {..<h}"
  by (auto simp: cells_def)

definition before :: "nat \<times> nat \<Rightarrow> nat \<times> nat \<Rightarrow> bool" where
  "before c c' \<longleftrightarrow> snd c < snd c' \<or> snd c = snd c' \<and> fst c < fst c'"

lemma cells_ordered: "sorted_wrt before (cells w h)"
proof (induction h)
  case (Suc h)
  have "sorted_wrt before (map (\<lambda>x. (x, h)) [0..<w])"
    by (simp add: sorted_wrt_map before_def sorted_wrt_upt)
  moreover have "before c (x, h)" if "c \<in> set (cells w h)" for c x
    using that by (auto simp: set_cells before_def)
  ultimately show ?case
    using Suc by (auto simp: cells_Suc sorted_wrt_append)
qed (simp add: cells_def)

lemma foldl_cells:
  "foldl (\<lambda>m y. foldl (\<lambda>m x. f (of_nat x) (of_nat y) m) m [0..<w]) m [0..<h] =
   foldl (\<lambda>m c. f (of_nat (fst c)) (of_nat (snd c)) m) m (cells w h)"
  by (induction h arbitrary: m) (simp_all add: cells_Suc foldl_map, simp add: cells_def)

lemma foldl_cells_rev:
  "foldl (\<lambda>m y. foldl (\<lambda>m x. f (of_nat x) (of_nat y) m) m (rev [0..<w])) m (rev [0..<h]) =
   foldl (\<lambda>m c. f (of_nat (fst c)) (of_nat (snd c)) m) m (rev (cells w h))"
  by (induction h arbitrary: m) (simp_all add: cells_Suc foldl_map rev_map, simp add: cells_def)

lemma foldl_observe: "(\<And>m c. c \<in> set cs \<Longrightarrow> obs (f m c) = obs m) \<Longrightarrow> obs (foldl f m cs) = obs m"
  by (induction cs arbitrary: m) auto

section \<open>Stores of pixels\<close>

locale pixel_store =
  fixes get :: "memory \<Rightarrow> 'k \<Rightarrow> 'v" and put :: "memory \<Rightarrow> 'k \<Rightarrow> 'v \<Rightarrow> memory"
    and here :: "'k \<Rightarrow> bool" and stored :: "'v \<Rightarrow> 'v"
  assumes get_put: "here k \<Longrightarrow> get (put m k v) k = stored v"
    and get_other: "here k \<Longrightarrow> here k' \<Longrightarrow> k \<noteq> k' \<Longrightarrow> get (put m k v) k' = get m k'"
begin

text \<open>A loop that computes and stores one pixel after the other; no stored pixel disturbs a later computation.\<close>

lemma loop:
  assumes "distinct (map dst cs)" and "\<forall>c \<in> set cs. here (dst c)"
    and "sorted_wrt (\<lambda>c c'. \<forall>m v. f (put m (dst c) v) c' = f m c') cs"
  shows "(\<forall>c \<in> set cs. get (foldl (\<lambda>m c. put m (dst c) (f m c)) m cs) (dst c) = stored (f m c)) \<and>
    (\<forall>k. here k \<and> k \<notin> dst ` set cs \<longrightarrow> get (foldl (\<lambda>m c. put m (dst c) (f m c)) m cs) k = get m k)"
  using assms
proof (induction cs arbitrary: m)
  case (Cons c cs)
  let ?m = "put m (dst c) (f m c)"
  have "f ?m c' = f m c'" if "c' \<in> set cs" for c'
    using Cons.prems(3) that by simp
  moreover have "get ?m k = get m k" if "here k" "k \<noteq> dst c" for k
    using that Cons.prems(2) get_other by simp
  moreover have "get ?m (dst c) = stored (f m c)"
    using Cons.prems(2) get_put by simp
  ultimately show ?case
    using Cons.IH [of ?m] Cons.prems by auto
qed simp

end

section \<open>The framebuffer\<close>

definition pixel_bytes :: "framebuffer_info \<Rightarrow> nat" where
  "pixel_bytes fb = unat (bits_per_pixel fb) div 8"

definition positions_ok :: "nat \<Rightarrow> nat \<Rightarrow> bool" where
  "positions_ok a b \<longleftrightarrow> a + 8 \<le> b \<or> b + 8 \<le> a"

text \<open>A layout that the code supports: a line holds its pixels, and the colours of 32-bit pixels are bytes apart.\<close>

definition fb_ok :: "framebuffer_info \<Rightarrow> bool" where
  "fb_ok fb \<longleftrightarrow> bits_per_pixel fb \<in> {16, 24, 32} \<and> unat (x_resolution fb) * pixel_bytes fb \<le> unat (bytes_per_line fb) \<and>
     (bits_per_pixel fb = 32 \<longrightarrow>
        unat (red_mask_pos fb) \<le> 24 \<and> unat (green_mask_pos fb) \<le> 24 \<and> unat (blue_mask_pos fb) \<le> 24 \<and>
        positions_ok (unat (red_mask_pos fb)) (unat (green_mask_pos fb)) \<and>
        positions_ok (unat (red_mask_pos fb)) (unat (blue_mask_pos fb)) \<and>
        positions_ok (unat (green_mask_pos fb)) (unat (blue_mask_pos fb)))"

definition screen :: "framebuffer_info \<Rightarrow> (nat \<times> nat) set" where
  "screen fb = {..<unat (x_resolution fb)} \<times> {..<unat (y_resolution fb)}"

definition picture :: "framebuffer_info \<Rightarrow> memory \<Rightarrow> nat \<times> nat \<Rightarrow> blt_pixel" where
  "picture fb m c = read_pixel_from_fb m fb (of_nat (fst c)) (of_nat (snd c))"

definition set_pixel :: "framebuffer_info \<Rightarrow> memory \<Rightarrow> nat \<times> nat \<Rightarrow> blt_pixel \<Rightarrow> memory" where
  "set_pixel fb m c p = write_pixel_to_fb m fb (of_nat (fst c)) (of_nat (snd c)) p"

text \<open>What a pixel looks like once it is on the screen: 16-bit pixels keep the upper bits of each colour.\<close>

definition shown :: "framebuffer_info \<Rightarrow> blt_pixel \<Rightarrow> blt_pixel" where
  "shown fb p =
     (if bits_per_pixel fb = 16
      then \<lparr>blue = push_bit 3 (drop_bit 3 (blue p)), green = push_bit 2 (drop_bit 2 (green p)),
            red = push_bit 3 (drop_bit 3 (red p)), reserved = 0\<rparr>
      else p\<lparr>reserved := 0\<rparr>)"

definition fb_bytes :: "framebuffer_info \<Rightarrow> u64 set" where
  "fb_bytes fb = {physical_address fb + of_nat i |i. i < unat (bytes_per_line fb) * unat (y_resolution fb)}"

definition place :: "framebuffer_info \<Rightarrow> nat \<times> nat \<Rightarrow> nat" where
  "place fb c = snd c * unat (bytes_per_line fb) + fst c * pixel_bytes fb"

lemma fb_limit: "unat (bytes_per_line fb) * unat (y_resolution fb) < 2 ^ 64"
proof -
  have "unat (bytes_per_line fb) * unat (y_resolution fb) < 2 ^ 32 * 2 ^ 32"
    using unat_bound [of "bytes_per_line fb"] unat_bound [of "y_resolution fb"] by (intro mult_strict_mono) simp_all
  then show ?thesis
    by simp
qed

lemma pixel_address_eq:
  "pixel_address fb (of_nat (fst c)) (of_nat (snd c)) = physical_address fb + of_nat (place fb c)"
proof -
  have "(ucast (bytes_per_line fb) :: u64) = of_nat (unat (bytes_per_line fb))"
    by (simp add: unat_ucast_widen flip: word_unat_eq_iff)
  moreover have "(ucast (bits_per_pixel fb div 8) :: u64) = of_nat (unat (bits_per_pixel fb div 8))"
    by simp
  then have "(ucast (bits_per_pixel fb div 8) :: u64) = of_nat (pixel_bytes fb)"
    by (simp only: pixel_bytes_def unat_div_eq) simp
  ultimately show ?thesis
    by (simp add: pixel_address_def place_def)
qed

lemma place_bound:
  assumes "fb_ok fb" and "c \<in> screen fb"
  shows "place fb c + pixel_bytes fb \<le> unat (bytes_per_line fb) * unat (y_resolution fb)"
proof -
  have "Suc (fst c) * pixel_bytes fb \<le> unat (x_resolution fb) * pixel_bytes fb"
    using assms(2) by (intro mult_right_mono) (auto simp: screen_def)
  also have "\<dots> \<le> unat (bytes_per_line fb)"
    using assms(1) by (simp add: fb_ok_def)
  finally have "place fb c + pixel_bytes fb \<le> Suc (snd c) * unat (bytes_per_line fb)"
    by (simp add: place_def)
  also have "\<dots> \<le> unat (y_resolution fb) * unat (bytes_per_line fb)"
    using assms(2) by (intro mult_right_mono) (auto simp: screen_def)
  finally show ?thesis
    by (simp add: mult.commute)
qed

lemma place_apart:
  assumes "fb_ok fb" and "c \<in> screen fb" and "c' \<in> screen fb" and "before c c'"
  shows "place fb c + pixel_bytes fb \<le> place fb c'"
proof -
  have row: "Suc (fst c) * pixel_bytes fb \<le> unat (bytes_per_line fb)"
  proof -
    have "Suc (fst c) * pixel_bytes fb \<le> unat (x_resolution fb) * pixel_bytes fb"
      using assms(2) by (intro mult_right_mono) (auto simp: screen_def)
    then show ?thesis
      using assms(1) by (simp add: fb_ok_def)
  qed
  from assms(4) consider "snd c < snd c'" | "snd c = snd c'" "fst c < fst c'"
    by (auto simp: before_def)
  then show ?thesis
  proof cases
    case 1
    then have "Suc (snd c) * unat (bytes_per_line fb) \<le> snd c' * unat (bytes_per_line fb)"
      by (intro mult_right_mono) auto
    then show ?thesis
      using row by (simp add: place_def)
  next
    case 2
    then have "Suc (fst c) * pixel_bytes fb \<le> fst c' * pixel_bytes fb"
      by (intro mult_right_mono) auto
    then show ?thesis
      using 2 by (simp add: place_def)
  qed
qed

text \<open>Bytes of different pixels are different.\<close>

lemma place_distance:
  assumes "fb_ok fb" and "c \<in> screen fb" and "c' \<in> screen fb" and "c \<noteq> c'" and "j < pixel_bytes fb"
  shows "pixel_bytes fb \<le> unat (of_nat (place fb c' + j) - of_nat (place fb c) :: u64)"
proof -
  note bound = place_bound [OF assms(1,2)] place_bound [OF assms(1,3)] fb_limit [of fb]
  have "before c c' \<or> before c' c"
    using assms(4) unfolding before_def prod_eq_iff by linarith
  then consider "before c c'" | "before c' c"
    by blast
  then show ?thesis
  proof cases
    case 1
    have "place fb c + pixel_bytes fb \<le> place fb c'"
      using assms 1 by (intro place_apart)
    then show ?thesis
      using bound assms(5) by (subst unat_ahead) auto
  next
    case 2
    have "place fb c' + pixel_bytes fb \<le> place fb c"
      using assms 2 by (intro place_apart)
    then show ?thesis
      using bound assms(5) by (subst unat_behind) auto
  qed
qed

lemma fb_formats:
  assumes "fb_ok fb"
  obtains "bits_per_pixel fb = 32" "pixel_bytes fb = 4" | "bits_per_pixel fb = 24" "pixel_bytes fb = 3"
    | "bits_per_pixel fb = 16" "pixel_bytes fb = 2"
  using assms by (auto simp: fb_ok_def pixel_bytes_def)

lemma set_pixel_outside:
  assumes "fb_ok fb" and "pixel_bytes fb \<le> unat (a - (physical_address fb + of_nat (place fb c)))"
  shows "set_pixel fb m c p a = m a"
  using assms(2)
  by (cases rule: fb_formats [OF assms(1)])
    (simp_all add: set_pixel_def write_pixel_to_fb_def pixel_address_eq write_u32_def write_u16_def write_bytes_outside Let_def)

lemma picture_cong:
  assumes "fb_ok fb"
    and "\<And>j. j < pixel_bytes fb \<Longrightarrow> m (physical_address fb + of_nat (place fb c) + of_nat j) = m' (physical_address fb + of_nat (place fb c) + of_nat j)"
  shows "picture fb m c = picture fb m' c"
proof (cases rule: fb_formats [OF assms(1)])
  case 1
  then have "read_bytes m (physical_address fb + of_nat (place fb c)) 4 = read_bytes m' (physical_address fb + of_nat (place fb c)) 4"
    using assms(2) by (intro read_bytes_cong) simp
  then show ?thesis
    using 1 by (simp add: picture_def read_pixel_from_fb_def pixel_address_eq read_u32_def)
next
  case 2
  then show ?thesis
    using assms(2) [of 0] assms(2) [of 1] assms(2) [of 2]
    by (simp add: picture_def read_pixel_from_fb_def pixel_address_eq Let_def)
next
  case 3
  then have "read_bytes m (physical_address fb + of_nat (place fb c)) 2 = read_bytes m' (physical_address fb + of_nat (place fb c)) 2"
    using assms(2) by (intro read_bytes_cong) simp
  then show ?thesis
    using 3 by (simp add: picture_def read_pixel_from_fb_def pixel_address_eq read_u16_def)
qed

lemma masks: "(0xFF :: u32) = mask 8" "(0x1F :: u16) = mask 5" "(0x3F :: u16) = mask 6"
  by (simp_all add: mask_eq_exp_minus_1)

lemma colour_of_32:
  fixes r g b :: u8
  assumes "i \<le> 24" and "positions_ok i j" and "positions_ok i k"
  shows "ucast (drop_bit i (push_bit i (ucast r :: u32) OR push_bit j (ucast g) OR push_bit k (ucast b)) AND 0xFF) = r"
proof (rule bit_eqI)
  fix n
  assume "possible_bit TYPE(u8) n"
  then have n: "n < 8"
    by simp
  have ff: "bit (0xFF :: u32) n"
    using n by (simp add: masks bit_mask_iff)
  have far: "\<not> (j \<le> i + n \<and> bit (ucast g :: u32) (i + n - j))" if "positions_ok i j" for j and g :: u8
    using that n by (auto simp: positions_ok_def bit_unsigned_iff dest: bit_imp_le_length)
  show "bit (ucast (drop_bit i (push_bit i (ucast r :: u32) OR push_bit j (ucast g) OR push_bit k (ucast b)) AND 0xFF) :: u8) n = bit r n"
    using n assms(1) far [OF assms(2)] far [OF assms(3)] ff
    by (auto simp: bit_simps)
qed

lemma colours_of_16:
  fixes r g b :: u8
  defines "v \<equiv> push_bit 11 (ucast (drop_bit 3 r) :: u16) OR push_bit 5 (ucast (drop_bit 2 g)) OR ucast (drop_bit 3 b)"
  shows "ucast (push_bit 3 (drop_bit 11 v)) = push_bit 3 (drop_bit 3 r)"
    "ucast (push_bit 2 (drop_bit 5 v AND 0x3F)) = push_bit 2 (drop_bit 2 g)"
    "ucast (push_bit 3 (v AND 0x1F)) = push_bit 3 (drop_bit 3 b)"
proof -
  have short: "bit x n \<Longrightarrow> n < 8" for x :: u8 and n
    using bit_imp_le_length [of x n] by simp
  show "ucast (push_bit 3 (drop_bit 11 v)) = push_bit 3 (drop_bit 3 r)"
    by (rule bit_eqI) (auto simp: v_def bit_simps dest: short)
  show "ucast (push_bit 2 (drop_bit 5 v AND 0x3F)) = push_bit 2 (drop_bit 2 g)"
    unfolding masks by (rule bit_eqI) (auto simp: v_def bit_simps dest: short)
  show "ucast (push_bit 3 (v AND 0x1F)) = push_bit 3 (drop_bit 3 b)"
    unfolding masks by (rule bit_eqI) (auto simp: v_def bit_simps dest: short)
qed

lemma picture_set_pixel:
  assumes "fb_ok fb"
  shows "picture fb (set_pixel fb m c p) c = shown fb p"
proof (cases rule: fb_formats [OF assms])
  case 1
  let ?r = "unat (red_mask_pos fb)" and ?g = "unat (green_mask_pos fb)" and ?b = "unat (blue_mask_pos fb)"
  have pos: "?r \<le> 24" "?g \<le> 24" "?b \<le> 24" "positions_ok ?r ?g" "positions_ok ?r ?b" "positions_ok ?g ?b"
    "positions_ok ?g ?r" "positions_ok ?b ?r" "positions_ok ?b ?g"
    using assms 1 by (auto simp: fb_ok_def positions_ok_def)
  then have sh: "shl32 v (red_mask_pos fb) = push_bit ?r v" "shl32 v (green_mask_pos fb) = push_bit ?g v"
    "shl32 v (blue_mask_pos fb) = push_bit ?b v" "shr32 v (red_mask_pos fb) = drop_bit ?r v"
    "shr32 v (green_mask_pos fb) = drop_bit ?g v" "shr32 v (blue_mask_pos fb) = drop_bit ?b v" for v
    by (simp_all add: shl32_def shr32_def)
  define v where "v = push_bit ?r (ucast (red p) :: u32) OR push_bit ?g (ucast (green p)) OR push_bit ?b (ucast (blue p))"
  have v: "v = push_bit ?g (ucast (green p)) OR push_bit ?r (ucast (red p)) OR push_bit ?b (ucast (blue p))"
    "v = push_bit ?b (ucast (blue p)) OR push_bit ?r (ucast (red p)) OR push_bit ?g (ucast (green p))"
    by (simp_all add: v_def ac_simps)
  have "ucast (drop_bit ?r v AND 0xFF) = red p" "ucast (drop_bit ?g v AND 0xFF) = green p" "ucast (drop_bit ?b v AND 0xFF) = blue p"
    using colour_of_32 [OF pos(1,4,5)] colour_of_32 [OF pos(2,7,6)] colour_of_32 [OF pos(3,8,9)]
    by (simp only: v_def, simp only: v(1), simp only: v(2))
  then show ?thesis
    using 1 by (simp add: picture_def set_pixel_def read_pixel_from_fb_def write_pixel_to_fb_def Let_def sh shown_def flip: v_def)
next
  case 2
  let ?a = "physical_address fb + of_nat (place fb c)"
  have "write_bytes m ?a [x, y, z] ?a = x" "write_bytes m ?a [x, y, z] (?a + 1) = y" "write_bytes m ?a [x, y, z] (?a + 2) = z" for x y z
    using write_bytes_inside [of 0 "[x, y, z]" m ?a] write_bytes_inside [of 1 "[x, y, z]" m ?a]
      write_bytes_inside [of 2 "[x, y, z]" m ?a] by simp_all
  then show ?thesis
    using 2 by (simp add: picture_def set_pixel_def read_pixel_from_fb_def write_pixel_to_fb_def Let_def shown_def pixel_address_eq)
next
  case 3
  define v where "v = push_bit 11 (ucast (drop_bit 3 (red p)) :: u16) OR push_bit 5 (ucast (drop_bit 2 (green p))) OR ucast (drop_bit 3 (blue p))"
  note colours_of_16 [of "red p" "green p" "blue p", folded v_def]
  then show ?thesis
    using 3 by (simp add: picture_def set_pixel_def read_pixel_from_fb_def write_pixel_to_fb_def Let_def shown_def flip: v_def)
qed

lemma framebuffer_store:
  assumes "fb_ok fb"
  shows "pixel_store (picture fb) (set_pixel fb) (\<lambda>c. c \<in> screen fb) (shown fb)"
proof
  fix m and c c' :: "nat \<times> nat" and p
  assume "c \<in> screen fb" "c' \<in> screen fb" "c \<noteq> c'"
  note far = place_distance [OF assms this]
  show "picture fb (set_pixel fb m c p) c' = picture fb m c'"
  proof (rule picture_cong [OF assms])
    fix j
    assume "j < pixel_bytes fb"
    from far [OF this]
    show "set_pixel fb m c p (physical_address fb + of_nat (place fb c') + of_nat j) =
        m (physical_address fb + of_nat (place fb c') + of_nat j)"
      by (intro set_pixel_outside [OF assms]) (simp add: algebra_simps)
  qed
qed (rule picture_set_pixel [OF assms])

section \<open>The buffer of the caller\<close>

lemma buffer_pixel_cong:
  assumes "\<And>j. j < 4 \<Longrightarrow> m (buf + of_nat (4 * i + j)) = m' (buf + of_nat (4 * i + j))"
  shows "buffer_pixel m buf (of_nat i) = buffer_pixel m' buf (of_nat i)"
  using assms [of 0] assms [of 1] assms [of 2] assms [of 3]
  by (simp add: buffer_pixel_def BLT_PIXEL_SIZE_def Let_def algebra_simps)

lemma set_buffer_pixel_outside:
  "4 \<le> unat (a - (buf + of_nat (4 * i))) \<Longrightarrow> set_buffer_pixel m buf (of_nat i) p a = m a"
  by (simp add: set_buffer_pixel_def BLT_PIXEL_SIZE_def write_bytes_outside)

lemma buffer_store: "pixel_store (\<lambda>m i. buffer_pixel m buf (of_nat i)) (\<lambda>m i. set_buffer_pixel m buf (of_nat i)) (\<lambda>i. i < 2 ^ 62) (\<lambda>p. p)"
proof
  fix m i and p :: blt_pixel
  let ?bs = "[blue p, green p, red p, reserved p]" and ?a = "buf + 4 * of_nat i"
  show "buffer_pixel (set_buffer_pixel m buf (of_nat i) p) buf (of_nat i) = p"
    using write_bytes_inside [of 0 ?bs m ?a] write_bytes_inside [of 1 ?bs m ?a] write_bytes_inside [of 2 ?bs m ?a]
      write_bytes_inside [of 3 ?bs m ?a]
    by (simp add: buffer_pixel_def set_buffer_pixel_def BLT_PIXEL_SIZE_def Let_def)
next
  fix m and p :: blt_pixel and i k :: nat
  assume ik: "i < 2 ^ 62" "k < 2 ^ 62" "i \<noteq> k"
  show "buffer_pixel (set_buffer_pixel m buf (of_nat i) p) buf (of_nat k) = buffer_pixel m buf (of_nat k)"
  proof (rule buffer_pixel_cong, rule set_buffer_pixel_outside)
    fix j :: nat
    assume j: "j < 4"
    have "buf + of_nat (4 * k + j) - (buf + of_nat (4 * i)) = (of_nat (4 * k + j) - of_nat (4 * i) :: u64)"
      by simp
    moreover have "4 \<le> unat (of_nat (4 * k + j) - of_nat (4 * i) :: u64)"
    proof (cases "i < k")
      case True
      then show ?thesis
        using ik j by (subst unat_ahead) auto
    next
      case False
      then show ?thesis
        using ik j by (subst unat_behind) auto
    qed
    ultimately show "4 \<le> unat (buf + of_nat (4 * k + j) - (buf + of_nat (4 * i)))"
      by simp
  qed
qed

interpretation blt_buffer: pixel_store "\<lambda>m i. buffer_pixel m buf (of_nat i)" "\<lambda>m i. set_buffer_pixel m buf (of_nat i)"
    "\<lambda>i. i < 2 ^ 62" "\<lambda>p. p" for buf
  by (rule buffer_store)

section \<open>Transfers\<close>

definition on_screen :: "framebuffer_info \<Rightarrow> usize \<Rightarrow> usize \<Rightarrow> usize \<Rightarrow> usize \<Rightarrow> bool" where
  "on_screen fb x y width height \<longleftrightarrow>
     unat x + unat width \<le> unat (x_resolution fb) \<and> unat y + unat height \<le> unat (y_resolution fb)"

definition rectangle :: "usize \<Rightarrow> usize \<Rightarrow> usize \<Rightarrow> usize \<Rightarrow> (nat \<times> nat) set" where
  "rectangle x y width height = {unat x..<unat x + unat width} \<times> {unat y..<unat y + unat height}"

definition shift :: "usize \<Rightarrow> usize \<Rightarrow> nat \<times> nat \<Rightarrow> nat \<times> nat" where
  "shift x y c = (unat x + fst c, unat y + snd c)"

text \<open>The picture changes in a rectangle only, and memory only in the framebuffer.\<close>

definition draws :: "framebuffer_info \<Rightarrow> memory \<Rightarrow> memory \<Rightarrow> (nat \<times> nat) set \<Rightarrow> (nat \<times> nat \<Rightarrow> blt_pixel) \<Rightarrow> bool" where
  "draws fb m m' R g \<longleftrightarrow> (\<forall>k \<in> screen fb. picture fb m' k = (if k \<in> R then g k else picture fb m k)) \<and>
     (\<forall>a. a \<notin> fb_bytes fb \<longrightarrow> m' a = m a)"

lemma distinct_cells: "distinct (cells w h)"
proof -
  have "distinct xs" if "sorted_wrt before xs" for xs
    using that by (induction xs) (auto simp: before_def)
  then show ?thesis
    using cells_ordered by blast
qed

lemma shift_inj: "shift x y c = shift x y c' \<longleftrightarrow> c = c'"
  by (auto simp: shift_def prod_eq_iff)

lemma shift_cells: "shift x y ` set (cells (unat w) (unat h)) = rectangle x y w h"
proof (intro equalityI subsetI)
  fix k
  assume "k \<in> rectangle x y w h"
  then have "k = shift x y (fst k - unat x, snd k - unat y)" "(fst k - unat x, snd k - unat y) \<in> set (cells (unat w) (unat h))"
    by (auto simp: rectangle_def shift_def set_cells)
  then show "k \<in> shift x y ` set (cells (unat w) (unat h))"
    by blast
qed (auto simp: rectangle_def shift_def set_cells)

lemma shift_screen: "on_screen fb x y w h \<Longrightarrow> c \<in> set (cells (unat w) (unat h)) \<Longrightarrow> shift x y c \<in> screen fb"
  by (auto simp: on_screen_def shift_def screen_def set_cells)

lemma set_pixel_elsewhere:
  assumes "fb_ok fb" and "c \<in> screen fb" and "a \<notin> fb_bytes fb"
  shows "set_pixel fb m c p a = m a"
proof (rule set_pixel_outside [OF assms(1)], rule ccontr)
  let ?j = "unat (a - (physical_address fb + of_nat (place fb c)))"
  assume "\<not> pixel_bytes fb \<le> ?j"
  then have "place fb c + ?j < unat (bytes_per_line fb) * unat (y_resolution fb)"
    using place_bound [OF assms(1,2)] by simp
  moreover have "a = physical_address fb + of_nat (place fb c + ?j)"
    by simp
  ultimately show False
    using assms(3) unfolding fb_bytes_def by blast
qed

lemma video_loop:
  assumes fb: "fb_ok fb" and on: "on_screen fb x y w h"
    and cs: "set cs = set (cells (unat w) (unat h))" "distinct cs"
    and free: "sorted_wrt (\<lambda>c c'. \<forall>m v. f (set_pixel fb m (shift x y c) v) c' = f m c') cs"
  shows "draws fb m (foldl (\<lambda>m c. set_pixel fb m (shift x y c) (f m c)) m cs) (rectangle x y w h)
    (\<lambda>k. shown fb (f m (fst k - unat x, snd k - unat y)))"
proof -
  let ?m = "foldl (\<lambda>m c. set_pixel fb m (shift x y c) (f m c)) m cs"
  have "distinct (map (shift x y) cs)"
    using cs(2) by (simp add: distinct_map inj_on_def shift_inj)
  then have eff: "(\<forall>c \<in> set cs. picture fb ?m (shift x y c) = shown fb (f m c)) \<and>
      (\<forall>k. k \<in> screen fb \<and> k \<notin> shift x y ` set cs \<longrightarrow> picture fb ?m k = picture fb m k)"
    using on cs(1) free by (intro pixel_store.loop [OF framebuffer_store [OF fb]]) (auto intro: shift_screen)
  have "picture fb ?m k = (if k \<in> rectangle x y w h then shown fb (f m (fst k - unat x, snd k - unat y)) else picture fb m k)"
    if "k \<in> screen fb" for k
  proof (cases "k \<in> rectangle x y w h")
    case True
    then obtain c where c: "c \<in> set cs" "k = shift x y c"
      using shift_cells [of x y w h] cs(1) by blast
    then have "(fst k - unat x, snd k - unat y) = c"
      by (simp add: shift_def)
    then show ?thesis
      using eff c True by simp
  next
    case False
    then have "k \<notin> shift x y ` set cs"
      unfolding cs(1) shift_cells .
    then have "picture fb ?m k = picture fb m k"
      using conjunct2 [OF eff] that by blast
    then show ?thesis
      using False by simp
  qed
  moreover have "?m a = m a" if "a \<notin> fb_bytes fb" for a
    using cs(1) set_pixel_elsewhere [OF fb shift_screen [OF on] that]
    by (intro foldl_observe [where obs = "\<lambda>m. m a"]) simp
  ultimately show ?thesis
    by (simp add: draws_def)
qed

lemma for_rectangle_eq:
  "for_rectangle w h f m = foldl (\<lambda>m c. f (of_nat (fst c)) (of_nat (snd c)) m) m (cells (unat w) (unat h))"
  "for_rectangle_rev w h f m = foldl (\<lambda>m c. f (of_nat (fst c)) (of_nat (snd c)) m) m (rev (cells (unat w) (unat h)))"
  by (simp_all add: for_rectangle_def for_rectangle_rev_def foldl_cells foldl_cells_rev)

lemma at_shift:
  "write_pixel_to_fb m fb (x + of_nat (fst c)) (y + of_nat (snd c)) p = set_pixel fb m (shift x y c) p"
  "read_pixel_from_fb m fb (x + of_nat (fst c)) (y + of_nat (snd c)) = picture fb m (shift x y c)"
  by (simp_all add: set_pixel_def picture_def shift_def)

lemma outside_fb_iff:
  assumes "unat x + unat w < 2 ^ 64" and "unat y + unat h < 2 ^ 64"
  shows "outside_fb fb x y w h \<longleftrightarrow> \<not> on_screen fb x y w h"
  using assms by (auto simp: outside_fb_def on_screen_def word_less_nat_alt unat_plus_less unat_ucast_widen)

lemma on_screen_outside: "on_screen fb x y w h \<Longrightarrow> \<not> outside_fb fb x y w h"
  using unat_bound [of "x_resolution fb"] unat_bound [of "y_resolution fb"] outside_fb_iff [of x w y h fb]
  by (simp add: on_screen_def)

lemma shown_picture: "fb_ok fb \<Longrightarrow> shown fb (picture fb m c) = picture fb m c"
proof -
  have high: "push_bit k (drop_bit k (ucast (push_bit k v :: u16))) = (ucast (push_bit k v) :: u8)" for k v
    by (rule bit_eqI) (auto simp: bit_simps)
  show "fb_ok fb \<Longrightarrow> ?thesis"
    by (erule fb_formats) (simp_all add: shown_def picture_def read_pixel_from_fb_def Let_def high del: push_bit_and)
qed

text \<open>Copying within the screen: in the order that the code chooses no pixel is overwritten before it is read.\<close>

lemma copy_forward:
  assumes "fb_ok fb" and "on_screen fb sx sy w h" and "on_screen fb dx dy w h"
    and dir: "unat dy < unat sy \<or> unat dy = unat sy \<and> unat dx \<le> unat sx"
  shows "sorted_wrt (\<lambda>c c'. \<forall>m v. picture fb (set_pixel fb m (shift dx dy c) v) (shift sx sy c') = picture fb m (shift sx sy c'))
    (cells (unat w) (unat h))"
proof (rule sorted_wrt_mono_rel [OF _ cells_ordered], intro allI)
  fix c c' m v
  assume cc: "c \<in> set (cells (unat w) (unat h))" "c' \<in> set (cells (unat w) (unat h))" "before c c'"
  then have "shift dx dy c \<noteq> shift sx sy c'"
    using dir by (auto simp: before_def shift_def)
  then show "picture fb (set_pixel fb m (shift dx dy c) v) (shift sx sy c') = picture fb m (shift sx sy c')"
    using cc assms by (intro pixel_store.get_other [OF framebuffer_store] shift_screen)
qed

lemma copy_backward:
  assumes "fb_ok fb" and "on_screen fb sx sy w h" and "on_screen fb dx dy w h"
    and dir: "unat sy < unat dy \<or> unat dy = unat sy \<and> unat sx \<le> unat dx"
  shows "sorted_wrt (\<lambda>c c'. \<forall>m v. picture fb (set_pixel fb m (shift dx dy c) v) (shift sx sy c') = picture fb m (shift sx sy c'))
    (rev (cells (unat w) (unat h)))"
  unfolding sorted_wrt_rev
proof (rule sorted_wrt_mono_rel [OF _ cells_ordered], intro allI)
  fix c c' m v
  assume cc: "c \<in> set (cells (unat w) (unat h))" "c' \<in> set (cells (unat w) (unat h))" "before c c'"
  then have "shift dx dy c' \<noteq> shift sx sy c"
    using dir by (auto simp: before_def shift_def)
  then show "picture fb (set_pixel fb m (shift dx dy c') v) (shift sx sy c) = picture fb m (shift sx sy c)"
    using cc assms by (intro pixel_store.get_other [OF framebuffer_store] shift_screen)
qed

text \<open>The buffer: lines of \<open>line\<close> pixels, apart from the framebuffer.\<close>

definition buffer_index :: "usize \<Rightarrow> usize \<Rightarrow> usize \<Rightarrow> nat \<times> nat \<Rightarrow> nat" where
  "buffer_index line x y c = (unat y + snd c) * unat line + (unat x + fst c)"

definition buffer_ok :: "framebuffer_info \<Rightarrow> u64 \<Rightarrow> usize \<Rightarrow> usize \<Rightarrow> usize \<Rightarrow> usize \<Rightarrow> usize \<Rightarrow> bool" where
  "buffer_ok fb buf line x y w h \<longleftrightarrow> unat x + unat w \<le> unat line \<and>
     (\<forall>c \<in> set (cells (unat w) (unat h)). buffer_index line x y c < 2 ^ 62 \<and>
        (\<forall>j < 4. buf + of_nat (4 * buffer_index line x y c + j) \<notin> fb_bytes fb))"

definition buffer_bytes :: "u64 \<Rightarrow> usize \<Rightarrow> usize \<Rightarrow> usize \<Rightarrow> usize \<Rightarrow> usize \<Rightarrow> u64 set" where
  "buffer_bytes buf line x y w h =
     {buf + of_nat (4 * buffer_index line x y c + j) |c j. c \<in> set (cells (unat w) (unat h)) \<and> j < 4}"

lemma index_eq: "(y + of_nat (snd c)) * line + (x + of_nat (fst c)) = of_nat (buffer_index line x y c)"
  by (simp add: buffer_index_def)

lemma buffer_index_inj:
  assumes "unat x + unat w \<le> unat line" and "c \<in> set (cells (unat w) (unat h))" and "c' \<in> set (cells (unat w) (unat h))"
    and eq: "buffer_index line x y c = buffer_index line x y c'"
  shows "c = c'"
proof -
  have lt: "unat x + fst c < unat line" "unat x + fst c' < unat line"
    using assms(1-3) by (auto simp: set_cells)
  have "unat x + fst c + unat line * (unat y + snd c) = unat x + fst c' + unat line * (unat y + snd c')"
    using eq by (simp add: buffer_index_def algebra_simps)
  then have "(unat x + fst c + unat line * (unat y + snd c)) div unat line = (unat x + fst c' + unat line * (unat y + snd c')) div unat line"
    by (rule arg_cong)
  then have "snd c = snd c'"
    using lt by simp
  then show ?thesis
    using eq by (simp add: buffer_index_def prod_eq_iff)
qed

lemma picture_buffer:
  assumes "fb_ok fb" and "k \<in> screen fb" and "\<forall>j < 4. buf + of_nat (4 * i + j) \<notin> fb_bytes fb"
  shows "picture fb (set_buffer_pixel m buf (of_nat i) p) k = picture fb m k"
proof (rule picture_cong [OF assms(1)], rule set_buffer_pixel_outside, rule ccontr)
  fix j
  let ?a = "physical_address fb + of_nat (place fb k) + of_nat j"
  let ?j = "unat (?a - (buf + of_nat (4 * i)))"
  assume "j < pixel_bytes fb" and near: "\<not> 4 \<le> ?j"
  then have "place fb k + j < unat (bytes_per_line fb) * unat (y_resolution fb)"
    using place_bound [OF assms(1,2)] by simp
  then have "?a \<in> fb_bytes fb"
    unfolding fb_bytes_def by (intro CollectI exI [of _ "place fb k + j"]) simp
  moreover have "?a = buf + of_nat (4 * i + ?j)"
    by simp
  ultimately show False
    using assms(3) near by (metis not_le)
qed

lemma buffer_video:
  assumes "fb_ok fb" and "k \<in> screen fb" and "\<forall>j < 4. buf + of_nat (4 * i + j) \<notin> fb_bytes fb"
  shows "buffer_pixel (set_pixel fb m k p) buf (of_nat i) = buffer_pixel m buf (of_nat i)"
  using assms by (intro buffer_pixel_cong set_pixel_elsewhere) simp_all

lemma draws_cong: "draws fb m m' R g \<Longrightarrow> (\<And>k. k \<in> R \<Longrightarrow> g k = g' k) \<Longrightarrow> draws fb m m' R g'"
  by (simp add: draws_def)

lemma fill_draws:
  assumes "fb_ok fb" and "on_screen fb dx dy w h"
  shows "draws fb m (for_rectangle w h (\<lambda>x y m. write_pixel_to_fb m fb (dx + x) (dy + y) p) m) (rectangle dx dy w h) (\<lambda>_. shown fb p)"
  using video_loop [OF assms refl distinct_cells, of "\<lambda>_ _. p" m]
  by (simp add: for_rectangle_eq at_shift sorted_wrt_true)

lemma buffer_draws:
  assumes "fb_ok fb" and "on_screen fb dx dy w h" and "buffer_ok fb buf line sx sy w h"
  shows "draws fb m (for_rectangle w h (\<lambda>x y m. write_pixel_to_fb m fb (dx + x) (dy + y) (buffer_pixel m buf ((sy + y) * line + (sx + x)))) m)
    (rectangle dx dy w h) (\<lambda>k. shown fb (buffer_pixel m buf (of_nat (buffer_index line sx sy (fst k - unat dx, snd k - unat dy)))))"
proof -
  have "sorted_wrt (\<lambda>c c'. \<forall>m v. buffer_pixel (set_pixel fb m (shift dx dy c) v) buf (of_nat (buffer_index line sx sy c')) =
      buffer_pixel m buf (of_nat (buffer_index line sx sy c'))) (cells (unat w) (unat h))"
    using assms by (intro sorted_wrt_mono_rel [OF _ cells_ordered] allI buffer_video shift_screen) (auto simp: buffer_ok_def)
  from video_loop [OF assms(1,2) refl distinct_cells this] show ?thesis
    by (simp add: for_rectangle_eq at_shift index_eq)
qed

lemma copy_draws:
  assumes "fb_ok fb" and "on_screen fb sx sy w h" and "on_screen fb dx dy w h"
  defines "copy \<equiv> \<lambda>x y m. write_pixel_to_fb m fb (dx + x) (dy + y) (read_pixel_from_fb m fb (sx + x) (sy + y))"
  shows "draws fb m (if dy < sy \<or> dy = sy \<and> dx \<le> sx then for_rectangle w h copy m else for_rectangle_rev w h copy m)
    (rectangle dx dy w h) (\<lambda>k. picture fb m (shift sx sy (fst k - unat dx, snd k - unat dy)))"
proof (cases "dy < sy \<or> dy = sy \<and> dx \<le> sx")
  case True
  then have dir: "unat dy < unat sy \<or> unat dy = unat sy \<and> unat dx \<le> unat sx"
    by (auto simp: word_less_nat_alt word_le_nat_alt word_unat_eq_iff)
  show ?thesis
    using True video_loop [OF assms(1,3) refl distinct_cells copy_forward [OF assms(1-3) dir], of m]
    by (simp add: copy_def for_rectangle_eq at_shift shown_picture [OF assms(1)])
next
  case False
  then have dir: "unat sy < unat dy \<or> unat dy = unat sy \<and> unat sx \<le> unat dx"
    by (auto simp: word_less_nat_alt word_le_nat_alt word_unat_eq_iff)
  show ?thesis
    unfolding if_not_P [OF False]
    using video_loop [OF assms(1,3) set_rev _ copy_backward [OF assms(1-3) dir], of m] distinct_cells
    by (simp add: copy_def for_rectangle_eq at_shift shown_picture [OF assms(1)])
qed

lemma video_to_buffer:
  fixes m :: memory
  assumes fb: "fb_ok fb" and on: "on_screen fb sx sy w h" and buf: "buffer_ok fb buf line dx dy w h"
  defines "m' \<equiv> for_rectangle w h (\<lambda>x y m. set_buffer_pixel m buf ((dy + y) * line + (dx + x)) (read_pixel_from_fb m fb (sx + x) (sy + y))) m"
  shows "(\<forall>c \<in> set (cells (unat w) (unat h)). buffer_pixel m' buf (of_nat (buffer_index line dx dy c)) = picture fb m (shift sx sy c)) \<and>
    (\<forall>a. a \<notin> buffer_bytes buf line dx dy w h \<longrightarrow> m' a = m a)"
proof
  let ?cs = "cells (unat w) (unat h)" and ?i = "buffer_index line dx dy"
  have m': "m' = foldl (\<lambda>m c. set_buffer_pixel m buf (of_nat (?i c)) (picture fb m (shift sx sy c))) m ?cs"
    by (simp add: m'_def for_rectangle_eq at_shift index_eq)
  have "distinct (map ?i ?cs)"
    unfolding distinct_map
  proof (intro conjI distinct_cells inj_onI)
    fix c c'
    assume "c \<in> set ?cs" "c' \<in> set ?cs" "?i c = ?i c'"
    with buf show "c = c'"
      unfolding buffer_ok_def by (elim conjE) (rule buffer_index_inj)
  qed
  moreover have "\<forall>c \<in> set ?cs. ?i c < 2 ^ 62"
    using buf by (simp add: buffer_ok_def)
  moreover have "sorted_wrt (\<lambda>c c'. \<forall>m v. picture fb (set_buffer_pixel m buf (of_nat (?i c)) v) (shift sx sy c') = picture fb m (shift sx sy c')) ?cs"
    using assms by (intro sorted_wrt_mono_rel [OF _ cells_ordered] allI picture_buffer shift_screen) (auto simp: buffer_ok_def)
  ultimately show "\<forall>c \<in> set ?cs. buffer_pixel m' buf (of_nat (?i c)) = picture fb m (shift sx sy c)"
    unfolding m' using blt_buffer.loop [of ?i ?cs "\<lambda>m c. picture fb m (shift sx sy c)" buf m] by blast
  show "\<forall>a. a \<notin> buffer_bytes buf line dx dy w h \<longrightarrow> m' a = m a"
  proof (intro allI impI)
    fix a
    assume a: "a \<notin> buffer_bytes buf line dx dy w h"
    have "set_buffer_pixel m buf (of_nat (?i c)) p a = m a" if "c \<in> set ?cs" for m c p
    proof (rule set_buffer_pixel_outside, rule ccontr)
      let ?j = "unat (a - (buf + of_nat (4 * ?i c)))"
      assume "\<not> 4 \<le> ?j"
      moreover have "a = buf + of_nat (4 * ?i c + ?j)"
        by simp
      ultimately show False
        using a that unfolding buffer_bytes_def by (metis (mono_tags, lifting) CollectI not_le)
    qed
    then show "m' a = m a"
      unfolding m' by (intro foldl_observe [where obs = "\<lambda>m. m a"])
  qed
qed

text \<open>What a transfer does.\<close>

definition blt_inside :: "framebuffer_info \<Rightarrow> blt_operation \<Rightarrow> usize \<Rightarrow> usize \<Rightarrow> usize \<Rightarrow> usize \<Rightarrow> usize \<Rightarrow> usize \<Rightarrow> bool" where
  "blt_inside fb op sx sy dx dy w h \<longleftrightarrow>
     (case op of
        VideoFill \<Rightarrow> on_screen fb dx dy w h
      | VideoToBltBuffer \<Rightarrow> on_screen fb sx sy w h
      | BufferToVideo \<Rightarrow> on_screen fb dx dy w h
      | VideoToVideo \<Rightarrow> on_screen fb sx sy w h \<and> on_screen fb dx dy w h)"

definition blt_buffer_ok :: "framebuffer_info \<Rightarrow> u64 \<Rightarrow> usize \<Rightarrow> blt_operation \<Rightarrow> usize \<Rightarrow> usize \<Rightarrow> usize \<Rightarrow> usize \<Rightarrow> usize \<Rightarrow> usize \<Rightarrow> bool" where
  "blt_buffer_ok fb buf line op sx sy dx dy w h \<longleftrightarrow>
     (op = VideoToBltBuffer \<longrightarrow> buffer_ok fb buf line dx dy w h) \<and> (op = BufferToVideo \<longrightarrow> buffer_ok fb buf line sx sy w h)"

definition blt_result ::
    "framebuffer_info \<Rightarrow> u64 \<Rightarrow> usize \<Rightarrow> blt_operation \<Rightarrow> usize \<Rightarrow> usize \<Rightarrow> usize \<Rightarrow> usize \<Rightarrow> usize \<Rightarrow> usize \<Rightarrow> memory \<Rightarrow> memory \<Rightarrow> bool" where
  "blt_result fb buf line op sx sy dx dy w h m m' \<longleftrightarrow>
     (case op of
        VideoFill \<Rightarrow> draws fb m m' (rectangle dx dy w h) (\<lambda>_. shown fb (buffer_pixel m buf 0))
      | BufferToVideo \<Rightarrow> draws fb m m' (rectangle dx dy w h)
          (\<lambda>k. shown fb (buffer_pixel m buf (of_nat (buffer_index line sx sy (fst k - unat dx, snd k - unat dy)))))
      | VideoToVideo \<Rightarrow> draws fb m m' (rectangle dx dy w h)
          (\<lambda>k. picture fb m (shift sx sy (fst k - unat dx, snd k - unat dy)))
      | VideoToBltBuffer \<Rightarrow>
          (\<forall>c \<in> set (cells (unat w) (unat h)).
             buffer_pixel m' buf (of_nat (buffer_index line dx dy c)) = picture fb m (shift sx sy c)) \<and>
          (\<forall>a. a \<notin> buffer_bytes buf line dx dy w h \<longrightarrow> m' a = m a))"


text \<open>A screen of four by four pixels.\<close>

definition tiny_fb :: framebuffer_info where
  "tiny_fb = \<lparr>physical_address = 0x1000, x_resolution = 4, y_resolution = 4, bytes_per_line = 16, bits_per_pixel = 32,
     red_mask_pos = 16, red_mask_size = 8, green_mask_pos = 8, green_mask_size = 8, blue_mask_pos = 0, blue_mask_size = 8\<rparr>"

lemma tiny_fb_ok: "fb_ok tiny_fb"
  by (simp add: fb_ok_def tiny_fb_def pixel_bytes_def positions_ok_def)

interpretation tiny_screen: pixel_store "picture tiny_fb" "set_pixel tiny_fb" "\<lambda>c. c \<in> screen tiny_fb" "shown tiny_fb"
  by (rule framebuffer_store [OF tiny_fb_ok])


section \<open>Rectangles that wrap around\<close>

text \<open>
  The check of the bounds adds with wrap-around: a rectangle of two pixels that starts at the last 64-bit coordinate
  is accepted, and its first pixel is written in front of the framebuffer.
\<close>

lemma fill_in_front_of_framebuffer:
  "\<exists>m'. gop_blt (Some tiny_fb) (\<lambda>_. 0xAA) 0x8000 0x9000 VideoFill 0 0 (- 1) 0 2 1 0 = (m', SUCCESS) \<and>
     0xFFF \<notin> fb_bytes tiny_fb \<and> m' 0xFFF \<noteq> 0xAA"
proof -
  have "0xFFF \<notin> fb_bytes tiny_fb"
  proof
    assume "0xFFF \<in> fb_bytes tiny_fb"
    then obtain i where i: "(0xFFF :: u64) = 0x1000 + of_nat i" "i < 64"
      by (auto simp: fb_bytes_def tiny_fb_def)
    have "of_nat i = (0x1000 + of_nat i) - (0x1000 :: u64)"
      by simp
    also have "\<dots> = 0xFFFFFFFFFFFFFFFF"
      unfolding i(1) [symmetric] by simp
    finally have "of_nat i = (0xFFFFFFFFFFFFFFFF :: u64)" .
    then have "unat (of_nat i :: u64) = unat (0xFFFFFFFFFFFFFFFF :: u64)"
      by (rule arg_cong)
    then show False
      using i(2) unat_of_nat_u64 [of i] by simp
  qed
  moreover have in_bounds: "\<not> outside_fb tiny_fb (- 1) 0 2 1"
    by (simp add: outside_fb_def tiny_fb_def)
  have two: "for_rectangle 2 1 f m = f 1 0 (f 0 0 m)" for f m
    by (simp add: for_rectangle_def upt_rec)
  let ?m = "write_u32 (\<lambda>_. 0xAA) 0xFFC 0xAAAAAA"
  have "gop_blt (Some tiny_fb) (\<lambda>_. 0xAA) 0x8000 0x9000 VideoFill 0 0 (- 1) 0 2 1 0 = (write_u32 ?m 0x1000 0xAAAAAA, SUCCESS)"
    using in_bounds
    by (simp add: gop_blt_def two write_pixel_to_fb_def pixel_address_def buffer_pixel_def shl32_def)
      (simp add: tiny_fb_def shl32_def)
  moreover have "write_u32 ?m 0x1000 0xAAAAAA 0xFFF = 0"
  proof -
    have "(4 :: nat) = Suc (Suc (Suc (Suc 0)))"
      by simp
    then have "le_bytes 4 0xAAAAAA = [0xAA, 0xAA, 0xAA, 0]"
      by (simp only: le_bytes.simps) simp
    moreover have "unat (- 1 :: u64) = 2 ^ 64 - 1"
      using unat_behind [of 0 1] by simp
    ultimately show ?thesis
      by (simp add: write_u32_def write_bytes_def)
  qed
  ultimately show ?thesis
    by simp
qed

end
