(* ===== verification/Firmware_Tables.thy ===== *)
theory Firmware_Tables
  imports Allocator_Correct Config_Tables Time_Base
begin

text \<open>
  Tables of the platform firmware: \<open>install_acpi_tables\<close>, \<open>mark_acpi_tables_memory\<close> and \<open>install_smbios_tables\<close> of
  \<open>src/src/efi/system_table.rs\<close>. Packed structures are read at their offsets, as in \<open>Time_Base\<close>.
\<close>

section \<open>Regions of ACPI tables\<close>

definition ACPI_20_TABLE_GUID :: guid where
  "ACPI_20_TABLE_GUID = Guid 0x8868e871 0xe4f1 0x11d3 0xbc 0x22 [0x00, 0x80, 0xc7, 0x3c, 0x88, 0x81]"

definition ACPI_TABLE_GUID :: guid where
  "ACPI_TABLE_GUID = Guid 0xeb9d2d30 0x2d88 0x11d3 0x9a 0x16 [0x00, 0x90, 0x27, 0x3f, 0xc1, 0x4d]"

definition SMBIOS_TABLE_GUID :: guid where
  "SMBIOS_TABLE_GUID = Guid 0xeb9d2d31 0x2d88 0x11d3 0x9a 0x16 [0x00, 0x90, 0x27, 0x3f, 0xc1, 0x4d]"

definition SMBIOS3_TABLE_GUID :: guid where
  "SMBIOS3_TABLE_GUID = Guid 0xf2fd1544 0x9794 0x4a2c 0x99 0x2e [0xe5, 0xbb, 0xcf, 0x20, 0xe3, 0x94]"

definition MAX_ACPI_REGIONS :: nat where "MAX_ACPI_REGIONS = 32"

record acpi_region =
  ar_start :: u64
  ar_end :: u64

definition add_region :: "u64 \<Rightarrow> u64 \<Rightarrow> acpi_region list \<Rightarrow> acpi_region list" where
  "add_region addr sz regions =
     (if length regions \<ge> MAX_ACPI_REGIONS \<or> sz = 0 then regions
      else regions @ [\<lparr>ar_start = addr AND NOT (PAGE_SIZE - 1), ar_end = (addr + sz + PAGE_SIZE - 1) AND NOT (PAGE_SIZE - 1)\<rparr>])"

definition sdt_length :: "memory \<Rightarrow> u64 \<Rightarrow> u64" where
  "sdt_length m addr = ucast (read_u32 m (addr + 4))"

text \<open>The tables that the FADT refers to: its 64-bit pointers, when it is long enough and they are set.\<close>

definition fadt_pointer :: "memory \<Rightarrow> u64 \<Rightarrow> u64 \<Rightarrow> u64 \<Rightarrow> u64 \<Rightarrow> u64" where
  "fadt_pointer m fadt needed wide narrow =
     (if sdt_length m fadt \<ge> needed \<and> read_u64 m (fadt + wide) \<noteq> 0 then read_u64 m (fadt + wide)
      else ucast (read_u32 m (fadt + narrow)))"

definition add_fadt_tables :: "memory \<Rightarrow> u64 \<Rightarrow> acpi_region list \<Rightarrow> acpi_region list" where
  "add_fadt_tables m fadt regions =
     (let dsdt = fadt_pointer m fadt 148 140 40;
          regions1 = (if dsdt \<noteq> 0 then add_region dsdt (sdt_length m dsdt) regions else regions);
          facs = fadt_pointer m fadt 140 132 36
      in if facs \<noteq> 0 then add_region facs (ucast (read_u32 m (facs + 4))) regions1 else regions1)"

definition add_table :: "memory \<Rightarrow> u64 \<Rightarrow> acpi_region list \<Rightarrow> acpi_region list" where
  "add_table m addr regions =
     (if addr = 0 then regions
      else
        (let regions1 = add_region addr (sdt_length m addr) regions
         in if read_bytes m addr 4 = FADT_SIGNATURE then add_fadt_tables m addr regions1 else regions1))"

text \<open>The loop over the entries of the root table; \<open>n\<close> entries are left from index \<open>i\<close> on.\<close>

fun add_tables :: "memory \<Rightarrow> u64 \<Rightarrow> bool \<Rightarrow> nat \<Rightarrow> nat \<Rightarrow> acpi_region list \<Rightarrow> acpi_region list" where
  "add_tables m base is_xsdt i 0 regions = regions"
| "add_tables m base is_xsdt i (Suc n) regions =
     add_tables m base is_xsdt (Suc i) n (add_table m (sdt_entry m base is_xsdt i) regions)"

text \<open>The root table, and whether it is an XSDT.\<close>

definition root_table :: "memory \<Rightarrow> u64 \<Rightarrow> u64 \<times> bool" where
  "root_table m rsdp =
     (let xsdt = read_u64 m (rsdp + 24)
      in if m (rsdp + 15) \<ge> 2 \<and> xsdt \<noteq> 0 then (xsdt, True) else (ucast (read_u32 m (rsdp + 16)), False))"

definition rsdp_size :: "memory \<Rightarrow> u64 \<Rightarrow> u64" where
  "rsdp_size m rsdp = (if m (rsdp + 15) \<ge> 2 then ucast (read_u32 m (rsdp + 20)) else 20)"

definition num_entries :: "memory \<Rightarrow> u64 \<Rightarrow> bool \<Rightarrow> nat" where
  "num_entries m root is_xsdt =
     unat ((sdt_length m root - of_nat ACPI_SDT_HEADER_SIZE) div (if is_xsdt then 8 else 4))"

text \<open>\<^const>\<open>None\<close> are the early returns.\<close>

definition collect_regions :: "memory \<Rightarrow> u64 \<Rightarrow> acpi_region list option" where
  "collect_regions m rsdp =
     (if read_bytes m rsdp 8 \<noteq> RSDP_SIGNATURE then None
      else
        (case root_table m rsdp of
           (root, is_xsdt) \<Rightarrow>
             if root = 0 then None
             else
               Some (add_tables m (root + of_nat ACPI_SDT_HEADER_SIZE) is_xsdt 0 (num_entries m root is_xsdt)
                 (add_region root (sdt_length m root) (add_region rsdp (rsdp_size m rsdp) [])))))"

section \<open>Marking\<close>

text \<open>Regions with the same start are merged into one, so the order that the sort gives them has no effect.\<close>

definition merge_region :: "acpi_region list \<Rightarrow> acpi_region \<Rightarrow> acpi_region list" where
  "merge_region ms r =
     (if ar_start r = 0 \<and> ar_end r = 0 then ms
      else if ms = [] then [r]
      else
        (let l = last ms
         in if ar_start r \<le> ar_end l
            then (if ar_end r > ar_end l then butlast ms @ [l\<lparr>ar_end := ar_end r\<rparr>] else ms)
            else if length ms < MAX_ACPI_REGIONS then ms @ [r] else ms))"

definition merge_regions :: "acpi_region list \<Rightarrow> acpi_region list" where
  "merge_regions regions = foldl merge_region [] (sort_key ar_start regions)"

definition region_pages :: "acpi_region \<Rightarrow> u64" where
  "region_pages r = (ar_end r - ar_start r) div PAGE_SIZE"

fun mark_regions :: "acpi_region list \<Rightarrow> memory_allocator \<Rightarrow> memory_allocator may_panic" where
  "mark_regions [] s = Some s"
| "mark_regions (r # rs) s =
     (case mark_as_acpi_reclaim s (ar_start r) (region_pages r) of
        None \<Rightarrow> None
      | Some (s1, _) \<Rightarrow> mark_regions rs s1)"

definition mark_acpi_tables_memory :: "memory \<Rightarrow> u64 \<Rightarrow> memory_allocator \<Rightarrow> memory_allocator may_panic" where
  "mark_acpi_tables_memory m rsdp s =
     (case collect_regions m rsdp of
        None \<Rightarrow> Some s
      | Some regions \<Rightarrow> mark_regions (merge_regions regions) s)"

definition install_acpi_tables ::
    "memory \<Rightarrow> u64 \<Rightarrow> memory_allocator \<Rightarrow> config_db \<Rightarrow> (memory_allocator \<times> config_db) may_panic" where
  "install_acpi_tables m rsdp s db =
     (if rsdp = 0 then Some (s, db)
      else if read_bytes m rsdp 8 \<noteq> RSDP_SIGNATURE then Some (s, db)
      else
        (let needs_marking = (get_memory_type_at s rsdp \<notin> {Some AcpiReclaimMemory, Some AcpiMemoryNvs})
         in case (if needs_marking then mark_acpi_tables_memory m rsdp s else Some s) of
              None \<Rightarrow> None
            | Some s1 \<Rightarrow>
                (let db1 = (if m (rsdp + 15) \<ge> 2 then fst (install_configuration_table db ACPI_20_TABLE_GUID rsdp) else db)
                 in Some (s1, fst (install_configuration_table db1 ACPI_TABLE_GUID rsdp)))))"

section \<open>SMBIOS\<close>

definition SM_ANCHOR :: "u8 list" where "SM_ANCHOR = [0x5F, 0x53, 0x4D, 0x5F]"
definition SM3_ANCHOR :: "u8 list" where "SM3_ANCHOR = [0x5F, 0x53, 0x4D, 0x33, 0x5F]"
definition DMI_ANCHOR :: "u8 list" where "DMI_ANCHOR = [0x5F, 0x44, 0x4D, 0x49, 0x5F]"

text \<open>
  The entry points that are found, of version 2.1 and of version 3.0: the length of the former is its byte 5, its
  intermediate anchor is at 16. \<^const>\<open>None\<close> is an unknown signature.
\<close>

definition smbios_entry_points :: "memory \<Rightarrow> u64 \<Rightarrow> (u64 option \<times> u64 option) option" where
  "smbios_entry_points m addr =
     (if read_bytes m addr 4 = SM_ANCHOR then
        (if read_bytes m (addr + 16) 5 = DMI_ANCHOR then
           (let entry_30 = addr + of_nat ((unat (m (addr + 5)) + 15) div 16 * 16)
            in Some (Some addr, if read_bytes m entry_30 5 = SM3_ANCHOR then Some entry_30 else None))
         else Some (None, None))
      else if read_bytes m addr 5 = SM3_ANCHOR then Some (None, Some addr)
      else None)"

definition install_smbios_tables :: "memory \<Rightarrow> u64 \<Rightarrow> config_db \<Rightarrow> config_db" where
  "install_smbios_tables m smbios_addr db =
     (if smbios_addr = 0 then db
      else
        (case smbios_entry_points m smbios_addr of
           None \<Rightarrow> db
         | Some (found_21, found_30) \<Rightarrow>
             (let db1 = (case found_30 of None \<Rightarrow> db | Some a \<Rightarrow> fst (install_configuration_table db SMBIOS3_TABLE_GUID a))
              in case found_21 of None \<Rightarrow> db1 | Some a \<Rightarrow> fst (install_configuration_table db1 SMBIOS_TABLE_GUID a))))"

end
