(* ===== verification/Firmware_Props.thy ===== *)
theory Firmware_Props
  imports Firmware_Tables Allocator_Props
begin

text \<open>
  The tables of the platform firmware: which ranges of memory are marked, and what the operating system finds in the
  configuration table.
\<close>

section \<open>The tables that are found\<close>

text \<open>The tables that the root pointer leads to, with their sizes.\<close>

definition fadt_tables :: "memory \<Rightarrow> u64 \<Rightarrow> (u64 \<times> u64) list" where
  "fadt_tables m fadt =
     (let dsdt = fadt_pointer m fadt 148 140 40; facs = fadt_pointer m fadt 140 132 36
      in (if dsdt \<noteq> 0 then [(dsdt, sdt_length m dsdt)] else []) @
         (if facs \<noteq> 0 then [(facs, ucast (read_u32 m (facs + 4)))] else []))"

definition entry_tables :: "memory \<Rightarrow> u64 \<Rightarrow> (u64 \<times> u64) list" where
  "entry_tables m addr =
     (if addr = 0 then []
      else (addr, sdt_length m addr) # (if read_bytes m addr 4 = FADT_SIGNATURE then fadt_tables m addr else []))"

definition acpi_tables :: "memory \<Rightarrow> u64 \<Rightarrow> (u64 \<times> u64) list" where
  "acpi_tables m rsdp =
     (case root_table m rsdp of
        (root, is_xsdt) \<Rightarrow>
          (rsdp, rsdp_size m rsdp) # (root, sdt_length m root) #
          concat (map (\<lambda>i. entry_tables m (sdt_entry m (root + of_nat ACPI_SDT_HEADER_SIZE) is_xsdt i))
            [0..<num_entries m root is_xsdt]))"

text \<open>The first 32 that are not empty are recorded.\<close>

definition recorded_tables :: "memory \<Rightarrow> u64 \<Rightarrow> (u64 \<times> u64) list" where
  "recorded_tables m rsdp = take MAX_ACPI_REGIONS (filter (\<lambda>t. snd t \<noteq> 0) (acpi_tables m rsdp))"

definition region_of :: "u64 \<times> u64 \<Rightarrow> acpi_region" where
  "region_of t = \<lparr>ar_start = fst t AND NOT (PAGE_SIZE - 1), ar_end = (fst t + snd t + PAGE_SIZE - 1) AND NOT (PAGE_SIZE - 1)\<rparr>"

definition record_all :: "(u64 \<times> u64) list \<Rightarrow> acpi_region list \<Rightarrow> acpi_region list" where
  "record_all ts rs = foldl (\<lambda>rs t. add_region (fst t) (snd t) rs) rs ts"

lemma record_all_simps [simp]:
  "record_all [] rs = rs" "record_all (t # ts) rs = record_all ts (add_region (fst t) (snd t) rs)"
  "record_all (ts @ ts') rs = record_all ts' (record_all ts rs)"
  by (simp_all add: record_all_def)

lemma add_region_eq:
  "length rs \<le> MAX_ACPI_REGIONS \<Longrightarrow>
   add_region (fst t) (snd t) rs = take MAX_ACPI_REGIONS (rs @ (if snd t \<noteq> 0 then [region_of t] else []))"
  by (auto simp: add_region_def region_of_def not_less_eq_eq le_Suc_eq)

lemma record_all_eq:
  "length rs \<le> MAX_ACPI_REGIONS \<Longrightarrow>
   record_all ts rs = take MAX_ACPI_REGIONS (rs @ map region_of (filter (\<lambda>t. snd t \<noteq> 0) ts))"
proof (induction ts arbitrary: rs)
  case (Cons t ts)
  let ?x = "if snd t \<noteq> 0 then [region_of t] else []" and ?y = "map region_of (filter (\<lambda>t. snd t \<noteq> 0) ts)"
  have "record_all (t # ts) rs = record_all ts (take MAX_ACPI_REGIONS (rs @ ?x))"
    by (simp only: record_all_simps add_region_eq [OF Cons.prems])
  also have "\<dots> = take MAX_ACPI_REGIONS (take MAX_ACPI_REGIONS (rs @ ?x) @ ?y)"
    by (rule Cons.IH) (simp del: take_append)
  also have "\<dots> = take MAX_ACPI_REGIONS (rs @ ?x @ ?y)"
    by (simp only: take_take_append append_assoc)
  finally show ?case
    by (cases "snd t = 0") (simp_all del: take_append record_all_simps)
qed simp

lemma add_table_eq: "add_table m addr rs = record_all (entry_tables m addr) rs"
  by (simp add: add_table_def entry_tables_def add_fadt_tables_def fadt_tables_def Let_def)

lemma add_tables_eq:
  "add_tables m base x i n rs = record_all (concat (map (\<lambda>j. entry_tables m (sdt_entry m base x j)) [i..<i + n])) rs"
  by (induction n arbitrary: i rs) (simp_all add: add_table_eq upt_conv_Cons del: upt_Suc)

lemma collect_regions_eq:
  assumes "read_bytes m rsdp 8 = RSDP_SIGNATURE" and "fst (root_table m rsdp) \<noteq> 0"
  shows "collect_regions m rsdp = Some (map region_of (recorded_tables m rsdp))"
proof -
  obtain root x where root: "root_table m rsdp = (root, x)"
    by fastforce
  have "collect_regions m rsdp = Some (record_all (acpi_tables m rsdp) [])"
    using assms by (simp add: collect_regions_def acpi_tables_def root add_tables_eq)
  then show ?thesis
    by (simp add: record_all_eq recorded_tables_def take_map)
qed

section \<open>Merging\<close>

definition region_bytes :: "acpi_region \<Rightarrow> u64 set" where
  "region_bytes r = {a. unat (ar_start r) \<le> unat a \<and> unat a < unat (ar_end r)}"

definition aligned_region :: "acpi_region \<Rightarrow> bool" where
  "aligned_region r \<longleftrightarrow> ar_start r < ar_end r \<and> 4096 dvd unat (ar_start r) \<and> 4096 dvd unat (ar_end r)"

definition separated :: "acpi_region list \<Rightarrow> bool" where
  "separated ms \<longleftrightarrow> (\<forall>r \<in> set ms. aligned_region r) \<and> sorted_wrt (\<lambda>a b. ar_end a < ar_start b) ms"

lemma aligned_region_not_empty: "aligned_region r \<Longrightarrow> ar_end r \<noteq> 0"
  by (auto simp: aligned_region_def)

lemma merge_region_step:
  assumes "separated ms" and "aligned_region r" and "ms \<noteq> [] \<Longrightarrow> ar_start (last ms) \<le> ar_start r" and "length ms < MAX_ACPI_REGIONS"
  shows "separated (merge_region ms r) \<and> merge_region ms r \<noteq> [] \<and> ar_start (last (merge_region ms r)) \<le> ar_start r \<and>
    length (merge_region ms r) \<le> Suc (length ms) \<and>
    (\<Union>r \<in> set (merge_region ms r). region_bytes r) = (\<Union>r \<in> set ms. region_bytes r) \<union> region_bytes r"
proof (cases ms rule: rev_cases)
  case Nil
  then show ?thesis
    using assms(2) aligned_region_not_empty [OF assms(2)] by (simp add: merge_region_def separated_def)
next
  case (snoc front l)
  have nz: "\<not> (ar_start r = 0 \<and> ar_end r = 0)"
    using assms(2) by (auto simp: aligned_region_def)
  have l: "aligned_region l" "ar_start l \<le> ar_start r" and front: "\<forall>a \<in> set front. ar_end a < ar_start l"
    using assms(1,3) snoc by (auto simp: separated_def sorted_wrt_append)
  consider "ar_start r \<le> ar_end l" "ar_end l < ar_end r" | "ar_start r \<le> ar_end l" "ar_end r \<le> ar_end l" | "ar_end l < ar_start r"
    by (meson not_le)
  then show ?thesis
  proof cases
    case 1
    let ?l = "l\<lparr>ar_end := ar_end r\<rparr>"
    have eq: "merge_region ms r = front @ [?l]"
      using nz 1 snoc by (auto simp: merge_region_def Let_def)
    have "region_bytes ?l = region_bytes l \<union> region_bytes r"
      using 1 l by (auto simp: region_bytes_def word_le_nat_alt word_less_nat_alt)
    moreover have "aligned_region ?l"
      using 1 l assms(2) by (auto simp: aligned_region_def)
    ultimately show ?thesis
      unfolding eq using assms(1) l snoc front by (auto simp: separated_def sorted_wrt_append)
  next
    case 2
    have eq: "merge_region ms r = ms"
      using 2 nz snoc by (simp add: merge_region_def leD)
    have "region_bytes r \<subseteq> region_bytes l"
      using 2 l by (auto simp: region_bytes_def word_le_nat_alt word_less_nat_alt)
    then show ?thesis
      unfolding eq using assms(1) l snoc by auto
  next
    case 3
    have eq: "merge_region ms r = ms @ [r]"
      using 3 nz snoc assms(4) by (simp add: merge_region_def leD)
    have "ar_end a < ar_start r" if "a \<in> set ms" for a
      using that front 3 l(1) snoc by (auto simp: aligned_region_def)
    then show ?thesis
      unfolding eq using assms(1,2) by (auto simp: separated_def sorted_wrt_append)
  qed
qed

lemma merge_loop_eq:
  assumes "separated ms" and "\<forall>r \<in> set rs. aligned_region r" and "sorted (map ar_start rs)"
    and "ms \<noteq> [] \<Longrightarrow> \<forall>r \<in> set rs. ar_start (last ms) \<le> ar_start r" and "length ms + length rs \<le> MAX_ACPI_REGIONS"
  shows "separated (foldl merge_region ms rs) \<and> length (foldl merge_region ms rs) \<le> MAX_ACPI_REGIONS \<and>
    (\<Union>r \<in> set (foldl merge_region ms rs). region_bytes r) = (\<Union>r \<in> set ms \<union> set rs. region_bytes r)"
  using assms
proof (induction rs arbitrary: ms)
  case (Cons r rs)
  let ?ms = "merge_region ms r"
  have step: "separated ?ms \<and> ?ms \<noteq> [] \<and> ar_start (last ?ms) \<le> ar_start r \<and> length ?ms \<le> Suc (length ms) \<and>
      (\<Union>r \<in> set ?ms. region_bytes r) = (\<Union>r \<in> set ms. region_bytes r) \<union> region_bytes r"
    using Cons.prems by (intro merge_region_step) auto
  have "separated (foldl merge_region ?ms rs) \<and> length (foldl merge_region ?ms rs) \<le> MAX_ACPI_REGIONS \<and>
    (\<Union>r \<in> set (foldl merge_region ?ms rs). region_bytes r) = (\<Union>r \<in> set ?ms \<union> set rs. region_bytes r)"
    using step Cons.prems by (intro Cons.IH) (auto intro: order_trans)
  then show ?case
    using step by auto
qed auto

lemma merge_regions_eq:
  assumes "\<forall>r \<in> set rs. aligned_region r" and "length rs \<le> MAX_ACPI_REGIONS"
  shows "separated (merge_regions rs) \<and> length (merge_regions rs) \<le> MAX_ACPI_REGIONS \<and>
    (\<Union>r \<in> set (merge_regions rs). region_bytes r) = (\<Union>r \<in> set rs. region_bytes r)"
  unfolding merge_regions_def
  using merge_loop_eq [of "[]" "sort_key ar_start rs"] assms by (simp add: separated_def)

section \<open>Marking\<close>

lemma push_all_length: "length (snd (push_all es ds)) \<le> length es + length ds"
proof (induction ds arbitrary: es)
  case (Cons d ds)
  show ?case
    using Cons [of "es @ [d]"] by (simp add: vec_push_def)
qed simp

lemma mark_length:
  assumes "mark_as_acpi_reclaim s a n = Some (s', r)"
  shows "length (entries s') \<le> length (entries s) + 2"
proof -
  have "length (piece_before e t a @ x # piece_after e t b) \<le> 3" for e t b x
    by (simp add: piece_before_def piece_after_def)
  then have len: "length es' \<le> length es + 3"
    if "push_all es (piece_before e t a @ x # piece_after e t b) = (ok, es')" for es e t b x ok es'
    using that push_all_length [of es "piece_before e t a @ x # piece_after e t b"]
    by (metis add_left_mono order_trans snd_conv)
  show ?thesis
    using assms
    by (auto simp: mark_as_acpi_reclaim_def Let_def vec_push_def vec_remove_def dest!: len
        split: option.splits if_splits prod.splits bool.splits)
qed

lemma mark_unmapped:
  assumes "alloc_wf s" and "n \<noteq> 0" and "unat a + 4096 * unat n < 2 ^ 64"
    and "\<forall>x \<in> page_range a n. alloc_map s x = None"
  shows "mark_as_acpi_reclaim s a n \<noteq> Some (s, Err INVALID_PARAMETER)"
proof
  assume err: "mark_as_acpi_reclaim s a n = Some (s, Err INVALID_PARAMETER)"
  obtain sz where sz: "checked_mul n PAGE_SIZE = Some sz" and sz_eq: "unat sz = 4096 * unat n"
    using assms(3) by (cases "checked_mul n PAGE_SIZE") (auto simp: checked_mul_None_iff checked_mul_Some_iff PAGE_SIZE_def mult.commute)
  obtain e where e: "checked_add a sz = Some e"
    using assms(3) sz_eq by (cases "checked_add a sz") (auto simp: checked_add_None_iff)
  have e_eq: "unat e = unat a + 4096 * unat n"
    by (rule range_end [OF sz e])
  obtain d where d: "d \<in> set (entries s)" "a < desc_end d" "physical_start d < e"
    using err sz e by (auto simp: mark_as_acpi_reclaim_def Let_def split: option.splits if_splits prod.splits bool.splits)
  have wf: "wf_desc d"
    using d(1) assms(1) by (simp add: alloc_wf_def memory_map_def)
  let ?x = "max a (physical_start d)"
  have "?x \<in> page_range a n" "covers d ?x"
    using d wf_desc_hi [OF wf] wf_desc_lo_less_hi [OF wf] assms(2) e_eq
    by (auto simp: page_range_def covers_def max_def word_nat lo_def)
  with d(1) assms(4) show False
    by (auto simp: alloc_map_def region_at_None_iff)
qed

lemma region_pages_eq:
  assumes "aligned_region r"
  shows "region_pages r \<noteq> 0" and "unat (ar_start r) + 4096 * unat (region_pages r) = unat (ar_end r)"
    and "page_range (ar_start r) (region_pages r) = region_bytes r"
proof -
  have less: "unat (ar_start r) < unat (ar_end r)" and dvd: "4096 dvd unat (ar_end r) - unat (ar_start r)"
    using assms by (simp_all add: aligned_region_def word_less_nat_alt)
  have "unat (region_pages r) = (unat (ar_end r) - unat (ar_start r)) div 4096"
    using less by (simp add: region_pages_def PAGE_SIZE_def unat_div_eq unat_sub_le word_le_nat_alt)
  then have eq: "4096 * unat (region_pages r) = unat (ar_end r) - unat (ar_start r)"
    using dvd by simp
  with less show "region_pages r \<noteq> 0"
    by auto
  show "unat (ar_start r) + 4096 * unat (region_pages r) = unat (ar_end r)"
    using eq less by simp
  then show "page_range (ar_start r) (region_pages r) = region_bytes r"
    by (simp add: page_range_def region_bytes_def)
qed

text \<open>What marking makes of a byte, and of a region: all of it is marked, or it is in use and left alone.\<close>

definition acpi_value :: "(u32 \<times> u64) option \<Rightarrow> (u32 \<times> u64) option" where
  "acpi_value v = Some (case v of None \<Rightarrow> (as_u32 AcpiReclaimMemory, EFI_MEMORY_WB) | Some w \<Rightarrow> acpi_effect w)"

definition marked_or_kept :: "memory_allocator \<Rightarrow> memory_allocator \<Rightarrow> acpi_region \<Rightarrow> bool" where
  "marked_or_kept s s' r \<longleftrightarrow>
     (\<forall>a \<in> region_bytes r. alloc_map s' a = acpi_value (alloc_map s a)) \<or>
     (\<forall>a \<in> region_bytes r. alloc_map s' a = alloc_map s a) \<and> (\<exists>a \<in> region_bytes r. alloc_map s a \<noteq> None)"

lemma mark_region_outcome:
  assumes "alloc_wf s" and "aligned_region r" and "length (entries s) + 2 \<le> MAX_MEMORY_ENTRIES"
  shows "\<exists>s' res. mark_as_acpi_reclaim s (ar_start r) (region_pages r) = Some (s', res) \<and> alloc_wf s' \<and>
    length (entries s') \<le> length (entries s) + 2 \<and>
    (\<forall>a. a \<notin> region_bytes r \<longrightarrow> alloc_map s' a = alloc_map s a) \<and> marked_or_kept s s' r"
proof -
  note pages = region_pages_eq [OF assms(2)]
  have al: "4096 dvd unat (ar_start r)" and lt: "unat (ar_start r) + 4096 * unat (region_pages r) < 2 ^ 64"
    using assms(2) unat_u64_bound [of "ar_end r"] by (simp_all add: aligned_region_def pages(2))
  from assms(1,3) al pages(1) show ?thesis
  proof (cases rule: mark_as_acpi_reclaim_cases)
    case err
    then have "\<exists>a \<in> region_bytes r. alloc_map s a \<noteq> None"
      using mark_unmapped [OF assms(1) pages(1) lt] unfolding pages(3) by blast
    with err assms(1) show ?thesis
      by (auto simp: marked_or_kept_def)
  next
    case (fresh s')
    then show ?thesis
      using mark_length [OF fresh(1)] pages(3) by (auto simp: marked_or_kept_def acpi_value_def)
  next
    case (ok s')
    then show ?thesis
      using mark_length [OF ok(1)] pages(3) by (auto simp: marked_or_kept_def acpi_value_def retype_def split: option.splits)
  qed
qed

lemma separated_disjoint: "separated (r # rs) \<Longrightarrow> r' \<in> set rs \<Longrightarrow> region_bytes r \<inter> region_bytes r' = {}"
  by (auto simp: separated_def region_bytes_def word_less_nat_alt)

lemma mark_regions_outcome:
  assumes "alloc_wf s" and "separated rs" and "length (entries s) + 2 * length rs \<le> MAX_MEMORY_ENTRIES"
  shows "\<exists>s'. mark_regions rs s = Some s' \<and> alloc_wf s' \<and>
    (\<forall>a. a \<notin> (\<Union>r \<in> set rs. region_bytes r) \<longrightarrow> alloc_map s' a = alloc_map s a) \<and> (\<forall>r \<in> set rs. marked_or_kept s s' r)"
  using assms
proof (induction rs arbitrary: s)
  case (Cons r rs)
  have "aligned_region r" "separated rs"
    using Cons.prems by (simp_all add: separated_def)
  then obtain s1 res where s1: "mark_as_acpi_reclaim s (ar_start r) (region_pages r) = Some (s1, res)" "alloc_wf s1"
      "length (entries s1) \<le> length (entries s) + 2" "\<forall>a. a \<notin> region_bytes r \<longrightarrow> alloc_map s1 a = alloc_map s a"
      "marked_or_kept s s1 r"
    using mark_region_outcome [of s r] Cons.prems by auto
  obtain s' where s': "mark_regions rs s1 = Some s'" "alloc_wf s'"
      "\<forall>a. a \<notin> (\<Union>r \<in> set rs. region_bytes r) \<longrightarrow> alloc_map s' a = alloc_map s1 a" "\<forall>r \<in> set rs. marked_or_kept s1 s' r"
    using Cons.IH [OF s1(2) \<open>separated rs\<close>] Cons.prems s1(3) by auto
  note apart = separated_disjoint [OF Cons.prems(2)]
  have "alloc_map s' a = alloc_map s1 a" if "a \<in> region_bytes r" for a
    using that apart s'(3) by blast
  then have "marked_or_kept s s' r"
    using s1(5) by (simp add: marked_or_kept_def)
  moreover have "marked_or_kept s s' q" if "q \<in> set rs" for q
  proof -
    have "alloc_map s1 a = alloc_map s a" if "a \<in> region_bytes q" for a
      using that apart [OF \<open>q \<in> set rs\<close>] s1(4) by blast
    moreover have "marked_or_kept s1 s' q"
      using s'(4) that by blast
    ultimately show ?thesis
      by (simp add: marked_or_kept_def)
  qed
  ultimately show ?case
    using s1 s' by auto
qed simp

lemma region_of_aligned:
  assumes "snd t \<noteq> 0" and "unat (fst t) + unat (snd t) + 4095 < 2 ^ 64"
  shows "aligned_region (region_of t)"
proof -
  let ?e = "fst t + snd t + PAGE_SIZE - 1"
  have "PAGE_SIZE - 1 = mask 12"
    by (simp add: PAGE_SIZE_def mask_eq_exp_minus_1)
  then have eq: "unat (ar_start (region_of t)) = unat (fst t) - unat (fst t) mod 4096"
      "unat (ar_end (region_of t)) = unat ?e - unat ?e mod 4096"
    by (simp_all add: region_of_def unat_and_not_mask)
  have e': "?e = fst t + snd t + 4095"
    by (simp add: PAGE_SIZE_def)
  have "unat (fst t + snd t) = unat (fst t) + unat (snd t)"
    using assms(2) by (intro unat_plus_less) simp
  then have e: "unat ?e = unat (fst t) + unat (snd t) + 4095"
    unfolding e' using assms(2) unat_plus_less [of "fst t + snd t" 4095] by simp
  have "0 < unat (snd t)"
    using assms(1) by (simp add: unat_gt_0)
  then have "(unat (fst t) + 4096) div 4096 \<le> unat ?e div 4096"
    unfolding e by (intro div_le_mono) simp
  then have "unat (fst t) - unat (fst t) mod 4096 < unat ?e - unat ?e mod 4096"
    by (simp add: minus_mod_eq_div_mult)
  then show ?thesis
    by (simp add: aligned_region_def word_less_nat_alt eq dvd_minus_mod)
qed

section \<open>Publishing\<close>

lemma publish_table:
  assumes "config_inv db" and "table \<noteq> 0" and "length (config_tables db) < MAX_CONFIG_TABLES"
  obtains db' where "install_configuration_table db g table = (db', SUCCESS)" "config_inv db'"
    "config_lookup db' = (config_lookup db)(g \<mapsto> table)" "length (config_tables db') \<le> Suc (length (config_tables db))"
proof -
  obtain db' where db': "install_configuration_table db g table = (db', SUCCESS)" "config_inv db'"
    "config_lookup db' = (config_lookup db)(g \<mapsto> table)"
    using install_new [OF assms(1) _ assms(2,3), of g] install_existing [OF assms(1), of g table] assms(2)
    by (cases "config_lookup db g = None") auto
  moreover have "length (config_tables db') \<le> Suc (length (config_tables db))"
    using db'(1) by (auto simp: install_configuration_table_def update_table_count_def Let_def split: option.splits if_splits)
  ultimately show ?thesis
    by (rule that)
qed

lemma install_acpi_publishes:
  assumes "config_inv db" and "rsdp \<noteq> 0" and "length (config_tables db) + 2 \<le> MAX_CONFIG_TABLES"
  obtains db1 db2 where
    "(if v \<ge> (2 :: u8) then fst (install_configuration_table db ACPI_20_TABLE_GUID rsdp) else db) = db1"
    "fst (install_configuration_table db1 ACPI_TABLE_GUID rsdp) = db2" "config_inv db2"
    "config_lookup db2 =
      (if v \<ge> 2 then (config_lookup db)(ACPI_20_TABLE_GUID \<mapsto> rsdp) else config_lookup db)(ACPI_TABLE_GUID \<mapsto> rsdp)"
proof -
  obtain db1 where db1: "(if v \<ge> 2 then fst (install_configuration_table db ACPI_20_TABLE_GUID rsdp) else db) = db1"
      "config_inv db1" "length (config_tables db1) < MAX_CONFIG_TABLES"
      "config_lookup db1 = (if v \<ge> 2 then (config_lookup db)(ACPI_20_TABLE_GUID \<mapsto> rsdp) else config_lookup db)"
  proof (cases "v \<ge> 2")
    case True
    have "length (config_tables db) < MAX_CONFIG_TABLES"
      using assms(3) by simp
    then obtain db' where "install_configuration_table db ACPI_20_TABLE_GUID rsdp = (db', SUCCESS)" "config_inv db'"
        "config_lookup db' = (config_lookup db)(ACPI_20_TABLE_GUID \<mapsto> rsdp)"
        "length (config_tables db') \<le> Suc (length (config_tables db))"
      by (rule publish_table [OF assms(1,2)])
    then show ?thesis
      using assms True that by auto
  qed (use assms that in auto)
  obtain db2 where "install_configuration_table db1 ACPI_TABLE_GUID rsdp = (db2, SUCCESS)" "config_inv db2"
      "config_lookup db2 = (config_lookup db1)(ACPI_TABLE_GUID \<mapsto> rsdp)"
    by (rule publish_table [OF db1(2) assms(2) db1(3)])
  with db1 show ?thesis
    by (intro that) auto
qed

text \<open>The same for the entry points of the SMBIOS that were found.\<close>

definition publish :: "config_db \<Rightarrow> guid \<Rightarrow> u64 option \<Rightarrow> config_db" where
  "publish db g found = (case found of None \<Rightarrow> db | Some a \<Rightarrow> fst (install_configuration_table db g a))"

lemma publish_correct:
  assumes "config_inv db" and "found \<noteq> Some 0" and "length (config_tables db) < MAX_CONFIG_TABLES"
  shows "config_inv (publish db g found)" and "length (config_tables (publish db g found)) \<le> Suc (length (config_tables db))"
    and "config_lookup (publish db g found) h = (if h = g \<and> found \<noteq> None then found else config_lookup db h)"
  using assms publish_table [of db "the found" g] by (cases found; fastforce simp: publish_def)+

lemma install_smbios_tables_correct:
  assumes "config_inv db" and "length (config_tables db) + 2 \<le> MAX_CONFIG_TABLES" and "addr \<noteq> 0"
    and "smbios_entry_points m addr = Some (found_21, found_30)" and "found_21 \<noteq> Some 0" and "found_30 \<noteq> Some 0"
  shows "config_inv (install_smbios_tables m addr db)"
    and "config_lookup (install_smbios_tables m addr db) h =
      (if h = SMBIOS_TABLE_GUID \<and> found_21 \<noteq> None then found_21
       else if h = SMBIOS3_TABLE_GUID \<and> found_30 \<noteq> None then found_30 else config_lookup db h)"
proof -
  have eq: "install_smbios_tables m addr db = publish (publish db SMBIOS3_TABLE_GUID found_30) SMBIOS_TABLE_GUID found_21"
    using assms(3,4) by (simp add: install_smbios_tables_def publish_def Let_def split: option.splits)
  have "length (config_tables db) < MAX_CONFIG_TABLES"
    using assms(2) by simp
  note p1 = publish_correct [OF assms(1,6) this, of SMBIOS3_TABLE_GUID]
  have "length (config_tables (publish db SMBIOS3_TABLE_GUID found_30)) < MAX_CONFIG_TABLES"
    using p1(2) assms(2) by simp
  note p2 = publish_correct [OF p1(1) assms(5) this, of SMBIOS_TABLE_GUID]
  show "config_inv (install_smbios_tables m addr db)"
    unfolding eq by (rule p2(1))
  show "config_lookup (install_smbios_tables m addr db) h =
      (if h = SMBIOS_TABLE_GUID \<and> found_21 \<noteq> None then found_21
       else if h = SMBIOS3_TABLE_GUID \<and> found_30 \<noteq> None then found_30 else config_lookup db h)"
    unfolding eq by (simp only: p2(3) p1(3))
qed

definition acpi_regions :: "memory \<Rightarrow> u64 \<Rightarrow> acpi_region list" where
  "acpi_regions m rsdp = merge_regions (map region_of (recorded_tables m rsdp))"

lemma acpi_regions_separated:
  assumes "\<forall>t \<in> set (recorded_tables m rsdp). unat (fst t) + unat (snd t) + 4095 < 2 ^ 64"
  shows "separated (acpi_regions m rsdp) \<and> length (acpi_regions m rsdp) \<le> MAX_ACPI_REGIONS \<and>
    (\<Union>r \<in> set (acpi_regions m rsdp). region_bytes r) = (\<Union>t \<in> set (recorded_tables m rsdp). region_bytes (region_of t))"
proof -
  have "snd t \<noteq> 0" if "t \<in> set (recorded_tables m rsdp)" for t
    using that by (auto simp: recorded_tables_def dest: in_set_takeD)
  then have "\<forall>r \<in> set (map region_of (recorded_tables m rsdp)). aligned_region r"
    using assms region_of_aligned by auto
  from merge_regions_eq [OF this] show ?thesis
    by (simp add: acpi_regions_def recorded_tables_def)
qed

section \<open>Installation\<close>


text \<open>A root pointer of revision 0 at 0x1000 and an empty RSDT at 0x2000, in 16 pages of free memory.\<close>

definition acpi_memory :: memory where
  "acpi_memory a =
     (case map_of [(0x1000, 0x52), (0x1001, 0x53), (0x1002, 0x44), (0x1003, 0x20), (0x1004, 0x50), (0x1005, 0x54),
        (0x1006, 0x52), (0x1007, 0x20), (0x1011, 0x20), (0x2004, 36)] a of Some b \<Rightarrow> b | None \<Rightarrow> 0)"

definition acpi_map :: memory_allocator where
  "acpi_map = new_allocator\<lparr>entries := [new_descriptor ConventionalMemory 0 16 0]\<rparr>"

lemma acpi_memory_tables:
  "root_table acpi_memory 0x1000 = (0x2000, False)" "acpi_tables acpi_memory 0x1000 = [(0x1000, 20), (0x2000, 36)]"
  "read_bytes acpi_memory 0x1000 8 = RSDP_SIGNATURE" "\<not> 2 \<le> acpi_memory 0x100F"
  by (simp_all add: acpi_tables_def root_table_def rsdp_size_def num_entries_def sdt_length_def read_bytes_numeral read_u64_def
      read_u32_def RSDP_SIGNATURE_def ACPI_SDT_HEADER_SIZE_def acpi_memory_def)

lemma acpi_map_ok:
  "alloc_wf acpi_map" "get_memory_type_at acpi_map 0x1000 = Some ConventionalMemory" "length (entries acpi_map) = 1"
  by (simp_all add: acpi_map_def alloc_wf_def memory_map_def wf_desc_def lo_def hi_def new_descriptor_def new_allocator_def
      MAX_MEMORY_ENTRIES_def get_memory_type_at_def desc_end_def checked_mul_def checked_add_def PAGE_SIZE_def)

lemma new_config_db_tables: "config_tables new_config_db = []" "config_lookup new_config_db g = None"
  by (simp_all add: new_config_db_def config_lookup_def)

lemma guids_differ: "ACPI_20_TABLE_GUID \<noteq> ACPI_TABLE_GUID"
  by (simp add: ACPI_TABLE_GUID_def ACPI_20_TABLE_GUID_def)


end
