(* ===== verification/Spec2Isabelle.thy ===== *)
theory Spec2Isabelle
  imports Allocator_Props Pe_Props Services_Props Rtc Boot_Props Gpt_Props Iso_Props Fat_Props
    Coreboot_Props Device_Path_Props File_Props Time_Props Usb_Props Keyboard_Props Block_Io_Props
    Collation_Props Flow_Props Graphics_Props Firmware_Props
begin

text \<open>
  \<^bold>\<open>A verification library for CrabEFI\<close>

  CrabEFI (\<open>src/src\<close>) is a UEFI implementation that runs as a coreboot payload. It takes the memory map from
  coreboot, finds a boot loader on a disk, loads it as a PE32+ image and serves its boot and runtime service
  calls until the loader hands over to an operating system. The parts and how they interact:

  \<^item> coreboot's memory regions become the UEFI memory map, from which pages and pools are allocated
    (\<open>coreboot/memory.rs\<close>, \<open>efi/allocator.rs\<close>);
  \<^item> the PE loader copies an image into pages of the allocator and relocates it (\<open>pe/mod.rs\<close>);
  \<^item> the boot and runtime services keep databases of handles and protocols, events, configuration tables and
    variables in one global \<open>EfiState\<close> (\<open>state.rs\<close>, \<open>efi/boot_services.rs\<close>, \<open>efi/runtime_services.rs\<close>,
    \<open>efi/system_table.rs\<close>);
  \<^item> the storage stack reads sectors through block devices (\<open>drivers/block.rs\<close> over NVMe, AHCI, SD and USB
    drivers), finds the EFI system partition or an El Torito image, and reads files from its FAT file system
    (\<open>fs/gpt.rs\<close>, \<open>fs/iso9660.rs\<close>, \<open>fs/fat.rs\<close>);
  \<^item> USB devices are enumerated and driven through an interface of the host controllers (\<open>drivers/usb\<close>), keys
    come from USB and PS/2 keyboards (\<open>drivers/keyboard.rs\<close>), and waiting is bounded by timeouts (\<open>time.rs\<close>).

  \<^bold>\<open>Conventions of the model\<close> (theory \<open>Crab_Prelude\<close>)

  Machine integers are words of their width, with wrapping arithmetic as in the release build, and the checked
  operations of the source are \<open>checked_add\<close> and \<open>checked_mul\<close>; \<open>usize\<close> values that count things in memory are
  naturals where no wrap-around is possible. A \<open>heapless::Vec\<close> is a list with a capacity (\<open>vec_push\<close>; its laws
  are the locale \<open>bounded_vec\<close>). Raw memory is a function from 64-bit addresses to bytes, with little-endian
  reads and writes; buffers and strings are lists of bytes. A status result is a sum; a function that can
  panic, run off a buffer or loop for ever returns an option, \<^const>\<open>None\<close> being that case, so a theorem that
  the result is \<^const>\<open>Some\<close> states that the code returns. Logging has no counterpart.

  \<^bold>\<open>Memory\<close>

  \<^item> \<open>Memory_Map\<close>: descriptors, types, coreboot regions, the sort and the merge loop of \<open>merge_entries\<close>, the
    well-formed map (sorted, disjoint, page-aligned) and the region at an address.
  \<^item> \<open>Memory_Split\<close>: what replacing a descriptor by the pieces around a range does to the map.
  \<^item> \<open>Allocator\<close>: \<open>MemoryAllocator\<close> and all its methods. \<open>Allocator_Correct\<close>: the invariant, the abstract
    map from addresses to types and attributes, and the effect of every operation on every branch.
  \<^item> \<open>Allocator_Steps\<close>: the allocator as a state machine. \<open>Pool\<close>: pool allocations with their header in
    memory; the locale \<open>page_provider\<close> is what the pool and the loader need of the allocator.
  \<^item> \<open>Allocator_Props\<close>: the properties. Allocation and freeing refine retyping a range of the abstract map,
    an allocation succeeds whenever there is room, every reachable state is well formed and firmware regions
    are never handed out, and leaving boot services is final.

  \<^item> \<open>Coreboot_Tables\<close>: the search for the coreboot table and the parser of its records
    (\<open>coreboot/tables.rs\<close>), a \<open>partial_function\<close> since forwarding records may point anywhere.
    \<open>Coreboot_Correct\<close> and \<open>Coreboot_Props\<close>: the inductive relation \<open>table_at\<close> says what a table in memory
    holds; parsing returns exactly that and the memory map it lists is the one the allocator starts from.
    A table that forwards to itself is never left (\<open>self_forward_never_returns\<close>).

  \<^item> \<open>Firmware_Tables\<close>, \<open>Firmware_Props\<close>: the ACPI and SMBIOS tables of \<open>efi/system_table.rs\<close>. The regions that are
    collected from the tables in memory are merged without loss, marked in the map of the allocator, and the entry
    points appear in the configuration tables.

  \<^bold>\<open>Images\<close>

  \<^item> \<open>Pe_Loader\<close>: parsing, section copying, relocation, loading and unloading. \<open>Pe_Correct\<close> and \<open>Pe_Props\<close>:
    for every file the loader writes only inside the pages it allocated and leaves no allocation behind
    when it fails; the image holds headers, sections and zeros where the section table says; each relocation
    adds the load offset exactly once.

  \<^bold>\<open>Services\<close>

  \<^item> \<open>Keyed_Store\<close>: the locale \<open>keyed_store\<close>, the contract of the firmware's bounded databases, with what a
    client can rely on through any sequence of requests; it is interpreted on the protocols (\<open>Handles\<close>), the
    configuration tables (\<open>Config_Tables\<close>) and the variables (\<open>Variables\<close>).
  \<^item> \<open>Handles\<close>, \<open>Events\<close>, \<open>Config_Tables\<close>, \<open>Variables\<close>, \<open>Rtc\<close>: the operations and their invariants;
    \<open>Services_Props\<close>: the properties. \<open>wait_for_event\<close> is a loop that may run for ever and is a
    \<open>partial_function\<close>; when it returns is a theorem.
  \<^item> \<open>Boot_Services\<close>: the services over the whole \<open>EfiState\<close>. \<open>Boot_Correct\<close> and \<open>Boot_Steps\<close>: the invariant of
    that state and the table of services as a step relation. \<open>Boot_Props\<close>: every sequence of calls keeps the
    invariant and returns; loading, locating and their failures.

  \<^item> \<open>Device_Path\<close>, \<open>Device_Path_Props\<close>: the constructors of \<open>efi/protocols/device_path.rs\<close> and their
    layout in memory; what they write reads back as the list of nodes of the device.

  \<^bold>\<open>Storage\<close>

  \<^item> \<open>Block_Device\<close>: the \<open>BlockDevice\<close> trait, the devices behind it, and the loops in which the drivers split a
    request. \<open>Block_Reader\<close>: the locale \<open>block_reader\<close>, the contract that a device holds the bytes of a medium,
    interpreted on trait objects and on the devices of \<open>block.rs\<close> whose driver transfers deliver the medium.
  \<^item> \<open>Gpt\<close>, \<open>Gpt_Correct\<close>, \<open>Gpt_Props\<close>: the partition table. The scan in blocks equals a scan of the list of
    entries on the medium, and the first system partition is found.
  \<^item> \<open>Iso9660\<close>, \<open>Iso_Props\<close>: the El Torito catalogue against its records on the medium.
  \<^item> \<open>Fat\<close>, \<open>Fat_Table\<close>, \<open>Fat_Files\<close>, \<open>Fat_Dirs\<close>, \<open>Fat_Props\<close>: the file system. Mounting gives a consistent
    geometry, the table lookup gives the stored successor for all three widths, files are the bytes of
    their chain (locale \<open>chained_data\<close>), and paths follow the tree of directories. The walks over chains are
    \<open>partial_function\<close>s: they end on the finite chains of a volume and, as \<open>cyclic_directory_never_ends\<close>
    shows, not on cyclic ones.

  \<^item> \<open>File_Protocol\<close>, \<open>File_Props\<close>: the handles and operations of \<open>efi/protocols/simple_file_system.rs\<close>
    over the FAT model; opening, reading and seeking refine an abstract file with a position.
  \<^item> \<open>Storage_Stack\<close>, \<open>Block_Io\<close>, \<open>Block_Io_Props\<close>: the registry of \<open>drivers/storage.rs\<close>, the global devices of the
    drivers and the block I/O protocol of \<open>efi/protocols/block_io.rs\<close>. The locale \<open>sector_source\<close> is the contract of
    single-sector reads between them, interpreted on the block devices and on the registry.

  \<^item> \<open>Unicode_Collation\<close>, \<open>Collation_Props\<close>: the functions of \<open>efi/protocols/unicode_collation.rs\<close> on strings in
    memory; matching a pattern agrees with the definition \<open>matches\<close> on lists and always returns.

  \<^item> \<open>Graphics_Output\<close>, \<open>Graphics_Props\<close>: \<open>efi/protocols/graphics_output.rs\<close> and the pixels of
    \<open>coreboot/framebuffer.rs\<close>. The locale \<open>pixel_store\<close> is the contract of the framebuffer and of the caller's
    buffers, interpreted on both; block transfers are operations on pictures.

  \<^bold>\<open>Boot menu and boot flow\<close>

  \<^item> \<open>Boot_Menu\<close>: \<open>menu.rs\<close>, with the record \<open>boot_world\<close> of all state that the boot flow changes. \<open>Menu_Props\<close>: what
    each disk contributes to the list of entries, and that the loop of the menu, a \<open>partial_function\<close>, ends.
  \<^item> \<open>Boot_Flow\<close>: the part of \<open>lib.rs\<close> from the search for entries to entering a boot loader, over the models of
    the registry, the block I/O protocol, the handles, the device paths, FAT and the PE loader. The functions of the
    source for the four kinds of disks are instances of common definitions.
  \<^item> \<open>Flow_Sort\<close>: the exchange sort of the function for SD cards. \<open>Flow_Correct\<close>: the invariant \<open>world_ok\<close> and the view
    \<open>volumes\<close> of the block devices in the handle database; the locale \<open>heap_user\<close> is the contract of the functions
    that put a structure into the pool, interpreted on a device path.
  \<^item> \<open>Flow_Props\<close>: the properties. Publishing a disk adds exactly its volumes and finds its system partition; the
    search lists exactly what can be booted, and one listed entry is booted.

  \<^bold>\<open>Devices and time\<close>

  \<^item> \<open>Time_Base\<close>, \<open>Time_Props\<close>: calibration, delays and timeouts of \<open>time.rs\<close>. The counters show a value at each
    instant; the waiting loops are \<open>partial_function\<close>s, and the properties are that they return while the
    counters run, and with what accuracy.
  \<^item> \<open>Fifo\<close>: rings and the locales \<open>fifo\<close> and \<open>bounded_fifo\<close>, the contract of the queues of the drivers,
    interpreted on the interrupt queue (\<open>Usb_Correct\<close>) and on the key buffer (\<open>Keyboard_Props\<close>).
  \<^item> \<open>Usb_Core\<close>, \<open>Usb_Correct\<close>: descriptors, enumeration and queues of \<open>usb/controller.rs\<close>; \<open>Usb_Storage\<close>: the
    bulk-only transport of \<open>usb/mass_storage.rs\<close>. \<open>Usb_Props\<close>: enumeration finds what the descriptors of a
    device say, and a transport that answers commands from a medium gives a block device that holds it.
  \<^item> \<open>Hid_Keyboard\<close>, \<open>Ps2_Keyboard\<close>, \<open>Keyboard_Props\<close>: both keyboards. The events of a PS/2 keyboard are
    decoded as their history says, reports are queued in order, and the two layouts agree.

  \<^bold>\<open>Parameters\<close>

  What is not code of the firmware is an argument of the definitions that use it: the constants of the
  \<open>r_efi\<close> crate that the services compare with (records), the time and the registers of the clock, the
  counters (\<open>tsc\<close> and \<open>inl\<close>), the drivers and addresses of a machine (record \<open>firmware\<close>), keys that are read (\<open>menu_input\<close>), the host controllers (\<open>usb_controller\<close>) and ports (\<open>ps2_ports\<close>), whether
  input is pending, the result of entering an image, and the transfers of the hardware behind the drivers.
  Bounds and capacities are those of the source; no fuel is used.

  \<^bold>\<open>Not modelled\<close>

  Start-up (\<open>init\<close> of \<open>lib.rs\<close> and \<open>efi/mod.rs\<close>), which calls the parts above in a fixed order; the
  queues, registers and interrupts of the drivers (\<open>drivers/nvme\<close>, \<open>drivers/ahci\<close>, \<open>drivers/sdhci\<close>,
  the host controllers in \<open>drivers/usb\<close>, \<open>drivers/pci\<close>), whose behaviour is that of devices; consoles
  and what the menu draws, which is output; the pass-through protocols, which hand commands on; page tables,
  descriptor tables and assembly (\<open>arch/x86_64\<close>).
\<close>

end
